(* ===== verification/Prelude.thy ===== *)
theory Prelude
  imports Main "HOL-Library.Word" "HOL-Library.Sublist"
begin

text \<open>
  Shared ground of the development: the machine types of the C sources, NUL-terminated
  strings with the \<^verbatim>\<open>string.h\<close> and \<^verbatim>\<open>stdlib.h\<close> functions the sources call, the byte
  order of 32-bit integers, and the generic lemmas on lists and words the components share.

  A \<^verbatim>\<open>char *\<close> is a \<^typ>\<open>string\<close> (its bytes up to the terminating NUL, which is not
  part of the list), a pointer that may be NULL is an \<open>option\<close>.  A pointer into a string
  is the offset from its start, as \<open>nat\<close>.
\<close>

section \<open>Machine types\<close>

type_synonym u8 = "8 word"
type_synonym u32 = "32 word"
type_synonym cstr = "string option"

text \<open>Simplification rules of the wire format, of the C string functions and of the
  reader contracts; each component adds its own facts.\<close>

named_theorems wire_simps
named_theorems cstring_simps
named_theorems reads_intros
named_theorems reads_steps

section \<open>C strings\<close>

abbreviation NUL :: char where
  "NUL \<equiv> CHR 0x00"

text \<open>A list of characters that a \<^verbatim>\<open>char *\<close> can hold.\<close>

definition c_string :: "string \<Rightarrow> bool" where
  "c_string s \<longleftrightarrow> NUL \<notin> set s"

text \<open>\<^verbatim>\<open>strchr\<close> for a character other than NUL: the offset of its first occurrence.\<close>

fun strchr :: "string \<Rightarrow> char \<Rightarrow> nat option" where
  "strchr [] c = None"
| "strchr (x # xs) c = (if x = c then Some 0 else map_option Suc (strchr xs c))"

text \<open>\<^verbatim>\<open>strrchr\<close>: the offset of the last occurrence.\<close>

fun strrchr :: "string \<Rightarrow> char \<Rightarrow> nat option" where
  "strrchr [] c = None"
| "strrchr (x # xs) c =
     (case strrchr xs c of
        Some n \<Rightarrow> Some (Suc n)
      | None \<Rightarrow> if x = c then Some 0 else None)"

text \<open>\<^verbatim>\<open>!strncmp (a, b, n)\<close>: both agree on the first \<open>n\<close> characters, a terminator
  counting as a character.\<close>

definition strneq :: "string \<Rightarrow> string \<Rightarrow> nat \<Rightarrow> bool" where
  "strneq a b n \<longleftrightarrow> take n a = take n b"

text \<open>\<^verbatim>\<open>tolower\<close>, \<^verbatim>\<open>!strcasecmp\<close> and \<^verbatim>\<open>!strncasecmp\<close> on single-byte characters.\<close>

definition tolower :: "char \<Rightarrow> char" where
  "tolower c = (let n = of_char c :: nat in if 65 \<le> n \<and> n \<le> 90 then char_of (n + 32) else c)"

definition strcaseeq :: "string \<Rightarrow> string \<Rightarrow> bool" where
  "strcaseeq a b \<longleftrightarrow> map tolower a = map tolower b"

definition strncaseeq :: "string \<Rightarrow> string \<Rightarrow> nat \<Rightarrow> bool" where
  "strncaseeq a b n \<longleftrightarrow> map tolower (take n a) = map tolower (take n b)"

text \<open>\<^verbatim>\<open>strstr (s, t) != NULL\<close>.\<close>

fun strstr :: "string \<Rightarrow> string \<Rightarrow> bool" where
  "strstr [] t = (t = [])"
| "strstr (x # xs) t = (strneq (x # xs) t (length t) \<or> strstr xs t)"

lemma strchr_None_iff: "strchr s c = None \<longleftrightarrow> c \<notin> set s"
  by (induction s) auto

lemma strchr_first [simp, cstring_simps]: "c \<notin> set a \<Longrightarrow> strchr (a @ c # b) c = Some (length a)"
  by (induction a) auto

lemma strchr_Some: "strchr s c = Some n \<Longrightarrow> n < length s \<and> s ! n = c \<and> c \<notin> set (take n s)"
  by (induction s arbitrary: n) (auto split: if_splits)

lemma strrchr_None_iff: "strrchr s c = None \<longleftrightarrow> c \<notin> set s"
  by (induction s) (auto split: option.splits)

lemma strchr_None [simp]: "c \<notin> set s \<Longrightarrow> strchr s c = None"
  by (simp add: strchr_None_iff)

lemma strrchr_None [simp]: "c \<notin> set s \<Longrightarrow> strrchr s c = None"
  by (simp add: strrchr_None_iff)

lemma strrchr_last [simp, cstring_simps]: "c \<notin> set b \<Longrightarrow> strrchr (a @ c # b) c = Some (length a)"
  by (induction a) simp_all

lemma strrchr_Some:
  "strrchr s c = Some n \<Longrightarrow> n < length s \<and> s ! n = c \<and> c \<notin> set (drop (Suc n) s)"
  by (induction s arbitrary: n) (auto split: if_splits option.splits simp: strrchr_None_iff)

lemma strstr_chars: "strstr s t \<Longrightarrow> set t \<subseteq> set s"
proof (induction s)
  case (Cons x xs)
  then consider "take (length t) (x # xs) = t" | "set t \<subseteq> set xs" by (auto simp: strneq_def)
  then show ?case
  proof cases
    case 1
    then show ?thesis using set_take_subset[of "length t" "x # xs"] by simp
  qed auto
qed simp

lemma strncmp_prefix: "strneq a b (length b) \<longleftrightarrow> take (length b) a = b"
  by (simp add: strneq_def)

text \<open>\<^verbatim>\<open>strtok_r\<close> with a single delimiter character: the next token and what remains
  for the following call, \<open>None\<close> when only delimiters are left.  The character after the
  token is overwritten with NUL and so is skipped.\<close>

definition strtok :: "char \<Rightarrow> string \<Rightarrow> (string \<times> string) option" where
  "strtok d s =
     (let t = dropWhile (\<lambda>c. c = d) s
      in if t = [] then None
         else Some (takeWhile (\<lambda>c. c \<noteq> d) t, drop 1 (dropWhile (\<lambda>c. c \<noteq> d) t)))"

text \<open>All tokens that repeated calls of \<^verbatim>\<open>strtok_r\<close> return.\<close>

function strtok_all :: "char \<Rightarrow> string \<Rightarrow> string list" where
  "strtok_all d s = (case strtok d s of None \<Rightarrow> [] | Some (t, r) \<Rightarrow> t # strtok_all d r)"
  by pat_completeness auto

lemma dropWhile_length_le: "length (dropWhile P xs) \<le> length xs"
  by (induction xs) auto

lemma strtok_shorter:
  assumes "strtok d s = Some (t, r)"
  shows "length r < length s"
proof -
  let ?t = "dropWhile (\<lambda>c. c = d) s"
  from assms have ne: "?t \<noteq> []" and r: "r = drop 1 (dropWhile (\<lambda>c. c \<noteq> d) ?t)"
    by (auto simp: strtok_def Let_def split: if_splits)
  then obtain x xs where x: "?t = x # xs" by (cases ?t) auto
  then have "x \<noteq> d" using hd_dropWhile[of "\<lambda>c. c = d" s] ne by auto
  then have "length r < length ?t"
    using x r dropWhile_length_le[of "\<lambda>c. c \<noteq> d" xs] by auto
  also have "\<dots> \<le> length s" by (rule dropWhile_length_le)
  finally show ?thesis .
qed

termination strtok_all
  by (relation "measure (\<lambda>(d, s). length s)") (auto dest: strtok_shorter)

declare strtok_all.simps [simp del]

text \<open>\<^verbatim>\<open>isspace\<close> in the C locale.\<close>

definition isspace :: "char \<Rightarrow> bool" where
  "isspace c \<longleftrightarrow> (let n = of_char c :: nat in n = 32 \<or> (9 \<le> n \<and> n \<le> 13))"

definition isdigit :: "char \<Rightarrow> bool" where
  "isdigit c \<longleftrightarrow> (let n = of_char c :: nat in 48 \<le> n \<and> n \<le> 57)"

text \<open>The value of a digit character in a base up to 16.\<close>

definition digit_val :: "char \<Rightarrow> nat option" where
  "digit_val c =
     (let n = of_char c :: nat
      in if 48 \<le> n \<and> n \<le> 57 then Some (n - 48)
         else if 97 \<le> n \<and> n \<le> 102 then Some (n - 87)
         else if 65 \<le> n \<and> n \<le> 70 then Some (n - 55)
         else None)"

text \<open>The digits of a number in base \<open>b\<close> at the head of a string: their value and how
  many there are.\<close>

fun scan_digits :: "nat \<Rightarrow> int \<Rightarrow> nat \<Rightarrow> string \<Rightarrow> int \<times> nat" where
  "scan_digits b acc n [] = (acc, n)"
| "scan_digits b acc n (c # cs) =
     (case digit_val c of
        Some d \<Rightarrow> if d < b then scan_digits b (acc * int b + int d) (Suc n) cs else (acc, n)
      | None \<Rightarrow> (acc, n))"

text \<open>What \<^verbatim>\<open>strtoul\<close> skips before the digits: blanks, a sign and in base 16 a prefix.  The result says
  whether the sign is negative, and where the digits start.\<close>

definition number_prefix :: "string \<Rightarrow> nat \<Rightarrow> bool \<times> nat" where
  "number_prefix s b =
     (let w = length (takeWhile isspace s);
          s1 = drop w s;
          sg = (case s1 of c # _ \<Rightarrow> if c = CHR ''+'' \<or> c = CHR ''-'' then 1 else 0 | [] \<Rightarrow> 0);
          neg = (case s1 of c # _ \<Rightarrow> c = CHR ''-'' | [] \<Rightarrow> False);
          s2 = drop sg s1;
          px = (case s2 of
                  z # x # h # _ \<Rightarrow>
                    if b = 16 \<and> z = CHR ''0'' \<and> tolower x = CHR ''x'' \<and>
                       (case digit_val h of Some d \<Rightarrow> d < 16 | None \<Rightarrow> False)
                    then 2 else 0
                | _ \<Rightarrow> 0)
      in (neg, w + sg + px))"

text \<open>\<^verbatim>\<open>strtoul (s, &end, b)\<close> for \<open>b\<close> 10 or 16 with a 64-bit \<^verbatim>\<open>unsigned long\<close>: the value
  and the offset of \<^verbatim>\<open>end\<close>, which is 0 when there is no number.\<close>

definition strtoul :: "string \<Rightarrow> nat \<Rightarrow> int \<times> nat" where
  "strtoul s b =
     (let (neg, off) = number_prefix s b;
          (v, n) = scan_digits b 0 0 (drop off s)
      in if n = 0 then (0, 0)
         else (if 2 ^ 64 \<le> v then 2 ^ 64 - 1
               else if neg then (2 ^ 64 - v) mod 2 ^ 64
               else v,
               off + n))"

lemma scan_digits_nonneg: "0 \<le> acc \<Longrightarrow> 0 \<le> fst (scan_digits b acc n s)"
  by (induction b acc n s rule: scan_digits.induct) (auto split: option.splits)

lemma strtoul_range: "0 \<le> fst (strtoul s b)" "fst (strtoul s b) < 2 ^ 64"
proof -
  obtain neg off where p: "number_prefix s b = (neg, off)" by (cases "number_prefix s b")
  obtain v n where vn: "scan_digits b 0 0 (drop off s) = (v, n)" by (cases "scan_digits b 0 0 (drop off s)")
  have "0 \<le> v" using scan_digits_nonneg[of 0 b 0 "drop off s"] vn by simp
  then show "0 \<le> fst (strtoul s b)" "fst (strtoul s b) < 2 ^ 64"
    by (simp_all add: strtoul_def p vn)
qed

section \<open>Byte order\<close>

datatype endian = Little_Endian | Big_Endian

text \<open>The four bytes of a \<^verbatim>\<open>uint32_t\<close>, most significant first: what a store of
  \<^verbatim>\<open>__cpu_to_be32 (w)\<close> leaves in memory on either host.\<close>

definition be32 :: "u32 \<Rightarrow> string" where
  "be32 w =
     (let n = uint w
      in [char_of (n div 2 ^ 24), char_of (n div 2 ^ 16), char_of (n div 2 ^ 8), char_of n])"

text \<open>A store of \<^verbatim>\<open>w\<close> itself, in the host's byte order.\<close>

definition host32 :: "endian \<Rightarrow> u32 \<Rightarrow> string" where
  "host32 e w = (case e of Big_Endian \<Rightarrow> be32 w | Little_Endian \<Rightarrow> rev (be32 w))"

definition un_be32 :: "string \<Rightarrow> u32" where
  "un_be32 s = word_of_int (foldl (\<lambda>a c. a * 256 + of_char c) 0 s)"

definition un_host32 :: "endian \<Rightarrow> string \<Rightarrow> u32" where
  "un_host32 e s = un_be32 (case e of Big_Endian \<Rightarrow> s | Little_Endian \<Rightarrow> rev s)"

lemma be32_length [simp, wire_simps]: "length (be32 w) = 4"
  by (simp add: be32_def Let_def)

lemma host32_length [simp, wire_simps]: "length (host32 e w) = 4"
  by (simp add: host32_def split: endian.split)

lemma int_bytes4:
  fixes n :: int
  assumes "0 \<le> n" and "n < 2 ^ 32"
  shows "((n div 2 ^ 24 mod 256 * 256 + n div 2 ^ 16 mod 256) * 256 + n div 2 ^ 8 mod 256) * 256
           + n mod 256 = n"
proof -
  have byte: "n div (m * 256) * 256 + n div m mod 256 = n div m" if "0 < m" for m :: int
    using that by (simp add: zdiv_zmult2_eq)
  have top: "n div 2 ^ 24 mod 256 = n div 2 ^ 24" using assms by simp
  have "n div 2 ^ 24 * 256 + n div 2 ^ 16 mod 256 = n div 2 ^ 16" using byte[of "2 ^ 16"] by simp
  moreover have "n div 2 ^ 16 * 256 + n div 2 ^ 8 mod 256 = n div 2 ^ 8"
    using byte[of "2 ^ 8"] by simp
  moreover have "n div 2 ^ 8 * 256 + n mod 256 = n" using byte[of 1] by simp
  ultimately show ?thesis by (simp only: top)
qed

lemma un_be32_be32 [simp, wire_simps]: "un_be32 (be32 w) = w"
proof -
  have "uint w < 2 ^ 32" using uint_bounded[of w] by simp
  with int_bytes4[of "uint w"]
  have "foldl (\<lambda>a c. a * 256 + of_char c) 0 (be32 w) = uint w"
    by (simp only: be32_def Let_def foldl.simps of_char_of uint_ge_0 mult_zero_left add_0)
  then show ?thesis by (simp only: un_be32_def word_of_int_uint)
qed

lemma un_host32_host32 [simp, wire_simps]: "un_host32 e (host32 e w) = w"
  by (simp add: un_host32_def host32_def split: endian.split)

lemma be32_zero: "be32 0 = [NUL, NUL, NUL, NUL]"
  by (simp add: be32_def char_of_def)

lemma be32_inj [simp]: "be32 v = be32 w \<longleftrightarrow> v = w"
  by (metis un_be32_be32)

text \<open>A \<^verbatim>\<open>uint8_t\<close> as a byte of the buffer and back.\<close>

definition char_of_u8 :: "u8 \<Rightarrow> char" where
  "char_of_u8 b = char_of (uint b)"

definition u8_of_char :: "char \<Rightarrow> u8" where
  "u8_of_char c = word_of_int (of_char c)"

lemma u8_of_char_of_u8 [simp, wire_simps]: "u8_of_char (char_of_u8 b) = b"
proof -
  have "uint b < 256" using uint_bounded[of b] by simp
  then show ?thesis by (simp add: u8_of_char_def char_of_u8_def)
qed

lemma char_of_u8_of_char [simp, wire_simps]: "char_of_u8 (u8_of_char c) = c"
  by (simp add: u8_of_char_def char_of_u8_def uint_word_of_int)

end
