(* ===== verification/Types.thy ===== *)
theory Types
  imports Prelude
begin

text \<open>
  The data model shared by the discovery server and the user interfaces:
  \<^verbatim>\<open>lib/types/types.h\<close> and \<^verbatim>\<open>lib/types/types.c\<close>.  Structs are records, with the fields
  that the sources link into lists or reserve for a user interface (\<^verbatim>\<open>list\<close>, \<^verbatim>\<open>ui_info\<close>,
  \<^verbatim>\<open>n_options\<close>, \<^verbatim>\<open>boot_options\<close>) left out; a counted array is a list.  Enums are datatypes
  with one more constructor for the values outside the enumeration that a variable of the
  enum type can hold when it is read from a message.
\<close>

section \<open>Enumerations\<close>

datatype device_type =
    DEVICE_TYPE_NETWORK
  | DEVICE_TYPE_DISK
  | DEVICE_TYPE_USB
  | DEVICE_TYPE_OPTICAL
  | DEVICE_TYPE_ANY
  | DEVICE_TYPE_LUKS
  | DEVICE_TYPE_UNKNOWN
  | DEVICE_TYPE_invalid u32

fun device_type_code :: "device_type \<Rightarrow> u32" where
  "device_type_code DEVICE_TYPE_NETWORK = 0"
| "device_type_code DEVICE_TYPE_DISK = 1"
| "device_type_code DEVICE_TYPE_USB = 2"
| "device_type_code DEVICE_TYPE_OPTICAL = 3"
| "device_type_code DEVICE_TYPE_ANY = 4"
| "device_type_code DEVICE_TYPE_LUKS = 5"
| "device_type_code DEVICE_TYPE_UNKNOWN = 6"
| "device_type_code (DEVICE_TYPE_invalid w) = w"

definition device_type_of_code :: "u32 \<Rightarrow> device_type" where
  "device_type_of_code w =
     (if w = 0 then DEVICE_TYPE_NETWORK else if w = 1 then DEVICE_TYPE_DISK
      else if w = 2 then DEVICE_TYPE_USB else if w = 3 then DEVICE_TYPE_OPTICAL
      else if w = 4 then DEVICE_TYPE_ANY else if w = 5 then DEVICE_TYPE_LUKS
      else if w = 6 then DEVICE_TYPE_UNKNOWN else DEVICE_TYPE_invalid w)"

text \<open>A value whose representation is the one the code reads back.\<close>

fun wf_device_type :: "device_type \<Rightarrow> bool" where
  "wf_device_type (DEVICE_TYPE_invalid w) \<longleftrightarrow> 6 < w"
| "wf_device_type _ \<longleftrightarrow> True"

datatype ipmi_bootdev =
    IPMI_BOOTDEV_NONE
  | IPMI_BOOTDEV_NETWORK
  | IPMI_BOOTDEV_DISK
  | IPMI_BOOTDEV_SAFE
  | IPMI_BOOTDEV_CDROM
  | IPMI_BOOTDEV_SETUP
  | IPMI_BOOTDEV_INVALID
  | IPMI_BOOTDEV_other u32

fun ipmi_bootdev_code :: "ipmi_bootdev \<Rightarrow> u32" where
  "ipmi_bootdev_code IPMI_BOOTDEV_NONE = 0x00"
| "ipmi_bootdev_code IPMI_BOOTDEV_NETWORK = 0x01"
| "ipmi_bootdev_code IPMI_BOOTDEV_DISK = 0x2"
| "ipmi_bootdev_code IPMI_BOOTDEV_SAFE = 0x3"
| "ipmi_bootdev_code IPMI_BOOTDEV_CDROM = 0x5"
| "ipmi_bootdev_code IPMI_BOOTDEV_SETUP = 0x6"
| "ipmi_bootdev_code IPMI_BOOTDEV_INVALID = 0xff"
| "ipmi_bootdev_code (IPMI_BOOTDEV_other w) = w"

definition ipmi_bootdev_of_code :: "u32 \<Rightarrow> ipmi_bootdev" where
  "ipmi_bootdev_of_code w =
     (if w = 0 then IPMI_BOOTDEV_NONE else if w = 1 then IPMI_BOOTDEV_NETWORK
      else if w = 2 then IPMI_BOOTDEV_DISK else if w = 3 then IPMI_BOOTDEV_SAFE
      else if w = 5 then IPMI_BOOTDEV_CDROM else if w = 6 then IPMI_BOOTDEV_SETUP
      else if w = 0xff then IPMI_BOOTDEV_INVALID else IPMI_BOOTDEV_other w)"

text \<open>The names are looked up in the message catalogue: the translation is the parameter
  \<open>tr\<close> (\<^verbatim>\<open>gettext\<close>).\<close>

definition ipmi_bootdev_display_name :: "(string \<Rightarrow> string) \<Rightarrow> ipmi_bootdev \<Rightarrow> string" where
  "ipmi_bootdev_display_name tr bootdev =
     (case bootdev of
        IPMI_BOOTDEV_NONE \<Rightarrow> tr ''None''
      | IPMI_BOOTDEV_NETWORK \<Rightarrow> tr ''Network''
      | IPMI_BOOTDEV_DISK \<Rightarrow> tr ''Disk''
      | IPMI_BOOTDEV_SAFE \<Rightarrow> tr ''Safe Mode''
      | IPMI_BOOTDEV_CDROM \<Rightarrow> tr ''Optical''
      | IPMI_BOOTDEV_SETUP \<Rightarrow> tr ''Setup Mode''
      | _ \<Rightarrow> tr ''Unknown'')"

definition device_type_display_name :: "(string \<Rightarrow> string) \<Rightarrow> device_type \<Rightarrow> string" where
  "device_type_display_name tr t =
     (case t of
        DEVICE_TYPE_DISK \<Rightarrow> tr ''Disk''
      | DEVICE_TYPE_USB \<Rightarrow> tr ''USB''
      | DEVICE_TYPE_OPTICAL \<Rightarrow> tr ''CD/DVD''
      | DEVICE_TYPE_NETWORK \<Rightarrow> tr ''Network''
      | DEVICE_TYPE_ANY \<Rightarrow> tr ''Any''
      | DEVICE_TYPE_LUKS \<Rightarrow> tr ''Encrypted Device''
      | _ \<Rightarrow> tr ''Unknown'')"

definition device_type_name :: "device_type \<Rightarrow> string" where
  "device_type_name t =
     (case t of
        DEVICE_TYPE_DISK \<Rightarrow> ''disk''
      | DEVICE_TYPE_USB \<Rightarrow> ''usb''
      | DEVICE_TYPE_OPTICAL \<Rightarrow> ''optical''
      | DEVICE_TYPE_NETWORK \<Rightarrow> ''network''
      | DEVICE_TYPE_ANY \<Rightarrow> ''any''
      | DEVICE_TYPE_LUKS \<Rightarrow> ''encrypted''
      | _ \<Rightarrow> ''unknown'')"

definition find_device_type :: "string \<Rightarrow> device_type" where
  "find_device_type str =
     (if strneq str ''disk'' (length ''disk'') then DEVICE_TYPE_DISK
      else if strneq str ''usb'' (length ''usb'') then DEVICE_TYPE_USB
      else if strneq str ''optical'' (length ''optical'') then DEVICE_TYPE_OPTICAL
      else if strneq str ''network'' (length ''network'') then DEVICE_TYPE_NETWORK
      else if strneq str ''any'' (length ''any'') then DEVICE_TYPE_ANY
      else if strneq str ''encrypted'' (length ''encrypted'') then DEVICE_TYPE_LUKS
      else DEVICE_TYPE_UNKNOWN)"

datatype config_method =
    CONFIG_METHOD_DHCP
  | CONFIG_METHOD_STATIC
  | CONFIG_METHOD_invalid u32

datatype status_type = STATUS_INFO | STATUS_ERROR | STATUS_invalid u32

datatype option_type =
    DISCOVER_BOOT_OPTION
  | DISCOVER_PLUGIN_OPTION
  | DISCOVER_invalid u32

section \<open>Structures\<close>

record device =
  dev_id :: cstr
  dev_type :: device_type
  dev_name :: cstr
  dev_description :: cstr
  dev_icon_file :: cstr

record boot_option =
  opt_device_id :: cstr
  opt_id :: cstr
  opt_name :: cstr
  opt_description :: cstr
  opt_icon_file :: cstr
  opt_boot_image_file :: cstr
  opt_initrd_file :: cstr
  opt_dtb_file :: cstr
  opt_boot_args :: cstr
  opt_args_sig_file :: cstr
  opt_is_default :: bool
  opt_is_autoboot_default :: bool
  opt_type :: option_type

record plugin_option =
  plg_id :: cstr
  plg_name :: cstr
  plg_vendor :: cstr
  plg_vendor_id :: cstr
  plg_version :: cstr
  plg_date :: cstr
  plg_plugin_file :: cstr
  plg_executables :: "cstr list"

record boot_command =
  cmd_option_id :: cstr
  cmd_boot_image_file :: cstr
  cmd_initrd_file :: cstr
  cmd_dtb_file :: cstr
  cmd_boot_args :: cstr
  cmd_args_sig_file :: cstr
  cmd_console :: cstr

record status =
  st_type :: status_type
  st_message :: cstr
  st_backlog :: bool
  st_boot_active :: bool

record interface_info =
  ifi_hwaddr :: "u8 list"
  ifi_name :: cstr
  ifi_link :: bool
  ifi_address :: cstr
  ifi_address_v6 :: cstr

record blockdev_info =
  bd_name :: cstr
  bd_uuid :: cstr
  bd_mountpoint :: cstr

record system_info =
  si_type :: cstr
  si_identifier :: cstr
  si_platform_primary :: "cstr list"
  si_platform_other :: "cstr list"
  si_bmc_current :: "cstr list"
  si_bmc_golden :: "cstr list"
  si_interfaces :: "interface_info list"
  si_blockdevs :: "blockdev_info list"
  si_bmc_mac :: "u8 list option"
  si_stb_fw_measurement :: bool
  si_stb_fw_enforcing :: bool
  si_stb_os_enforcing :: bool

text \<open>\<^verbatim>\<open>HWADDR_SIZE\<close>.\<close>

definition HWADDR_SIZE :: nat where
  "HWADDR_SIZE = 6"

text \<open>The members of \<^verbatim>\<open>static_config\<close> are NULL while the method is DHCP: every instance is
  allocated zeroed.\<close>

record interface_config =
  ifc_hwaddr :: "u8 list"
  ifc_ignore :: bool
  ifc_method :: config_method
  ifc_address :: cstr
  ifc_gateway :: cstr
  ifc_url :: cstr
  ifc_override :: bool

record network_config =
  net_interfaces :: "interface_config list"
  net_dns_servers :: "cstr list"

text \<open>The tagged union of \<^verbatim>\<open>struct autoboot_option\<close>; a \<^verbatim>\<open>boot_type\<close> outside the
  enumeration is kept with the \<^verbatim>\<open>uuid\<close> member.\<close>

datatype autoboot_option =
    BOOT_DEVICE_TYPE device_type
  | BOOT_DEVICE_UUID cstr
  | BOOT_DEVICE_invalid u32 cstr

record config =
  cfg_autoboot_enabled :: bool
  cfg_autoboot_timeout_sec :: u32
  cfg_network :: network_config
  cfg_preboot_check_enabled :: bool
  cfg_autoboot_opts :: "autoboot_option list"
  cfg_ipmi_bootdev :: u32
  cfg_ipmi_bootdev_persistent :: bool
  cfg_ipmi_bootdev_mailbox :: bool
  cfg_http_proxy :: cstr
  cfg_https_proxy :: cstr
  cfg_allow_writes :: bool
  cfg_boot_console :: cstr
  cfg_manual_console :: bool
  cfg_lang :: cstr
  cfg_consoles :: "cstr list"
  cfg_disable_snapshots :: bool
  cfg_safe_mode :: bool
  cfg_debug :: bool

definition config_autoboot_active :: "config \<Rightarrow> bool" where
  "config_autoboot_active config =
     (let bootdev = ipmi_bootdev_of_code (cfg_ipmi_bootdev config)
      in if \<not> cfg_autoboot_enabled config then False
         else if bootdev = IPMI_BOOTDEV_SETUP \<or> bootdev = IPMI_BOOTDEV_SAFE then False
         else True)"

section \<open>Codes\<close>

lemma device_type_of_code_code [simp]:
  "wf_device_type t \<Longrightarrow> device_type_of_code (device_type_code t) = t"
  by (cases t) (auto simp: device_type_of_code_def)

lemma device_type_code_of_code [simp]: "device_type_code (device_type_of_code w) = w"
  by (simp add: device_type_of_code_def)

lemma ipmi_bootdev_code_of_code [simp]: "ipmi_bootdev_code (ipmi_bootdev_of_code w) = w"
  by (simp add: ipmi_bootdev_of_code_def)

end
