(* ===== verification/Url.thy ===== *)
theory Url
  imports Prelude
begin

text \<open>
  The URL library, \<^verbatim>\<open>lib/url/url.c\<close>: recognising schemes, splitting a URL into host, port and path,
  printing it and joining a file name to it.  Pointers into the URL are offsets.  Allocation
  failures are not modelled.  \<^verbatim>\<open>inet_pton\<close> is a parameter: \<open>pton v6 addr\<close> says whether \<open>addr\<close>
  is a numeric address of the family (IPv6 when \<open>v6\<close>).
\<close>

section \<open>Data\<close>

datatype pb_scheme =
    pb_url_unknown
  | pb_url_file
  | pb_url_ftp
  | pb_url_http
  | pb_url_https
  | pb_url_nfs
  | pb_url_sftp
  | pb_url_tftp

record pb_url =
  url_scheme :: pb_scheme
  url_full :: cstr
  url_host :: cstr
  url_port :: cstr
  url_path :: cstr
  url_dir :: cstr
  url_file :: cstr

record pb_scheme_info =
  si_scheme :: pb_scheme
  si_str :: string
  si_str_len :: nat
  si_has_host :: bool

definition schemes :: "pb_scheme_info list" where
  "schemes =
     [\<lparr>si_scheme = pb_url_file, si_str = ''file'', si_str_len = 4, si_has_host = False\<rparr>,
      \<lparr>si_scheme = pb_url_ftp, si_str = ''ftp'', si_str_len = 3, si_has_host = True\<rparr>,
      \<lparr>si_scheme = pb_url_http, si_str = ''http'', si_str_len = 4, si_has_host = True\<rparr>,
      \<lparr>si_scheme = pb_url_https, si_str = ''https'', si_str_len = 5, si_has_host = True\<rparr>,
      \<lparr>si_scheme = pb_url_nfs, si_str = ''nfs'', si_str_len = 3, si_has_host = True\<rparr>,
      \<lparr>si_scheme = pb_url_sftp, si_str = ''sftp'', si_str_len = 4, si_has_host = True\<rparr>,
      \<lparr>si_scheme = pb_url_tftp, si_str = ''tftp'', si_str_len = 4, si_has_host = True\<rparr>]"

text \<open>The ways a call can abort the process: a failed \<^verbatim>\<open>assert\<close>, or NULL given to
  \<^verbatim>\<open>inet_pton\<close> or \<^verbatim>\<open>strrchr\<close>.\<close>

datatype url_fault = Assert_failed | Null_string

section \<open>Operations\<close>

definition pb_url_scheme_info :: "pb_scheme \<Rightarrow> pb_scheme_info option" where
  "pb_url_scheme_info scheme = find (\<lambda>info. si_scheme info = scheme) schemes"

definition pb_url_find_scheme :: "string \<Rightarrow> pb_scheme_info option" where
  "pb_url_find_scheme url =
     find (\<lambda>scheme.
        \<not> length url < si_str_len scheme + length ''://'' \<and>
        strneq (drop (si_str_len scheme) url) ''://'' (length ''://'') \<and>
        strncaseeq url (si_str scheme) (si_str_len scheme)) schemes"

definition pb_url_parse_path :: "pb_url \<Rightarrow> url_fault + pb_url" where
  "pb_url_parse_path url =
     (case url_path url of
        None \<Rightarrow> Inl Null_string
      | Some path \<Rightarrow>
          (case strrchr path CHR ''/'' of
             Some p \<Rightarrow> Inr (url\<lparr>url_dir := Some (take (Suc p) path),
                                url_file := Some (drop (Suc p) path)\<rparr>)
           | None \<Rightarrow> Inr (url\<lparr>url_dir := None, url_file := Some path\<rparr>)))"

text \<open>\<^verbatim>\<open>for (; *path && *(path+1) == '/'; path++);\<close>\<close>

fun strip_slashes :: "string \<Rightarrow> string" where
  "strip_slashes (c # d # cs) = (if d = CHR ''/'' then strip_slashes (d # cs) else c # d # cs)"
| "strip_slashes cs = cs"

text \<open>\<^verbatim>\<open>talloc_strndup (url, s, len)\<close> for an \<^verbatim>\<open>int\<close> length: a negative one becomes a huge
  \<^verbatim>\<open>size_t\<close>, and the copy ends at the terminator.\<close>

definition strndup_int :: "string \<Rightarrow> int \<Rightarrow> string" where
  "strndup_int s len = (if len < 0 then s else take (nat len) s)"

text \<open>Host and port of the part \<open>p\<close> after \<^verbatim>\<open>://\<close>, with \<open>path\<close> the offset of its first slash.\<close>

definition parse_host :: "string \<Rightarrow> nat \<Rightarrow> string \<times> cstr" where
  "parse_host p path =
     (let col = (case strrchr p CHR '':'' of
                   None \<Rightarrow> None
                 | Some n \<Rightarrow> if n = 0 then None
                            else if strchr (drop n p) CHR '']'' \<noteq> None then None
                            else Some n);
          (port, len) = (case col of
              Some n \<Rightarrow>
                (let len = int path - int n - 1
                 in (if len \<noteq> 0 then Some (strndup_int (drop (Suc n) p) len) else None, n))
            | None \<Rightarrow> (None, path));
          host = (if p ! 0 = CHR ''['' \<and> p ! (len - 1) = CHR '']''
                  then take (len - 2) (drop 1 p)
                  else take len p)
      in (host, port))"

definition pb_url_parse :: "cstr \<Rightarrow> url_fault + pb_url option" where
  "pb_url_parse url_str =
     (case url_str of
        None \<Rightarrow> Inl Assert_failed
      | Some str \<Rightarrow>
          if str = [] then Inl Assert_failed
          else
            (let (scheme, p) = (case pb_url_find_scheme str of
                   Some si \<Rightarrow> (si_scheme si, drop (si_str_len si + length ''://'') str)
                 | None \<Rightarrow> (pb_url_file, str));
                 url = \<lparr>url_scheme = scheme, url_full = Some str, url_host = None, url_port = None,
                        url_path = None, url_dir = None, url_file = None\<rparr>
             in if scheme = pb_url_file
                then map_sum id Some (pb_url_parse_path (url\<lparr>url_path := Some p\<rparr>))
                else (case strchr p CHR ''/'' of
                        None \<Rightarrow> Inr None
                      | Some path \<Rightarrow>
                          (let (host, port) = parse_host p path
                           in map_sum id Some (pb_url_parse_path
                                (url\<lparr>url_host := Some host, url_port := port,
                                     url_path := Some (strip_slashes (drop path p))\<rparr>))))))"

definition is_url :: "string \<Rightarrow> bool" where
  "is_url str = strstr str ''://''"

datatype addr_family = AF_NONE | AF_INET | AF_INET6

definition addr_scheme :: "(bool \<Rightarrow> string \<Rightarrow> bool) \<Rightarrow> string \<Rightarrow> addr_family" where
  "addr_scheme pton address =
     (if pton False address then AF_INET
      else if pton True address then AF_INET6
      else AF_NONE)"

text \<open>A \<^verbatim>\<open>%s\<close> conversion: glibc prints a NULL argument as \<^verbatim>\<open>(null)\<close>.\<close>

definition fmt_s :: "cstr \<Rightarrow> string" where
  "fmt_s s = (case s of Some t \<Rightarrow> t | None \<Rightarrow> ''(null)'')"

definition pb_url_to_string :: "(bool \<Rightarrow> string \<Rightarrow> bool) \<Rightarrow> pb_url \<Rightarrow> url_fault + string" where
  "pb_url_to_string pton url =
     (case pb_url_scheme_info (url_scheme url) of
        None \<Rightarrow> Inl Assert_failed
      | Some scheme \<Rightarrow>
          (let port = (case url_port url of Some q \<Rightarrow> '':'' @ q | None \<Rightarrow> [])
           in if si_has_host scheme
              then (case url_host url of
                      None \<Rightarrow> Inl Null_string
                    | Some host \<Rightarrow>
                        if addr_scheme pton host = AF_INET6
                        then Inr (si_str scheme @ ''://['' @ host @ '']'' @ port @ fmt_s (url_path url))
                        else Inr (si_str scheme @ ''://'' @ host @ port @ fmt_s (url_path url)))
              else Inr (si_str scheme @ ''://'' @ port @ fmt_s (url_path url))))"

definition pb_url_update_full :: "(bool \<Rightarrow> string \<Rightarrow> bool) \<Rightarrow> pb_url \<Rightarrow> url_fault + pb_url" where
  "pb_url_update_full pton url =
     map_sum id (\<lambda>str. url\<lparr>url_full := Some str\<rparr>) (pb_url_to_string pton url)"

text \<open>Every member is duplicated; \<^verbatim>\<open>talloc_strdup\<close> maps NULL to NULL.\<close>

definition pb_url_copy :: "pb_url \<Rightarrow> pb_url" where
  "pb_url_copy url =
     \<lparr>url_scheme = url_scheme url, url_full = url_full url, url_host = url_host url,
      url_port = url_port url, url_path = url_path url, url_dir = url_dir url,
      url_file = url_file url\<rparr>"

definition pb_url_join ::
    "(bool \<Rightarrow> string \<Rightarrow> bool) \<Rightarrow> pb_url \<Rightarrow> string \<Rightarrow> url_fault + pb_url option" where
  "pb_url_join pton url s =
     (if is_url s then pb_url_parse (Some s)
      else
        (let new_url = pb_url_copy url;
             new_url = (if take 1 s = ''/'' then new_url\<lparr>url_path := Some s\<rparr>
                        else new_url\<lparr>url_path := Some (fmt_s (url_dir url) @ s)\<rparr>)
         in case pb_url_parse_path new_url of
              Inl e \<Rightarrow> Inl e
            | Inr new_url \<Rightarrow> map_sum id Some (pb_url_update_full pton new_url)))"

definition pb_url_scheme_name :: "pb_scheme \<Rightarrow> cstr" where
  "pb_url_scheme_name scheme = map_option si_str (pb_url_scheme_info scheme)"

section \<open>Schemes\<close>

lemma schemes_str_len: "si \<in> set schemes \<Longrightarrow> si_str_len si = length (si_str si)"
  by (auto simp: schemes_def)

lemma scheme_info_in: "pb_url_scheme_info s = Some si \<Longrightarrow> si \<in> set schemes \<and> si_scheme si = s"
  by (auto simp: pb_url_scheme_info_def find_Some_iff)

lemma scheme_info_Some [simp]:
  "(\<exists>si. pb_url_scheme_info s = Some si) \<longleftrightarrow> s \<noteq> pb_url_unknown"
  by (cases s) (simp_all add: pb_url_scheme_info_def schemes_def)

text \<open>A printed scheme is recognised: no scheme's name followed by the separator is taken for another.\<close>

lemma tolower_names:
  "tolower CHR ''e'' = CHR ''e''" "tolower CHR ''f'' = CHR ''f''" "tolower CHR ''h'' = CHR ''h''"
  "tolower CHR ''i'' = CHR ''i''" "tolower CHR ''l'' = CHR ''l''" "tolower CHR ''n'' = CHR ''n''"
  "tolower CHR ''p'' = CHR ''p''" "tolower CHR ''s'' = CHR ''s''" "tolower CHR ''t'' = CHR ''t''"
  by (simp_all add: tolower_def)

lemma find_scheme_str:
  "pb_url_scheme_info s = Some si \<Longrightarrow> pb_url_find_scheme (si_str si @ ''://'' @ rest) = Some si"
  unfolding pb_url_scheme_info_def schemes_def
  by (cases s; clarsimp)
     (simp_all add: pb_url_find_scheme_def schemes_def strneq_def strncaseeq_def tolower_names)

lemma has_host_iff:
  "pb_url_scheme_info s = Some si \<Longrightarrow> si_has_host si \<longleftrightarrow> s \<noteq> pb_url_file"
  by (cases s) (auto simp: pb_url_scheme_info_def schemes_def)


section \<open>Paths\<close>

definition path_dir :: "string \<Rightarrow> cstr" where
  "path_dir path = map_option (\<lambda>p. take (Suc p) path) (strrchr path CHR ''/'')"

definition path_file :: "string \<Rightarrow> string" where
  "path_file path = (case strrchr path CHR ''/'' of None \<Rightarrow> path | Some p \<Rightarrow> drop (Suc p) path)"

lemma parse_path_eq:
  "pb_url_parse_path u =
     (case url_path u of
        None \<Rightarrow> Inl Null_string
      | Some path \<Rightarrow> Inr (u\<lparr>url_dir := path_dir path, url_file := Some (path_file path)\<rparr>))"
  by (simp add: pb_url_parse_path_def path_dir_def path_file_def split: option.split)

lemma path_dir_file:
  "CHR ''/'' \<notin> set (path_file path)"
  "case path_dir path of
     Some dir \<Rightarrow> path = dir @ path_file path \<and> dir \<noteq> [] \<and> last dir = CHR ''/''
   | None \<Rightarrow> path = path_file path"
proof -
  have "CHR ''/'' \<notin> set (path_file path) \<and> (case path_dir path of
     Some dir \<Rightarrow> path = dir @ path_file path \<and> dir \<noteq> [] \<and> last dir = CHR ''/''
   | None \<Rightarrow> path = path_file path)"
  proof (cases "strrchr path CHR ''/''")
    case None
    then show ?thesis by (auto simp: path_dir_def path_file_def strrchr_None_iff)
  next
    case (Some n)
    from strrchr_Some[OF this] have "take (Suc n) path \<noteq> []" "last (take (Suc n) path) = CHR ''/''"
      and "CHR ''/'' \<notin> set (drop (Suc n) path)" by (auto simp: take_Suc_conv_app_nth)
    then show ?thesis using Some by (simp add: path_dir_def path_file_def)
  qed
  then show "CHR ''/'' \<notin> set (path_file path)"
    "case path_dir path of
       Some dir \<Rightarrow> path = dir @ path_file path \<and> dir \<noteq> [] \<and> last dir = CHR ''/''
     | None \<Rightarrow> path = path_file path" by blast+
qed

lemma path_dir_abs: "path = CHR ''/'' # t \<Longrightarrow> \<exists>d. path_dir path = Some d \<and> take 1 d = ''/''"
  by (cases "strrchr t CHR ''/''") (auto simp: path_dir_def)

text \<open>the directory and file names that \<^verbatim>\<open>pb_url_parse_path\<close> stores partition the path: the
  directory, when there is one, ends with a slash, and the file name holds none.\<close>

theorem parse_path_partition:
  assumes "url_path u = Some path"
  shows "\<exists>v file. pb_url_parse_path u = Inr v \<and> url_file v = Some file \<and> CHR ''/'' \<notin> set file \<and>
           (case url_dir v of
              Some dir \<Rightarrow> path = dir @ file \<and> dir \<noteq> [] \<and> last dir = CHR ''/''
            | None \<Rightarrow> path = file)"
  using assms path_dir_file[of path] by (simp add: parse_path_eq)

theorem parse_path_partition_witness:
  "\<exists>v file. pb_url_parse_path
        \<lparr>url_scheme = pb_url_file, url_full = None, url_host = None, url_port = None,
         url_path = Some ''/boot/vmlinux'', url_dir = None, url_file = None\<rparr> = Inr v \<and>
      url_file v = Some file \<and> CHR ''/'' \<notin> set file \<and>
      (case url_dir v of
         Some dir \<Rightarrow> ''/boot/vmlinux'' = dir @ file \<and> dir \<noteq> [] \<and> last dir = CHR ''/''
       | None \<Rightarrow> ''/boot/vmlinux'' = file)"
  by (rule parse_path_partition) simp

section \<open>Printing and parsing\<close>

text \<open>A host the parser can recover: a name or an IPv4 address, or an IPv6 address, which is printed
  in brackets.\<close>

definition host_ok :: "(bool \<Rightarrow> string \<Rightarrow> bool) \<Rightarrow> string \<Rightarrow> bool" where
  "host_ok pton h \<longleftrightarrow>
     h \<noteq> [] \<and> list_all (\<lambda>c. c \<notin> set ''/[]'') h \<and> (addr_scheme pton h \<noteq> AF_INET6 \<longrightarrow> CHR '':'' \<notin> set h)"

definition port_ok :: "cstr \<Rightarrow> bool" where
  "port_ok port \<longleftrightarrow>
     (case port of None \<Rightarrow> True | Some q \<Rightarrow> q \<noteq> [] \<and> list_all (\<lambda>c. c \<notin> set ''/:]'') q)"

text \<open>An absolute path without a second slash at its head and without the characters the search for
  the port would stop at.\<close>

definition path_ok :: "string \<Rightarrow> bool" where
  "path_ok path \<longleftrightarrow>
     take 1 path = ''/'' \<and> take 2 path \<noteq> ''//'' \<and> list_all (\<lambda>c. c \<notin> set '':]'') path"

text \<open>A URL whose members belong together: its directory and file partition the path and \<^verbatim>\<open>full\<close> is
  its printed form.\<close>

definition url_ok :: "(bool \<Rightarrow> string \<Rightarrow> bool) \<Rightarrow> pb_url \<Rightarrow> bool" where
  "url_ok pton u \<longleftrightarrow>
     (case (url_full u, url_path u) of
        (Some full, Some path) \<Rightarrow>
          pb_url_to_string pton u = Inr full \<and>
          url_dir u = path_dir path \<and> url_file u = Some (path_file path) \<and>
          (case url_host u of
             None \<Rightarrow> url_scheme u = pb_url_file \<and> url_port u = None
           | Some h \<Rightarrow> url_scheme u \<noteq> pb_url_file \<and> host_ok pton h \<and> port_ok (url_port u) \<and>
                       path_ok path)
      | _ \<Rightarrow> False)"

lemma strip_slashes_ok: "path_ok path \<Longrightarrow> strip_slashes path = path"
  by (cases path rule: strip_slashes.cases) (auto simp: path_ok_def)

text \<open>The text that \<^verbatim>\<open>pb_url_to_string\<close> prints between the separator and the path.\<close>

definition authority :: "(bool \<Rightarrow> string \<Rightarrow> bool) \<Rightarrow> string \<Rightarrow> cstr \<Rightarrow> string" where
  "authority pton h port =
     (if addr_scheme pton h = AF_INET6 then ''['' @ h @ '']'' else h) @
     (case port of Some q \<Rightarrow> '':'' @ q | None \<Rightarrow> [])"

lemma authority_no_slash:
  "host_ok pton h \<Longrightarrow> port_ok port \<Longrightarrow> CHR ''/'' \<notin> set (authority pton h port)"
  by (auto simp: authority_def host_ok_def port_ok_def list_all_iff split: option.splits)

lemma path_ok_slash: "path_ok path \<Longrightarrow> \<exists>t. path = CHR ''/'' # t"
  by (cases path) (auto simp: path_ok_def)

lemma strchr_authority:
  assumes "host_ok pton h" and "port_ok port" and "path_ok path"
  shows "strchr (authority pton h port @ path) CHR ''/'' = Some (length (authority pton h port))"
  using path_ok_slash[OF assms(3)] authority_no_slash[OF assms(1,2)] by (auto simp: strchr_first)

text \<open>With a port, its colon is the last one.\<close>

lemma parse_host_port:
  assumes "CHR '':'' \<notin> set q" "CHR '']'' \<notin> set q" "q \<noteq> []" "CHR '':'' \<notin> set path"
    and "CHR '']'' \<notin> set path" and "a \<noteq> []"
    and "host = (if a ! 0 = CHR ''['' \<and> last a = CHR '']'' then take (length a - 2) (drop 1 a) else a)"
  shows "parse_host (a @ '':'' @ q @ path) (length (a @ '':'' @ q)) = (host, Some q)"
proof -
  have "strrchr (a @ CHR '':'' # (q @ path)) CHR '':'' = Some (length a)"
    using assms(1,4) by (intro strrchr_last) simp
  moreover have "(a @ '':'' @ q @ path) ! (length a - 1) = last a"
    using assms(6) by (simp add: nth_append last_conv_nth)
  moreover have "(a @ '':'' @ q @ path) ! 0 = a ! 0" using assms(6) by (simp add: nth_append)
  ultimately show ?thesis
    using assms by (simp add: parse_host_def strndup_int_def Let_def)
qed

text \<open>Without one, every colon is inside the brackets of an IPv6 address.\<close>

lemma parse_host_plain:
  assumes "CHR '':'' \<notin> set h" "CHR '':'' \<notin> set path" "h \<noteq> []" "h ! 0 \<noteq> CHR ''[''"
  shows "parse_host (h @ path) (length h) = (h, None)"
  using assms by (simp add: parse_host_def nth_append)

lemma parse_host_brackets:
  assumes "CHR '':'' \<notin> set path"
  shows "parse_host (''['' @ h @ '']'' @ path) (length h + 2) = (h, None)"
proof -
  let ?p = "''['' @ h @ '']'' @ path"
  have col: "(case strrchr ?p CHR '':'' of None \<Rightarrow> None
      | Some n \<Rightarrow> if n = 0 then None else if strchr (drop n ?p) CHR '']'' \<noteq> None then None else Some n)
      = None"
  proof (cases "strrchr ?p CHR '':''")
    case (Some n)
    from strrchr_Some[OF this] have n: "n < length ?p" "?p ! n = CHR '':''" by blast+
    have "n \<le> length h"
    proof (rule ccontr)
      assume "\<not> n \<le> length h"
      then have "?p ! n \<in> set ('']'' @ path)" using n(1) by (auto simp: nth_append nth_Cons')
      with n(2) assms show False by auto
    qed
    then have "CHR '']'' \<in> set (drop n ?p)" by (cases n) auto
    then have "strchr (drop n ?p) CHR '']'' \<noteq> None" by (simp only: strchr_None_iff not_not)
    with Some show ?thesis by (simp only: option.case if_True) simp
  qed simp
  show ?thesis unfolding parse_host_def col by (simp add: nth_append)
qed

lemma parse_host_authority:
  assumes "host_ok pton h" and "port_ok port" and "path_ok path"
  shows "parse_host (authority pton h port @ path) (length (authority pton h port)) = (h, port)"
proof -
  have path: "CHR '':'' \<notin> set path" "CHR '']'' \<notin> set path" and h: "h \<noteq> []" "CHR ''['' \<notin> set h"
    using assms(1,3) by (auto simp: path_ok_def host_ok_def list_all_iff)
  then have h0: "h ! 0 \<noteq> CHR ''[''" by (metis length_greater_0_conv nth_mem)
  show ?thesis
  proof (cases port)
    case None
    then show ?thesis
      using parse_host_plain[OF _ path(1) h(1) h0] parse_host_brackets[OF path(1), of h] assms(1)
      by (auto simp: authority_def host_ok_def)
  next
    case (Some q)
    then have q: "CHR '':'' \<notin> set q" "CHR '']'' \<notin> set q" "q \<noteq> []"
      using assms(2) by (auto simp: port_ok_def list_all_iff)
    note port = parse_host_port[OF q path]
    show ?thesis
    proof (cases "addr_scheme pton h = AF_INET6")
      case True
      have "parse_host ((''['' @ h @ '']'') @ '':'' @ q @ path) (length ((''['' @ h @ '']'') @ '':'' @ q))
          = (h, Some q)" by (rule port) simp_all
      then show ?thesis using True Some by (simp add: authority_def)
    next
      case False
      have "parse_host (h @ '':'' @ q @ path) (length (h @ '':'' @ q)) = (h, Some q)"
        by (rule port) (use h h0 in auto)
      then show ?thesis using False Some by (simp add: authority_def)
    qed
  qed
qed

lemma to_string_authority:
  assumes "pb_url_scheme_info (url_scheme u) = Some si" and "url_scheme u \<noteq> pb_url_file"
    and "url_host u = Some h" and "url_path u = Some path"
  shows "pb_url_to_string pton u = Inr (si_str si @ ''://'' @ authority pton h (url_port u) @ path)"
  using assms has_host_iff[OF assms(1)]
  by (simp add: pb_url_to_string_def authority_def fmt_s_def split: option.split)

lemma parse_network:
  assumes "pb_url_scheme_info s = Some si" and "s \<noteq> pb_url_file"
    and "host_ok pton h" and "port_ok port" and "path_ok path"
  defines "full \<equiv> si_str si @ ''://'' @ authority pton h port @ path"
  shows "pb_url_parse (Some full) =
    Inr (Some \<lparr>url_scheme = s, url_full = Some full, url_host = Some h, url_port = port,
               url_path = Some path, url_dir = path_dir path, url_file = Some (path_file path)\<rparr>)"
proof -
  have find: "pb_url_find_scheme full = Some si" and len: "si_str_len si = length (si_str si)"
    and si: "si_scheme si = s"
    unfolding full_def using find_scheme_str[OF assms(1)] scheme_info_in[OF assms(1)] schemes_str_len
    by auto
  have p: "drop (si_str_len si + length ''://'') full = authority pton h port @ path"
    by (simp add: full_def len)
  have "full \<noteq> []" by (simp add: full_def)
  then show ?thesis
    using find p si assms(2) strchr_authority[OF assms(3-5)] parse_host_authority[OF assms(3-5)]
      strip_slashes_ok[OF assms(5)]
    by (simp add: pb_url_parse_def parse_path_eq)
qed

lemma parse_file:
  assumes "full = ''file://'' @ path"
  shows "pb_url_parse (Some full) =
    Inr (Some \<lparr>url_scheme = pb_url_file, url_full = Some full, url_host = None, url_port = None,
               url_path = Some path, url_dir = path_dir path, url_file = Some (path_file path)\<rparr>)"
proof -
  have "pb_url_find_scheme full = pb_url_scheme_info pb_url_file"
    using find_scheme_str[of pb_url_file _ path] assms
    by (simp add: pb_url_scheme_info_def schemes_def)
  then show ?thesis using assms
    by (simp add: pb_url_parse_def parse_path_eq pb_url_scheme_info_def schemes_def)
qed

lemma to_string_scheme: "pb_url_to_string pton u = Inr s \<Longrightarrow> \<exists>si. pb_url_scheme_info (url_scheme u) = Some si"
  by (cases "pb_url_scheme_info (url_scheme u)") (simp_all add: pb_url_to_string_def)

lemma url_ok_parse:
  assumes "url_ok pton u"
  shows "pb_url_parse (url_full u) = Inr (Some u)"
proof -
  from assms obtain full path where u: "url_full u = Some full" "url_path u = Some path"
      "pb_url_to_string pton u = Inr full" "url_dir u = path_dir path" "url_file u = Some (path_file path)"
    by (auto simp: url_ok_def split: option.splits)
  obtain si where si: "pb_url_scheme_info (url_scheme u) = Some si" using to_string_scheme u(3) by blast
  show ?thesis
  proof (cases "url_host u")
    case None
    with assms u have f: "url_scheme u = pb_url_file" "url_port u = None" by (simp_all add: url_ok_def)
    with u si have "full = ''file://'' @ path"
      by (auto simp: pb_url_to_string_def pb_url_scheme_info_def schemes_def fmt_s_def)
    from parse_file[OF this] show ?thesis using u f None by (cases u) simp
  next
    case (Some h)
    with assms u have n: "url_scheme u \<noteq> pb_url_file" "host_ok pton h" "port_ok (url_port u)" "path_ok path"
      by (simp_all add: url_ok_def)
    have "full = si_str si @ ''://'' @ authority pton h (url_port u) @ path"
      using to_string_authority[OF si n(1) Some u(2), of pton] u(3) by simp
    with parse_network[OF si n] show ?thesis using u Some by (cases u) simp
  qed
qed

text \<open>C38: printing and parsing are inverse: the URL that is parsed from the printed form has the same
  scheme, host, port, path, directory and file, for file URLs and for network URLs, with names,
  IPv4 or IPv6 hosts, with and without a port, whatever \<^verbatim>\<open>inet_pton\<close> accepts as an address.\<close>

theorem url_print_parse:
  assumes "url_ok pton u"
  shows "\<exists>s. pb_url_to_string pton u = Inr s \<and> pb_url_parse (Some s) = Inr (Some u)"
  using url_ok_parse[OF assms] assms by (auto simp: url_ok_def split: option.splits)

definition sample_url :: pb_url where
  "sample_url =
     \<lparr>url_scheme = pb_url_tftp, url_full = Some ''tftp://[::1]:69/pxe/a'', url_host = Some ''::1'',
      url_port = Some ''69'', url_path = Some ''/pxe/a'', url_dir = Some ''/pxe/'',
      url_file = Some ''a''\<rparr>"

lemma sample_url_ok: "url_ok (\<lambda>v6 a. v6 \<and> a = ''::1'') sample_url"
  by (simp add: sample_url_def url_ok_def pb_url_to_string_def pb_url_scheme_info_def schemes_def
      path_dir_def path_file_def addr_scheme_def fmt_s_def host_ok_def port_ok_def path_ok_def)

theorem url_print_parse_witness:
  "\<exists>s. pb_url_to_string (\<lambda>v6 a. v6 \<and> a = ''::1'') sample_url = Inr s \<and>
       pb_url_parse (Some s) = Inr (Some sample_url)"
  by (rule url_print_parse[OF sample_url_ok])

section \<open>Joining\<close>

lemma not_is_url: "CHR '':'' \<notin> set s \<Longrightarrow> \<not> is_url s"
  using strstr_chars[of s "''://''"] by (auto simp: is_url_def)

lemma path_ok_relative:
  assumes "path_ok path" and "path_dir path = Some d" and "list_all (\<lambda>c. c \<notin> set '':]'') s"
    and "take 1 s \<noteq> ''/''"
  shows "path_ok (d @ s)"
proof -
  have path: "path = d @ path_file path" "d \<noteq> []" using path_dir_file(2)[of path] assms(2) by auto
  obtain t where "path = CHR ''/'' # t" using path_ok_slash[OF assms(1)] by blast
  with path obtain d' where d': "d = CHR ''/'' # d'" by (cases d) auto
  have "list_all (\<lambda>c. c \<notin> set '':]'') d" using assms(1) path(1)
    by (metis list_all_append path_ok_def)
  moreover have "take 2 (d @ s) \<noteq> ''//''"
  proof (cases d')
    case Nil
    then show ?thesis using assms(4) d' by (cases s) auto
  next
    case (Cons x xs)
    with path(1) d' have "path = CHR ''/'' # x # xs @ path_file path" by simp
    with assms(1) have "x \<noteq> CHR ''/''" by (metis path_ok_def take_Suc_Cons numeral_2_eq_2 take0)
    then show ?thesis using Cons d' by simp
  qed
  ultimately show ?thesis using assms(3) d' by (simp add: path_ok_def)
qed

lemma join_path:
  assumes "pb_url_scheme_info (url_scheme u) = Some si" and "url_scheme u \<noteq> pb_url_file"
    and "url_host u = Some h" "host_ok pton h" "port_ok (url_port u)" "path_ok path"
    and "\<not> is_url s" and "path = (if take 1 s = ''/'' then s else fmt_s (url_dir u) @ s)"
  shows "\<exists>v. pb_url_join pton u s = Inr (Some v) \<and> url_ok pton v \<and>
             url_scheme v = url_scheme u \<and> url_host v = url_host u \<and> url_port v = url_port u \<and>
             url_path v = Some path"
proof -
  let ?full = "si_str si @ ''://'' @ authority pton h (url_port u) @ path"
  let ?v = "\<lparr>url_scheme = url_scheme u, url_full = url_full u, url_host = url_host u,
            url_port = url_port u, url_path = Some path, url_dir = path_dir path,
            url_file = Some (path_file path)\<rparr>"
  have str: "pb_url_to_string pton (?v\<lparr>url_full := f\<rparr>) = Inr ?full" for f
    using to_string_authority[of "?v\<lparr>url_full := f\<rparr>" si h path pton] assms(1-3) by simp
  have "pb_url_join pton u s = map_sum id Some (pb_url_update_full pton ?v)"
    using assms(7,8) by (simp add: pb_url_join_def pb_url_copy_def parse_path_eq)
  then have "pb_url_join pton u s = Inr (Some (?v\<lparr>url_full := Some ?full\<rparr>))"
    using str[of "url_full u"] by (simp add: pb_url_update_full_def)
  moreover have "url_ok pton (?v\<lparr>url_full := Some ?full\<rparr>)"
    using str[of "Some ?full"] assms(2-6) by (simp add: url_ok_def)
  ultimately show ?thesis by simp
qed

text \<open>joining a file name to a network URL.  A relative name replaces the file part and an absolute
  one the whole path; scheme, host and port stay, the result is again consistent, and its printed
  form parses back to it.\<close>

theorem url_join:
  assumes "url_ok pton u" and "url_scheme u \<noteq> pb_url_file"
    and "list_all (\<lambda>c. c \<notin> set '':]'') s" and "take 2 s \<noteq> ''//''"
  shows "\<exists>v. pb_url_join pton u s = Inr (Some v) \<and> url_ok pton v \<and>
             pb_url_parse (url_full v) = Inr (Some v) \<and>
             url_scheme v = url_scheme u \<and> url_host v = url_host u \<and> url_port v = url_port u \<and>
             url_path v = (if take 1 s = ''/'' then Some s else map_option (\<lambda>d. d @ s) (url_dir u))"
proof -
  from assms(1,2) obtain full path h where u: "url_path u = Some path"
      "pb_url_to_string pton u = Inr full" "url_dir u = path_dir path" "url_host u = Some h"
      "host_ok pton h" "port_ok (url_port u)" "path_ok path"
    by (auto simp: url_ok_def split: option.splits)
  obtain si where si: "pb_url_scheme_info (url_scheme u) = Some si" using to_string_scheme u(2) by blast
  obtain d where d: "path_dir path = Some d" using path_ok_slash[OF u(7)] path_dir_abs by blast
  have "path_ok (if take 1 s = ''/'' then s else fmt_s (url_dir u) @ s)"
    using assms(3,4) path_ok_relative[OF u(7) d assms(3)] u(3) d by (auto simp: path_ok_def fmt_s_def)
  moreover have "\<not> is_url s" using assms(3) by (intro not_is_url) (auto simp: list_all_iff)
  ultimately obtain v where v: "pb_url_join pton u s = Inr (Some v)" "url_ok pton v"
      "url_scheme v = url_scheme u" "url_host v = url_host u" "url_port v = url_port u"
      "url_path v = Some (if take 1 s = ''/'' then s else fmt_s (url_dir u) @ s)"
    using join_path[OF si assms(2) u(4-6)] by blast
  from v(6) have "url_path v = (if take 1 s = ''/'' then Some s else map_option (\<lambda>d. d @ s) (url_dir u))"
    using u(3) d by (auto simp: fmt_s_def)
  with v url_ok_parse[OF v(2)] show ?thesis by blast
qed

theorem url_join_witness:
  "\<exists>v. pb_url_join (\<lambda>v6 a. v6 \<and> a = ''::1'') sample_url ''b'' = Inr (Some v) \<and>
       url_path v = Some ''/pxe/b''"
  using url_join[OF sample_url_ok, of "''b''"] by (auto simp: sample_url_def)

section \<open>Limits\<close>

text \<open>a colon in the path of a network URL is taken for the one before the port.  The host then
  runs on into the path, and the port is the rest of the path.\<close>

theorem url_path_colon:
  assumes "CHR ''/'' \<notin> set h" and "h \<noteq> []" and "h ! 0 \<noteq> CHR ''[''"
    and "CHR '':'' \<notin> set b" and "CHR '']'' \<notin> set b"
  shows "\<exists>u. pb_url_parse (Some (''http://'' @ h @ ''/'' @ a @ '':'' @ b)) = Inr (Some u) \<and>
             url_host u = Some (h @ ''/'' @ a) \<and> url_port u = Some b"
proof -
  let ?p = "h @ ''/'' @ a @ '':'' @ b"
  have find: "pb_url_find_scheme (''http://'' @ ?p) = pb_url_scheme_info pb_url_http"
    using find_scheme_str[of pb_url_http _ ?p] by (simp add: pb_url_scheme_info_def schemes_def)
  have "strrchr ((h @ ''/'' @ a) @ CHR '':'' # b) CHR '':'' = Some (length (h @ ''/'' @ a))"
    using assms(4) by (intro strrchr_last)
  then have "parse_host ?p (length h) = (h @ ''/'' @ a, Some b)"
    using assms by (simp add: parse_host_def strndup_int_def nth_append)
  moreover have "strchr ?p CHR ''/'' = Some (length h)" using assms(1) by simp
  ultimately show ?thesis using find
    by (simp add: pb_url_parse_def parse_path_eq pb_url_scheme_info_def schemes_def)
qed

theorem url_path_colon_witness:
  "\<exists>u. pb_url_parse (Some ''http://host/img:v1'') = Inr (Some u) \<and>
       url_host u = Some ''host/img'' \<and> url_port u = Some ''v1''"
  using url_path_colon[of "''host''" "''v1''" "''img''"] by simp

text \<open>the comment in \<^verbatim>\<open>pb_url_join\<close> takes it for granted that a URL has a directory.  A file URL without
  a slash has none, and a relative name joined to it becomes \<^verbatim>\<open>(null)\<close> followed by the name.\<close>

theorem url_join_no_dir:
  assumes "url_scheme u = pb_url_file" and "url_dir u = None"
    and "CHR '':'' \<notin> set s" and "CHR ''/'' \<notin> set s"
  shows "\<exists>v. pb_url_join pton u s = Inr (Some v) \<and> url_path v = Some (''(null)'' @ s)"
proof -
  have "take 1 s \<noteq> ''/''" using assms(4) by (cases s) auto
  then show ?thesis using assms not_is_url[OF assms(3)]
    by (simp add: pb_url_join_def pb_url_copy_def parse_path_eq pb_url_update_full_def fmt_s_def
        pb_url_to_string_def pb_url_scheme_info_def schemes_def)
qed

theorem url_join_no_dir_witness:
  "\<exists>u v. pb_url_parse (Some ''vmlinux'') = Inr (Some u) \<and>
         pb_url_join (\<lambda>v6 a. False) u ''initrd'' = Inr (Some v) \<and> url_path v = Some ''(null)initrd''"
proof -
  let ?u = "\<lparr>url_scheme = pb_url_file, url_full = Some ''vmlinux'', url_host = None, url_port = None,
            url_path = Some ''vmlinux'', url_dir = None, url_file = Some ''vmlinux''\<rparr>"
  have "pb_url_parse (Some ''vmlinux'') = Inr (Some ?u)"
    by (simp add: pb_url_parse_def pb_url_find_scheme_def schemes_def strneq_def parse_path_eq
        path_dir_def path_file_def)
  moreover have "\<exists>v. pb_url_join (\<lambda>v6 a. False) ?u ''initrd'' = Inr (Some v) \<and>
      url_path v = Some (''(null)'' @ ''initrd'')"
    by (rule url_join_no_dir) simp_all
  ultimately show ?thesis by auto
qed

end
