(* ===== verification/Kv_Store.thy ===== *)
theory Kv_Store
  imports Prelude
begin

text \<open>
  The interface that the parameter lists, the events and the parsers' environments share: a store of
  strings under string keys, of which a client only knows that a lookup returns what was written
  last.  \<open>same\<close> is the comparison of keys (\<^verbatim>\<open>strcmp\<close> or \<^verbatim>\<open>strcasecmp\<close>).
\<close>

locale kv_store =
  fixes get :: "'s \<Rightarrow> string \<Rightarrow> string option"
    and put :: "'s \<Rightarrow> string \<Rightarrow> string \<Rightarrow> 's"
    and inv :: "'s \<Rightarrow> bool"
    and same :: "string \<Rightarrow> string \<Rightarrow> bool"
  assumes get_put: "inv s \<Longrightarrow> get (put s k v) k' = (if same k k' then Some v else get s k')"
    and inv_put: "inv s \<Longrightarrow> inv (put s k v)"
begin

definition puts :: "'s \<Rightarrow> (string \<times> string) list \<Rightarrow> 's" where
  "puts s kvs = foldl (\<lambda>s (k, v). put s k v) s kvs"

lemma puts_simps: "puts s [] = s" "puts s ((k, v) # kvs) = puts (put s k v) kvs"
  by (simp_all add: puts_def)

lemma inv_puts: "inv s \<Longrightarrow> inv (puts s kvs)"
  by (induction kvs arbitrary: s) (auto simp: puts_simps inv_put)

text \<open>After any sequence of writes a lookup returns the last value written under the key.\<close>

lemma get_puts:
  "inv s \<Longrightarrow> get (puts s kvs) k' =
     (case find (\<lambda>(k, v). same k k') (rev kvs) of Some (k, v) \<Rightarrow> Some v | None \<Rightarrow> get s k')"
proof (induction kvs rule: rev_induct)
  case (snoc x xs)
  obtain k v where x: "x = (k, v)" by (cases x)
  have "get (puts s (xs @ [x])) k' = get (put (puts s xs) k v) k'"
    by (simp add: puts_def x)
  also have "\<dots> = (if same k k' then Some v else get (puts s xs) k')"
    by (rule get_put) (rule inv_puts[OF snoc.prems])
  finally show ?case using snoc x by simp
qed (simp add: puts_simps)

text \<open>Writes under different keys commute, as far as lookups can tell.\<close>

lemma puts_commute:
  assumes "inv s" and "\<not> (same j i \<and> same k i)"
  shows "get (put (put s j v) k w) i = get (put (put s k w) j v) i"
  using assms by (simp add: get_put inv_put)

end

end
