(* ===== verification/Param_List.thy ===== *)
theory Param_List
  imports Kv_Store
begin

text \<open>
  The list of configuration parameters, \<^verbatim>\<open>lib/param_list\<close>.  \<^verbatim>\<open>list_add\<close> inserts at the head, so the
  linked list is an Isabelle list to which new entries are prepended.
\<close>

record param =
  par_name :: string
  par_value :: string
  par_modified :: bool

record param_list =
  pl_params :: "param list"
  pl_known_params :: "string list"

definition common_known_params :: "string list" where
  "common_known_params =
     [''auto-boot?'', ''petitboot,network'', ''petitboot,timeout'', ''petitboot,bootdevs'',
      ''petitboot,language'', ''petitboot,debug?'', ''petitboot,write?'', ''petitboot,snapshots?'',
      ''petitboot,console'', ''petitboot,http_proxy'', ''petitboot,https_proxy'',
      ''petitboot,password'', ''petitboot,preboot-check'']"

definition param_list_init :: "string list \<Rightarrow> param_list" where
  "param_list_init known_params = \<lparr>pl_params = [], pl_known_params = known_params\<rparr>"

definition param_list_is_known_n :: "param_list \<Rightarrow> string \<Rightarrow> nat \<Rightarrow> bool" where
  "param_list_is_known_n pl name name_len =
     list_ex (\<lambda>known. name_len = length known \<and> strneq name known name_len) (pl_known_params pl)"

definition param_list_is_known :: "param_list \<Rightarrow> string \<Rightarrow> bool" where
  "param_list_is_known pl name = list_ex (\<lambda>known. name = known) (pl_known_params pl)"

definition param_list_get_param :: "param_list \<Rightarrow> string \<Rightarrow> param option" where
  "param_list_get_param pl name = find (\<lambda>param. par_name param = name) (pl_params pl)"

definition param_list_get_value :: "param_list \<Rightarrow> string \<Rightarrow> string option" where
  "param_list_get_value pl name = map_option par_value (param_list_get_param pl name)"

text \<open>The loop over the entries: \<open>None\<close> when no entry has the name.\<close>

fun update_param :: "string \<Rightarrow> string \<Rightarrow> param list \<Rightarrow> param list option" where
  "update_param name value [] = None"
| "update_param name value (param # ps) =
     (if par_name param \<noteq> name then map_option (\<lambda>qs. param # qs) (update_param name value ps)
      else if par_value param = value then Some (param # ps)
      else Some (param\<lparr>par_value := value, par_modified := True\<rparr> # ps))"

definition param_list_set :: "param_list \<Rightarrow> string \<Rightarrow> string \<Rightarrow> bool \<Rightarrow> param_list" where
  "param_list_set pl name value modified_on_create =
     (case update_param name value (pl_params pl) of
        Some ps \<Rightarrow> pl\<lparr>pl_params := ps\<rparr>
      | None \<Rightarrow>
          pl\<lparr>pl_params :=
               \<lparr>par_name = name, par_value = value, par_modified = modified_on_create\<rparr> #
               pl_params pl\<rparr>)"

definition param_list_set_non_empty :: "param_list \<Rightarrow> string \<Rightarrow> string \<Rightarrow> bool \<Rightarrow> param_list" where
  "param_list_set_non_empty pl name value modified_on_create =
     (if param_list_get_value pl name = None \<and> length value = 0 then pl
      else param_list_set pl name value modified_on_create)"

section \<open>Lookup and update\<close>

lemma update_param_None: "update_param n v ps = None \<longleftrightarrow> n \<notin> par_name ` set ps"
  by (induction ps) auto

lemma update_param_names: "update_param n v ps = Some qs \<Longrightarrow> map par_name qs = map par_name ps"
  by (induction ps arbitrary: qs) (auto split: if_splits)

lemma update_param_find:
  "update_param n v ps = Some qs \<Longrightarrow>
     map_option par_value (find (\<lambda>p. par_name p = k) qs) =
       (if n = k then Some v else map_option par_value (find (\<lambda>p. par_name p = k) ps))"
  by (induction ps arbitrary: qs) (auto split: if_splits)

lemma get_value_set:
  "param_list_get_value (param_list_set pl n v m) k =
     (if n = k then Some v else param_list_get_value pl k)"
  by (auto simp: param_list_set_def param_list_get_value_def param_list_get_param_def
      dest: update_param_find[where k = k] split: option.split)

interpretation pls: kv_store param_list_get_value "\<lambda>pl n v. param_list_set pl n v m" "\<lambda>_. True" "(=)"
  for m
  by unfold_locales (simp_all add: get_value_set)

lemma set_names:
  "map par_name (pl_params (param_list_set pl n v m)) =
     (if n \<in> par_name ` set (pl_params pl) then map par_name (pl_params pl)
      else n # map par_name (pl_params pl))"
  using update_param_None[of n v "pl_params pl"]
  by (auto simp: param_list_set_def update_param_names split: option.split)

lemma set_distinct:
  "distinct (map par_name (pl_params pl)) \<Longrightarrow>
     distinct (map par_name (pl_params (param_list_set pl n v m)))"
  by (simp only: set_names) auto

text \<open>a parameter list behaves as a map: after \<^verbatim>\<open>param_list_set\<close> calls in any order a lookup returns the
  last value set under that name, or what it returned before when the name was not set.\<close>

theorem param_list_sets:
  "param_list_get_value (foldl (\<lambda>pl (k, v). param_list_set pl k v m) pl kvs) name =
     (case find (\<lambda>(k, v). k = name) (rev kvs) of
        Some (k, v) \<Rightarrow> Some v
      | None \<Rightarrow> param_list_get_value pl name)"
  using pls.get_puts[of m pl kvs name] by (simp add: pls.puts_def)

lemma set_entry:
  "\<exists>p. param_list_get_param (param_list_set pl n v m) n = Some p \<and> par_value p = v \<and>
       (case param_list_get_param pl n of
          None \<Rightarrow> par_modified p = m
        | Some q \<Rightarrow> par_modified p = (par_modified q \<or> par_value q \<noteq> v))"
proof -
  have "\<exists>p. find (\<lambda>p. par_name p = n) qs = Some p \<and> par_value p = v \<and>
          (\<exists>q. find (\<lambda>p. par_name p = n) ps = Some q \<and>
               par_modified p = (par_modified q \<or> par_value q \<noteq> v))"
    if "update_param n v ps = Some qs" for ps qs
    using that by (induction ps arbitrary: qs) (auto split: if_splits)
  moreover have "find (\<lambda>p. par_name p = n) ps = None" if "update_param n v ps = None" for ps
    using that by (auto simp: update_param_None find_None_iff)
  ultimately show ?thesis
    by (fastforce simp: param_list_set_def param_list_get_param_def split: option.split)
qed

lemma set_other:
  "k \<noteq> n \<Longrightarrow> param_list_get_param (param_list_set pl n v m) k = param_list_get_param pl k"
proof -
  assume k: "k \<noteq> n"
  have "find (\<lambda>p. par_name p = k) qs = find (\<lambda>p. par_name p = k) ps"
    if "update_param n v ps = Some qs" for ps qs
    using that k by (induction ps arbitrary: qs) (auto split: if_splits)
  then show ?thesis using k
    by (auto simp: param_list_set_def param_list_get_param_def split: option.split)
qed

text \<open>the modified flag is a sound record of what has to be written back.  After a set, the entry
  under the name holds the value, and it is marked if the value differs from the one before; no
  other entry changes.\<close>

theorem param_list_set_modified:
  "\<exists>p. param_list_get_param (param_list_set pl n v m) n = Some p \<and> par_value p = v \<and>
       par_modified p = (case param_list_get_param pl n of
                           None \<Rightarrow> m
                         | Some q \<Rightarrow> par_modified q \<or> par_value q \<noteq> v) \<and>
       (\<forall>k. k = n \<or> param_list_get_param (param_list_set pl n v m) k = param_list_get_param pl k)"
  using set_entry[of pl n v m] set_other[of _ n pl v m] by (auto split: option.splits)

end
