(* ===== verification/Platform_Config.thy ===== *)
theory Platform_Config
  imports Types Url Param_List
begin

text \<open>
  The configuration of the server, \<^verbatim>\<open>discover/platform.c\<close>: defaults, the translation between the
  parameters in non-volatile storage and \<^verbatim>\<open>struct config\<close> in both directions, and the platform
  hooks.  The kernel command line, the locale and the registered platforms are parameters.
\<close>

section \<open>Defaults\<close>

text \<open>\<open>cmdline\<close> is the contents of \<^verbatim>\<open>/proc/cmdline\<close>, \<open>None\<close> when it cannot be read; one \<^verbatim>\<open>read\<close>
  of 600 bytes is searched.\<close>

definition config_debug_on_cmdline :: "string option \<Rightarrow> bool" where
  "config_debug_on_cmdline cmdline =
     (case cmdline of
        None \<Rightarrow> False
      | Some s \<Rightarrow> (let buf = take 600 s in if buf = [] then False else strstr buf ''petitboot.debug''))"

text \<open>\<open>lang\<close> is the result of \<^verbatim>\<open>setlocale\<close>.  The members that the function does not set keep the
  value they have.\<close>

definition config_set_defaults :: "string option \<Rightarrow> cstr \<Rightarrow> config \<Rightarrow> config" where
  "config_set_defaults cmdline lang config =
     config\<lparr>cfg_autoboot_enabled := True, cfg_autoboot_timeout_sec := 10,
            cfg_network := \<lparr>net_interfaces = [], net_dns_servers = []\<rparr>,
            cfg_http_proxy := None, cfg_https_proxy := None, cfg_safe_mode := False,
            cfg_allow_writes := True, cfg_disable_snapshots := False,
            cfg_consoles := [], cfg_boot_console := None,
            cfg_autoboot_opts :=
              [BOOT_DEVICE_TYPE DEVICE_TYPE_NETWORK, BOOT_DEVICE_TYPE DEVICE_TYPE_ANY],
            cfg_ipmi_bootdev := 0, cfg_ipmi_bootdev_persistent := False,
            cfg_debug := config_debug_on_cmdline cmdline,
            cfg_lang := (case lang of Some l \<Rightarrow> if length l \<noteq> 0 then Some l else None | None \<Rightarrow> None),
            cfg_preboot_check_enabled := True\<rparr>"

section \<open>The platform\<close>

text \<open>The hooks of a registered platform; \<open>None\<close> is a NULL function pointer.  \<open>plat_probe\<close> is the
  result of probing, \<^verbatim>\<open>int\<close> results are non-zero on failure.\<close>

record platform =
  plat_name :: string
  plat_probe :: bool
  plat_load_config :: "(config \<Rightarrow> config) option"
  plat_save_config :: "(config \<Rightarrow> int) option"
  plat_restrict_clients :: "bool option"
  plat_set_password :: "(string \<Rightarrow> int) option"
  plat_get_sysinfo :: "(system_info \<Rightarrow> int \<times> system_info) option"
  plat_preboot_check :: "(config \<Rightarrow> string \<Rightarrow> bool \<times> cstr) option"

text \<open>The static variables of the module.\<close>

record platform_state =
  ps_platform :: "platform option"
  ps_config :: config

definition platform_init ::
    "platform list \<Rightarrow> string option \<Rightarrow> cstr \<Rightarrow> config \<Rightarrow> platform_state" where
  "platform_init platforms cmdline lang mem =
     (let platform = find plat_probe platforms;
          config = config_set_defaults cmdline lang mem
      in \<lparr>ps_platform = platform,
          ps_config = (case platform of
             Some p \<Rightarrow> (case plat_load_config p of Some load \<Rightarrow> load config | None \<Rightarrow> config)
           | None \<Rightarrow> config)\<rparr>)"

definition platform_preboot_check :: "platform_state \<Rightarrow> string \<Rightarrow> cstr \<Rightarrow> bool \<times> cstr" where
  "platform_preboot_check ps img err_msg =
     (case Option.bind (ps_platform ps) plat_preboot_check of
        Some chk \<Rightarrow> chk (ps_config ps) img
      | None \<Rightarrow> (True, err_msg))"

definition platform_get_sysinfo :: "platform_state \<Rightarrow> system_info \<Rightarrow> int \<times> system_info" where
  "platform_get_sysinfo ps info =
     (case Option.bind (ps_platform ps) plat_get_sysinfo of Some g \<Rightarrow> g info | None \<Rightarrow> (- 1, info))"

definition platform_restrict_clients :: "platform_state \<Rightarrow> bool" where
  "platform_restrict_clients ps =
     (case Option.bind (ps_platform ps) plat_restrict_clients of Some b \<Rightarrow> b | None \<Rightarrow> False)"

definition platform_set_password :: "platform_state \<Rightarrow> string \<Rightarrow> int" where
  "platform_set_password ps hash =
     (case Option.bind (ps_platform ps) plat_set_password of Some f \<Rightarrow> f hash | None \<Rightarrow> - 1)"

text \<open>\<open>same\<close> says whether the argument is the current configuration itself.\<close>

definition config_set :: "bool \<Rightarrow> config \<Rightarrow> platform_state \<Rightarrow> int \<times> platform_state" where
  "config_set same newconfig ps =
     (case Option.bind (ps_platform ps) plat_save_config of
        None \<Rightarrow> (- 1, ps)
      | Some save \<Rightarrow>
          if same then (0, ps)
          else
            (let rc = save newconfig
             in (rc, if rc = 0 then ps\<lparr>ps_config := newconfig\<rparr> else ps)))"

definition config_set_autoboot :: "bool \<Rightarrow> platform_state \<Rightarrow> platform_state" where
  "config_set_autoboot autoboot_enabled ps =
     ps\<lparr>ps_config := (ps_config ps)\<lparr>cfg_autoboot_enabled := autoboot_enabled\<rparr>\<rparr>"

section \<open>Reading the parameters\<close>

definition parse_hwaddr :: "string \<Rightarrow> u8 list option" where
  "parse_hwaddr str =
     (if length str \<noteq> length ''00:00:00:00:00:00'' then None
      else those (map (\<lambda>i.
        let byte = [str ! (i * 3), str ! (i * 3 + 1)]; (x, endp) = strtoul byte 16
        in if endp \<noteq> 2 then None else Some (word_of_int x)) [0..<HWADDR_SIZE]))"

text \<open>An \<^verbatim>\<open>interface_config\<close> from \<^verbatim>\<open>talloc_zero\<close>.\<close>

definition ifconf_zero :: interface_config where
  "ifconf_zero =
     \<lparr>ifc_hwaddr = replicate HWADDR_SIZE 0, ifc_ignore = False, ifc_method = CONFIG_METHOD_DHCP,
      ifc_address = None, ifc_gateway = None, ifc_url = None, ifc_override = False\<rparr>"

text \<open>The tokens after the address of a static configuration.\<close>

definition parse_static :: "interface_config \<Rightarrow> string list \<Rightarrow> interface_config option" where
  "parse_static ifconf toks =
     (case toks of
        [] \<Rightarrow> None
      | address # rest \<Rightarrow>
          (let tok_gw = (case rest of g # _ \<Rightarrow> Some g | [] \<Rightarrow> None);
               tok_url = (case rest of _ # u # _ \<Rightarrow> Some u | _ \<Rightarrow> None);
               (gateway, url) = (case tok_gw of
                   Some g \<Rightarrow> if tok_url \<noteq> None \<or> \<not> is_url g then (Some g, tok_url) else (None, Some g)
                 | None \<Rightarrow> (None, tok_url))
           in Some (ifconf\<lparr>ifc_address := Some address, ifc_gateway := gateway, ifc_url := url\<rparr>)))"

definition parse_interface :: "string \<Rightarrow> interface_config option" where
  "parse_interface confstr =
     (if confstr = [] then None
      else (case strtok_all CHR '','' confstr of
              [] \<Rightarrow> None
            | mac # toks \<Rightarrow>
                (case parse_hwaddr mac of
                   None \<Rightarrow> None
                 | Some hwaddr \<Rightarrow>
                     (let ifconf = ifconf_zero\<lparr>ifc_hwaddr := hwaddr\<rparr>
                      in case toks of
                           [] \<Rightarrow> Some (ifconf\<lparr>ifc_ignore := True\<rparr>)
                         | tok # rest \<Rightarrow>
                             if tok = [] \<or> tok = ''ignore'' then Some (ifconf\<lparr>ifc_ignore := True\<rparr>)
                             else if tok = ''dhcp'' then Some (ifconf\<lparr>ifc_method := CONFIG_METHOD_DHCP\<rparr>)
                             else if tok = ''static''
                             then parse_static (ifconf\<lparr>ifc_method := CONFIG_METHOD_STATIC\<rparr>) rest
                             else None))))"

text \<open>The result code is not looked at by the caller, so only the new configuration is returned.\<close>

definition config_parse_one_interface :: "config \<Rightarrow> string \<Rightarrow> config" where
  "config_parse_one_interface config confstr =
     (case parse_interface confstr of
        None \<Rightarrow> config
      | Some ifconf \<Rightarrow>
          config\<lparr>cfg_network := (cfg_network config)
             \<lparr>net_interfaces := net_interfaces (cfg_network config) @ [ifconf]\<rparr>\<rparr>)"

definition config_parse_one_dns :: "config \<Rightarrow> string \<Rightarrow> config" where
  "config_parse_one_dns config confstr =
     config\<lparr>cfg_network := (cfg_network config)
       \<lparr>net_dns_servers :=
          net_dns_servers (cfg_network config) @ map Some (strtok_all CHR '','' confstr)\<rparr>\<rparr>"

definition populate_network_token :: "config \<Rightarrow> string \<Rightarrow> config" where
  "populate_network_token config tok =
     (if strncaseeq tok ''dns,'' (length ''dns,'')
      then config_parse_one_dns config (drop (length ''dns,'') tok)
      else config_parse_one_interface config tok)"

definition config_populate_network :: "config \<Rightarrow> cstr \<Rightarrow> config" where
  "config_populate_network config cval =
     (case cval of
        None \<Rightarrow> config
      | Some val \<Rightarrow> if val = [] then config
                   else foldl populate_network_token config (strtok_all CHR '' '' val))"

text \<open>One boot device at the head of \<open>pos\<close>, and where the next one starts.  The option is allocated
  uninitialised: \<open>junk\<close> says whether its \<^verbatim>\<open>boot_type\<close> happens to be \<^verbatim>\<open>BOOT_DEVICE_UUID\<close>, which the
  code tests when the device type is unknown.\<close>

definition read_bootdev :: "bool \<Rightarrow> string \<Rightarrow> autoboot_option option \<times> string" where
  "read_bootdev junk pos =
     (let delim = strchr pos CHR '' '';
          (uuid, prefix, rc) =
            (if strneq pos ''uuid:'' (length ''uuid:'') then (True, length ''uuid:'', None)
             else if strneq pos ''mac:'' (length ''mac:'') then (True, length ''mac:'', None)
             else if find_device_type pos \<noteq> DEVICE_TYPE_UNKNOWN
             then (False, 0, Some (BOOT_DEVICE_TYPE (find_device_type pos)))
             else (junk, 0, None));
          len = (case delim of Some d \<Rightarrow> d | None \<Rightarrow> length pos) - prefix;
          opt = (if uuid \<and> len \<noteq> 0 then Some (BOOT_DEVICE_UUID (Some (take len (drop prefix pos))))
                 else rc)
      in (opt, case delim of Some d \<Rightarrow> drop (Suc d) pos | None \<Rightarrow> []))"

lemma read_bootdev_snd:
  "snd (read_bootdev junk pos) =
     (case strchr pos CHR '' '' of Some d \<Rightarrow> drop (Suc d) pos | None \<Rightarrow> [])"
  by (simp add: read_bootdev_def Let_def)

lemma read_bootdev_shorter:
  assumes "pos \<noteq> []" and "(opt, pos') = read_bootdev junk pos"
  shows "length pos' < length pos"
proof -
  have "pos' = (case strchr pos CHR '' '' of Some d \<Rightarrow> drop (Suc d) pos | None \<Rightarrow> [])"
    using assms(2) read_bootdev_snd[of junk pos] by (metis snd_conv)
  then show ?thesis using assms(1) by (auto dest!: strchr_Some split: option.splits)
qed

text \<open>The loop; \<open>junk pos\<close> is the uninitialised memory of the iteration that starts at \<open>pos\<close>.\<close>

function read_bootdevs :: "(string \<Rightarrow> bool) \<Rightarrow> string \<Rightarrow> autoboot_option list" where
  "read_bootdevs junk pos =
     (if pos = [] then []
      else (case read_bootdev (junk pos) pos of
              (None, pos') \<Rightarrow> read_bootdevs junk pos'
            | (Some opt, pos') \<Rightarrow> opt # read_bootdevs junk pos'))"
  by pat_completeness auto

termination read_bootdevs
  by (relation "measure (\<lambda>(junk, pos). length pos)") (auto dest: read_bootdev_shorter)

declare read_bootdevs.simps [simp del]

definition config_populate_bootdev ::
    "(string \<Rightarrow> bool) \<Rightarrow> config \<Rightarrow> param_list \<Rightarrow> config" where
  "config_populate_bootdev junk config pl =
     (let new = (case param_list_get_value pl ''petitboot,bootdevs'' of
                   None \<Rightarrow> []
                 | Some val \<Rightarrow> read_bootdevs junk val)
      in if new = [] then if \<not> cfg_autoboot_enabled config then config\<lparr>cfg_autoboot_opts := []\<rparr> else config
         else config\<lparr>cfg_autoboot_opts := new\<rparr>)"

definition INT_MAX :: int where
  "INT_MAX = 2 ^ 31 - 1"

definition populate_timeout :: "config \<Rightarrow> cstr \<Rightarrow> config" where
  "populate_timeout config val =
     (case val of
        None \<Rightarrow> config
      | Some s \<Rightarrow>
          (let (timeout, endp) = strtoul s 10
           in if endp \<noteq> 0
              then config\<lparr>cfg_autoboot_timeout_sec :=
                     word_of_int (if INT_MAX \<le> timeout then INT_MAX else timeout)\<rparr>
              else config))"

text \<open>\<^verbatim>\<open>if (val) config->member = ...\<close>\<close>

definition if_set :: "cstr \<Rightarrow> (string \<Rightarrow> config \<Rightarrow> config) \<Rightarrow> config \<Rightarrow> config" where
  "if_set val f config = (case val of Some v \<Rightarrow> f v config | None \<Rightarrow> config)"

definition populate_debug :: "cstr \<Rightarrow> config \<Rightarrow> config" where
  "populate_debug val config =
     (if cfg_debug config then config else config\<lparr>cfg_debug := val = Some ''true''\<rparr>)"

text \<open>A console that is set manually is a name, without the \<^verbatim>\<open>[\<close> of a full path.\<close>

definition populate_manual_console :: "config \<Rightarrow> config" where
  "populate_manual_console config =
     config\<lparr>cfg_manual_console :=
       (case cfg_boot_console config of Some c \<Rightarrow> strchr c CHR ''['' = None | None \<Rightarrow> False)\<rparr>"

definition config_populate_all ::
    "(string \<Rightarrow> bool) \<Rightarrow> config \<Rightarrow> param_list \<Rightarrow> config" where
  "config_populate_all junk config0 pl =
     (let get = param_list_get_value pl;
          config = config0\<lparr>cfg_autoboot_enabled := get ''auto-boot?'' \<noteq> Some ''false''\<rparr>;
          config = populate_timeout config (get ''petitboot,timeout'');
          config = config\<lparr>cfg_lang := get ''petitboot,language''\<rparr>;
          config = config_populate_network config (get ''petitboot,network'');
          config = config_populate_bootdev junk config pl;
          config = populate_debug (get ''petitboot,debug?'') config;
          config = if_set (get ''petitboot,write?'')
                     (\<lambda>v c. c\<lparr>cfg_allow_writes := v = ''true''\<rparr>) config;
          config = if_set (get ''petitboot,snapshots?'')
                     (\<lambda>v c. c\<lparr>cfg_disable_snapshots := v = ''false''\<rparr>) config;
          config = if_set (get ''petitboot,console'') (\<lambda>v c. c\<lparr>cfg_boot_console := Some v\<rparr>) config;
          config = populate_manual_console config;
          config = if_set (get ''petitboot,http_proxy'') (\<lambda>v c. c\<lparr>cfg_http_proxy := Some v\<rparr>) config;
          config = if_set (get ''petitboot,https_proxy'') (\<lambda>v c. c\<lparr>cfg_https_proxy := Some v\<rparr>) config
      in config\<lparr>cfg_preboot_check_enabled := get ''petitboot,preboot-check'' \<noteq> Some ''false''\<rparr>)"

section \<open>Writing the parameters\<close>

definition hex_digit :: "nat \<Rightarrow> char" where
  "hex_digit n = ''0123456789abcdef'' ! n"

text \<open>\<^verbatim>\<open>%02x\<close> of a byte.\<close>

definition fmt_02x :: "u8 \<Rightarrow> string" where
  "fmt_02x b = [hex_digit (unat b div 16), hex_digit (unat b mod 16)]"

definition hwaddr_str :: "u8 list \<Rightarrow> string" where
  "hwaddr_str h =
     fmt_02x (h ! 0) @ '':'' @ fmt_02x (h ! 1) @ '':'' @ fmt_02x (h ! 2) @ '':'' @
     fmt_02x (h ! 3) @ '':'' @ fmt_02x (h ! 4) @ '':'' @ fmt_02x (h ! 5)"

definition opt_field :: "cstr \<Rightarrow> string" where
  "opt_field s = (case s of Some t \<Rightarrow> '','' @ t | None \<Rightarrow> [])"

definition interface_config_str :: "interface_config \<Rightarrow> string" where
  "interface_config_str config =
     hwaddr_str (ifc_hwaddr config) @ '','' @
     (if ifc_ignore config then ''ignore''
      else case ifc_method config of
             CONFIG_METHOD_DHCP \<Rightarrow> ''dhcp''
           | CONFIG_METHOD_STATIC \<Rightarrow>
               ''static,'' @ fmt_s (ifc_address config) @ opt_field (ifc_gateway config) @
               opt_field (ifc_url config)
           | _ \<Rightarrow> [])"

fun join_commas :: "cstr list \<Rightarrow> string" where
  "join_commas [] = []"
| "join_commas [s] = fmt_s s"
| "join_commas (s # t # ss) = fmt_s s @ '','' @ join_commas (t # ss)"

definition dns_config_str :: "cstr list \<Rightarrow> string" where
  "dns_config_str dns_servers = ''dns,'' @ join_commas dns_servers"

text \<open>\<^verbatim>\<open>talloc_asprintf_append (val, "%s%s", *val == '\0' ? "" : " ", str)\<close>\<close>

definition append_word :: "string \<Rightarrow> string \<Rightarrow> string" where
  "append_word val str = val @ (if val = [] then [] else '' '') @ str"

definition network_value :: "network_config \<Rightarrow> string" where
  "network_value net =
     (let val = foldl append_word [] (map interface_config_str (net_interfaces net))
      in if net_dns_servers net \<noteq> [] then append_word val (dns_config_str (net_dns_servers net))
         else val)"

definition params_update_network_values :: "param_list \<Rightarrow> string \<Rightarrow> config \<Rightarrow> param_list" where
  "params_update_network_values pl param_name config =
     (let net = cfg_network config
      in if net_interfaces net \<noteq> [] \<and> ifc_override (net_interfaces net ! 0) then pl
         else param_list_set_non_empty pl param_name (network_value net) True)"

text \<open>The loop over the boot devices.  A \<^verbatim>\<open>boot_type\<close> outside the enumeration leaves \<^verbatim>\<open>boot_str\<close>
  as the iteration before set it.\<close>

fun bootdev_loop :: "autoboot_option list \<Rightarrow> string \<Rightarrow> cstr \<Rightarrow> string" where
  "bootdev_loop [] val boot_str = val"
| "bootdev_loop (opt # opts) val boot_str =
     (let boot_str = (case opt of
            BOOT_DEVICE_TYPE t \<Rightarrow> Some (device_type_name t @ '' '')
          | BOOT_DEVICE_UUID u \<Rightarrow> Some (''uuid:'' @ fmt_s u @ '' '')
          | BOOT_DEVICE_invalid w u \<Rightarrow> boot_str)
      in bootdev_loop opts (val @ fmt_s boot_str) boot_str)"

definition params_update_bootdev_values :: "param_list \<Rightarrow> string \<Rightarrow> config \<Rightarrow> param_list" where
  "params_update_bootdev_values pl param_name config =
     param_list_set_non_empty pl param_name (bootdev_loop (cfg_autoboot_opts config) [] None) True"

section \<open>Tokens\<close>

lemma strtok_dropWhile: "strtok d (dropWhile (\<lambda>c. c = d) s) = strtok d s"
  by (simp add: strtok_def)

lemma strtok_all_delims: "dropWhile (\<lambda>c. c = d) a = [] \<Longrightarrow> strtok_all d (a @ b) = strtok_all d b"
proof -
  assume "dropWhile (\<lambda>c. c = d) a = []"
  then have "dropWhile (\<lambda>c. c = d) (a @ b) = dropWhile (\<lambda>c. c = d) b" by (simp add: dropWhile_append)
  then have "strtok d (a @ b) = strtok d b" by (simp add: strtok_def)
  then show ?thesis by (simp add: strtok_all.simps[of d "a @ b"] strtok_all.simps[of d b])
qed

lemma first_delim:
  assumes "d \<notin> set w"
  shows "takeWhile (\<lambda>c. c \<noteq> d) (w @ d # r) = w" "dropWhile (\<lambda>c. c \<noteq> d) (w @ d # r) = d # r"
    "takeWhile (\<lambda>c. c \<noteq> d) w = w" "dropWhile (\<lambda>c. c \<noteq> d) w = []"
  using assms by (induction w) auto

lemma strtok_first:
  assumes "d \<notin> set w" and "w \<noteq> []"
  shows "dropWhile (\<lambda>c. c = d) a = w @ d # r \<Longrightarrow> strtok d a = Some (w, r)"
    and "dropWhile (\<lambda>c. c = d) a = w \<Longrightarrow> strtok d a = Some (w, [])"
  using assms(2) first_delim[OF assms(1)]
  by (simp_all add: strtok_def Let_def del: dropWhile_eq_Nil_conv)

text \<open>The tokens of a string are those before a delimiter and those after it.\<close>

lemma strtok_all_append: "strtok_all d (a @ d # b) = strtok_all d a @ strtok_all d b"
proof (induction d a rule: strtok_all.induct)
  case (1 d a)
  note unf = strtok_all.simps[of d a] strtok_all.simps[of d "a @ d # b"]
  let ?t = "dropWhile (\<lambda>c. c = d) a"
  show ?case
  proof (cases "?t = []")
    case True
    then have "strtok_all d a = []" by (simp add: strtok_all.simps[of d a] strtok_def)
    moreover have "strtok_all d ((a @ [d]) @ b) = strtok_all d b"
      using True by (intro strtok_all_delims) (auto simp: dropWhile_append)
    ultimately show ?thesis by simp
  next
    case False
    have hd: "hd ?t \<noteq> d" using False by (rule hd_dropWhile)
    have ab: "dropWhile (\<lambda>c. c = d) (a @ d # b) = ?t @ d # b" using False by (auto simp: dropWhile_append)
    show ?thesis
    proof (cases "d \<in> set ?t")
      case True
      then obtain w r where t: "?t = w @ d # r" and w: "d \<notin> set w" by (meson split_list_first)
      with hd have ne: "w \<noteq> []" by auto
      have a: "strtok d a = Some (w, r)" by (rule strtok_first(1)[OF w ne t])
      have "strtok d (a @ d # b) = Some (w, r @ d # b)"
        by (rule strtok_first(1)[OF w ne]) (simp add: ab t)
      with a "1.IH"[OF a refl] show ?thesis by (simp add: unf)
    next
      case no: False
      have a: "strtok d a = Some (?t, [])" by (rule strtok_first(2)[OF no False refl])
      have "strtok d (a @ d # b) = Some (?t, b)" by (rule strtok_first(1)[OF no False ab])
      moreover have "strtok_all d [] = []" by (simp add: strtok_all.simps strtok_def)
      ultimately show ?thesis using a by (simp add: unf)
    qed
  qed
qed

lemma strtok_all_Nil [simp]: "strtok_all d [] = []"
  by (simp add: strtok_all.simps strtok_def)

lemma strtok_all_word: "d \<notin> set w \<Longrightarrow> w \<noteq> [] \<Longrightarrow> strtok_all d w = [w]"
proof -
  assume w: "d \<notin> set w" "w \<noteq> []"
  then have "dropWhile (\<lambda>c. c = d) w = w" "takeWhile (\<lambda>c. c \<noteq> d) w = w" "dropWhile (\<lambda>c. c \<noteq> d) w = []"
    by (cases w; auto simp: takeWhile_eq_all_conv dropWhile_eq_Nil_conv)+
  then show ?thesis using w
    by (simp add: strtok_all.simps[of d w] strtok_def del: dropWhile_eq_Nil_conv)
qed

lemma strtok_all_Cons: "d \<notin> set w \<Longrightarrow> w \<noteq> [] \<Longrightarrow> strtok_all d (w @ d # s) = w # strtok_all d s"
  by (simp add: strtok_all_append strtok_all_word)

section \<open>Hardware addresses\<close>

lemma hex_digits_all:
  "list_all (\<lambda>n. digit_val (hex_digit n) = Some n \<and> \<not> isspace (hex_digit n) \<and>
      hex_digit n \<notin> set ''+-, :'') [0..<16]"
  by (simp add: upt_rec hex_digit_def digit_val_def isspace_def)

lemma hex_digit_props:
  assumes "n < 16"
  shows "digit_val (hex_digit n) = Some n" "\<not> isspace (hex_digit n)" "hex_digit n \<notin> set ''+-, :''"
  using hex_digits_all assms by (auto simp: list_all_iff)

lemma number_prefix_hex:
  "a < 16 \<Longrightarrow> number_prefix [hex_digit a, hex_digit b] 16 = (False, 0)"
  using hex_digit_props[of a] by (simp add: number_prefix_def)

lemma strtoul_hex2:
  assumes "a < 16" and "b < 16"
  shows "strtoul [hex_digit a, hex_digit b] 16 = (int a * 16 + int b, 2)"
  using hex_digit_props[OF assms(1)] hex_digit_props[OF assms(2)] assms
  by (simp add: strtoul_def number_prefix_hex numeral_2_eq_2)

lemma strtoul_fmt_02x: "strtoul (fmt_02x b) 16 = (uint b, 2)"
proof -
  have "unat b < 256" using unsigned_less[of b] by simp
  then have "strtoul (fmt_02x b) 16 = (int (unat b div 16) * 16 + int (unat b mod 16), 2)"
    unfolding fmt_02x_def by (intro strtoul_hex2) simp_all
  also have "int (unat b div 16) * 16 + int (unat b mod 16) = int (unat b)"
    by (metis div_mult_mod_eq of_nat_add of_nat_mult of_nat_numeral)
  finally show ?thesis by simp
qed

lemma fmt_02x_chars: "c \<in> set (fmt_02x b) \<Longrightarrow> c \<notin> set '', :'' "
proof -
  have "unat b < 256" using unsigned_less[of b] by simp
  then have "unat b div 16 < 16" "unat b mod 16 < 16" by simp_all
  then show "c \<in> set (fmt_02x b) \<Longrightarrow> c \<notin> set '', :'' "
    using hex_digit_props(3) by (auto simp: fmt_02x_def)
qed

lemma hwaddr_str_chars: "CHR '','' \<notin> set (hwaddr_str h)" "CHR '' '' \<notin> set (hwaddr_str h)"
  using fmt_02x_chars by (auto simp: hwaddr_str_def)

lemma parse_hwaddr_str:
  assumes "length h = HWADDR_SIZE"
  shows "parse_hwaddr (hwaddr_str h) = Some h"
proof -
  obtain a b c d e f where h: "h = [a, b, c, d, e, f]"
    using assms by (auto simp: HWADDR_SIZE_def length_Suc_conv eval_nat_numeral)
  have two: "strtoul [hex_digit (unat x div 16), hex_digit (unat x mod 16)] 16 = (uint x, 2)" for x :: u8
    using strtoul_fmt_02x[of x] by (simp add: fmt_02x_def)
  show ?thesis unfolding h
    by (simp add: parse_hwaddr_def hwaddr_str_def fmt_02x_def HWADDR_SIZE_def upt_rec two)
qed

section \<open>Interfaces\<close>

definition field_ok :: "string \<Rightarrow> bool" where
  "field_ok s \<longleftrightarrow> s \<noteq> [] \<and> CHR '','' \<notin> set s \<and> CHR '' '' \<notin> set s"

definition opt_field_ok :: "cstr \<Rightarrow> bool" where
  "opt_field_ok s \<longleftrightarrow> (case s of None \<Rightarrow> True | Some t \<Rightarrow> field_ok t)"

text \<open>The interface configurations that the parameter can express.  With neither gateway nor URL, or
  both, anything goes; a gateway alone must not look like a URL, and a URL alone must.\<close>

definition iface_ok :: "interface_config \<Rightarrow> bool" where
  "iface_ok c \<longleftrightarrow>
     length (ifc_hwaddr c) = HWADDR_SIZE \<and> \<not> ifc_override c \<and>
     (if ifc_ignore c \<or> ifc_method c = CONFIG_METHOD_DHCP
      then ifc_method c = CONFIG_METHOD_DHCP \<and> ifc_address c = None \<and> ifc_gateway c = None \<and>
           ifc_url c = None
      else ifc_method c = CONFIG_METHOD_STATIC \<and> ifc_address c \<noteq> None \<and>
           opt_field_ok (ifc_address c) \<and> opt_field_ok (ifc_gateway c) \<and> opt_field_ok (ifc_url c) \<and>
           (case (ifc_gateway c, ifc_url c) of
              (Some g, None) \<Rightarrow> \<not> is_url g
            | (None, Some u) \<Rightarrow> is_url u
            | _ \<Rightarrow> True))"

lemma interface_config_str_nonempty: "interface_config_str c \<noteq> []"
  by (simp add: interface_config_str_def hwaddr_str_def fmt_02x_def)

lemma strtok_all_hwaddr:
  "strtok_all CHR '','' (hwaddr_str h @ CHR '','' # s) = hwaddr_str h # strtok_all CHR '','' s"
  by (rule strtok_all_Cons) (simp_all add: hwaddr_str_chars, simp add: hwaddr_str_def fmt_02x_def)

lemma parse_interface_tokens:
  assumes "length (ifc_hwaddr c) = HWADDR_SIZE"
    and "interface_config_str c = hwaddr_str (ifc_hwaddr c) @ CHR '','' # s"
    and "strtok_all CHR '','' s = tok # rest"
  shows "parse_interface (interface_config_str c) =
    (let ifconf = ifconf_zero\<lparr>ifc_hwaddr := ifc_hwaddr c\<rparr>
     in if tok = [] \<or> tok = ''ignore'' then Some (ifconf\<lparr>ifc_ignore := True\<rparr>)
        else if tok = ''dhcp'' then Some (ifconf\<lparr>ifc_method := CONFIG_METHOD_DHCP\<rparr>)
        else if tok = ''static'' then parse_static (ifconf\<lparr>ifc_method := CONFIG_METHOD_STATIC\<rparr>) rest
        else None)"
  using parse_hwaddr_str[OF assms(1)] assms(2,3) interface_config_str_nonempty[of c]
  by (simp add: parse_interface_def strtok_all_hwaddr Let_def)

lemma opt_field_tokens:
  "opt_field_ok g \<Longrightarrow> opt_field_ok u \<Longrightarrow> field_ok a \<Longrightarrow>
     strtok_all CHR '','' (''static,'' @ a @ opt_field g @ opt_field u) =
       ''static'' # a # (case g of None \<Rightarrow> [] | Some x \<Rightarrow> [x]) @ (case u of None \<Rightarrow> [] | Some x \<Rightarrow> [x])"
  using strtok_all_Cons[of "CHR '',''" "''static''"]
  by (cases g; cases u)
     (simp_all add: opt_field_def opt_field_ok_def field_ok_def strtok_all_word strtok_all_Cons)

lemma parse_interface_str:
  assumes "iface_ok c"
  shows "parse_interface (interface_config_str c) = Some c"
proof -
  have len: "length (ifc_hwaddr c) = HWADDR_SIZE" using assms by (simp add: iface_ok_def)
  have words: "strtok_all CHR '','' ''ignore'' = [''ignore'']" "strtok_all CHR '','' ''dhcp'' = [''dhcp'']"
    by (rule strtok_all_word; simp)+
  consider "ifc_ignore c" | "\<not> ifc_ignore c" "ifc_method c = CONFIG_METHOD_DHCP"
    | "\<not> ifc_ignore c" "ifc_method c = CONFIG_METHOD_STATIC"
    using assms by (auto simp: iface_ok_def split: if_splits)
  then show ?thesis
  proof cases
    case 1
    have "parse_interface (interface_config_str c) = Some (ifconf_zero\<lparr>ifc_hwaddr := ifc_hwaddr c, ifc_ignore := True\<rparr>)"
      using parse_interface_tokens[OF len _ words(1)] 1 by (simp add: interface_config_str_def)
    with 1 assms show ?thesis by (cases c) (simp add: iface_ok_def ifconf_zero_def)
  next
    case 2
    have "parse_interface (interface_config_str c) = Some (ifconf_zero\<lparr>ifc_hwaddr := ifc_hwaddr c, ifc_method := CONFIG_METHOD_DHCP\<rparr>)"
      using parse_interface_tokens[OF len _ words(2)] 2 by (simp add: interface_config_str_def)
    with 2 assms show ?thesis by (cases c) (simp add: iface_ok_def ifconf_zero_def)
  next
    case 3
    with assms obtain a where a: "ifc_address c = Some a" "field_ok a"
      and g: "opt_field_ok (ifc_gateway c)" and u: "opt_field_ok (ifc_url c)"
      by (auto simp: iface_ok_def opt_field_ok_def split: option.splits)
    have "parse_interface (interface_config_str c) =
        parse_static (ifconf_zero\<lparr>ifc_hwaddr := ifc_hwaddr c, ifc_method := CONFIG_METHOD_STATIC\<rparr>)
          (a # (case ifc_gateway c of None \<Rightarrow> [] | Some x \<Rightarrow> [x]) @
               (case ifc_url c of None \<Rightarrow> [] | Some x \<Rightarrow> [x]))"
      using parse_interface_tokens[OF len _ opt_field_tokens[OF g u a(2)]] 3 a(1)
      by (simp add: interface_config_str_def fmt_s_def)
    also have "\<dots> = Some c"
      using assms 3 a(1) by (cases c) (auto simp: iface_ok_def ifconf_zero_def parse_static_def split: option.splits)
    finally show ?thesis .
  qed
qed

lemma interface_config_str_word: "iface_ok c \<Longrightarrow> CHR '' '' \<notin> set (interface_config_str c)"
  using hwaddr_str_chars[of "ifc_hwaddr c"]
  by (auto simp: interface_config_str_def iface_ok_def opt_field_def opt_field_ok_def field_ok_def fmt_s_def
      split: if_splits option.splits)

lemma interface_str_not_dns: "\<not> strncaseeq (interface_config_str c) ''dns,'' (length ''dns,'')"
proof -
  have "tolower (hex_digit d) \<noteq> CHR ''n''" if "d < 16" for d
  proof -
    have "list_all (\<lambda>d. tolower (hex_digit d) \<noteq> CHR ''n'') [0..<16]"
      by (simp add: upt_rec hex_digit_def tolower_def)
    then show ?thesis using that by (simp add: list_all_iff)
  qed
  then show ?thesis
    by (simp add: strncaseeq_def interface_config_str_def hwaddr_str_def fmt_02x_def tolower_def)
qed

section \<open>The network parameter\<close>

lemma strtok_all_words:
  "list_all (\<lambda>w. w \<noteq> [] \<and> CHR '' '' \<notin> set w) ws \<Longrightarrow>
     strtok_all CHR '' '' (foldl append_word val ws) = strtok_all CHR '' '' val @ ws"
proof (induction ws arbitrary: val)
  case (Cons w ws)
  then have "strtok_all CHR '' '' (append_word val w) = strtok_all CHR '' '' val @ [w]"
    by (simp add: append_word_def strtok_all_append strtok_all_word)
  with Cons show ?case by simp
qed simp

lemma join_commas_tokens:
  "list_all (\<lambda>s. case s of None \<Rightarrow> False | Some t \<Rightarrow> field_ok t) ss \<Longrightarrow>
     map Some (strtok_all CHR '','' (join_commas ss)) = ss"
  by (induction ss rule: join_commas.induct)
     (auto simp: fmt_s_def field_ok_def strtok_all_word strtok_all_Cons split: option.splits)

lemma join_commas_word:
  "list_all (\<lambda>s. case s of None \<Rightarrow> False | Some t \<Rightarrow> field_ok t) ss \<Longrightarrow> CHR '' '' \<notin> set (join_commas ss)"
  by (induction ss rule: join_commas.induct) (auto simp: fmt_s_def field_ok_def split: option.splits)

definition net_ok :: "network_config \<Rightarrow> bool" where
  "net_ok net \<longleftrightarrow>
     list_all iface_ok (net_interfaces net) \<and>
     list_all (\<lambda>s. case s of None \<Rightarrow> False | Some t \<Rightarrow> field_ok t) (net_dns_servers net)"

lemma network_value_tokens:
  assumes "net_ok net"
  shows "strtok_all CHR '' '' (network_value net) =
    map interface_config_str (net_interfaces net) @
    (if net_dns_servers net = [] then [] else [dns_config_str (net_dns_servers net)])"
proof -
  let ?ws = "map interface_config_str (net_interfaces net)"
  let ?dns = "if net_dns_servers net = [] then [] else [dns_config_str (net_dns_servers net)]"
  have "network_value net = foldl append_word [] (?ws @ ?dns)" by (simp add: network_value_def Let_def)
  moreover have "list_all (\<lambda>w. w \<noteq> [] \<and> CHR '' '' \<notin> set w) (?ws @ ?dns)"
    using assms interface_config_str_word join_commas_word interface_config_str_nonempty
    by (auto simp: net_ok_def list_all_iff dns_config_str_def)
  ultimately show ?thesis using strtok_all_words[of "?ws @ ?dns" "[]"] by simp
qed

lemma populate_interface_str:
  "iface_ok c \<Longrightarrow> populate_network_token config (interface_config_str c) =
     config\<lparr>cfg_network := (cfg_network config)
       \<lparr>net_interfaces := net_interfaces (cfg_network config) @ [c]\<rparr>\<rparr>"
  unfolding populate_network_token_def if_not_P[OF interface_str_not_dns]
  by (simp add: config_parse_one_interface_def parse_interface_str)

lemma populate_interfaces:
  "list_all iface_ok cs \<Longrightarrow>
     foldl populate_network_token config (map interface_config_str cs) =
       config\<lparr>cfg_network := (cfg_network config)
         \<lparr>net_interfaces := net_interfaces (cfg_network config) @ cs\<rparr>\<rparr>"
  by (induction cs arbitrary: config) (simp_all add: populate_interface_str)

text \<open>C37: the network settings survive in the parameter store.  What \<^verbatim>\<open>params_update_network_values\<close> writes
  for the interfaces and DNS servers of a configuration, \<^verbatim>\<open>config_populate_network\<close> reads back
  into the same settings, in the same order.\<close>

theorem network_values_roundtrip:
  assumes "net_ok (cfg_network config)"
    and "cfg_network config0 = \<lparr>net_interfaces = [], net_dns_servers = []\<rparr>"
  shows "cfg_network (config_populate_network config0
           (param_list_get_value (params_update_network_values pl name config) name)) =
         cfg_network config"
proof -
  let ?net = "cfg_network config"
  have no: "\<not> (net_interfaces ?net \<noteq> [] \<and> ifc_override (net_interfaces ?net ! 0))"
    using assms(1) by (cases "net_interfaces ?net") (auto simp: net_ok_def iface_ok_def)
  have dns: "populate_network_token c (dns_config_str ss) =
      c\<lparr>cfg_network := (cfg_network c)\<lparr>net_dns_servers := net_dns_servers (cfg_network c) @ ss\<rparr>\<rparr>"
    if "ss = net_dns_servers ?net" for c ss
    using that assms(1) join_commas_tokens[of ss]
    by (simp add: populate_network_token_def dns_config_str_def strncaseeq_def config_parse_one_dns_def net_ok_def)
  have fold: "cfg_network (foldl populate_network_token config0 (strtok_all CHR '' '' (network_value ?net))) = ?net"
    using network_value_tokens[OF assms(1)] populate_interfaces[of "net_interfaces ?net" config0] dns assms
    by (cases ?net) (auto simp: net_ok_def)
  show ?thesis
  proof (cases "network_value ?net = []")
    case True
    then have e: "?net = \<lparr>net_interfaces = [], net_dns_servers = []\<rparr>" using fold assms(2) by simp
    then show ?thesis using True no assms(2)
      by (simp add: params_update_network_values_def param_list_set_non_empty_def get_value_set
          config_populate_network_def split: option.split)
  next
    case False
    then show ?thesis using fold no
      by (auto simp: params_update_network_values_def param_list_set_non_empty_def get_value_set
          config_populate_network_def Let_def)
  qed
qed

definition sample_net :: network_config where
  "sample_net =
     \<lparr>net_interfaces =
        [\<lparr>ifc_hwaddr = [0, 0x1f, 2, 3, 4, 0xff], ifc_ignore = False, ifc_method = CONFIG_METHOD_STATIC,
          ifc_address = Some ''10.0.0.2/8'', ifc_gateway = None, ifc_url = Some ''tftp://10.0.0.1/'',
          ifc_override = False\<rparr>,
         \<lparr>ifc_hwaddr = [1, 2, 3, 4, 5, 6], ifc_ignore = False, ifc_method = CONFIG_METHOD_DHCP,
          ifc_address = None, ifc_gateway = None, ifc_url = None, ifc_override = False\<rparr>],
      net_dns_servers = [Some ''10.0.0.8'', Some ''10.0.0.9'']\<rparr>"

definition plain_config :: "network_config \<Rightarrow> autoboot_option list \<Rightarrow> config" where
  "plain_config net opts =
     \<lparr>cfg_autoboot_enabled = True, cfg_autoboot_timeout_sec = 10, cfg_network = net,
      cfg_preboot_check_enabled = True, cfg_autoboot_opts = opts, cfg_ipmi_bootdev = 0,
      cfg_ipmi_bootdev_persistent = False, cfg_ipmi_bootdev_mailbox = False, cfg_http_proxy = None,
      cfg_https_proxy = None, cfg_allow_writes = True, cfg_boot_console = None,
      cfg_manual_console = False, cfg_lang = None, cfg_consoles = [], cfg_disable_snapshots = False,
      cfg_safe_mode = False, cfg_debug = False\<rparr>"

theorem network_values_roundtrip_witness:
  "cfg_network (config_populate_network
      (plain_config \<lparr>net_interfaces = [], net_dns_servers = []\<rparr> [])
      (param_list_get_value
         (params_update_network_values (param_list_init common_known_params) ''petitboot,network''
            (plain_config sample_net [])) ''petitboot,network'')) = sample_net"
  by (subst network_values_roundtrip)
     (simp_all add: plain_config_def sample_net_def net_ok_def iface_ok_def opt_field_ok_def
       field_ok_def is_url_def strneq_def HWADDR_SIZE_def)

section \<open>The boot device parameter\<close>

fun bootdev_ok :: "autoboot_option \<Rightarrow> bool" where
  "bootdev_ok (BOOT_DEVICE_TYPE t) \<longleftrightarrow>
     t \<in> {DEVICE_TYPE_NETWORK, DEVICE_TYPE_DISK, DEVICE_TYPE_USB, DEVICE_TYPE_OPTICAL, DEVICE_TYPE_ANY,
          DEVICE_TYPE_LUKS}"
| "bootdev_ok (BOOT_DEVICE_UUID u) \<longleftrightarrow> (case u of None \<Rightarrow> False | Some s \<Rightarrow> s \<noteq> [] \<and> CHR '' '' \<notin> set s)"
| "bootdev_ok (BOOT_DEVICE_invalid w u) \<longleftrightarrow> False"

fun bootdev_str :: "autoboot_option \<Rightarrow> string" where
  "bootdev_str (BOOT_DEVICE_TYPE t) = device_type_name t @ '' ''"
| "bootdev_str (BOOT_DEVICE_UUID u) = ''uuid:'' @ fmt_s u @ '' ''"
| "bootdev_str (BOOT_DEVICE_invalid w u) = []"

lemma bootdev_loop_str:
  "list_all bootdev_ok opts \<Longrightarrow> bootdev_loop opts val prev = val @ concat (map bootdev_str opts)"
proof (induction opts arbitrary: val prev)
  case (Cons opt opts)
  then show ?case by (cases opt) (auto simp: fmt_s_def)
qed simp

lemma read_bootdev_str:
  assumes "bootdev_ok opt"
  shows "read_bootdev junk (bootdev_str opt @ rest) = (Some opt, rest)"
proof (cases opt)
  case (BOOT_DEVICE_TYPE t)
  with assms show ?thesis
    by (cases t) (simp_all add: read_bootdev_def device_type_name_def find_device_type_def strneq_def)
next
  case (BOOT_DEVICE_UUID u)
  with assms obtain s where s: "u = Some s" "s \<noteq> []" "CHR '' '' \<notin> set s" by (auto split: option.splits)
  have "strchr ((''uuid:'' @ s) @ CHR '' '' # rest) CHR '' '' = Some (length (''uuid:'' @ s))"
    using s(3) by (intro strchr_first) simp
  with BOOT_DEVICE_UUID s show ?thesis by (simp add: read_bootdev_def strneq_def fmt_s_def Let_def)
qed (use assms in simp)

lemma read_bootdevs_str:
  "list_all bootdev_ok opts \<Longrightarrow> read_bootdevs junk (concat (map bootdev_str opts)) = opts"
proof (induction opts)
  case (Cons opt opts)
  then have "bootdev_str opt \<noteq> []" by (cases opt) auto
  with Cons read_bootdev_str[of opt _ "concat (map bootdev_str opts)"] show ?case
    by (simp add: read_bootdevs.simps)
qed (simp add: read_bootdevs.simps)

text \<open>the boot order survives in the parameter store: what \<^verbatim>\<open>params_update_bootdev_values\<close> writes is
  read back by \<^verbatim>\<open>config_populate_bootdev\<close> as the same list of devices, in order, whatever the
  uninitialised memory holds.  An empty list is recovered only while autoboot is disabled.\<close>

theorem bootdev_values_roundtrip:
  assumes "list_all bootdev_ok (cfg_autoboot_opts config)"
    and "cfg_autoboot_opts config \<noteq> [] \<or> \<not> cfg_autoboot_enabled config0"
  shows "cfg_autoboot_opts (config_populate_bootdev junk config0
           (params_update_bootdev_values pl ''petitboot,bootdevs'' config)) =
         cfg_autoboot_opts config"
proof -
  let ?opts = "cfg_autoboot_opts config"
  let ?val = "concat (map bootdev_str ?opts)"
  have val: "bootdev_loop ?opts [] None = ?val" using bootdev_loop_str[OF assms(1)] by simp
  have read: "read_bootdevs junk ?val = ?opts" by (rule read_bootdevs_str[OF assms(1)])
  have "(case param_list_get_value (params_update_bootdev_values pl ''petitboot,bootdevs'' config)
             ''petitboot,bootdevs'' of None \<Rightarrow> [] | Some v \<Rightarrow> read_bootdevs junk v) = ?opts"
  proof (cases "param_list_get_value pl ''petitboot,bootdevs'' = None \<and> ?val = []")
    case True
    then have "?opts = []" using read by (simp add: read_bootdevs.simps)
    with True show ?thesis
      by (simp add: params_update_bootdev_values_def param_list_set_non_empty_def val)
  next
    case False
    then show ?thesis using read
      by (auto simp: params_update_bootdev_values_def param_list_set_non_empty_def val get_value_set)
  qed
  then show ?thesis using assms(2) by (auto simp: config_populate_bootdev_def Let_def)
qed

theorem bootdev_values_roundtrip_witness:
  "cfg_autoboot_opts (config_populate_bootdev (\<lambda>_. True) (plain_config sample_net [])
      (params_update_bootdev_values (param_list_init common_known_params) ''petitboot,bootdevs''
         (plain_config sample_net [BOOT_DEVICE_UUID (Some ''1-2''), BOOT_DEVICE_TYPE DEVICE_TYPE_DISK]))) =
   [BOOT_DEVICE_UUID (Some ''1-2''), BOOT_DEVICE_TYPE DEVICE_TYPE_DISK]"
  by (subst bootdev_values_roundtrip) (simp_all add: plain_config_def)

text \<open>a boot device of unknown form is rejected or taken for a UUID depending on the uninitialised
  \<^verbatim>\<open>boot_type\<close> of the option that was allocated for it.\<close>

theorem read_bootdev_uninitialised:
  assumes "w \<noteq> []" and "CHR '' '' \<notin> set w" and "CHR '':'' \<notin> set w"
    and "find_device_type (w @ '' '' @ rest) = DEVICE_TYPE_UNKNOWN"
  shows "read_bootdev True (w @ '' '' @ rest) = (Some (BOOT_DEVICE_UUID (Some w)), rest) \<and>
         read_bootdev False (w @ '' '' @ rest) = (None, rest)"
proof -
  have colon: "\<not> strneq (w @ CHR '' '' # rest) (p @ '':'') (length (p @ '':''))"
    if "CHR '' '' \<notin> set p" for p
  proof
    assume "strneq (w @ CHR '' '' # rest) (p @ '':'') (length (p @ '':''))"
    then have t: "take (length (p @ '':'')) (w @ CHR '' '' # rest) = p @ '':''" by (simp only: strncmp_prefix)
    show False
    proof (cases "length (p @ '':'') \<le> length w")
      case True
      then have "set (p @ '':'') \<subseteq> set w" using t set_take_subset[of "length (p @ '':'')" w] by auto
      with assms(3) show False by auto
    next
      case False
      then have "CHR '' '' \<in> set (take (length (p @ '':'')) (w @ CHR '' '' # rest))"
        by (cases "length (p @ '':'') - length w") auto
      with t that show False by auto
    qed
  qed
  have "strchr (w @ CHR '' '' # rest) CHR '' '' = Some (length w)" using assms(2) by simp
  then show ?thesis using assms colon[of "''uuid''"] colon[of "''mac''"]
    by (simp add: read_bootdev_def Let_def)
qed

theorem read_bootdev_uninitialised_witness:
  "read_bootdev True ''floppy disk'' = (Some (BOOT_DEVICE_UUID (Some ''floppy'')), ''disk'') \<and>
   read_bootdev False ''floppy disk'' = (None, ''disk'')"
  using read_bootdev_uninitialised[of "''floppy''" "''disk''"]
  by (simp add: find_device_type_def strneq_def)

section \<open>All parameters\<close>

lemma populate_network_timeout [simp]:
  "cfg_autoboot_timeout_sec (config_populate_network c v) = cfg_autoboot_timeout_sec c"
proof -
  have "cfg_autoboot_timeout_sec (foldl populate_network_token c toks) = cfg_autoboot_timeout_sec c" for toks
    by (induction toks arbitrary: c)
       (auto simp: populate_network_token_def config_parse_one_dns_def config_parse_one_interface_def
         split: option.split)
  then show ?thesis by (simp add: config_populate_network_def split: option.split)
qed

lemma populate_bootdev_timeout [simp]:
  "cfg_autoboot_timeout_sec (config_populate_bootdev junk c pl) = cfg_autoboot_timeout_sec c"
  by (simp add: config_populate_bootdev_def Let_def)

lemma if_set_timeout [simp]:
  "(\<And>v c. cfg_autoboot_timeout_sec (f v c) = cfg_autoboot_timeout_sec c) \<Longrightarrow>
     cfg_autoboot_timeout_sec (if_set val f c) = cfg_autoboot_timeout_sec c"
  by (simp add: if_set_def split: option.split)

lemma populate_flags_timeout [simp]:
  "cfg_autoboot_timeout_sec (populate_debug val c) = cfg_autoboot_timeout_sec c"
  "cfg_autoboot_timeout_sec (populate_manual_console c) = cfg_autoboot_timeout_sec c"
  by (simp_all add: populate_debug_def populate_manual_console_def)

lemma populate_all_timeout:
  "cfg_autoboot_timeout_sec (config_populate_all junk c pl) =
     cfg_autoboot_timeout_sec (populate_timeout
       (c\<lparr>cfg_autoboot_enabled := param_list_get_value pl ''auto-boot?'' \<noteq> Some ''false''\<rparr>)
       (param_list_get_value pl ''petitboot,timeout''))"
  by (simp add: config_populate_all_def Let_def)

lemma clamp_bounded:
  assumes "0 \<le> t"
  shows "uint (word_of_int (if INT_MAX \<le> t then INT_MAX else t) :: u32) \<le> INT_MAX"
proof -
  let ?t = "if INT_MAX \<le> t then INT_MAX else t"
  have r: "0 \<le> ?t" "?t \<le> INT_MAX" using assms by (auto simp: INT_MAX_def)
  then have "?t < 2 ^ 32" by (simp add: INT_MAX_def)
  then have "uint (word_of_int ?t :: u32) = ?t" using r(1) by (simp only: uint_word_of_int) (simp add: INT_MAX_def)
  with r(2) show ?thesis by simp
qed

text \<open>whatever text the timeout parameter holds, the timeout stays within a non-negative \<^verbatim>\<open>int\<close>: a
  number that is too large or negative is clamped to \<^verbatim>\<open>INT_MAX\<close>, and a text that is not a number
  leaves the timeout as it is.\<close>

theorem timeout_bounded:
  assumes "uint (cfg_autoboot_timeout_sec c) \<le> INT_MAX"
  shows "uint (cfg_autoboot_timeout_sec (config_populate_all junk c pl)) \<le> INT_MAX"
proof (cases "param_list_get_value pl ''petitboot,timeout''")
  case (Some s)
  then show ?thesis
    using assms clamp_bounded[OF strtoul_range(1)[of s 10]]
    by (cases "strtoul s 10") (auto simp: populate_all_timeout populate_timeout_def split: if_splits)
qed (simp add: populate_all_timeout populate_timeout_def assms)

theorem timeout_bounded_witness:
  "uint (cfg_autoboot_timeout_sec (config_populate_all (\<lambda>_. False) (plain_config sample_net [])
      (param_list_set (param_list_init common_known_params) ''petitboot,timeout'' ''-5'' True))) \<le> INT_MAX"
  by (rule timeout_bounded) (simp add: plain_config_def INT_MAX_def)

end
