(* ===== verification/Boot.thy ===== *)
theory Boot
  imports Platform_Config
begin

text \<open>
  Booting an option, \<^verbatim>\<open>discover/boot.c\<close> with the data of \<^verbatim>\<open>discover/boot.h\<close>, \<^verbatim>\<open>discover/resource.h\<close> and
  \<^verbatim>\<open>struct discover_boot_option\<close>.  A task loads the kernel, the initrd, the device tree and their
  signatures; when every load is complete the boot hooks run, the kernel is loaded with kexec and
  the machine is rebooted into it.

  Each function returns the status messages it sent to the callback, in order, or the fault that
  ends the process.  Loads, hooks, signature checks and the kexec tool are external programs:
  their results come from the environment \<open>boot_env\<close>.
\<close>

section \<open>Data\<close>

text \<open>A resource holds a URL once it is resolved, and before that the device and path strings of the
  parser.\<close>

datatype resource =
    Resolved "pb_url option"
  | Unresolved string string

fun resource_resolved :: "resource \<Rightarrow> bool" where
  "resource_resolved (Resolved u) \<longleftrightarrow> True"
| "resource_resolved (Unresolved d p) \<longleftrightarrow> False"

fun resource_url :: "resource \<Rightarrow> pb_url option" where
  "resource_url (Resolved u) = u"
| "resource_url (Unresolved d p) = None"

text \<open>\<open>dbo_device\<close> is a reference to a device of the handler, \<open>dbo_source\<close> the name of the parser.\<close>

record discover_boot_option =
  dbo_source :: string
  dbo_device :: nat
  dbo_option :: boot_option
  dbo_proxy :: cstr
  dbo_boot_image :: "resource option"
  dbo_initrd :: "resource option"
  dbo_dtb :: "resource option"
  dbo_args_sig_file :: "resource option"
  dbo_icon :: "resource option"

datatype load_status = LOAD_OK | LOAD_ERROR | LOAD_ASYNC | LOAD_CANCELLED

record load_result =
  lr_status :: load_status
  lr_local :: cstr

text \<open>The members of the task that a resource's \<^verbatim>\<open>local_path\<close> can point to.\<close>

datatype boot_slot =
    Image | Initrd | Dtb | Image_sig | Initrd_sig | Dtb_sig | Cmdline_sig

record boot_resource =
  br_name :: string
  br_url :: pb_url
  br_slot :: boot_slot
  br_result :: "load_result option"

record boot_task =
  bt_local :: "boot_slot \<Rightarrow> cstr"
  bt_image_override :: cstr
  bt_initrd_override :: cstr
  bt_dtb_override :: cstr
  bt_args :: cstr
  bt_boot_console :: cstr
  bt_dry_run :: bool
  bt_cancelled :: bool
  bt_verify_signature :: bool
  bt_decrypt_files :: bool
  bt_resources :: "boot_resource list"

datatype lockdown = PB_LOCKDOWN_NONE | PB_LOCKDOWN_SIGN | PB_LOCKDOWN_DECRYPT

text \<open>The result of running kexec: an error of \<^verbatim>\<open>process_run_sync\<close>, or success, or failure with the
  output.\<close>

datatype run_result = Run_error | Exit_ok | Exit_failed string

text \<open>\<open>be_hooks\<close> holds the executable boot hooks in the order of their names, each with its standard
  output if it exited with \<^verbatim>\<open>BOOT_HOOK_EXIT_UPDATE\<close>.\<close>

record boot_env =
  be_config :: config
  be_lockdown :: lockdown
  be_load :: "pb_url \<Rightarrow> load_result option"
  be_hooks :: "string option list"
  be_validate :: "boot_task \<Rightarrow> int \<times> boot_task"
  be_preboot_check :: "cstr \<Rightarrow> bool \<times> cstr"
  be_stb_os_enforcing :: bool
  be_debug :: bool
  be_kexec :: "string list \<Rightarrow> run_result"
  be_shutdown :: int
  be_kexec_exec :: "string list \<Rightarrow> int"
  be_pton :: "bool \<Rightarrow> string \<Rightarrow> bool"

text \<open>The messages, one constructor for each format string.\<close>

datatype boot_msg =
    Booting string
  | No_image
  | No_cmdline_signature
  | Error_loading string
  | Loaded string pb_url
  | Couldnt_load string pb_url
  | Running_hooks
  | Preboot_error string
  | Performing_kexec_load
  | Verification_failure int
  | Kexec_load_failed string
  | Performing_kexec_reboot
  | Kexec_reboot_failed
  | Boot_cancelled

type_synonym boot_status = "status_type \<times> boot_msg"

text \<open>Faults: an assertion or NULL given to \<^verbatim>\<open>setenv\<close> or to the URL functions.\<close>

datatype boot_fault = Url_fault url_fault | Setenv_null

type_synonym 'a boot_m = "boot_fault + ('a \<times> boot_status list)"

definition bret :: "'a \<Rightarrow> 'a boot_m" where
  "bret x = Inr (x, [])"

definition bbind :: "'a boot_m \<Rightarrow> ('a \<Rightarrow> 'b boot_m) \<Rightarrow> 'b boot_m" where
  "bbind m k =
     (case m of
        Inl e \<Rightarrow> Inl e
      | Inr (x, out) \<Rightarrow> (case k x of Inl e \<Rightarrow> Inl e | Inr (y, out') \<Rightarrow> Inr (y, out @ out')))"

definition update_status :: "status_type \<Rightarrow> boot_msg \<Rightarrow> unit boot_m" where
  "update_status t msg = Inr ((), [(t, msg)])"

definition of_url :: "url_fault + 'a \<Rightarrow> 'a boot_m" where
  "of_url r = (case r of Inl e \<Rightarrow> Inl (Url_fault e) | Inr x \<Rightarrow> bret x)"

section \<open>Loading and starting the kernel\<close>

text \<open>The arguments after the action.  A NULL image ends the vector.\<close>

definition kexec_args :: "boot_env \<Rightarrow> boot_task \<Rightarrow> string list" where
  "kexec_args env task =
     (let initrd = (case bt_initrd_override task of Some f \<Rightarrow> Some f | None \<Rightarrow> bt_local task Initrd);
          dtb = (case bt_dtb_override task of Some f \<Rightarrow> Some f | None \<Rightarrow> bt_local task Dtb);
          img = (case bt_image_override task of Some f \<Rightarrow> Some f | None \<Rightarrow> bt_local task Image)
      in (if be_debug env then [''--debug''] else []) @
         (case initrd of Some f \<Rightarrow> [''--initrd='' @ f] | None \<Rightarrow> []) @
         (case dtb of Some f \<Rightarrow> [''--dtb='' @ f] | None \<Rightarrow> []) @
         [''--append='' @ (case bt_args task of Some a \<Rightarrow> a | None \<Rightarrow> ''\"\"'')] @
         (case img of Some f \<Rightarrow> [f] | None \<Rightarrow> []))"

text \<open>The loop over the actions, with the result and the error output so far.\<close>

fun kexec_try :: "boot_env \<Rightarrow> string list \<Rightarrow> string list \<Rightarrow> int \<Rightarrow> cstr \<Rightarrow> int \<times> cstr" where
  "kexec_try env args [] result err = (result, err)"
| "kexec_try env args (act # acts) result err =
     (if be_stb_os_enforcing env \<and> act = ''-l'' then kexec_try env args acts result err
      else case be_kexec env (act # args) of
             Run_error \<Rightarrow> kexec_try env args acts (- 1) err
           | Exit_ok \<Rightarrow> (0, err)
           | Exit_failed out \<Rightarrow> kexec_try env args acts (- 1) (if out \<noteq> [] then Some out else err))"

definition kexec_load :: "boot_env \<Rightarrow> boot_task \<Rightarrow> int boot_m" where
  "kexec_load env task0 =
     (let task1 = task0\<lparr>bt_image_override := None, bt_initrd_override := None, bt_dtb_override := None\<rparr>;
          (result, task) = be_validate env task1
      in if result \<noteq> 0
         then bbind (update_status STATUS_ERROR (Verification_failure result)) (\<lambda>_. bret result)
         else
           (let (result, err) = kexec_try env (kexec_args env task) [''-l'', ''-s''] result None
            in bbind
                 (if result \<noteq> 0
                  then update_status STATUS_ERROR
                         (Kexec_load_failed (case err of Some e \<Rightarrow> e | None \<Rightarrow> ''(no output)''))
                  else bret ())
                 (\<lambda>_. bret result)))"

definition kexec_reboot :: "boot_env \<Rightarrow> int" where
  "kexec_reboot env =
     (let result = be_shutdown env;
          result = (if result \<noteq> 0 then be_kexec_exec env [''-e''] else result)
      in if result \<noteq> 0 then be_kexec_exec env [''-e'', ''-f''] else result)"

section \<open>Boot hooks\<close>

definition boot_hook_update_param :: "boot_task \<Rightarrow> string \<Rightarrow> string \<Rightarrow> boot_task" where
  "boot_hook_update_param task name value =
     (if name = ''boot_image'' then task\<lparr>bt_local := (bt_local task)(Image := Some value)\<rparr>
      else if name = ''boot_initrd'' then task\<lparr>bt_local := (bt_local task)(Initrd := Some value)\<rparr>
      else if name = ''boot_dtb'' then task\<lparr>bt_local := (bt_local task)(Dtb := Some value)\<rparr>
      else if name = ''boot_args'' then task\<lparr>bt_args := Some value\<rparr>
      else task)"

definition boot_hook_line :: "boot_task \<Rightarrow> string \<Rightarrow> boot_task" where
  "boot_hook_line task line =
     (case strchr line CHR ''='' of
        None \<Rightarrow> task
      | Some sep \<Rightarrow> boot_hook_update_param task (take sep line) (drop (Suc sep) line))"

definition boot_hook_update :: "boot_task \<Rightarrow> string \<Rightarrow> boot_task" where
  "boot_hook_update task buf = foldl boot_hook_line task (strtok_all (CHR 0x0A) buf)"

text \<open>\<^verbatim>\<open>boot_hook_setenv\<close> passes \<^verbatim>\<open>local_image\<close> to \<^verbatim>\<open>setenv\<close> without a test.\<close>

definition boot_hook_setenv :: "boot_task \<Rightarrow> unit boot_m" where
  "boot_hook_setenv task = (if bt_local task Image = None then Inl Setenv_null else bret ())"

fun run_hooks :: "string option list \<Rightarrow> boot_task \<Rightarrow> boot_task boot_m" where
  "run_hooks [] task = bret task"
| "run_hooks (None # hooks) task = run_hooks hooks task"
| "run_hooks (Some out # hooks) task =
     (let task = boot_hook_update task out
      in bbind (boot_hook_setenv task) (\<lambda>_. run_hooks hooks task))"

definition run_boot_hooks :: "boot_env \<Rightarrow> boot_task \<Rightarrow> boot_task boot_m" where
  "run_boot_hooks env task =
     (if be_hooks env = [] then bret task
      else bbind (update_status STATUS_INFO Running_hooks) (\<lambda>_.
           bbind (boot_hook_setenv task) (\<lambda>_. run_hooks (be_hooks env) task)))"

section \<open>Loads\<close>

definition load_pending :: "load_result option \<Rightarrow> bool" where
  "load_pending result = (case result of None \<Rightarrow> True | Some r \<Rightarrow> lr_status r = LOAD_ASYNC)"

text \<open>\<^verbatim>\<open>check_load\<close>, for a result that is not pending.\<close>

definition check_load :: "boot_resource \<Rightarrow> int boot_m" where
  "check_load res =
     (case br_result res of
        None \<Rightarrow> bret 0
      | Some result \<Rightarrow>
          if lr_status result \<noteq> LOAD_ERROR
          then bbind (update_status STATUS_ERROR (Loaded (br_name res) (br_url res))) (\<lambda>_. bret 0)
          else bbind (update_status STATUS_ERROR (Couldnt_load (br_name res) (br_url res)))
                 (\<lambda>_. bret (- 1)))"

text \<open>The loop over the resources: whether all loads succeeded, and the task with its local names.\<close>

fun check_loads :: "boot_resource list \<Rightarrow> boot_task \<Rightarrow> (bool \<times> boot_task) boot_m" where
  "check_loads [] task = bret (True, task)"
| "check_loads (res # rs) task =
     bbind (check_load res) (\<lambda>rc.
       if rc \<noteq> 0 then bret (False, task)
       else check_loads rs
         (task\<lparr>bt_local := (bt_local task)(br_slot res := Option.bind (br_result res) lr_local)\<rparr>))"

definition preboot_check :: "boot_env \<Rightarrow> boot_task \<Rightarrow> bool boot_m" where
  "preboot_check env task =
     (let img = (case bt_image_override task of Some f \<Rightarrow> Some f | None \<Rightarrow> bt_local task Image);
          (ret, err_msg) = be_preboot_check env img
      in bbind (case err_msg of
                  Some msg \<Rightarrow> update_status STATUS_ERROR (Preboot_error msg)
                | None \<Rightarrow> bret ())
           (\<lambda>_. bret ret))"

text \<open>\<open>cur\<close> is the position of the resource whose load has just completed.  The result is the task
  while a cancelled load has still to complete, and \<open>None\<close> once the task is freed.\<close>

definition cancel_load :: "nat option \<Rightarrow> nat \<times> boot_resource \<Rightarrow> boot_resource" where
  "cancel_load cur ir =
     (case br_result (snd ir) of
        Some r \<Rightarrow>
          if cur \<noteq> Some (fst ir) \<and> lr_status r = LOAD_ASYNC
          then (snd ir)\<lparr>br_result := Some (r\<lparr>lr_status := LOAD_CANCELLED\<rparr>)\<rparr>
          else snd ir
      | None \<Rightarrow> snd ir)"

definition cancel_pending :: "nat option \<Rightarrow> nat \<times> boot_resource \<Rightarrow> bool" where
  "cancel_pending cur ir \<longleftrightarrow>
     (case br_result (snd ir) of
        Some r \<Rightarrow> cur \<noteq> Some (fst ir) \<and> lr_status r \<in> {LOAD_ASYNC, LOAD_CANCELLED}
      | None \<Rightarrow> False)"

definition cleanup_cancellations :: "nat option \<Rightarrow> boot_task \<Rightarrow> boot_task option" where
  "cleanup_cancellations cur task =
     (let rs = enumerate 0 (bt_resources task)
      in if list_ex (cancel_pending cur) rs
         then Some (task\<lparr>bt_resources := map (cancel_load cur) rs\<rparr>)
         else None)"

text \<open>The work once every load is complete.\<close>

definition boot_loaded :: "boot_env \<Rightarrow> boot_task \<Rightarrow> boot_task boot_m" where
  "boot_loaded env task =
     bbind (check_loads (bt_resources task) task) (\<lambda>(ok, task).
       if \<not> ok then bret task
       else
           bbind (run_boot_hooks env task) (\<lambda>task.
           bbind (preboot_check env task) (\<lambda>ok.
           if \<not> ok then bret task
           else
             bbind (update_status STATUS_INFO Performing_kexec_load) (\<lambda>_.
             bbind (kexec_load env task) (\<lambda>rc.
             if rc \<noteq> 0 then bret task
             else
               bbind (update_status STATUS_INFO Performing_kexec_reboot) (\<lambda>_.
               if kexec_reboot env \<noteq> 0
               then bbind (update_status STATUS_ERROR Kexec_reboot_failed) (\<lambda>_. bret task)
               else bret task))))))"

definition boot_process :: "boot_env \<Rightarrow> nat option \<Rightarrow> boot_task \<Rightarrow> boot_task option boot_m" where
  "boot_process env cur task =
     (if bt_cancelled task then bret (cleanup_cancellations cur task)
      else if list_ex (\<lambda>r. load_pending (br_result r)) (bt_resources task) then bret (Some task)
      else bbind (boot_loaded env task) (\<lambda>task. bret (Some task)))"

definition boot_cancel :: "boot_task \<Rightarrow> boot_task option boot_m" where
  "boot_cancel task =
     bbind (update_status STATUS_ERROR Boot_cancelled)
       (\<lambda>_. bret (cleanup_cancellations None (task\<lparr>bt_cancelled := True\<rparr>)))"

section \<open>Starting a boot\<close>

text \<open>\<^verbatim>\<open>get_signature_url\<close> of \<^verbatim>\<open>lib/security/common.c\<close>.\<close>

definition get_signature_url :: "boot_env \<Rightarrow> pb_url \<Rightarrow> pb_url boot_m" where
  "get_signature_url env base_file =
     (let sig = (pb_url_copy base_file)
            \<lparr>url_file := Some (fmt_s (url_file base_file) @ ''.sig''),
             url_path := Some (fmt_s (url_path base_file) @ ''.sig'')\<rparr>
      in bbind (of_url (pb_url_to_string (be_pton env) sig)) (\<lambda>full.
         bret (sig\<lparr>url_full := Some full\<rparr>)))"

text \<open>\<^verbatim>\<open>add_boot_resource\<close> puts the resource at the head of the task's list.\<close>

definition add_boot_resource :: "string \<Rightarrow> pb_url option \<Rightarrow> boot_slot \<Rightarrow> boot_task \<Rightarrow> boot_task" where
  "add_boot_resource name url slot task =
     (case url of
        None \<Rightarrow> task
      | Some u \<Rightarrow>
          task\<lparr>bt_resources :=
                 \<lparr>br_name = name, br_url = pb_url_copy u, br_slot = slot, br_result = None\<rparr> #
                 bt_resources task\<rparr>)"

text \<open>\<^verbatim>\<open>start_url_load\<close> for the resource that fills \<open>slot\<close>; there is at most one.\<close>

definition start_url_load :: "boot_env \<Rightarrow> boot_slot \<Rightarrow> boot_task \<Rightarrow> (int \<times> boot_task) boot_m" where
  "start_url_load env slot task =
     (case find (\<lambda>r. br_slot r = slot) (bt_resources task) of
        None \<Rightarrow> bret (0, task)
      | Some res \<Rightarrow>
          (case be_load env (br_url res) of
             None \<Rightarrow> bbind (update_status STATUS_ERROR (Error_loading (br_name res)))
                       (\<lambda>_. bret (- 1, task))
           | Some result \<Rightarrow>
               bret (0, task\<lparr>bt_resources :=
                           map (\<lambda>r. if br_slot r = slot then r\<lparr>br_result := Some result\<rparr> else r)
                             (bt_resources task)\<rparr>)))"

text \<open>\<^verbatim>\<open>start_url_load (a) || start_url_load (b) || ...\<close>: the first failure ends the chain.\<close>

fun start_loads :: "boot_env \<Rightarrow> boot_slot list \<Rightarrow> boot_task \<Rightarrow> (bool \<times> boot_task) boot_m" where
  "start_loads env [] task = bret (False, task)"
| "start_loads env (slot # slots) task =
     bbind (start_url_load env slot task) (\<lambda>(rc, task).
       if rc \<noteq> 0 then bret (True, task) else start_loads env slots task)"

text \<open>The signature of one file: \<^verbatim>\<open>if (image) { ... rc |= start_url_load (...); }\<close>\<close>

definition load_signature ::
    "boot_env \<Rightarrow> string \<Rightarrow> pb_url option \<Rightarrow> boot_slot \<Rightarrow> bool \<times> boot_task \<Rightarrow> (bool \<times> boot_task) boot_m" where
  "load_signature env name url slot st =
     (case url of
        None \<Rightarrow> bret st
      | Some u \<Rightarrow>
          bbind (get_signature_url env u) (\<lambda>sig.
          bbind (start_url_load env slot (add_boot_resource name (Some sig) slot (snd st)))
            (\<lambda>(rc, task). bret (fst st \<or> rc \<noteq> 0, task))))"

definition load_signatures ::
    "boot_env \<Rightarrow> pb_url option \<Rightarrow> pb_url option \<Rightarrow> pb_url option \<Rightarrow> bool \<times> boot_task \<Rightarrow>
     (bool \<times> boot_task) boot_m" where
  "load_signatures env img initrd dtb st =
     (if bt_verify_signature (snd st)
      then bbind (load_signature env ''kernel image signature'' img Image_sig st) (\<lambda>st.
           bbind (load_signature env ''initrd signature'' initrd Initrd_sig st)
             (load_signature env ''dtb signature'' dtb Dtb_sig))
      else bret st)"

definition load_cmdline_signature ::
    "boot_env \<Rightarrow> pb_url option \<Rightarrow> bool \<times> boot_task \<Rightarrow> (bool \<times> boot_task) boot_m" where
  "load_cmdline_signature env sig st =
     (if bt_verify_signature (snd st) \<or> bt_decrypt_files (snd st)
      then bbind (start_url_load env Cmdline_sig
                    (add_boot_resource ''kernel command line signature'' sig Cmdline_sig (snd st)))
             (\<lambda>(rc, task). bret (fst st \<or> rc \<noteq> 0, task))
      else bret st)"

text \<open>The URL of a file: from the command, else from the option's resource.\<close>

definition boot_url ::
    "(boot_command \<Rightarrow> cstr) \<Rightarrow> (discover_boot_option \<Rightarrow> resource option) \<Rightarrow>
     boot_command option \<Rightarrow> discover_boot_option option \<Rightarrow> pb_url option boot_m" where
  "boot_url cmd_file opt_res cmd opt =
     (case Option.bind cmd cmd_file of
        Some f \<Rightarrow> of_url (pb_url_parse (Some f))
      | None \<Rightarrow> bret (Option.bind (Option.bind opt opt_res) resource_url))"

definition boot_task_new :: "boot_env \<Rightarrow> bool \<Rightarrow> boot_command option \<Rightarrow> discover_boot_option option \<Rightarrow> boot_task" where
  "boot_task_new env dry_run cmd opt =
     \<lparr>bt_local = (\<lambda>_. None), bt_image_override = None, bt_initrd_override = None,
      bt_dtb_override = None,
      bt_args = (case Option.bind cmd cmd_boot_args of
                   Some a \<Rightarrow> Some a
                 | None \<Rightarrow> Option.bind opt (\<lambda>o'. opt_boot_args (dbo_option o'))),
      bt_boot_console = (case Option.bind cmd cmd_console of
                           Some c \<Rightarrow> if \<not> cfg_manual_console (be_config env) then Some c
                                     else cfg_boot_console (be_config env)
                         | None \<Rightarrow> cfg_boot_console (be_config env)),
      bt_dry_run = dry_run, bt_cancelled = False,
      bt_verify_signature = (be_lockdown env = PB_LOCKDOWN_SIGN),
      bt_decrypt_files = (be_lockdown env = PB_LOCKDOWN_DECRYPT), bt_resources = []\<rparr>"

text \<open>The loads of a task and, when all are complete at once, the rest.\<close>

definition boot_start ::
    "boot_env \<Rightarrow> boot_task \<Rightarrow> pb_url option \<Rightarrow> pb_url option \<Rightarrow> pb_url option \<Rightarrow> pb_url option \<Rightarrow>
     boot_task option boot_m" where
  "boot_start env task img initrd dtb cmdline_sig =
     (let task = add_boot_resource ''kernel image'' img Image task;
          task = add_boot_resource ''initrd'' initrd Initrd task;
          task = add_boot_resource ''dtb'' dtb Dtb task
      in bbind (start_loads env [Image, Initrd, Dtb] task) (\<lambda>st.
         bbind (load_signatures env img initrd dtb st) (\<lambda>st.
         bbind (load_cmdline_signature env cmdline_sig st) (\<lambda>(failed, task).
         if failed then bret None
         else boot_process env None task))))"

text \<open>\<open>None\<close> is the NULL task.  When the loads could not all be started the task is marked
  cancelled and NULL is returned, although it lives on until its pending loads have completed.\<close>

definition boot ::
    "boot_env \<Rightarrow> discover_boot_option option \<Rightarrow> boot_command option \<Rightarrow> bool \<Rightarrow> boot_task option boot_m" where
  "boot env opt cmd dry_run =
     (let desc = (case Option.bind opt (\<lambda>o'. opt_name (dbo_option o')) of
                    Some n \<Rightarrow> n
                  | None \<Rightarrow> (case Option.bind cmd cmd_boot_image_file of
                               Some f \<Rightarrow> f | None \<Rightarrow> ''(unknown)''));
          task = boot_task_new env dry_run cmd opt
      in bbind (update_status STATUS_INFO (Booting desc)) (\<lambda>_.
         if Option.bind cmd cmd_boot_image_file = None \<and> Option.bind opt dbo_boot_image = None
         then bbind (update_status STATUS_ERROR No_image) (\<lambda>_. bret None)
         else
           bbind (boot_url cmd_boot_image_file dbo_boot_image cmd opt) (\<lambda>img.
           bbind (boot_url cmd_initrd_file dbo_initrd cmd opt) (\<lambda>initrd.
           bbind (boot_url cmd_dtb_file dbo_dtb cmd opt) (\<lambda>dtb.
           if bt_verify_signature task \<or> bt_decrypt_files task
           then
             (if Option.bind cmd cmd_args_sig_file = None \<and> Option.bind opt dbo_args_sig_file = None
              then bbind (update_status STATUS_ERROR No_cmdline_signature) (\<lambda>_. bret None)
              else bbind (boot_url cmd_args_sig_file dbo_args_sig_file cmd opt)
                     (boot_start env task img initrd dtb))
           else boot_start env task img initrd dtb None)))))"

section \<open>What a boot guarantees\<close>

lemma bbind_Inr:
  "bbind m k = Inr (y, out) \<longleftrightarrow>
     (\<exists>x o1 o2. m = Inr (x, o1) \<and> k x = Inr (y, o2) \<and> out = o1 @ o2)"
  by (auto simp: bbind_def split: sum.splits prod.splits)

lemma bret_Inr [simp]: "bret x = Inr (y, out) \<longleftrightarrow> y = x \<and> out = []"
  by (auto simp: bret_def)

lemma update_status_Inr [simp]: "update_status t msg = Inr (u, out) \<longleftrightarrow> out = [(t, msg)]"
  by (auto simp: update_status_def)

lemma of_url_Inr: "of_url r = Inr (x, out) \<longleftrightarrow> r = Inr x \<and> out = []"
  by (auto simp: of_url_def bret_def split: sum.splits)

lemmas bm_simps = bbind_Inr of_url_Inr

text \<open>Some message of the list is an error.\<close>

definition reports_error :: "boot_status list \<Rightarrow> bool" where
  "reports_error out \<longleftrightarrow> list_ex (\<lambda>(t, msg). t = STATUS_ERROR) out"

lemma reports_error_simps [simp]:
  "reports_error (a @ b) \<longleftrightarrow> reports_error a \<or> reports_error b"
  "reports_error ((t, m) # a) \<longleftrightarrow> t = STATUS_ERROR \<or> reports_error a"
  "\<not> reports_error []"
  by (auto simp: reports_error_def)

lemma start_url_load_error:
  "start_url_load env slot task = Inr ((rc, task'), out) \<Longrightarrow> rc \<noteq> 0 \<Longrightarrow> reports_error out"
  by (auto simp: start_url_load_def bm_simps split: option.splits)

lemma start_loads_ConsE:
  assumes "start_loads env (slot # slots) task = Inr (r, out)"
  obtains rc t o1 o2 where "start_url_load env slot task = Inr ((rc, t), o1)" "out = o1 @ o2"
    "(if rc \<noteq> 0 then bret (True, t) else start_loads env slots t) = Inr (r, o2)"
proof -
  from assms obtain p o1 o2 where p: "start_url_load env slot task = Inr (p, o1)" "out = o1 @ o2"
    "(case p of (rc, t) \<Rightarrow> if rc \<noteq> 0 then bret (True, t) else start_loads env slots t) = Inr (r, o2)"
    by (auto simp only: start_loads.simps bbind_Inr)
  obtain rc t where "p = (rc, t)" by (cases p)
  with p that show ?thesis by simp
qed

declare start_loads.simps(2) [simp del]

lemma start_loads_error:
  "start_loads env slots task = Inr ((True, task'), out) \<Longrightarrow> reports_error out"
proof (induction slots arbitrary: task out)
  case (Cons slot slots)
  from Cons.prems obtain rc t o1 o2 where st: "start_url_load env slot task = Inr ((rc, t), o1)"
    and out: "out = o1 @ o2"
    and r: "(if rc \<noteq> 0 then bret (True, t) else start_loads env slots t) = Inr ((True, task'), o2)"
    by (rule start_loads_ConsE)
  show ?case
  proof (cases "rc = 0")
    case True
    then show ?thesis using r out Cons.IH[of t o2] by simp
  next
    case False
    then show ?thesis using start_url_load_error[OF st] out by simp
  qed
qed simp

lemma load_signature_error:
  "load_signature env name url slot st = Inr ((f, task'), out) \<Longrightarrow> f \<Longrightarrow> fst st \<or> reports_error out"
  by (auto simp: load_signature_def bm_simps split: option.splits dest: start_url_load_error)

lemma load_signatures_error:
  "load_signatures env img initrd dtb st = Inr ((f, task'), out) \<Longrightarrow> f \<Longrightarrow> fst st \<or> reports_error out"
  by (fastforce simp: load_signatures_def bm_simps split: if_splits dest: load_signature_error)

lemma load_cmdline_signature_error:
  "load_cmdline_signature env sig st = Inr ((f, task'), out) \<Longrightarrow> f \<Longrightarrow> fst st \<or> reports_error out"
  by (auto simp: load_cmdline_signature_def bm_simps split: if_splits dest: start_url_load_error)

lemma boot_process_running:
  "\<not> bt_cancelled task \<Longrightarrow> boot_process env cur task = Inr (t, out) \<Longrightarrow> t \<noteq> None"
  by (auto simp: boot_process_def bm_simps split: if_splits)

text \<open>Loading leaves the flags of the task alone.\<close>

definition same_mode :: "boot_task \<Rightarrow> boot_task \<Rightarrow> bool" where
  "same_mode a b \<longleftrightarrow>
     bt_cancelled a = bt_cancelled b \<and> bt_verify_signature a = bt_verify_signature b \<and>
     bt_decrypt_files a = bt_decrypt_files b"

lemma same_mode_refl [simp]: "same_mode a a"
  by (simp add: same_mode_def)

lemma same_mode_trans: "same_mode a b \<Longrightarrow> same_mode b c \<Longrightarrow> same_mode a c"
  by (simp add: same_mode_def)

lemma add_boot_resource_mode [simp]: "same_mode (add_boot_resource n u s task) task' \<longleftrightarrow> same_mode task task'"
  by (auto simp: add_boot_resource_def same_mode_def split: option.splits)

lemma start_url_load_mode: "start_url_load env slot task = Inr ((rc, task'), out) \<Longrightarrow> same_mode task task'"
  by (auto simp: start_url_load_def bm_simps same_mode_def split: option.splits)

lemma start_loads_mode: "start_loads env slots task = Inr ((f, task'), out) \<Longrightarrow> same_mode task task'"
proof (induction slots arbitrary: task out)
  case (Cons slot slots)
  from Cons.prems obtain rc t o1 o2 where st: "start_url_load env slot task = Inr ((rc, t), o1)"
    and r: "(if rc \<noteq> 0 then bret (True, t) else start_loads env slots t) = Inr ((f, task'), o2)"
    by (rule start_loads_ConsE)
  then show ?case using start_url_load_mode[OF st] Cons.IH[of t o2]
    by (cases "rc = 0") (auto intro: same_mode_trans)
qed simp

lemma load_signature_mode:
  "load_signature env name url slot st = Inr (st', out) \<Longrightarrow> same_mode (snd st) (snd st')"
  by (auto simp: load_signature_def bm_simps split: option.splits dest!: start_url_load_mode)

lemma load_signatures_mode:
  "load_signatures env img initrd dtb st = Inr (st', out) \<Longrightarrow> same_mode (snd st) (snd st')"
  by (auto simp: load_signatures_def bm_simps split: if_splits
      dest!: load_signature_mode intro: same_mode_trans)

lemma load_cmdline_signature_mode:
  "load_cmdline_signature env sig st = Inr (st', out) \<Longrightarrow> same_mode (snd st) (snd st')"
  by (auto simp: load_cmdline_signature_def bm_simps split: if_splits dest!: start_url_load_mode)

lemma boot_start_error:
  assumes "boot_start env task img initrd dtb sig = Inr (None, out)" and "\<not> bt_cancelled task"
  shows "reports_error out"
proof -
  let ?t = "add_boot_resource ''dtb'' dtb Dtb (add_boot_resource ''initrd'' initrd Initrd
    (add_boot_resource ''kernel image'' img Image task))"
  from assms(1) obtain st1 st2 f t3 o1 o2 o3 o4 where
    1: "start_loads env [Image, Initrd, Dtb] ?t = Inr (st1, o1)" and
    2: "load_signatures env img initrd dtb st1 = Inr (st2, o2)" and
    3: "load_cmdline_signature env sig st2 = Inr ((f, t3), o3)" and
    4: "(if f then bret None else boot_process env None t3) = Inr (None, o4)" and
    out: "out = o1 @ o2 @ o3 @ o4"
    by (auto simp: boot_start_def bm_simps Let_def)
  have mode: "same_mode task t3"
    using start_loads_mode[of env "[Image, Initrd, Dtb]" ?t "fst st1" "snd st1" o1] 1
      load_signatures_mode[OF 2] load_cmdline_signature_mode[OF 3] by (auto intro: same_mode_trans)
  have f using 4 boot_process_running[of t3 env None None o4] mode assms(2)
    by (auto simp: same_mode_def split: if_splits)
  then have "fst st2 \<or> reports_error o3" using load_cmdline_signature_error[OF 3] by blast
  then consider "reports_error o3" | "reports_error o2" | "fst st1"
    using load_signatures_error[of env img initrd dtb st1 "fst st2" "snd st2" o2] 2 by (cases st2) auto
  then show ?thesis
    using start_loads_error[of env "[Image, Initrd, Dtb]" ?t "snd st1" o1] 1 out
    by cases (cases st1; auto)+
qed

text \<open>a boot that does not start is reported: whenever \<^verbatim>\<open>boot\<close> returns NULL it has sent an error
  to the status callback, whether an image was missing, a command line signature, or a load could not be
  started.\<close>

theorem boot_null_reports_error:
  assumes "boot env opt cmd dry_run = Inr (None, out)"
  shows "reports_error out"
  using assms
  by (auto simp: boot_def bm_simps Let_def boot_task_new_def split: if_splits dest!: boot_start_error)

definition sample_env :: boot_env where
  "sample_env =
     \<lparr>be_config = plain_config sample_net [], be_lockdown = PB_LOCKDOWN_SIGN,
      be_load = (\<lambda>u. Some \<lparr>lr_status = LOAD_OK, lr_local = url_path u\<rparr>), be_hooks = [],
      be_validate = (\<lambda>t. (0, t)), be_preboot_check = (\<lambda>_. (True, None)),
      be_stb_os_enforcing = True, be_debug = False,
      be_kexec = (\<lambda>args. if take 1 args = [''-s''] then Exit_ok else Exit_failed ''no''),
      be_shutdown = 0, be_kexec_exec = (\<lambda>_. 0), be_pton = (\<lambda>_ _. False)\<rparr>"

theorem boot_null_reports_error_witness:
  "boot sample_env None None False =
     Inr (None, [(STATUS_INFO, Booting ''(unknown)''), (STATUS_ERROR, No_image)]) \<and>
   reports_error [(STATUS_INFO, Booting ''(unknown)''), (STATUS_ERROR, No_image)]"
proof -
  have "boot sample_env None None False =
      Inr (None, [(STATUS_INFO, Booting ''(unknown)''), (STATUS_ERROR, No_image)])"
    by (simp add: boot_def update_status_def bbind_def bret_def)
  with boot_null_reports_error[OF this] show ?thesis by blast
qed

section \<open>Secure boot\<close>

text \<open>C35: a kernel counts as loaded only if its files were validated and kexec accepted it, with the
  arguments of the validated task; on a machine that enforces OS secure boot this was the
  signature-checking action \<^verbatim>\<open>-s\<close>.\<close>

theorem kexec_load_verified:
  assumes "kexec_load env task = Inr (0, out)"
  shows "\<exists>task' act. be_validate env
             (task\<lparr>bt_image_override := None, bt_initrd_override := None, bt_dtb_override := None\<rparr>) = (0, task') \<and>
           be_kexec env (act # kexec_args env task') = Exit_ok \<and>
           (act = ''-s'' \<or> act = ''-l'' \<and> \<not> be_stb_os_enforcing env)"
proof -
  obtain r task' where v: "be_validate env
      (task\<lparr>bt_image_override := None, bt_initrd_override := None, bt_dtb_override := None\<rparr>) = (r, task')"
    by fastforce
  obtain r2 err where k: "kexec_try env (kexec_args env task') [''-l'', ''-s''] 0 None = (r2, err)"
    by fastforce
  from assms v have r: "r = 0" by (auto simp: kexec_load_def bm_simps Let_def split: if_splits)
  with assms v k have "r2 = 0" by (auto simp: kexec_load_def bm_simps split: if_splits)
  with k show ?thesis using v r
    by (auto split: if_splits run_result.splits)
qed

lemma sample_kexec_load: "kexec_load sample_env (boot_task_new sample_env False None None) = Inr (0, [])"
  by (simp add: kexec_load_def sample_env_def boot_task_new_def bret_def bbind_def)

theorem kexec_load_verified_witness:
  "\<exists>task' act. be_kexec sample_env (act # kexec_args sample_env task') = Exit_ok \<and> act = ''-s''"
proof -
  have "be_stb_os_enforcing sample_env" by (simp add: sample_env_def)
  then show ?thesis using kexec_load_verified[OF sample_kexec_load] by blast
qed

text \<open>The resources of a task name their slots.\<close>

definition has_slot :: "boot_task \<Rightarrow> boot_slot \<Rightarrow> bool" where
  "has_slot task slot \<longleftrightarrow> slot \<in> set (map br_slot (bt_resources task))"

lemma add_boot_resource_slot:
  "has_slot (add_boot_resource n u s task) slot \<longleftrightarrow> (u \<noteq> None \<and> slot = s) \<or> has_slot task slot"
  by (auto simp: add_boot_resource_def has_slot_def split: option.splits)

lemma start_url_load_slot:
  "start_url_load env s task = Inr ((rc, task'), out) \<Longrightarrow> has_slot task' slot \<longleftrightarrow> has_slot task slot"
proof -
  assume "start_url_load env s task = Inr ((rc, task'), out)"
  then have "map br_slot (bt_resources task') = map br_slot (bt_resources task)"
    by (auto simp: start_url_load_def bm_simps split: option.splits)
  then show ?thesis by (simp only: has_slot_def)
qed

lemma start_loads_slot:
  "start_loads env slots task = Inr ((f, task'), out) \<Longrightarrow> has_slot task' slot \<longleftrightarrow> has_slot task slot"
proof (induction slots arbitrary: task out)
  case (Cons s slots)
  from Cons.prems obtain rc t o1 o2 where st: "start_url_load env s task = Inr ((rc, t), o1)"
    and r: "(if rc \<noteq> 0 then bret (True, t) else start_loads env slots t) = Inr ((f, task'), o2)"
    by (rule start_loads_ConsE)
  then show ?case using start_url_load_slot[OF st] Cons.IH[of t o2] by (cases "rc = 0") auto
qed simp

lemma load_signature_slot:
  "load_signature env name u s st = Inr (st', out) \<Longrightarrow>
     has_slot (snd st') slot \<longleftrightarrow> (u \<noteq> None \<and> slot = s) \<or> has_slot (snd st) slot"
  by (auto simp: load_signature_def bm_simps add_boot_resource_slot split: option.splits
      dest!: start_url_load_slot[where slot = slot])

lemma load_signatures_slot:
  "load_signatures env img initrd dtb st = Inr (st', out) \<Longrightarrow>
     has_slot (snd st') slot \<longleftrightarrow> has_slot (snd st) slot \<or>
       (bt_verify_signature (snd st) \<and>
        ((img \<noteq> None \<and> slot = Image_sig) \<or> (initrd \<noteq> None \<and> slot = Initrd_sig) \<or>
         (dtb \<noteq> None \<and> slot = Dtb_sig)))"
  by (auto simp: load_signatures_def bm_simps split: if_splits
      dest!: load_signature_slot[where slot = slot])

lemma load_cmdline_signature_slot:
  "load_cmdline_signature env sig st = Inr (st', out) \<Longrightarrow> slot \<noteq> Cmdline_sig \<Longrightarrow>
     has_slot (snd st') slot \<longleftrightarrow> has_slot (snd st) slot"
  by (auto simp: load_cmdline_signature_def bm_simps add_boot_resource_slot split: if_splits
      dest!: start_url_load_slot[where slot = slot])

text \<open>The later stages leave the resources alone.\<close>

lemma check_loads_resources:
  "check_loads rs task = Inr ((ok, task'), out) \<Longrightarrow> bt_resources task' = bt_resources task"
proof (induction rs arbitrary: task out)
  case (Cons r rs)
  then show ?case by (auto simp: bm_simps split: if_splits)
qed simp

lemma boot_hook_update_resources: "bt_resources (boot_hook_update task buf) = bt_resources task"
proof -
  have "bt_resources (foldl boot_hook_line task ls) = bt_resources task" for ls
    by (induction ls arbitrary: task)
       (simp_all add: boot_hook_line_def boot_hook_update_param_def split: option.split)
  then show ?thesis by (simp add: boot_hook_update_def)
qed

lemma run_hooks_resources: "run_hooks hooks task = Inr (task', out) \<Longrightarrow> bt_resources task' = bt_resources task"
  by (induction hooks task arbitrary: out rule: run_hooks.induct)
     (auto simp: bm_simps Let_def boot_hook_update_resources)

lemma run_boot_hooks_resources:
  "run_boot_hooks env task = Inr (task', out) \<Longrightarrow> bt_resources task' = bt_resources task"
  by (auto simp: run_boot_hooks_def bm_simps split: if_splits dest: run_hooks_resources)

lemma boot_loaded_resources: "boot_loaded env task = Inr (task', out) \<Longrightarrow> bt_resources task' = bt_resources task"
  by (auto simp: boot_loaded_def bm_simps split: if_splits
      dest!: check_loads_resources run_boot_hooks_resources)

lemma boot_process_slot:
  assumes "boot_process env cur task = Inr (Some task', out)" and "\<not> bt_cancelled task"
  shows "has_slot task' slot \<longleftrightarrow> has_slot task slot"
  using assms by (auto simp: boot_process_def bm_simps has_slot_def split: if_splits
      dest!: boot_loaded_resources)

lemma boot_start_signed:
  assumes "boot_start env task img initrd dtb sig = Inr (Some task', out)"
    and "bt_verify_signature task" and "\<not> bt_cancelled task" and "bt_resources task = []"
  shows "has_slot task' Image \<longleftrightarrow> has_slot task' Image_sig"
    and "has_slot task' Initrd \<longleftrightarrow> has_slot task' Initrd_sig"
    and "has_slot task' Dtb \<longleftrightarrow> has_slot task' Dtb_sig"
proof -
  let ?t = "add_boot_resource ''dtb'' dtb Dtb (add_boot_resource ''initrd'' initrd Initrd
    (add_boot_resource ''kernel image'' img Image task))"
  from assms(1) obtain f1 t1 st2 f t3 o1 o2 o3 o4 where
    1: "start_loads env [Image, Initrd, Dtb] ?t = Inr ((f1, t1), o1)" and
    2: "load_signatures env img initrd dtb (f1, t1) = Inr (st2, o2)" and
    3: "load_cmdline_signature env sig st2 = Inr ((f, t3), o3)" and
    4: "(if f then bret None else boot_process env None t3) = Inr (Some task', o4)"
    by (auto simp: boot_start_def bm_simps Let_def)
  have m1: "same_mode task t1" using start_loads_mode[OF 1] by simp
  then have v: "bt_verify_signature t1" using assms(2) by (simp add: same_mode_def)
  have "same_mode task t3" using m1 load_signatures_mode[OF 2] load_cmdline_signature_mode[OF 3]
    by (auto intro: same_mode_trans)
  then have nc: "\<not> bt_cancelled t3" using assms(3) by (simp add: same_mode_def)
  have none: "\<not> has_slot task slot" for slot by (simp add: has_slot_def assms(4))
  have start: "has_slot t1 slot \<longleftrightarrow>
      (dtb \<noteq> None \<and> slot = Dtb) \<or> (initrd \<noteq> None \<and> slot = Initrd) \<or> (img \<noteq> None \<and> slot = Image)" for slot
    using start_loads_slot[OF 1, of slot] none[of slot] by (simp add: add_boot_resource_slot)
  have slot: "has_slot task' slot \<longleftrightarrow> has_slot t1 slot \<or> (img \<noteq> None \<and> slot = Image_sig) \<or>
      (initrd \<noteq> None \<and> slot = Initrd_sig) \<or> (dtb \<noteq> None \<and> slot = Dtb_sig)"
    if "slot \<noteq> Cmdline_sig" for slot
  proof -
    have "has_slot task' slot \<longleftrightarrow> has_slot t3 slot"
      using 4 boot_process_slot[OF _ nc, of env None task' o4] by (cases f) auto
    then show ?thesis
      using load_cmdline_signature_slot[OF 3 that] load_signatures_slot[OF 2, of slot] v by simp
  qed
  show "has_slot task' Image \<longleftrightarrow> has_slot task' Image_sig"
    "has_slot task' Initrd \<longleftrightarrow> has_slot task' Initrd_sig"
    "has_slot task' Dtb \<longleftrightarrow> has_slot task' Dtb_sig"
    by (simp_all add: slot start)
qed


definition sample_boot_opt :: discover_boot_option where
  "sample_boot_opt =
     \<lparr>dbo_source = ''grub2'', dbo_device = 0,
      dbo_option =
        \<lparr>opt_device_id = None, opt_id = Some ''sda1#linux'', opt_name = Some ''linux'',
         opt_description = None, opt_icon_file = None, opt_boot_image_file = None,
         opt_initrd_file = None, opt_dtb_file = None, opt_boot_args = Some ''quiet'',
         opt_args_sig_file = None, opt_is_default = True, opt_is_autoboot_default = False,
         opt_type = DISCOVER_BOOT_OPTION\<rparr>,
      dbo_proxy = None, dbo_boot_image = Some (Resolved (Some sample_url)), dbo_initrd = None,
      dbo_dtb = None, dbo_args_sig_file = Some (Resolved (Some sample_url)), dbo_icon = None\<rparr>"


end
