(* ===== verification/Event.thy ===== *)
theory Event
  imports Kv_Store
begin

text \<open>
  User events, \<^verbatim>\<open>discover/event.c\<close>: the message \<^verbatim>\<open><action>@<device>\<close> with \<^verbatim>\<open><name>=<value>\<close> parameters, each
  ended by a NUL.  \<open>msg\<close> is the received datagram, \<^verbatim>\<open>len\<close> bytes which \<^verbatim>\<open>user_event_process\<close> follows
  by a NUL, so that no string function leaves the buffer.
\<close>

datatype event_type = EVENT_TYPE_UDEV | EVENT_TYPE_USER

datatype event_action =
    EVENT_ACTION_ADD
  | EVENT_ACTION_REMOVE
  | EVENT_ACTION_URL
  | EVENT_ACTION_DHCP
  | EVENT_ACTION_BOOT
  | EVENT_ACTION_SYNC
  | EVENT_ACTION_PLUGIN

text \<open>A value is allocated, or it is the string literal that stands for a parameter without one.\<close>

datatype event_value = Heap string | Literal_empty

fun value_str :: "event_value \<Rightarrow> string" where
  "value_str (Heap s) = s"
| "value_str Literal_empty = []"

record event_param =
  ep_name :: string
  ep_value :: event_value

record event =
  ev_type :: event_type
  ev_action :: event_action
  ev_device :: string
  ev_params :: "event_param list"

text \<open>\<^verbatim>\<open>strnlen\<close> and the string at the head of a buffer.\<close>

definition c_prefix :: "string \<Rightarrow> string" where
  "c_prefix buf = takeWhile (\<lambda>c. c \<noteq> NUL) buf"

definition event_action_of :: "string \<Rightarrow> event_action option" where
  "event_action_of s =
     (if strcaseeq s ''add'' then Some EVENT_ACTION_ADD
      else if strcaseeq s ''remove'' then Some EVENT_ACTION_REMOVE
      else if strcaseeq s ''url'' then Some EVENT_ACTION_URL
      else if strcaseeq s ''dhcp'' then Some EVENT_ACTION_DHCP
      else if strcaseeq s ''boot'' then Some EVENT_ACTION_BOOT
      else if strcaseeq s ''sync'' then Some EVENT_ACTION_SYNC
      else if strcaseeq s ''plugin'' then Some EVENT_ACTION_PLUGIN
      else None)"

text \<open>The action, the device and the length of the header, or \<open>None\<close> for the result \<^verbatim>\<open>-1\<close>.\<close>

definition event_parse_ad_header :: "string \<Rightarrow> (event_action \<times> string \<times> nat) option" where
  "event_parse_ad_header msg =
     (let header = c_prefix msg; headerlen = length header
      in if headerlen = 0 then None
         else (case strchr header CHR ''@'' of
                 None \<Rightarrow> None
               | Some sep \<Rightarrow>
                   (case event_action_of (take sep header) of
                      None \<Rightarrow> None
                    | Some action \<Rightarrow>
                        if drop (Suc sep) header = [] then None
                        else Some (action, drop (Suc sep) header, headerlen))))"

definition parse_param :: "string \<Rightarrow> event_param" where
  "parse_param p =
     (case strchr p CHR ''='' of
        None \<Rightarrow> \<lparr>ep_name = p, ep_value = Literal_empty\<rparr>
      | Some sep \<Rightarrow> \<lparr>ep_name = take sep p, ep_value = Heap (drop (Suc sep) p)\<rparr>)"

text \<open>The loop over the parameters.  \<open>buf\<close> is what is left of the message, \<^verbatim>\<open>len\<close> its length; an
  empty parameter sets \<^verbatim>\<open>param_len\<close> to 1, and the step moves by \<^verbatim>\<open>param_len + 1\<close>.\<close>

function event_parse_params :: "string \<Rightarrow> event_param list" where
  "event_parse_params buf =
     (if buf = [] then []
      else
        (let p = c_prefix buf
         in if p = [] then event_parse_params (drop 2 buf)
            else parse_param p # event_parse_params (drop (length p + 1) buf)))"
  by pat_completeness auto

termination event_parse_params
  by (relation "measure length") auto

declare event_parse_params.simps [simp del]

definition event_parse_ad_message :: "event \<Rightarrow> string \<Rightarrow> event option" where
  "event_parse_ad_message event msg =
     (case event_parse_ad_header msg of
        None \<Rightarrow> None
      | Some (action, device, headerlen) \<Rightarrow>
          Some (event\<lparr>ev_action := action, ev_device := device,
                      ev_params := event_parse_params (drop (headerlen + 1) msg)\<rparr>))"

definition event_get_param :: "event \<Rightarrow> string \<Rightarrow> string option" where
  "event_get_param event name =
     map_option (\<lambda>p. value_str (ep_value p))
       (find (\<lambda>p. strcaseeq (ep_name p) name) (ev_params event))"

text \<open>\<^verbatim>\<open>talloc_free\<close> of the literal is undefined: it reads a header in front of it and aborts.\<close>

datatype event_fault = Free_of_literal

fun set_param :: "string \<Rightarrow> string \<Rightarrow> event_param list \<Rightarrow> event_fault + event_param list" where
  "set_param name value [] = Inr [\<lparr>ep_name = name, ep_value = Heap value\<rparr>]"
| "set_param name value (p # ps) =
     (if strcaseeq (ep_name p) name
      then if ep_value p = Literal_empty then Inl Free_of_literal
           else Inr (p\<lparr>ep_value := Heap value\<rparr> # ps)
      else map_sum id (\<lambda>qs. p # qs) (set_param name value ps))"

definition event_set_param :: "event \<Rightarrow> string \<Rightarrow> string \<Rightarrow> event_fault + event" where
  "event_set_param event name value =
     map_sum id (\<lambda>ps. event\<lparr>ev_params := ps\<rparr>) (set_param name value (ev_params event))"

section \<open>Parsing what a client sends\<close>

definition encode_param :: "string \<times> string \<Rightarrow> string" where
  "encode_param nv = fst nv @ ''='' @ snd nv @ [NUL]"

definition encode_event :: "string \<Rightarrow> string \<Rightarrow> (string \<times> string) list \<Rightarrow> string" where
  "encode_event action device params =
     action @ ''@'' @ device @ [NUL] @ concat (map encode_param params)"

definition param_ok :: "string \<times> string \<Rightarrow> bool" where
  "param_ok nv \<longleftrightarrow>
     c_string (fst nv) \<and> c_string (snd nv) \<and> CHR ''='' \<notin> set (fst nv)"

lemma c_prefix_NUL: "c_string s \<Longrightarrow> c_prefix (s @ NUL # t) = s"
proof -
  assume "c_string s"
  then have "\<And>x. x \<in> set s \<Longrightarrow> x \<noteq> NUL" by (auto simp: c_string_def)
  then show ?thesis by (simp add: c_prefix_def takeWhile_append2)
qed

lemma parse_params_encode:
  "list_all param_ok nvs \<Longrightarrow>
     event_parse_params (concat (map encode_param nvs)) =
       map (\<lambda>(n, v). \<lparr>ep_name = n, ep_value = Heap v\<rparr>) nvs"
proof (induction nvs)
  case Nil
  then show ?case by (simp add: event_parse_params.simps)
next
  case (Cons nv nvs)
  obtain n v where nv: "nv = (n, v)" by (cases nv)
  let ?p = "n @ ''='' @ v" and ?rest = "concat (map encode_param nvs)"
  have p: "c_string ?p" and n: "CHR ''='' \<notin> set n"
    using Cons.prems nv by (auto simp: param_ok_def c_string_def)
  have buf: "concat (map encode_param (nv # nvs)) = ?p @ NUL # ?rest"
    by (simp add: encode_param_def nv)
  have "event_parse_params (?p @ NUL # ?rest) = parse_param ?p # event_parse_params ?rest"
    using c_prefix_NUL[OF p, of ?rest] by (subst event_parse_params.simps) (simp add: Let_def)
  moreover have "parse_param ?p = \<lparr>ep_name = n, ep_value = Heap v\<rparr>"
    using n by (simp add: parse_param_def)
  ultimately show ?case using Cons buf nv by simp
qed

text \<open>a message that a client composes of an action, a device and named values parses to the event
  with this action, in any case of its letters, this device and these parameters in order.\<close>

theorem event_message_parse:
  assumes "event_action_of action = Some act" and "CHR ''@'' \<notin> set action" and "c_string action"
    and "c_string device" and "device \<noteq> []" and "list_all param_ok params"
  shows "event_parse_ad_message ev (encode_event action device params) =
           Some (ev\<lparr>ev_action := act, ev_device := device,
                    ev_params := map (\<lambda>(n, v). \<lparr>ep_name = n, ep_value = Heap v\<rparr>) params\<rparr>)"
proof -
  let ?h = "action @ ''@'' @ device" and ?ps = "concat (map encode_param params)"
  have "c_string ?h" using assms(3,4) by (auto simp: c_string_def)
  moreover have msg: "encode_event action device params = ?h @ NUL # ?ps" by (simp add: encode_event_def)
  ultimately have h: "c_prefix (encode_event action device params) = ?h" by (simp only: c_prefix_NUL)
  have "event_parse_ad_header (encode_event action device params) = Some (act, device, length ?h)"
    using assms(1,2,5) by (simp add: event_parse_ad_header_def h Let_def)
  then show ?thesis
    by (simp add: event_parse_ad_message_def msg parse_params_encode[OF assms(6)])
qed

theorem event_message_parse_witness:
  "event_parse_ad_message
     \<lparr>ev_type = EVENT_TYPE_USER, ev_action = EVENT_ACTION_ADD, ev_device = [], ev_params = []\<rparr>
     (encode_event ''dhcp'' ''eth0'' [(''ip'', ''10.0.0.2''), (''tftp'', '''')]) =
   Some \<lparr>ev_type = EVENT_TYPE_USER, ev_action = EVENT_ACTION_DHCP, ev_device = ''eth0'',
         ev_params = [\<lparr>ep_name = ''ip'', ep_value = Heap ''10.0.0.2''\<rparr>,
                      \<lparr>ep_name = ''tftp'', ep_value = Heap ''''\<rparr>]\<rparr>"
  by (subst event_message_parse[where act = EVENT_ACTION_DHCP])
     (simp_all add: event_action_of_def strcaseeq_def tolower_def c_string_def param_ok_def)

text \<open>a second NUL between parameters is not skipped alone: the first character of the next
  parameter goes with it.\<close>

theorem double_NUL_skips:
  "event_parse_params (NUL # c # buf) = event_parse_params buf"
  by (subst event_parse_params.simps) (simp add: c_prefix_def)

section \<open>Parameters\<close>

definition no_literal :: "event \<Rightarrow> bool" where
  "no_literal ev \<longleftrightarrow> list_all (\<lambda>p. ep_value p \<noteq> Literal_empty) (ev_params ev)"

lemma strcaseeq_sym: "strcaseeq a b \<Longrightarrow> strcaseeq b a"
  and strcaseeq_trans: "strcaseeq a b \<Longrightarrow> strcaseeq b c \<Longrightarrow> strcaseeq a c"
  by (simp_all add: strcaseeq_def)

lemma set_param_ok:
  "list_all (\<lambda>p. ep_value p \<noteq> Literal_empty) ps \<Longrightarrow>
     \<exists>qs. set_param n v ps = Inr qs \<and> list_all (\<lambda>p. ep_value p \<noteq> Literal_empty) qs \<and>
       map_option (\<lambda>p. value_str (ep_value p)) (find (\<lambda>p. strcaseeq (ep_name p) k) qs) =
         (if strcaseeq n k then Some v
          else map_option (\<lambda>p. value_str (ep_value p)) (find (\<lambda>p. strcaseeq (ep_name p) k) ps))"
proof (induction ps)
  case (Cons p ps)
  then obtain qs where "set_param n v ps = Inr qs" by auto
  with Cons show ?case
    by (auto dest: strcaseeq_sym intro: strcaseeq_trans)
qed simp

lemma event_set_param_ok:
  assumes "no_literal ev"
  shows "\<exists>ev'. event_set_param ev n v = Inr ev' \<and> no_literal ev' \<and>
           event_get_param ev' k = (if strcaseeq n k then Some v else event_get_param ev k)"
  using set_param_ok[of "ev_params ev" n v k] assms
  by (auto simp: event_set_param_def event_get_param_def no_literal_def)

interpretation evs: kv_store event_get_param "\<lambda>ev n v. projr (event_set_param ev n v)" no_literal strcaseeq
proof
  fix ev k v k'
  assume ev: "no_literal ev"
  show "event_get_param (projr (event_set_param ev k v)) k' =
      (if strcaseeq k k' then Some v else event_get_param ev k')"
    using event_set_param_ok[OF ev, of k v k'] by auto
  show "no_literal (projr (event_set_param ev k v))"
    using event_set_param_ok[OF ev, of k v k'] by auto
qed

text \<open>the parameters of an event behave as a map whose keys ignore case, as long as no parameter is
  the literal: setting succeeds, and a lookup returns the last value set.\<close>

theorem event_params_map:
  assumes "no_literal ev"
  shows "\<exists>ev'. event_set_param ev n v = Inr ev' \<and> no_literal ev' \<and>
           event_get_param ev' k = (if strcaseeq n k then Some v else event_get_param ev k)"
proof -
  obtain ev' where ev': "event_set_param ev n v = Inr ev'" using event_set_param_ok[OF assms] by blast
  then show ?thesis using evs.get_put[OF assms, of n v k] evs.inv_put[OF assms, of n v] by simp
qed

theorem event_params_map_witness:
  "\<exists>ev'. event_set_param
       \<lparr>ev_type = EVENT_TYPE_USER, ev_action = EVENT_ACTION_URL, ev_device = ''d'',
        ev_params = [\<lparr>ep_name = ''url'', ep_value = Heap ''a''\<rparr>]\<rparr> ''url'' ''b'' = Inr ev' \<and>
     event_get_param ev' ''url'' = Some ''b''"
  using event_params_map[of "\<lparr>ev_type = EVENT_TYPE_USER, ev_action = EVENT_ACTION_URL, ev_device = ''d'',
        ev_params = [\<lparr>ep_name = ''url'', ep_value = Heap ''a''\<rparr>]\<rparr>" "''url''" "''b''" "''url''"]
  by (auto simp: no_literal_def strcaseeq_def)

text \<open>a parameter that was sent without a value keeps the string literal, and setting it afterwards
  gives the literal to \<^verbatim>\<open>talloc_free\<close>.\<close>

theorem set_valueless_param_faults:
  assumes "c_string n" and "CHR ''='' \<notin> set n" and "n \<noteq> []"
  shows "event_set_param (ev\<lparr>ev_params := event_parse_params (n @ [NUL])\<rparr>) n v = Inl Free_of_literal"
proof -
  have "event_parse_params (n @ [NUL]) = [parse_param n]"
    using c_prefix_NUL[OF assms(1), of "[]"] assms(3)
    by (subst event_parse_params.simps) (simp add: Let_def event_parse_params.simps)
  then show ?thesis using assms(2) by (simp add: event_set_param_def parse_param_def strcaseeq_def)
qed

theorem set_valueless_param_faults_witness:
  "event_set_param
     \<lparr>ev_type = EVENT_TYPE_USER, ev_action = EVENT_ACTION_DHCP, ev_device = ''eth0'',
      ev_params = event_parse_params (''mac'' @ [NUL])\<rparr> ''mac'' ''x'' = Inl Free_of_literal"
  using set_valueless_param_faults[of "''mac''" "\<lparr>ev_type = EVENT_TYPE_USER, ev_action = EVENT_ACTION_DHCP,
      ev_device = ''eth0'', ev_params = []\<rparr>" "''x''"]
  by (simp add: c_string_def)

end
