(* ===== verification/Device_Handler.thy ===== *)
theory Device_Handler
  imports Boot Event
begin

text \<open>
  The device handler, \<^verbatim>\<open>discover/device-handler.c\<close>: the devices that were discovered, their boot options,
  and the choice and countdown of the option that is booted by default.

  Devices, boot options, boot tasks and ramdisks live in a heap: the maps \<open>h_dev\<close>, \<open>h_opt\<close>, \<open>h_task\<close> and \<open>h_rd\<close> from
  references to objects, in which a freed object is \<open>None\<close>.  A use of a reference that is not
  live is the fault \<open>Use_after_free\<close>.  What the handler tells the clients is appended to
  \<open>h_out\<close>.  Timeouts of the wait set are references in \<open>h_waiters\<close>.
\<close>

section \<open>Data\<close>

record discover_device =
  dd_device :: device
  dd_uuid :: cstr
  dd_label :: cstr
  dd_mount_path :: cstr
  dd_device_path :: cstr
  dd_ramdisk :: "nat option"
  dd_notified :: bool
  dd_boot_options :: "nat list"
  dd_params :: "(string \<times> string) list"
  dd_requery_waiter :: "nat option"

record ramdisk_device =
  rd_path :: string
  rd_snapshot :: cstr
  rd_origin :: cstr
  rd_base :: cstr
  rd_sectors :: nat

record crypt_info =
  ci_source_device :: nat
  ci_dm_name :: string

text \<open>A network interface, as far as the handler's calls into \<^verbatim>\<open>discover/network.c\<close> use it.\<close>

record net_interface =
  iface_name :: string
  iface_hwaddr :: "u8 list"
  iface_dev :: "nat option"

text \<open>The callbacks of the timeouts in the wait set; that of a requery has the device as its data.\<close>

datatype waiter_cb = Default_timeout | Requery_timeout nat

text \<open>The status messages of the handler, one constructor for each format string.\<close>

datatype handler_msg =
    From_boot boot_msg
  | Countdown u32 cstr cstr
  | Default_cancelled
  | Must_be_root
  | Temp_override autoboot_option
  | Config_update_failed
  | No_encrypted_device string
  | Open_encrypted_failed string
  | Plugin_failed
  | Plugin_not_run
  | Processing_device cstr device_type
  | Processing_dhcp cstr cstr
  | Invalid_config_url
  | Unable_to_route cstr
  | Url_load_failed
  | Parsed_config cstr string string
  | Parsed_nested cstr string
  | Nested_failed cstr string
  | Nested_limit cstr
  | Bls_no_image cstr string
  | Bls_no_directory cstr
  | Bls_entry cstr string
  | Bls_scan_failed cstr string
  | Requesting_config cstr pb_url
  | Probing_base cstr pb_url
  | Download_failed cstr pb_url
  | Pxe_failed cstr
  | Parsed_pxe cstr pb_url

text \<open>What the handler sends to the server, to the network code and to \<^verbatim>\<open>pb-plugin\<close>.\<close>

datatype notification =
    Notify_device_add device
  | Notify_device_remove device
  | Notify_boot_option_add boot_option
  | Notify_plugin_option_add plugin_option
  | Notify_plugins_remove
  | Notify_config config
  | Notify_status status_type handler_msg
  | Network_requery nat
  | Plugin_scan cstr
  | Plugin_install string
  | Crypt_open cstr string string
  | Load_url pb_url

record device_handler =
  h_dry_run :: bool
  h_dev :: "nat \<Rightarrow> discover_device option"
  h_opt :: "nat \<Rightarrow> discover_boot_option option"
  h_task :: "nat \<Rightarrow> boot_task option"
  h_rd :: "nat \<Rightarrow> ramdisk_device option"
  h_next :: nat
  h_devices :: "nat list"
  h_ramdisks :: "nat list"
  h_interfaces :: "net_interface list"
  h_waiters :: "(nat \<times> waiter_cb) list"
  h_timeout_waiter :: "nat option"
  h_autoboot_enabled :: bool
  h_sec_to_boot :: u32
  h_temp_autoboot :: "autoboot_option option"
  h_default :: "nat option"
  h_last :: "nat option"
  h_default_priority :: nat
  h_unresolved :: "nat list"
  h_pending :: "nat option"
  h_pending_is_default :: bool
  h_plugins :: "plugin_option list"
  h_plugin_installing :: bool
  h_crypt_devices :: "crypt_info list"
  h_out :: "notification list"

datatype h_fault =
    Use_after_free
  | Null_pointer
  | Out_of_bounds
  | Assertion
  | Stack_overflow
  | Double_free
  | Boot_fault boot_fault
  | Url_error url_fault
  | Event_error event_fault

type_synonym 'a h_m = "h_fault + 'a"

definition hbind :: "'a h_m \<Rightarrow> ('a \<Rightarrow> 'b h_m) \<Rightarrow> 'b h_m" where
  "hbind m k = (case m of Inl e \<Rightarrow> Inl e | Inr x \<Rightarrow> k x)"

definition get_dev :: "device_handler \<Rightarrow> nat \<Rightarrow> discover_device h_m" where
  "get_dev h r = (case h_dev h r of Some d \<Rightarrow> Inr d | None \<Rightarrow> Inl Use_after_free)"

definition get_opt :: "device_handler \<Rightarrow> nat \<Rightarrow> discover_boot_option h_m" where
  "get_opt h r = (case h_opt h r of Some d \<Rightarrow> Inr d | None \<Rightarrow> Inl Use_after_free)"

definition get_rd :: "device_handler \<Rightarrow> nat \<Rightarrow> ramdisk_device h_m" where
  "get_rd h r = (case h_rd h r of Some d \<Rightarrow> Inr d | None \<Rightarrow> Inl Use_after_free)"

definition put_rd :: "nat \<Rightarrow> ramdisk_device \<Rightarrow> device_handler \<Rightarrow> device_handler" where
  "put_rd r d h = h\<lparr>h_rd := (h_rd h)(r := Some d)\<rparr>"

definition put_dev :: "nat \<Rightarrow> discover_device \<Rightarrow> device_handler \<Rightarrow> device_handler" where
  "put_dev r d h = h\<lparr>h_dev := (h_dev h)(r := Some d)\<rparr>"

definition put_opt :: "nat \<Rightarrow> discover_boot_option \<Rightarrow> device_handler \<Rightarrow> device_handler" where
  "put_opt r d h = h\<lparr>h_opt := (h_opt h)(r := Some d)\<rparr>"

definition notify :: "notification \<Rightarrow> device_handler \<Rightarrow> device_handler" where
  "notify n h = h\<lparr>h_out := h_out h @ [n]\<rparr>"

section \<open>Lookup\<close>

definition device_handler_get_device_count :: "device_handler \<Rightarrow> nat" where
  "device_handler_get_device_count h = length (h_devices h)"

definition device_handler_get_device :: "device_handler \<Rightarrow> nat \<Rightarrow> nat h_m" where
  "device_handler_get_device h index =
     (if length (h_devices h) \<le> index then Inl Assertion else Inr (h_devices h ! index))"

definition device_handler_get_plugin :: "device_handler \<Rightarrow> nat \<Rightarrow> plugin_option h_m" where
  "device_handler_get_plugin h index =
     (if length (h_plugins h) \<le> index then Inl Assertion else Inr (h_plugins h ! index))"

definition discover_device_get_param :: "discover_device \<Rightarrow> string \<Rightarrow> string option" where
  "discover_device_get_param dev name = map_option snd (find (\<lambda>p. fst p = name) (dd_params dev))"

text \<open>A NULL value removes the parameter.\<close>

fun set_param_list :: "string \<Rightarrow> cstr \<Rightarrow> (string \<times> string) list \<Rightarrow> (string \<times> string) list option" where
  "set_param_list name value [] = None"
| "set_param_list name value (p # ps) =
     (if fst p = name
      then Some (case value of None \<Rightarrow> ps | Some v \<Rightarrow> (name, v) # ps)
      else map_option (\<lambda>qs. p # qs) (set_param_list name value ps))"

definition discover_device_set_param :: "discover_device \<Rightarrow> string \<Rightarrow> cstr \<Rightarrow> discover_device" where
  "discover_device_set_param dev name value =
     (case set_param_list name value (dd_params dev) of
        Some ps \<Rightarrow> dev\<lparr>dd_params := ps\<rparr>
      | None \<Rightarrow> (case value of
                   None \<Rightarrow> dev
                 | Some v \<Rightarrow> dev\<lparr>dd_params := (name, v) # dd_params dev\<rparr>))"

definition device_match_uuid :: "discover_device \<Rightarrow> string \<Rightarrow> bool" where
  "device_match_uuid dev uuid \<longleftrightarrow> dd_uuid dev = Some uuid"

definition device_match_label :: "discover_device \<Rightarrow> string \<Rightarrow> bool" where
  "device_match_label dev label \<longleftrightarrow> dd_label dev = Some label"

text \<open>Every device is created with an id.\<close>

definition device_match_id :: "discover_device \<Rightarrow> string \<Rightarrow> bool" where
  "device_match_id dev did \<longleftrightarrow> dev_id (dd_device dev) = Some did"

definition device_match_serial :: "discover_device \<Rightarrow> string \<Rightarrow> bool" where
  "device_match_serial dev serial \<longleftrightarrow> discover_device_get_param dev ''ID_SERIAL'' = Some serial"

fun lookup_loop :: "device_handler \<Rightarrow> (discover_device \<Rightarrow> string \<Rightarrow> bool) \<Rightarrow> string \<Rightarrow> nat list \<Rightarrow> nat option h_m" where
  "lookup_loop h match str [] = Inr None"
| "lookup_loop h match str (r # rs) =
     hbind (get_dev h r) (\<lambda>dev. if match dev str then Inr (Some r) else lookup_loop h match str rs)"

definition device_lookup ::
    "device_handler \<Rightarrow> (discover_device \<Rightarrow> string \<Rightarrow> bool) \<Rightarrow> cstr \<Rightarrow> nat option h_m" where
  "device_lookup h match str =
     (case str of None \<Rightarrow> Inr None | Some s \<Rightarrow> lookup_loop h match s (h_devices h))"

definition device_lookup_by_uuid :: "device_handler \<Rightarrow> cstr \<Rightarrow> nat option h_m" where
  "device_lookup_by_uuid h uuid = device_lookup h device_match_uuid uuid"

definition device_lookup_by_label :: "device_handler \<Rightarrow> cstr \<Rightarrow> nat option h_m" where
  "device_lookup_by_label h label = device_lookup h device_match_label label"

definition device_lookup_by_id :: "device_handler \<Rightarrow> cstr \<Rightarrow> nat option h_m" where
  "device_lookup_by_id h did = device_lookup h device_match_id did"

definition device_lookup_by_serial :: "device_handler \<Rightarrow> cstr \<Rightarrow> nat option h_m" where
  "device_lookup_by_serial h serial = device_lookup h device_match_serial serial"

definition device_lookup_by_name :: "device_handler \<Rightarrow> string \<Rightarrow> nat option h_m" where
  "device_lookup_by_name h name =
     device_lookup_by_id h
       (Some (if strneq name ''/dev/'' (length ''/dev/'') then drop (length ''/dev/'') name else name))"

definition discover_device_new :: "cstr \<Rightarrow> string \<Rightarrow> discover_device" where
  "discover_device_new uuid did =
     \<lparr>dd_device = \<lparr>dev_id = Some did, dev_type = DEVICE_TYPE_NETWORK, dev_name = None,
                   dev_description = None, dev_icon_file = None\<rparr>,
      dd_uuid = uuid, dd_label = None, dd_mount_path = None, dd_device_path = None, dd_ramdisk = None,
      dd_notified = False, dd_boot_options = [], dd_params = [], dd_requery_waiter = None\<rparr>"

text \<open>\<^verbatim>\<open>talloc_zero\<close> leaves the type 0, which is \<^verbatim>\<open>DEVICE_TYPE_NETWORK\<close>.\<close>

definition discover_device_create :: "cstr \<Rightarrow> string \<Rightarrow> device_handler \<Rightarrow> (nat \<times> device_handler) h_m" where
  "discover_device_create uuid did h =
     hbind (case uuid of Some u \<Rightarrow> device_lookup_by_uuid h uuid | None \<Rightarrow> device_lookup_by_id h (Some did))
       (\<lambda>found. case found of
          Some r \<Rightarrow> Inr (r, h)
        | None \<Rightarrow> Inr (h_next h, put_dev (h_next h) (discover_device_new uuid did)
                                   (h\<lparr>h_next := Suc (h_next h)\<rparr>)))"


section \<open>Boot status\<close>

definition device_handler_status :: "status_type \<Rightarrow> handler_msg \<Rightarrow> device_handler \<Rightarrow> device_handler" where
  "device_handler_status t msg h = notify (Notify_status t msg) h"

definition device_handler_boot_status_cb :: "device_handler \<Rightarrow> boot_status \<Rightarrow> device_handler" where
  "device_handler_boot_status_cb h st =
     (let h = (if fst st = STATUS_ERROR then h\<lparr>h_pending := None, h_default := None\<rparr> else h)
      in device_handler_status (fst st) (From_boot (snd st)) h)"

text \<open>A call of \<^verbatim>\<open>boot\<close>: the callback runs for each status before the call returns, and only then is
  the result stored.\<close>

definition start_boot ::
    "boot_env \<Rightarrow> nat option \<Rightarrow> boot_command option \<Rightarrow> bool \<Rightarrow> device_handler \<Rightarrow> device_handler h_m" where
  "start_boot env opt_ref cmd is_default h =
     hbind (case opt_ref of None \<Rightarrow> Inr None | Some r \<Rightarrow> map_sum id Some (get_opt h r)) (\<lambda>opt.
       case boot env opt cmd (h_dry_run h) of
         Inl f \<Rightarrow> Inl (Boot_fault f)
       | Inr (task, out) \<Rightarrow>
           (let h = foldl device_handler_boot_status_cb h out
            in case task of
                 None \<Rightarrow> Inr (h\<lparr>h_pending := None, h_pending_is_default := is_default\<rparr>)
               | Some t \<Rightarrow>
                   Inr (h\<lparr>h_task := (h_task h)(h_next h := Some t), h_next := Suc (h_next h),
                          h_pending := Some (h_next h), h_pending_is_default := is_default\<rparr>)))"

text \<open>\<^verbatim>\<open>boot_cancel\<close> of the pending task.\<close>

definition cancel_boot :: "nat \<Rightarrow> device_handler \<Rightarrow> device_handler h_m" where
  "cancel_boot t h =
     (case h_task h t of
        None \<Rightarrow> Inl Use_after_free
      | Some task \<Rightarrow>
          (case boot_cancel task of
             Inl f \<Rightarrow> Inl (Boot_fault f)
           | Inr (task', out) \<Rightarrow>
               Inr (foldl device_handler_boot_status_cb (h\<lparr>h_task := (h_task h)(t := task')\<rparr>) out)))"

text \<open>An asynchronous load of task \<open>t\<close> has completed: resource \<open>i\<close> has the result \<open>r\<close>, and
  \<^verbatim>\<open>boot_process\<close> runs as its callback.\<close>

definition load_complete ::
    "boot_env \<Rightarrow> nat \<Rightarrow> nat \<Rightarrow> load_result \<Rightarrow> device_handler \<Rightarrow> device_handler h_m" where
  "load_complete env t i r h =
     (case h_task h t of
        None \<Rightarrow> Inl Use_after_free
      | Some task \<Rightarrow>
          if length (bt_resources task) \<le> i then Inr h
          else
            (let task = task\<lparr>bt_resources :=
                   (bt_resources task)[i := (bt_resources task ! i)\<lparr>br_result := Some r\<rparr>]\<rparr>
             in case boot_process env (Some i) task of
                  Inl f \<Rightarrow> Inl (Boot_fault f)
                | Inr (task', out) \<Rightarrow>
                    Inr (foldl device_handler_boot_status_cb
                           (h\<lparr>h_task := (h_task h)(t := task')\<rparr>) out)))"

section \<open>The countdown\<close>

definition waiter_register_timeout :: "waiter_cb \<Rightarrow> device_handler \<Rightarrow> nat \<times> device_handler" where
  "waiter_register_timeout cb h =
     (h_next h, h\<lparr>h_waiters := h_waiters h @ [(h_next h, cb)], h_next := Suc (h_next h)\<rparr>)"

text \<open>\<^verbatim>\<open>waiter_remove\<close> reads the wait set from the waiter, and asserts that it is in there.  A waiter is
  freed once it has fired.\<close>

definition waiter_remove :: "nat \<Rightarrow> device_handler \<Rightarrow> device_handler h_m" where
  "waiter_remove w h =
     (if w \<notin> fst ` set (h_waiters h) then Inl Use_after_free
      else Inr (h\<lparr>h_waiters := filter (\<lambda>x. fst x \<noteq> w) (h_waiters h)\<rparr>))"

definition countdown_status :: "discover_device \<Rightarrow> discover_boot_option \<Rightarrow> u32 \<Rightarrow> device_handler \<Rightarrow> device_handler" where
  "countdown_status dev opt sec h =
     device_handler_status STATUS_INFO
       (Countdown sec (dev_id (dd_device dev)) (opt_name (dbo_option opt))) h"

definition default_timeout :: "boot_env \<Rightarrow> device_handler \<Rightarrow> device_handler h_m" where
  "default_timeout env h =
     (case h_default h of
        None \<Rightarrow> Inr h
      | Some r \<Rightarrow>
          if h_pending h \<noteq> None then Inr h
          else
            hbind (get_opt h r) (\<lambda>opt.
            let h = h\<lparr>h_last := Some r\<rparr>
            in if h_sec_to_boot h \<noteq> 0
               then
                 hbind (get_dev h (dbo_device opt)) (\<lambda>dev.
                 let h = countdown_status dev opt (h_sec_to_boot h) h;
                     h = h\<lparr>h_sec_to_boot := h_sec_to_boot h - 1\<rparr>;
                     (w, h) = waiter_register_timeout Default_timeout h
                 in Inr (h\<lparr>h_timeout_waiter := Some w\<rparr>))
               else start_boot env (Some r) None True (h\<lparr>h_timeout_waiter := None\<rparr>)))"

section \<open>Choosing the default option\<close>

definition DEFAULT_PRIORITY_TEMP_USER :: nat where "DEFAULT_PRIORITY_TEMP_USER = 1"
definition DEFAULT_PRIORITY_REMOTE :: nat where "DEFAULT_PRIORITY_REMOTE = 2"
definition DEFAULT_PRIORITY_LOCAL_FIRST :: nat where "DEFAULT_PRIORITY_LOCAL_FIRST = 3"
definition DEFAULT_PRIORITY_DISABLED :: nat where "DEFAULT_PRIORITY_DISABLED = 0xff"

definition device_type_map :: "(ipmi_bootdev \<times> device_type) list" where
  "device_type_map =
     [(IPMI_BOOTDEV_NETWORK, DEVICE_TYPE_NETWORK), (IPMI_BOOTDEV_DISK, DEVICE_TYPE_DISK),
      (IPMI_BOOTDEV_DISK, DEVICE_TYPE_USB), (IPMI_BOOTDEV_CDROM, DEVICE_TYPE_OPTICAL)]"

definition ipmi_device_type_matches :: "u32 \<Rightarrow> device_type \<Rightarrow> bool" where
  "ipmi_device_type_matches ipmi_type t =
     (case find (\<lambda>e. snd e = t) device_type_map of
        Some e \<Rightarrow> ipmi_bootdev_code (fst e) = ipmi_type
      | None \<Rightarrow> False)"

text \<open>\<^verbatim>\<open>strcmp\<close> of the two UUIDs faults when either is NULL.\<close>

definition autoboot_option_matches :: "autoboot_option \<Rightarrow> discover_device \<Rightarrow> bool h_m" where
  "autoboot_option_matches opt dev =
     (case opt of
        BOOT_DEVICE_UUID u \<Rightarrow>
          (case (u, dd_uuid dev) of
             (Some a, Some b) \<Rightarrow> Inr (a = b)
           | _ \<Rightarrow> Inl Null_pointer)
      | BOOT_DEVICE_TYPE t \<Rightarrow> Inr (t = dev_type (dd_device dev) \<or> t = DEVICE_TYPE_ANY)
      | BOOT_DEVICE_invalid w u \<Rightarrow> Inr False)"

fun autoboot_priority_loop :: "autoboot_option list \<Rightarrow> nat \<Rightarrow> discover_device \<Rightarrow> nat option h_m" where
  "autoboot_priority_loop [] i dev = Inr None"
| "autoboot_priority_loop (auto_opt # opts) i dev =
     hbind (autoboot_option_matches auto_opt dev) (\<lambda>m.
       if m then Inr (Some (DEFAULT_PRIORITY_LOCAL_FIRST + i))
       else autoboot_priority_loop opts (Suc i) dev)"

text \<open>\<open>None\<close> is the result \<^verbatim>\<open>-1\<close>.\<close>

definition autoboot_option_priority :: "config \<Rightarrow> discover_device \<Rightarrow> nat option h_m" where
  "autoboot_option_priority config dev = autoboot_priority_loop (cfg_autoboot_opts config) 0 dev"

definition default_option_priority :: "config \<Rightarrow> device_handler \<Rightarrow> discover_device \<Rightarrow> nat h_m" where
  "default_option_priority config h dev =
     (case h_temp_autoboot h of
        Some opt \<Rightarrow>
          hbind (autoboot_option_matches opt dev)
            (\<lambda>m. Inr (if m then DEFAULT_PRIORITY_TEMP_USER else DEFAULT_PRIORITY_DISABLED))
      | None \<Rightarrow>
          if cfg_ipmi_bootdev config \<noteq> 0
          then Inr (if ipmi_device_type_matches (cfg_ipmi_bootdev config) (dev_type (dd_device dev))
                    then DEFAULT_PRIORITY_REMOTE else DEFAULT_PRIORITY_DISABLED)
          else if cfg_autoboot_opts config \<noteq> []
          then hbind (autoboot_option_priority config dev)
                 (\<lambda>m. Inr (case m of Some p \<Rightarrow> p | None \<Rightarrow> DEFAULT_PRIORITY_DISABLED))
          else Inr DEFAULT_PRIORITY_LOCAL_FIRST)"

definition set_default :: "boot_env \<Rightarrow> nat \<Rightarrow> device_handler \<Rightarrow> device_handler h_m" where
  "set_default env r h =
     (if \<not> h_autoboot_enabled h then Inr h
      else
        hbind (get_opt h r) (\<lambda>opt.
        hbind (get_dev h (dbo_device opt)) (\<lambda>dev.
        hbind (default_option_priority (be_config env) h dev) (\<lambda>new_prio.
        if DEFAULT_PRIORITY_DISABLED \<le> new_prio then Inr h
        else if h_default h \<noteq> None
        then Inr (if new_prio < h_default_priority h
                  then h\<lparr>h_default := Some r, h_default_priority := new_prio,
                         h_sec_to_boot := h_sec_to_boot h + 2\<rparr>
                  else h)
        else
          default_timeout env
            ((put_opt r (opt\<lparr>dbo_option := (dbo_option opt)\<lparr>opt_is_autoboot_default := True\<rparr>\<rparr>) h)
               \<lparr>h_sec_to_boot := cfg_autoboot_timeout_sec (be_config env),
                h_default := Some r, h_default_priority := new_prio\<rparr>)))))"

definition device_handler_cancel_default :: "device_handler \<Rightarrow> device_handler h_m" where
  "device_handler_cancel_default h =
     hbind (case h_timeout_waiter h of None \<Rightarrow> Inr h | Some w \<Rightarrow> waiter_remove w h) (\<lambda>h.
     let h = h\<lparr>h_timeout_waiter := None, h_autoboot_enabled := False\<rparr>
     in if h_default h = None then Inr h
        else
          hbind (case h_pending h of
                   Some t \<Rightarrow>
                     if h_pending_is_default h
                     then hbind (cancel_boot t h)
                            (\<lambda>h. Inr (h\<lparr>h_pending := None, h_pending_is_default := False\<rparr>))
                     else Inr h
                 | None \<Rightarrow> Inr h) (\<lambda>h.
          Inr (device_handler_status STATUS_INFO Default_cancelled (h\<lparr>h_default := None\<rparr>))))"

text \<open>The first option of a device that is its default.\<close>

fun first_default :: "device_handler \<Rightarrow> nat list \<Rightarrow> nat option h_m" where
  "first_default h [] = Inr None"
| "first_default h (r # rs) =
     hbind (get_opt h r) (\<lambda>opt. if opt_is_default (dbo_option opt) then Inr (Some r) else first_default h rs)"

fun temp_autoboot_loop :: "boot_env \<Rightarrow> autoboot_option \<Rightarrow> nat list \<Rightarrow> device_handler \<Rightarrow> device_handler h_m" where
  "temp_autoboot_loop env opt [] h = Inr h"
| "temp_autoboot_loop env opt (d # ds) h =
     hbind (get_dev h d) (\<lambda>dev.
     hbind (autoboot_option_matches opt dev) (\<lambda>m.
     hbind (if \<not> m then Inr h
            else hbind (first_default h (dd_boot_options dev)) (\<lambda>r.
              case r of None \<Rightarrow> Inr h | Some r \<Rightarrow> set_default env r h)) (\<lambda>h.
     temp_autoboot_loop env opt ds h)))"

definition device_handler_apply_temp_autoboot ::
    "boot_env \<Rightarrow> autoboot_option \<Rightarrow> device_handler \<Rightarrow> device_handler h_m" where
  "device_handler_apply_temp_autoboot env opt h0 =
     (let h = device_handler_status STATUS_INFO (Temp_override opt) (h0\<lparr>h_temp_autoboot := Some opt\<rparr>)
      in if \<not> h_autoboot_enabled h then Inr h
         else case h_default h of
                None \<Rightarrow> Inr h
              | Some r \<Rightarrow>
                  hbind (get_opt h r) (\<lambda>bo.
                  hbind (get_dev h (dbo_device bo)) (\<lambda>dev.
                  hbind (autoboot_option_matches opt dev) (\<lambda>m.
                  if m then Inr h
                  else
                    hbind (device_handler_cancel_default h) (\<lambda>h.
                    let h = h\<lparr>h_autoboot_enabled := True\<rparr>
                    in temp_autoboot_loop env opt (h_devices h) h)))))"

section \<open>Resolving and publishing boot options\<close>

text \<open>The parsers' \<^verbatim>\<open>resolve_resource\<close> callbacks, by the name of the parser; \<open>None\<close> is a NULL pointer.\<close>

type_synonym resolvers = "string \<Rightarrow> (device_handler \<Rightarrow> resource \<Rightarrow> resource h_m) option"

definition resource_is_resolved :: "resource option \<Rightarrow> bool" where
  "resource_is_resolved res = (case res of None \<Rightarrow> True | Some r \<Rightarrow> resource_resolved r)"

definition boot_option_is_resolved :: "discover_boot_option \<Rightarrow> bool" where
  "boot_option_is_resolved opt \<longleftrightarrow>
     resource_is_resolved (dbo_boot_image opt) \<and> resource_is_resolved (dbo_initrd opt) \<and>
     resource_is_resolved (dbo_dtb opt) \<and> resource_is_resolved (dbo_args_sig_file opt) \<and>
     resource_is_resolved (dbo_icon opt)"

text \<open>Whether the resource is resolved now, and the resource after the attempt.\<close>

definition resource_resolve ::
    "resolvers \<Rightarrow> device_handler \<Rightarrow> string \<Rightarrow> resource option \<Rightarrow> (bool \<times> resource option) h_m" where
  "resource_resolve rs h source res =
     (if resource_is_resolved res then Inr (True, res)
      else case (rs source, res) of
             (Some f, Some r) \<Rightarrow> hbind (f h r) (\<lambda>r. Inr (resource_resolved r, Some r))
           | _ \<Rightarrow> Inl Null_pointer)"

definition boot_option_resolve ::
    "resolvers \<Rightarrow> device_handler \<Rightarrow> discover_boot_option \<Rightarrow> (bool \<times> discover_boot_option) h_m" where
  "boot_option_resolve rs h opt =
     hbind (resource_resolve rs h (dbo_source opt) (dbo_boot_image opt)) (\<lambda>(ok, r).
     let opt = opt\<lparr>dbo_boot_image := r\<rparr> in if \<not> ok then Inr (False, opt) else
     hbind (resource_resolve rs h (dbo_source opt) (dbo_initrd opt)) (\<lambda>(ok, r).
     let opt = opt\<lparr>dbo_initrd := r\<rparr> in if \<not> ok then Inr (False, opt) else
     hbind (resource_resolve rs h (dbo_source opt) (dbo_dtb opt)) (\<lambda>(ok, r).
     let opt = opt\<lparr>dbo_dtb := r\<rparr> in if \<not> ok then Inr (False, opt) else
     hbind (resource_resolve rs h (dbo_source opt) (dbo_args_sig_file opt)) (\<lambda>(ok, r).
     let opt = opt\<lparr>dbo_args_sig_file := r\<rparr> in if \<not> ok then Inr (False, opt) else
     hbind (resource_resolve rs h (dbo_source opt) (dbo_icon opt)) (\<lambda>(ok, r).
     Inr (ok, opt\<lparr>dbo_icon := r\<rparr>))))))"

text \<open>\<^verbatim>\<open>if (res) member = res->url->full\<close>.\<close>

definition final_file :: "resource option \<Rightarrow> cstr h_m" where
  "final_file res =
     (case res of
        None \<Rightarrow> Inr None
      | Some r \<Rightarrow> (case resource_url r of Some u \<Rightarrow> Inr (url_full u) | None \<Rightarrow> Inl Null_pointer))"

text \<open>The option with its final data, once the assertions have passed.\<close>

definition final_option :: "discover_boot_option \<Rightarrow> discover_device \<Rightarrow> boot_option h_m" where
  "final_option opt dev =
     (let bo = dbo_option opt
      in if \<not> boot_option_is_resolved opt \<or> opt_boot_image_file bo \<noteq> None \<or>
            opt_initrd_file bo \<noteq> None \<or> opt_dtb_file bo \<noteq> None \<or> opt_icon_file bo \<noteq> None \<or>
            opt_device_id bo \<noteq> None \<or> opt_args_sig_file bo \<noteq> None
         then Inl Assertion
         else
           hbind (final_file (dbo_boot_image opt)) (\<lambda>img.
           hbind (final_file (dbo_initrd opt)) (\<lambda>initrd.
           hbind (final_file (dbo_dtb opt)) (\<lambda>dtb.
           hbind (final_file (dbo_icon opt)) (\<lambda>icon.
           hbind (final_file (dbo_args_sig_file opt)) (\<lambda>sig.
           Inr (bo\<lparr>opt_boot_image_file := img, opt_initrd_file := initrd, opt_dtb_file := dtb,
                   opt_icon_file := icon, opt_args_sig_file := sig,
                   opt_device_id := dev_id (dd_device dev)\<rparr>)))))))"

definition boot_option_finalise :: "boot_env \<Rightarrow> nat \<Rightarrow> device_handler \<Rightarrow> device_handler h_m" where
  "boot_option_finalise env r h =
     hbind (get_opt h r) (\<lambda>opt.
     hbind (get_dev h (dbo_device opt)) (\<lambda>dev.
     hbind (final_option opt dev) (\<lambda>bo.
     let h = put_opt r (opt\<lparr>dbo_option := bo\<rparr>) h
     in if opt_is_default bo then set_default env r h else Inr h)))"

definition notify_boot_option :: "nat \<Rightarrow> device_handler \<Rightarrow> device_handler h_m" where
  "notify_boot_option r h =
     hbind (get_opt h r) (\<lambda>opt.
     hbind (get_dev h (dbo_device opt)) (\<lambda>dev.
     let h = (if \<not> dd_notified dev then notify (Notify_device_add (dd_device dev)) h else h);
         h = put_dev (dbo_device opt) (dev\<lparr>dd_notified := True\<rparr>) h
     in Inr (notify (Notify_boot_option_add (dbo_option opt)) h)))"

text \<open>A resolved option moves to the device \<open>d\<close>, is completed and published.\<close>

definition publish_option :: "boot_env \<Rightarrow> nat \<Rightarrow> nat \<Rightarrow> device_handler \<Rightarrow> device_handler h_m" where
  "publish_option env d r h =
     hbind (get_dev h d) (\<lambda>dev.
     hbind
       (boot_option_finalise env r (put_dev d (dev\<lparr>dd_boot_options := dd_boot_options dev @ [r]\<rparr>) h))
       (notify_boot_option r))"

fun queue_loop :: "resolvers \<Rightarrow> boot_env \<Rightarrow> nat list \<Rightarrow> device_handler \<Rightarrow> device_handler h_m" where
  "queue_loop rs env [] h = Inr h"
| "queue_loop rs env (r # rest) h =
     hbind (get_opt h r) (\<lambda>opt.
     hbind (boot_option_resolve rs h opt) (\<lambda>(ok, opt).
     let h = put_opt r opt h
     in hbind (if ok then publish_option env (dbo_device opt) r (h\<lparr>h_unresolved := remove1 r (h_unresolved h)\<rparr>)
               else Inr h)
          (queue_loop rs env rest)))"

definition process_boot_option_queue :: "resolvers \<Rightarrow> boot_env \<Rightarrow> device_handler \<Rightarrow> device_handler h_m" where
  "process_boot_option_queue rs env h = queue_loop rs env (h_unresolved h) h"

section \<open>The network registry\<close>

definition mac_bytes_to_string :: "u8 list \<Rightarrow> string" where
  "mac_bytes_to_string addr =
     (if addr = [] then [] else butlast (concat (map (\<lambda>b. fmt_02x b @ '':'') addr)))"

text \<open>The position of the interface; \<^verbatim>\<open>strcmp\<close> with a NULL argument faults as soon as there is an interface.\<close>

definition find_interface :: "(net_interface \<Rightarrow> string) \<Rightarrow> cstr \<Rightarrow> device_handler \<Rightarrow> nat option h_m" where
  "find_interface key str h =
     (case str of
        Some s \<Rightarrow> Inr (find (\<lambda>i. key (h_interfaces h ! i) = s) [0..<length (h_interfaces h)])
      | None \<Rightarrow> if h_interfaces h = [] then Inr None else Inl Null_pointer)"

definition find_interface_by_name :: "cstr \<Rightarrow> device_handler \<Rightarrow> nat option h_m" where
  "find_interface_by_name = find_interface iface_name"

definition find_interface_by_uuid :: "cstr \<Rightarrow> device_handler \<Rightarrow> nat option h_m" where
  "find_interface_by_uuid = find_interface (\<lambda>i. mac_bytes_to_string (iface_hwaddr i))"

definition network_register_device :: "nat \<Rightarrow> device_handler \<Rightarrow> device_handler h_m" where
  "network_register_device r h =
     hbind (get_dev h r) (\<lambda>dev.
     hbind (if dd_uuid dev \<noteq> None then find_interface_by_uuid (dd_uuid dev) h
            else find_interface_by_name (dd_label dev) h) (\<lambda>found.
     case found of
       None \<Rightarrow> Inr h
     | Some i \<Rightarrow>
         (let iface = h_interfaces h ! i
          in Inr (put_dev r (dev\<lparr>dd_uuid := Some (mac_bytes_to_string (iface_hwaddr iface))\<rparr>)
                    (h\<lparr>h_interfaces := (h_interfaces h)[i := iface\<lparr>iface_dev := Some r\<rparr>]\<rparr>)))))"

definition network_unregister_device :: "nat \<Rightarrow> device_handler \<Rightarrow> device_handler h_m" where
  "network_unregister_device r h =
     hbind (get_dev h r) (\<lambda>dev.
     hbind (find_interface_by_uuid (dd_uuid dev) h) (\<lambda>found.
     case found of
       None \<Rightarrow> Inr h
     | Some i \<Rightarrow>
         Inr (h\<lparr>h_interfaces := (h_interfaces h)[i := (h_interfaces h ! i)\<lparr>iface_dev := None\<rparr>]\<rparr>)))"

section \<open>Committing what the parsers found\<close>

record discover_context =
  ctx_parser :: string
  ctx_device :: nat
  ctx_event :: "event option"
  ctx_boot_options :: "nat list"

definition discover_boot_option_create :: "nat \<Rightarrow> device_handler \<Rightarrow> nat \<times> device_handler" where
  "discover_boot_option_create dev h =
     (h_next h,
      put_opt (h_next h)
        \<lparr>dbo_source = [], dbo_device = dev,
         dbo_option =
           \<lparr>opt_device_id = None, opt_id = None, opt_name = None, opt_description = None,
            opt_icon_file = None, opt_boot_image_file = None, opt_initrd_file = None,
            opt_dtb_file = None, opt_boot_args = None, opt_args_sig_file = None,
            opt_is_default = False, opt_is_autoboot_default = False,
            opt_type = DISCOVER_BOOT_OPTION\<rparr>,
         dbo_proxy = None, dbo_boot_image = None, dbo_initrd = None, dbo_dtb = None,
         dbo_args_sig_file = None, dbo_icon = None\<rparr>
        (h\<lparr>h_next := Suc (h_next h)\<rparr>))"

definition discover_context_add_boot_option ::
    "discover_context \<Rightarrow> nat \<Rightarrow> device_handler \<Rightarrow> (discover_context \<times> device_handler) h_m" where
  "discover_context_add_boot_option ctx r h =
     hbind (get_opt h r) (\<lambda>opt.
     Inr (ctx\<lparr>ctx_boot_options := ctx_boot_options ctx @ [r]\<rparr>,
          put_opt r (opt\<lparr>dbo_source := ctx_parser ctx\<rparr>) h))"

definition device_handler_add_device :: "nat \<Rightarrow> device_handler \<Rightarrow> device_handler h_m" where
  "device_handler_add_device r h =
     hbind (get_dev h r) (\<lambda>dev.
     let h = h\<lparr>h_devices := h_devices h @ [r]\<rparr>
     in if dev_type (dd_device dev) = DEVICE_TYPE_NETWORK then network_register_device r h else Inr h)"

definition free_opt :: "nat \<Rightarrow> device_handler \<Rightarrow> device_handler" where
  "free_opt r h = h\<lparr>h_opt := (h_opt h)(r := None)\<rparr>"

text \<open>Every boot option needs an image; the member aliases the parser's data while it is unresolved.\<close>

definition has_image :: "discover_boot_option \<Rightarrow> bool" where
  "has_image opt =
     (case dbo_boot_image opt of
        None \<Rightarrow> False
      | Some (Resolved u) \<Rightarrow> u \<noteq> None
      | Some (Unresolved d p) \<Rightarrow> True)"

fun commit_loop :: "resolvers \<Rightarrow> boot_env \<Rightarrow> nat \<Rightarrow> nat list \<Rightarrow> device_handler \<Rightarrow> device_handler h_m" where
  "commit_loop rs env d [] h = Inr h"
| "commit_loop rs env d (r # rest) h =
     hbind (get_opt h r) (\<lambda>opt.
     hbind
       (if \<not> has_image opt then Inr (free_opt r h)
        else
          hbind (boot_option_resolve rs h opt) (\<lambda>(ok, opt).
          let h = put_opt r opt h
          in if ok then publish_option env d r h
             else if rs (dbo_source opt) = None then Inr (free_opt r h)
             else Inr (h\<lparr>h_unresolved := r # h_unresolved h\<rparr>)))
       (commit_loop rs env d rest))"

definition device_handler_discover_context_commit ::
    "resolvers \<Rightarrow> boot_env \<Rightarrow> discover_context \<Rightarrow> device_handler \<Rightarrow> device_handler h_m" where
  "device_handler_discover_context_commit rs env ctx h =
     hbind (get_dev h (ctx_device ctx)) (\<lambda>dev.
     hbind (device_lookup_by_uuid h (dd_uuid dev)) (\<lambda>found.
     hbind (if found = None then device_handler_add_device (ctx_device ctx) h else Inr h)
       (commit_loop rs env (ctx_device ctx) (ctx_boot_options ctx))))"

end
