(* ===== verification/Pb_Config.thy ===== *)
theory Pb_Config
  imports Types
begin

text \<open>
  Copying a configuration, \<^verbatim>\<open>lib/pb-config/pb-config.c\<close>.  The destination is zeroed, so a member the function
  does not assign is false.
\<close>

definition config_copy_interface :: "interface_config \<Rightarrow> interface_config" where
  "config_copy_interface src =
     (let dest = \<lparr>ifc_hwaddr = ifc_hwaddr src, ifc_ignore = ifc_ignore src,
                  ifc_method = CONFIG_METHOD_DHCP, ifc_address = None, ifc_gateway = None,
                  ifc_url = None, ifc_override = False\<rparr>
      in if ifc_ignore dest then dest
         else
           (let dest = dest\<lparr>ifc_method := ifc_method src\<rparr>;
                dest = (case ifc_method src of
                          CONFIG_METHOD_STATIC \<Rightarrow>
                            dest\<lparr>ifc_address := ifc_address src, ifc_gateway := ifc_gateway src,
                                 ifc_url := ifc_url src\<rparr>
                        | _ \<Rightarrow> dest)
            in dest\<lparr>ifc_override := ifc_override src\<rparr>))"

text \<open>An option whose \<^verbatim>\<open>boot_type\<close> is not \<^verbatim>\<open>BOOT_DEVICE_TYPE\<close> has its \<^verbatim>\<open>uuid\<close> member copied.\<close>

definition config_copy :: "config \<Rightarrow> config" where
  "config_copy src =
     \<lparr>cfg_autoboot_enabled = cfg_autoboot_enabled src,
      cfg_autoboot_timeout_sec = cfg_autoboot_timeout_sec src,
      cfg_network = \<lparr>net_interfaces = map config_copy_interface (net_interfaces (cfg_network src)),
                     net_dns_servers = net_dns_servers (cfg_network src)\<rparr>,
      cfg_preboot_check_enabled = False,
      cfg_autoboot_opts = cfg_autoboot_opts src,
      cfg_ipmi_bootdev = cfg_ipmi_bootdev src,
      cfg_ipmi_bootdev_persistent = cfg_ipmi_bootdev_persistent src,
      cfg_ipmi_bootdev_mailbox = cfg_ipmi_bootdev_mailbox src,
      cfg_http_proxy = cfg_http_proxy src, cfg_https_proxy = cfg_https_proxy src,
      cfg_allow_writes = cfg_allow_writes src,
      cfg_boot_console = cfg_boot_console src,
      cfg_manual_console = cfg_manual_console src,
      cfg_lang = (case cfg_lang src of Some l \<Rightarrow> if l \<noteq> [] then Some l else None | None \<Rightarrow> None),
      cfg_consoles = cfg_consoles src,
      cfg_disable_snapshots = False,
      cfg_safe_mode = cfg_safe_mode src,
      cfg_debug = False\<rparr>"

end
