(* ===== verification/Device_Ops.thy ===== *)
theory Device_Ops
  imports Device_Handler Pb_Config
begin

text \<open>
  The rest of \<^verbatim>\<open>discover/device-handler.c\<close>: removal of devices, the requery timer, boot requests of the
  clients, discovery, ramdisks, encrypted devices, plugins and the reset of the handler.

  The parsers are functions on the discover context; the list of registered parsers is a parameter.
\<close>

section \<open>Ramdisks and snapshots\<close>

text \<open>Whether a ramdisk with that path is in the array.\<close>

fun has_ramdisk :: "device_handler \<Rightarrow> string \<Rightarrow> nat list \<Rightarrow> bool h_m" where
  "has_ramdisk h p [] = Inr False"
| "has_ramdisk h p (r # rs) =
     hbind (get_rd h r) (\<lambda>rd. if rd_path rd = p then Inr True else has_ramdisk h p rs)"

definition device_handler_add_ramdisk :: "cstr \<Rightarrow> device_handler \<Rightarrow> device_handler h_m" where
  "device_handler_add_ramdisk path h =
     (case path of
        None \<Rightarrow> Inr h
      | Some p \<Rightarrow>
          hbind (has_ramdisk h p (h_ramdisks h)) (\<lambda>known.
          if known then Inr h
          else
            Inr (put_rd (h_next h)
                   \<lparr>rd_path = p, rd_snapshot = None, rd_origin = None, rd_base = None, rd_sectors = 0\<rparr>
                   (h\<lparr>h_ramdisks := h_ramdisks h @ [h_next h], h_next := Suc (h_next h)\<rparr>))))"

fun fmt_u :: "nat \<Rightarrow> string" where
  "fmt_u n = (if n < 10 then [''0123456789'' ! n] else fmt_u (n div 10) @ [''0123456789'' ! (n mod 10)])"

declare fmt_u.simps [simp del]

fun free_ramdisk :: "device_handler \<Rightarrow> nat list \<Rightarrow> nat option h_m" where
  "free_ramdisk h [] = Inr None"
| "free_ramdisk h (r # rs) =
     hbind (get_rd h r) (\<lambda>rd.
     if rd_snapshot rd = None \<and> rd_origin rd = None \<and> rd_base rd = None then Inr (Some r)
     else free_ramdisk h rs)"

text \<open>\<open>mknod\<close> tells whether a block device of that name was made or existed before.  The result is read
  from the array at the old length.\<close>

definition device_handler_get_ramdisk :: "(string \<Rightarrow> bool) \<Rightarrow> device_handler \<Rightarrow> (nat option \<times> device_handler) h_m" where
  "device_handler_get_ramdisk mknod h =
     hbind (free_ramdisk h (h_ramdisks h)) (\<lambda>found.
     case found of
       Some r \<Rightarrow> Inr (Some r, h)
     | None \<Rightarrow>
         (let n = length (h_ramdisks h); name = ''/dev/ram'' @ fmt_u n
          in if \<not> mknod name then Inr (None, h)
             else
               hbind (device_handler_add_ramdisk (Some name) h) (\<lambda>h.
               if length (h_ramdisks h) \<le> n then Inl Out_of_bounds else Inr (Some (h_ramdisks h ! n), h))))"

definition device_handler_release_ramdisk :: "nat \<Rightarrow> device_handler \<Rightarrow> device_handler h_m" where
  "device_handler_release_ramdisk d h =
     hbind (get_dev h d) (\<lambda>dev.
     case dd_ramdisk dev of
       None \<Rightarrow> Inl Null_pointer
     | Some r \<Rightarrow>
         hbind (get_rd h r) (\<lambda>rd.
         Inr (put_dev d (dev\<lparr>dd_ramdisk := None\<rparr>)
               (put_rd r (rd\<lparr>rd_snapshot := None, rd_origin := None, rd_base := None, rd_sectors := 0\<rparr>) h))))"

text \<open>\<^verbatim>\<open>devmapper_destroy_snapshot\<close> of an unmounted device: whatever the device mapper answers, the ramdisk is
  released.\<close>

definition devmapper_destroy_snapshot :: "nat \<Rightarrow> device_handler \<Rightarrow> device_handler h_m" where
  "devmapper_destroy_snapshot d h =
     hbind (get_dev h d) (\<lambda>dev.
     if dd_ramdisk dev = None then Inr h else device_handler_release_ramdisk d h)"

text \<open>The answers of the device mapper: the size of a device, whether the map of that name could be
  created, and whether a map could be suspended or resumed.\<close>

record dm_env =
  dm_sectors :: "discover_device \<Rightarrow> nat"
  dm_create :: "string \<Rightarrow> bool"
  dm_set_active :: "string \<Rightarrow> bool \<Rightarrow> bool"

text \<open>The steps of \<^verbatim>\<open>devmapper_init_snapshot\<close> on the ramdisk of a device, up to the first that fails;
  \<open>True\<close> when all have succeeded.\<close>

definition dm_name :: "discover_device \<Rightarrow> string \<Rightarrow> string" where
  "dm_name dev ext = ''pb-'' @ fmt_s (dev_id (dd_device dev)) @ ext"

definition create_maps :: "dm_env \<Rightarrow> discover_device \<Rightarrow> ramdisk_device \<Rightarrow> bool \<times> ramdisk_device" where
  "create_maps dm dev rd =
     (if \<not> dm_create dm (dm_name dev ''-base'') then (False, rd)
      else let rd = rd\<lparr>rd_base := Some (''/dev/mapper/'' @ dm_name dev ''-base'')\<rparr>
      in if \<not> dm_create dm (dm_name dev ''-origin'') then (False, rd)
      else let origin = ''/dev/mapper/'' @ dm_name dev ''-origin''; rd = rd\<lparr>rd_origin := Some origin\<rparr>
      in if \<not> dm_set_active dm origin False then (False, rd)
      else if \<not> dm_create dm (dm_name dev []) then (False, rd)
      else let rd = rd\<lparr>rd_snapshot := Some (''/dev/mapper/'' @ dm_name dev [])\<rparr>
      in (dm_set_active dm origin True, rd))"

definition devmapper_init_snapshot ::
    "config \<Rightarrow> (string \<Rightarrow> bool) \<Rightarrow> dm_env \<Rightarrow> nat \<Rightarrow> device_handler \<Rightarrow> (int \<times> device_handler) h_m" where
  "devmapper_init_snapshot config mknod dm d h =
     (if cfg_disable_snapshots config then Inr (0, h)
      else
        hbind (device_handler_get_ramdisk mknod h) (\<lambda>(found, h).
        case found of
          None \<Rightarrow> Inr (- 1, h)
        | Some r \<Rightarrow>
            hbind (get_rd h r) (\<lambda>rd.
            hbind (get_dev h d) (\<lambda>dev.
            let rd = rd\<lparr>rd_sectors := dm_sectors dm dev\<rparr>; h = put_rd r rd h
            in if rd_sectors rd = 0 then Inr (- 1, h)
               else
                 (let (ok, rd) = create_maps dm dev rd;
                      h = put_dev d (dev\<lparr>dd_ramdisk := Some r\<rparr>) (put_rd r rd h)
                  in if ok then Inr (0, h)
                     else hbind (devmapper_destroy_snapshot d h) (\<lambda>h. Inr (- 1, h)))))))"

section \<open>Freeing a device\<close>

text \<open>\<^verbatim>\<open>talloc_free\<close> of a device: its destructor \<^verbatim>\<open>destroy_device\<close> gives up the snapshot, and the boot
  options that were stolen to the device go with it.  The destructor's unmounting and the
  \<^verbatim>\<open>cryptsetup luksClose\<close> process do not change the handler.\<close>

definition destroy_device :: "nat \<Rightarrow> device_handler \<Rightarrow> device_handler h_m" where
  "destroy_device d h =
     hbind (devmapper_destroy_snapshot d h) (\<lambda>h.
     hbind (get_dev h d) (\<lambda>dev.
     Inr (h\<lparr>h_dev := (h_dev h)(d := None),
            h_opt := (\<lambda>r. if r \<in> set (dd_boot_options dev) then None else h_opt h r)\<rparr>)))"

text \<open>A walk over a list of options reads each of them.\<close>

fun has_default :: "device_handler \<Rightarrow> nat list \<Rightarrow> bool h_m" where
  "has_default h [] = Inr False"
| "has_default h (r # rs) =
     hbind (get_opt h r) (\<lambda>_. if h_default h = Some r then Inr True else has_default h rs)"

text \<open>Free the unresolved options of a device.\<close>

fun free_unresolved :: "nat \<Rightarrow> nat list \<Rightarrow> device_handler \<Rightarrow> device_handler h_m" where
  "free_unresolved d [] h = Inr h"
| "free_unresolved d (r # rs) h =
     hbind (get_opt h r) (\<lambda>opt.
     free_unresolved d rs
       (if dbo_device opt \<noteq> d then h
        else free_opt r (h\<lparr>h_unresolved := remove1 r (h_unresolved h)\<rparr>)))"

definition device_handler_remove :: "nat \<Rightarrow> device_handler \<Rightarrow> device_handler h_m" where
  "device_handler_remove d h =
     hbind (get_dev h d) (\<lambda>dev.
     hbind (case dd_requery_waiter dev of None \<Rightarrow> Inr h | Some w \<Rightarrow> waiter_remove w h) (\<lambda>h.
     hbind (has_default h (dd_boot_options dev)) (\<lambda>isdef.
     hbind (if isdef then device_handler_cancel_default h else Inr h) (\<lambda>h.
     if d \<notin> set (h_devices h) then destroy_device d h
     else
       hbind (free_unresolved d (h_unresolved h) h) (\<lambda>h.
       hbind (if dev_type (dd_device dev) = DEVICE_TYPE_NETWORK then network_unregister_device d h else Inr h) (\<lambda>h.
       let h = h\<lparr>h_devices := remove1 d (h_devices h)\<rparr>;
           h = (if dd_notified dev then notify (Notify_device_remove (dd_device dev)) h else h)
       in destroy_device d h))))))"

section \<open>Reset\<close>

fun free_opts :: "nat list \<Rightarrow> device_handler \<Rightarrow> device_handler h_m" where
  "free_opts [] h = Inr h"
| "free_opts (r # rs) h = hbind (get_opt h r) (\<lambda>_. free_opts rs (free_opt r h))"

fun drop_devices :: "nat list \<Rightarrow> device_handler \<Rightarrow> device_handler h_m" where
  "drop_devices [] h = Inr h"
| "drop_devices (d # ds) h =
     hbind (get_dev h d) (\<lambda>dev.
     let h = notify (Notify_device_remove (dd_device dev)) h
     in hbind (case dd_requery_waiter dev of None \<Rightarrow> Inr h | Some w \<Rightarrow> waiter_remove w h) (\<lambda>h.
        hbind (destroy_device d h) (\<lambda>h.
        hbind (case dd_ramdisk dev of
                 None \<Rightarrow> Inr h
               | Some r \<Rightarrow> hbind (get_rd h r) (\<lambda>_. Inr (h\<lparr>h_rd := (h_rd h)(r := None)\<rparr>)))
          (drop_devices ds))))"

text \<open>After leaving safe mode the configuration is a copy, as far as the platform saves it; the clients
  get the copy in any case.  Stopping the asynchronous jobs, the SCSI rescan and the restart of the
  discovery sources are outside; \<open>ifaces\<close> are the interfaces of the network code afterwards.\<close>

definition leave_safe_mode :: "platform_state \<Rightarrow> device_handler \<Rightarrow> platform_state \<times> device_handler" where
  "leave_safe_mode ps h =
     (if cfg_safe_mode (ps_config ps)
      then (let config = (config_copy (ps_config ps))\<lparr>cfg_safe_mode := False\<rparr>
            in (snd (config_set False config ps), notify (Notify_config config) h))
      else (ps, h))"

definition device_handler_reinit ::
    "net_interface list \<Rightarrow> platform_state \<Rightarrow> device_handler \<Rightarrow> (platform_state \<times> device_handler) h_m" where
  "device_handler_reinit ifaces ps h =
     hbind (device_handler_cancel_default h) (\<lambda>h.
     hbind (case h_pending h of
              None \<Rightarrow> Inr h
            | Some t \<Rightarrow> hbind (cancel_boot t h)
                         (\<lambda>h. Inr (h\<lparr>h_pending := None, h_pending_is_default := False\<rparr>))) (\<lambda>h.
     hbind (free_opts (h_unresolved h) h) (\<lambda>h.
     let h = h\<lparr>h_unresolved := []\<rparr>
     in hbind (drop_devices (h_devices h) h) (\<lambda>h.
        let h = h\<lparr>h_devices := [], h_ramdisks := [], h_plugins := []\<rparr>;
            h = notify Notify_plugins_remove h;
            h = h\<lparr>h_crypt_devices := []\<rparr>;
            (ps, h) = leave_safe_mode ps h
        in Inr (ps, h\<lparr>h_interfaces := ifaces\<rparr>)))))"

definition device_handler_update_config ::
    "net_interface list \<Rightarrow> bool \<Rightarrow> config \<Rightarrow> platform_state \<Rightarrow> device_handler \<Rightarrow> (platform_state \<times> device_handler) h_m" where
  "device_handler_update_config ifaces same config ps h =
     (let (rc, ps) = config_set same config ps
      in if rc \<noteq> 0 then Inr (ps, device_handler_status STATUS_ERROR Config_update_failed h)
         else device_handler_reinit ifaces ps (notify (Notify_config config) h))"

section \<open>Requery\<close>

text \<open>The length of the timeout is not kept; \<open>0\<close> means no requery.\<close>

definition device_handler_start_requery_timeout :: "nat \<Rightarrow> int \<Rightarrow> device_handler \<Rightarrow> device_handler h_m" where
  "device_handler_start_requery_timeout d timeout h =
     hbind (get_dev h d) (\<lambda>dev.
     if dd_requery_waiter dev \<noteq> None then Inr h
     else if timeout = 0 then Inr h
     else
       (let (w, h) = waiter_register_timeout (Requery_timeout d) h
        in Inr (put_dev d (dev\<lparr>dd_requery_waiter := Some w\<rparr>) h)))"

text \<open>Free the options of the device that is requeried; the list is emptied one by one.\<close>

fun requery_free :: "nat \<Rightarrow> nat list \<Rightarrow> device_handler \<Rightarrow> device_handler h_m" where
  "requery_free d [] h = Inr h"
| "requery_free d (r # rs) h =
     hbind (get_opt h r) (\<lambda>_.
     hbind (if h_default h = Some r then device_handler_cancel_default h else Inr h) (\<lambda>h.
     hbind (get_dev h d) (\<lambda>dev.
     requery_free d rs
       (free_opt r (put_dev d (dev\<lparr>dd_boot_options := remove1 r (dd_boot_options dev)\<rparr>) h)))))"

definition device_handler_requery_timeout_fn :: "nat \<Rightarrow> device_handler \<Rightarrow> device_handler h_m" where
  "device_handler_requery_timeout_fn d h =
     hbind (get_dev h d) (\<lambda>dev.
     let h = put_dev d (dev\<lparr>dd_requery_waiter := None\<rparr>) h
     in hbind (free_unresolved d (h_unresolved h) h) (\<lambda>h.
        let autoboot = h_autoboot_enabled h
        in hbind (requery_free d (dd_boot_options dev) h) (\<lambda>h.
           let h = h\<lparr>h_autoboot_enabled := autoboot\<rparr>
           in hbind (get_dev h d) (\<lambda>dev.
              let h = notify (Notify_device_remove (dd_device dev)) h;
                  h = put_dev d (dev\<lparr>dd_notified := False\<rparr>) h
              in Inr (notify (Network_requery d) h)))))"

text \<open>The wait set runs an expired timeout and then removes and frees its waiter.\<close>

definition waiter_fire :: "boot_env \<Rightarrow> nat \<Rightarrow> device_handler \<Rightarrow> device_handler h_m" where
  "waiter_fire env w h =
     (case map_of (h_waiters h) w of
        None \<Rightarrow> Inr h
      | Some Default_timeout \<Rightarrow> hbind (default_timeout env h) (waiter_remove w)
      | Some (Requery_timeout d) \<Rightarrow> hbind (device_handler_requery_timeout_fn d h) (waiter_remove w))"

section \<open>Boot requests\<close>

text \<open>The first option of the devices that satisfies a test, in the order of the devices.\<close>

fun find_opt :: "(discover_boot_option \<Rightarrow> bool h_m) \<Rightarrow> device_handler \<Rightarrow> nat list \<Rightarrow> nat option h_m" where
  "find_opt t h [] = Inr None"
| "find_opt t h (r # rs) =
     hbind (get_opt h r) (\<lambda>opt. hbind (t opt) (\<lambda>m. if m then Inr (Some r) else find_opt t h rs))"

fun find_in_devices :: "(discover_boot_option \<Rightarrow> bool h_m) \<Rightarrow> device_handler \<Rightarrow> nat list \<Rightarrow> nat option h_m" where
  "find_in_devices t h [] = Inr None"
| "find_in_devices t h (d # ds) =
     hbind (get_dev h d) (\<lambda>dev.
     hbind (find_opt t h (dd_boot_options dev)) (\<lambda>found.
     if found \<noteq> None then Inr found else find_in_devices t h ds))"

text \<open>\<^verbatim>\<open>!strcmp\<close>, which faults on NULL.\<close>

definition strcmp_eq :: "cstr \<Rightarrow> cstr \<Rightarrow> bool h_m" where
  "strcmp_eq a b = (case (a, b) of (Some s, Some t) \<Rightarrow> Inr (s = t) | _ \<Rightarrow> Inl Null_pointer)"

text \<open>The test \<^verbatim>\<open>!dev\<close> is of the loop variable, so that it never holds.\<close>

definition device_handler_find_option_by_name :: "device_handler \<Rightarrow> cstr \<Rightarrow> string \<Rightarrow> nat option h_m" where
  "device_handler_find_option_by_name h device name =
     find_in_devices
       (\<lambda>opt. hbind (strcmp_eq (opt_name (dbo_option opt)) (Some name)) (\<lambda>m.
                if m then strcmp_eq (opt_device_id (dbo_option opt)) device else Inr False))
       h (h_devices h)"

definition find_boot_option_by_id :: "device_handler \<Rightarrow> string \<Rightarrow> nat option h_m" where
  "find_boot_option_by_id h did =
     find_in_devices (\<lambda>opt. strcmp_eq (opt_id (dbo_option opt)) (Some did)) h (h_devices h)"

definition device_handler_boot ::
    "boot_env \<Rightarrow> bool \<Rightarrow> boot_command \<Rightarrow> device_handler \<Rightarrow> device_handler h_m" where
  "device_handler_boot env change_default cmd h =
     hbind (case cmd_option_id cmd of
              Some i \<Rightarrow> if i \<noteq> [] then find_boot_option_by_id h i else Inr None
            | None \<Rightarrow> Inr None) (\<lambda>opt.
     if \<not> change_default \<and> h_last h \<noteq> None \<and> opt \<noteq> h_last h
     then Inr (device_handler_status STATUS_ERROR Must_be_root h)
     else
       hbind (case h_pending h of Some t \<Rightarrow> cancel_boot t h | None \<Rightarrow> Inr h) (\<lambda>h.
       start_boot env opt (Some cmd) False h))"

section \<open>Encrypted devices\<close>

definition dm_match :: "crypt_info \<Rightarrow> string \<Rightarrow> bool" where
  "dm_match crypt name \<longleftrightarrow> strneq (ci_dm_name crypt) name (length (ci_dm_name crypt))"

definition device_handler_found_crypt_device :: "string \<Rightarrow> device_handler \<Rightarrow> (bool \<times> device_handler) h_m" where
  "device_handler_found_crypt_device name h =
     (case find (\<lambda>c. dm_match c name) (h_crypt_devices h) of
        None \<Rightarrow> Inr (False, h)
      | Some crypt \<Rightarrow>
          hbind (device_handler_remove (ci_source_device crypt) h) (\<lambda>h.
          Inr (True, h\<lparr>h_crypt_devices := remove1 crypt (h_crypt_devices h)\<rparr>)))"

definition cryptsetup_cb :: "int \<Rightarrow> string \<Rightarrow> string \<Rightarrow> device_handler \<Rightarrow> device_handler" where
  "cryptsetup_cb exit_status device_path name h =
     (if exit_status = 0 then h
      else
        (let h = device_handler_status STATUS_ERROR (Open_encrypted_failed device_path) h
         in case find (\<lambda>c. dm_match c name) (h_crypt_devices h) of
              None \<Rightarrow> h
            | Some crypt \<Rightarrow> h\<lparr>h_crypt_devices := remove1 crypt (h_crypt_devices h)\<rparr>))"

text \<open>\<open>started\<close> says whether the \<^verbatim>\<open>cryptsetup\<close> process could be started.\<close>

definition device_handler_open_encrypted_dev ::
    "bool \<Rightarrow> string \<Rightarrow> string \<Rightarrow> device_handler \<Rightarrow> device_handler h_m" where
  "device_handler_open_encrypted_dev started password device_id h =
     hbind (device_lookup_by_id h (Some device_id)) (\<lambda>found.
     case found of
       None \<Rightarrow> Inr (device_handler_status STATUS_ERROR (No_encrypted_device device_id) h)
     | Some d \<Rightarrow>
         hbind (get_dev h d) (\<lambda>dev.
         if \<not> started then Inr h
         else
           (let name = ''luks_'' @ device_id;
                h = notify (Crypt_open (dd_device_path dev) name password) h
            in Inr (h\<lparr>h_crypt_devices :=
                  \<lparr>ci_source_device = d, ci_dm_name = name\<rparr> # h_crypt_devices h\<rparr>))))"

definition device_handler_add_encrypted_dev :: "nat \<Rightarrow> device_handler \<Rightarrow> device_handler h_m" where
  "device_handler_add_encrypted_dev d h =
     hbind (get_dev h d) (\<lambda>dev.
     let h = put_dev d (dev\<lparr>dd_notified := True\<rparr>) (notify (Notify_device_add (dd_device dev)) h)
     in hbind (device_lookup_by_uuid h (dd_uuid dev)) (\<lambda>found.
        if found = None then device_handler_add_device d h else Inr h))"

section \<open>Plugins\<close>

definition same_plugin :: "plugin_option \<Rightarrow> plugin_option \<Rightarrow> bool h_m" where
  "same_plugin opt tmp =
     (case (plg_id opt, plg_id tmp) of
        (Some a, Some b) \<Rightarrow>
          if strneq a b (length a) then strcmp_eq (plg_version opt) (plg_version tmp) else Inr False
      | _ \<Rightarrow> Inl Null_pointer)"

fun known_plugin :: "plugin_option \<Rightarrow> plugin_option list \<Rightarrow> bool h_m" where
  "known_plugin opt [] = Inr False"
| "known_plugin opt (tmp # plugins) =
     hbind (same_plugin opt tmp) (\<lambda>m. if m then Inr True else known_plugin opt plugins)"

definition device_handler_add_plugin_option :: "plugin_option \<Rightarrow> device_handler \<Rightarrow> device_handler h_m" where
  "device_handler_add_plugin_option opt h =
     hbind (known_plugin opt (h_plugins h)) (\<lambda>known.
     if known then Inr h
     else Inr (notify (Notify_plugin_option_add opt) (h\<lparr>h_plugins := h_plugins h @ [opt]\<rparr>)))"

definition plugin_install_cb :: "int \<Rightarrow> device_handler \<Rightarrow> device_handler" where
  "plugin_install_cb exit_status h =
     (let h = h\<lparr>h_plugin_installing := False\<rparr>
      in if exit_status \<noteq> 0 then device_handler_status STATUS_ERROR Plugin_failed h else h)"

definition device_handler_install_plugin :: "bool \<Rightarrow> string \<Rightarrow> device_handler \<Rightarrow> device_handler" where
  "device_handler_install_plugin started plugin_file h =
     (if h_plugin_installing h then h
      else if \<not> started then device_handler_status STATUS_ERROR Plugin_not_run h
      else notify (Plugin_install plugin_file) (h\<lparr>h_plugin_installing := True\<rparr>))"

section \<open>Discovery\<close>

text \<open>A registered parser: its name and its function on the context.\<close>

type_synonym parser_fn = "discover_context \<Rightarrow> device_handler \<Rightarrow> (discover_context \<times> device_handler) h_m"

definition device_handler_discover_context_create :: "nat \<Rightarrow> event option \<Rightarrow> discover_context" where
  "device_handler_discover_context_create d event =
     \<lparr>ctx_parser = [], ctx_device = d, ctx_event = event, ctx_boot_options = []\<rparr>"

fun iterate_parsers :: "(string \<times> parser_fn) list \<Rightarrow> parser_fn" where
  "iterate_parsers [] ctx h = Inr (ctx\<lparr>ctx_parser := []\<rparr>, h)"
| "iterate_parsers ((name, parse) # parsers) ctx h =
     hbind (parse (ctx\<lparr>ctx_parser := name\<rparr>) h) (\<lambda>(ctx, h). iterate_parsers parsers ctx h)"

definition parse_and_commit ::
    "(string \<times> parser_fn) list \<Rightarrow> resolvers \<Rightarrow> boot_env \<Rightarrow> discover_context \<Rightarrow> device_handler \<Rightarrow> device_handler h_m" where
  "parse_and_commit parsers rs env ctx h =
     hbind (iterate_parsers parsers ctx h) (\<lambda>(ctx, h).
     device_handler_discover_context_commit rs env ctx h)"

text \<open>\<open>mount\<close> is the mount path, when the device could be mounted.\<close>

definition device_handler_discover ::
    "(string \<times> parser_fn) list \<Rightarrow> resolvers \<Rightarrow> boot_env \<Rightarrow> string option \<Rightarrow> nat \<Rightarrow> device_handler \<Rightarrow> device_handler h_m" where
  "device_handler_discover parsers rs env mount d h =
     hbind (get_dev h d) (\<lambda>dev.
     let h = device_handler_status STATUS_INFO
               (Processing_device (dev_id (dd_device dev)) (dev_type (dd_device dev))) h
     in case mount of
          None \<Rightarrow> Inr h
        | Some path \<Rightarrow>
            hbind (parse_and_commit parsers rs env (device_handler_discover_context_create d None)
                     (put_dev d (dev\<lparr>dd_mount_path := Some path\<rparr>) h)) (\<lambda>h.
            hbind (process_boot_option_queue rs env h) (\<lambda>h.
            Inr (notify (Plugin_scan (Some path)) h))))"

text \<open>\<^verbatim>\<open>strtoul (s, &end, 0)\<close>: the base is read from the digits.\<close>

definition strtoul0 :: "string \<Rightarrow> int \<times> nat" where
  "strtoul0 s =
     (let o16 = snd (number_prefix s 16); o10 = snd (number_prefix s 10)
      in if o16 \<noteq> o10 then strtoul s 16
         else if take 1 (drop o10 s) = ''0'' then strtoul s 8 else strtoul s 10)"

text \<open>Conversion to \<^verbatim>\<open>int\<close> keeps the low 32 bits.\<close>

definition event_requery_timeout :: "event option \<Rightarrow> int" where
  "event_requery_timeout event =
     (case Option.bind event (\<lambda>e. event_get_param e ''reboottime'') of
        None \<Rightarrow> - 1
      | Some str \<Rightarrow>
          (let (x, endp) = strtoul0 str
           in if endp \<noteq> 0 then sint (word_of_int x :: 32 word) else - 1))"

definition device_handler_dhcp ::
    "(string \<times> parser_fn) list \<Rightarrow> resolvers \<Rightarrow> boot_env \<Rightarrow> nat \<Rightarrow> event \<Rightarrow> device_handler \<Rightarrow> device_handler h_m" where
  "device_handler_dhcp parsers rs env d event h =
     hbind (get_dev h d) (\<lambda>dev.
     let ip = (case event_get_param event ''ipv6'' of
                 Some i \<Rightarrow> Some i | None \<Rightarrow> event_get_param event ''ip'');
         h = device_handler_status STATUS_INFO (Processing_dhcp (dev_id (dd_device dev)) ip) h
     in hbind (device_handler_start_requery_timeout d (event_requery_timeout (Some event)) h)
          (parse_and_commit parsers rs env (device_handler_discover_context_create d (Some event))))"

section \<open>Configuration files by URL\<close>

text \<open>A NULL value is not stored: \<^verbatim>\<open>event_get_param\<close> would return the NULL pointer, as it does without the
  parameter.\<close>

definition url_set_param :: "string \<Rightarrow> cstr \<Rightarrow> event \<Rightarrow> event h_m" where
  "url_set_param name value event =
     (case value of
        None \<Rightarrow> Inr event
      | Some v \<Rightarrow> map_sum Event_error id (event_set_param event name v))"

definition url_event :: event where
  "url_event = \<lparr>ev_type = EVENT_TYPE_USER, ev_action = EVENT_ACTION_URL, ev_device = [], ev_params = []\<rparr>"

text \<open>The remote file has been loaded: \<open>local\<close> is its path, \<open>None\<close> when the load failed.\<close>

definition process_url_cb ::
    "(string \<times> parser_fn) list \<Rightarrow> resolvers \<Rightarrow> boot_env \<Rightarrow> (pb_url \<Rightarrow> string option) \<Rightarrow>
     pb_url \<Rightarrow> string option \<Rightarrow> event \<Rightarrow> device_handler \<Rightarrow> device_handler h_m" where
  "process_url_cb parsers rs env device_from_addr url local event h =
     (case local of
        None \<Rightarrow> Inr h
      | Some path \<Rightarrow>
          (let event = event\<lparr>ev_device := (case device_from_addr url of Some d \<Rightarrow> d | None \<Rightarrow> ''local'')\<rparr>;
               mac = event_get_param event ''mac''
           in hbind (url_set_param ''pxeconffile-local'' (Some (''file://'' @ path)) event) (\<lambda>event.
              hbind (discover_device_create mac (ev_device event) h) (\<lambda>(d, h).
              parse_and_commit parsers rs env (device_handler_discover_context_create d (Some event)) h))))"

text \<open>\<open>device_from_addr\<close> asks the resolver and the routing table for the interface of the host, and
  \<open>async\<close> tells whether the asynchronous load could be started.\<close>

definition device_handler_process_url ::
    "(string \<times> parser_fn) list \<Rightarrow> resolvers \<Rightarrow> boot_env \<Rightarrow> (pb_url \<Rightarrow> string option) \<Rightarrow> (pb_url \<Rightarrow> bool) \<Rightarrow>
     string \<Rightarrow> cstr \<Rightarrow> cstr \<Rightarrow> device_handler \<Rightarrow> device_handler h_m" where
  "device_handler_process_url parsers rs env device_from_addr async url mac ip h =
     hbind (map_sum Url_error id (pb_url_parse (Some url))) (\<lambda>parsed.
     case parsed of
       None \<Rightarrow> Inr (device_handler_status STATUS_ERROR Invalid_config_url h)
     | Some u \<Rightarrow>
         if url_scheme u \<noteq> pb_url_file \<and> url_host u = None
         then Inr (device_handler_status STATUS_ERROR Invalid_config_url h)
         else if url = [] then Inl Out_of_bounds
         else
           let is_dir = (last url = CHR ''/'')
           in hbind
                (if is_dir
                 then hbind (url_set_param ''pxepathprefix'' (Some url) url_event) (\<lambda>event.
                      hbind (url_set_param ''mac'' mac event) (url_set_param ''ip'' ip))
                 else url_set_param ''pxeconffile'' (Some url) url_event) (\<lambda>event.
              if is_dir \<and> device_from_addr u = None
              then Inr (device_handler_status STATUS_ERROR (Unable_to_route (url_host u)) h)
              else if url_scheme u \<noteq> pb_url_file \<and> \<not> is_dir
              then Inr (if async u then notify (Load_url u) h
                        else device_handler_status STATUS_ERROR Url_load_failed h)
              else
                (let event = event\<lparr>ev_device :=
                       (if url_scheme u = pb_url_file then ''local''
                        else case device_from_addr u of Some d \<Rightarrow> d | None \<Rightarrow> [])\<rparr>
                 in hbind (discover_device_create mac (ev_device event) h) (\<lambda>(d, h).
                    hbind (get_dev h d) (\<lambda>dev.
                    parse_and_commit parsers rs env (device_handler_discover_context_create d (Some event))
                      (if url_scheme u = pb_url_file
                       then put_dev d (dev\<lparr>dd_device := (dd_device dev)\<lparr>dev_type := DEVICE_TYPE_ANY\<rparr>\<rparr>) h
                       else h))))))"

end
