(* ===== verification/Device_Inv.thy ===== *)
theory Device_Inv
  imports Device_Ops
begin

text \<open>
  The invariant of the device handler's heap, and that every operation keeps it without touching
  freed memory.

  \<open>safely P m\<close> reads: \<open>m\<close> does not use a freed object, and if it returns, the result satisfies \<open>P\<close>.
\<close>

section \<open>Results without a use after free\<close>

definition safely :: "('a \<Rightarrow> bool) \<Rightarrow> 'a h_m \<Rightarrow> bool" where
  "safely P m = (case m of Inr x \<Rightarrow> P x | Inl e \<Rightarrow> e \<noteq> Use_after_free)"

lemma safely_Inr [simp]: "safely P (Inr x) \<longleftrightarrow> P x"
  by (simp add: safely_def)

lemma safely_Inl [simp]: "safely P (Inl e) \<longleftrightarrow> e \<noteq> Use_after_free"
  by (simp add: safely_def)

lemma hbind_simps [simp]: "hbind (Inr x) k = k x" "hbind (Inl e) k = Inl e"
  by (simp_all add: hbind_def)

lemma hbind_Inr_iff: "hbind m k = Inr y \<longleftrightarrow> (\<exists>x. m = Inr x \<and> k x = Inr y)"
  by (cases m) simp_all

lemma safely_hbind: "safely Q m \<Longrightarrow> (\<And>x. Q x \<Longrightarrow> safely P (k x)) \<Longrightarrow> safely P (hbind m k)"
  by (cases m) auto

lemma safely_mono: "safely Q m \<Longrightarrow> (\<And>x. Q x \<Longrightarrow> P x) \<Longrightarrow> safely P m"
  by (cases m) auto

lemma safely_True_hbind: "safely (\<lambda>_. True) m \<Longrightarrow> (\<And>x. safely P (k x)) \<Longrightarrow> safely P (hbind m k)"
  by (rule safely_hbind)

lemma safely_Inr_D: "safely P m \<Longrightarrow> m = Inr x \<Longrightarrow> P x"
  by simp

lemma get_dev_Some [simp]: "h_dev h d = Some dev \<Longrightarrow> get_dev h d = Inr dev"
  by (simp add: get_dev_def)

lemma get_opt_Some [simp]: "h_opt h r = Some opt \<Longrightarrow> get_opt h r = Inr opt"
  by (simp add: get_opt_def)

lemma get_rd_Some [simp]: "h_rd h r = Some rd \<Longrightarrow> get_rd h r = Inr rd"
  by (simp add: get_rd_def)

lemma safely_autoboot_option_matches: "safely (\<lambda>_. True) (autoboot_option_matches opt dev)"
  by (auto simp: autoboot_option_matches_def split: autoboot_option.splits option.splits)

lemma safely_autoboot_priority_loop: "safely (\<lambda>_. True) (autoboot_priority_loop opts i dev)"
  by (induction opts arbitrary: i) (auto intro!: safely_True_hbind safely_autoboot_option_matches)

lemma safely_default_option_priority: "safely (\<lambda>_. True) (default_option_priority config h dev)"
  by (auto simp: default_option_priority_def autoboot_option_priority_def split: option.splits
      intro!: safely_True_hbind safely_autoboot_option_matches safely_autoboot_priority_loop)

section \<open>The invariant\<close>

text \<open>Each clause is a predicate on the members it reads.  References that were not handed out yet are free.\<close>

type_synonym dev_heap = "nat \<Rightarrow> discover_device option"
type_synonym opt_heap = "nat \<Rightarrow> discover_boot_option option"

definition fresh_ok ::
    "nat \<Rightarrow> dev_heap \<Rightarrow> opt_heap \<Rightarrow> (nat \<Rightarrow> boot_task option) \<Rightarrow> (nat \<Rightarrow> ramdisk_device option) \<Rightarrow>
     (nat \<times> waiter_cb) list \<Rightarrow> bool" where
  "fresh_ok n dev opt task rd ws \<longleftrightarrow>
     (\<forall>r \<ge> n. dev r = None \<and> opt r = None \<and> task r = None \<and> rd r = None) \<and> (\<forall>w \<in> fst ` set ws. w < n)"

text \<open>The devices of the handler are live and listed once.\<close>

definition devices_ok :: "nat list \<Rightarrow> dev_heap \<Rightarrow> bool" where
  "devices_ok ds dev \<longleftrightarrow> distinct ds \<and> (\<forall>d \<in> set ds. dev d \<noteq> None)"

text \<open>The options of a device are live and belong to it; only a listed device has options.\<close>

definition options_ok :: "nat list \<Rightarrow> dev_heap \<Rightarrow> opt_heap \<Rightarrow> nat list \<Rightarrow> bool" where
  "options_ok ds dev opt us \<longleftrightarrow>
     (\<forall>d x. dev d = Some x \<longrightarrow>
        distinct (dd_boot_options x) \<and> (dd_boot_options x \<noteq> [] \<longrightarrow> d \<in> set ds) \<and>
        (\<forall>r \<in> set (dd_boot_options x). r \<notin> set us \<and> (\<exists>y. opt r = Some y \<and> dbo_device y = d)))"

text \<open>The options that wait to be resolved are live, and so are their devices.\<close>

definition unresolved_ok :: "nat list \<Rightarrow> nat list \<Rightarrow> opt_heap \<Rightarrow> bool" where
  "unresolved_ok us ds opt \<longleftrightarrow>
     distinct us \<and> (\<forall>r \<in> set us. \<exists>y. opt r = Some y \<and> dbo_device y \<in> set ds)"

text \<open>The default option is an option of a listed device.\<close>

definition default_ok :: "nat option \<Rightarrow> nat list \<Rightarrow> dev_heap \<Rightarrow> bool" where
  "default_ok def ds dev \<longleftrightarrow>
     (\<forall>r. def = Some r \<longrightarrow> (\<exists>d \<in> set ds. \<exists>x. dev d = Some x \<and> r \<in> set (dd_boot_options x)))"

text \<open>The pending boot is a live task that was not cancelled.\<close>

definition pending_ok :: "nat option \<Rightarrow> (nat \<Rightarrow> boot_task option) \<Rightarrow> bool" where
  "pending_ok p task \<longleftrightarrow> (\<forall>t. p = Some t \<longrightarrow> (\<exists>x. task t = Some x \<and> \<not> bt_cancelled x))"

text \<open>A timeout of the wait set that requeries a device is the waiter of that live device, and the
  waiters the handler keeps are in the wait set.  \<open>X\<close> holds the device (\<open>Inl\<close>) whose
  waiter has just been removed, or the waiter (\<open>Inr\<close>) that is being run.\<close>

definition waits :: "dev_heap \<Rightarrow> nat \<Rightarrow> nat \<Rightarrow> bool" where
  "waits dev d w \<longleftrightarrow> (\<exists>x. dev d = Some x \<and> dd_requery_waiter x = Some w)"

definition requery_ok :: "(nat + nat) set \<Rightarrow> (nat \<times> waiter_cb) list \<Rightarrow> dev_heap \<Rightarrow> bool" where
  "requery_ok X ws dev \<longleftrightarrow>
     distinct (map fst ws) \<and>
     (\<forall>w d. (w, Requery_timeout d) \<in> set ws \<longrightarrow> Inr w \<notin> X \<longrightarrow> waits dev d w \<and> Inl d \<notin> X) \<and>
     (\<forall>w d. waits dev d w \<longrightarrow> Inl d \<notin> X \<longrightarrow> (w, Requery_timeout d) \<in> set ws) \<and>
     (\<forall>w. Inr w \<in> X \<longrightarrow> (\<exists>d. (w, Requery_timeout d) \<in> set ws) \<and> (\<forall>d. \<not> waits dev d w))"

definition timer_ok :: "nat option \<Rightarrow> (nat \<times> waiter_cb) list \<Rightarrow> bool" where
  "timer_ok t ws \<longleftrightarrow> (\<forall>w. t = Some w \<longrightarrow> (w, Default_timeout) \<in> set ws)"

text \<open>The ramdisks are live, and a snapshot has its ramdisk for itself.\<close>

definition owns :: "dev_heap \<Rightarrow> nat \<Rightarrow> nat \<Rightarrow> bool" where
  "owns dev d r \<longleftrightarrow> (\<exists>x. dev d = Some x \<and> dd_ramdisk x = Some r)"

definition ramdisks_ok :: "nat list \<Rightarrow> (nat \<Rightarrow> ramdisk_device option) \<Rightarrow> dev_heap \<Rightarrow> bool" where
  "ramdisks_ok rds rd dev \<longleftrightarrow>
     (\<forall>r \<in> set rds. rd r \<noteq> None) \<and>
     (\<forall>d r. owns dev d r \<longrightarrow> (\<exists>y. rd r = Some y \<and> rd_base y \<noteq> None)) \<and>
     (\<forall>d d' r. owns dev d r \<longrightarrow> owns dev d' r \<longrightarrow> d' = d)"

definition handler_ok :: "(nat + nat) set \<Rightarrow> device_handler \<Rightarrow> bool" where
  "handler_ok X h \<longleftrightarrow>
     fresh_ok (h_next h) (h_dev h) (h_opt h) (h_task h) (h_rd h) (h_waiters h) \<and>
     devices_ok (h_devices h) (h_dev h) \<and>
     options_ok (h_devices h) (h_dev h) (h_opt h) (h_unresolved h) \<and>
     unresolved_ok (h_unresolved h) (h_devices h) (h_opt h) \<and>
     default_ok (h_default h) (h_devices h) (h_dev h) \<and>
     pending_ok (h_pending h) (h_task h) \<and>
     requery_ok X (h_waiters h) (h_dev h) \<and>
     timer_ok (h_timeout_waiter h) (h_waiters h) \<and>
     ramdisks_ok (h_ramdisks h) (h_rd h) (h_dev h)"

lemmas clause_defs = fresh_ok_def devices_ok_def options_ok_def unresolved_ok_def
  default_ok_def pending_ok_def timer_ok_def ramdisks_ok_def

lemma requery_okI:
  assumes "distinct (map fst ws)"
    "\<And>w d. (w, Requery_timeout d) \<in> set ws \<Longrightarrow> Inr w \<notin> X \<Longrightarrow> waits dev d w \<and> Inl d \<notin> X"
    "\<And>w d. waits dev d w \<Longrightarrow> Inl d \<notin> X \<Longrightarrow> (w, Requery_timeout d) \<in> set ws"
    "\<And>w. Inr w \<in> X \<Longrightarrow> (\<exists>d. (w, Requery_timeout d) \<in> set ws) \<and> (\<forall>d. \<not> waits dev d w)"
  shows "requery_ok X ws dev"
  unfolding requery_ok_def using assms by blast

lemma requery_ok_distinct: "requery_ok X ws dev \<Longrightarrow> distinct (map fst ws)"
  unfolding requery_ok_def by (rule conjunct1)

lemma requery_ok_waiter:
  "requery_ok X ws dev \<Longrightarrow> (w, Requery_timeout d) \<in> set ws \<Longrightarrow> Inr w \<notin> X \<Longrightarrow> waits dev d w \<and> Inl d \<notin> X"
  unfolding requery_ok_def by blast

lemma requery_ok_waits:
  "requery_ok X ws dev \<Longrightarrow> waits dev d w \<Longrightarrow> Inl d \<notin> X \<Longrightarrow> (w, Requery_timeout d) \<in> set ws"
  unfolding requery_ok_def by blast

lemma requery_ok_running:
  "requery_ok X ws dev \<Longrightarrow> Inr w \<in> X \<Longrightarrow> (\<exists>d. (w, Requery_timeout d) \<in> set ws) \<and> (\<forall>d. \<not> waits dev d w)"
  unfolding requery_ok_def by blast

lemma requery_ok_cong: "waits dev' = waits dev \<Longrightarrow> requery_ok X ws dev' = requery_ok X ws dev"
  unfolding requery_ok_def by (erule ssubst) (rule refl)

lemma requery_ok_default:
  assumes "requery_ok X ws dev" "w \<notin> fst ` set ws"
  shows "requery_ok X (ws @ [(w, Default_timeout)]) dev"
  by (rule requery_okI) (insert assms, auto dest: requery_ok_distinct requery_ok_waiter requery_ok_waits requery_ok_running)

lemma requery_ok_remove_default:
  assumes "requery_ok X ws dev" "(w, Default_timeout) \<in> set ws"
  shows "requery_ok X (filter (\<lambda>x. fst x \<noteq> w) ws) dev"
proof (rule requery_okI)
  show "distinct (map fst (filter (\<lambda>x. fst x \<noteq> w) ws))"
    using requery_ok_distinct[OF assms(1)] by (simp add: distinct_map_filter)
  have other: "(w', Requery_timeout d) \<in> set ws \<Longrightarrow> w' \<noteq> w" for w' d
    using requery_ok_distinct[OF assms(1)] assms(2) by (auto dest: eq_key_imp_eq_value)
  fix w' d
  show "waits dev d w' \<Longrightarrow> Inl d \<notin> X \<Longrightarrow> (w', Requery_timeout d) \<in> set (filter (\<lambda>x. fst x \<noteq> w) ws)"
    using requery_ok_waits[OF assms(1), of d w'] other[of w' d] by simp
  show "Inr w' \<in> X \<Longrightarrow> (\<exists>d. (w', Requery_timeout d) \<in> set (filter (\<lambda>x. fst x \<noteq> w) ws)) \<and> (\<forall>d. \<not> waits dev d w')"
    using requery_ok_running[OF assms(1), of w'] other by auto
qed (use assms(1) requery_ok_waiter in auto)

lemma none_ok [simp]: "pending_ok None task" "default_ok None ds dev" "timer_ok None ws"
  by (simp_all add: clause_defs)

text \<open>Members that no clause reads.\<close>

lemma handler_ok_irrelevant [simp]:
  "handler_ok X (h\<lparr>h_out := x\<rparr>) = handler_ok X h"
  "handler_ok X (h\<lparr>h_sec_to_boot := s\<rparr>) = handler_ok X h"
  "handler_ok X (h\<lparr>h_last := l\<rparr>) = handler_ok X h"
  "handler_ok X (h\<lparr>h_autoboot_enabled := b\<rparr>) = handler_ok X h"
  "handler_ok X (h\<lparr>h_pending_is_default := b\<rparr>) = handler_ok X h"
  "handler_ok X (h\<lparr>h_temp_autoboot := t\<rparr>) = handler_ok X h"
  "handler_ok X (h\<lparr>h_default_priority := p\<rparr>) = handler_ok X h"
  "handler_ok X (h\<lparr>h_interfaces := i\<rparr>) = handler_ok X h"
  "handler_ok X (h\<lparr>h_plugins := pl\<rparr>) = handler_ok X h"
  "handler_ok X (h\<lparr>h_plugin_installing := b\<rparr>) = handler_ok X h"
  "handler_ok X (h\<lparr>h_crypt_devices := c\<rparr>) = handler_ok X h"
  by (simp_all add: handler_ok_def)

lemma handler_ok_drop [simp]:
  "handler_ok X h \<Longrightarrow> handler_ok X (h\<lparr>h_pending := None\<rparr>)"
  "handler_ok X h \<Longrightarrow> handler_ok X (h\<lparr>h_default := None\<rparr>)"
  "handler_ok X h \<Longrightarrow> handler_ok X (h\<lparr>h_timeout_waiter := None\<rparr>)"
  by (simp_all add: handler_ok_def)

lemma handler_ok_notify [simp]: "handler_ok X (notify n h) = handler_ok X h"
  by (simp add: notify_def)

lemma handler_ok_status [simp]: "handler_ok X (device_handler_status t m h) = handler_ok X h"
  by (simp add: device_handler_status_def)

lemma notify_sel [simp]:
  "h_dev (notify n h) = h_dev h" "h_opt (notify n h) = h_opt h" "h_devices (notify n h) = h_devices h"
  "h_unresolved (notify n h) = h_unresolved h" "h_default (notify n h) = h_default h"
  "h_next (notify n h) = h_next h" "h_waiters (notify n h) = h_waiters h"
  "h_pending (notify n h) = h_pending h" "h_task (notify n h) = h_task h" "h_rd (notify n h) = h_rd h"
  "h_timeout_waiter (notify n h) = h_timeout_waiter h" "h_sec_to_boot (notify n h) = h_sec_to_boot h"
  "h_ramdisks (notify n h) = h_ramdisks h" "h_autoboot_enabled (notify n h) = h_autoboot_enabled h"
  "h_interfaces (notify n h) = h_interfaces h"
  by (simp_all add: notify_def)

lemma put_dev_sel [simp]:
  "h_dev (put_dev d x h) = (h_dev h)(d := Some x)" "h_opt (put_dev d x h) = h_opt h"
  "h_devices (put_dev d x h) = h_devices h"
  "h_unresolved (put_dev d x h) = h_unresolved h" "h_default (put_dev d x h) = h_default h"
  "h_next (put_dev d x h) = h_next h" "h_waiters (put_dev d x h) = h_waiters h"
  "h_pending (put_dev d x h) = h_pending h" "h_task (put_dev d x h) = h_task h"
  "h_rd (put_dev d x h) = h_rd h" "h_timeout_waiter (put_dev d x h) = h_timeout_waiter h"
  "h_ramdisks (put_dev d x h) = h_ramdisks h" "h_autoboot_enabled (put_dev d x h) = h_autoboot_enabled h"
  "h_interfaces (put_dev d x h) = h_interfaces h"
  by (simp_all add: put_dev_def)

lemma put_opt_sel [simp]:
  "h_dev (put_opt d x h) = h_dev h" "h_opt (put_opt d x h) = (h_opt h)(d := Some x)"
  "h_devices (put_opt d x h) = h_devices h"
  "h_unresolved (put_opt d x h) = h_unresolved h" "h_default (put_opt d x h) = h_default h"
  "h_next (put_opt d x h) = h_next h" "h_waiters (put_opt d x h) = h_waiters h"
  "h_pending (put_opt d x h) = h_pending h" "h_task (put_opt d x h) = h_task h"
  "h_rd (put_opt d x h) = h_rd h" "h_timeout_waiter (put_opt d x h) = h_timeout_waiter h"
  "h_ramdisks (put_opt d x h) = h_ramdisks h" "h_autoboot_enabled (put_opt d x h) = h_autoboot_enabled h"
  "h_interfaces (put_opt d x h) = h_interfaces h" "h_temp_autoboot (put_opt d x h) = h_temp_autoboot h"
  by (simp_all add: put_opt_def)

text \<open>A change of an option or a device that keeps what the invariant reads.\<close>

lemma same_opt_ok:
  assumes "\<And>r. map_option dbo_device (opt' r) = map_option dbo_device (opt r)"
  shows "fresh_ok n dev opt' task rd ws = fresh_ok n dev opt task rd ws"
    and "options_ok ds dev opt' us = options_ok ds dev opt us"
    and "unresolved_ok us ds opt' = unresolved_ok us ds opt"
proof -
  have *: "(\<exists>y. opt' r = Some y \<and> Q (dbo_device y)) \<longleftrightarrow> (\<exists>y. opt r = Some y \<and> Q (dbo_device y))" for Q r
    using assms[of r] by (cases "opt' r"; cases "opt r") auto
  have "opt' r = None \<longleftrightarrow> opt r = None" for r using assms[of r] by (cases "opt' r"; cases "opt r") auto
  then show "fresh_ok n dev opt' task rd ws = fresh_ok n dev opt task rd ws"
    by (simp add: fresh_ok_def)
  show "options_ok ds dev opt' us = options_ok ds dev opt us"
    by (simp add: options_ok_def *[where Q = "\<lambda>x. x = d" for d])
  show "unresolved_ok us ds opt' = unresolved_ok us ds opt"
    by (simp add: unresolved_ok_def *[where Q = "\<lambda>x. x \<in> set ds"])
qed

lemma handler_ok_put_opt:
  assumes "handler_ok X h" "h_opt h r = Some opt" "dbo_device opt' = dbo_device opt"
  shows "handler_ok X (put_opt r opt' h)"
proof -
  have "map_option dbo_device (((h_opt h)(r := Some opt')) r') = map_option dbo_device (h_opt h r')" for r'
    using assms by simp
  from same_opt_ok[of "(h_opt h)(r := Some opt')" "h_opt h", OF this] show ?thesis using assms(1) by (simp add: handler_ok_def)
qed

lemma same_dev_ok:
  assumes "dev d = Some x" "dd_boot_options x' = dd_boot_options x"
    "dd_requery_waiter x' = dd_requery_waiter x" "dd_ramdisk x' = dd_ramdisk x"
  shows "fresh_ok n (dev(d := Some x')) opt task rd ws = fresh_ok n dev opt task rd ws"
    and "devices_ok ds (dev(d := Some x')) = devices_ok ds dev"
    and "options_ok ds (dev(d := Some x')) opt us = options_ok ds dev opt us"
    and "default_ok def ds (dev(d := Some x')) = default_ok def ds dev"
    and "requery_ok X ws (dev(d := Some x')) = requery_ok X ws dev"
    and "ramdisks_ok rds rd (dev(d := Some x')) = ramdisks_ok rds rd dev"
proof -
  have *: "(\<forall>d' y. (dev(d := Some x')) d' = Some y \<longrightarrow> P d' y) \<longleftrightarrow> (\<forall>d' y. dev d' = Some y \<longrightarrow> P d' y)"
    if "P d x' = P d x" for P using that assms(1) by auto
  have **: "(\<exists>y. (dev(d := Some x')) d' = Some y \<and> Q y) \<longleftrightarrow> (\<exists>y. dev d' = Some y \<and> Q y)"
    if "Q x' = Q x" for Q d' using that assms(1) by auto
  show "fresh_ok n (dev(d := Some x')) opt task rd ws = fresh_ok n dev opt task rd ws"
    using assms(1) by (auto simp: fresh_ok_def)
  show "devices_ok ds (dev(d := Some x')) = devices_ok ds dev"
    using assms(1) by (auto simp: devices_ok_def)
  show "options_ok ds (dev(d := Some x')) opt us = options_ok ds dev opt us"
    unfolding options_ok_def by (rule *) (simp add: assms)
  show "default_ok def ds (dev(d := Some x')) = default_ok def ds dev"
    unfolding default_ok_def by (subst **) (simp_all add: assms)
  show "requery_ok X ws (dev(d := Some x')) = requery_ok X ws dev"
  proof -
    have "waits (dev(d := Some x')) = waits dev" unfolding waits_def by (subst **) (simp_all add: assms)
    then show ?thesis by (rule requery_ok_cong)
  qed
  show "ramdisks_ok rds rd (dev(d := Some x')) = ramdisks_ok rds rd dev"
    unfolding ramdisks_ok_def owns_def by (subst **, simp add: assms)+ (rule refl)
qed

lemma handler_ok_put_dev:
  assumes "handler_ok X h" "h_dev h d = Some dev" "dd_boot_options dev' = dd_boot_options dev"
    "dd_requery_waiter dev' = dd_requery_waiter dev" "dd_ramdisk dev' = dd_ramdisk dev"
  shows "handler_ok X (put_dev d dev' h)"
  using assms(1) by (simp add: handler_ok_def same_dev_ok[of "h_dev h" d dev dev', OF assms(2-5)])


section \<open>The countdown\<close>

text \<open>Operations that leave the devices and the boot options in place.\<close>

definition same_objs :: "device_handler \<Rightarrow> device_handler \<Rightarrow> bool" where
  "same_objs h h' \<longleftrightarrow>
     h_dev h' = h_dev h \<and> h_devices h' = h_devices h \<and> h_unresolved h' = h_unresolved h \<and>
     h_rd h' = h_rd h \<and> h_ramdisks h' = h_ramdisks h \<and>
     (\<forall>r. map_option dbo_device (h_opt h' r) = map_option dbo_device (h_opt h r))"

abbreviation keeps :: "(nat + nat) set \<Rightarrow> device_handler \<Rightarrow> device_handler \<Rightarrow> bool" where
  "keeps X h h' \<equiv> handler_ok X h' \<and> same_objs h h'"

lemma same_objs_refl [simp]: "same_objs h h"
  by (simp add: same_objs_def)

lemma same_objs_trans: "same_objs a b \<Longrightarrow> same_objs b c \<Longrightarrow> same_objs a c"
  by (simp add: same_objs_def)

lemma same_objs_opt: "same_objs h h' \<Longrightarrow> h_opt h r = Some opt \<Longrightarrow> \<exists>opt'. h_opt h' r = Some opt' \<and> dbo_device opt' = dbo_device opt"
  unfolding same_objs_def by (metis map_option_eq_Some option.simps(9))

lemma same_objs_put_opt:
  "same_objs h h1 \<Longrightarrow> h_opt h1 r = Some opt \<Longrightarrow> dbo_device opt' = dbo_device opt \<Longrightarrow> same_objs h (put_opt r opt' h1)"
  by (auto simp: same_objs_def dest: spec[of _ r])

text \<open>The callback for the status of a boot can only drop the pending boot and the default.\<close>

lemma status_cb_one:
  "device_handler_boot_status_cb h st =
     h\<lparr>h_out := h_out h @ [Notify_status (fst st) (From_boot (snd st))],
       h_pending := (if fst st = STATUS_ERROR then None else h_pending h),
       h_default := (if fst st = STATUS_ERROR then None else h_default h)\<rparr>"
  by (simp add: device_handler_boot_status_cb_def device_handler_status_def notify_def)

lemma status_cb_eq:
  "foldl device_handler_boot_status_cb h out =
     h\<lparr>h_out := h_out h @ map (\<lambda>st. Notify_status (fst st) (From_boot (snd st))) out,
       h_pending := (if reports_error out then None else h_pending h),
       h_default := (if reports_error out then None else h_default h)\<rparr>"
  by (induction out arbitrary: h) (auto simp: status_cb_one reports_error_def)

lemma status_cb_keeps:
  assumes "handler_ok X h"
  shows "keeps X h (foldl device_handler_boot_status_cb h out)"
    and "reports_error out \<Longrightarrow> h_pending (foldl device_handler_boot_status_cb h out) = None"
    and "h_next (foldl device_handler_boot_status_cb h out) = h_next h"
  using assms by (simp_all add: status_cb_eq same_objs_def handler_ok_def)

text \<open>A task that \<^verbatim>\<open>boot\<close> returns was not cancelled.\<close>

lemma check_loads_mode: "check_loads rs task = Inr ((ok, task'), out) \<Longrightarrow> bt_cancelled task' = bt_cancelled task"
proof (induction rs arbitrary: task out)
  case (Cons a rs)
  from Cons.prems show ?case by (auto simp: bm_simps split: if_splits dest!: Cons.IH)
qed simp

lemma boot_hook_update_cancelled [simp]: "bt_cancelled (boot_hook_update task s) = bt_cancelled task"
proof -
  have "bt_cancelled (boot_hook_line t l) = bt_cancelled t" for t l
    by (auto simp: boot_hook_line_def boot_hook_update_param_def split: option.splits)
  then have "bt_cancelled (foldl boot_hook_line task ls) = bt_cancelled task" for ls
    by (induction ls arbitrary: task) simp_all
  then show ?thesis by (simp add: boot_hook_update_def)
qed

lemma run_hooks_mode: "run_hooks hs task = Inr (task', out) \<Longrightarrow> bt_cancelled task' = bt_cancelled task"
proof (induction hs arbitrary: task out)
  case (Cons x hs)
  from Cons.prems show ?case
    by (cases x) (auto simp: bm_simps Let_def dest!: Cons.IH)
qed simp

lemma run_boot_hooks_mode: "run_boot_hooks env task = Inr (task', out) \<Longrightarrow> bt_cancelled task' = bt_cancelled task"
  by (auto simp: run_boot_hooks_def bm_simps split: if_splits dest: run_hooks_mode)

lemma boot_loaded_mode: "boot_loaded env task = Inr (task', out) \<Longrightarrow> bt_cancelled task' = bt_cancelled task"
  by (auto simp: boot_loaded_def bm_simps split: if_splits dest!: check_loads_mode run_boot_hooks_mode)

lemma boot_process_live:
  "\<not> bt_cancelled task \<Longrightarrow> boot_process env cur task = Inr (t, out) \<Longrightarrow> \<exists>task'. t = Some task' \<and> \<not> bt_cancelled task'"
  by (auto simp: boot_process_def bm_simps split: if_splits dest: boot_loaded_mode)

lemma boot_start_live:
  assumes "boot_start env task img initrd dtb sig = Inr (Some t, out)" "\<not> bt_cancelled task"
  shows "\<not> bt_cancelled t"
proof -
  let ?t = "add_boot_resource ''dtb'' dtb Dtb (add_boot_resource ''initrd'' initrd Initrd
    (add_boot_resource ''kernel image'' img Image task))"
  from assms(1) obtain st1 st2 f t3 o1 o2 o3 o4 where
    1: "start_loads env [Image, Initrd, Dtb] ?t = Inr (st1, o1)" and
    2: "load_signatures env img initrd dtb st1 = Inr (st2, o2)" and
    3: "load_cmdline_signature env sig st2 = Inr ((f, t3), o3)" and
    4: "(if f then bret None else boot_process env None t3) = Inr (Some t, o4)"
    by (auto simp: boot_start_def bm_simps Let_def)
  have "same_mode task t3"
    using start_loads_mode[of env "[Image, Initrd, Dtb]" ?t "fst st1" "snd st1" o1] 1
      load_signatures_mode[OF 2] load_cmdline_signature_mode[OF 3] by (auto intro: same_mode_trans)
  then have "\<not> bt_cancelled t3" using assms(2) by (simp add: same_mode_def)
  then show ?thesis using boot_process_live[of t3 env None "Some t" o4] 4 by (auto split: if_splits)
qed

lemma boot_live: "boot env opt cmd dry_run = Inr (Some t, out) \<Longrightarrow> \<not> bt_cancelled t"
  by (auto simp: boot_def bm_simps Let_def boot_task_new_def split: if_splits dest!: boot_start_live)

lemma handler_ok_new_task:
  assumes "handler_ok X h" "\<not> bt_cancelled t"
  shows "handler_ok X (h\<lparr>h_task := (h_task h)(h_next h := Some t), h_next := Suc (h_next h),
                       h_pending := Some (h_next h), h_pending_is_default := b\<rparr>)"
  using assms by (auto simp: handler_ok_def fresh_ok_def pending_ok_def)

lemma start_boot_keeps:
  assumes "handler_ok X h" "case opt_ref of Some r \<Rightarrow> h_opt h r \<noteq> None | None \<Rightarrow> True"
  shows "safely (keeps X h) (start_boot env opt_ref cmd b h)"
proof -
  obtain opt where opt: "(case opt_ref of None \<Rightarrow> Inr None | Some r \<Rightarrow> map_sum id Some (get_opt h r)) = Inr opt"
    using assms(2) by (cases opt_ref) auto
  show ?thesis
  proof (cases "boot env opt cmd (h_dry_run h)")
    case (Inr p)
    obtain task out where p: "p = (task, out)" by (cases p)
    let ?h = "foldl device_handler_boot_status_cb h out"
    note st = status_cb_keeps[OF assms(1), of out]
    show ?thesis
    proof (cases task)
      case None
      then show ?thesis using st Inr p opt by (simp add: start_boot_def same_objs_def)
    next
      case (Some t)
      then have "\<not> bt_cancelled t" using boot_live Inr p by blast
      then show ?thesis using Some st Inr p opt handler_ok_new_task[of X ?h t b]
        by (simp add: start_boot_def same_objs_def Let_def)
    qed
  qed (simp add: start_boot_def opt)
qed

lemma handler_ok_task_gone:
  assumes "handler_ok X h" "h_task h t \<noteq> None" "h_pending h \<noteq> Some t"
  shows "handler_ok X (h\<lparr>h_task := (h_task h)(t := x)\<rparr>)"
  using assms by (auto simp: handler_ok_def fresh_ok_def pending_ok_def)

lemma cancel_boot_keeps:
  assumes "handler_ok X h" "h_pending h = Some t"
  shows "safely (\<lambda>h'. keeps X h h' \<and> h_pending h' = None \<and> h_default h' = None) (cancel_boot t h)"
proof -
  obtain task where task: "h_task h t = Some task"
    using assms by (auto simp: handler_ok_def pending_ok_def)
  obtain task' out where c: "boot_cancel task = Inr (task', out)" "reports_error out"
    by (simp add: boot_cancel_def bbind_def update_status_def bret_def)
  have "foldl device_handler_boot_status_cb (h\<lparr>h_task := x\<rparr>) out =
      (foldl device_handler_boot_status_cb h out)\<lparr>h_task := x\<rparr>" for x
    by (simp add: status_cb_eq)
  then show ?thesis
    using task c assms status_cb_keeps[OF assms(1), of out]
      handler_ok_task_gone[of X "foldl device_handler_boot_status_cb h out" t task']
    by (simp add: cancel_boot_def same_objs_def status_cb_eq handler_ok_def)
qed

lemma load_complete_keeps:
  assumes "handler_ok X h" "h_task h t = Some task"
  shows "safely (keeps X h) (load_complete env t i r h)"
proof (cases "length (bt_resources task) \<le> i")
  case True
  then show ?thesis using assms by (simp add: load_complete_def)
next
  case False
  let ?task = "task\<lparr>bt_resources := (bt_resources task)[i := (bt_resources task ! i)\<lparr>br_result := Some r\<rparr>]\<rparr>"
  show ?thesis
  proof (cases "boot_process env (Some i) ?task")
    case (Inl e)
    then show ?thesis using False assms by (simp add: load_complete_def)
  next
    case (Inr p)
    obtain task' out where p: "p = (task', out)" by (cases p)
    have "handler_ok X (h\<lparr>h_task := (h_task h)(t := task')\<rparr>)"
    proof (cases "h_pending h = Some t")
      case True
      then have "\<not> bt_cancelled ?task" using assms by (auto simp: handler_ok_def pending_ok_def)
      then obtain x where "task' = Some x" "\<not> bt_cancelled x"
        using boot_process_live[of ?task env "Some i"] Inr p by blast
      then show ?thesis using assms by (auto simp: handler_ok_def fresh_ok_def pending_ok_def)
    qed (use assms handler_ok_task_gone in auto)
    then show ?thesis
      using status_cb_keeps[of X "h\<lparr>h_task := (h_task h)(t := task')\<rparr>" out] False Inr p assms
      by (simp add: load_complete_def same_objs_def Let_def)
  qed
qed

section \<open>The default option\<close>

text \<open>What membership in a device's options and a live default give.\<close>

lemma option_live:
  assumes "handler_ok X h" "h_dev h d = Some dev" "r \<in> set (dd_boot_options dev)"
  obtains opt where "h_opt h r = Some opt" "dbo_device opt = d" "d \<in> set (h_devices h)" "r \<notin> set (h_unresolved h)"
proof -
  have "options_ok (h_devices h) (h_dev h) (h_opt h) (h_unresolved h)" using assms(1) by (simp add: handler_ok_def)
  then show ?thesis using assms(2,3) that unfolding options_ok_def by (metis empty_iff list.set(1))
qed

lemma default_live:
  assumes "handler_ok X h" "h_default h = Some r"
  obtains opt dev where "h_opt h r = Some opt" "dbo_device opt \<in> set (h_devices h)"
    "h_dev h (dbo_device opt) = Some dev" "r \<in> set (dd_boot_options dev)"
proof -
  obtain d dev where d: "d \<in> set (h_devices h)" "h_dev h d = Some dev" "r \<in> set (dd_boot_options dev)"
    using assms by (auto simp: handler_ok_def default_ok_def)
  then obtain opt where "h_opt h r = Some opt" "dbo_device opt = d"
    using option_live[OF assms(1) d(2,3)] by blast
  then show ?thesis using that d by blast
qed

lemma handler_ok_register:
  assumes "handler_ok X h"
  shows "handler_ok X (h\<lparr>h_waiters := h_waiters h @ [(h_next h, Default_timeout)], h_next := Suc (h_next h),
                       h_timeout_waiter := Some (h_next h)\<rparr>)"
proof -
  have "h_next h \<notin> fst ` set (h_waiters h)" using assms by (auto simp: handler_ok_def fresh_ok_def)
  then show ?thesis using assms by (auto simp: handler_ok_def fresh_ok_def timer_ok_def requery_ok_default)
qed

lemma handler_ok_countdown:
  assumes "handler_ok X h"
  shows "handler_ok X (h\<lparr>h_last := l, h_out := msgs, h_sec_to_boot := s,
            h_waiters := h_waiters h @ [(h_next h, Default_timeout)], h_next := Suc (h_next h),
            h_timeout_waiter := Some (h_next h)\<rparr>)"
  using handler_ok_register[OF assms] by (simp add: handler_ok_def)

lemma default_timeout_keeps:
  assumes "handler_ok X h"
  shows "safely (keeps X h) (default_timeout env h)"
proof (cases "h_default h")
  case None
  then show ?thesis using assms by (simp add: default_timeout_def)
next
  case (Some r)
  then obtain opt dev where "h_opt h r = Some opt" "h_dev h (dbo_device opt) = Some dev"
    using default_live[OF assms] by metis
  moreover have "safely (keeps X h) (start_boot env (Some r) None True (h\<lparr>h_last := Some r, h_timeout_waiter := None\<rparr>))"
    using calculation assms start_boot_keeps[of X "h\<lparr>h_last := Some r, h_timeout_waiter := None\<rparr>" "Some r" env None True]
    by (simp add: same_objs_def)
  ultimately show ?thesis using Some assms handler_ok_countdown[OF assms]
    by (simp add: default_timeout_def Let_def countdown_status_def device_handler_status_def notify_def
        waiter_register_timeout_def same_objs_def)
qed

lemma handler_ok_default:
  assumes "handler_ok X h" "h_dev h d = Some dev" "d \<in> set (h_devices h)" "r \<in> set (dd_boot_options dev)"
  shows "handler_ok X (h\<lparr>h_default := Some r\<rparr>)"
  using assms by (auto simp: handler_ok_def default_ok_def)

lemma set_default_keeps:
  assumes "handler_ok X h" "h_dev h d = Some dev" "r \<in> set (dd_boot_options dev)"
  shows "safely (keeps X h) (set_default env r h)"
proof -
  obtain opt where opt: "h_opt h r = Some opt" "dbo_device opt = d" and d: "d \<in> set (h_devices h)"
    using option_live[OF assms] by blast
  let ?o = "opt\<lparr>dbo_option := (dbo_option opt)\<lparr>opt_is_autoboot_default := True\<rparr>\<rparr>"
  let ?h = "put_opt r ?o h"
  have p: "handler_ok X ?h" "same_objs h ?h"
    using opt assms(1) handler_ok_put_opt[of X h r opt ?o] same_objs_put_opt[of h h r opt ?o] by simp_all
  show ?thesis
  proof (cases "default_option_priority (be_config env) h dev")
    case (Inl e)
    then have "e \<noteq> Use_after_free" using safely_default_option_priority[of "be_config env" h dev] by simp
    then show ?thesis using Inl opt assms(1,2) by (simp add: set_default_def)
  next
    case (Inr prio)
    let ?h' = "?h\<lparr>h_sec_to_boot := cfg_autoboot_timeout_sec (be_config env), h_default := Some r, h_default_priority := prio\<rparr>"
    have "handler_ok X ?h'" using handler_ok_default[of X ?h d dev r] p(1) assms(2,3) d by (simp add: handler_ok_def)
    then have "safely (keeps X ?h') (default_timeout env ?h')" by (rule default_timeout_keeps)
    then have "safely (keeps X h) (default_timeout env ?h')"
      by (rule safely_mono) (insert p(2), auto simp: same_objs_def)
    moreover have "handler_ok X (h\<lparr>h_default := Some r, h_default_priority := prio, h_sec_to_boot := s\<rparr>)" for s
      using handler_ok_default[of X h d dev r] assms d by (simp add: handler_ok_def)
    ultimately show ?thesis using Inr opt assms(1,2) by (simp add: set_default_def same_objs_def)
  qed
qed

lemma waiter_remove_default:
  assumes "handler_ok X h" "h_timeout_waiter h = Some w"
  shows "safely (\<lambda>h'. handler_ok X (h'\<lparr>h_timeout_waiter := None\<rparr>) \<and> same_objs h h' \<and>
           h_default h' = h_default h \<and> h_pending h' = h_pending h) (waiter_remove w h)"
proof -
  have w: "(w, Default_timeout) \<in> set (h_waiters h)" using assms by (auto simp: handler_ok_def timer_ok_def)
  have "requery_ok X (filter (\<lambda>x. fst x \<noteq> w) (h_waiters h)) (h_dev h)"
    using assms(1) w by (simp add: handler_ok_def requery_ok_remove_default)
  moreover have "w \<in> fst ` set (h_waiters h)" using w by force
  ultimately show ?thesis using assms(1)
    by (auto simp: waiter_remove_def handler_ok_def same_objs_def fresh_ok_def)
qed

lemma cancel_default_keeps:
  assumes "handler_ok X h"
  shows "safely (\<lambda>h'. keeps X h h' \<and> h_default h' = None) (device_handler_cancel_default h)"
proof -
  let ?Q = "\<lambda>h'. handler_ok X (h'\<lparr>h_timeout_waiter := None\<rparr>) \<and> same_objs h h'"
  have "safely ?Q (case h_timeout_waiter h of None \<Rightarrow> Inr h | Some w \<Rightarrow> waiter_remove w h)"
    using assms waiter_remove_default[OF assms] by (auto split: option.splits intro: safely_mono)
  then show ?thesis unfolding device_handler_cancel_default_def
  proof (rule safely_hbind)
    fix h1 assume q: "?Q h1"
    let ?h = "h1\<lparr>h_timeout_waiter := None, h_autoboot_enabled := False\<rparr>"
    have "handler_ok X ?h" using q by (simp add: handler_ok_def)
    moreover have "same_objs h ?h" using q by (simp add: same_objs_def)
    ultimately have h: "keeps X h ?h" ..
    have "safely (\<lambda>h'. keeps X h h')
       (case h_pending ?h of Some t \<Rightarrow> if h_pending_is_default ?h
            then hbind (cancel_boot t ?h) (\<lambda>h. Inr (h\<lparr>h_pending := None, h_pending_is_default := False\<rparr>))
            else Inr ?h | None \<Rightarrow> Inr ?h)" (is "safely _ ?m")
    proof (cases "h_pending ?h")
      case (Some t)
      then show ?thesis using h cancel_boot_keeps[of X ?h t]
        by (auto intro!: safely_hbind[OF cancel_boot_keeps[of X ?h t]] simp: same_objs_def)
    qed (use h in simp)
    then have "safely (\<lambda>h'. keeps X h h' \<and> h_default h' = None)
        (hbind ?m (\<lambda>h. Inr (device_handler_status STATUS_INFO Default_cancelled (h\<lparr>h_default := None\<rparr>))))"
      by (rule safely_hbind) (auto simp: device_handler_status_def same_objs_def)
    then show "safely (\<lambda>h'. keeps X h h' \<and> h_default h' = None)
        (let h = ?h in if h_default h = None then Inr h
           else hbind (case h_pending h of Some t \<Rightarrow> if h_pending_is_default h
                 then hbind (cancel_boot t h) (\<lambda>h. Inr (h\<lparr>h_pending := None, h_pending_is_default := False\<rparr>))
                 else Inr h | None \<Rightarrow> Inr h)
             (\<lambda>h. Inr (device_handler_status STATUS_INFO Default_cancelled (h\<lparr>h_default := None\<rparr>))))"
      using h by (simp only: Let_def) simp
  qed
qed

lemma first_default_safe:
  assumes "handler_ok X h" "h_dev h d = Some dev" "set rs \<subseteq> set (dd_boot_options dev)"
  shows "safely (\<lambda>r. \<forall>x. r = Some x \<longrightarrow> x \<in> set (dd_boot_options dev)) (first_default h rs)"
  using assms(3)
proof (induction rs)
  case (Cons r rs)
  then have "r \<in> set (dd_boot_options dev)" by simp
  then obtain opt where "h_opt h r = Some opt" using option_live[OF assms(1,2)] by blast
  then show ?case using Cons by simp
qed simp

lemma temp_autoboot_loop_keeps:
  assumes "handler_ok X h" "set ds \<subseteq> set (h_devices h)"
  shows "safely (keeps X h) (temp_autoboot_loop env opt ds h)"
  using assms
proof (induction ds arbitrary: h)
  case (Cons d ds)
  then obtain dev where dev: "h_dev h d = Some dev" by (auto simp: handler_ok_def devices_ok_def)
  let ?m = "\<lambda>m. if \<not> m then Inr h else hbind (first_default h (dd_boot_options dev))
     (\<lambda>r. case r of None \<Rightarrow> Inr h | Some r \<Rightarrow> set_default env r h)"
  have m: "safely (keeps X h) (?m m)" for m
  proof (cases m)
    case True
    have "safely (keeps X h) (hbind (first_default h (dd_boot_options dev))
       (\<lambda>r. case r of None \<Rightarrow> Inr h | Some r \<Rightarrow> set_default env r h))"
      by (rule safely_hbind[OF first_default_safe[OF Cons.prems(1) dev subset_refl]])
        (insert Cons.prems(1) set_default_keeps[OF Cons.prems(1) dev], auto split: option.splits)
    then show ?thesis using True by simp
  qed (use Cons.prems in simp)
  have "safely (keeps X h) (hbind (?m m) (temp_autoboot_loop env opt ds))" for m
    by (rule safely_hbind[OF m], rule safely_mono[OF Cons.IH])
      (insert Cons.prems(2), auto simp: same_objs_def)
  then show ?case using dev by (auto intro: safely_True_hbind[OF safely_autoboot_option_matches])
qed simp

lemma apply_temp_autoboot_keeps:
  assumes "handler_ok X h"
  shows "safely (keeps X h) (device_handler_apply_temp_autoboot env opt h)"
proof -
  let ?h = "device_handler_status STATUS_INFO (Temp_override opt) (h\<lparr>h_temp_autoboot := Some opt\<rparr>)"
  have h: "handler_ok X ?h" "same_objs h ?h" using assms
    by (simp_all add: device_handler_status_def same_objs_def)
  have loop: "safely (keeps X h) (hbind (device_handler_cancel_default ?h) (\<lambda>h.
      let h = h\<lparr>h_autoboot_enabled := True\<rparr> in temp_autoboot_loop env opt (h_devices h) h))"
  proof (rule safely_hbind[OF cancel_default_keeps[OF h(1)]])
    fix h1 assume q: "keeps X ?h h1 \<and> h_default h1 = None"
    let ?h1 = "h1\<lparr>h_autoboot_enabled := True\<rparr>"
    have "safely (keeps X ?h1) (temp_autoboot_loop env opt (h_devices ?h1) ?h1)"
      by (rule temp_autoboot_loop_keeps) (use q in simp_all)
    then show "safely (keeps X h) (let h = ?h1 in temp_autoboot_loop env opt (h_devices h) h)"
      unfolding Let_def
      by (rule safely_mono) (insert q h(2), auto simp: same_objs_def)
  qed
  show ?thesis
  proof (cases "h_default ?h")
    case None
    then show ?thesis using h by (simp add: device_handler_apply_temp_autoboot_def Let_def)
  next
    case (Some r)
    then obtain bo dev where "h_opt ?h r = Some bo" "h_dev ?h (dbo_device bo) = Some dev"
      using default_live[OF h(1)] by metis
    then show ?thesis using Some h loop
      by (auto simp: device_handler_apply_temp_autoboot_def Let_def
          intro: safely_True_hbind[OF safely_autoboot_option_matches])
  qed
qed

section \<open>Publishing options\<close>

lemma safely_pair_hbind: "safely (\<lambda>_. True) m \<Longrightarrow> (\<And>x y. safely P (k (x, y))) \<Longrightarrow> safely P (hbind m k)"
  by (cases m) auto

text \<open>What the handler needs of the parsers' callbacks: on a consistent handler they do not use freed memory.\<close>

locale resolver =
  fixes rs :: resolvers
  assumes resolve_safe: "rs name = Some f \<Longrightarrow> handler_ok X h \<Longrightarrow> safely (\<lambda>_. True) (f h res)"
begin

lemma resource_resolve_safe: "handler_ok X h \<Longrightarrow> safely (\<lambda>_. True) (resource_resolve rs h source res)"
  by (auto simp: resource_resolve_def split: option.splits intro!: safely_True_hbind resolve_safe)

lemma boot_option_resolve_safe:
  "handler_ok X h \<Longrightarrow> safely (\<lambda>p. dbo_device (snd p) = dbo_device opt) (boot_option_resolve rs h opt)"
  unfolding boot_option_resolve_def
  by (auto simp: Let_def intro!: safely_pair_hbind[OF resource_resolve_safe])

end

text \<open>\<open>floating h d r\<close>: option \<open>r\<close> is for the listed device \<open>d\<close>, but neither among the options of a
  device nor waiting to be resolved.\<close>

definition floating :: "device_handler \<Rightarrow> nat \<Rightarrow> nat \<Rightarrow> bool" where
  "floating h d r \<longleftrightarrow>
     d \<in> set (h_devices h) \<and> (\<exists>opt. h_opt h r = Some opt \<and> dbo_device opt = d) \<and>
     r \<notin> set (h_unresolved h) \<and> (\<forall>d' dev. h_dev h d' = Some dev \<longrightarrow> r \<notin> set (dd_boot_options dev))"

text \<open>\<open>grows h r h'\<close>: from \<open>h\<close> to \<open>h'\<close> at most option \<open>r\<close> was added to a device.\<close>

definition grows :: "device_handler \<Rightarrow> nat \<Rightarrow> device_handler \<Rightarrow> bool" where
  "grows h r h' \<longleftrightarrow>
     h_devices h' = h_devices h \<and> h_unresolved h' = h_unresolved h \<and>
     (\<forall>x. map_option dbo_device (h_opt h' x) = map_option dbo_device (h_opt h x)) \<and>
     (\<forall>d dev'. h_dev h' d = Some dev' \<longrightarrow>
        (\<exists>dev. h_dev h d = Some dev \<and> dd_uuid dev' = dd_uuid dev \<and> set (dd_boot_options dev') \<subseteq> insert r (set (dd_boot_options dev))))"

lemma grows_floating:
  assumes "grows h r h'" "floating h d r'" "r' \<noteq> r"
  shows "floating h' d r'"
proof -
  obtain opt where opt: "h_opt h r' = Some opt" "dbo_device opt = d" using assms(2) by (auto simp: floating_def)
  have "map_option dbo_device (h_opt h' r') = Some d" using assms(1) opt by (simp add: grows_def)
  then have "\<exists>opt. h_opt h' r' = Some opt \<and> dbo_device opt = d" by (cases "h_opt h' r'") simp_all
  moreover have "r' \<notin> set (dd_boot_options dev')" if "h_dev h' d' = Some dev'" for d' dev'
    using that assms unfolding grows_def floating_def by blast
  ultimately show ?thesis using assms by (simp add: grows_def floating_def)
qed

lemma same_objs_grows: "same_objs h h' \<Longrightarrow> grows h r h'"
  by (auto simp: same_objs_def grows_def)

lemma grows_trans: "grows h r h1 \<Longrightarrow> grows h1 r h2 \<Longrightarrow> grows h r h2"
proof -
  assume a: "grows h r h1" "grows h1 r h2"
  have "\<exists>dev. h_dev h d = Some dev \<and> dd_uuid dev'' = dd_uuid dev \<and> set (dd_boot_options dev'') \<subseteq> insert r (set (dd_boot_options dev))"
    if live: "h_dev h2 d = Some dev''" for d dev''
  proof -
    obtain dev' where "h_dev h1 d = Some dev'" "dd_uuid dev'' = dd_uuid dev'" "set (dd_boot_options dev'') \<subseteq> insert r (set (dd_boot_options dev'))"
      using a(2) live unfolding grows_def by blast
    moreover from this(1) obtain dev where "h_dev h d = Some dev" "dd_uuid dev' = dd_uuid dev" "set (dd_boot_options dev') \<subseteq> insert r (set (dd_boot_options dev))"
      using a(1) unfolding grows_def by blast
    ultimately show ?thesis by auto
  qed
  then show ?thesis using a by (simp add: grows_def)
qed

text \<open>The listed devices and the UUIDs stay.\<close>

definition same_uuids :: "device_handler \<Rightarrow> device_handler \<Rightarrow> bool" where
  "same_uuids h h' \<longleftrightarrow> h_devices h' = h_devices h \<and>
     (\<forall>d dev'. h_dev h' d = Some dev' \<longrightarrow> (\<exists>dev. h_dev h d = Some dev \<and> dd_uuid dev' = dd_uuid dev))"

lemma same_uuids_refl [simp]: "same_uuids h h"
  by (simp add: same_uuids_def)

lemma same_uuids_trans: "same_uuids a b \<Longrightarrow> same_uuids b c \<Longrightarrow> same_uuids a c"
  unfolding same_uuids_def by metis

lemma same_uuids_upd [simp]:
  "same_uuids h (put_opt r opt h') \<longleftrightarrow> same_uuids h h'" "same_uuids (put_opt r opt h) h' \<longleftrightarrow> same_uuids h h'"
  "same_uuids h (h'\<lparr>h_unresolved := us\<rparr>) \<longleftrightarrow> same_uuids h h'"
  by (simp_all add: same_uuids_def)

lemma grows_uuids: "grows (put_opt r' opt h) r h' \<Longrightarrow> same_uuids h h'"
  by (simp add: grows_def same_uuids_def) blast

text \<open>A published option is appended to the options of its device.\<close>

lemma handler_ok_append:
  assumes "handler_ok X h" "floating h d r" "h_dev h d = Some dev"
  shows "handler_ok X (put_dev d (dev\<lparr>dd_boot_options := dd_boot_options dev @ [r]\<rparr>) h)" (is "handler_ok X (put_dev d ?dev h)")
proof -
  have "options_ok (h_devices h) ((h_dev h)(d := Some ?dev)) (h_opt h) (h_unresolved h)"
    using assms unfolding options_ok_def floating_def handler_ok_def by auto
  moreover have "default_ok (h_default h) (h_devices h) ((h_dev h)(d := Some ?dev))"
  proof -
    have "\<exists>x'. ((h_dev h)(d := Some ?dev)) d' = Some x' \<and> r' \<in> set (dd_boot_options x')"
      if "h_dev h d' = Some x" "r' \<in> set (dd_boot_options x)" for d' x r' using that assms(3) by auto
    then show ?thesis using assms(1) unfolding handler_ok_def default_ok_def by metis
  qed
  moreover have "waits ((h_dev h)(d := Some ?dev)) = waits (h_dev h)"
    using assms(3) by (auto simp: waits_def fun_eq_iff)
  moreover have "owns ((h_dev h)(d := Some ?dev)) = owns (h_dev h)"
    using assms(3) by (auto simp: owns_def fun_eq_iff)
  ultimately show ?thesis using assms by (auto simp: handler_ok_def fresh_ok_def devices_ok_def ramdisks_ok_def
        requery_ok_cong[of "(h_dev h)(d := Some ?dev)" "h_dev h"])
qed

lemma final_option_safe: "safely (\<lambda>_. True) (final_option opt dev)"
proof -
  have "safely (\<lambda>_. True) (final_file res)" for res by (auto simp: final_file_def split: option.splits)
  then show ?thesis by (auto simp: final_option_def Let_def intro!: safely_True_hbind)
qed

lemma boot_option_finalise_keeps:
  assumes "handler_ok X h" "h_dev h d = Some dev" "r \<in> set (dd_boot_options dev)"
  shows "safely (keeps X h) (boot_option_finalise env r h)"
proof -
  obtain opt where opt: "h_opt h r = Some opt" "dbo_device opt = d" using option_live[OF assms] by blast
  show ?thesis
  proof (cases "final_option opt dev")
    case (Inl e)
    then show ?thesis using final_option_safe[of opt dev] opt assms(2) by (simp add: boot_option_finalise_def)
  next
    case (Inr bo)
    let ?h = "put_opt r (opt\<lparr>dbo_option := bo\<rparr>) h"
    have p: "handler_ok X ?h" "same_objs h ?h" using opt(1) assms(1)
      handler_ok_put_opt[of X h r opt "opt\<lparr>dbo_option := bo\<rparr>"] same_objs_put_opt[of h h r opt] by simp_all
    then have "safely (keeps X ?h) (set_default env r ?h)" using set_default_keeps[of X ?h d dev r] assms by simp
    then have "safely (keeps X h) (set_default env r ?h)"
      by (rule safely_mono) (insert p(2), auto intro: same_objs_trans)
    then show ?thesis using Inr opt assms(2) p by (simp add: boot_option_finalise_def Let_def)
  qed
qed

lemma notify_boot_option_grows:
  assumes "handler_ok X h" "h_opt h r = Some opt" "h_dev h (dbo_device opt) = Some dev"
  shows "safely (\<lambda>h'. handler_ok X h' \<and> grows h r h') (notify_boot_option r h)"
  using assms handler_ok_put_dev[of X h "dbo_device opt" dev "dev\<lparr>dd_notified := True\<rparr>"]
    handler_ok_put_dev[of X "notify (Notify_device_add (dd_device dev)) h" "dbo_device opt" dev "dev\<lparr>dd_notified := True\<rparr>"]
  by (auto simp: notify_boot_option_def Let_def grows_def)

lemma publish_option_safe:
  assumes "handler_ok X h" "floating h d r"
  shows "safely (\<lambda>h'. handler_ok X h' \<and> grows h r h') (publish_option env d r h)"
proof -
  obtain dev where dev: "h_dev h d = Some dev"
    using assms by (auto simp: floating_def handler_ok_def devices_ok_def)
  let ?dev = "dev\<lparr>dd_boot_options := dd_boot_options dev @ [r]\<rparr>"
  let ?h = "put_dev d ?dev h"
  have h: "handler_ok X ?h" "grows h r ?h"
    using handler_ok_append[OF assms dev] dev by (auto simp: grows_def)
  have "safely (keeps X ?h) (boot_option_finalise env r ?h)"
    by (rule boot_option_finalise_keeps[OF h(1), of d ?dev]) simp_all
  then have "safely (\<lambda>h'. handler_ok X h' \<and> grows h r h') (hbind (boot_option_finalise env r ?h) (notify_boot_option r))"
  proof (rule safely_hbind)
    fix h1 assume q: "keeps X ?h h1"
    have "h_dev h1 d = Some ?dev" using q by (simp add: same_objs_def)
    moreover from this obtain opt where "h_opt h1 r = Some opt" "dbo_device opt = d"
      using option_live[of X h1 d ?dev r] q by auto
    ultimately have "safely (\<lambda>h'. handler_ok X h' \<and> grows h1 r h') (notify_boot_option r h1)"
      using q notify_boot_option_grows[of X h1 r opt ?dev] by simp
    moreover have "grows h r h1" using h(2) q same_objs_grows grows_trans by blast
    ultimately show "safely (\<lambda>h'. handler_ok X h' \<and> grows h r h') (notify_boot_option r h1)"
      by (auto elim!: safely_mono intro: grows_trans)
  qed
  then show ?thesis using dev by (simp add: publish_option_def)
qed

lemma free_opt_sel [simp]:
  "h_opt (free_opt r h) = (h_opt h)(r := None)" "h_dev (free_opt r h) = h_dev h"
  "h_devices (free_opt r h) = h_devices h" "h_unresolved (free_opt r h) = h_unresolved h"
  "h_default (free_opt r h) = h_default h"
  by (simp_all add: free_opt_def)

lemma same_uuids_free_opt [simp]: "same_uuids h (free_opt r h') \<longleftrightarrow> same_uuids h h'"
  by (simp add: same_uuids_def)

lemma handler_ok_free_opt:
  assumes "handler_ok X h" "r \<notin> set (h_unresolved h)"
    "\<And>d dev. h_dev h d = Some dev \<Longrightarrow> r \<notin> set (dd_boot_options dev)"
  shows "handler_ok X (free_opt r h)"
  using assms unfolding handler_ok_def free_opt_def
  by (auto simp: fresh_ok_def options_ok_def unresolved_ok_def)

lemma floating_free_opt: "floating h d r' \<Longrightarrow> r' \<noteq> r \<Longrightarrow> floating (free_opt r h) d r'"
  by (auto simp: floating_def)

lemma floating_put_opt:
  "floating h d r' \<Longrightarrow> h_opt h r = Some opt \<Longrightarrow> dbo_device opt' = dbo_device opt \<Longrightarrow> floating (put_opt r opt' h) d r'"
  by (auto simp: floating_def)

lemma handler_ok_unresolved:
  assumes "handler_ok X h" "floating h d r"
  shows "handler_ok X (h\<lparr>h_unresolved := r # h_unresolved h\<rparr>)"
  using assms unfolding handler_ok_def floating_def
  by (auto simp: options_ok_def unresolved_ok_def)

text \<open>Taking a resolved option off the queue.\<close>

lemma handler_ok_dequeue:
  assumes "handler_ok X h" "r \<in> set (h_unresolved h)" "h_opt h r = Some opt"
  shows "handler_ok X (h\<lparr>h_unresolved := remove1 r (h_unresolved h)\<rparr>)"
    and "floating (h\<lparr>h_unresolved := remove1 r (h_unresolved h)\<rparr>) (dbo_device opt) r"
proof -
  have d: "distinct (h_unresolved h)" and l: "dbo_device opt \<in> set (h_devices h)"
    using assms by (auto simp: handler_ok_def unresolved_ok_def)
  show "handler_ok X (h\<lparr>h_unresolved := remove1 r (h_unresolved h)\<rparr>)"
    using assms(1) d by (auto simp: handler_ok_def options_ok_def unresolved_ok_def)
  have "r \<notin> set (dd_boot_options dev)" if "h_dev h d' = Some dev" for d' dev
    using option_live[OF assms(1) that, of r] assms(2) by blast
  then show "floating (h\<lparr>h_unresolved := remove1 r (h_unresolved h)\<rparr>) (dbo_device opt) r"
    using assms d l by (auto simp: floating_def)
qed

context resolver
begin

lemma queue_loop_safe:
  assumes "handler_ok X h" "set xs \<subseteq> set (h_unresolved h)" "distinct xs"
  shows "safely (handler_ok X) (queue_loop rs env xs h)"
  using assms
proof (induction xs arbitrary: h)
  case (Cons r xs)
  then obtain opt where opt: "h_opt h r = Some opt" by (auto simp: handler_ok_def unresolved_ok_def)
  have "safely (handler_ok X) (hbind (boot_option_resolve rs h opt) (\<lambda>(b, opt).
      let h = put_opt r opt h
      in hbind (if b then publish_option env (dbo_device opt) r (h\<lparr>h_unresolved := remove1 r (h_unresolved h)\<rparr>) else Inr h)
         (queue_loop rs env xs)))"
  proof (rule safely_hbind[OF boot_option_resolve_safe[OF Cons.prems(1)]], clarsimp)
    fix b :: bool and opt' :: discover_boot_option assume same: "dbo_device opt' = dbo_device opt"
    let ?h = "put_opt r opt' h"
    let ?h1 = "?h\<lparr>h_unresolved := remove1 r (h_unresolved h)\<rparr>"
    have h: "handler_ok X ?h" using handler_ok_put_opt[OF Cons.prems(1) opt same] .
    note dq = handler_ok_dequeue[OF h, of r opt']
    have sub: "set xs \<subseteq> set (remove1 r (h_unresolved h))"
      using Cons.prems(2,3) by (metis distinct.simps(2) in_set_remove1 list.set_intros(2) subset_iff)
    have "safely (\<lambda>h'. handler_ok X h' \<and> set xs \<subseteq> set (h_unresolved h')) (publish_option env (dbo_device opt') r ?h1)"
    proof (rule safely_mono[OF publish_option_safe])
      show "handler_ok X ?h1" "floating ?h1 (dbo_device opt') r" using dq Cons.prems(2) by simp_all
      fix h' assume "handler_ok X h' \<and> grows ?h1 r h'"
      then show "handler_ok X h' \<and> set xs \<subseteq> set (h_unresolved h')" using sub by (simp add: grows_def)
    qed
    then show "safely (handler_ok X) (let h = ?h in
        hbind (if b then publish_option env (dbo_device opt') r (h\<lparr>h_unresolved := remove1 r (h_unresolved h)\<rparr>) else Inr h)
          (queue_loop rs env xs))"
      using h Cons.prems Cons.IH by (auto simp: Let_def intro!: safely_hbind)
  qed
  then show ?case using opt by simp
qed simp

lemma process_boot_option_queue_safe: "handler_ok X h \<Longrightarrow> safely (handler_ok X) (process_boot_option_queue rs env h)"
  unfolding process_boot_option_queue_def
  by (rule queue_loop_safe) (auto simp: handler_ok_def unresolved_ok_def)

lemma commit_loop_keeps:
  assumes "handler_ok X h" "distinct xs" "\<And>r. r \<in> set xs \<Longrightarrow> floating h d r"
  shows "safely (\<lambda>h'. handler_ok X h' \<and> same_uuids h h') (commit_loop rs env d xs h)"
  using assms
proof (induction xs arbitrary: h)
  case (Cons r xs)
  then have fl: "floating h d r" by simp
  then obtain opt where opt: "h_opt h r = Some opt" "dbo_device opt = d" by (auto simp: floating_def)
  let ?Q = "\<lambda>h'. handler_ok X h' \<and> same_uuids h h' \<and> (\<forall>r' \<in> set xs. floating h' d r')"
  have "safely ?Q (if \<not> has_image opt then Inr (free_opt r h)
      else hbind (boot_option_resolve rs h opt) (\<lambda>(b, opt).
          let h = put_opt r opt h
          in if b then publish_option env d r h
             else if rs (dbo_source opt) = None then Inr (free_opt r h)
             else Inr (h\<lparr>h_unresolved := r # h_unresolved h\<rparr>)))"
  proof (cases "has_image opt")
    case False
    then show ?thesis using handler_ok_free_opt[OF Cons.prems(1), of r] fl Cons.prems(2,3)
      by (auto simp: floating_def)
  next
    case True
    have "safely ?Q (hbind (boot_option_resolve rs h opt) (\<lambda>(b, opt).
          let h = put_opt r opt h
          in if b then publish_option env d r h
             else if rs (dbo_source opt) = None then Inr (free_opt r h)
             else Inr (h\<lparr>h_unresolved := r # h_unresolved h\<rparr>)))"
    proof (rule safely_hbind[OF boot_option_resolve_safe[OF Cons.prems(1)]], clarsimp)
      fix b :: bool and opt' :: discover_boot_option assume same: "dbo_device opt' = dbo_device opt"
      let ?h = "put_opt r opt' h"
      have h: "handler_ok X ?h" using handler_ok_put_opt[OF Cons.prems(1) opt(1) same] .
      have fl': "floating ?h d r'" if "r' \<in> set (r # xs)" for r'
        using floating_put_opt[OF Cons.prems(3)[OF that] opt(1) same] .
      have "safely ?Q (publish_option env d r ?h)"
        by (rule safely_mono[OF publish_option_safe[OF h]])
          (insert fl' Cons.prems(2), auto intro: grows_floating grows_uuids)
      moreover have "handler_ok X (free_opt r ?h)"
        by (rule handler_ok_free_opt[OF h]) (insert fl'[of r], auto simp: floating_def)
      then have "?Q (free_opt r ?h)" using fl' Cons.prems(2) by (auto intro!: floating_free_opt)
      moreover have "?Q (?h\<lparr>h_unresolved := r # h_unresolved ?h\<rparr>)"
        using handler_ok_unresolved[OF h fl'] fl' Cons.prems(2) by (auto simp: floating_def)
      ultimately show "safely ?Q (let h = ?h in if b then publish_option env d r h
             else if rs (dbo_source opt') = None then Inr (free_opt r h)
             else Inr (h\<lparr>h_unresolved := r # h_unresolved h\<rparr>))"
        by (simp add: Let_def)
    qed
    then show ?thesis using True by simp
  qed
  then have "safely (\<lambda>h'. handler_ok X h' \<and> same_uuids h h') (hbind (if \<not> has_image opt then Inr (free_opt r h)
      else hbind (boot_option_resolve rs h opt) (\<lambda>(b, opt).
          let h = put_opt r opt h
          in if b then publish_option env d r h
             else if rs (dbo_source opt) = None then Inr (free_opt r h)
             else Inr (h\<lparr>h_unresolved := r # h_unresolved h\<rparr>))) (commit_loop rs env d xs))"
  proof (rule safely_hbind)
    fix h1 assume q: "?Q h1"
    have "safely (\<lambda>h'. handler_ok X h' \<and> same_uuids h1 h') (commit_loop rs env d xs h1)"
      using Cons.IH[of h1] Cons.prems(2) q by simp
    then show "safely (\<lambda>h'. handler_ok X h' \<and> same_uuids h h') (commit_loop rs env d xs h1)"
      by (rule safely_mono) (use q in \<open>blast intro: same_uuids_trans\<close>)
  qed
  then show ?case using opt by simp
qed simp

end

section \<open>Lookups and new devices\<close>

lemma lookup_loop_safe:
  assumes "handler_ok X h" "set ds \<subseteq> set (h_devices h)"
  shows "safely (\<lambda>r. case r of
      Some d \<Rightarrow> d \<in> set ds \<and> (\<exists>dev. h_dev h d = Some dev \<and> match dev str)
    | None \<Rightarrow> \<forall>d \<in> set ds. \<forall>dev. h_dev h d = Some dev \<longrightarrow> \<not> match dev str) (lookup_loop h match str ds)"
  using assms(2)
proof (induction ds)
  case (Cons d ds)
  then obtain dev where dev: "h_dev h d = Some dev" using assms(1) by (auto simp: handler_ok_def devices_ok_def)
  show ?case
  proof (cases "match dev str")
    case False
    from Cons show ?thesis using dev False by (auto elim!: safely_mono split: option.splits)
  qed (use dev in simp)
qed simp

lemma device_lookup_safe:
  assumes "handler_ok X h"
  shows "safely (\<lambda>r. case r of
      Some d \<Rightarrow> d \<in> set (h_devices h) \<and> (\<exists>dev s. h_dev h d = Some dev \<and> str = Some s \<and> match dev s)
    | None \<Rightarrow> \<forall>d \<in> set (h_devices h). \<forall>dev s. h_dev h d = Some dev \<longrightarrow> str = Some s \<longrightarrow> \<not> match dev s)
     (device_lookup h match str)"
proof (cases str)
  case (Some s)
  have "safely (\<lambda>r. case r of
      Some d \<Rightarrow> d \<in> set (h_devices h) \<and> (\<exists>dev s. h_dev h d = Some dev \<and> str = Some s \<and> match dev s)
    | None \<Rightarrow> \<forall>d \<in> set (h_devices h). \<forall>dev s. h_dev h d = Some dev \<longrightarrow> str = Some s \<longrightarrow> \<not> match dev s)
     (lookup_loop h match s (h_devices h))"
    by (rule safely_mono[OF lookup_loop_safe[OF assms subset_refl]]) (auto simp: Some split: option.splits)
  then show ?thesis using Some by (simp add: device_lookup_def)
qed (simp add: device_lookup_def)

lemma find_interface_safe: "safely (\<lambda>r. \<forall>i. r = Some i \<longrightarrow> i < length (h_interfaces h)) (find_interface key str h)"
  by (cases str) (auto simp: find_interface_def find_Some_iff)

text \<open>A listed device that has a UUID.\<close>

definition tagged :: "device_handler \<Rightarrow> nat \<Rightarrow> bool" where
  "tagged h d \<longleftrightarrow> d \<in> set (h_devices h) \<and> (\<exists>dev. h_dev h d = Some dev \<and> dd_uuid dev \<noteq> None)"

lemma tagged_uuids: "tagged h d \<Longrightarrow> same_uuids h h' \<Longrightarrow> handler_ok X h' \<Longrightarrow> tagged h' d"
  unfolding tagged_def same_uuids_def handler_ok_def devices_ok_def by fastforce

lemma network_register_device_safe:
  assumes "handler_ok X h" "h_dev h d = Some dev"
  shows "safely (\<lambda>h'. handler_ok X h' \<and> (\<forall>d' r. floating h d' r \<longrightarrow> floating h' d' r) \<and> (tagged h d \<longrightarrow> tagged h' d)) (network_register_device d h)"
proof -
  have f: "safely (\<lambda>_. True) (if dd_uuid dev \<noteq> None then find_interface_by_uuid (dd_uuid dev) h
      else find_interface_by_name (dd_label dev) h)"
    by (auto simp: find_interface_by_uuid_def find_interface_by_name_def intro: safely_mono[OF find_interface_safe])
  have "handler_ok X (put_dev d (dev\<lparr>dd_uuid := u\<rparr>) (h\<lparr>h_interfaces := is\<rparr>))" for u "is"
    using handler_ok_put_dev[of X "h\<lparr>h_interfaces := is\<rparr>" d dev "dev\<lparr>dd_uuid := u\<rparr>"] assms by simp
  then have "safely (\<lambda>h'. handler_ok X h' \<and> (\<forall>d' r. floating h d' r \<longrightarrow> floating h' d' r) \<and> (tagged h d \<longrightarrow> tagged h' d))
    (case found of None \<Rightarrow> Inr h
     | Some i \<Rightarrow> let iface = h_interfaces h ! i
         in Inr (put_dev d (dev\<lparr>dd_uuid := Some (mac_bytes_to_string (iface_hwaddr iface))\<rparr>)
                    (h\<lparr>h_interfaces := (h_interfaces h)[i := iface\<lparr>iface_dev := Some d\<rparr>]\<rparr>)))" for found
    using assms by (cases found) (auto simp: Let_def floating_def tagged_def)
  then show ?thesis using assms(2) f by (auto simp: network_register_device_def intro: safely_True_hbind)
qed

text \<open>A device is added once; its options become floating.\<close>

definition loose :: "device_handler \<Rightarrow> nat \<Rightarrow> nat \<Rightarrow> bool" where
  "loose h d r \<longleftrightarrow>
     (\<exists>opt. h_opt h r = Some opt \<and> dbo_device opt = d) \<and>
     r \<notin> set (h_unresolved h) \<and> (\<forall>d' dev. h_dev h d' = Some dev \<longrightarrow> r \<notin> set (dd_boot_options dev))"

lemma floating_loose: "floating h d r \<longleftrightarrow> d \<in> set (h_devices h) \<and> loose h d r"
  by (auto simp: floating_def loose_def)

lemma add_device_safe:
  assumes "handler_ok X h" "h_dev h d = Some dev" "d \<notin> set (h_devices h)"
  shows "safely (\<lambda>h'. handler_ok X h' \<and> (\<forall>r. loose h d r \<longrightarrow> floating h' d r) \<and> (dd_uuid dev \<noteq> None \<longrightarrow> tagged h' d)) (device_handler_add_device d h)"
proof -
  let ?h = "h\<lparr>h_devices := h_devices h @ [d]\<rparr>"
  have h: "handler_ok X ?h" using assms
    by (auto simp: handler_ok_def devices_ok_def options_ok_def unresolved_ok_def default_ok_def)
  have fl: "floating ?h d r" if "loose h d r" for r using that by (auto simp: loose_def floating_def)
  have t: "dd_uuid dev \<noteq> None \<longrightarrow> tagged ?h d" using assms(2) by (simp add: tagged_def)
  have "safely (\<lambda>h'. handler_ok X h' \<and> (\<forall>r. loose h d r \<longrightarrow> floating h' d r) \<and> (dd_uuid dev \<noteq> None \<longrightarrow> tagged h' d)) (network_register_device d ?h)"
    by (rule safely_mono[OF network_register_device_safe[OF h, of d dev]]) (insert assms(2) fl t, auto)
  then show ?thesis using assms(2) h fl t by (simp add: device_handler_add_device_def Let_def)
qed

text \<open>The contexts that may be committed: the options are for the context's device and new to the handler,
  and the device can be told from the others by its UUID.\<close>

definition context_ok :: "device_handler \<Rightarrow> discover_context \<Rightarrow> bool" where
  "context_ok h ctx \<longleftrightarrow>
     (\<exists>dev. h_dev h (ctx_device ctx) = Some dev \<and>
        (if ctx_device ctx \<in> set (h_devices h) then dd_uuid dev \<noteq> None
         else \<forall>d \<in> set (h_devices h). \<forall>x. h_dev h d = Some x \<longrightarrow> dd_uuid x = dd_uuid dev \<longrightarrow> dd_uuid dev = None)) \<and>
     distinct (ctx_boot_options ctx) \<and> (\<forall>r \<in> set (ctx_boot_options ctx). loose h (ctx_device ctx) r)"

context resolver
begin

lemma commit_keeps:
  assumes "handler_ok X h" "context_ok h ctx" "h_dev h (ctx_device ctx) = Some dev"
  shows "safely (\<lambda>h'. handler_ok X h' \<and> (dd_uuid dev \<noteq> None \<longrightarrow> tagged h' (ctx_device ctx))) (device_handler_discover_context_commit rs env ctx h)"
proof -
  let ?d = "ctx_device ctx"
  note dev = assms(3)
  have u: "if ?d \<in> set (h_devices h) then dd_uuid dev \<noteq> None
         else \<forall>d \<in> set (h_devices h). \<forall>x. h_dev h d = Some x \<longrightarrow> dd_uuid x = dd_uuid dev \<longrightarrow> dd_uuid dev = None"
    and opts: "distinct (ctx_boot_options ctx)" "\<And>r. r \<in> set (ctx_boot_options ctx) \<Longrightarrow> loose h ?d r"
    using assms(2) dev by (auto simp: context_ok_def)
  let ?P = "\<lambda>h'. handler_ok X h' \<and> (dd_uuid dev \<noteq> None \<longrightarrow> tagged h' ?d)"
  have "safely ?P (hbind (device_lookup_by_uuid h (dd_uuid dev)) (\<lambda>found.
     hbind (if found = None then device_handler_add_device ?d h else Inr h)
       (commit_loop rs env ?d (ctx_boot_options ctx))))"
    unfolding device_lookup_by_uuid_def
  proof (rule safely_hbind[OF device_lookup_safe[OF assms(1)]])
    fix found assume f: "case found of
        Some d \<Rightarrow> d \<in> set (h_devices h) \<and>
          (\<exists>x s. h_dev h d = Some x \<and> dd_uuid dev = Some s \<and> device_match_uuid x s)
      | None \<Rightarrow> \<forall>d \<in> set (h_devices h). \<forall>x s. h_dev h d = Some x \<longrightarrow> dd_uuid dev = Some s \<longrightarrow> \<not> device_match_uuid x s"
    have listed: "?d \<in> set (h_devices h)" if "found \<noteq> None"
      using that f u by (auto simp: device_match_uuid_def split: if_splits)
    have new: "?d \<notin> set (h_devices h)" if "found = None"
      using that f u dev by (auto simp: device_match_uuid_def split: if_splits)
    have "safely (\<lambda>h'. ?P h' \<and> (\<forall>r \<in> set (ctx_boot_options ctx). floating h' ?d r))
        (if found = None then device_handler_add_device ?d h else Inr h)"
    proof (cases "found = None")
      case True
      have "safely (\<lambda>h'. ?P h' \<and> (\<forall>r \<in> set (ctx_boot_options ctx). floating h' ?d r)) (device_handler_add_device ?d h)"
        by (rule safely_mono[OF add_device_safe[OF assms(1) dev new[OF True]]]) (simp add: opts(2))
      then show ?thesis using True by simp
    next
      case False
      then show ?thesis using listed assms(1) opts(2) dev by (auto simp: floating_loose tagged_def)
    qed
    then show "safely ?P (hbind (if found = None then device_handler_add_device ?d h else Inr h)
        (commit_loop rs env ?d (ctx_boot_options ctx)))"
    proof (rule safely_hbind)
      fix h1 assume q: "?P h1 \<and> (\<forall>r \<in> set (ctx_boot_options ctx). floating h1 ?d r)"
      have "safely (\<lambda>h'. handler_ok X h' \<and> same_uuids h1 h') (commit_loop rs env ?d (ctx_boot_options ctx) h1)"
        by (rule commit_loop_keeps) (use q opts(1) in auto)
      then show "safely ?P (commit_loop rs env ?d (ctx_boot_options ctx) h1)"
        by (rule safely_mono) (use q in \<open>blast intro: tagged_uuids\<close>)
    qed
  qed
  then show ?thesis using dev by (simp add: device_handler_discover_context_commit_def)
qed

lemma commit_safe:
  assumes "handler_ok X h" "context_ok h ctx"
  shows "safely (handler_ok X) (device_handler_discover_context_commit rs env ctx h)"
proof -
  obtain dev where dev: "h_dev h (ctx_device ctx) = Some dev" using assms(2) by (auto simp: context_ok_def)
  show ?thesis by (rule safely_mono[OF commit_keeps[OF assms dev]]) simp
qed

end

section \<open>Removing devices\<close>

lemma has_default_safe:
  assumes "handler_ok X h" "h_dev h d = Some dev" "set rs \<subseteq> set (dd_boot_options dev)"
  shows "safely (\<lambda>b. b \<longleftrightarrow> (\<exists>r \<in> set rs. h_default h = Some r)) (has_default h rs)"
  using assms(3)
proof (induction rs)
  case (Cons r rs)
  then have "r \<in> set (dd_boot_options dev)" by simp
  then obtain opt where "h_opt h r = Some opt" using option_live[OF assms(1,2)] by blast
  then show ?case using Cons by (auto elim!: safely_mono)
qed simp

text \<open>Clearing the queue of a device's options leaves the devices alone.\<close>

definition same_devs :: "device_handler \<Rightarrow> device_handler \<Rightarrow> bool" where
  "same_devs h h' \<longleftrightarrow>
     h_dev h' = h_dev h \<and> h_devices h' = h_devices h \<and> h_default h' = h_default h \<and>
     h_waiters h' = h_waiters h \<and> h_rd h' = h_rd h \<and> h_interfaces h' = h_interfaces h \<and>
     h_autoboot_enabled h' = h_autoboot_enabled h"

lemma same_devs_trans: "same_devs a b \<Longrightarrow> same_devs b c \<Longrightarrow> same_devs a c"
  by (simp add: same_devs_def)

lemma handler_ok_drop_unresolved:
  assumes "handler_ok X h" "r \<in> set (h_unresolved h)"
  shows "handler_ok X (free_opt r (h\<lparr>h_unresolved := remove1 r (h_unresolved h)\<rparr>))"
proof -
  obtain opt where "h_opt h r = Some opt" using assms by (auto simp: handler_ok_def unresolved_ok_def)
  note dq = handler_ok_dequeue[OF assms this]
  show ?thesis by (rule handler_ok_free_opt[OF dq(1)]) (insert dq(2), auto simp: floating_def)
qed

definition owner :: "device_handler \<Rightarrow> nat \<Rightarrow> nat \<Rightarrow> bool" where
  "owner h d r \<longleftrightarrow> (\<exists>opt. h_opt h r = Some opt \<and> dbo_device opt = d)"

definition cleared :: "(nat + nat) set \<Rightarrow> nat \<Rightarrow> nat list \<Rightarrow> device_handler \<Rightarrow> device_handler \<Rightarrow> bool" where
  "cleared X d xs h h' \<longleftrightarrow>
     handler_ok X h' \<and> same_devs h h' \<and> set (h_unresolved h') \<subseteq> set (h_unresolved h) \<and>
     (\<forall>r \<in> set xs \<inter> set (h_unresolved h'). \<not> owner h d r) \<and>
     (\<forall>r opt. h_opt h' r = Some opt \<longrightarrow> h_opt h r = Some opt)"

lemma cleared_Cons:
  assumes "cleared X d xs h1 h'" "same_devs h h1" "set (h_unresolved h1) \<subseteq> set (h_unresolved h)"
    "r \<in> set (h_unresolved h1) \<Longrightarrow> \<not> owner h d r" "r \<notin> set xs"
    "\<And>r'. r' \<noteq> r \<Longrightarrow> h_opt h1 r' = h_opt h r'" "\<And>x. h_opt h1 r = Some x \<Longrightarrow> h_opt h r = Some x"
  shows "cleared X d (r # xs) h h'"
proof -
  have "\<not> owner h d r'" if "\<not> owner h1 d r'" "r' \<in> set xs" for r'
    using that assms(5) assms(6)[of r'] by (cases "r' = r") (simp_all add: owner_def)
  moreover have "h_opt h r' = Some x" if "h_opt h1 r' = Some x" for r' x
    using that assms(6)[of r'] assms(7) by (cases "r' = r") auto
  ultimately show ?thesis using assms(1-4) unfolding cleared_def
    by (auto dest: same_devs_trans)
qed

lemma free_unresolved_loop:
  assumes "handler_ok X h" "set xs \<subseteq> set (h_unresolved h)" "distinct xs"
  shows "safely (cleared X d xs h) (free_unresolved d xs h)"
  using assms
proof (induction xs arbitrary: h)
  case Nil
  then show ?case by (simp add: same_devs_def cleared_def)
next
  case (Cons r xs)
  then obtain opt where opt: "h_opt h r = Some opt" by (auto simp: handler_ok_def unresolved_ok_def)
  let ?h = "if dbo_device opt \<noteq> d then h else free_opt r (h\<lparr>h_unresolved := remove1 r (h_unresolved h)\<rparr>)"
  have du: "distinct (h_unresolved h)" using Cons.prems(1) by (simp add: handler_ok_def unresolved_ok_def)
  have h: "handler_ok X ?h" "same_devs h ?h" "set xs \<subseteq> set (h_unresolved ?h)"
    "set (h_unresolved ?h) \<subseteq> set (h_unresolved h)" "r \<in> set (h_unresolved ?h) \<Longrightarrow> \<not> owner h d r"
    using Cons.prems handler_ok_drop_unresolved[of X h r] du opt
    by (auto simp: same_devs_def free_opt_def owner_def)
  have "safely (cleared X d xs ?h) (free_unresolved d xs ?h)"
    by (rule Cons.IH) (use h Cons.prems in simp_all)
  then have "safely (cleared X d (r # xs) h) (free_unresolved d xs ?h)"
    by (rule safely_mono, intro cleared_Cons[of X d xs ?h])
      (insert h Cons.prems(3), auto split: if_splits)
  then show ?case using opt by simp
qed

lemma free_unresolved_safe:
  assumes "handler_ok X h"
  shows "safely (\<lambda>h'. handler_ok X h' \<and> same_devs h h' \<and> (\<forall>r \<in> set (h_unresolved h'). \<not> owner h' d r))
    (free_unresolved d (h_unresolved h) h)"
proof (rule safely_mono[OF free_unresolved_loop[OF assms subset_refl]])
  show "distinct (h_unresolved h)" using assms by (simp add: handler_ok_def unresolved_ok_def)
  fix h' assume "cleared X d (h_unresolved h) h h'"
  then show "handler_ok X h' \<and> same_devs h h' \<and> (\<forall>r \<in> set (h_unresolved h'). \<not> owner h' d r)"
    unfolding cleared_def owner_def by blast
qed

text \<open>The waiter of a device that is about to be freed is removed first.\<close>

definition without_waiter :: "discover_device \<Rightarrow> (nat \<times> waiter_cb) list \<Rightarrow> (nat \<times> waiter_cb) list" where
  "without_waiter dev ws = (case dd_requery_waiter dev of None \<Rightarrow> ws | Some w \<Rightarrow> filter (\<lambda>x. fst x \<noteq> w) ws)"

lemma drop_waiter_eq:
  assumes "requery_ok {} (h_waiters h) (h_dev h)" "h_dev h d = Some dev"
  shows "(case dd_requery_waiter dev of None \<Rightarrow> Inr h | Some w \<Rightarrow> waiter_remove w h) =
    Inr (h\<lparr>h_waiters := without_waiter dev (h_waiters h)\<rparr>)"
proof (cases "dd_requery_waiter dev")
  case (Some w)
  then have "(w, Requery_timeout d) \<in> set (h_waiters h)"
    using requery_ok_waits[OF assms(1), of d w] assms(2) by (simp add: waits_def)
  then have "w \<in> fst ` set (h_waiters h)" by force
  then show ?thesis using Some by (simp add: waiter_remove_def without_waiter_def)
qed (simp add: without_waiter_def)

lemma without_waiter_ok:
  assumes "requery_ok {} ws heap" "heap d = Some dev"
  shows "requery_ok {Inl d} (without_waiter dev ws) heap"
    and "timer_ok t ws \<Longrightarrow> timer_ok t (without_waiter dev ws)"
    and "set (without_waiter dev ws) \<subseteq> set ws"
proof -
  have un: "waits heap d w \<longleftrightarrow> dd_requery_waiter dev = Some w" for w using assms(2) by (auto simp: waits_def)
  have *: "cb = Requery_timeout d" if "dd_requery_waiter dev = Some w" "(w, cb) \<in> set ws" for w cb
    using requery_ok_waits[OF assms(1), of d w] requery_ok_distinct[OF assms(1)] un that
    by (auto dest: eq_key_imp_eq_value)
  have in_wo: "(w, cb) \<in> set (without_waiter dev ws) \<longleftrightarrow> (w, cb) \<in> set ws \<and> dd_requery_waiter dev \<noteq> Some w" for w cb
    by (auto simp: without_waiter_def split: option.splits)
  show "requery_ok {Inl d} (without_waiter dev ws) heap"
  proof (rule requery_okI)
    show "distinct (map fst (without_waiter dev ws))"
      using requery_ok_distinct[OF assms(1)] by (simp add: without_waiter_def distinct_map_filter split: option.split)
    fix w' d'
    show "waits heap d' w' \<and> Inl d' \<notin> {Inl d}" if "(w', Requery_timeout d') \<in> set (without_waiter dev ws)"
      using that requery_ok_waiter[OF assms(1), of w' d'] un by (auto simp: in_wo)
    show "(w', Requery_timeout d') \<in> set (without_waiter dev ws)" if "waits heap d' w'" "Inl d' \<notin> {Inl d}"
      using that requery_ok_waits[OF assms(1), of d' w'] *[of w' "Requery_timeout d'"] by (auto simp: in_wo)
  qed simp
  show "timer_ok t ws \<Longrightarrow> timer_ok t (without_waiter dev ws)"
    using * by (auto simp: timer_ok_def in_wo)
  show "set (without_waiter dev ws) \<subseteq> set ws" by (auto simp: without_waiter_def split: option.splits)
qed

text \<open>What freeing a device leaves.\<close>

definition released :: "discover_device \<Rightarrow> (nat \<Rightarrow> ramdisk_device option) \<Rightarrow> nat \<Rightarrow> ramdisk_device option" where
  "released dev rds =
     (case dd_ramdisk dev of
        None \<Rightarrow> rds
      | Some r \<Rightarrow> rds(r := map_option (\<lambda>rd. rd\<lparr>rd_snapshot := None, rd_origin := None, rd_base := None, rd_sectors := 0\<rparr>) (rds r)))"

definition freed :: "nat \<Rightarrow> discover_device \<Rightarrow> device_handler \<Rightarrow> device_handler" where
  "freed d dev h =
     h\<lparr>h_dev := (h_dev h)(d := None),
       h_opt := (\<lambda>r. if r \<in> set (dd_boot_options dev) then None else h_opt h r),
       h_rd := released dev (h_rd h)\<rparr>"

lemma destroy_device_eq:
  assumes "h_dev h d = Some dev" "\<And>r. dd_ramdisk dev = Some r \<Longrightarrow> h_rd h r \<noteq> None"
  shows "destroy_device d h = Inr (freed d dev h)"
  using assms
  by (cases "dd_ramdisk dev")
    (auto simp: destroy_device_def devmapper_destroy_snapshot_def device_handler_release_ramdisk_def
      freed_def released_def put_dev_def put_rd_def get_dev_def cong: if_cong)

lemma owns_gone: "owns (dev(d := None)) d' r \<longleftrightarrow> d' \<noteq> d \<and> owns dev d' r"
  by (simp add: owns_def)

lemma waits_gone: "waits (dev(d := None)) d' w \<longleftrightarrow> d' \<noteq> d \<and> waits dev d' w"
  by (simp add: waits_def)

lemma ramdisks_ok_freed:
  assumes "ramdisks_ok rds rd dev" "dev d = Some x"
  shows "ramdisks_ok rds (released x rd) (dev(d := None))"
proof -
  have "released x rd r \<noteq> None \<longleftrightarrow> rd r \<noteq> None" for r by (auto simp: released_def split: option.splits)
  moreover have "released x rd r = rd r" if "owns dev d' r" "d' \<noteq> d" for d' r
    using that assms unfolding ramdisks_ok_def released_def owns_def by (auto split: option.splits)
  ultimately show ?thesis using assms(1) unfolding ramdisks_ok_def owns_gone by metis
qed

lemma requery_ok_freed:
  assumes "requery_ok {Inl d} ws dev"
  shows "requery_ok {} ws (dev(d := None))"
  by (rule requery_okI)
    (insert requery_ok_distinct[OF assms] requery_ok_waiter[OF assms] requery_ok_waits[OF assms], auto simp: waits_gone)

lemma handler_ok_freed:
  assumes "handler_ok {Inl d} (h\<lparr>h_devices := ds\<rparr>)" "h_dev h d = Some dev"
    "\<And>r. h_default h = Some r \<Longrightarrow> r \<notin> set (dd_boot_options dev)"
    "\<And>r. r \<in> set (h_unresolved h) \<Longrightarrow> \<not> owner h d r"
  shows "handler_ok {} ((freed d dev h)\<lparr>h_devices := remove1 d ds\<rparr>)"
proof -
  note ok = assms(1)[unfolded handler_ok_def, simplified]
  have dist: "distinct ds" using ok by (simp add: devices_ok_def)
  have opts: "options_ok ds (h_dev h) (h_opt h) (h_unresolved h)" using ok by blast
  have live: "\<exists>opt. h_opt h r = Some opt \<and> dbo_device opt = d'" "r \<notin> set (h_unresolved h)" "d' \<in> set ds"
    if "h_dev h d' = Some x" "r \<in> set (dd_boot_options x)" for d' x r
    using opts that unfolding options_ok_def by (blast, blast, fastforce)
  let ?opt = "\<lambda>r. if r \<in> set (dd_boot_options dev) then None else h_opt h r"
  have keep: "r \<notin> set (dd_boot_options dev)" if "h_dev h d' = Some x" "r \<in> set (dd_boot_options x)" "d' \<noteq> d" for d' x r
    using live(1)[OF that(1,2)] live(1)[OF assms(2), of r] that(3) by auto
  have "options_ok (remove1 d ds) ((h_dev h)(d := None)) ?opt (h_unresolved h)"
    unfolding options_ok_def
  proof (intro allI impI conjI ballI)
    fix d' x assume "((h_dev h)(d := None)) d' = Some x"
    then have x: "h_dev h d' = Some x" "d' \<noteq> d" by (simp_all split: if_splits)
    show "distinct (dd_boot_options x)" using opts x unfolding options_ok_def by blast
    show "dd_boot_options x \<noteq> [] \<Longrightarrow> d' \<in> set (remove1 d ds)"
      using live(3)[OF x(1), of "hd (dd_boot_options x)"] x(2) by simp
    fix r assume r: "r \<in> set (dd_boot_options x)"
    show "r \<notin> set (h_unresolved h)" using live(2)[OF x(1) r] .
    show "\<exists>y. ?opt r = Some y \<and> dbo_device y = d'" using live(1)[OF x(1) r] keep[OF x(1) r x(2)] by simp
  qed
  moreover have "unresolved_ok (h_unresolved h) (remove1 d ds) ?opt"
    unfolding unresolved_ok_def
  proof (intro conjI ballI)
    show "distinct (h_unresolved h)" using ok by (simp add: unresolved_ok_def)
    fix r assume r: "r \<in> set (h_unresolved h)"
    then obtain y where y: "h_opt h r = Some y" "dbo_device y \<in> set ds" using ok by (auto simp: unresolved_ok_def)
    moreover have "dbo_device y \<noteq> d" using assms(4)[OF r] y(1) by (auto simp: owner_def)
    moreover have "r \<notin> set (dd_boot_options dev)" using live(2)[OF assms(2)] r by blast
    ultimately show "\<exists>y. ?opt r = Some y \<and> dbo_device y \<in> set (remove1 d ds)" by simp
  qed
  moreover have "default_ok (h_default h) (remove1 d ds) ((h_dev h)(d := None))"
    unfolding default_ok_def
  proof (intro allI impI)
    fix r assume r: "h_default h = Some r"
    then obtain d' x where x: "d' \<in> set ds" "h_dev h d' = Some x" "r \<in> set (dd_boot_options x)"
      using ok unfolding default_ok_def by blast
    then have "d' \<noteq> d" using assms(2) assms(3)[OF r] by auto
    then show "\<exists>d'\<in>set (remove1 d ds). \<exists>x. ((h_dev h)(d := None)) d' = Some x \<and> r \<in> set (dd_boot_options x)"
      using x by (intro bexI[of _ d']) simp_all
  qed
  moreover have "devices_ok (remove1 d ds) ((h_dev h)(d := None))"
    using ok dist by (auto simp: devices_ok_def)
  moreover have "fresh_ok (h_next h) ((h_dev h)(d := None)) ?opt (h_task h) (released dev (h_rd h)) (h_waiters h)"
    using ok by (auto simp: fresh_ok_def released_def split: option.splits)
  ultimately show ?thesis
    using ok requery_ok_freed[of d "h_waiters h" "h_dev h"] ramdisks_ok_freed[of "h_ramdisks h" "h_rd h" "h_dev h" d dev] assms(2)
    by (simp add: handler_ok_def freed_def)
qed

lemma handler_ok_rd:
  "handler_ok X h \<Longrightarrow> h_dev h d = Some dev \<Longrightarrow> dd_ramdisk dev = Some r \<Longrightarrow> h_rd h r \<noteq> None"
  unfolding handler_ok_def ramdisks_ok_def owns_def by fastforce

lemma unregister_safe:
  assumes "h_dev h d = Some dev"
  shows "safely (\<lambda>h'. \<exists>is. h' = h\<lparr>h_interfaces := is\<rparr>) (network_unregister_device d h)"
proof -
  have eq: "\<exists>is. h = h\<lparr>h_interfaces := is\<rparr>" by (rule exI[of _ "h_interfaces h"]) simp
  show ?thesis unfolding network_unregister_device_def find_interface_by_uuid_def
    using assms eq
    by (auto intro!: safely_hbind[OF find_interface_safe] split: option.splits)
qed

lemma hbind_assoc: "hbind (hbind m f) g = hbind m (\<lambda>x. hbind (f x) g)"
  by (cases m) simp_all

abbreviation removed :: "nat \<Rightarrow> device_handler \<Rightarrow> bool" where
  "removed d h \<equiv> handler_ok {} h \<and> d \<notin> set (h_devices h) \<and> h_dev h d = None"

lemma destroy_unlisted_safe:
  assumes "handler_ok {Inl d} h" "h_dev h d = Some dev"
    "\<And>r. h_default h = Some r \<Longrightarrow> r \<notin> set (dd_boot_options dev)"
    "\<And>r. r \<in> set (h_unresolved h) \<Longrightarrow> \<not> owner h d r"
  shows "safely (removed d) (destroy_device d (h\<lparr>h_devices := remove1 d (h_devices h)\<rparr>))"
proof -
  let ?h = "h\<lparr>h_devices := remove1 d (h_devices h)\<rparr>"
  have "destroy_device d ?h = Inr (freed d dev ?h)"
    by (rule destroy_device_eq) (insert assms(2) handler_ok_rd[OF assms(1,2)], auto)
  moreover have "(freed d dev ?h)\<lparr>h_devices := remove1 d (h_devices h)\<rparr> = freed d dev ?h"
    by (simp add: freed_def)
  then have "handler_ok {} (freed d dev ?h)"
    using handler_ok_freed[of d "h_devices h" ?h dev] assms by (simp add: owner_def)
  moreover have "d \<notin> set (remove1 d (h_devices h))"
    using assms(1) by (simp add: handler_ok_def devices_ok_def)
  ultimately show ?thesis by (simp add: freed_def)
qed

lemma remove_listed_safe:
  assumes "handler_ok {Inl d} h" "h_dev h d = Some dev"
    "\<And>r. h_default h = Some r \<Longrightarrow> r \<notin> set (dd_boot_options dev)"
  shows "safely (removed d)
    (hbind (free_unresolved d (h_unresolved h) h) (\<lambda>h.
       hbind (if net then network_unregister_device d h else Inr h) (\<lambda>h.
       let h = h\<lparr>h_devices := remove1 d (h_devices h)\<rparr>; h = (if b then notify n h else h)
       in destroy_device d h)))"
proof (rule safely_hbind[OF free_unresolved_safe[OF assms(1), of d]])
  fix h1 assume q: "handler_ok {Inl d} h1 \<and> same_devs h h1 \<and> (\<forall>r\<in>set (h_unresolved h1). \<not> owner h1 d r)"
  have d1: "h_dev h1 d = Some dev" and def: "h_default h1 = h_default h"
    using q assms(2) by (simp_all add: same_devs_def)
  have "\<exists>is. h1 = h1\<lparr>h_interfaces := is\<rparr>" by (rule exI[of _ "h_interfaces h1"]) simp
  then have "safely (\<lambda>h'. \<exists>is. h' = h1\<lparr>h_interfaces := is\<rparr>) (if net then network_unregister_device d h1 else Inr h1)"
    using unregister_safe[OF d1] by simp
  then show "safely (removed d) (hbind (if net then network_unregister_device d h1 else Inr h1) (\<lambda>h.
       let h = h\<lparr>h_devices := remove1 d (h_devices h)\<rparr>; h = (if b then notify n h else h)
       in destroy_device d h))"
  proof (rule safely_hbind)
    fix h2 assume "\<exists>is. h2 = h1\<lparr>h_interfaces := is\<rparr>"
    then obtain "is" where h2: "h2 = h1\<lparr>h_interfaces := is\<rparr>" ..
    let ?h = "if b then notify n h2 else h2"
    have "safely (removed d) (destroy_device d (?h\<lparr>h_devices := remove1 d (h_devices ?h)\<rparr>))"
    proof (rule destroy_unlisted_safe[of d ?h dev])
      have sel: "h_default ?h = h_default h" "h_unresolved ?h = h_unresolved h1" "h_opt ?h = h_opt h1"
        using def by (simp_all add: h2)
      show "handler_ok {Inl d} ?h" "h_dev ?h d = Some dev" using q d1 by (simp_all add: h2)
      show "\<And>r. h_default ?h = Some r \<Longrightarrow> r \<notin> set (dd_boot_options dev)" using assms(3) sel by simp
      show "\<And>r. r \<in> set (h_unresolved ?h) \<Longrightarrow> \<not> owner ?h d r" using q sel by (simp add: owner_def)
    qed
    moreover have "?h\<lparr>h_devices := remove1 d (h_devices ?h)\<rparr> =
        (let h = h2\<lparr>h_devices := remove1 d (h_devices h2)\<rparr> in if b then notify n h else h)"
      by (simp add: notify_def)
    ultimately show "safely (removed d)
       (let h = h2\<lparr>h_devices := remove1 d (h_devices h2)\<rparr>; h = (if b then notify n h else h)
        in destroy_device d h)"
      by (simp add: Let_def)
  qed
qed

lemma device_handler_remove_safe:
  assumes "handler_ok {} h" "h_dev h d = Some dev"
  shows "safely (removed d) (device_handler_remove d h)"
proof -
  let ?h1 = "h\<lparr>h_waiters := without_waiter dev (h_waiters h)\<rparr>"
  let ?Q = "\<lambda>h'. handler_ok {Inl d} h' \<and> h_dev h' = h_dev h \<and> h_devices h' = h_devices h \<and>
     (\<forall>r. h_default h' = Some r \<longrightarrow> r \<notin> set (dd_boot_options dev))"
  have rq: "requery_ok {} (h_waiters h) (h_dev h)" using assms(1) by (simp add: handler_ok_def)
  have h1: "handler_ok {Inl d} ?h1"
    using assms(1) without_waiter_ok[OF rq assms(2)] by (auto simp: handler_ok_def fresh_ok_def)
  have "safely ?Q (hbind (has_default ?h1 (dd_boot_options dev)) (\<lambda>isdef.
      if isdef then device_handler_cancel_default ?h1 else Inr ?h1))"
  proof (rule safely_hbind[OF has_default_safe[OF h1, of d dev]])
    fix isdef assume i: "isdef = (\<exists>r\<in>set (dd_boot_options dev). h_default ?h1 = Some r)"
    have "safely ?Q (device_handler_cancel_default ?h1)"
      by (rule safely_mono[OF cancel_default_keeps[OF h1]]) (simp add: same_objs_def)
    then show "safely ?Q (if isdef then device_handler_cancel_default ?h1 else Inr ?h1)"
      using i h1 by auto
  qed (use assms(2) in simp_all)
  then have "safely (removed d) (hbind (hbind (has_default ?h1 (dd_boot_options dev)) (\<lambda>isdef.
      if isdef then device_handler_cancel_default ?h1 else Inr ?h1))
      (\<lambda>h. if d \<notin> set (h_devices h) then destroy_device d h
     else
       hbind (free_unresolved d (h_unresolved h) h) (\<lambda>h.
       hbind (if dev_type (dd_device dev) = DEVICE_TYPE_NETWORK then network_unregister_device d h else Inr h) (\<lambda>h.
       let h = h\<lparr>h_devices := remove1 d (h_devices h)\<rparr>;
           h = (if dd_notified dev then notify (Notify_device_remove (dd_device dev)) h else h)
       in destroy_device d h))))"
  proof (rule safely_hbind)
    fix h2 assume q: "?Q h2"
    have d2: "h_dev h2 d = Some dev" using q assms(2) by simp
    have self: "h2\<lparr>h_devices := remove1 d (h_devices h2)\<rparr> = h2" if "d \<notin> set (h_devices h2)"
      using that by (simp add: remove1_idem)
    have "\<not> owner h2 d r" if "d \<notin> set (h_devices h2)" "r \<in> set (h_unresolved h2)" for r
      using q that unfolding handler_ok_def unresolved_ok_def owner_def by auto
    then have "safely (removed d) (destroy_device d h2)" if "d \<notin> set (h_devices h2)"
      using destroy_unlisted_safe[of d h2 dev, unfolded self[OF that]] that q d2 by blast
    then show "safely (removed d) (if d \<notin> set (h_devices h2) then destroy_device d h2
     else
       hbind (free_unresolved d (h_unresolved h2) h2) (\<lambda>h.
       hbind (if dev_type (dd_device dev) = DEVICE_TYPE_NETWORK then network_unregister_device d h else Inr h) (\<lambda>h.
       let h = h\<lparr>h_devices := remove1 d (h_devices h)\<rparr>;
           h = (if dd_notified dev then notify (Notify_device_remove (dd_device dev)) h else h)
       in destroy_device d h)))"
      using remove_listed_safe[of d h2 dev] q d2 by (simp split: if_split)
  qed
  then show ?thesis using assms(2)
    by (simp add: device_handler_remove_def drop_waiter_eq[OF rq assms(2)] hbind_assoc)
qed

section \<open>Reset\<close>

text \<open>The state in the loop that drops the devices, with \<open>ds\<close> still to go; the array of ramdisks is freed
  afterwards.\<close>

abbreviation dropping :: "nat list \<Rightarrow> device_handler \<Rightarrow> bool" where
  "dropping ds h \<equiv> handler_ok {} (h\<lparr>h_devices := ds, h_ramdisks := []\<rparr>) \<and> h_default h = None \<and> h_unresolved h = []"

lemma dropping_waiter:
  assumes "dropping (d # ds) h" "h_dev h d = Some dev"
  shows "handler_ok {Inl d} (h\<lparr>h_devices := d # ds, h_ramdisks := [], h_waiters := without_waiter dev (h_waiters h)\<rparr>)"
  using assms without_waiter_ok[of "h_waiters h" "h_dev h" d dev] by (auto simp: handler_ok_def fresh_ok_def)

lemma dropping_freed:
  assumes "dropping (d # ds) h" "h_dev h d = Some dev"
  shows "dropping ds (freed d dev (h\<lparr>h_waiters := without_waiter dev (h_waiters h)\<rparr>))" (is "dropping ds ?h")
proof -
  let ?h1 = "h\<lparr>h_ramdisks := [], h_waiters := without_waiter dev (h_waiters h)\<rparr>"
  have "handler_ok {} ((freed d dev ?h1)\<lparr>h_devices := remove1 d (d # ds)\<rparr>)"
    by (rule handler_ok_freed) (insert assms dropping_waiter[OF assms], auto simp: handler_ok_def)
  then show ?thesis using assms by (auto simp: freed_def handler_ok_def cong: if_cong)
qed

text \<open>The device was the only owner of its ramdisk.\<close>

lemma dropping_ramdisk:
  assumes "dropping ds h" "\<And>d. \<not> owns (h_dev h) d r"
  shows "dropping ds (h\<lparr>h_rd := (h_rd h)(r := None)\<rparr>)"
  using assms unfolding handler_ok_def by (auto simp: ramdisks_ok_def fresh_ok_def)

lemma drop_devices_safe: "dropping ds h \<Longrightarrow> safely (dropping []) (drop_devices ds h)"
proof (induction ds arbitrary: h)
  case (Cons d ds)
  obtain dev where dev: "h_dev h d = Some dev"
    using Cons.prems by (auto simp: handler_ok_def devices_ok_def)
  let ?h = "notify (Notify_device_remove (dd_device dev)) h"
  let ?h1 = "?h\<lparr>h_waiters := without_waiter dev (h_waiters h)\<rparr>"
  let ?h2 = "freed d dev ?h1"
  have prem: "dropping (d # ds) ?h" using Cons.prems by (auto simp: handler_ok_def)
  have rq: "requery_ok {} (h_waiters ?h) (h_dev ?h)" using prem by (simp add: handler_ok_def)
  have rd: "h_rd h r \<noteq> None" and un: "owns (h_dev h) d' r \<Longrightarrow> d' = d" if "dd_ramdisk dev = Some r" for r d'
  proof -
    have "owns (h_dev h) d r" using that dev by (simp add: owns_def)
    moreover have "ramdisks_ok [] (h_rd h) (h_dev h)" using Cons.prems by (simp add: handler_ok_def)
    ultimately show "h_rd h r \<noteq> None" "owns (h_dev h) d' r \<Longrightarrow> d' = d" unfolding ramdisks_ok_def by fastforce+
  qed
  have dd: "destroy_device d ?h1 = Inr ?h2" by (rule destroy_device_eq) (use dev rd in auto)
  have h2: "dropping ds ?h2" using dropping_freed[OF prem, of dev] dev by simp
  let ?m = "case dd_ramdisk dev of None \<Rightarrow> Inr ?h2
      | Some r \<Rightarrow> hbind (get_rd ?h2 r) (\<lambda>_. Inr (?h2\<lparr>h_rd := (h_rd ?h2)(r := None)\<rparr>))"
  have "safely (dropping ds) ?m"
  proof (cases "dd_ramdisk dev")
    case (Some r)
    have "\<not> owns (h_dev ?h2) d' r" for d' using un[OF Some, of d'] by (auto simp: freed_def owns_gone)
    moreover have "h_rd ?h2 r \<noteq> None" using rd[OF Some] Some by (auto simp: freed_def released_def)
    ultimately show ?thesis using Some dropping_ramdisk[OF h2, of r] by (auto simp: get_rd_def)
  qed (use h2 in simp)
  then have "safely (dropping []) (hbind ?m (drop_devices ds))" by (rule safely_hbind) (rule Cons.IH)
  then show ?case using dev dd drop_waiter_eq[OF rq, of d dev] by (simp add: Let_def)
qed simp

lemma free_opts_eq:
  assumes "\<And>r. r \<in> set rs \<Longrightarrow> h_opt h r \<noteq> None" "distinct rs"
  shows "free_opts rs h = Inr (h\<lparr>h_opt := (\<lambda>r. if r \<in> set rs then None else h_opt h r)\<rparr>)"
  using assms
proof (induction rs arbitrary: h)
  case (Cons r rs)
  have "free_opts rs (free_opt r h) =
      Inr ((free_opt r h)\<lparr>h_opt := (\<lambda>x. if x \<in> set rs then None else h_opt (free_opt r h) x)\<rparr>)"
    by (rule Cons.IH) (use Cons.prems in auto)
  moreover have "(free_opt r h)\<lparr>h_opt := (\<lambda>x. if x \<in> set rs then None else h_opt (free_opt r h) x)\<rparr> =
      h\<lparr>h_opt := (\<lambda>x. if x \<in> set (r # rs) then None else h_opt h x)\<rparr>"
    by (simp add: free_opt_def fun_eq_iff)
  ultimately show ?case using Cons.prems(1)[of r] by (auto simp: get_opt_def)
qed simp

lemma handler_ok_no_queue:
  assumes "handler_ok X h"
  shows "handler_ok X (h\<lparr>h_opt := (\<lambda>r. if r \<in> set (h_unresolved h) then None else h_opt h r), h_unresolved := []\<rparr>)"
proof -
  let ?opt = "\<lambda>r. if r \<in> set (h_unresolved h) then None else h_opt h r"
  have "options_ok (h_devices h) (h_dev h) ?opt []"
    using assms unfolding handler_ok_def options_ok_def by simp
  moreover have "fresh_ok (h_next h) (h_dev h) ?opt (h_task h) (h_rd h) (h_waiters h)"
    using assms by (simp add: handler_ok_def fresh_ok_def)
  ultimately show ?thesis using assms by (simp add: handler_ok_def unresolved_ok_def)
qed

text \<open>The part of the reset after the default and the pending boot were cancelled.\<close>

lemma reinit_drop_safe:
  assumes "handler_ok {} h" "h_default h = None"
  shows "safely (\<lambda>(ps, h'). handler_ok {} h' \<and> h_devices h' = [] \<and> h_default h' = None)
    (hbind (free_opts (h_unresolved h) h) (\<lambda>h.
     let h = h\<lparr>h_unresolved := []\<rparr>
     in hbind (drop_devices (h_devices h) h) (\<lambda>h.
        let h = h\<lparr>h_devices := [], h_ramdisks := [], h_plugins := []\<rparr>;
            h = notify Notify_plugins_remove h;
            h = h\<lparr>h_crypt_devices := []\<rparr>;
            (ps, h) = leave_safe_mode ps h
        in Inr (ps, h\<lparr>h_interfaces := ifaces\<rparr>))))"
proof -
  let ?h = "h\<lparr>h_opt := (\<lambda>r. if r \<in> set (h_unresolved h) then None else h_opt h r), h_unresolved := []\<rparr>"
  have "free_opts (h_unresolved h) h = Inr (h\<lparr>h_opt := (\<lambda>r. if r \<in> set (h_unresolved h) then None else h_opt h r)\<rparr>)"
    by (rule free_opts_eq) (use assms(1) in \<open>auto simp: handler_ok_def unresolved_ok_def\<close>)
  moreover have "dropping (h_devices ?h) ?h"
    using handler_ok_no_queue[OF assms(1)] assms(2) by (simp add: handler_ok_def ramdisks_ok_def)
  then have "safely (\<lambda>(ps, h'). handler_ok {} h' \<and> h_devices h' = [] \<and> h_default h' = None)
      (hbind (drop_devices (h_devices ?h) ?h) (\<lambda>h.
        let h = h\<lparr>h_devices := [], h_ramdisks := [], h_plugins := []\<rparr>;
            h = notify Notify_plugins_remove h;
            h = h\<lparr>h_crypt_devices := []\<rparr>;
            (ps, h) = leave_safe_mode ps h
        in Inr (ps, h\<lparr>h_interfaces := ifaces\<rparr>)))"
  proof (rule safely_hbind[OF drop_devices_safe])
    fix h1 assume "dropping [] h1"
    then show "safely (\<lambda>(ps, h'). handler_ok {} h' \<and> h_devices h' = [] \<and> h_default h' = None)
       (let h = h1\<lparr>h_devices := [], h_ramdisks := [], h_plugins := []\<rparr>;
            h = notify Notify_plugins_remove h;
            h = h\<lparr>h_crypt_devices := []\<rparr>;
            (ps, h) = leave_safe_mode ps h
        in Inr (ps, h\<lparr>h_interfaces := ifaces\<rparr>))"
      by (auto simp: Let_def leave_safe_mode_def notify_def handler_ok_def)
  qed
  ultimately show ?thesis by (simp add: Let_def)
qed

lemma device_handler_reinit_safe:
  assumes "handler_ok {} h"
  shows "safely (\<lambda>(ps, h'). handler_ok {} h' \<and> h_devices h' = [] \<and> h_default h' = None)
    (device_handler_reinit ifaces ps h)"
  unfolding device_handler_reinit_def
proof (rule safely_hbind[OF cancel_default_keeps[OF assms]], rule safely_hbind)
  fix h1 assume q: "keeps {} h h1 \<and> h_default h1 = None"
  show "safely (\<lambda>h'. handler_ok {} h' \<and> h_default h' = None)
     (case h_pending h1 of None \<Rightarrow> Inr h1
      | Some t \<Rightarrow> hbind (cancel_boot t h1) (\<lambda>h. Inr (h\<lparr>h_pending := None, h_pending_is_default := False\<rparr>)))"
    using q by (auto intro!: safely_hbind[OF cancel_boot_keeps[of "{}" h1]] split: option.splits)
  fix h2 assume "handler_ok {} h2 \<and> h_default h2 = None"
  then show "safely (\<lambda>(ps, h'). handler_ok {} h' \<and> h_devices h' = [] \<and> h_default h' = None)
    (hbind (free_opts (h_unresolved h2) h2) (\<lambda>h.
     let h = h\<lparr>h_unresolved := []\<rparr>
     in hbind (drop_devices (h_devices h) h) (\<lambda>h.
        let h = h\<lparr>h_devices := [], h_ramdisks := [], h_plugins := []\<rparr>;
            h = notify Notify_plugins_remove h;
            h = h\<lparr>h_crypt_devices := []\<rparr>;
            (ps, h) = leave_safe_mode ps h
        in Inr (ps, h\<lparr>h_interfaces := ifaces\<rparr>))))"
    using reinit_drop_safe by blast
qed


lemma device_handler_update_config_safe:
  assumes "handler_ok {} h"
  shows "safely (\<lambda>(ps, h'). handler_ok {} h') (device_handler_update_config ifaces same config ps h)"
proof -
  have "safely (\<lambda>(ps, h'). handler_ok {} h') (device_handler_reinit ifaces ps (notify (Notify_config config) h))" for ps
    by (rule safely_mono[OF device_handler_reinit_safe]) (use assms in auto)
  then show ?thesis using assms by (simp add: device_handler_update_config_def split: prod.split)
qed

section \<open>Requery\<close>

lemma default_ok_same:
  assumes "dev d = Some x" "dd_boot_options x' = dd_boot_options x"
  shows "default_ok def ds (dev(d := Some x')) = default_ok def ds dev"
proof -
  have "(\<exists>y. (dev(d := Some x')) d' = Some y \<and> r \<in> set (dd_boot_options y)) \<longleftrightarrow>
      (\<exists>y. dev d' = Some y \<and> r \<in> set (dd_boot_options y))" for d' r
    using assms by auto
  then show ?thesis unfolding default_ok_def by simp
qed

lemma start_requery_safe:
  assumes "handler_ok {} h" "h_dev h d = Some dev"
  shows "safely (handler_ok {}) (device_handler_start_requery_timeout d timeout h)"
proof (cases "dd_requery_waiter dev \<noteq> None \<or> timeout = 0")
  case False
  let ?dev = "dev\<lparr>dd_requery_waiter := Some (h_next h)\<rparr>"
  let ?ws = "h_waiters h @ [(h_next h, Requery_timeout d)]"
  have rq: "requery_ok {} (h_waiters h) (h_dev h)" using assms(1) by (simp add: handler_ok_def)
  have fresh: "h_next h \<notin> fst ` set (h_waiters h)" using assms(1) by (auto simp: handler_ok_def fresh_ok_def)
  have w: "waits ((h_dev h)(d := Some ?dev)) d' w \<longleftrightarrow> waits (h_dev h) d' w \<or> d' = d \<and> w = h_next h" for d' w
    using assms(2) False by (auto simp: waits_def)
  have "requery_ok {} ?ws ((h_dev h)(d := Some ?dev))"
  proof (rule requery_okI)
    show "distinct (map fst ?ws)" using requery_ok_distinct[OF rq] fresh by simp
  qed (use requery_ok_waiter[OF rq] requery_ok_waits[OF rq] in \<open>auto simp: w\<close>)
  moreover have "options_ok (h_devices h) ((h_dev h)(d := Some ?dev)) (h_opt h) (h_unresolved h)"
    using assms unfolding handler_ok_def options_ok_def by simp
  moreover have "default_ok (h_default h) (h_devices h) ((h_dev h)(d := Some ?dev))"
    using assms(1) default_ok_same[of "h_dev h" d dev ?dev] assms(2) by (simp add: handler_ok_def)
  moreover have "owns ((h_dev h)(d := Some ?dev)) = owns (h_dev h)"
    using assms(2) by (auto simp: owns_def fun_eq_iff)
  ultimately show ?thesis using assms False
    by (auto simp: device_handler_start_requery_timeout_def waiter_register_timeout_def handler_ok_def fresh_ok_def
        devices_ok_def timer_ok_def ramdisks_ok_def)
qed (use assms in \<open>auto simp: device_handler_start_requery_timeout_def\<close>)

lemma handler_ok_drop_option:
  assumes "handler_ok X h" "h_dev h d = Some dev" "dd_boot_options dev = r # rs" "h_default h \<noteq> Some r"
  shows "handler_ok X (free_opt r (put_dev d (dev\<lparr>dd_boot_options := rs\<rparr>) h))"
proof -
  let ?dev = "dev\<lparr>dd_boot_options := rs\<rparr>"
  let ?h = "put_dev d ?dev h"
  have opts: "options_ok (h_devices h) (h_dev h) (h_opt h) (h_unresolved h)" using assms(1) by (simp add: handler_ok_def)
  have r: "r \<notin> set (h_unresolved h)" "d \<in> set (h_devices h)" "distinct (r # rs)"
    using opts assms(2,3) unfolding options_ok_def by fastforce+
  have "options_ok (h_devices h) ((h_dev h)(d := Some ?dev)) (h_opt h) (h_unresolved h)"
    using opts opts[unfolded options_ok_def, rule_format, OF assms(2)] assms(2,3) unfolding options_ok_def by simp
  moreover have "default_ok (h_default h) (h_devices h) ((h_dev h)(d := Some ?dev))"
  proof -
    have "\<exists>x'. ((h_dev h)(d := Some ?dev)) d' = Some x' \<and> r' \<in> set (dd_boot_options x')"
      if "h_dev h d' = Some x" "r' \<in> set (dd_boot_options x)" "r' \<noteq> r" for d' x r'
      using that assms(2,3) by (cases "d' = d") auto
    moreover have "default_ok (h_default h) (h_devices h) (h_dev h)" using assms(1) by (simp add: handler_ok_def)
    ultimately show ?thesis using assms(4) unfolding default_ok_def by metis
  qed
  moreover have "waits ((h_dev h)(d := Some ?dev)) = waits (h_dev h)"
    using assms(2) by (auto simp: waits_def fun_eq_iff)
  moreover have "owns ((h_dev h)(d := Some ?dev)) = owns (h_dev h)"
    using assms(2) by (auto simp: owns_def fun_eq_iff)
  ultimately have h: "handler_ok X ?h" using assms(1,2)
    by (auto simp: handler_ok_def fresh_ok_def devices_ok_def ramdisks_ok_def
        requery_ok_cong[of "(h_dev h)(d := Some ?dev)" "h_dev h"])
  have "r \<notin> set (dd_boot_options x)" if "h_dev ?h d' = Some x" for d' x
  proof (cases "d' = d")
    case True
    then show ?thesis using that r(3) by auto
  next
    case False
    then have "h_dev h d' = Some x" using that by simp
    moreover obtain opt where "h_opt h r = Some opt" "dbo_device opt = d"
      using option_live[OF assms(1,2), of r] assms(3) by auto
    ultimately show ?thesis using option_live[OF assms(1), of d' x r] False by auto
  qed
  then show ?thesis by (intro handler_ok_free_opt[OF h]) (use r(1) in auto)
qed

lemma requery_free_safe:
  assumes "handler_ok X h" "h_dev h d = Some dev" "dd_boot_options dev = rs"
  shows "safely (\<lambda>h'. handler_ok X h' \<and> (\<exists>x. h_dev h' d = Some x \<and> dd_boot_options x = [])) (requery_free d rs h)"
  using assms
proof (induction rs arbitrary: h dev)
  case (Cons r rs)
  then obtain opt where opt: "h_opt h r = Some opt"
    using option_live[OF Cons.prems(1,2), of r] by (metis list.set_intros(1))
  have "safely (\<lambda>h'. handler_ok X h' \<and> h_dev h' = h_dev h \<and> h_default h' \<noteq> Some r)
      (if h_default h = Some r then device_handler_cancel_default h else Inr h)"
    using safely_mono[OF cancel_default_keeps[OF Cons.prems(1)],
        of "\<lambda>h'. handler_ok X h' \<and> h_dev h' = h_dev h \<and> h_default h' \<noteq> Some r"] Cons.prems(1)
    by (auto simp: same_objs_def)
  then have "safely (\<lambda>h'. handler_ok X h' \<and> (\<exists>x. h_dev h' d = Some x \<and> dd_boot_options x = []))
      (hbind (if h_default h = Some r then device_handler_cancel_default h else Inr h) (\<lambda>h.
         hbind (get_dev h d) (\<lambda>dev. requery_free d rs
           (free_opt r (put_dev d (dev\<lparr>dd_boot_options := remove1 r (dd_boot_options dev)\<rparr>) h)))))"
  proof (rule safely_hbind)
    fix h1 assume q: "handler_ok X h1 \<and> h_dev h1 = h_dev h \<and> h_default h1 \<noteq> Some r"
    let ?h = "free_opt r (put_dev d (dev\<lparr>dd_boot_options := rs\<rparr>) h1)"
    have "handler_ok X ?h" using handler_ok_drop_option[of X h1 d dev r rs] q Cons.prems by simp
    then show "safely (\<lambda>h'. handler_ok X h' \<and> (\<exists>x. h_dev h' d = Some x \<and> dd_boot_options x = []))
        (hbind (get_dev h1 d) (\<lambda>dev. requery_free d rs
           (free_opt r (put_dev d (dev\<lparr>dd_boot_options := remove1 r (dd_boot_options dev)\<rparr>) h1))))"
      using Cons.IH[of ?h "dev\<lparr>dd_boot_options := rs\<rparr>"] q Cons.prems by simp
  qed
  then show ?case using opt by simp
qed simp

lemma requery_fn_safe:
  assumes "handler_ok {} h" "(w, Requery_timeout d) \<in> set (h_waiters h)"
  shows "safely (handler_ok {Inr w}) (device_handler_requery_timeout_fn d h)"
proof -
  have rq: "requery_ok {} (h_waiters h) (h_dev h)" using assms(1) by (simp add: handler_ok_def)
  obtain dev where dev: "h_dev h d = Some dev" "dd_requery_waiter dev = Some w"
    using requery_ok_waiter[OF rq assms(2)] by (auto simp: waits_def)
  let ?dev = "dev\<lparr>dd_requery_waiter := None\<rparr>"
  let ?h = "put_dev d ?dev h"
  have un: "d' = d" if "waits (h_dev h) d' w" for d'
    using requery_ok_waits[OF rq that] requery_ok_distinct[OF rq] assms(2) by (auto dest: eq_key_imp_eq_value)
  have wt: "waits ((h_dev h)(d := Some ?dev)) d' w' \<longleftrightarrow> waits (h_dev h) d' w' \<and> d' \<noteq> d" for d' w'
    by (auto simp: waits_def)
  have only: "(w', Requery_timeout d) \<in> set (h_waiters h) \<Longrightarrow> w' = w" for w'
    using requery_ok_waiter[OF rq, of w' d] dev by (auto simp: waits_def)
  have "requery_ok {Inr w} (h_waiters h) ((h_dev h)(d := Some ?dev))"
  proof (rule requery_okI)
    fix w' d'
    show "waits ((h_dev h)(d := Some ?dev)) d' w' \<and> Inl d' \<notin> {Inr w}"
      if "(w', Requery_timeout d') \<in> set (h_waiters h)" "Inr w' \<notin> {Inr w}"
      using requery_ok_waiter[OF rq that(1)] only[of w'] that by (auto simp: wt)
    show "(w', Requery_timeout d') \<in> set (h_waiters h)" if "waits ((h_dev h)(d := Some ?dev)) d' w'"
      using that requery_ok_waits[OF rq, of d' w'] by (simp add: wt)
    show "(\<exists>d. (w', Requery_timeout d) \<in> set (h_waiters h)) \<and> (\<forall>d'. \<not> waits ((h_dev h)(d := Some ?dev)) d' w')"
      if "Inr w' \<in> {Inr w}"
      using that assms(2) un by (auto simp: wt)
  qed (rule requery_ok_distinct[OF rq])
  moreover have "options_ok (h_devices h) ((h_dev h)(d := Some ?dev)) (h_opt h) (h_unresolved h)"
    using assms(1) dev unfolding handler_ok_def options_ok_def by simp
  moreover have "owns ((h_dev h)(d := Some ?dev)) = owns (h_dev h)"
    using dev by (auto simp: owns_def fun_eq_iff)
  ultimately have h: "handler_ok {Inr w} ?h" using assms(1) dev default_ok_same[of "h_dev h" d dev ?dev]
    by (auto simp: handler_ok_def fresh_ok_def devices_ok_def ramdisks_ok_def)
  have fin: "safely (handler_ok {Inr w}) (hbind (get_dev h1 d) (\<lambda>dev.
        Inr (notify (Network_requery d) (put_dev d (dev\<lparr>dd_notified := False\<rparr>)
          (notify (Notify_device_remove (dd_device dev)) h1)))))"
    if "handler_ok {Inr w} h1" "h_dev h1 d = Some x" for h1 x
    using that handler_ok_put_dev[of "{Inr w}" "notify (Notify_device_remove (dd_device x)) h1" d x "x\<lparr>dd_notified := False\<rparr>"]
    by simp
  have "safely (handler_ok {Inr w}) (hbind (free_unresolved d (h_unresolved ?h) ?h) (\<lambda>h.
      let autoboot = h_autoboot_enabled h
        in hbind (requery_free d (dd_boot_options dev) h) (\<lambda>h.
           let h = h\<lparr>h_autoboot_enabled := autoboot\<rparr>
           in hbind (get_dev h d) (\<lambda>dev.
              let h = notify (Notify_device_remove (dd_device dev)) h;
                  h = put_dev d (dev\<lparr>dd_notified := False\<rparr>) h
              in Inr (notify (Network_requery d) h)))))"
    unfolding Let_def
  proof (rule safely_hbind[OF free_unresolved_safe[OF h, of d]], rule safely_hbind[OF requery_free_safe])
    fix h1 assume q: "handler_ok {Inr w} h1 \<and> same_devs ?h h1 \<and> (\<forall>r\<in>set (h_unresolved h1). \<not> owner h1 d r)"
    then show "handler_ok {Inr w} h1" "h_dev h1 d = Some ?dev" "dd_boot_options ?dev = dd_boot_options dev"
      by (simp_all add: same_devs_def)
    fix h2 assume "handler_ok {Inr w} h2 \<and> (\<exists>x. h_dev h2 d = Some x \<and> dd_boot_options x = [])"
    then show "safely (handler_ok {Inr w}) (hbind (get_dev (h2\<lparr>h_autoboot_enabled := h_autoboot_enabled h1\<rparr>) d) (\<lambda>dev.
        Inr (notify (Network_requery d) (put_dev d (dev\<lparr>dd_notified := False\<rparr>)
          (notify (Notify_device_remove (dd_device dev)) (h2\<lparr>h_autoboot_enabled := h_autoboot_enabled h1\<rparr>))))))"
      using fin[of "h2\<lparr>h_autoboot_enabled := h_autoboot_enabled h1\<rparr>"] by auto
  qed
  then show ?thesis using dev by (simp add: device_handler_requery_timeout_fn_def Let_def)
qed

section \<open>Timeouts\<close>

lemma start_boot_waiters:
  "start_boot env opt_ref cmd b h = Inr h' \<Longrightarrow> h_waiters h' = h_waiters h \<and> h_timeout_waiter h' = h_timeout_waiter h"
  by (auto simp: start_boot_def hbind_def status_cb_eq Let_def split: sum.splits option.splits)

lemma requery_ok_remove_running:
  assumes "requery_ok {Inr w} ws dev"
  shows "requery_ok {} (filter (\<lambda>x. fst x \<noteq> w) ws) dev" and "w \<in> fst ` set ws"
proof -
  show "w \<in> fst ` set ws" using requery_ok_running[OF assms, of w] by force
  have n: "\<not> waits dev d w" for d using requery_ok_running[OF assms, of w] by simp
  show "requery_ok {} (filter (\<lambda>x. fst x \<noteq> w) ws) dev"
  proof (rule requery_okI)
    show "distinct (map fst (filter (\<lambda>x. fst x \<noteq> w) ws))"
      using requery_ok_distinct[OF assms] by (simp add: distinct_map_filter)
    fix w' d
    show "waits dev d w' \<and> Inl d \<notin> {}" if "(w', Requery_timeout d) \<in> set (filter (\<lambda>x. fst x \<noteq> w) ws)"
      using that requery_ok_waiter[OF assms, of w' d] by simp
    show "(w', Requery_timeout d) \<in> set (filter (\<lambda>x. fst x \<noteq> w) ws)" if "waits dev d w'"
      using that requery_ok_waits[OF assms, of d w'] n[of d] by (cases "w' = w") simp_all
  qed simp
qed

lemma remove_running_safe:
  assumes "handler_ok {Inr w} h"
  shows "safely (handler_ok {}) (waiter_remove w h)"
proof -
  have rq: "requery_ok {Inr w} (h_waiters h) (h_dev h)" using assms by (simp add: handler_ok_def)
  obtain d where d: "(w, Requery_timeout d) \<in> set (h_waiters h)" using requery_ok_running[OF rq, of w] by auto
  have "timer_ok (h_timeout_waiter h) (filter (\<lambda>x. fst x \<noteq> w) (h_waiters h))"
    using assms d requery_ok_distinct[OF rq]
    by (auto simp: handler_ok_def timer_ok_def dest: eq_key_imp_eq_value)
  then show ?thesis using assms requery_ok_remove_running[OF rq]
    by (auto simp: waiter_remove_def handler_ok_def fresh_ok_def)
qed

lemma remove_timer_safe:
  assumes "handler_ok X h" "(w, Default_timeout) \<in> set (h_waiters h)" "h_timeout_waiter h \<noteq> Some w"
  shows "safely (handler_ok X) (waiter_remove w h)"
proof -
  have "requery_ok X (filter (\<lambda>x. fst x \<noteq> w) (h_waiters h)) (h_dev h)"
    using assms(1,2) by (simp add: handler_ok_def requery_ok_remove_default)
  moreover have "timer_ok (h_timeout_waiter h) (filter (\<lambda>x. fst x \<noteq> w) (h_waiters h))"
    using assms(1,3) by (auto simp: handler_ok_def timer_ok_def)
  moreover have "w \<in> fst ` set (h_waiters h)" using assms(2) by force
  ultimately show ?thesis using assms(1) by (auto simp: waiter_remove_def handler_ok_def fresh_ok_def)
qed

text \<open>The countdown forgets the timeout that runs it.\<close>

lemma default_timeout_rearm:
  assumes "handler_ok X h" "h_default h = Some r" "h_pending h = None"
  shows "safely (\<lambda>h'. handler_ok X h' \<and> h_timeout_waiter h' \<in> {None, Some (h_next h)} \<and>
      set (h_waiters h) \<subseteq> set (h_waiters h')) (default_timeout env h)"
proof -
  obtain opt dev where o: "h_opt h r = Some opt" "h_dev h (dbo_device opt) = Some dev"
    using default_live[OF assms(1,2)] by metis
  have h': "safely (\<lambda>h'. h_timeout_waiter h' \<in> {None, Some (h_next h)} \<and> set (h_waiters h) \<subseteq> set (h_waiters h')) (default_timeout env h)"
  proof (cases "h_sec_to_boot h = 0")
    case True
    have "safely (\<lambda>_. True) (default_timeout env h)" by (rule safely_mono[OF default_timeout_keeps[OF assms(1)]]) simp
    then show ?thesis using True assms o start_boot_waiters[of env "Some r" None True "h\<lparr>h_last := Some r, h_timeout_waiter := None\<rparr>"]
      by (cases "default_timeout env h") (auto simp: default_timeout_def)
  next
    case False
    then show ?thesis using assms o
      by (auto simp: default_timeout_def countdown_status_def device_handler_status_def notify_def waiter_register_timeout_def Let_def)
  qed
  moreover have "safely (handler_ok X) (default_timeout env h)"
    by (rule safely_mono[OF default_timeout_keeps[OF assms(1)]]) simp
  ultimately show ?thesis by (cases "default_timeout env h") auto
qed

text \<open>The timeout of the countdown may fire while there is a default and no boot is pending.\<close>

definition fire_ok :: "nat \<Rightarrow> device_handler \<Rightarrow> bool" where
  "fire_ok w h \<longleftrightarrow> (h_timeout_waiter h = Some w \<longrightarrow> h_default h \<noteq> None \<and> h_pending h = None)"

lemma waiter_fire_safe:
  assumes "handler_ok {} h" "fire_ok w h"
  shows "safely (handler_ok {}) (waiter_fire env w h)"
proof (cases "map_of (h_waiters h) w")
  case None
  then show ?thesis using assms by (simp add: waiter_fire_def)
next
  case (Some cb)
  then have w: "(w, cb) \<in> set (h_waiters h)" by (rule map_of_SomeD)
  show ?thesis
  proof (cases cb)
    case (Requery_timeout d)
    then show ?thesis using Some safely_hbind[OF requery_fn_safe[OF assms(1)] remove_running_safe, of w d] w
      by (simp add: waiter_fire_def)
  next
    case Default_timeout
    have "safely (\<lambda>h'. handler_ok {} h' \<and> h_timeout_waiter h' \<noteq> Some w \<and> (w, Default_timeout) \<in> set (h_waiters h')) (default_timeout env h)"
    proof (cases "h_default h = None \<or> h_pending h \<noteq> None")
      case True
      then have "default_timeout env h = Inr h" by (auto simp: default_timeout_def split: option.splits)
      moreover have "h_timeout_waiter h \<noteq> Some w" using True assms(2) by (auto simp: fire_ok_def)
      ultimately show ?thesis using assms(1) w Default_timeout by simp
    next
      case False
      moreover have "w < h_next h" using assms(1) w by (force simp: handler_ok_def fresh_ok_def)
      ultimately show ?thesis using w Default_timeout
        by (auto intro!: safely_mono[OF default_timeout_rearm[OF assms(1)]])
    qed
    then have "safely (handler_ok {}) (hbind (default_timeout env h) (waiter_remove w))"
      by (rule safely_hbind) (auto intro: remove_timer_safe)
    then show ?thesis using Some Default_timeout by (simp add: waiter_fire_def)
  qed
qed

section \<open>Boot requests\<close>

lemma find_opt_safe:
  assumes "handler_ok X h" "h_dev h d = Some dev" "set rs \<subseteq> set (dd_boot_options dev)" "\<And>opt. safely (\<lambda>_. True) (t opt)"
  shows "safely (\<lambda>r. \<forall>x. r = Some x \<longrightarrow> h_opt h x \<noteq> None) (find_opt t h rs)"
  using assms(3)
proof (induction rs)
  case (Cons r rs)
  then obtain opt where "h_opt h r = Some opt" using option_live[OF assms(1,2), of r] by auto
  then show ?case using Cons by (auto intro!: safely_hbind[OF assms(4)])
qed simp

lemma find_in_devices_safe:
  assumes "handler_ok X h" "set ds \<subseteq> set (h_devices h)" "\<And>opt. safely (\<lambda>_. True) (t opt)"
  shows "safely (\<lambda>r. \<forall>x. r = Some x \<longrightarrow> h_opt h x \<noteq> None) (find_in_devices t h ds)"
  using assms(2)
proof (induction ds)
  case (Cons d ds)
  then obtain dev where dev: "h_dev h d = Some dev" using assms(1) by (auto simp: handler_ok_def devices_ok_def)
  show ?case using Cons dev
    by (auto intro!: safely_hbind[OF find_opt_safe[OF assms(1) dev subset_refl assms(3)]])
qed simp

lemma strcmp_eq_safe: "safely (\<lambda>_. True) (strcmp_eq a b)"
  by (auto simp: strcmp_eq_def split: option.splits)

lemma device_handler_boot_safe:
  assumes "handler_ok X h"
  shows "safely (handler_ok X) (device_handler_boot env change_default cmd h)"
proof -
  have f: "safely (\<lambda>r. \<forall>x. r = Some x \<longrightarrow> h_opt h x \<noteq> None)
      (case cmd_option_id cmd of Some i \<Rightarrow> if i \<noteq> [] then find_boot_option_by_id h i else Inr None | None \<Rightarrow> Inr None)"
    using find_in_devices_safe[OF assms subset_refl strcmp_eq_safe]
    by (auto simp: find_boot_option_by_id_def split: option.splits)
  show ?thesis unfolding device_handler_boot_def
  proof (rule safely_hbind[OF f])
    fix opt assume o: "\<forall>x. opt = Some x \<longrightarrow> h_opt h x \<noteq> None"
    have "safely (keeps X h) (case h_pending h of Some t \<Rightarrow> cancel_boot t h | None \<Rightarrow> Inr h)"
      using assms cancel_boot_keeps[OF assms] by (auto split: option.splits elim: safely_mono)
    then have "safely (handler_ok X) (hbind (case h_pending h of Some t \<Rightarrow> cancel_boot t h | None \<Rightarrow> Inr h)
        (start_boot env opt (Some cmd) False))"
    proof (rule safely_hbind)
      fix h1 assume q: "keeps X h h1"
      then have "case opt of Some r \<Rightarrow> h_opt h1 r \<noteq> None | None \<Rightarrow> True"
        using o same_objs_opt[of h h1] by (cases opt) fastforce+
      then show "safely (handler_ok X) (start_boot env opt (Some cmd) False h1)"
        using q by (auto intro: safely_mono[OF start_boot_keeps])
    qed
    then show "safely (handler_ok X)
        (if \<not> change_default \<and> h_last h \<noteq> None \<and> opt \<noteq> h_last h
         then Inr (device_handler_status STATUS_ERROR Must_be_root h)
         else hbind (case h_pending h of Some t \<Rightarrow> cancel_boot t h | None \<Rightarrow> Inr h) (start_boot env opt (Some cmd) False))"
      using assms by simp
  qed
qed

section \<open>New objects\<close>

lemma handler_ok_new_device:
  assumes "handler_ok X h" "dd_boot_options dev = []" "dd_requery_waiter dev = None" "dd_ramdisk dev = None"
  shows "handler_ok X (put_dev (h_next h) dev (h\<lparr>h_next := Suc (h_next h)\<rparr>))"
proof -
  have fresh: "h_dev h (h_next h) = None" using assms(1) by (simp add: handler_ok_def fresh_ok_def)
  let ?dev = "(h_dev h)(h_next h := Some dev)"
  have "waits ?dev = waits (h_dev h)" "owns ?dev = owns (h_dev h)"
    using assms(3,4) fresh by (auto simp: waits_def owns_def fun_eq_iff)
  moreover have "default_ok (h_default h) (h_devices h) ?dev"
  proof -
    have "?dev d = Some x \<Longrightarrow> r \<in> set (dd_boot_options x) \<Longrightarrow> h_dev h d = Some x" for d x r
      using assms(2) by (auto split: if_splits)
    moreover have "h_dev h d = Some x \<Longrightarrow> ?dev d = Some x" for d x using fresh by auto
    moreover have "default_ok (h_default h) (h_devices h) (h_dev h)" using assms(1) by (simp add: handler_ok_def)
    ultimately show ?thesis unfolding default_ok_def by metis
  qed
  moreover have "options_ok (h_devices h) ?dev (h_opt h) (h_unresolved h)"
    using assms(1,2) by (simp add: handler_ok_def options_ok_def)
  moreover have "devices_ok (h_devices h) ?dev" using assms(1) by (auto simp: handler_ok_def devices_ok_def)
  ultimately show ?thesis using assms(1)
    by (simp add: handler_ok_def fresh_ok_def ramdisks_ok_def requery_ok_cong[of ?dev "h_dev h"] less_SucI)
qed

lemma discover_device_create_safe:
  assumes "handler_ok X h"
  shows "safely (\<lambda>(d, h'). handler_ok X h' \<and> h_dev h' d \<noteq> None) (discover_device_create uuid did h)"
proof -
  have m: "safely (\<lambda>r. \<forall>d. r = Some d \<longrightarrow> h_dev h d \<noteq> None)
      (case uuid of Some u \<Rightarrow> device_lookup_by_uuid h uuid | None \<Rightarrow> device_lookup_by_id h (Some did))"
    unfolding device_lookup_by_uuid_def device_lookup_by_id_def
    by (auto split: option.splits intro!: safely_mono[OF device_lookup_safe[OF assms]])
  show ?thesis unfolding discover_device_create_def
    by (rule safely_hbind[OF m])
      (auto split: option.splits intro!: handler_ok_new_device assms simp: assms discover_device_new_def)
qed

lemma discover_boot_option_create_safe:
  assumes "handler_ok X h"
  shows "handler_ok X (snd (discover_boot_option_create d h))"
    and "loose (snd (discover_boot_option_create d h)) d (fst (discover_boot_option_create d h))"
proof -
  have fresh: "h_opt h (h_next h) = None" using assms by (simp add: handler_ok_def fresh_ok_def)
  have n: "h_next h \<notin> set (h_unresolved h)"
    using assms fresh by (auto simp: handler_ok_def unresolved_ok_def)
  have o: "h_next h \<notin> set (dd_boot_options dev)" if "h_dev h d' = Some dev" for d' dev
    using option_live[OF assms that, of "h_next h"] fresh by auto
  have live: "((h_opt h)(h_next h := Some x)) r = Some y" if "h_opt h r = Some y" for x r y
    using that fresh by auto
  have "options_ok (h_devices h) (h_dev h) ((h_opt h)(h_next h := Some x)) (h_unresolved h)" for x
  proof -
    have "options_ok (h_devices h) (h_dev h) (h_opt h) (h_unresolved h)" using assms by (simp add: handler_ok_def)
    then show ?thesis unfolding options_ok_def using live by metis
  qed
  moreover have "unresolved_ok (h_unresolved h) (h_devices h) ((h_opt h)(h_next h := Some x))" for x
  proof -
    have "unresolved_ok (h_unresolved h) (h_devices h) (h_opt h)" using assms by (simp add: handler_ok_def)
    then show ?thesis unfolding unresolved_ok_def using live by metis
  qed
  ultimately show "handler_ok X (snd (discover_boot_option_create d h))"
    using assms by (simp add: discover_boot_option_create_def handler_ok_def fresh_ok_def less_SucI)
  show "loose (snd (discover_boot_option_create d h)) d (fst (discover_boot_option_create d h))"
    using n o by (simp add: discover_boot_option_create_def loose_def)
qed

section \<open>Ramdisks\<close>

lemma has_ramdisk_safe:
  "(\<And>r. r \<in> set rs \<Longrightarrow> h_rd h r \<noteq> None) \<Longrightarrow> safely (\<lambda>_. True) (has_ramdisk h p rs)"
  by (induction rs) (auto simp: get_rd_def split: option.splits)

lemma add_ramdisk_safe:
  assumes "handler_ok X h"
  shows "safely (\<lambda>h'. handler_ok X h' \<and> h_dev h' = h_dev h \<and>
      (\<exists>rs. h_ramdisks h' = h_ramdisks h @ rs \<and> (\<forall>r \<in> set rs. \<exists>rd. h_rd h' r = Some rd \<and> rd_base rd = None)))
    (device_handler_add_ramdisk path h)"
proof (cases path)
  case (Some p)
  have live: "\<And>r. r \<in> set (h_ramdisks h) \<Longrightarrow> h_rd h r \<noteq> None" using assms by (auto simp: handler_ok_def ramdisks_ok_def)
  have fresh: "h_rd h (h_next h) = None" using assms by (simp add: handler_ok_def fresh_ok_def)
  have "handler_ok X (put_rd (h_next h) rd (h\<lparr>h_ramdisks := h_ramdisks h @ [h_next h], h_next := Suc (h_next h)\<rparr>))" for rd
  proof -
    have "ramdisks_ok (h_ramdisks h) (h_rd h) (h_dev h)" using assms by (simp add: handler_ok_def)
    then have "ramdisks_ok (h_ramdisks h @ [h_next h]) ((h_rd h)(h_next h := Some rd)) (h_dev h)"
      using fresh unfolding ramdisks_ok_def by fastforce
    then show ?thesis using assms by (simp add: put_rd_def handler_ok_def fresh_ok_def less_SucI)
  qed
  then show ?thesis using Some assms
    by (auto simp: device_handler_add_ramdisk_def put_rd_def intro!: safely_hbind[OF has_ramdisk_safe[OF live]])
qed (use assms in \<open>simp add: device_handler_add_ramdisk_def\<close>)

end
