(* ===== verification/Device_Steps.thy ===== *)
theory Device_Steps
  imports Device_Inv
begin

text \<open>
  The device handler as a state machine: the operations that events, timers, clients and finished
  processes start, the states they reach, and the properties of these states.
\<close>

section \<open>Snapshots and encrypted devices\<close>

lemma free_ramdisk_safe:
  "(\<And>r. r \<in> set rs \<Longrightarrow> h_rd h r \<noteq> None) \<Longrightarrow>
   safely (\<lambda>x. \<forall>r. x = Some r \<longrightarrow> (\<exists>rd. h_rd h r = Some rd \<and> rd_base rd = None)) (free_ramdisk h rs)"
  by (induction rs) (auto simp: get_rd_def split: option.splits)

lemma get_ramdisk_safe:
  assumes "handler_ok X h"
  shows "safely (\<lambda>(x, h'). handler_ok X h' \<and> h_dev h' = h_dev h \<and>
      (\<forall>r. x = Some r \<longrightarrow> (\<exists>rd. h_rd h' r = Some rd \<and> rd_base rd = None))) (device_handler_get_ramdisk mknod h)"
proof -
  have live: "\<And>r. r \<in> set (h_ramdisks h) \<Longrightarrow> h_rd h r \<noteq> None" using assms by (auto simp: handler_ok_def ramdisks_ok_def)
  have new: "safely (\<lambda>(x, h'). handler_ok X h' \<and> h_dev h' = h_dev h \<and>
      (\<forall>r. x = Some r \<longrightarrow> (\<exists>rd. h_rd h' r = Some rd \<and> rd_base rd = None)))
     (hbind (device_handler_add_ramdisk (Some name) h) (\<lambda>h'.
        if length (h_ramdisks h') \<le> length (h_ramdisks h) then Inl Out_of_bounds
        else Inr (Some (h_ramdisks h' ! length (h_ramdisks h)), h')))" for name
    by (rule safely_hbind[OF add_ramdisk_safe[OF assms]]) (auto simp: nth_append)
  show ?thesis unfolding device_handler_get_ramdisk_def
    by (rule safely_hbind[OF free_ramdisk_safe[OF live]]) (use assms new in \<open>auto split: option.splits simp: Let_def\<close>)
qed


text \<open>A device takes over a ramdisk nobody has.\<close>

lemma handler_ok_attach:
  assumes "handler_ok X h" "h_dev h d = Some dev" "dd_ramdisk dev = None" "h_rd h r = Some rd" "rd_base rd = None"
    "rd_base rd' \<noteq> None"
  shows "handler_ok X (put_dev d (dev\<lparr>dd_ramdisk := Some r\<rparr>) (put_rd r rd' h))"
proof -
  let ?dev = "dev\<lparr>dd_ramdisk := Some r\<rparr>"
  let ?devs = "(h_dev h)(d := Some ?dev)"
  have rok: "ramdisks_ok (h_ramdisks h) (h_rd h) (h_dev h)" using assms(1) by (simp add: handler_ok_def)
  have none: "\<not> owns (h_dev h) d' r" for d' using rok assms(4,5) unfolding ramdisks_ok_def by fastforce
  have ow: "owns ?devs d' r' \<longleftrightarrow> (if d' = d then r' = r else owns (h_dev h) d' r')" for d' r'
    by (auto simp: owns_def)
  have "ramdisks_ok (h_ramdisks h) ((h_rd h)(r := Some rd')) ?devs"
    using rok none assms(6) unfolding ramdisks_ok_def ow by (auto split: if_splits)
  moreover have "options_ok (h_devices h) ?devs (h_opt h) (h_unresolved h)"
    using assms(1,2) unfolding handler_ok_def options_ok_def by simp
  moreover have "waits ?devs = waits (h_dev h)" using assms(2) by (auto simp: waits_def fun_eq_iff)
  ultimately show ?thesis using assms(1,2,4) default_ok_same[of "h_dev h" d dev ?dev]
    by (auto simp: handler_ok_def fresh_ok_def devices_ok_def put_rd_def requery_ok_cong[of ?devs "h_dev h"])
qed

lemma handler_ok_put_rd:
  assumes "handler_ok X h" "h_rd h r = Some rd" "rd_base rd = None"
  shows "handler_ok X (put_rd r rd' h)"
proof -
  have rok: "ramdisks_ok (h_ramdisks h) (h_rd h) (h_dev h)" using assms(1) by (simp add: handler_ok_def)
  then have "\<not> owns (h_dev h) d' r" for d' using assms(2,3) unfolding ramdisks_ok_def by fastforce
  then have "ramdisks_ok (h_ramdisks h) ((h_rd h)(r := Some rd')) (h_dev h)"
    using rok unfolding ramdisks_ok_def by (metis fun_upd_apply option.distinct(1))
  then show ?thesis using assms(1,2) by (auto simp: put_rd_def handler_ok_def fresh_ok_def)
qed

lemma create_maps_base: "create_maps dm dev rd = (b, rd') \<Longrightarrow> b \<Longrightarrow> rd_base rd' \<noteq> None"
  by (auto simp: create_maps_def Let_def split: if_splits)

lemma put_rd_sel [simp]:
  "h_dev (put_rd r x h) = h_dev h" "h_rd (put_rd r x h) = (h_rd h)(r := Some x)"
  by (simp_all add: put_rd_def)

text \<open>A failed snapshot gives the ramdisk back.\<close>

lemma failed_snapshot:
  assumes "h_dev h d = Some dev" "dd_ramdisk dev = None"
  shows "devmapper_destroy_snapshot d (put_dev d (dev\<lparr>dd_ramdisk := Some r\<rparr>) (put_rd r rd h)) =
    Inr (put_rd r (rd\<lparr>rd_snapshot := None, rd_origin := None, rd_base := None, rd_sectors := 0\<rparr>) h)"
proof -
  have "dev\<lparr>dd_ramdisk := None\<rparr> = dev" using assms(2) by simp
  moreover have "(h_dev h)(d := Some dev) = h_dev h" using assms(1) by auto
  ultimately show ?thesis
    by (simp add: devmapper_destroy_snapshot_def device_handler_release_ramdisk_def put_dev_def put_rd_def get_dev_def get_rd_def)
qed

lemma attach_snapshot_safe:
  assumes "handler_ok X h" "h_dev h d = Some dev" "dd_ramdisk dev = None" "h_rd h r = Some rd" "rd_base rd = None"
  shows "safely (\<lambda>(rc, h'). handler_ok X h')
     (let rd = rd\<lparr>rd_sectors := dm_sectors dm dev\<rparr>; h = put_rd r rd h
      in if rd_sectors rd = 0 then Inr (- 1, h)
         else
           (let (ok, rd) = create_maps dm dev rd;
                h = put_dev d (dev\<lparr>dd_ramdisk := Some r\<rparr>) (put_rd r rd h)
            in if ok then Inr (0, h)
               else hbind (devmapper_destroy_snapshot d h) (\<lambda>h. Inr (- 1, h))))"
proof -
  let ?rd = "rd\<lparr>rd_sectors := dm_sectors dm dev\<rparr>"
  let ?h = "put_rd r ?rd h"
  obtain b rd' where c: "create_maps dm dev ?rd = (b, rd')" by fastforce
  have h: "handler_ok X ?h" "h_dev ?h d = Some dev" "h_rd ?h r = Some ?rd" "rd_base ?rd = None"
    using handler_ok_put_rd[OF assms(1,4,5)] assms by simp_all
  have "handler_ok X (put_dev d (dev\<lparr>dd_ramdisk := Some r\<rparr>) (put_rd r rd' ?h))" if b
    using handler_ok_attach[OF h(1,2) assms(3) h(3,4)] create_maps_base[OF c that] by simp
  moreover have "handler_ok X (put_rd r x ?h)" for x using handler_ok_put_rd[OF h(1,3,4)] .
  ultimately show ?thesis
    using h(1) c handler_ok_put_rd[OF assms(1,4,5)] failed_snapshot[OF h(2) assms(3), of r rd'] by (simp add: Let_def)
qed

lemma init_snapshot_safe:
  assumes "handler_ok X h" "h_dev h d = Some dev" "dd_ramdisk dev = None"
  shows "safely (\<lambda>(rc, h'). handler_ok X h') (devmapper_init_snapshot config mknod dm d h)"
proof (cases "cfg_disable_snapshots config")
  case False
  have "safely (\<lambda>(rc, h'). handler_ok X h') (case p of (found, h) \<Rightarrow> (case found of
        None \<Rightarrow> Inr (- 1, h)
      | Some r \<Rightarrow>
          hbind (get_rd h r) (\<lambda>rd.
          hbind (get_dev h d) (\<lambda>dev.
          let rd = rd\<lparr>rd_sectors := dm_sectors dm dev\<rparr>; h = put_rd r rd h
          in if rd_sectors rd = 0 then Inr (- 1, h)
             else
               (let (ok, rd) = create_maps dm dev rd;
                    h = put_dev d (dev\<lparr>dd_ramdisk := Some r\<rparr>) (put_rd r rd h)
                in if ok then Inr (0, h)
                   else hbind (devmapper_destroy_snapshot d h) (\<lambda>h. Inr (- 1, h)))))))"
    if "case p of (x, h') \<Rightarrow> handler_ok X h' \<and> h_dev h' = h_dev h \<and>
      (\<forall>r. x = Some r \<longrightarrow> (\<exists>rd. h_rd h' r = Some rd \<and> rd_base rd = None))" for p
    using that assms(2,3) attach_snapshot_safe[of X "snd p" d dev] by (cases "fst p") (auto split: prod.splits)
  from safely_hbind[OF get_ramdisk_safe[OF assms(1)] this] show ?thesis using False
    by (simp add: devmapper_init_snapshot_def)
qed (simp add: devmapper_init_snapshot_def assms(1))

lemma found_crypt_device_safe:
  assumes "handler_ok {} h" "\<And>c. c \<in> set (h_crypt_devices h) \<Longrightarrow> h_dev h (ci_source_device c) \<noteq> None"
  shows "safely (\<lambda>(b, h'). handler_ok {} h') (device_handler_found_crypt_device name h)"
proof (cases "find (\<lambda>c. dm_match c name) (h_crypt_devices h)")
  case (Some c)
  then have "c \<in> set (h_crypt_devices h)" by (auto simp: find_Some_iff)
  then obtain dev where "h_dev h (ci_source_device c) = Some dev" using assms(2) by blast
  from device_handler_remove_safe[OF assms(1) this] show ?thesis using Some
    by (auto simp: device_handler_found_crypt_device_def intro!: safely_hbind)
qed (use assms in \<open>simp add: device_handler_found_crypt_device_def\<close>)

lemma open_encrypted_dev_safe:
  assumes "handler_ok X h"
  shows "safely (handler_ok X) (device_handler_open_encrypted_dev started password device_id h)"
  unfolding device_handler_open_encrypted_dev_def device_lookup_by_id_def
  by (rule safely_hbind[OF device_lookup_safe[OF assms]])
    (auto split: option.splits simp: assms Let_def)

lemma add_encrypted_dev_safe:
  assumes "handler_ok {} h" "context_ok h \<lparr>ctx_parser = [], ctx_device = d, ctx_event = None, ctx_boot_options = []\<rparr>"
  shows "safely (handler_ok {}) (device_handler_add_encrypted_dev d h)"
proof -
  obtain dev where dev: "h_dev h d = Some dev"
    and u: "if d \<in> set (h_devices h) then dd_uuid dev \<noteq> None
         else \<forall>d \<in> set (h_devices h). \<forall>x. h_dev h d = Some x \<longrightarrow> dd_uuid x = dd_uuid dev \<longrightarrow> dd_uuid dev = None"
    using assms(2) by (auto simp: context_ok_def)
  let ?dev = "dev\<lparr>dd_notified := True\<rparr>"
  let ?h = "put_dev d ?dev (notify (Notify_device_add (dd_device dev)) h)"
  have h: "handler_ok {} ?h" using handler_ok_put_dev[of "{}" "notify (Notify_device_add (dd_device dev)) h" d dev ?dev] assms(1) dev by simp
  have "safely (handler_ok {}) (hbind (device_lookup_by_uuid ?h (dd_uuid dev)) (\<lambda>found.
        if found = None then device_handler_add_device d ?h else Inr ?h))"
    unfolding device_lookup_by_uuid_def
  proof (rule safely_hbind[OF device_lookup_safe[OF h]])
    fix found assume f: "case found of
        Some d \<Rightarrow> d \<in> set (h_devices ?h) \<and>
          (\<exists>x s. h_dev ?h d = Some x \<and> dd_uuid dev = Some s \<and> device_match_uuid x s)
      | None \<Rightarrow> \<forall>d \<in> set (h_devices ?h). \<forall>x s. h_dev ?h d = Some x \<longrightarrow> dd_uuid dev = Some s \<longrightarrow> \<not> device_match_uuid x s"
    have "d \<notin> set (h_devices ?h)" if "found = None"
      using that f u dev by (auto simp: device_match_uuid_def split: if_splits)
    then show "safely (handler_ok {}) (if found = None then device_handler_add_device d ?h else Inr ?h)"
      using h by (auto intro!: safely_mono[OF add_device_safe[OF h]])
  qed
  then show ?thesis using dev by (simp add: device_handler_add_encrypted_dev_def Let_def)
qed


section \<open>The state machine\<close>

text \<open>The operations that change the handler, started in state \<open>h\<close>, with their results.  The guards are
  what the callers see to: an object that is named is live (\<open>set_device\<close> is the mounting of a device and
  the assignments of \<^verbatim>\<open>udev.c\<close> and \<^verbatim>\<open>network.c\<close> to its members, \<open>set_option\<close> those of the parsers), a context is committed as the parsers
  leave it, a snapshot is made once for a device.  The last two guards are not enforced by the code:
  the countdown's timeout must not fire while a boot is pending or after the default was dropped,
  and the device an encrypted device was opened from must not have been removed meanwhile.\<close>

inductive handler_step :: "resolvers \<Rightarrow> device_handler \<Rightarrow> device_handler h_m \<Rightarrow> bool" for rs where
  create_device: "handler_step rs h (map_sum id snd (discover_device_create uuid did h))"
| create_option: "h_dev h d \<noteq> None \<Longrightarrow> handler_step rs h (Inr (snd (discover_boot_option_create d h)))"
| set_option: "h_opt h r = Some opt \<Longrightarrow> dbo_device opt' = dbo_device opt \<Longrightarrow> handler_step rs h (Inr (put_opt r opt' h))"
| set_device: "h_dev h d = Some dev \<Longrightarrow> dd_boot_options dev' = dd_boot_options dev \<Longrightarrow>
    dd_requery_waiter dev' = dd_requery_waiter dev \<Longrightarrow> dd_ramdisk dev' = dd_ramdisk dev \<Longrightarrow> handler_step rs h (Inr (put_dev d dev' h))"
| commit: "context_ok h ctx \<Longrightarrow> handler_step rs h (device_handler_discover_context_commit rs env ctx h)"
| queue: "handler_step rs h (process_boot_option_queue rs env h)"
| remove: "h_dev h d \<noteq> None \<Longrightarrow> handler_step rs h (device_handler_remove d h)"
| boot: "handler_step rs h (device_handler_boot env change_default cmd h)"
| loaded: "h_task h t \<noteq> None \<Longrightarrow> handler_step rs h (load_complete env t i res h)"
| cancel: "handler_step rs h (device_handler_cancel_default h)"
| temp: "handler_step rs h (device_handler_apply_temp_autoboot env aopt h)"
| update: "handler_step rs h (map_sum id snd (device_handler_update_config ifaces same config ps h))"
| reinit: "handler_step rs h (map_sum id snd (device_handler_reinit ifaces ps h))"
| requery: "h_dev h d \<noteq> None \<Longrightarrow> handler_step rs h (device_handler_start_requery_timeout d timeout h)"
| ramdisk: "handler_step rs h (device_handler_add_ramdisk path h)"
| snapshot: "h_dev h d = Some dev \<Longrightarrow> dd_ramdisk dev = None \<Longrightarrow>
    handler_step rs h (map_sum id snd (devmapper_init_snapshot config mknod dm d h))"
| open_crypt: "handler_step rs h (device_handler_open_encrypted_dev started password did h)"
| crypt_exit: "handler_step rs h (Inr (cryptsetup_cb exit_status path name h))"
| add_crypt: "context_ok h \<lparr>ctx_parser = [], ctx_device = d, ctx_event = None, ctx_boot_options = []\<rparr> \<Longrightarrow>
    handler_step rs h (device_handler_add_encrypted_dev d h)"
| plugin: "handler_step rs h (device_handler_add_plugin_option popt h)"
| install: "handler_step rs h (Inr (device_handler_install_plugin started file h))"
| installed: "handler_step rs h (Inr (plugin_install_cb exit_status h))"
| fire: "fire_ok w h \<Longrightarrow> handler_step rs h (waiter_fire env w h)"
| found_crypt: "(\<And>c. c \<in> set (h_crypt_devices h) \<Longrightarrow> h_dev h (ci_source_device c) \<noteq> None) \<Longrightarrow>
    handler_step rs h (map_sum id snd (device_handler_found_crypt_device name h))"

text \<open>The handler as \<^verbatim>\<open>device_handler_init\<close> leaves it.\<close>

definition device_handler_init :: "bool \<Rightarrow> config \<Rightarrow> net_interface list \<Rightarrow> device_handler" where
  "device_handler_init dry_run config ifaces =
     \<lparr>h_dry_run = dry_run, h_dev = (\<lambda>_. None), h_opt = (\<lambda>_. None), h_task = (\<lambda>_. None), h_rd = (\<lambda>_. None),
      h_next = 0, h_devices = [], h_ramdisks = [], h_interfaces = ifaces, h_waiters = [], h_timeout_waiter = None,
      h_autoboot_enabled = config_autoboot_active config, h_sec_to_boot = 0, h_temp_autoboot = None,
      h_default = None, h_last = None, h_default_priority = 0, h_unresolved = [], h_pending = None,
      h_pending_is_default = False, h_plugins = [], h_plugin_installing = False, h_crypt_devices = [], h_out = []\<rparr>"

inductive reachable :: "resolvers \<Rightarrow> device_handler \<Rightarrow> bool" for rs where
  init: "reachable rs (device_handler_init dry_run config ifaces)"
| step: "reachable rs h \<Longrightarrow> handler_step rs h (Inr h') \<Longrightarrow> reachable rs h'"

lemma handler_ok_init: "handler_ok X (device_handler_init dry_run config ifaces) \<longleftrightarrow> (\<forall>w. Inr w \<notin> X)"
  by (auto simp: device_handler_init_def handler_ok_def clause_defs requery_ok_def waits_def owns_def)

lemma same_plugin_safe: "safely (\<lambda>_. True) (known_plugin opt plugins)"
  by (induction plugins) (auto simp: same_plugin_def strcmp_eq_safe split: option.splits intro!: safely_True_hbind)

lemma add_plugin_option_safe: "handler_ok X h \<Longrightarrow> safely (handler_ok X) (device_handler_add_plugin_option opt h)"
  unfolding device_handler_add_plugin_option_def by (rule safely_hbind[OF same_plugin_safe]) simp

lemma safely_snd: "safely (\<lambda>(x, h'). P h') m \<Longrightarrow> safely P (map_sum id snd m)"
  by (cases m) auto

context resolver
begin

lemma handler_step_safe:
  assumes "handler_step rs h m" "handler_ok {} h"
  shows "safely (handler_ok {}) m"
  using assms
proof cases
  case (create_device uuid did)
  have "safely (\<lambda>(d, h'). handler_ok {} h') (discover_device_create uuid did h)"
    by (rule safely_mono[OF discover_device_create_safe[OF assms(2)]]) auto
  then show ?thesis unfolding create_device by (rule safely_snd)
next
  case (create_option d)
  then show ?thesis using discover_boot_option_create_safe(1)[OF assms(2)] by simp
next
  case (set_option r opt opt')
  then show ?thesis using handler_ok_put_opt[OF assms(2)] by simp
next
  case (set_device d dev dev')
  then show ?thesis using handler_ok_put_dev[OF assms(2)] by simp
next
  case (commit ctx env)
  then show ?thesis using commit_safe[OF assms(2)] by simp
next
  case (queue env)
  then show ?thesis using process_boot_option_queue_safe[OF assms(2)] by simp
next
  case (remove d)
  then show ?thesis using device_handler_remove_safe[OF assms(2), of d] by (auto elim: safely_mono)
next
  case (boot env change_default cmd)
  then show ?thesis using device_handler_boot_safe[OF assms(2)] by simp
next
  case (loaded t env i res)
  then obtain task where "h_task h t = Some task" by blast
  then show ?thesis unfolding loaded by (rule safely_mono[OF load_complete_keeps[OF assms(2)]]) simp
next
  case cancel
  then show ?thesis using cancel_default_keeps[OF assms(2)] by (auto elim: safely_mono)
next
  case (temp env aopt)
  show ?thesis unfolding temp by (rule safely_mono[OF apply_temp_autoboot_keeps[OF assms(2)]]) simp
next
  case (update ifaces same config ps)
  show ?thesis unfolding update by (rule safely_snd[OF device_handler_update_config_safe[OF assms(2)]])
next
  case (reinit ifaces ps)
  have "safely (\<lambda>(ps, h'). handler_ok {} h') (device_handler_reinit ifaces ps h)"
    by (rule safely_mono[OF device_handler_reinit_safe[OF assms(2)]]) auto
  then show ?thesis unfolding reinit by (rule safely_snd)
next
  case (requery d timeout)
  then show ?thesis using start_requery_safe[OF assms(2), of d] by auto
next
  case (ramdisk path)
  show ?thesis unfolding ramdisk by (rule safely_mono[OF add_ramdisk_safe[OF assms(2)]]) simp
next
  case (snapshot d dev config mknod dm)
  show ?thesis unfolding snapshot by (rule safely_snd[OF init_snapshot_safe[OF assms(2) snapshot(2,3)]])
next
  case (add_crypt d)
  then show ?thesis using add_encrypted_dev_safe[OF assms(2)] by simp
next
  case (plugin popt)
  then show ?thesis using add_plugin_option_safe[OF assms(2)] by simp
next
  case (fire w env)
  then show ?thesis using waiter_fire_safe[OF assms(2)] by simp
next
  case (found_crypt name)
  show ?thesis unfolding found_crypt(1) by (rule safely_snd[OF found_crypt_device_safe[OF assms(2) found_crypt(2)]])
qed (simp_all add: assms(2) open_encrypted_dev_safe cryptsetup_cb_def device_handler_install_plugin_def
    plugin_install_cb_def Let_def split: option.split)

lemma reachable_ok: "reachable rs h \<Longrightarrow> handler_ok {} h"
proof (induction rule: reachable.induct)
  case (step h h')
  then show ?case using handler_step_safe[of h "Inr h'"] by simp
qed (simp add: handler_ok_init)

end

end
