(* ===== verification/Resource.thy ===== *)
theory Resource
  imports Device_Steps
begin

text \<open>
  Resources of boot options, \<^verbatim>\<open>discover/resource.c\<close>, with the GRUB variant of
  \<^verbatim>\<open>discover/grub2/grub2.c\<close> and \<^verbatim>\<open>join_paths\<close> of \<^verbatim>\<open>discover/paths.c\<close>: a file name in a boot
  loader's configuration becomes a URL at once, or when the device it names is discovered.
  The table of the parsers' \<^verbatim>\<open>resolve_resource\<close> callbacks is an instance of the interface the device
  handler relies on, so that the handler's safety holds for the parsers of the program.
\<close>

section \<open>Paths\<close>

definition join_paths :: "cstr \<Rightarrow> cstr \<Rightarrow> string" where
  "join_paths a b =
     (let a_str = (case a of Some s \<Rightarrow> s | None \<Rightarrow> []); b_str = (case b of Some s \<Rightarrow> s | None \<Rightarrow> [])
      in if b_str \<noteq> []
         then (if a_str \<noteq> [] \<and> last a_str \<noteq> CHR ''/'' \<and> hd b_str \<noteq> CHR ''/''
               then a_str @ ''/'' @ b_str else a_str @ b_str)
         else a_str)"

section \<open>Device paths\<close>

definition is_prefix_ignorecase :: "string \<Rightarrow> string \<Rightarrow> bool" where
  "is_prefix_ignorecase str pre = strncaseeq str pre (length pre)"

text \<open>The UUID is looked up from the position after \<^verbatim>\<open>uuid\<close>, with the equals sign.\<close>

definition parse_device_string :: "device_handler \<Rightarrow> string \<Rightarrow> nat option h_m" where
  "parse_device_string h devstr =
     (if is_prefix_ignorecase devstr ''uuid='' then device_lookup_by_uuid h (Some (drop (length ''uuid'') devstr))
      else if is_prefix_ignorecase devstr ''label='' then device_lookup_by_label h (Some (drop (length ''label='') devstr))
      else device_lookup_by_name h devstr)"

definition resolve_resource_against_device :: "discover_device \<Rightarrow> cstr \<Rightarrow> resource h_m" where
  "resolve_resource_against_device dev path =
     map_sum Url_error Resolved (pb_url_parse (Some (join_paths (dd_mount_path dev) path)))"

text \<open>A URL that cannot be parsed is a NULL pointer, of which the scheme is read.\<close>

definition create_devpath_resource :: "discover_device \<Rightarrow> string \<Rightarrow> resource h_m" where
  "create_devpath_resource orig_device devpath =
     (case strchr devpath CHR '':'' of
        None \<Rightarrow> resolve_resource_against_device orig_device (Some devpath)
      | Some pos \<Rightarrow>
          if take 2 (drop (Suc pos) devpath) = ''//''
          then
            hbind (map_sum Url_error id (pb_url_parse (Some devpath))) (\<lambda>parsed.
            case parsed of
              None \<Rightarrow> Inl Null_pointer
            | Some url \<Rightarrow>
                if url_scheme url \<noteq> pb_url_file then Inr (Resolved (Some url))
                else resolve_resource_against_device orig_device (url_path url))
          else Inr (Unresolved (take pos devpath) (drop (Suc pos) devpath)))"

definition resolve_devpath_resource :: "device_handler \<Rightarrow> resource \<Rightarrow> resource h_m" where
  "resolve_devpath_resource h res =
     (case res of
        Resolved u \<Rightarrow> Inl Assertion
      | Unresolved devstr path \<Rightarrow>
          hbind (parse_device_string h devstr) (\<lambda>found.
          case found of
            None \<Rightarrow> Inr res
          | Some d \<Rightarrow> hbind (get_dev h d) (\<lambda>dev. resolve_resource_against_device dev (Some path))))"

definition create_url_resource :: "pb_url option \<Rightarrow> resource" where
  "create_url_resource url = Resolved url"

section \<open>GRUB paths\<close>

definition grub2_lookup_device :: "device_handler \<Rightarrow> cstr \<Rightarrow> nat option h_m" where
  "grub2_lookup_device h desc =
     (if desc = None \<or> desc = Some [] then Inr None
      else
        hbind (device_lookup_by_id h desc) (\<lambda>dev.
        if dev \<noteq> None then Inr dev else device_lookup_by_uuid h desc))"

record grub2_file =
  gf_dev :: cstr
  gf_path :: cstr

text \<open>Both members NULL is an error.\<close>

definition grub2_parse_file :: "cstr \<Rightarrow> grub2_file option" where
  "grub2_parse_file str =
     (case str of
        None \<Rightarrow> None
      | Some s \<Rightarrow>
          if take 1 s \<noteq> ''('' then Some \<lparr>gf_dev = None, gf_path = Some s\<rparr>
          else
            (case strchr s CHR '')'' of
               None \<Rightarrow> None
             | Some pos \<Rightarrow>
                 (let file = \<lparr>gf_dev = (if pos - 1 \<noteq> 0 then Some (take (pos - 1) (drop 1 s)) else None),
                              gf_path = (if drop (Suc pos) s \<noteq> [] then Some (drop (Suc pos) s) else None)\<rparr>
                  in if gf_dev file = None \<and> gf_path file = None then None else Some file)))"

text \<open>\<open>root\<close> is the value of the script's variable, \<open>d\<close> the device of the context.\<close>

definition create_grub2_resource ::
    "device_handler \<Rightarrow> nat \<Rightarrow> cstr \<Rightarrow> string \<Rightarrow> resource option h_m" where
  "create_grub2_resource h d root path =
     hbind (if strstr path ''://'' then map_sum Url_error id (pb_url_parse (Some path)) else Inr None) (\<lambda>url.
     case url of
       Some u \<Rightarrow> Inr (Some (create_url_resource (Some u)))
     | None \<Rightarrow>
         (case grub2_parse_file (Some path) of
            None \<Rightarrow> Inr None
          | Some file \<Rightarrow>
              (case gf_path file of
                 None \<Rightarrow> Inr None
               | Some p \<Rightarrow>
                   (let fdev = (if gf_dev file = None \<and> root \<noteq> None \<and> root \<noteq> Some [] then root else gf_dev file)
                    in hbind (if fdev \<noteq> None then grub2_lookup_device h fdev else Inr (Some d)) (\<lambda>found.
                       case found of
                         Some r \<Rightarrow>
                           hbind (get_dev h r) (\<lambda>dev.
                           hbind (resolve_resource_against_device dev (Some p)) (\<lambda>res. Inr (Some res)))
                       | None \<Rightarrow> Inr (Some (Unresolved (case fdev of Some s \<Rightarrow> s | None \<Rightarrow> []) p)))))))"

definition resolve_grub2_resource :: "device_handler \<Rightarrow> resource \<Rightarrow> resource h_m" where
  "resolve_grub2_resource h res =
     (case res of
        Resolved u \<Rightarrow> Inl Assertion
      | Unresolved dev path \<Rightarrow>
          hbind (grub2_lookup_device h (Some dev)) (\<lambda>found.
          case found of
            None \<Rightarrow> Inr res
          | Some d \<Rightarrow> hbind (get_dev h d) (\<lambda>dev. resolve_resource_against_device dev (Some path))))"

section \<open>The registered parsers\<close>

text \<open>The \<^verbatim>\<open>resolve_resource\<close> member of each parser; the PXE parser and the user events have none.\<close>

definition parser_resolvers :: resolvers where
  "parser_resolvers name =
     (if name \<in> {''kboot'', ''yaboot'', ''syslinux'', ''native''} then Some resolve_devpath_resource
      else if name = ''grub2'' then Some resolve_grub2_resource else None)"

lemma resolve_against_safe: "safely (\<lambda>_. True) (resolve_resource_against_device dev path)"
  by (cases "pb_url_parse (Some (join_paths (dd_mount_path dev) path))")
    (simp_all add: resolve_resource_against_device_def)

text \<open>A lookup of any kind finds nothing or a live device.\<close>

definition found_live :: "device_handler \<Rightarrow> nat option \<Rightarrow> bool" where
  "found_live h found \<longleftrightarrow> (\<forall>d. found = Some d \<longrightarrow> d \<in> set (h_devices h) \<and> h_dev h d \<noteq> None)"

lemma device_lookup_live:
  "handler_ok X h \<Longrightarrow> safely (found_live h) (device_lookup h match str)"
  by (erule safely_mono[OF device_lookup_safe]) (auto simp: found_live_def split: option.splits)

lemma parse_device_string_live:
  "handler_ok X h \<Longrightarrow> safely (found_live h) (parse_device_string h s)"
  by (simp add: parse_device_string_def device_lookup_live device_lookup_by_uuid_def device_lookup_by_label_def
      device_lookup_by_name_def device_lookup_by_id_def)

lemma grub2_lookup_device_live:
  assumes "handler_ok X h"
  shows "safely (found_live h) (grub2_lookup_device h s)"
  unfolding grub2_lookup_device_def device_lookup_by_uuid_def device_lookup_by_id_def
  using device_lookup_live[OF assms]
  by (auto simp: found_live_def[of h None] split: if_splits intro!: safely_hbind[OF device_lookup_live[OF assms]] split: if_split)

lemma resolve_found_safe:
  assumes "safely (found_live h) m"
  shows "safely (\<lambda>_. True) (hbind m (\<lambda>found. case found of None \<Rightarrow> Inr res
     | Some d \<Rightarrow> hbind (get_dev h d) (\<lambda>dev. resolve_resource_against_device dev path)))"
  by (rule safely_hbind[OF assms]) (auto simp: found_live_def resolve_against_safe split: option.split)

interpretation parser_table: resolver parser_resolvers
proof
  fix name f X h res
  assume "parser_resolvers name = Some f" and h: "handler_ok X h"
  then have "f = resolve_devpath_resource \<or> f = resolve_grub2_resource"
    by (auto simp: parser_resolvers_def split: if_splits)
  then show "safely (\<lambda>_. True) (f h res)"
    using resolve_found_safe[OF parse_device_string_live[OF h]] resolve_found_safe[OF grub2_lookup_device_live[OF h]]
    by (auto simp: resolve_devpath_resource_def resolve_grub2_resource_def split: resource.split)
qed

end
