(* ===== verification/Discovery.thy ===== *)
theory Discovery
  imports Resource
begin

text \<open>
  The contract between the device handler and the parsers: what a parser may do to the context and the
  handler, and that discovery of a device with any parsers that keep to it, \<^verbatim>\<open>device_handler_discover\<close> and
  \<^verbatim>\<open>device_handler_dhcp\<close>, uses no freed memory and keeps the handler consistent.
\<close>

section \<open>Contexts\<close>

text \<open>What a context relies on: the devices with their UUIDs and options, and the options' devices.\<close>

definition same_view :: "device_handler \<Rightarrow> device_handler \<Rightarrow> bool" where
  "same_view h h' \<longleftrightarrow>
     h_devices h' = h_devices h \<and> h_unresolved h' = h_unresolved h \<and>
     (\<forall>d. map_option (\<lambda>x. (dd_uuid x, dd_boot_options x)) (h_dev h' d) = map_option (\<lambda>x. (dd_uuid x, dd_boot_options x)) (h_dev h d)) \<and>
     (\<forall>r x. h_opt h r = Some x \<longrightarrow> (\<exists>y. h_opt h' r = Some y \<and> dbo_device y = dbo_device x))"

lemma same_view_refl [simp]: "same_view h h"
  by (simp add: same_view_def)

lemma same_view_trans: "same_view a b \<Longrightarrow> same_view b c \<Longrightarrow> same_view a c"
  unfolding same_view_def by (metis (no_types, lifting))

lemma same_view_dev_eq:
  "same_view h h' \<Longrightarrow> map_option (\<lambda>x. (dd_uuid x, dd_boot_options x)) (h_dev h' d) = map_option (\<lambda>x. (dd_uuid x, dd_boot_options x)) (h_dev h d)"
  by (simp add: same_view_def)

lemma same_view_dev: "same_view h h' \<Longrightarrow> h_dev h d = Some x \<Longrightarrow>
    \<exists>y. h_dev h' d = Some y \<and> dd_uuid y = dd_uuid x \<and> dd_boot_options y = dd_boot_options x"
  using same_view_dev_eq[of h h' d] by (cases "h_dev h' d") auto

lemma same_view_dev_back: "same_view h h' \<Longrightarrow> h_dev h' d = Some y \<Longrightarrow>
    \<exists>x. h_dev h d = Some x \<and> dd_uuid y = dd_uuid x \<and> dd_boot_options y = dd_boot_options x"
  using same_view_dev_eq[of h h' d] by (cases "h_dev h d") auto

lemma loose_view:
  assumes "same_view h h'" "loose h d r"
  shows "loose h' d r"
proof -
  obtain x where x: "h_opt h r = Some x" "dbo_device x = d" using assms(2) by (auto simp: loose_def)
  then have "\<exists>y. h_opt h' r = Some y \<and> dbo_device y = d" using assms(1) by (auto simp: same_view_def)
  moreover have "r \<notin> set (dd_boot_options dev)" if "h_dev h' d' = Some dev" for d' dev
    using same_view_dev_back[OF assms(1) that] assms(2) by (auto simp: loose_def)
  ultimately show ?thesis using assms by (simp add: loose_def same_view_def)
qed

lemma context_ok_view:
  assumes "same_view h h'" "context_ok h ctx"
  shows "context_ok h' ctx"
proof -
  have ds: "h_devices h' = h_devices h" using assms(1) by (simp add: same_view_def)
  obtain dev where dev: "h_dev h (ctx_device ctx) = Some dev" and u: "if ctx_device ctx \<in> set (h_devices h) then dd_uuid dev \<noteq> None
         else \<forall>d \<in> set (h_devices h). \<forall>x. h_dev h d = Some x \<longrightarrow> dd_uuid x = dd_uuid dev \<longrightarrow> dd_uuid dev = None"
    using assms(2) by (auto simp: context_ok_def)
  obtain dev' where dev': "h_dev h' (ctx_device ctx) = Some dev'" "dd_uuid dev' = dd_uuid dev"
    using same_view_dev[OF assms(1) dev] by blast
  have "if ctx_device ctx \<in> set (h_devices h') then dd_uuid dev' \<noteq> None
     else \<forall>d \<in> set (h_devices h'). \<forall>x. h_dev h' d = Some x \<longrightarrow> dd_uuid x = dd_uuid dev' \<longrightarrow> dd_uuid dev' = None"
    using u same_view_dev_back[OF assms(1)] unfolding ds dev'(2) by (metis (no_types, lifting))
  then show ?thesis using assms(2) dev'(1) loose_view[OF assms(1)] by (simp add: context_ok_def)
qed

lemma context_ok_parser [simp]: "context_ok h (ctx\<lparr>ctx_parser := p\<rparr>) = context_ok h ctx"
  by (simp add: context_ok_def)

lemma same_view_put_dev:
  "h_dev h d = Some x \<Longrightarrow> dd_uuid y = dd_uuid x \<Longrightarrow> dd_boot_options y = dd_boot_options x \<Longrightarrow> same_view h (put_dev d y h)"
  by (simp add: same_view_def put_dev_def)

lemma same_view_put_opt:
  "h_opt h r = Some x \<Longrightarrow> dbo_device y = dbo_device x \<Longrightarrow> same_view h (put_opt r y h)"
  by (simp add: same_view_def put_opt_def)

lemma same_view_status [simp]: "same_view h (device_handler_status t m h)" "same_view h (notify n h)"
  by (simp_all add: same_view_def device_handler_status_def notify_def)

lemma same_view_requery:
  "h_dev h d = Some dev \<Longrightarrow> safely (same_view h) (device_handler_start_requery_timeout d timeout h)"
  by (simp add: device_handler_start_requery_timeout_def waiter_register_timeout_def same_view_def put_dev_def)

section \<open>Faults\<close>

text \<open>A computation that does not end with a given fault, and whose result satisfies a predicate.\<close>

definition keeping :: "h_fault \<Rightarrow> ('a \<Rightarrow> bool) \<Rightarrow> 'a h_m \<Rightarrow> bool" where
  "keeping bad P m = (case m of Inr x \<Rightarrow> P x | Inl e \<Rightarrow> e \<noteq> bad)"

lemma keeping_Inr [simp]: "keeping bad P (Inr x) \<longleftrightarrow> P x"
  by (simp add: keeping_def)

lemma keeping_Inl [simp]: "keeping bad P (Inl e) \<longleftrightarrow> e \<noteq> bad"
  by (simp add: keeping_def)

lemma keeping_hbind: "keeping bad Q m \<Longrightarrow> (\<And>x. Q x \<Longrightarrow> keeping bad P (k x)) \<Longrightarrow> keeping bad P (hbind m k)"
  by (cases m) (simp_all add: hbind_def)

lemma keeping_mono: "keeping bad Q m \<Longrightarrow> (\<And>x. Q x \<Longrightarrow> P x) \<Longrightarrow> keeping bad P m"
  by (cases m) simp_all

lemma safely_keeping: "safely P m \<longleftrightarrow> keeping Use_after_free P m"
  by (simp add: safely_def keeping_def)

lemma keeping_True_hbind: "keeping bad (\<lambda>_. True) m \<Longrightarrow> (\<And>x. keeping bad P (k x)) \<Longrightarrow> keeping bad P (hbind m k)"
  by (erule keeping_hbind)

section \<open>Parsers\<close>

text \<open>A parser leaves a consistent handler consistent and a context that can be committed as such.\<close>

definition parsed_ok :: "(nat + nat) set \<Rightarrow> discover_context \<times> device_handler \<Rightarrow> bool" where
  "parsed_ok X = (\<lambda>(ctx, h). handler_ok X h \<and> context_ok h ctx)"

lemma parsed_ok_pair [simp]: "parsed_ok X (ctx, h) \<longleftrightarrow> handler_ok X h \<and> context_ok h ctx"
  by (simp add: parsed_ok_def)

locale parser =
  fixes parse :: parser_fn
  assumes parse_keeps: "handler_ok X h \<Longrightarrow> context_ok h ctx \<Longrightarrow> safely (parsed_ok X) (parse ctx h)"

locale discovery = resolver rs for rs +
  fixes parsers :: "(string \<times> parser_fn) list"
  assumes parsers_keep: "(name, parse) \<in> set parsers \<Longrightarrow> parser parse"
begin

lemma iterate_keeps:
  "set ps \<subseteq> set parsers \<Longrightarrow> handler_ok X h \<Longrightarrow> context_ok h ctx \<Longrightarrow> safely (parsed_ok X) (iterate_parsers ps ctx h)"
proof (induction ps arbitrary: ctx h)
  case (Cons p ps)
  obtain name parse where p: "p = (name, parse)" by force
  have "safely (parsed_ok X) (parse (ctx\<lparr>ctx_parser := name\<rparr>) h)"
    using Cons.prems p by (intro parser.parse_keeps[OF parsers_keep[of name]]) auto
  then show ?case unfolding p iterate_parsers.simps
    by (rule safely_hbind) (use Cons in auto)
qed simp

lemma parse_and_commit_safe:
  assumes "handler_ok X h" "context_ok h ctx"
  shows "safely (handler_ok X) (parse_and_commit parsers rs env ctx h)"
  unfolding parse_and_commit_def
  by (rule safely_hbind[OF iterate_keeps[OF subset_refl assms]]) (auto intro: commit_safe)

lemma discover_safe:
  assumes "handler_ok X h" "context_ok h (device_handler_discover_context_create d None)"
  shows "safely (handler_ok X) (device_handler_discover parsers rs env mount d h)"
proof -
  obtain dev where dev: "h_dev h d = Some dev"
    using assms(2) by (auto simp: context_ok_def device_handler_discover_context_create_def)
  let ?s = "device_handler_status STATUS_INFO (Processing_device (dev_id (dd_device dev)) (dev_type (dd_device dev))) h"
  let ?h = "\<lambda>path. put_dev d (dev\<lparr>dd_mount_path := Some path\<rparr>) ?s"
  have live: "h_dev ?s d = Some dev" using dev by (simp add: device_handler_status_def notify_def)
  have "handler_ok X (?h path)" for path
    using handler_ok_put_dev[of X ?s d dev] assms(1) live by simp
  moreover have "context_ok (?h path) (device_handler_discover_context_create d None)" for path
    by (rule context_ok_view[OF same_view_trans[OF same_view_status(1) same_view_put_dev[OF live]] assms(2)]) simp_all
  ultimately show ?thesis using dev assms(1)
    by (auto simp: device_handler_discover_def Let_def split: option.split
        intro!: safely_hbind[OF parse_and_commit_safe] safely_hbind[OF process_boot_option_queue_safe])
qed

lemma dhcp_safe:
  assumes "handler_ok {} h" "context_ok h (device_handler_discover_context_create d (Some event))"
  shows "safely (handler_ok {}) (device_handler_dhcp parsers rs env d event h)"
proof -
  obtain dev where dev: "h_dev h d = Some dev"
    using assms(2) by (auto simp: context_ok_def device_handler_discover_context_create_def)
  have "safely (handler_ok {}) (hbind (device_handler_start_requery_timeout d (event_requery_timeout (Some event))
          (device_handler_status STATUS_INFO (Processing_dhcp i ip) h))
        (parse_and_commit parsers rs env (device_handler_discover_context_create d (Some event))))" (is "safely _ (hbind ?r _)") for i ip
  proof (rule safely_hbind)
    let ?s = "device_handler_status STATUS_INFO (Processing_dhcp i ip) h"
    have live: "h_dev ?s d = Some dev" using dev by (simp add: device_handler_status_def notify_def)
    show "safely (\<lambda>h'. handler_ok {} h' \<and> same_view h h') ?r"
      using start_requery_safe[OF _ live, of "event_requery_timeout (Some event)"]
        same_view_requery[OF live, of "event_requery_timeout (Some event)"] assms(1)
      by (cases ?r) (auto intro: same_view_trans[OF same_view_status(1)])
  qed (use assms(2) in \<open>auto intro!: parse_and_commit_safe intro: context_ok_view\<close>)
  then show ?thesis using dev by (simp add: device_handler_dhcp_def Let_def)
qed

end

section \<open>Adding an option\<close>

text \<open>What every parser does for an entry: make an option for the context's device, fill it in and add it to the context.\<close>

lemma create_view: "handler_ok X h \<Longrightarrow> same_view h (snd (discover_boot_option_create d h))"
  by (auto simp: same_view_def discover_boot_option_create_def handler_ok_def fresh_ok_def)

text \<open>\<open>pending h ctx r\<close>: option \<open>r\<close> has been made for the context but is not yet in it.\<close>

definition pending :: "device_handler \<Rightarrow> discover_context \<Rightarrow> nat \<Rightarrow> bool" where
  "pending h ctx r \<longleftrightarrow> loose h (ctx_device ctx) r \<and> r \<notin> set (ctx_boot_options ctx)"

lemma create_keeps:
  assumes "handler_ok X h" "context_ok h ctx" "discover_boot_option_create (ctx_device ctx) h = (r, h')"
  shows "handler_ok X h'" "context_ok h' ctx" "pending h' ctx r"
proof -
  show "handler_ok X h'" using discover_boot_option_create_safe(1)[OF assms(1), of "ctx_device ctx"] assms(3) by simp
  show "context_ok h' ctx" using context_ok_view[OF create_view[OF assms(1)] assms(2), of "ctx_device ctx"] assms(3) by simp
  have "r = h_next h" using assms(3) by (auto simp: discover_boot_option_create_def)
  then have "\<not> loose h d r" for d using assms(1) by (simp add: loose_def handler_ok_def fresh_ok_def)
  then have "r \<notin> set (ctx_boot_options ctx)" using assms(2) by (auto simp: context_ok_def)
  then show "pending h' ctx r"
    using discover_boot_option_create_safe(2)[OF assms(1), of "ctx_device ctx"] assms(3) by (simp add: pending_def)
qed

lemma pending_view: "same_view h h' \<Longrightarrow> pending h ctx r \<Longrightarrow> pending h' ctx r"
  by (auto simp: pending_def intro: loose_view)

lemma fill_keeps:
  assumes "handler_ok X h" "context_ok h ctx" "h_opt h r = Some opt" "dbo_device opt' = dbo_device opt"
  shows "handler_ok X (put_opt r opt' h)" "context_ok (put_opt r opt' h) ctx"
    "pending h ctx r' \<Longrightarrow> pending (put_opt r opt' h) ctx r'"
  using handler_ok_put_opt[OF assms(1,3,4)] context_ok_view[OF same_view_put_opt[OF assms(3,4)] assms(2)]
    pending_view[OF same_view_put_opt[OF assms(3,4)]] by simp_all

lemma pending_live: "pending h ctx r \<Longrightarrow> \<exists>opt. h_opt h r = Some opt \<and> dbo_device opt = ctx_device ctx"
  by (auto simp: pending_def loose_def)

lemma add_keeps:
  assumes "handler_ok X h" "context_ok h ctx" "pending h ctx r"
  shows "safely (parsed_ok X) (discover_context_add_boot_option ctx r h)"
proof -
  obtain opt where opt: "h_opt h r = Some opt" using pending_live[OF assms(3)] by blast
  note fill = fill_keeps[OF assms(1,2) opt, of "opt\<lparr>dbo_source := ctx_parser ctx\<rparr>"]
  have "context_ok (put_opt r (opt\<lparr>dbo_source := ctx_parser ctx\<rparr>) h) (ctx\<lparr>ctx_boot_options := ctx_boot_options ctx @ [r]\<rparr>)"
    using fill(2) fill(3)[OF _ assms(3)] by (auto simp: context_ok_def pending_def)
  then show ?thesis using fill(1) opt by (simp add: discover_context_add_boot_option_def)
qed

lemma drop_keeps:
  assumes "handler_ok X h" "context_ok h ctx" "pending h ctx r"
  shows "handler_ok X (free_opt r h)" "context_ok (free_opt r h) ctx"
proof -
  show "handler_ok X (free_opt r h)"
    using assms(3) by (intro handler_ok_free_opt[OF assms(1)]) (auto simp: pending_def loose_def)
  show "context_ok (free_opt r h) ctx"
    using assms(2,3) by (auto simp: context_ok_def pending_def loose_def free_opt_def)
qed

text \<open>The three in a row.\<close>

lemma add_option_keeps:
  assumes "handler_ok X h" "context_ok h ctx" "discover_boot_option_create (ctx_device ctx) h = (r, h')"
    "h_opt h' r = Some opt" "dbo_device opt' = dbo_device opt"
  shows "safely (parsed_ok X) (discover_context_add_boot_option ctx r (put_opt r opt' h'))"
  using create_keeps[OF assms(1-3)] fill_keeps[OF _ _ assms(4,5)] by (blast intro: add_keeps)

end
