(* ===== verification/Parser_Conf.thy ===== *)
theory Parser_Conf
  imports Discovery
begin

text \<open>
  Configuration files of name and value pairs, \<^verbatim>\<open>discover/parser-conf.c\<close>, and the parser for
  \<^verbatim>\<open>kboot.conf\<close>, \<^verbatim>\<open>discover/kboot-parser.c\<close>, with what \<^verbatim>\<open>discover/parser.c\<close> gives it.

  The functions work in place on a buffer.  Every piece they look at follows a terminator that was written
  before, or is the beginning of the buffer; \<open>start\<close> marks the latter, where the byte before does not
  belong to the buffer.
\<close>

section \<open>Pairs\<close>

definition conf_blank :: "char \<Rightarrow> bool" where
  "conf_blank c \<longleftrightarrow> c = CHR 0x22 \<or> c = CHR 0x27 \<or> isspace c"

text \<open>In a piece of blanks only, the backward scan starts before the piece: at the beginning of a buffer it
  reads outside.\<close>

definition conf_strip_str :: "bool \<Rightarrow> string \<Rightarrow> cstr h_m" where
  "conf_strip_str start s =
     (if s = [] then Inr None
      else
        (let s = dropWhile conf_blank s
         in if s = [] then (if start then Inl Out_of_bounds else Inr None)
            else Inr (Some (rev (dropWhile conf_blank (rev s))))))"

definition conf_replace_char :: "string \<Rightarrow> char \<Rightarrow> char \<Rightarrow> string" where
  "conf_replace_char s from to = map (\<lambda>c. if c = from then to else c) s"

text \<open>The name, the value and what is left after the terminator.\<close>

definition conf_get_pair :: "bool \<Rightarrow> string \<Rightarrow> char \<Rightarrow> char \<Rightarrow> (cstr \<times> cstr \<times> string option) h_m" where
  "conf_get_pair start str delimiter terminator =
     (let (piece, rest) = (case strchr str terminator of
            Some n \<Rightarrow> (take n str, Some (drop (Suc n) str))
          | None \<Rightarrow> (str, None))
      in hbind (conf_strip_str start (conf_replace_char piece CHR 0x09 CHR '' '')) (\<lambda>stripped.
         case stripped of
           None \<Rightarrow> Inr (None, None, rest)
         | Some s \<Rightarrow>
             (case strchr s delimiter of
                None \<Rightarrow> hbind (conf_strip_str start s) (\<lambda>value. Inr (None, value, rest))
              | Some n \<Rightarrow>
                  hbind (conf_strip_str start (take n s)) (\<lambda>name.
                  hbind (conf_strip_str False (drop (Suc n) s)) (\<lambda>value. Inr (name, value, rest))))))"

definition conf_get_pair_equal :: "bool \<Rightarrow> string \<Rightarrow> char \<Rightarrow> (cstr \<times> cstr \<times> string option) h_m" where
  "conf_get_pair_equal start str terminator = conf_get_pair start str CHR ''='' terminator"

definition conf_get_pair_space :: "bool \<Rightarrow> string \<Rightarrow> char \<Rightarrow> (cstr \<times> cstr \<times> string option) h_m" where
  "conf_get_pair_space start str terminator = conf_get_pair start str CHR '' '' terminator"

text \<open>\<^verbatim>\<open>streq\<close> of the parsers ignores the case.\<close>

lemma strcaseeq_commute: "strcaseeq a b = strcaseeq b a"
  by (auto simp: strcaseeq_def)

lemma strcaseeq_self [simp]: "strcaseeq a a"
  by (simp add: strcaseeq_def)

definition conf_param_in_list :: "string list \<Rightarrow> string \<Rightarrow> bool" where
  "conf_param_in_list list param = list_ex (\<lambda>s. strcaseeq s param) list"

section \<open>Global options\<close>

definition conf_init_global_options :: "(string \<times> cstr) list \<Rightarrow> (string \<times> cstr) list" where
  "conf_init_global_options = map (\<lambda>(name, value). (name, None))"

text \<open>\<open>None\<close>: the name is not a global option.\<close>

fun conf_set_global_option :: "string \<Rightarrow> cstr \<Rightarrow> (string \<times> cstr) list \<Rightarrow> (string \<times> cstr) list option" where
  "conf_set_global_option name value [] = None"
| "conf_set_global_option name value (o' # opts) =
     (if strcaseeq name (fst o') then Some ((fst o', value) # opts)
      else map_option (\<lambda>opts. o' # opts) (conf_set_global_option name value opts))"

definition conf_global :: "(string \<times> cstr) list \<Rightarrow> string \<Rightarrow> cstr option" where
  "conf_global opts name = map_option snd (find (\<lambda>o'. strcaseeq name (fst o')) opts)"

definition conf_get_global_option :: "(string \<times> cstr) list \<Rightarrow> string \<Rightarrow> cstr h_m" where
  "conf_get_global_option opts name = (case conf_global opts name of None \<Rightarrow> Inl Assertion | Some v \<Rightarrow> Inr v)"

section \<open>The main loop\<close>

lemma hbind_cong [fundef_cong]: "m = m' \<Longrightarrow> (\<And>x. m' = Inr x \<Longrightarrow> k x = k' x) \<Longrightarrow> hbind m k = hbind m' k'"
  by (cases m') (simp_all add: hbind_def)

lemma conf_get_pair_shorter: "conf_get_pair start str delimiter terminator = Inr (name, value, Some rest) \<Longrightarrow> length rest < length str"
  by (auto simp: conf_get_pair_def hbind_def split: option.splits sum.splits dest: strchr_Some)

definition is_comment :: "string \<Rightarrow> bool" where
  "is_comment s \<longleftrightarrow> take 1 s = ''#''"

text \<open>The parser's \<^verbatim>\<open>get_pair\<close> splits at the equals sign or the space; \<open>process\<close> is its \<^verbatim>\<open>process_pair\<close>.\<close>

function conf_parse_buf :: "char \<Rightarrow> (cstr \<Rightarrow> string \<Rightarrow> 's \<Rightarrow> 's h_m) \<Rightarrow> bool \<Rightarrow> string \<Rightarrow> 's \<Rightarrow> 's h_m" where
  "conf_parse_buf delimiter process start pos st =
     hbind (conf_get_pair start pos delimiter CHR 0x0A) (\<lambda>(name, value, rest).
     hbind (case value of
              None \<Rightarrow> Inr st
            | Some v \<Rightarrow>
                if (case name of Some n \<Rightarrow> is_comment n | None \<Rightarrow> False) \<or> is_comment v then Inr st
                else process name v st) (\<lambda>st.
     case rest of None \<Rightarrow> Inr st | Some pos \<Rightarrow> conf_parse_buf delimiter process False pos st))"
  by pat_completeness auto

termination conf_parse_buf
  by (relation "measure (\<lambda>(d, p, start, pos, st). length pos)") (auto dest: conf_get_pair_shorter)

declare conf_parse_buf.simps [simp del]

section \<open>Files\<close>

text \<open>The files of a device by their paths below its root, with what \<^verbatim>\<open>stat\<close> and reading tell; the empty path is the root
  directory.  \<open>df_data = None\<close>: the file cannot be read.  Files can only be had from a mounted device.\<close>

record device_file =
  df_ino :: nat
  df_is_dir :: bool
  df_size :: nat
  df_data :: "string option"

type_synonym device_files = "string \<Rightarrow> device_file option"

definition parser_stat_path :: "device_files \<Rightarrow> discover_device \<Rightarrow> string \<Rightarrow> device_file option" where
  "parser_stat_path fs dev path = (if dd_mount_path dev = None then None else fs path)"

definition parser_request_file :: "device_files \<Rightarrow> discover_device \<Rightarrow> string \<Rightarrow> string option" where
  "parser_request_file fs dev filename = (if dd_mount_path dev = None then None else Option.bind (fs filename) df_data)"

definition parser_is_unique :: "device_files \<Rightarrow> discover_device \<Rightarrow> string \<Rightarrow> nat list \<Rightarrow> bool \<times> nat list" where
  "parser_is_unique fs dev filename found =
     (case parser_stat_path fs dev filename of
        None \<Rightarrow> (False, found)
      | Some f \<Rightarrow> if df_ino f \<in> set found then (False, found) else (True, df_ino f # found))"

section \<open>The kboot parser\<close>

definition kboot_global_options :: "(string \<times> cstr) list" where
  "kboot_global_options = [(''dtb'', None), (''initrd'', None), (''root'', None), (''video'', None), (''default'', None)]"

definition kboot_conf_files :: "string list" where
  "kboot_conf_files =
     [''/kboot.conf'', ''/kboot.cnf'', ''/etc/kboot.conf'', ''/etc/kboot.cnf'', ''/boot/kboot.conf'', ''/boot/kboot.cnf'',
      ''/KBOOT.CONF'', ''/KBOOT.CNF'', ''/ETC/KBOOT.CONF'', ''/ETC/KBOOT.CNF'', ''/BOOT/KBOOT.CONF'', ''/BOOT/KBOOT.CNF'']"

definition kboot_ignored_names :: "string list" where
  "kboot_ignored_names = [''delay'', ''message'', ''timeout'']"

text \<open>The command line as it is read: the arguments so far, and the files that were named.\<close>

record kboot_line =
  kl_args :: string
  kl_initrd :: cstr
  kl_root :: cstr
  kl_dtb :: cstr

definition kboot_arg :: "cstr \<Rightarrow> cstr \<Rightarrow> kboot_line \<Rightarrow> kboot_line" where
  "kboot_arg cl_name cl_value l =
     (case cl_name of
        None \<Rightarrow> l\<lparr>kl_args := kl_args l @ fmt_s cl_value @ '' ''\<rparr>
      | Some n \<Rightarrow>
          if strcaseeq n ''initrd'' then l\<lparr>kl_initrd := cl_value\<rparr>
          else if strcaseeq n ''root'' then l\<lparr>kl_root := cl_value\<rparr>
          else if strcaseeq n ''dtb'' then l\<lparr>kl_dtb := cl_value\<rparr>
          else l\<lparr>kl_args := kl_args l @ n @ ''='' @ fmt_s cl_value @ '' ''\<rparr>)"

function kboot_args :: "string \<Rightarrow> kboot_line \<Rightarrow> kboot_line h_m" where
  "kboot_args pos l =
     hbind (conf_get_pair_equal False pos CHR '' '') (\<lambda>(cl_name, cl_value, rest).
     let l = kboot_arg cl_name cl_value l
     in case rest of None \<Rightarrow> Inr l | Some pos \<Rightarrow> kboot_args pos l)"
  by pat_completeness auto

termination kboot_args
  by (relation "measure (\<lambda>(pos, l). length pos)") (auto simp: conf_get_pair_equal_def dest: conf_get_pair_shorter)

declare kboot_args.simps [simp del]

text \<open>\<^verbatim>\<open>conf_strip_str\<close> of an allocated string whose result is not used: only the end is cut off in place.\<close>

definition strip_in_place :: "string \<Rightarrow> string h_m" where
  "strip_in_place s =
     hbind (conf_strip_str True s) (\<lambda>_.
     Inr (rev (dropWhile conf_blank (rev s))))"

definition optional_resource :: "discover_device \<Rightarrow> cstr \<Rightarrow> resource option h_m" where
  "optional_resource dev path =
     (case path of None \<Rightarrow> Inr None | Some p \<Rightarrow> hbind (create_devpath_resource dev p) (\<lambda>r. Inr (Some r)))"

text \<open>The option of a line, with the resources and the description.\<close>

definition kboot_option ::
    "(string \<times> cstr) list \<Rightarrow> discover_device \<Rightarrow> string \<Rightarrow> string \<Rightarrow> kboot_line \<Rightarrow> discover_boot_option \<Rightarrow> discover_boot_option h_m" where
  "kboot_option globals dev name img l d_opt =
     hbind (create_devpath_resource dev img) (\<lambda>boot_image.
     hbind (create_devpath_resource dev (img @ ''.cmdline.sig'')) (\<lambda>sig.
     let boot_args = (case kl_root l of Some root \<Rightarrow> ''root='' @ root @ '' '' @ kl_args l | None \<Rightarrow> kl_args l);
         description = img @ '' '' @ boot_args
     in hbind (optional_resource dev (kl_initrd l)) (\<lambda>initrd.
        let description = (case kl_initrd l of Some i \<Rightarrow> description @ '' initrd='' @ i | None \<Rightarrow> description)
        in hbind (optional_resource dev (kl_dtb l)) (\<lambda>dtb.
           let description = (case kl_dtb l of Some d \<Rightarrow> description @ '' dtb='' @ d | None \<Rightarrow> description)
           in hbind (conf_get_global_option globals ''default'') (\<lambda>default.
              hbind (strip_in_place boot_args) (\<lambda>boot_args.
              hbind (strip_in_place description) (\<lambda>description.
              Inr (d_opt\<lparr>dbo_boot_image := Some boot_image, dbo_args_sig_file := Some sig, dbo_initrd := initrd, dbo_dtb := dtb,
                 dbo_option := (dbo_option d_opt)
                   \<lparr>opt_id := Some (fmt_s (dev_id (dd_device dev)) @ ''#'' @ name), opt_name := Some name,
                    opt_boot_args := Some boot_args, opt_description := Some description,
                    opt_is_default := (case default of Some d \<Rightarrow> strcaseeq name d | None \<Rightarrow> False)\<rparr>\<rparr>))))))))"

type_synonym conf_state = "(string \<times> cstr) list \<times> discover_context \<times> device_handler"

text \<open>The kernel and its command line in a value.\<close>

definition kboot_split :: "(string \<times> cstr) list \<Rightarrow> string \<Rightarrow> (string \<times> kboot_line) h_m" where
  "kboot_split globals value =
     hbind (conf_get_global_option globals ''initrd'') (\<lambda>initrd.
     hbind (conf_get_global_option globals ''root'') (\<lambda>root.
     hbind (conf_get_global_option globals ''dtb'') (\<lambda>dtb.
     let l = \<lparr>kl_args = [], kl_initrd = initrd, kl_root = root, kl_dtb = dtb\<rparr>
     in case strchr value CHR '' '' of
          None \<Rightarrow> Inr (value, l)
        | Some pos \<Rightarrow> hbind (kboot_args (drop (Suc pos) value) l) (\<lambda>l. Inr (take pos value, l)))))"

definition kboot_process_pair :: "cstr \<Rightarrow> string \<Rightarrow> conf_state \<Rightarrow> conf_state h_m" where
  "kboot_process_pair name value st =
     (case st of (globals, ctx, h) \<Rightarrow>
        (case name of
           None \<Rightarrow> Inr st
         | Some n \<Rightarrow>
             if conf_param_in_list kboot_ignored_names n then Inr st
             else
               (case conf_set_global_option n (Some value) globals of
                  Some globals \<Rightarrow> Inr (globals, ctx, h)
                | None \<Rightarrow>
                    (let (r, h) = discover_boot_option_create (ctx_device ctx) h
                     in hbind (get_opt h r) (\<lambda>d_opt.
                        hbind (get_dev h (ctx_device ctx)) (\<lambda>dev.
                        hbind (kboot_split globals value) (\<lambda>(img, l).
                        hbind (kboot_option globals dev n img l d_opt) (\<lambda>d_opt.
                        hbind (discover_context_add_boot_option ctx r (put_opt r d_opt h)) (\<lambda>(ctx, h).
                        Inr (globals, ctx, h))))))))))"

text \<open>The parser sees a file up to its first NUL.\<close>

fun kboot_files :: "device_files \<Rightarrow> string list \<Rightarrow> nat list \<Rightarrow> conf_state \<Rightarrow> conf_state h_m" where
  "kboot_files fs [] found st = Inr st"
| "kboot_files fs (filename # filenames) found st =
     hbind (get_dev (snd (snd st)) (ctx_device (fst (snd st)))) (\<lambda>dev.
     let (unique, found) = parser_is_unique fs dev filename found
     in hbind (if \<not> unique then Inr st
               else (case parser_request_file fs dev filename of
                       None \<Rightarrow> Inr st
                     | Some buf \<Rightarrow>
                         hbind (conf_parse_buf CHR ''='' kboot_process_pair True (takeWhile (\<lambda>c. c \<noteq> NUL) buf) st) (\<lambda>(globals, ctx, h).
                         Inr (globals, ctx, device_handler_status STATUS_INFO
                           (Parsed_config (dev_id (dd_device dev)) ''kboot'' filename) h))))
          (kboot_files fs filenames found))"

definition kboot_parse :: "device_files \<Rightarrow> discover_context \<Rightarrow> device_handler \<Rightarrow> (discover_context \<times> device_handler) h_m" where
  "kboot_parse fs ctx h =
     (if ctx_event ctx \<noteq> None then Inr (ctx, h)
      else hbind (kboot_files fs kboot_conf_files [] (conf_init_global_options kboot_global_options, ctx, h))
             (\<lambda>(globals, ctx, h). Inr (ctx, h)))"

section \<open>Lines\<close>

definition conf_clean :: "string \<Rightarrow> bool" where
  "conf_clean s \<longleftrightarrow> s \<noteq> [] \<and> \<not> conf_blank (hd s) \<and> \<not> conf_blank (last s) \<and> CHR 0x09 \<notin> set s"

lemma conf_strip_clean [simp]: "conf_clean s \<Longrightarrow> conf_strip_str start s = Inr (Some s)"
proof -
  assume s: "conf_clean s"
  have front: "dropWhile conf_blank s = s" using s by (cases s) (auto simp: conf_clean_def)
  have "dropWhile conf_blank (rev s) = rev s"
    using s by (cases s rule: rev_cases) (auto simp: conf_clean_def)
  then show ?thesis using s front by (simp add: conf_strip_str_def conf_clean_def Let_def)
qed

lemma conf_replace_absent [simp]: "c \<notin> set s \<Longrightarrow> conf_replace_char s c d = s"
  by (induction s) (auto simp: conf_replace_char_def)

lemma conf_clean_line: "conf_clean n \<Longrightarrow> conf_clean v \<Longrightarrow> d \<noteq> CHR 0x09 \<Longrightarrow> conf_clean (n @ d # v)"
  by (auto simp: conf_clean_def)

lemma conf_get_pair_line:
  assumes "conf_clean n" "conf_clean v" "d \<notin> set n" "d \<noteq> CHR 0x09" "t \<notin> set (n @ d # v)"
  shows "conf_get_pair start (n @ d # v) d t = Inr (Some n, Some v, None)"
    and "conf_get_pair start (n @ d # v @ t # rest) d t = Inr (Some n, Some v, Some rest)"
proof -
  have clean: "conf_clean (n @ d # v)" using assms conf_clean_line by simp
  then have tab: "CHR 0x09 \<notin> set (n @ d # v)" by (simp add: conf_clean_def)
  have none: "strchr (n @ d # v) t = None" using assms(5) by (simp add: strchr_None)
  have some: "strchr ((n @ d # v) @ t # rest) t = Some (length (n @ d # v))" by (rule strchr_first[OF assms(5)])
  show "conf_get_pair start (n @ d # v) d t = Inr (Some n, Some v, None)"
    using none clean tab assms by (simp add: conf_get_pair_def)
  show "conf_get_pair start (n @ d # v @ t # rest) d t = Inr (Some n, Some v, Some rest)"
    using some clean tab assms by (simp add: conf_get_pair_def)
qed

text \<open>The reference: the pairs of a file in their order.\<close>

fun conf_fold :: "(cstr \<Rightarrow> string \<Rightarrow> 's \<Rightarrow> 's h_m) \<Rightarrow> (string \<times> string) list \<Rightarrow> 's \<Rightarrow> 's h_m" where
  "conf_fold process [] st = Inr st"
| "conf_fold process ((n, v) # ps) st = hbind (process (Some n) v st) (conf_fold process ps)"

fun conf_print :: "char \<Rightarrow> (string \<times> string) list \<Rightarrow> string" where
  "conf_print d [] = []"
| "conf_print d ((n, v) # ps) = n @ d # v @ CHR 0x0A # conf_print d ps"

fun conf_pair_ok :: "char \<Rightarrow> string \<times> string \<Rightarrow> bool" where
  "conf_pair_ok d (n, v) \<longleftrightarrow>
     conf_clean n \<and> conf_clean v \<and> d \<notin> set n \<and> CHR 0x0A \<notin> set n \<and> CHR 0x0A \<notin> set v \<and>
     \<not> is_comment n \<and> \<not> is_comment v"

lemma conf_get_pair_empty [simp]: "conf_get_pair start [] d t = Inr (None, None, None)"
  by (simp add: conf_get_pair_def conf_strip_str_def conf_replace_char_def)

lemma conf_parse_buf_print:
  assumes "d \<noteq> CHR 0x09" "d \<noteq> CHR 0x0A"
  shows "list_all (conf_pair_ok d) ps \<Longrightarrow> conf_parse_buf d process start (conf_print d ps) st = conf_fold process ps st"
proof (induction ps arbitrary: start st)
  case (Cons p ps)
  obtain n v where p: "p = (n, v)" by force
  have "conf_get_pair start (n @ d # v @ CHR 0x0A # conf_print d ps) d CHR 0x0A = Inr (Some n, Some v, Some (conf_print d ps))"
    using conf_get_pair_line(2)[of n v d "CHR 0x0A"] Cons.prems assms p by simp
  then show ?case using Cons p by (subst conf_parse_buf.simps) (simp add: hbind_def split: sum.splits)
qed (subst conf_parse_buf.simps, simp)

text \<open>A first line of blanks makes the strip run over the beginning of the buffer.\<close>

lemma blank_replace: "list_all conf_blank s \<Longrightarrow> list_all conf_blank (conf_replace_char s CHR 0x09 CHR '' '')"
  by (induction s) (auto simp: conf_replace_char_def conf_blank_def isspace_def)

lemma conf_strip_blank: "s \<noteq> [] \<Longrightarrow> list_all conf_blank s \<Longrightarrow> conf_strip_str start s = (if start then Inl Out_of_bounds else Inr None)"
  by (simp add: conf_strip_str_def list_all_iff)

lemma conf_parse_buf_blank:
  assumes "s \<noteq> []" "list_all conf_blank s" "CHR 0x0A \<notin> set s"
  shows "conf_parse_buf d process True (s @ CHR 0x0A # rest) st = Inl Out_of_bounds"
    and "conf_parse_buf d process False (s @ CHR 0x0A # rest) st = conf_parse_buf d process False rest st"
proof -
  let ?s = "conf_replace_char s CHR 0x09 CHR '' ''"
  have "?s \<noteq> []" using assms(1) by (simp add: conf_replace_char_def)
  then have "conf_strip_str start ?s = (if start then Inl Out_of_bounds else Inr None)" for start
    using conf_strip_blank blank_replace[OF assms(2)] by blast
  then have *: "conf_get_pair start (s @ CHR 0x0A # rest) d CHR 0x0A =
      (if start then Inl Out_of_bounds else Inr (None, None, Some rest))" for start
    using assms(3) by (simp add: conf_get_pair_def)
  show "conf_parse_buf d process True (s @ CHR 0x0A # rest) st = Inl Out_of_bounds"
    by (subst conf_parse_buf.simps) (simp add: *)
  show "conf_parse_buf d process False (s @ CHR 0x0A # rest) st = conf_parse_buf d process False rest st"
    by (subst conf_parse_buf.simps) (simp add: *)
qed

section \<open>The kernel command line\<close>

text \<open>The reference: every word of the command line is a file, the root device or an argument.\<close>

datatype kboot_word = Bare string | Named string string

fun kboot_word_text :: "kboot_word \<Rightarrow> string" where
  "kboot_word_text (Bare s) = s"
| "kboot_word_text (Named n v) = n @ ''='' @ v"

fun kboot_word_ok :: "kboot_word \<Rightarrow> bool" where
  "kboot_word_ok (Bare s) \<longleftrightarrow> conf_clean s \<and> CHR '' '' \<notin> set s \<and> CHR ''='' \<notin> set s"
| "kboot_word_ok (Named n v) \<longleftrightarrow>
     conf_clean n \<and> conf_clean v \<and> CHR '' '' \<notin> set n \<and> CHR '' '' \<notin> set v \<and> CHR ''='' \<notin> set n"

fun kboot_apply :: "kboot_word \<Rightarrow> kboot_line \<Rightarrow> kboot_line" where
  "kboot_apply (Bare s) l = l\<lparr>kl_args := kl_args l @ s @ '' ''\<rparr>"
| "kboot_apply (Named n v) l =
     (if strcaseeq n ''initrd'' then l\<lparr>kl_initrd := Some v\<rparr>
      else if strcaseeq n ''root'' then l\<lparr>kl_root := Some v\<rparr>
      else if strcaseeq n ''dtb'' then l\<lparr>kl_dtb := Some v\<rparr>
      else l\<lparr>kl_args := kl_args l @ n @ ''='' @ v @ '' ''\<rparr>)"

fun kboot_words_text :: "kboot_word list \<Rightarrow> string" where
  "kboot_words_text [] = []"
| "kboot_words_text [w] = kboot_word_text w"
| "kboot_words_text (w # ws) = kboot_word_text w @ '' '' @ kboot_words_text ws"

lemma conf_get_pair_bare:
  assumes "conf_clean s" "CHR '' '' \<notin> set s" "CHR ''='' \<notin> set s"
  shows "conf_get_pair start s CHR ''='' CHR '' '' = Inr (None, Some s, None)"
    and "conf_get_pair start (s @ CHR '' '' # rest) CHR ''='' CHR '' '' = Inr (None, Some s, Some rest)"
  using assms by (simp_all add: conf_get_pair_def) (simp_all add: conf_clean_def)

lemma kboot_args_last: "kboot_word_ok w \<Longrightarrow> kboot_args (kboot_word_text w) l = Inr (kboot_apply w l)"
  by (cases w; subst kboot_args.simps)
    (simp_all add: conf_get_pair_equal_def conf_get_pair_bare(1) conf_get_pair_line(1) kboot_arg_def fmt_s_def)

lemma kboot_args_word:
  "kboot_word_ok w \<Longrightarrow> kboot_args (kboot_word_text w @ CHR '' '' # rest) l = kboot_args rest (kboot_apply w l)"
  by (cases w; subst kboot_args.simps)
    (simp_all add: conf_get_pair_equal_def conf_get_pair_bare(2) conf_get_pair_line(2) kboot_arg_def fmt_s_def)

lemma kboot_args_words:
  "list_all kboot_word_ok ws \<Longrightarrow> ws \<noteq> [] \<Longrightarrow> kboot_args (kboot_words_text ws) l = Inr (fold kboot_apply ws l)"
  by (induction ws arbitrary: l rule: kboot_words_text.induct) (simp_all add: kboot_args_last kboot_args_word)

text \<open>An empty word, between two spaces, and an empty value come out as the text \<^verbatim>\<open>(null)\<close>.\<close>

lemma kboot_args_empty_word:
  "kboot_args (CHR '' '' # rest) l = kboot_args rest (l\<lparr>kl_args := kl_args l @ ''(null) ''\<rparr>)"
  by (subst kboot_args.simps)
    (simp add: conf_get_pair_equal_def conf_get_pair_def conf_replace_char_def conf_strip_str_def kboot_arg_def fmt_s_def)

lemma kboot_args_empty_value:
  assumes "conf_clean n" "CHR '' '' \<notin> set n" "CHR ''='' \<notin> set n" "\<not> conf_param_in_list [''initrd'', ''root'', ''dtb''] n"
  shows "kboot_args (n @ ''= '' @ rest) l = kboot_args rest (l\<lparr>kl_args := kl_args l @ n @ ''=(null) ''\<rparr>)"
proof -
  have clean: "conf_clean (n @ ''='')" "CHR '' '' \<notin> set (n @ ''='')"
    using assms by (auto simp: conf_clean_def conf_blank_def isspace_def)
  have tab: "CHR 0x09 \<notin> set n" using assms(1) by (simp add: conf_clean_def)
  have c: "strchr (n @ CHR ''='' # CHR '' '' # rest) CHR '' '' = Some (Suc (length n))"
    using strchr_first[OF clean(2), of rest] by simp
  have "conf_get_pair False (n @ CHR ''='' # CHR '' '' # rest) CHR ''='' CHR '' '' = Inr (Some n, None, Some rest)"
    using clean(1) tab assms by (simp add: conf_get_pair_def c conf_strip_str_def[of _ "[]"])
  then show ?thesis using assms(4)
    by (subst kboot_args.simps) (simp add: conf_get_pair_equal_def kboot_arg_def conf_param_in_list_def strcaseeq_commute fmt_s_def)
qed

definition kboot_defaults :: "(string \<times> cstr) list \<Rightarrow> kboot_line" where
  "kboot_defaults globals =
     \<lparr>kl_args = [], kl_initrd = the (conf_global globals ''initrd''), kl_root = the (conf_global globals ''root''),
      kl_dtb = the (conf_global globals ''dtb'')\<rparr>"

definition globals_ok :: "(string \<times> cstr) list \<Rightarrow> bool" where
  "globals_ok globals \<longleftrightarrow> map fst globals = map fst kboot_global_options"

lemma globals_names:
  assumes "globals_ok globals" "n \<in> set (map fst kboot_global_options)"
  shows "conf_global globals n \<noteq> None"
proof -
  have "n \<in> set (map fst globals)" using assms by (simp add: globals_ok_def)
  then show ?thesis by (auto simp: conf_global_def find_None_iff)
qed

lemma globals_known:
  "globals_ok globals \<Longrightarrow> n \<in> set (map fst kboot_global_options) \<Longrightarrow> conf_get_global_option globals n = Inr (the (conf_global globals n))"
  using globals_names[of globals n] by (auto simp: conf_get_global_option_def)

lemma globals_init [simp]: "globals_ok (conf_init_global_options kboot_global_options)"
  by (simp add: globals_ok_def conf_init_global_options_def kboot_global_options_def)

lemma set_global_names: "conf_set_global_option n v globals = Some globals' \<Longrightarrow> map fst globals' = map fst globals"
  by (induction globals arbitrary: globals') (auto split: if_splits)

lemma kboot_split_words:
  assumes "globals_ok globals" "CHR '' '' \<notin> set k" "list_all kboot_word_ok ws" "ws \<noteq> []"
  shows "kboot_split globals (k @ '' '' @ kboot_words_text ws) = Inr (k, fold kboot_apply ws (kboot_defaults globals))"
proof -
  have "conf_get_global_option globals n = Inr (the (conf_global globals n))" if "n \<in> {''initrd'', ''root'', ''dtb''}" for n
    using that by (intro globals_known[OF assms(1)]) (auto simp: kboot_global_options_def)
  then show ?thesis using assms(2-4) by (simp add: kboot_split_def kboot_args_words kboot_defaults_def)
qed

section \<open>Safety\<close>

lemma devpath_resource_safe [intro!]: "safely (\<lambda>_. True) (create_devpath_resource dev path)"
  unfolding create_devpath_resource_def
  by (cases "pb_url_parse (Some path)") (auto split: option.splits simp: resolve_against_safe)

lemma strip_safe [intro!]: "safely (\<lambda>_. True) (conf_strip_str start s)"
  by (simp add: conf_strip_str_def Let_def)

lemma get_pair_faults: "conf_get_pair start str d t = Inl e \<Longrightarrow> e = Out_of_bounds"
  unfolding conf_get_pair_def conf_strip_str_def
  by (auto simp: Let_def hbind_def split: option.splits prod.splits sum.splits if_splits)

lemma get_pair_safe: "safely (\<lambda>_. True) (conf_get_pair start str d t)"
  by (cases "conf_get_pair start str d t") (auto dest: get_pair_faults)

lemma kboot_args_safe: "safely (\<lambda>_. True) (kboot_args pos l)"
proof (induction pos l rule: kboot_args.induct)
  case (1 pos l)
  show ?case
    by (subst kboot_args.simps, cases "conf_get_pair_equal False pos CHR '' ''")
      (use get_pair_safe[of False pos "CHR ''=''" "CHR '' ''"] 1 in
        \<open>auto simp: conf_get_pair_equal_def Let_def split: option.splits\<close>)
qed

lemma kboot_split_safe: "safely (\<lambda>_. True) (kboot_split globals value)"
  unfolding kboot_split_def conf_get_global_option_def
  by (auto simp: Let_def split: option.splits intro!: safely_True_hbind kboot_args_safe)

lemma kboot_option_safe:
  "safely (\<lambda>opt. dbo_device opt = dbo_device d_opt) (kboot_option globals dev name img l d_opt)"
  unfolding kboot_option_def optional_resource_def strip_in_place_def conf_get_global_option_def
  by (auto simp: Let_def split: option.splits intro!: safely_True_hbind)

definition conf_state_ok :: "(nat + nat) set \<Rightarrow> conf_state \<Rightarrow> bool" where
  "conf_state_ok X st \<longleftrightarrow> parsed_ok X (snd st)"

lemma process_pair_keeps:
  assumes "conf_state_ok X st"
  shows "safely (conf_state_ok X) (kboot_process_pair name value st)"
proof -
  obtain globals ctx h where st: "st = (globals, ctx, h)" by (cases st)
  have ok: "handler_ok X h" "context_ok h ctx" using assms by (simp_all add: st conf_state_ok_def)
  obtain r h' where c: "discover_boot_option_create (ctx_device ctx) h = (r, h')" by force
  obtain opt where opt: "h_opt h' r = Some opt"
    using discover_boot_option_create_safe(2)[OF ok(1), of "ctx_device ctx"] c by (auto simp: loose_def)
  obtain dev where dev: "h_dev h' (ctx_device ctx) = Some dev"
    using context_ok_view[OF create_view[OF ok(1)] ok(2), of "ctx_device ctx"] c by (auto simp: context_ok_def)
  have "safely (conf_state_ok X)
     (hbind (kboot_split globals value) (\<lambda>(img, l).
      hbind (kboot_option globals dev n img l opt) (\<lambda>d_opt.
      hbind (discover_context_add_boot_option ctx r (put_opt r d_opt h')) (\<lambda>(ctx, h).
      Inr (globals, ctx, h)))))" for n
    by (intro safely_pair_hbind[OF kboot_split_safe], simp, rule safely_hbind[OF kboot_option_safe],
        rule safely_hbind[OF add_option_keeps[OF ok c opt]]) (auto simp: conf_state_ok_def)
  then show ?thesis using assms
    by (auto simp: kboot_process_pair_def st c opt dev conf_state_ok_def split: option.splits)
qed

lemma conf_parse_buf_keeping:
  assumes bad: "bad \<noteq> Out_of_bounds" and keep: "\<And>name value st. P st \<Longrightarrow> keeping bad P (process name value st)"
  shows "P st \<Longrightarrow> keeping bad P (conf_parse_buf d process start pos st)"
proof (induction "length pos" arbitrary: start pos st rule: less_induct)
  case less
  have line: "keeping bad P (if c then Inr st else process name v st)" for c name v using keep less.prems by simp
  have rest: "keeping bad P (case rest of None \<Rightarrow> Inr st | Some pos \<Rightarrow> conf_parse_buf d process False pos st)"
    if "conf_get_pair start pos d CHR 0x0A = Inr (name, val, rest)" "P st" for name val rest st
    using that less.hyps conf_get_pair_shorter by (cases rest) auto
  show ?case
  proof (cases "conf_get_pair start pos d CHR 0x0A")
    case (Inl e)
    then show ?thesis using get_pair_faults bad by (subst conf_parse_buf.simps) auto
  next
    case (Inr p)
    obtain name val rest where p: "p = (name, val, rest)" by (cases p)
    have "keeping bad P (case val of None \<Rightarrow> Inr st
            | Some v \<Rightarrow> if (case name of Some n \<Rightarrow> is_comment n | None \<Rightarrow> False) \<or> is_comment v then Inr st else process name v st)"
      using line less.prems by (cases val) auto
    then show ?thesis using rest[OF Inr[unfolded p]] by (subst conf_parse_buf.simps) (simp add: Inr p keeping_hbind)
  qed
qed

lemma conf_parse_buf_keeps:
  assumes "\<And>name value st. P st \<Longrightarrow> safely P (process name value st)"
  shows "P st \<Longrightarrow> safely P (conf_parse_buf d process start pos st)"
  using conf_parse_buf_keeping[of Use_after_free P process st d start pos] assms by (simp add: safely_keeping)

lemma kboot_files_keeps: "conf_state_ok X st \<Longrightarrow> safely (conf_state_ok X) (kboot_files fs filenames found st)"
proof (induction filenames arbitrary: found st)
  case (Cons filename filenames)
  obtain globals ctx h where st: "st = (globals, ctx, h)" by (cases st)
  obtain dev where dev: "h_dev h (ctx_device ctx) = Some dev"
    using Cons.prems by (auto simp: st conf_state_ok_def context_ok_def)
  obtain unique found' where u: "parser_is_unique fs dev filename found = (unique, found')" by force
  have parse: "safely (conf_state_ok X)
     (hbind (conf_parse_buf CHR ''='' kboot_process_pair True buf st) (\<lambda>(globals, ctx, h).
        Inr (globals, ctx, device_handler_status STATUS_INFO m h)))" for buf m
    by (rule safely_hbind[OF conf_parse_buf_keeps[where P = "conf_state_ok X", OF process_pair_keeps Cons.prems]])
      (auto simp: conf_state_ok_def intro: context_ok_view[OF same_view_status(1)])
  have "get_dev (snd (snd st)) (ctx_device (fst (snd st))) = Inr dev" using dev by (simp add: st)
  moreover have "safely (conf_state_ok X) (hbind (if \<not> unique then Inr st else m) (kboot_files fs filenames found'))"
    if "safely (conf_state_ok X) m" for m
    using that Cons.prems by (auto intro!: safely_hbind Cons.IH)
  ultimately show ?case using parse Cons.prems by (simp add: u split: option.split)
qed simp

interpretation kboot: parser "kboot_parse fs" for fs
proof
  fix X h ctx
  assume ok: "handler_ok X h" "context_ok h ctx"
  let ?st = "(conf_init_global_options kboot_global_options, ctx, h)"
  have "safely (conf_state_ok X) (kboot_files fs kboot_conf_files [] ?st)"
    by (rule kboot_files_keeps) (simp add: conf_state_ok_def ok)
  then show "safely (parsed_ok X) (kboot_parse fs ctx h)"
    unfolding kboot_parse_def by (auto simp: ok conf_state_ok_def intro!: safely_hbind)
qed

section \<open>The arguments of the kernel\<close>

fun kboot_is_arg :: "kboot_word \<Rightarrow> bool" where
  "kboot_is_arg (Bare s) \<longleftrightarrow> True"
| "kboot_is_arg (Named n v) \<longleftrightarrow> \<not> conf_param_in_list [''initrd'', ''root'', ''dtb''] n"

definition root_words :: "kboot_line \<Rightarrow> kboot_word list" where
  "root_words l = (case kl_root l of None \<Rightarrow> [] | Some r \<Rightarrow> [Named ''root'' r])"

abbreviation spaced :: "kboot_word list \<Rightarrow> string" where
  "spaced ws \<equiv> concat (map (\<lambda>w. kboot_word_text w @ '' '') ws)"

lemma kl_args_fold: "kl_args (fold kboot_apply ws l) = kl_args l @ spaced (filter kboot_is_arg ws)"
proof (induction ws arbitrary: l)
  case (Cons w ws)
  then show ?case by (cases w) (auto simp: conf_param_in_list_def strcaseeq_commute)
qed simp

lemma spaced_words: "ws \<noteq> [] \<Longrightarrow> spaced ws = kboot_words_text ws @ '' ''"
  by (induction ws rule: kboot_words_text.induct) simp_all

lemma words_text_last:
  "ws \<noteq> [] \<Longrightarrow> (\<And>w. w \<in> set ws \<Longrightarrow> conf_clean (kboot_word_text w)) \<Longrightarrow>
     kboot_words_text ws \<noteq> [] \<and> \<not> conf_blank (last (kboot_words_text ws)) \<and> \<not> conf_blank (hd (kboot_words_text ws))"
  by (induction ws rule: kboot_words_text.induct) (auto simp: conf_clean_def)

lemma strip_spaced:
  assumes "\<And>w. w \<in> set ws \<Longrightarrow> conf_clean (kboot_word_text w)"
  shows "strip_in_place (spaced ws) = Inr (kboot_words_text ws)"
proof (cases "ws = []")
  case False
  define t where "t = kboot_words_text ws"
  have t: "t \<noteq> []" "\<not> conf_blank (last t)" "\<not> conf_blank (hd t)"
    using words_text_last[OF False assms] by (simp_all add: t_def)
  have sp: "conf_blank CHR '' ''" by (simp add: conf_blank_def isspace_def)
  have "dropWhile conf_blank (rev t) = rev t" using t(1,2) by (cases t rule: rev_cases) simp_all
  moreover have "dropWhile conf_blank (t @ '' '') = t @ '' ''" using t(1,3) by (cases t) simp_all
  ultimately show ?thesis unfolding spaced_words[OF False] t_def[symmetric]
    using t(1) sp by (simp add: strip_in_place_def conf_strip_str_def Let_def)
qed (simp add: strip_in_place_def conf_strip_str_def)

lemma word_ok_clean: "kboot_word_ok w \<Longrightarrow> conf_clean (kboot_word_text w)"
  by (cases w) (simp_all add: conf_clean_line)

lemma kl_root_fold:
  "list_all kboot_word_ok ws \<Longrightarrow> (\<And>r. kl_root l = Some r \<Longrightarrow> conf_clean r) \<Longrightarrow> kl_root (fold kboot_apply ws l) = Some r \<Longrightarrow> conf_clean r"
proof (induction ws arbitrary: l)
  case (Cons w ws)
  have "kl_root (kboot_apply w l) = Some r \<Longrightarrow> conf_clean r" for r
    using Cons.prems by (cases w) (auto split: if_splits)
  then show ?case using Cons by auto
qed simp

lemma kboot_option_args:
  assumes "kboot_option globals dev name img l d_opt = Inr opt"
  shows "strip_in_place (concat (map (\<lambda>w. kboot_word_text w @ '' '') (root_words l)) @ kl_args l) = Inr (the (opt_boot_args (dbo_option opt)))"
    and "opt_boot_args (dbo_option opt) \<noteq> None"
  using assms unfolding kboot_option_def root_words_def
  by (auto simp: Let_def hbind_def split: sum.splits option.splits)

end
