(* ===== verification/Yaboot.thy ===== *)
theory Yaboot
  imports Parser_Conf
begin

text \<open>
  The parser for \<^verbatim>\<open>yaboot.conf\<close>, \<^verbatim>\<open>discover/yaboot-parser.c\<close>: global options up to the first image, then one
  section for each image.  The option of a section is made when the section begins and added to the context when the next
  one begins or the file ends.
\<close>

section \<open>State\<close>

record yaboot_state =
  ys_globals_done :: bool
  ys_opt :: "nat option"
  ys_device :: cstr
  ys_partition :: cstr
  ys_boot_image :: cstr
  ys_initrd :: cstr
  ys_initrd_size :: cstr
  ys_literal :: cstr
  ys_ramdisk :: cstr
  ys_root :: cstr
  ys_read_only :: bool
  ys_read_write :: bool

record yaboot_conf =
  yc_globals :: "(string \<times> cstr) list"
  yc_state :: yaboot_state
  yc_dc :: discover_context
  yc_handler :: device_handler

definition yaboot_global_options :: "(string \<times> cstr) list" where
  "yaboot_global_options =
     [(''root'', None), (''device'', None), (''partition'', None), (''initrd'', None), (''initrd_size'', None),
      (''video'', None), (''literal'', None), (''ramdisk'', None), (''default'', None)]"

definition yaboot_conf_files :: "string list" where
  "yaboot_conf_files =
     [''/yaboot.conf'', ''/yaboot.cnf'', ''/etc/lilo.conf'', ''/etc/silo.conf'', ''/etc/yaboot.conf'', ''/etc/yaboot.cnf'',
      ''/suseboot/yaboot.cnf'', ''/YABOOT.CONF'', ''/YABOOT.CNF'', ''/ETC/LILO.CONF'', ''/ETC/SILO.CONF'',
      ''/ETC/YABOOT.CONF'', ''/ETC/YABOOT.CNF'', ''/SUSEBOOT/YABOOT.CNF'']"

section \<open>Sections\<close>

definition yaboot_set_option :: "nat \<Rightarrow> (boot_option \<Rightarrow> boot_option) \<Rightarrow> yaboot_conf \<Rightarrow> yaboot_conf h_m" where
  "yaboot_set_option r f conf =
     hbind (get_opt (yc_handler conf) r) (\<lambda>d_opt.
     Inr (conf\<lparr>yc_handler := put_opt r (d_opt\<lparr>dbo_option := f (dbo_option d_opt)\<rparr>) (yc_handler conf)\<rparr>))"

text \<open>The initrd and the flags of the previous section stay.\<close>

definition state_start_new_option :: "yaboot_conf \<Rightarrow> yaboot_conf h_m" where
  "state_start_new_option conf =
     (let (r, h) = discover_boot_option_create (ctx_device (yc_dc conf)) (yc_handler conf)
      in hbind (yaboot_set_option r (\<lambda>opt. opt\<lparr>opt_boot_args := Some []\<rparr>) (conf\<lparr>yc_handler := h\<rparr>)) (\<lambda>conf.
         hbind (conf_get_global_option (yc_globals conf) ''device'') (\<lambda>device.
         hbind (conf_get_global_option (yc_globals conf) ''partition'') (\<lambda>partition'.
         hbind (conf_get_global_option (yc_globals conf) ''initrd_size'') (\<lambda>initrd_size.
         hbind (conf_get_global_option (yc_globals conf) ''literal'') (\<lambda>literal.
         hbind (conf_get_global_option (yc_globals conf) ''ramdisk'') (\<lambda>ramdisk.
         hbind (conf_get_global_option (yc_globals conf) ''root'') (\<lambda>root.
         Inr (conf\<lparr>yc_state := (yc_state conf)
           \<lparr>ys_opt := Some r, ys_device := device, ys_partition := partition', ys_initrd_size := initrd_size,
            ys_literal := literal, ys_ramdisk := ramdisk, ys_root := root\<rparr>\<rparr>)))))))))"

text \<open>A device of digits only makes the backward scan leave the string.\<close>

definition yaboot_devpath :: "cstr \<Rightarrow> cstr \<Rightarrow> string \<Rightarrow> string h_m" where
  "yaboot_devpath dev part path =
     (if strchr path CHR '':'' \<noteq> None then Inr path
      else
        (case dev of
           None \<Rightarrow> Inr path
         | Some d \<Rightarrow>
             (case part of
                None \<Rightarrow> Inr (d @ '':'' @ path)
              | Some p \<Rightarrow>
                  if d = [] \<or> list_all isdigit d then Inl Out_of_bounds
                  else if isdigit (last d) then Inr (rev (dropWhile isdigit (rev d)) @ p @ '':'' @ path)
                  else Inr (d @ p @ '':'' @ path))))"

definition create_yaboot_devpath_resource :: "discover_device \<Rightarrow> yaboot_conf \<Rightarrow> string \<Rightarrow> resource h_m" where
  "create_yaboot_devpath_resource dev conf path =
     (let state = yc_state conf
      in hbind (if ys_device state = None then conf_get_global_option (yc_globals conf) ''device'' else Inr (ys_device state)) (\<lambda>d.
         hbind (if ys_partition state = None then conf_get_global_option (yc_globals conf) ''partition'' else Inr (ys_partition state)) (\<lambda>part.
         hbind (yaboot_devpath d part path) (create_devpath_resource dev))))"

definition yaboot_initrd :: "discover_device \<Rightarrow> yaboot_conf \<Rightarrow> resource option h_m" where
  "yaboot_initrd dev conf =
     (case ys_initrd (yc_state conf) of
        None \<Rightarrow> Inr None
      | Some i \<Rightarrow> hbind (create_yaboot_devpath_resource dev conf i) (\<lambda>res. Inr (Some res)))"

text \<open>The arguments of a section; \<open>args\<close> are those of its \<^verbatim>\<open>append\<close> lines.  The value of \<^verbatim>\<open>ramdisk\<close> is the
  initrd size.\<close>

definition yaboot_boot_args :: "yaboot_state \<Rightarrow> string \<Rightarrow> string" where
  "yaboot_boot_args state args =
     (let args = (case ys_initrd_size state of Some s \<Rightarrow> ''ramdisk_size='' @ s @ '' '' @ args | None \<Rightarrow> args);
          args = (if ys_ramdisk state \<noteq> None then ''ramdisk='' @ fmt_s (ys_initrd_size state) @ '' '' @ args else args);
          args = (case ys_root state of Some r \<Rightarrow> ''root='' @ r @ '' '' @ args | None \<Rightarrow> args);
          args = (if ys_read_write state then ''rw '' @ args else if ys_read_only state then ''ro '' @ args else args)
      in case ys_literal state of Some l \<Rightarrow> l | None \<Rightarrow> args)"

definition yaboot_finish :: "yaboot_conf \<Rightarrow> yaboot_conf h_m" where
  "yaboot_finish conf =
     (let state = yc_state conf
      in case ys_opt state of
           None \<Rightarrow> Inr conf
         | Some r \<Rightarrow>
             hbind (get_opt (yc_handler conf) r) (\<lambda>d_opt.
             case (opt_name (dbo_option d_opt), opt_boot_args (dbo_option d_opt)) of
               (Some name, Some args) \<Rightarrow>
                 hbind (get_dev (yc_handler conf) (ctx_device (yc_dc conf))) (\<lambda>dev.
                 hbind (case ys_boot_image state of Some i \<Rightarrow> Inr i | None \<Rightarrow> Inl Null_pointer) (\<lambda>img.
                 hbind (create_yaboot_devpath_resource dev conf img) (\<lambda>boot_image.
                 hbind (create_yaboot_devpath_resource dev conf (img @ ''.cmdline.sig'')) (\<lambda>sig.
                 hbind (yaboot_initrd dev conf) (\<lambda>initrd.
                 let boot_args = yaboot_boot_args state args;
                     description = img @ '' '' @ (case ys_initrd state of Some i \<Rightarrow> i | None \<Rightarrow> []) @ '' '' @ boot_args;
                     state = state\<lparr>ys_read_only := ys_read_only state \<and> \<not> ys_read_write state\<rparr>
                 in hbind (strip_in_place boot_args) (\<lambda>boot_args.
                    hbind (strip_in_place description) (\<lambda>description.
                    hbind (conf_get_global_option (yc_globals conf) ''default'') (\<lambda>default_label.
                    let d_opt = d_opt
                          \<lparr>dbo_boot_image := Some boot_image, dbo_args_sig_file := Some sig, dbo_initrd := initrd,
                           dbo_option := (dbo_option d_opt)
                             \<lparr>opt_boot_args := Some boot_args, opt_description := Some description,
                              opt_is_default := (case default_label of Some l \<Rightarrow> strcaseeq name l | None \<Rightarrow> False)\<rparr>\<rparr>
                    in hbind (discover_context_add_boot_option (yc_dc conf) r (put_opt r d_opt (yc_handler conf))) (\<lambda>(ctx, h).
                       Inr (conf\<lparr>yc_dc := ctx, yc_handler := h, yc_state := state\<lparr>ys_opt := None\<rparr>\<rparr>))))))))))
             | _ \<Rightarrow> Inl Assertion))"

section \<open>Lines\<close>

text \<open>The images of the SUSE installation media.\<close>

definition suse_fp :: "string \<Rightarrow> (string \<times> string) option" where
  "suse_fp name =
     (if strcaseeq name ''image[32bit]'' then Some (''/suseboot/vmlinux32'', ''/suseboot/initrd32'')
      else if strcaseeq name ''image[64bit]'' then Some (''/suseboot/vmlinux64'', ''/suseboot/initrd64'')
      else None)"

definition yaboot_section :: "yaboot_conf \<Rightarrow> yaboot_conf h_m" where
  "yaboot_section conf =
     hbind (if ys_opt (yc_state conf) \<noteq> None then yaboot_finish conf else Inr conf) state_start_new_option"

text \<open>A line of a section; \<open>r\<close> is its option.\<close>

definition yaboot_section_pair :: "nat \<Rightarrow> string \<Rightarrow> string \<Rightarrow> yaboot_conf \<Rightarrow> yaboot_conf h_m" where
  "yaboot_section_pair r name val conf =
     (let state = yc_state conf
      in if strcaseeq name ''initrd'' then Inr (conf\<lparr>yc_state := state\<lparr>ys_initrd := Some val\<rparr>\<rparr>)
         else if strcaseeq name ''label'' then
           hbind (get_dev (yc_handler conf) (ctx_device (yc_dc conf))) (\<lambda>dev.
           yaboot_set_option r (\<lambda>opt. opt\<lparr>opt_id := Some (fmt_s (dev_id (dd_device dev)) @ ''#'' @ val), opt_name := Some val\<rparr>) conf)
         else if strcaseeq name ''device'' then Inr (conf\<lparr>yc_state := state\<lparr>ys_device := Some val\<rparr>\<rparr>)
         else if strcaseeq name ''parititon'' then Inr (conf\<lparr>yc_state := state\<lparr>ys_partition := Some val\<rparr>\<rparr>)
         else if strcaseeq name ''append'' then
           yaboot_set_option r (\<lambda>opt. opt\<lparr>opt_boot_args := Some ((case opt_boot_args opt of Some a \<Rightarrow> a | None \<Rightarrow> []) @ val @ '' '')\<rparr>) conf
         else if strcaseeq name ''initrd-size'' then Inr (conf\<lparr>yc_state := state\<lparr>ys_initrd_size := Some val\<rparr>\<rparr>)
         else if strcaseeq name ''literal'' then Inr (conf\<lparr>yc_state := state\<lparr>ys_literal := Some val\<rparr>\<rparr>)
         else if strcaseeq name ''ramdisk'' then Inr (conf\<lparr>yc_state := state\<lparr>ys_ramdisk := Some val\<rparr>\<rparr>)
         else if strcaseeq name ''read-only'' then Inr (conf\<lparr>yc_state := state\<lparr>ys_read_only := True\<rparr>\<rparr>)
         else if strcaseeq name ''read-write'' then Inr (conf\<lparr>yc_state := state\<lparr>ys_read_write := True\<rparr>\<rparr>)
         else if strcaseeq name ''root'' then Inr (conf\<lparr>yc_state := state\<lparr>ys_root := Some val\<rparr>\<rparr>)
         else Inr conf)"

definition yaboot_process_pair :: "cstr \<Rightarrow> string \<Rightarrow> yaboot_conf \<Rightarrow> yaboot_conf h_m" where
  "yaboot_process_pair name val conf =
     (let name = (case name of Some n \<Rightarrow> n | None \<Rightarrow> val)
      in case (if ys_globals_done (yc_state conf) then None else conf_set_global_option name (Some val) (yc_globals conf)) of
           Some globals \<Rightarrow> Inr (conf\<lparr>yc_globals := globals\<rparr>)
         | None \<Rightarrow>
             if strcaseeq name ''image'' then
               hbind (yaboot_section (conf\<lparr>yc_state := (yc_state conf)\<lparr>ys_globals_done := True\<rparr>\<rparr>)) (\<lambda>conf.
               Inr (conf\<lparr>yc_state := (yc_state conf)\<lparr>ys_boot_image := Some val\<rparr>\<rparr>))
             else
               (case suse_fp name of
                  Some (img, initrd) \<Rightarrow>
                    hbind (yaboot_section conf) (\<lambda>conf.
                    Inr (conf\<lparr>yc_state :=
                      (if take 1 val = ''/'' then (yc_state conf)\<lparr>ys_boot_image := Some val\<rparr>
                       else (yc_state conf)\<lparr>ys_boot_image := Some img, ys_initrd := Some initrd\<rparr>)\<rparr>))
                | None \<Rightarrow>
                    (case ys_opt (yc_state conf) of
                       None \<Rightarrow> Inr conf
                     | Some r \<Rightarrow> yaboot_section_pair r name val conf)))"

section \<open>Files\<close>

definition yaboot_buf :: "string \<Rightarrow> yaboot_conf \<Rightarrow> yaboot_conf h_m" where
  "yaboot_buf buf conf =
     hbind (conf_parse_buf CHR ''='' yaboot_process_pair True (takeWhile (\<lambda>c. c \<noteq> NUL) buf) conf) yaboot_finish"

fun yaboot_files :: "device_files \<Rightarrow> string list \<Rightarrow> yaboot_conf \<Rightarrow> yaboot_conf h_m" where
  "yaboot_files fs [] conf = Inr conf"
| "yaboot_files fs (filename # filenames) conf =
     hbind (get_dev (yc_handler conf) (ctx_device (yc_dc conf))) (\<lambda>dev.
     hbind (case parser_request_file fs dev filename of
              None \<Rightarrow> Inr conf
            | Some buf \<Rightarrow>
                hbind (yaboot_buf buf conf) (\<lambda>conf.
                Inr (conf\<lparr>yc_handler := device_handler_status STATUS_INFO
                  (Parsed_config (dev_id (dd_device dev)) ''yaboot'' filename) (yc_handler conf)\<rparr>)))
       (yaboot_files fs filenames))"

definition yaboot_state_init :: yaboot_state where
  "yaboot_state_init =
     \<lparr>ys_globals_done = False, ys_opt = None, ys_device = None, ys_partition = None, ys_boot_image = None, ys_initrd = None,
      ys_initrd_size = None, ys_literal = None, ys_ramdisk = None, ys_root = None, ys_read_only = False, ys_read_write = False\<rparr>"

definition yaboot_parse :: "device_files \<Rightarrow> parser_fn" where
  "yaboot_parse fs ctx h =
     (if ctx_event ctx \<noteq> None then Inr (ctx, h)
      else
        hbind (yaboot_files fs yaboot_conf_files
                \<lparr>yc_globals = conf_init_global_options yaboot_global_options, yc_state = yaboot_state_init, yc_dc = ctx, yc_handler = h\<rparr>)
          (\<lambda>conf. Inr (yc_dc conf, yc_handler conf)))"

section \<open>Safety\<close>

definition yaboot_ok :: "(nat + nat) set \<Rightarrow> yaboot_conf \<Rightarrow> bool" where
  "yaboot_ok X conf \<longleftrightarrow>
     handler_ok X (yc_handler conf) \<and> context_ok (yc_handler conf) (yc_dc conf) \<and>
     (\<forall>r. ys_opt (yc_state conf) = Some r \<longrightarrow> pending (yc_handler conf) (yc_dc conf) r)"

lemma yaboot_ok_globals [simp]: "yaboot_ok X (conf\<lparr>yc_globals := g\<rparr>) = yaboot_ok X conf"
  by (simp add: yaboot_ok_def)

lemma yaboot_ok_state: "ys_opt s = ys_opt (yc_state conf) \<Longrightarrow> yaboot_ok X (conf\<lparr>yc_state := s\<rparr>) = yaboot_ok X conf"
  by (simp add: yaboot_ok_def)

lemma yaboot_ok_status: "yaboot_ok X conf \<Longrightarrow> yaboot_ok X (conf\<lparr>yc_handler := device_handler_status t m (yc_handler conf)\<rparr>)"
  by (auto simp: yaboot_ok_def intro: context_ok_view[OF same_view_status(1)] pending_view[OF same_view_status(1)])

lemma global_safe: "safely (\<lambda>_. True) (conf_get_global_option globals n)"
  by (simp add: conf_get_global_option_def split: option.split)

lemma yaboot_set_option_safe:
  assumes "yaboot_ok X conf" "pending (yc_handler conf) (yc_dc conf) r"
  shows "safely (\<lambda>conf'. yaboot_ok X conf' \<and> pending (yc_handler conf') (yc_dc conf') r) (yaboot_set_option r f conf)"
proof -
  obtain opt where opt: "h_opt (yc_handler conf) r = Some opt" using pending_live[OF assms(2)] by blast
  have ok: "handler_ok X (yc_handler conf)" "context_ok (yc_handler conf) (yc_dc conf)" using assms(1) by (simp_all add: yaboot_ok_def)
  note fill = fill_keeps[OF ok opt, of "opt\<lparr>dbo_option := f (dbo_option opt)\<rparr>"]
  show ?thesis using fill assms opt by (auto simp: yaboot_set_option_def yaboot_ok_def)
qed

lemma state_start_new_option_safe:
  assumes "yaboot_ok X conf"
  shows "safely (yaboot_ok X) (state_start_new_option conf)"
proof -
  have ok: "handler_ok X (yc_handler conf)" "context_ok (yc_handler conf) (yc_dc conf)" using assms by (simp_all add: yaboot_ok_def)
  obtain r h where c: "discover_boot_option_create (ctx_device (yc_dc conf)) (yc_handler conf) = (r, h)" by force
  note made = create_keeps[OF ok c]
  let ?conf = "conf\<lparr>yc_handler := h\<rparr>"
  have v: "same_view (yc_handler conf) h" using create_view[OF ok(1), of "ctx_device (yc_dc conf)"] c by simp
  have "yaboot_ok X ?conf" "pending (yc_handler ?conf) (yc_dc ?conf) r"
    using made assms by (auto simp: yaboot_ok_def intro: pending_view[OF v])
  from yaboot_set_option_safe[OF this] show ?thesis
    unfolding state_start_new_option_def c Let_def prod.case
    by (rule safely_hbind) (auto intro!: safely_True_hbind[OF global_safe] simp: yaboot_ok_def)
qed

lemma yaboot_resource_safe: "safely (\<lambda>_. True) (create_yaboot_devpath_resource dev conf path)"
  unfolding create_yaboot_devpath_resource_def yaboot_devpath_def Let_def
  by (auto intro!: safely_True_hbind global_safe split: option.splits)

lemma strip_in_place_safe: "safely (\<lambda>_. True) (strip_in_place s)"
  unfolding strip_in_place_def by (auto intro!: safely_True_hbind)

lemma yaboot_finish_safe:
  assumes "yaboot_ok X conf"
  shows "safely (\<lambda>conf'. yaboot_ok X conf' \<and> ys_opt (yc_state conf') = None) (yaboot_finish conf)"
proof (cases "ys_opt (yc_state conf)")
  case (Some r)
  have ok: "handler_ok X (yc_handler conf)" "context_ok (yc_handler conf) (yc_dc conf)" "pending (yc_handler conf) (yc_dc conf) r"
    using assms Some by (simp_all add: yaboot_ok_def)
  obtain opt where opt: "h_opt (yc_handler conf) r = Some opt" using pending_live[OF ok(3)] by blast
  obtain dev where dev: "h_dev (yc_handler conf) (ctx_device (yc_dc conf)) = Some dev" using ok(2) by (auto simp: context_ok_def)
  have add: "safely (parsed_ok X) (discover_context_add_boot_option (yc_dc conf) r (put_opt r opt' (yc_handler conf)))"
    if "dbo_device opt' = dbo_device opt" for opt'
    using fill_keeps[OF ok(1,2) opt that] ok(3) by (intro add_keeps) auto
  have initrd: "safely (\<lambda>_. True) (yaboot_initrd dev conf)"
    by (auto simp: yaboot_initrd_def split: option.split intro!: safely_True_hbind[OF yaboot_resource_safe])
  show ?thesis using Some opt dev
    by (auto simp: yaboot_finish_def Let_def yaboot_ok_def split: option.split
        intro!: safely_True_hbind[OF yaboot_resource_safe] safely_True_hbind[OF initrd]
          safely_True_hbind[OF strip_in_place_safe] safely_True_hbind[OF global_safe] safely_hbind[OF add])
qed (use assms in \<open>simp add: yaboot_finish_def\<close>)

lemma yaboot_section_safe: "yaboot_ok X conf \<Longrightarrow> safely (yaboot_ok X) (yaboot_section conf)"
  unfolding yaboot_section_def
  by (rule safely_hbind[where Q = "yaboot_ok X"])
    (auto intro: state_start_new_option_safe safely_mono[OF yaboot_finish_safe])

lemma yaboot_section_pair_safe:
  assumes "yaboot_ok X conf" "ys_opt (yc_state conf) = Some r"
  shows "safely (yaboot_ok X) (yaboot_section_pair r name val conf)"
proof -
  have p: "pending (yc_handler conf) (yc_dc conf) r" using assms by (simp add: yaboot_ok_def)
  obtain dev where dev: "h_dev (yc_handler conf) (ctx_device (yc_dc conf)) = Some dev"
    using assms(1) by (auto simp: yaboot_ok_def context_ok_def)
  have "safely (yaboot_ok X) (yaboot_set_option r f conf)" for f
    by (rule safely_mono[OF yaboot_set_option_safe[OF assms(1) p]]) simp
  then show ?thesis using assms(1) dev by (simp add: yaboot_section_pair_def Let_def yaboot_ok_state)
qed

lemma yaboot_process_pair_safe:
  assumes "yaboot_ok X conf"
  shows "safely (yaboot_ok X) (yaboot_process_pair name val conf)"
proof -
  have sec: "safely (yaboot_ok X) (hbind (yaboot_section (conf\<lparr>yc_state := (yc_state conf)\<lparr>ys_globals_done := g\<rparr>\<rparr>)) (\<lambda>conf. Inr (conf\<lparr>yc_state := f (yc_state conf)\<rparr>)))"
    if "\<And>s. ys_opt (f s) = ys_opt s" for f g
    by (rule safely_hbind[OF yaboot_section_safe]) (use assms that in \<open>simp_all add: yaboot_ok_state\<close>)
  have sec': "safely (yaboot_ok X) (hbind (yaboot_section conf) (\<lambda>conf. Inr (conf\<lparr>yc_state := f (yc_state conf)\<rparr>)))"
    if "\<And>s. ys_opt (f s) = ys_opt s" for f
    using sec[of f "ys_globals_done (yc_state conf)"] that by simp
  show ?thesis unfolding yaboot_process_pair_def Let_def
    using assms by (auto split: option.split intro!: sec sec' yaboot_section_pair_safe)
qed

lemma yaboot_files_safe: "yaboot_ok X conf \<Longrightarrow> safely (yaboot_ok X) (yaboot_files fs filenames conf)"
proof (induction filenames arbitrary: conf)
  case (Cons filename filenames)
  obtain dev where dev: "h_dev (yc_handler conf) (ctx_device (yc_dc conf)) = Some dev"
    using Cons.prems by (auto simp: yaboot_ok_def context_ok_def)
  have "safely (yaboot_ok X) (yaboot_buf buf conf)" for buf
    unfolding yaboot_buf_def
    by (rule safely_hbind[OF conf_parse_buf_keeps[where P = "yaboot_ok X", OF yaboot_process_pair_safe Cons.prems]])
      (auto intro: safely_mono[OF yaboot_finish_safe])
  then have "safely (yaboot_ok X) (hbind (yaboot_buf buf conf) (\<lambda>conf.
      Inr (conf\<lparr>yc_handler := device_handler_status t m (yc_handler conf)\<rparr>)))" for buf t m
    by (rule safely_hbind) (simp add: yaboot_ok_status)
  then have "safely (yaboot_ok X) (case parser_request_file fs dev filename of None \<Rightarrow> Inr conf
      | Some buf \<Rightarrow> hbind (yaboot_buf buf conf) (\<lambda>conf.
          Inr (conf\<lparr>yc_handler := device_handler_status t m (yc_handler conf)\<rparr>)))" for t m
    using Cons.prems by (simp split: option.split)
  from safely_hbind[OF this Cons.IH] show ?case using dev by simp
qed simp

interpretation yaboot: parser "yaboot_parse fs" for fs
proof
  fix X h ctx
  assume "handler_ok X h" "context_ok h ctx"
  then show "safely (parsed_ok X) (yaboot_parse fs ctx h)"
    unfolding yaboot_parse_def
    by (auto intro!: safely_hbind[OF yaboot_files_safe] simp: yaboot_ok_def yaboot_state_init_def)
qed

section \<open>What a section inherits\<close>

abbreviation yaboot_names :: "yaboot_conf \<Rightarrow> bool" where
  "yaboot_names conf \<equiv> map fst (yc_globals conf) = map fst yaboot_global_options"

lemma set_global_None: "conf_set_global_option n v globals = None \<longleftrightarrow> (\<forall>o' \<in> set (map fst globals). \<not> strcaseeq n o')"
  by (induction globals) auto

lemma image_not_global: "yaboot_names conf \<Longrightarrow> conf_set_global_option ''image'' v (yc_globals conf) = None"
  by (simp add: set_global_None yaboot_global_options_def strcaseeq_def tolower_def del: set_map)

lemma hbind_InrE: "hbind m k = Inr y \<Longrightarrow> (\<And>x. m = Inr x \<Longrightarrow> k x = Inr y \<Longrightarrow> Q) \<Longrightarrow> Q"
  by (auto simp: hbind_Inr_iff)

lemma yaboot_finish_keeps:
  "yaboot_finish conf = Inr conf' \<Longrightarrow> ys_initrd (yc_state conf') = ys_initrd (yc_state conf) \<and>
     yc_globals conf' = yc_globals conf \<and> ys_read_write (yc_state conf') = ys_read_write (yc_state conf)"
  by (cases "ys_opt (yc_state conf)")
    (auto simp: yaboot_finish_def Let_def split: option.split_asm elim!: hbind_InrE)

text \<open>The new option has neither name nor arguments; the initrd of the last section stays.\<close>

lemma start_new_option_result:
  assumes "state_start_new_option conf = Inr conf'"
  shows "\<exists>r opt. ys_opt (yc_state conf') = Some r \<and> h_opt (yc_handler conf') r = Some opt \<and> opt_name (dbo_option opt) = None \<and>
      opt_boot_args (dbo_option opt) = Some [] \<and> ys_initrd (yc_state conf') = ys_initrd (yc_state conf) \<and>
      ys_read_write (yc_state conf') = ys_read_write (yc_state conf) \<and> yc_globals conf' = yc_globals conf"
  using assms by (auto simp: state_start_new_option_def discover_boot_option_create_def yaboot_set_option_def hbind_Inr_iff get_opt_def)

lemma image_result:
  assumes "yaboot_names conf" "yaboot_process_pair (Some ''image'') k conf = Inr conf'"
  shows "\<exists>r opt. ys_opt (yc_state conf') = Some r \<and> h_opt (yc_handler conf') r = Some opt \<and> opt_name (dbo_option opt) = None \<and>
      opt_boot_args (dbo_option opt) = Some [] \<and> ys_initrd (yc_state conf') = ys_initrd (yc_state conf) \<and>
      ys_read_write (yc_state conf') = ys_read_write (yc_state conf) \<and> yc_globals conf' = yc_globals conf"
proof -
  have "(if ys_globals_done (yc_state conf) then None else conf_set_global_option ''image'' (Some k) (yc_globals conf)) = None"
    using image_not_global[OF assms(1)] by simp
  then obtain c1 c2 where c: "(if ys_opt (yc_state conf) \<noteq> None then yaboot_finish (conf\<lparr>yc_state := (yc_state conf)\<lparr>ys_globals_done := True\<rparr>\<rparr>)
      else Inr (conf\<lparr>yc_state := (yc_state conf)\<lparr>ys_globals_done := True\<rparr>\<rparr>)) = Inr c1"
      "state_start_new_option c1 = Inr c2" "conf' = c2\<lparr>yc_state := (yc_state c2)\<lparr>ys_boot_image := Some k\<rparr>\<rparr>"
    using assms(2) by (auto simp: yaboot_process_pair_def yaboot_section_def hbind_Inr_iff)
  have "ys_initrd (yc_state c1) = ys_initrd (yc_state conf) \<and> yc_globals c1 = yc_globals conf \<and> ys_read_write (yc_state c1) = ys_read_write (yc_state conf)"
    using c(1) by (auto dest: yaboot_finish_keeps split: if_splits)
  then show ?thesis using start_new_option_result[OF c(2)] c(3) by auto
qed

text \<open>Finishing a section uses the state's initrd.\<close>

lemma yaboot_finish_option:
  assumes "yaboot_finish conf = Inr conf'" "ys_opt (yc_state conf) = Some r" "h_opt (yc_handler conf) r = Some d_opt"
    "ys_initrd (yc_state conf) = Some i"
  shows "\<exists>opt. ctx_boot_options (yc_dc conf') = ctx_boot_options (yc_dc conf) @ [r] \<and> h_opt (yc_handler conf') r = Some opt \<and>
    opt_name (dbo_option opt) = opt_name (dbo_option d_opt) \<and> dbo_initrd opt \<noteq> None"
  using assms
  by (auto simp: yaboot_finish_def Let_def yaboot_initrd_def discover_context_add_boot_option_def
      split: option.split_asm elim!: hbind_InrE)

lemma label_result:
  assumes "yaboot_process_pair (Some ''label'') n conf = Inr conf'" "yaboot_names conf" "ys_opt (yc_state conf) = Some r"
    "h_opt (yc_handler conf) r = Some opt"
  shows "yc_state conf' = yc_state conf \<and> yc_dc conf' = yc_dc conf \<and>
    (\<exists>opt'. h_opt (yc_handler conf') r = Some opt' \<and> opt_name (dbo_option opt') = Some n)"
proof -
  have "(if ys_globals_done (yc_state conf) then None else conf_set_global_option ''label'' (Some n) (yc_globals conf)) = None"
    using assms(2) by (simp add: set_global_None yaboot_global_options_def strcaseeq_def tolower_def del: set_map)
  then have "yaboot_section_pair r ''label'' n conf = Inr conf'"
    using assms(1,3) by (simp add: yaboot_process_pair_def suse_fp_def strcaseeq_def tolower_def Let_def)
  then show ?thesis using assms(4)
    by (auto simp: yaboot_section_pair_def yaboot_set_option_def strcaseeq_def tolower_def elim!: hbind_InrE)
qed

end
