(* ===== verification/Syslinux.thy ===== *)
theory Syslinux
  imports Parser_Conf
begin

text \<open>
  The parser for \<^verbatim>\<open>syslinux.cfg\<close>, \<^verbatim>\<open>discover/syslinux-parser.c\<close>.  The entries of a file and of the files it
  includes are collected first and become boot options when the file ends.  The depth of inclusion is a parameter: the
  number of levels that are left of \<^verbatim>\<open>INCLUDE_NEST_LIMIT\<close>.
\<close>

section \<open>State\<close>

record syslinux_boot_option =
  sl_label :: cstr
  sl_image :: cstr
  sl_append :: cstr
  sl_initrd :: cstr

record syslinux_options =
  so_processed_options :: "syslinux_boot_option list"
  so_current_option :: "syslinux_boot_option option"
  so_cfg_dir :: cstr

record syslinux_conf =
  sc_globals :: "(string \<times> cstr) list"
  sc_state :: syslinux_options
  sc_dc :: discover_context
  sc_handler :: device_handler

definition INCLUDE_NEST_LIMIT :: nat where
  "INCLUDE_NEST_LIMIT = 16"

definition syslinux_conf_files :: "string list" where
  "syslinux_conf_files =
     [''/boot/syslinux/syslinux.cfg'', ''/syslinux/syslinux.cfg'', ''/syslinux.cfg'',
      ''/BOOT/SYSLINUX/SYSLINUX.CFG'', ''/SYSLINUX/SYSLINUX.CFG'', ''/SYSLINUX.CFG'']"

definition syslinux_kernel_unsupported_extensions :: "string list" where
  "syslinux_kernel_unsupported_extensions = [''.0'', ''.bin'', ''.bs'', ''.bss'', ''.c32'', ''.cbt'', ''.com'', ''.img'']"

definition syslinux_ignored_names :: "string list" where
  "syslinux_ignored_names =
     [''config'', ''sysapend'', ''localboot'', ''ui'', ''prompt'', ''noescape'', ''nocomplete'', ''allowoptions'', ''timeout'',
      ''totaltimeout'', ''ontimeout'', ''onerror'', ''serial'', ''nohalt'', ''console'', ''font'', ''kbdmap'', ''say'', ''display'',
      ''f1'', ''f2'', ''f3'', ''f4'', ''f5'', ''f6'', ''f7'', ''f8'', ''f9'', ''f10'', ''f11'', ''f12'']"

definition syslinux_unsupported_boot_names :: "string list" where
  "syslinux_unsupported_boot_names = [''boot'', ''bss'', ''pxe'', ''fdimage'', ''comboot'', ''com32'']"

definition syslinux_global_options :: "(string \<times> cstr) list" where
  "syslinux_global_options = [(''default'', None), (''implicit'', None), (''append'', None)]"

section \<open>Entries\<close>

text \<open>New entries go to the front of the list.\<close>

definition finish_boot_option :: "bool \<Rightarrow> syslinux_options \<Rightarrow> syslinux_options" where
  "finish_boot_option free_if_unused state =
     (case so_current_option state of
        None \<Rightarrow> state
      | Some e \<Rightarrow>
          if sl_image e \<noteq> None
          then state\<lparr>so_processed_options := e # so_processed_options state, so_current_option := None\<rparr>
          else if free_if_unused then state\<lparr>so_current_option := None\<rparr> else state)"

definition syslinux_entry :: syslinux_boot_option where
  "syslinux_entry = \<lparr>sl_label = None, sl_image = None, sl_append = None, sl_initrd = None\<rparr>"

definition start_new_option :: "syslinux_options \<Rightarrow> syslinux_options" where
  "start_new_option state =
     (let state = finish_boot_option False state
      in if so_current_option state = None then state\<lparr>so_current_option := Some syslinux_entry\<rparr> else state)"

definition on_current :: "(syslinux_boot_option \<Rightarrow> syslinux_boot_option) \<Rightarrow> syslinux_options \<Rightarrow> syslinux_options" where
  "on_current f state = state\<lparr>so_current_option := map_option f (so_current_option state)\<rparr>"

definition supported_kernel :: "string \<Rightarrow> bool" where
  "supported_kernel val =
     (case strrchr val CHR ''.'' of
        None \<Rightarrow> True
      | Some pos \<Rightarrow> \<not> conf_param_in_list syslinux_kernel_unsupported_extensions (drop pos val))"

section \<open>Lines\<close>

text \<open>\<open>include\<close> reads an included file.\<close>

definition syslinux_process_pair ::
    "(string \<Rightarrow> syslinux_conf \<Rightarrow> syslinux_conf h_m) \<Rightarrow> cstr \<Rightarrow> string \<Rightarrow> syslinux_conf \<Rightarrow> syslinux_conf h_m" where
  "syslinux_process_pair incl name val conf =
     (let state = sc_state conf
      in case name of
           None \<Rightarrow> Inr conf
         | Some n \<Rightarrow>
             if conf_param_in_list syslinux_ignored_names n then Inr conf
             else if conf_param_in_list syslinux_unsupported_boot_names n then
               Inr (conf\<lparr>sc_state := finish_boot_option True state\<rparr>)
             else if strcaseeq n ''label'' then
               Inr (conf\<lparr>sc_state := (finish_boot_option True state)\<lparr>so_current_option := Some (syslinux_entry\<lparr>sl_label := Some val\<rparr>)\<rparr>\<rparr>)
             else if strcaseeq n ''linux'' then
               Inr (conf\<lparr>sc_state := on_current (\<lambda>e. e\<lparr>sl_image := Some val\<rparr>) (start_new_option state)\<rparr>)
             else if strcaseeq n ''kernel'' then
               (let state = start_new_option state
                in if supported_kernel val then Inr (conf\<lparr>sc_state := on_current (\<lambda>e. e\<lparr>sl_image := Some val\<rparr>) state\<rparr>)
                   else Inr (conf\<lparr>sc_state := finish_boot_option True state\<rparr>))
             else if strcaseeq n ''append'' then
               (if so_current_option state \<noteq> None then Inr (conf\<lparr>sc_state := on_current (\<lambda>e. e\<lparr>sl_append := Some val\<rparr>) state\<rparr>)
                else Inr (conf\<lparr>sc_globals := (case conf_set_global_option n (Some val) (sc_globals conf) of
                            Some g \<Rightarrow> g | None \<Rightarrow> sc_globals conf), sc_state := finish_boot_option True state\<rparr>))
             else
               (case conf_set_global_option n (Some val) (sc_globals conf) of
                  Some globals \<Rightarrow> Inr (conf\<lparr>sc_globals := globals, sc_state := finish_boot_option True state\<rparr>)
                | None \<Rightarrow>
                    if strcaseeq n ''initrd'' then Inr (conf\<lparr>sc_state := on_current (\<lambda>e. e\<lparr>sl_initrd := Some val\<rparr>) state\<rparr>)
                    else if strcaseeq n ''include'' then incl val conf
                    else Inr conf))"

definition conf_status :: "status_type \<Rightarrow> (cstr \<Rightarrow> handler_msg) \<Rightarrow> discover_device \<Rightarrow> syslinux_conf \<Rightarrow> syslinux_conf" where
  "conf_status t m dev conf =
     conf\<lparr>sc_handler := device_handler_status t (m (dev_id (dd_device dev))) (sc_handler conf)\<rparr>"

text \<open>The line of a file with \<open>n\<close> levels of inclusion left.\<close>

primrec syslinux_level :: "device_files \<Rightarrow> nat \<Rightarrow> cstr \<Rightarrow> string \<Rightarrow> syslinux_conf \<Rightarrow> syslinux_conf h_m" where
  "syslinux_level fs 0 =
     syslinux_process_pair (\<lambda>val conf.
       hbind (get_dev (sc_handler conf) (ctx_device (sc_dc conf))) (\<lambda>dev.
       Inr (conf_status STATUS_ERROR Nested_limit dev conf)))"
| "syslinux_level fs (Suc n) =
     syslinux_process_pair (\<lambda>val conf.
       hbind (get_dev (sc_handler conf) (ctx_device (sc_dc conf))) (\<lambda>dev.
       let path = (if take 1 val = ''/'' then val else join_paths (so_cfg_dir (sc_state conf)) (Some val))
       in case parser_request_file fs dev path of
            Some buf \<Rightarrow>
              hbind (conf_parse_buf CHR '' '' (syslinux_level fs n) True (takeWhile (\<lambda>c. c \<noteq> NUL) buf) conf) (\<lambda>conf.
              Inr (conf_status STATUS_INFO (\<lambda>d. Parsed_nested d val) dev conf))
          | None \<Rightarrow> Inr (conf_status STATUS_INFO (\<lambda>d. Nested_failed d val) dev conf)))"

section \<open>Options\<close>

definition syslinux_args :: "cstr \<Rightarrow> cstr \<Rightarrow> cstr" where
  "syslinux_args global_append local_append =
     (case local_append of
        None \<Rightarrow> global_append
      | Some a \<Rightarrow>
          if a = ''-'' then Some []
          else (case global_append of Some g \<Rightarrow> Some (g @ '' '' @ a) | None \<Rightarrow> Some a))"

text \<open>The members of the option for an entry with a kernel; \<open>None\<close> is the branch to \<^verbatim>\<open>fail\<close>.\<close>

definition syslinux_option ::
    "cstr \<Rightarrow> cstr \<Rightarrow> discover_device \<Rightarrow> syslinux_boot_option \<Rightarrow> string \<Rightarrow> discover_boot_option \<Rightarrow> discover_boot_option option h_m" where
  "syslinux_option global_append global_default dev e img d_opt =
     (case syslinux_args global_append (sl_append e) of
        None \<Rightarrow> Inr None
      | Some boot_args \<Rightarrow>
          hbind (case sl_label e of
                   Some label \<Rightarrow>
                     (case global_default of
                        None \<Rightarrow> Inl Null_pointer
                      | Some d \<Rightarrow> Inr (label, label = d, ''('' @ label @ '') '' @ img))
                 | None \<Rightarrow> Inr (img, False, img)) (\<lambda>(name, is_default, description).
          hbind (create_devpath_resource dev img) (\<lambda>boot_image.
          hbind (optional_resource dev (sl_initrd e)) (\<lambda>initrd.
          let description = (case sl_initrd e of Some i \<Rightarrow> description @ '' initrd='' @ i | None \<Rightarrow> description) @ '' args='' @ boot_args
          in hbind (create_devpath_resource dev (img @ ''.cmdline.sig'')) (\<lambda>sig.
             hbind (strip_in_place boot_args) (\<lambda>boot_args.
             hbind (strip_in_place description) (\<lambda>description.
             Inr (Some (d_opt\<lparr>dbo_boot_image := Some boot_image, dbo_initrd := initrd, dbo_args_sig_file := Some sig,
               dbo_option := (dbo_option d_opt)
                 \<lparr>opt_boot_args := Some boot_args, opt_id := Some (fmt_s (dev_id (dd_device dev)) @ ''#'' @ img),
                  opt_name := Some name, opt_is_default := is_default, opt_description := Some description\<rparr>\<rparr>)))))))))"

text \<open>The comparison of the \<^verbatim>\<open>implicit\<close> option is a comma expression, which is always true: an entry needs a label.\<close>

definition implicit_image :: bool where
  "implicit_image = False"

definition finalize_entry :: "cstr \<Rightarrow> cstr \<Rightarrow> syslinux_boot_option \<Rightarrow> syslinux_conf \<Rightarrow> syslinux_conf h_m" where
  "finalize_entry global_append global_default e conf =
     (case sl_image e of
        None \<Rightarrow> Inr conf
      | Some img \<Rightarrow>
          if sl_label e = None \<and> \<not> implicit_image then Inr conf
          else
            (let (r, h) = discover_boot_option_create (ctx_device (sc_dc conf)) (sc_handler conf)
             in hbind (get_opt h r) (\<lambda>d_opt.
                hbind (get_dev h (ctx_device (sc_dc conf))) (\<lambda>dev.
                hbind (syslinux_option global_append global_default dev e img d_opt) (\<lambda>filled.
                case filled of
                  None \<Rightarrow> Inr (conf\<lparr>sc_handler := free_opt r h\<rparr>)
                | Some d_opt \<Rightarrow>
                    hbind (discover_context_add_boot_option (sc_dc conf) r (put_opt r d_opt h)) (\<lambda>(ctx, h).
                    Inr (conf\<lparr>sc_dc := ctx, sc_handler := h\<rparr>)))))))"

fun finalize_entries :: "cstr \<Rightarrow> cstr \<Rightarrow> syslinux_boot_option list \<Rightarrow> syslinux_conf \<Rightarrow> syslinux_conf h_m" where
  "finalize_entries global_append global_default [] conf = Inr conf"
| "finalize_entries global_append global_default (e # es) conf =
     hbind (finalize_entry global_append global_default e conf) (finalize_entries global_append global_default es)"

definition syslinux_finalize :: "syslinux_conf \<Rightarrow> syslinux_conf h_m" where
  "syslinux_finalize conf =
     (let state = finish_boot_option True (sc_state conf)
      in hbind (conf_get_global_option (sc_globals conf) ''append'') (\<lambda>global_append.
         hbind (conf_get_global_option (sc_globals conf) ''default'') (\<lambda>global_default.
         hbind (conf_get_global_option (sc_globals conf) ''implicit'') (\<lambda>_.
         hbind (finalize_entries global_append global_default (so_processed_options state) conf) (\<lambda>conf.
         Inr (conf\<lparr>sc_state := state\<lparr>so_processed_options := []\<rparr>\<rparr>))))))"

section \<open>Files\<close>

text \<open>\<^verbatim>\<open>dirname\<close> of a path that does not end with a slash.\<close>

definition conf_dirname :: "string \<Rightarrow> string" where
  "conf_dirname path =
     (case strrchr path CHR ''/'' of None \<Rightarrow> ''.'' | Some 0 \<Rightarrow> ''/'' | Some n \<Rightarrow> take n path)"

definition syslinux_file :: "device_files \<Rightarrow> discover_device \<Rightarrow> string \<Rightarrow> string \<Rightarrow> syslinux_conf \<Rightarrow> syslinux_conf h_m" where
  "syslinux_file fs dev filename buf conf =
     hbind (conf_parse_buf CHR '' '' (syslinux_level fs INCLUDE_NEST_LIMIT) True (takeWhile (\<lambda>c. c \<noteq> NUL) buf)
             (conf\<lparr>sc_state := (sc_state conf)\<lparr>so_cfg_dir := Some (conf_dirname filename)\<rparr>\<rparr>)) (\<lambda>conf.
     syslinux_finalize (conf_status STATUS_INFO (\<lambda>d. Parsed_config d ''syslinux'' filename) dev conf))"

fun syslinux_files :: "device_files \<Rightarrow> string list \<Rightarrow> nat list \<Rightarrow> syslinux_conf \<Rightarrow> syslinux_conf h_m" where
  "syslinux_files fs [] found conf = Inr conf"
| "syslinux_files fs (filename # filenames) found conf =
     hbind (get_dev (sc_handler conf) (ctx_device (sc_dc conf))) (\<lambda>dev.
     let (unique, found) = parser_is_unique fs dev filename found
     in hbind (if \<not> unique then Inr conf
               else (case parser_request_file fs dev filename of
                       None \<Rightarrow> Inr conf
                     | Some buf \<Rightarrow> syslinux_file fs dev filename buf conf))
          (syslinux_files fs filenames found))"

definition syslinux_globals :: "(string \<times> cstr) list" where
  "syslinux_globals = [(''default'', Some ''linux''), (''implicit'', Some ''1''), (''append'', None)]"

lemma syslinux_globals_init:
  "Option.bind (conf_set_global_option ''default'' (Some ''linux'') (conf_init_global_options syslinux_global_options))
     (conf_set_global_option ''implicit'' (Some ''1'')) = Some syslinux_globals"
  by (simp add: syslinux_globals_def syslinux_global_options_def conf_init_global_options_def strcaseeq_def tolower_def)

definition syslinux_parse :: "device_files \<Rightarrow> parser_fn" where
  "syslinux_parse fs ctx h =
     (if ctx_event ctx \<noteq> None then Inr (ctx, h)
      else
        hbind (syslinux_files fs syslinux_conf_files []
                \<lparr>sc_globals = syslinux_globals,
                 sc_state = \<lparr>so_processed_options = [], so_current_option = None, so_cfg_dir = None\<rparr>,
                 sc_dc = ctx, sc_handler = h\<rparr>)
          (\<lambda>conf. Inr (sc_dc conf, sc_handler conf)))"

section \<open>Safety\<close>

definition syslinux_ok :: "(nat + nat) set \<Rightarrow> syslinux_conf \<Rightarrow> bool" where
  "syslinux_ok X conf \<longleftrightarrow> parsed_ok X (sc_dc conf, sc_handler conf)"

lemma syslinux_ok_irrelevant [simp]:
  "syslinux_ok X (conf\<lparr>sc_state := s\<rparr>) = syslinux_ok X conf" "syslinux_ok X (conf\<lparr>sc_globals := g\<rparr>) = syslinux_ok X conf"
  by (simp_all add: syslinux_ok_def)

lemma syslinux_ok_status: "syslinux_ok X conf \<Longrightarrow> syslinux_ok X (conf_status t m dev conf)"
  by (auto simp: syslinux_ok_def conf_status_def intro: context_ok_view[OF same_view_status(1)])

lemma syslinux_ok_dev: "syslinux_ok X conf \<Longrightarrow> \<exists>dev. get_dev (sc_handler conf) (ctx_device (sc_dc conf)) = Inr dev"
  by (auto simp: syslinux_ok_def context_ok_def)

lemma on_device_safe:
  "syslinux_ok X conf \<Longrightarrow> (\<And>dev. safely P (k dev)) \<Longrightarrow> safely P (hbind (get_dev (sc_handler conf) (ctx_device (sc_dc conf))) k)"
  using syslinux_ok_dev[of X conf] by auto

lemma syslinux_process_pair_safe:
  assumes "\<And>val conf. syslinux_ok X conf \<Longrightarrow> safely (syslinux_ok X) (incl val conf)" "syslinux_ok X conf"
  shows "safely (syslinux_ok X) (syslinux_process_pair incl name val conf)"
  using assms by (simp add: syslinux_process_pair_def Let_def split: option.split)

lemma syslinux_level_safe: "syslinux_ok X conf \<Longrightarrow> safely (syslinux_ok X) (syslinux_level fs n name val conf)"
proof (induction n arbitrary: name val conf)
  case 0
  then show ?case by (auto intro!: syslinux_process_pair_safe syslinux_ok_status on_device_safe)
next
  case (Suc n)
  have "safely (syslinux_ok X) (hbind (conf_parse_buf CHR '' '' (syslinux_level fs n) True buf conf) (\<lambda>conf.
      Inr (conf_status t m dev conf)))" if "syslinux_ok X conf" for buf conf t m dev
    by (rule safely_hbind[OF conf_parse_buf_keeps[where P = "syslinux_ok X", OF Suc.IH that]]) (auto simp: syslinux_ok_status)
  then show ?case using Suc.prems
    by (auto simp: Let_def intro!: syslinux_process_pair_safe syslinux_ok_status on_device_safe split: option.split)
qed

lemma syslinux_option_safe:
  "safely (\<lambda>filled. \<forall>opt. filled = Some opt \<longrightarrow> dbo_device opt = dbo_device d_opt) (syslinux_option ga gd dev e img d_opt)"
  unfolding syslinux_option_def optional_resource_def strip_in_place_def
  by (auto simp: Let_def split: option.splits intro!: safely_True_hbind safely_pair_hbind)

lemma finalize_entry_safe:
  assumes "syslinux_ok X conf"
  shows "safely (syslinux_ok X) (finalize_entry ga gd e conf)"
proof -
  have ok: "handler_ok X (sc_handler conf)" "context_ok (sc_handler conf) (sc_dc conf)" using assms by (simp_all add: syslinux_ok_def)
  obtain r h where c: "discover_boot_option_create (ctx_device (sc_dc conf)) (sc_handler conf) = (r, h)" by force
  note made = create_keeps[OF ok c]
  obtain opt where opt: "h_opt h r = Some opt" using pending_live[OF made(3)] by blast
  obtain dev where dev: "h_dev h (ctx_device (sc_dc conf)) = Some dev" using made(2) by (auto simp: context_ok_def)
  have "safely (syslinux_ok X) (hbind (syslinux_option ga gd dev e img opt) (\<lambda>filled.
      case filled of None \<Rightarrow> Inr (conf\<lparr>sc_handler := free_opt r h\<rparr>)
      | Some d_opt \<Rightarrow> hbind (discover_context_add_boot_option (sc_dc conf) r (put_opt r d_opt h)) (\<lambda>(ctx, h).
                    Inr (conf\<lparr>sc_dc := ctx, sc_handler := h\<rparr>))))" for img
  proof (rule safely_hbind[OF syslinux_option_safe])
    fix filled :: "discover_boot_option option" assume f: "\<forall>d_opt. filled = Some d_opt \<longrightarrow> dbo_device d_opt = dbo_device opt"
    show "safely (syslinux_ok X) (case filled of None \<Rightarrow> Inr (conf\<lparr>sc_handler := free_opt r h\<rparr>)
      | Some d_opt \<Rightarrow> hbind (discover_context_add_boot_option (sc_dc conf) r (put_opt r d_opt h)) (\<lambda>(ctx, h).
                    Inr (conf\<lparr>sc_dc := ctx, sc_handler := h\<rparr>)))"
    proof (cases filled)
      case None
      then show ?thesis using drop_keeps[OF made] by (simp add: syslinux_ok_def)
    next
      case (Some d_opt)
      then have "safely (parsed_ok X) (discover_context_add_boot_option (sc_dc conf) r (put_opt r d_opt h))"
        using f by (intro add_option_keeps[OF ok c opt]) simp
      then have "safely (syslinux_ok X) (hbind (discover_context_add_boot_option (sc_dc conf) r (put_opt r d_opt h)) (\<lambda>(ctx, h).
                    Inr (conf\<lparr>sc_dc := ctx, sc_handler := h\<rparr>)))"
        by (rule safely_hbind) (auto simp: syslinux_ok_def)
      then show ?thesis by (simp add: Some)
    qed
  qed
  then show ?thesis using assms opt dev by (simp add: finalize_entry_def c split: option.split)
qed

lemma finalize_entries_safe: "syslinux_ok X conf \<Longrightarrow> safely (syslinux_ok X) (finalize_entries ga gd es conf)"
  by (induction es arbitrary: conf) (auto intro: safely_hbind[OF finalize_entry_safe])

lemma syslinux_finalize_safe: "syslinux_ok X conf \<Longrightarrow> safely (syslinux_ok X) (syslinux_finalize conf)"
  unfolding syslinux_finalize_def conf_get_global_option_def Let_def
  by (auto intro!: safely_hbind[OF finalize_entries_safe] split: option.split)

lemma syslinux_file_safe: "syslinux_ok X conf \<Longrightarrow> safely (syslinux_ok X) (syslinux_file fs dev filename buf conf)"
  unfolding syslinux_file_def
  by (rule safely_hbind[OF conf_parse_buf_keeps[where P = "syslinux_ok X", OF syslinux_level_safe]])
    (auto intro: syslinux_finalize_safe syslinux_ok_status)

lemma syslinux_files_safe: "syslinux_ok X conf \<Longrightarrow> safely (syslinux_ok X) (syslinux_files fs filenames found conf)"
proof (induction filenames arbitrary: found conf)
  case (Cons filename filenames)
  obtain dev where dev: "get_dev (sc_handler conf) (ctx_device (sc_dc conf)) = Inr dev" using syslinux_ok_dev[OF Cons.prems] by blast
  obtain unique found' where u: "parser_is_unique fs dev filename found = (unique, found')" by force
  have "safely (syslinux_ok X) (if \<not> unique then Inr conf
      else (case parser_request_file fs dev filename of None \<Rightarrow> Inr conf | Some buf \<Rightarrow> syslinux_file fs dev filename buf conf))"
    using Cons.prems syslinux_file_safe by (simp split: option.split)
  from safely_hbind[OF this Cons.IH] show ?case using dev by (simp add: u)
qed simp

interpretation syslinux: parser "syslinux_parse fs" for fs
proof
  fix X h ctx
  assume "handler_ok X h" "context_ok h ctx"
  then show "safely (parsed_ok X) (syslinux_parse fs ctx h)"
    unfolding syslinux_parse_def
    by (auto intro!: safely_hbind[OF syslinux_files_safe] simp: syslinux_ok_def)
qed

section \<open>Which entries become options\<close>

definition listed :: "cstr \<Rightarrow> syslinux_boot_option \<Rightarrow> bool" where
  "listed global_append e \<longleftrightarrow>
     sl_image e \<noteq> None \<and> sl_label e \<noteq> None \<and> (sl_append e \<noteq> None \<or> global_append \<noteq> None)"

lemma syslinux_args_None: "syslinux_args ga la = None \<longleftrightarrow> ga = None \<and> la = None"
  by (auto simp: syslinux_args_def split: option.splits)

lemma syslinux_option_None:
  "syslinux_option ga gd dev e img d_opt = Inr filled \<Longrightarrow> filled = None \<longleftrightarrow> ga = None \<and> sl_append e = None"
  by (cases "syslinux_args ga (sl_append e)")
    (auto simp: syslinux_option_def Let_def hbind_def syslinux_args_None[symmetric] split: sum.splits prod.splits)

text \<open>What the option of an entry says; \<open>gd\<close> is the global default.\<close>

definition entry_option :: "cstr \<Rightarrow> cstr \<Rightarrow> syslinux_boot_option \<Rightarrow> discover_boot_option \<Rightarrow> bool" where
  "entry_option ga gd e opt \<longleftrightarrow>
     opt_name (dbo_option opt) = sl_label e \<and> opt_is_default (dbo_option opt) = (sl_label e = gd) \<and>
     dbo_boot_image opt \<noteq> None \<and> (dbo_initrd opt \<noteq> None) = (sl_initrd e \<noteq> None) \<and>
     map_sum id Some (strip_in_place (the (syslinux_args ga (sl_append e)))) = Inr (opt_boot_args (dbo_option opt))"

lemma syslinux_option_Some:
  assumes "syslinux_option ga gd dev e img d_opt = Inr (Some opt)" "sl_label e \<noteq> None"
  shows "entry_option ga gd e opt"
  using assms unfolding syslinux_option_def entry_option_def optional_resource_def
  by (auto simp: Let_def hbind_def split: option.splits sum.splits)

lemma entry_option_source [simp]: "entry_option ga gd e (opt\<lparr>dbo_source := s\<rparr>) = entry_option ga gd e opt"
  by (simp add: entry_option_def)

text \<open>Options that exist already are left alone.\<close>

definition only_new :: "device_handler \<Rightarrow> device_handler \<Rightarrow> bool" where
  "only_new h h' \<longleftrightarrow> h_next h \<le> h_next h' \<and> (\<forall>r < h_next h. h_opt h' r = h_opt h r)"

lemma only_new_trans: "only_new a b \<Longrightarrow> only_new b c \<Longrightarrow> only_new a c"
  by (auto simp: only_new_def)

lemma finalize_entry_result:
  assumes "finalize_entry ga gd e conf = Inr conf'"
  shows "only_new (sc_handler conf) (sc_handler conf')"
    and "\<not> listed ga e \<Longrightarrow> ctx_boot_options (sc_dc conf') = ctx_boot_options (sc_dc conf)"
    and "listed ga e \<Longrightarrow> \<exists>r opt. ctx_boot_options (sc_dc conf') = ctx_boot_options (sc_dc conf) @ [r] \<and>
       r < h_next (sc_handler conf') \<and> h_opt (sc_handler conf') r = Some opt \<and> entry_option ga gd e opt"
proof -
  have *: "only_new (sc_handler conf) (sc_handler conf') \<and>
     (if listed ga e then \<exists>opt. ctx_boot_options (sc_dc conf') = ctx_boot_options (sc_dc conf) @ [h_next (sc_handler conf)] \<and>
        h_next (sc_handler conf) < h_next (sc_handler conf') \<and> h_opt (sc_handler conf') (h_next (sc_handler conf)) = Some opt \<and> entry_option ga gd e opt
      else ctx_boot_options (sc_dc conf') = ctx_boot_options (sc_dc conf))"
  proof (cases "sl_image e = None \<or> sl_label e = None")
    case True
    then have "finalize_entry ga gd e conf = Inr conf"
      by (cases "sl_image e") (auto simp: finalize_entry_def implicit_image_def)
    then show ?thesis using assms True by (auto simp: listed_def only_new_def)
  next
    case False
    then obtain img where img: "sl_image e = Some img" "sl_label e \<noteq> None" by auto
    obtain r h where c: "discover_boot_option_create (ctx_device (sc_dc conf)) (sc_handler conf) = (r, h)" by force
    have new: "r = h_next (sc_handler conf)" "h_next h = Suc r" "only_new (sc_handler conf) h"
      using c by (auto simp: discover_boot_option_create_def only_new_def)
    from assms img c obtain d_opt dev filled where s: "syslinux_option ga gd dev e img d_opt = Inr filled"
      and f: "(case filled of None \<Rightarrow> Inr (conf\<lparr>sc_handler := free_opt r h\<rparr>)
        | Some d_opt \<Rightarrow> hbind (discover_context_add_boot_option (sc_dc conf) r (put_opt r d_opt h)) (\<lambda>(ctx, h).
            Inr (conf\<lparr>sc_dc := ctx, sc_handler := h\<rparr>))) = Inr conf'"
      by (auto simp: finalize_entry_def hbind_Inr_iff)
    show ?thesis
    proof (cases filled)
      case None
      then show ?thesis using f new syslinux_option_None[OF s] by (auto simp: listed_def free_opt_def only_new_def)
    next
      case (Some opt)
      then show ?thesis using f new img syslinux_option_None[OF s] syslinux_option_Some[of ga gd dev e img d_opt opt] s
        by (auto simp: listed_def only_new_def discover_context_add_boot_option_def)
    qed
  qed
  then show "only_new (sc_handler conf) (sc_handler conf')"
    and "\<not> listed ga e \<Longrightarrow> ctx_boot_options (sc_dc conf') = ctx_boot_options (sc_dc conf)"
    and "listed ga e \<Longrightarrow> \<exists>r opt. ctx_boot_options (sc_dc conf') = ctx_boot_options (sc_dc conf) @ [r] \<and>
       r < h_next (sc_handler conf') \<and> h_opt (sc_handler conf') r = Some opt \<and> entry_option ga gd e opt"
    by auto
qed

definition entry_at :: "cstr \<Rightarrow> cstr \<Rightarrow> device_handler \<Rightarrow> nat \<Rightarrow> syslinux_boot_option \<Rightarrow> bool" where
  "entry_at ga gd h r e \<longleftrightarrow> r < h_next h \<and> (\<exists>opt. h_opt h r = Some opt \<and> entry_option ga gd e opt)"

lemma entry_at_new: "entry_at ga gd h r e \<Longrightarrow> only_new h h' \<Longrightarrow> entry_at ga gd h' r e"
  by (auto simp: entry_at_def only_new_def)

lemma finalize_entries_result:
  "finalize_entries ga gd es conf = Inr conf' \<Longrightarrow> only_new (sc_handler conf) (sc_handler conf') \<and>
     (\<exists>rs. ctx_boot_options (sc_dc conf') = ctx_boot_options (sc_dc conf) @ rs \<and>
        list_all2 (entry_at ga gd (sc_handler conf')) rs (filter (listed ga) es))"
proof (induction es arbitrary: conf)
  case (Cons e es)
  then obtain c where c: "finalize_entry ga gd e conf = Inr c" "finalize_entries ga gd es c = Inr conf'"
    by (auto simp: hbind_def split: sum.splits)
  note first = finalize_entry_result[OF c(1)]
  obtain rs where rs: "only_new (sc_handler c) (sc_handler conf')" "ctx_boot_options (sc_dc conf') = ctx_boot_options (sc_dc c) @ rs"
      "list_all2 (entry_at ga gd (sc_handler conf')) rs (filter (listed ga) es)" using Cons.IH[OF c(2)] by blast
  have n: "only_new (sc_handler conf) (sc_handler conf')" by (rule only_new_trans[OF first(1) rs(1)])
  show ?case
  proof (cases "listed ga e")
    case True
    then obtain r where "ctx_boot_options (sc_dc c) = ctx_boot_options (sc_dc conf) @ [r]" "entry_at ga gd (sc_handler c) r e"
      using first(3) by (auto simp: entry_at_def)
    then show ?thesis using True n rs entry_at_new[OF _ rs(1)] by (intro conjI exI[of _ "r # rs"]) auto
  qed (use n rs first(2) in auto)
qed (simp add: only_new_def)

end
