(* ===== verification/Grub_Env.thy ===== *)
theory Grub_Env
  imports Discovery
begin

text \<open>
  The variables of a GRUB script, \<^verbatim>\<open>script_env_get\<close> and \<^verbatim>\<open>script_env_set\<close> of \<^verbatim>\<open>discover/grub2/script.c\<close>, and the
  environment block in which some of them are kept between boots, \<^verbatim>\<open>discover/grub2/env.c\<close>.  A block is a file of fixed
  size: a signature, lines \<^verbatim>\<open>name=value\<close> and padding.  \<^verbatim>\<open>update_env\<close> works in place on the buffer; its moves and copies
  are modelled with their bounds, so that an access outside the buffer is a fault.
\<close>

section \<open>Variables\<close>

type_synonym script_env = "(string \<times> string) list"

definition script_env_get :: "script_env \<Rightarrow> string \<Rightarrow> cstr" where
  "script_env_get env name = map_of env name"

fun env_replace :: "script_env \<Rightarrow> string \<Rightarrow> string \<Rightarrow> script_env option" where
  "env_replace [] name val = None"
| "env_replace (e # env) name val =
     (if fst e = name then Some ((fst e, val) # env) else map_option (\<lambda>env. e # env) (env_replace env name val))"

definition script_env_set :: "script_env \<Rightarrow> string \<Rightarrow> string \<Rightarrow> script_env" where
  "script_env_set env name val =
     (case env_replace env name val of Some env \<Rightarrow> env | None \<Rightarrow> (name, val) # env)"

lemma env_replace_get:
  "env_replace env name val = Some env' \<Longrightarrow> map_of env' = (map_of env)(name \<mapsto> val)"
  by (induction env arbitrary: env') (auto split: if_splits simp: fun_eq_iff)

lemma env_replace_None: "env_replace env name val = None \<longleftrightarrow> name \<notin> fst ` set env"
  by (induction env) auto

lemma script_env_get_set [simp]:
  "script_env_get (script_env_set env name val) k = (if name = k then Some val else script_env_get env k)"
  by (auto simp: script_env_set_def script_env_get_def split: option.split dest: env_replace_get)

interpretation script_env: kv_store script_env_get script_env_set "\<lambda>_. True" "(=)"
  by unfold_locales simp_all

section \<open>Reading a block\<close>

definition env_signature :: string where
  "env_signature = ''# GRUB Environment Block'' @ [CHR 0x0A]"

definition env_line :: "script_env \<Rightarrow> string \<Rightarrow> script_env" where
  "env_line env line =
     (if take 1 line = ''#'' then env
      else
        (case strchr line CHR ''='' of
           None \<Rightarrow> env
         | Some 0 \<Rightarrow> env
         | Some n \<Rightarrow> script_env_set env (take n line) (drop (Suc n) line)))"

text \<open>\<open>None\<close>: the block is too small or has another signature.\<close>

definition parse_buf_to_env :: "script_env \<Rightarrow> string \<Rightarrow> script_env option" where
  "parse_buf_to_env env buf =
     (if length buf < length env_signature then None
      else if take (length env_signature) buf \<noteq> env_signature then None
      else Some (foldl env_line env
        (strtok_all CHR 0x0A (takeWhile (\<lambda>c. c \<noteq> NUL) (drop (length env_signature) buf)))))"

section \<open>Updating a block\<close>

text \<open>The place for the entry, its end, the end of the last line, and whether the variable was found.\<close>

record env_scan =
  sc_place :: "(nat \<times> nat) option"
  sc_end :: "nat option"
  sc_replace :: bool

text \<open>One line, \<open>n\<close> characters and its newline at offset \<open>i\<close>.\<close>

definition scan_line :: "string \<Rightarrow> string \<Rightarrow> nat \<Rightarrow> env_scan \<Rightarrow> env_scan" where
  "scan_line name line i st =
     (let linelen = Suc (length line);
          sep = strchr line CHR ''='';
          st = st\<lparr>sc_end := Some (i + linelen)\<rparr>;
          st = (if sep = None \<and> \<not> sc_replace st then st\<lparr>sc_place := Some (i, i + linelen)\<rparr> else st)
      in if sep = Some (length name) \<and> \<not> sc_replace st \<and> take (length name) line = name
         then st\<lparr>sc_place := Some (i, i + linelen), sc_replace := True\<rparr> else st)"

function scan_lines :: "string \<Rightarrow> nat \<Rightarrow> string \<Rightarrow> nat \<Rightarrow> env_scan \<Rightarrow> env_scan" where
  "scan_lines name entrylen rest i st =
     (if rest = [] then st
      else
        (case strchr rest CHR 0x0A of
           None \<Rightarrow> st\<lparr>sc_place := (case sc_place st of None \<Rightarrow> Some (i, i + entrylen) | Some p \<Rightarrow> Some p), sc_end := Some i\<rparr>
         | Some n \<Rightarrow> scan_lines name entrylen (drop (Suc n) rest) (i + Suc n) (scan_line name (take n rest) i st)))"
  by pat_completeness auto

termination scan_lines
  by (relation "measure (\<lambda>(name, entrylen, rest, i, st). length rest)") (auto dest: strchr_Some)

declare scan_lines.simps [simp del]

definition buf_write :: "string \<Rightarrow> nat \<Rightarrow> string \<Rightarrow> string h_m" where
  "buf_write buf pos s =
     (if pos + length s \<le> length buf then Inr (take pos buf @ s @ drop (pos + length s) buf) else Inl Out_of_bounds)"

definition memmove :: "string \<Rightarrow> int \<Rightarrow> int \<Rightarrow> int \<Rightarrow> string h_m" where
  "memmove buf dst src n =
     (if 0 \<le> n \<and> 0 \<le> src \<and> 0 \<le> dst \<and> src + n \<le> int (length buf)
      then buf_write buf (nat dst) (take (nat n) (drop (nat src) buf)) else Inl Out_of_bounds)"

text \<open>Making space between the places and copying the entry.\<close>

definition env_place :: "string \<Rightarrow> nat \<Rightarrow> nat \<Rightarrow> string \<Rightarrow> string h_m" where
  "env_place buf head tail entry =
     (let delta = int (length entry) - (int tail - int head)
      in hbind (if delta \<noteq> 0
                then memmove buf (int tail + delta) (int tail) (int (length buf) - int tail - max delta 0)
                else Inr buf) (\<lambda>buf.
         hbind (if delta < 0
                then buf_write buf (nat (int (length buf) + delta)) (replicate (nat (- delta)) CHR ''#'')
                else Inr buf) (\<lambda>buf.
         buf_write buf head entry)))"

text \<open>The result of the function and the buffer.\<close>

definition update_env :: "string \<Rightarrow> string \<Rightarrow> string \<Rightarrow> (int \<times> string) h_m" where
  "update_env buf name val =
     (let entry = name @ ''='' @ val @ [CHR 0x0A];
          st = scan_lines name (length entry) buf 0 \<lparr>sc_place = None, sc_end = None, sc_replace = False\<rparr>
      in case (sc_place st, sc_end st) of
           (Some (head, tail), Some end') \<Rightarrow>
             (let delta = int (length entry) - (int tail - int head);
                  space = int (length buf) - int end'
              in if delta > space \<or> tail > length buf then Inr (- 1, buf)
                 else hbind (env_place buf head tail entry) (\<lambda>buf. Inr (0, buf)))
         | _ \<Rightarrow> Inr (- 1, buf))"

section \<open>Bounds\<close>

definition scan_ok :: "nat \<Rightarrow> env_scan \<Rightarrow> bool" where
  "scan_ok i st \<longleftrightarrow>
     (case sc_place st of None \<Rightarrow> True | Some (head, tail) \<Rightarrow> head \<le> tail \<and> tail \<le> i) \<and>
     (case sc_end st of None \<Rightarrow> sc_place st = None | Some e \<Rightarrow> e = i)"

lemma scan_line_ok: "scan_ok i st \<Longrightarrow> scan_ok (i + Suc (length line)) (scan_line name line i st)"
  by (auto simp: scan_ok_def scan_line_def Let_def split: option.splits)

text \<open>Where the scan ends: the place is inside the lines, or it begins at the padding.\<close>

lemma scan_lines_result:
  assumes "scan_ok i st" "sc_place (scan_lines name el rest i st) = Some (head, tail)"
    "sc_end (scan_lines name el rest i st) = Some e"
  shows "head \<le> tail \<and> e \<le> i + length rest \<and> (tail \<le> e \<or> head = e \<and> tail = e + el)"
  using assms
proof (induction name el rest i st rule: scan_lines.induct[case_names loop])
  case (loop name el rest i st)
  show ?case
  proof (cases "rest = []")
    case True
    then have "scan_lines name el rest i st = st" by (subst scan_lines.simps) simp
    then show ?thesis using loop.prems True by (auto simp: scan_ok_def split: option.splits)
  next
    case False
    show ?thesis
    proof (cases "strchr rest CHR 0x0A")
      case None
      have eq: "scan_lines name el rest i st =
          st\<lparr>sc_place := (case sc_place st of None \<Rightarrow> Some (i, i + el) | Some p \<Rightarrow> Some p), sc_end := Some i\<rparr>"
        using False None by (simp add: scan_lines.simps[of name el rest])
      show ?thesis using loop.prems unfolding eq by (auto simp: scan_ok_def split: option.splits)
    next
      case (Some n)
      then have n: "n < length rest" by (auto dest: strchr_Some)
      have eq: "scan_lines name el rest i st = scan_lines name el (drop (Suc n) rest) (i + Suc n) (scan_line name (take n rest) i st)"
        using False Some by (simp add: scan_lines.simps[of name el rest])
      have "scan_ok (i + Suc n) (scan_line name (take n rest) i st)"
        using scan_line_ok[OF loop.prems(1), of "take n rest" name] n by simp
      from loop.IH[OF False Some this] loop.prems(2,3) n show ?thesis unfolding eq by auto
    qed
  qed
qed

text \<open>The moves amount to replacing the text between the places, with padding where it gets shorter.\<close>

lemma memmove_nat:
  "memmove buf (int d) (int s) (int n) = (if s + n \<le> length buf then buf_write buf d (take n (drop s buf)) else Inl Out_of_bounds)"
  by (simp add: memmove_def)

lemma buf_write_at:
  "length a = n \<Longrightarrow> length old = length s \<Longrightarrow> buf_write (a @ old @ c) n s = Inr (a @ s @ c)"
  by (simp add: buf_write_def)

lemma env_place_same:
  "length entry = length old \<Longrightarrow> env_place (a @ old @ c) (length a) (length a + length old) entry = Inr (a @ entry @ c)"
  by (simp add: env_place_def buf_write_at)

lemma env_place_grow:
  assumes "length entry = length old + length c2" "c2 \<noteq> []"
  shows "env_place (a @ old @ c1 @ c2) (length a) (length a + length old) entry = Inr (a @ entry @ c1)"
proof -
  let ?buf = "a @ old @ c1 @ c2"
  have d: "int (length entry) - (int (length a + length old) - int (length a)) = int (length c2)" using assms by simp
  have n: "int (length ?buf) - int (length a + length old) - max (int (length c2)) 0 = int (length c1)" by simp
  define x where "x = old @ take (length c2) (c1 @ c2)"
  have x: "take (length a + length old + length c2) ?buf = a @ x" "length x = length entry"
    using assms by (auto simp: x_def)
  have m: "memmove ?buf (int (length a + length old) + int (length c2)) (int (length a + length old)) (int (length c1)) = Inr (a @ x @ c1)"
    unfolding of_nat_add[symmetric] memmove_nat using x(1) by (simp add: buf_write_def)
  have "buf_write (a @ x @ c1) (length a) entry = Inr (a @ entry @ c1)" using x(2) by (simp add: buf_write_at)
  moreover have "int (length c2) \<noteq> 0" "\<not> int (length c2) < 0" using assms(2) by simp_all
  ultimately show ?thesis unfolding env_place_def Let_def d by (simp only: not_False_eq_True if_True if_False n m hbind_simps)
qed

lemma env_place_shrink:
  assumes "length old = length entry + k" "0 < k"
  shows "env_place (a @ old @ c) (length a) (length a + length old) entry = Inr (a @ entry @ c @ replicate k CHR ''#'')"
proof -
  let ?buf = "a @ old @ c"
  have d: "int (length entry) - (int (length a + length old) - int (length a)) = - int k" using assms by simp
  have n: "int (length ?buf) - int (length a + length old) - max (- int k) 0 = int (length c)" by simp
  have t: "int (length a + length old) + - int k = int (length a + length entry)" using assms(1) by simp
  define y where "y = drop (length a + length entry + length c) ?buf"
  have y: "length y = k" using assms by (simp add: y_def)
  have m: "memmove ?buf (int (length a + length entry)) (int (length a + length old)) (int (length c)) = Inr (a @ take (length entry) old @ c @ y)"
    unfolding memmove_nat using assms by (simp add: buf_write_def y_def)
  have p: "nat (int (length (a @ take (length entry) old @ c @ y)) + - int k) = length (a @ take (length entry) old @ c)"
    using assms y by (simp add: nat_int_add)
  have "buf_write (a @ take (length entry) old @ c @ y) (nat (int (length (a @ take (length entry) old @ c @ y)) + - int k)) (replicate k CHR ''#'') =
      Inr (a @ take (length entry) old @ c @ replicate k CHR ''#'')"
    unfolding p using y buf_write_at[of "a @ take (length entry) old @ c" _ y "replicate k CHR ''#''" "[]"] by simp
  moreover have "buf_write (a @ take (length entry) old @ c @ replicate k CHR ''#'') (length a) entry = Inr (a @ entry @ c @ replicate k CHR ''#'')"
    using assms by (simp add: buf_write_at)
  moreover have "- int k \<noteq> 0" "- int k < 0" "nat (- (- int k)) = k" using assms(2) by simp_all
  ultimately show ?thesis unfolding env_place_def Let_def d by (simp only: not_False_eq_True if_True n m t hbind_simps)
qed

text \<open>Every call stays inside the buffer, which keeps its size.\<close>

lemma env_place_length:
  assumes "head \<le> tail" "tail \<le> length buf" "int (length entry) - (int tail - int head) \<le> int (length buf) - int tail"
  shows "\<exists>buf'. env_place buf head tail entry = Inr buf' \<and> length buf' = length buf"
proof -
  define a where "a = take head buf"
  define old where "old = take (tail - head) (drop head buf)"
  define c where "c = drop tail buf"
  have buf: "buf = a @ old @ c" "head = length a" "tail = length a + length old"
    using assms by (simp_all add: a_def old_def c_def) (metis append_take_drop_id drop_drop le_add_diff_inverse2)
  consider "length entry = length old" | "length old < length entry" | "length entry < length old" by linarith
  then show ?thesis
  proof cases
    case 1
    then show ?thesis using env_place_same[of entry old a c] by (simp add: buf)
  next
    case 2
    define k where "k = length entry - length old"
    have k: "k \<le> length c" "0 < k" "length entry = length old + k" using assms(3) 2 by (auto simp: buf k_def)
    have "c = take (length c - k) c @ drop (length c - k) c" by simp
    then show ?thesis using env_place_grow[of entry old "drop (length c - k) c" a "take (length c - k) c"] k
      by (simp add: buf)
  next
    case 3
    then show ?thesis using env_place_shrink[of old entry "length old - length entry" a c] by (auto simp: buf)
  qed
qed

lemma update_env_bounded:
  "\<exists>rc buf'. update_env buf name val = Inr (rc, buf') \<and> length buf' = length buf \<and> (rc \<noteq> 0 \<longrightarrow> buf' = buf)"
proof -
  let ?entry = "name @ ''='' @ val @ [CHR 0x0A]"
  let ?st = "scan_lines name (length ?entry) buf 0 \<lparr>sc_place = None, sc_end = None, sc_replace = False\<rparr>"
  show ?thesis
  proof (cases "\<exists>head tail e. sc_place ?st = Some (head, tail) \<and> sc_end ?st = Some e")
    case False
    then show ?thesis by (auto simp: update_env_def Let_def split: option.splits)
  next
    case True
    then obtain head tail e where st: "sc_place ?st = Some (head, tail)" "sc_end ?st = Some e" by blast
    have r: "head \<le> tail" "e \<le> length buf" "tail \<le> e \<or> head = e \<and> tail = e + length ?entry"
      using scan_lines_result[OF _ st] by (auto simp: scan_ok_def)
    let ?full = "int (length ?entry) - (int tail - int head) > int (length buf) - int e \<or> tail > length buf"
    have u: "update_env buf name val = (if ?full then Inr (- 1, buf) else hbind (env_place buf head tail ?entry) (\<lambda>buf. Inr (0, buf)))"
      unfolding update_env_def Let_def st by (simp only: prod.case option.case)
    show ?thesis
    proof (cases ?full)
      case False
      then have "\<exists>buf'. env_place buf head tail ?entry = Inr buf' \<and> length buf' = length buf"
        using r by (intro env_place_length) auto
      then obtain buf' where "env_place buf head tail ?entry = Inr buf'" "length buf' = length buf" by blast
      then show ?thesis unfolding u using False by (simp only: if_False hbind_simps) simp
    qed (unfold u, simp only: if_True, simp)
  qed
qed

section \<open>Blocks as lists of variables\<close>

fun env_entry :: "string \<times> string \<Rightarrow> string" where
  "env_entry (n, v) = n @ ''='' @ v @ [CHR 0x0A]"

definition env_lines :: "(string \<times> string) list \<Rightarrow> string" where
  "env_lines es = concat (map env_entry es)"

definition env_block :: "(string \<times> string) list \<Rightarrow> nat \<Rightarrow> string" where
  "env_block es pad = env_lines es @ replicate pad CHR ''#''"

fun env_entry_ok :: "string \<times> string \<Rightarrow> bool" where
  "env_entry_ok (n, v) \<longleftrightarrow>
     n \<noteq> [] \<and> hd n \<noteq> CHR ''#'' \<and> CHR ''='' \<notin> set n \<and> CHR 0x0A \<notin> set n \<and> CHR 0x0A \<notin> set v \<and> NUL \<notin> set n \<and> NUL \<notin> set v"

fun env_assign :: "string \<Rightarrow> string \<Rightarrow> (string \<times> string) list \<Rightarrow> (string \<times> string) list" where
  "env_assign n v [] = [(n, v)]"
| "env_assign n v (e # es) = (if fst e = n then (n, v) # es else e # env_assign n v es)"

lemma env_lines_simps [simp]: "env_lines [] = []" "env_lines (e # es) = env_entry e @ env_lines es"
  "env_lines (es @ fs) = env_lines es @ env_lines fs"
  by (simp_all add: env_lines_def)

lemma scan_entry:
  assumes "env_entry_ok e"
  shows "scan_lines n el (env_entry e @ rest) i st =
    scan_lines n el rest (i + length (env_entry e))
      (if fst e = n \<and> \<not> sc_replace st
       then st\<lparr>sc_place := Some (i, i + length (env_entry e)), sc_end := Some (i + length (env_entry e)), sc_replace := True\<rparr>
       else st\<lparr>sc_end := Some (i + length (env_entry e))\<rparr>)"
proof -
  obtain n' v' where e: "e = (n', v')" by force
  let ?line = "n' @ CHR ''='' # v'"
  have nl: "CHR 0x0A \<notin> set ?line" and eq: "CHR ''='' \<notin> set n'" using assms by (auto simp: e)
  have nlpos: "strchr (?line @ CHR 0x0A # rest) CHR 0x0A = Some (length ?line)" by (rule strchr_first[OF nl])
  have sep: "strchr ?line CHR ''='' = Some (length n')" by (rule strchr_first[OF eq])
  have "take (length n) ?line = n \<longleftrightarrow> n' = n" if "length n' = length n"
    using that by simp
  then have "scan_line n ?line i st = (if n' = n \<and> \<not> sc_replace st
       then st\<lparr>sc_place := Some (i, i + Suc (length ?line)), sc_end := Some (i + Suc (length ?line)), sc_replace := True\<rparr>
       else st\<lparr>sc_end := Some (i + Suc (length ?line))\<rparr>)"
    by (auto simp: scan_line_def sep Let_def)
  then show ?thesis using nlpos by (subst scan_lines.simps) (simp add: e)
qed

lemma scan_padding:
  "scan_lines n el (replicate pad CHR ''#'') i st =
     (if pad = 0 then st
      else st\<lparr>sc_place := (case sc_place st of None \<Rightarrow> Some (i, i + el) | Some p \<Rightarrow> Some p), sc_end := Some i\<rparr>)"
  by (subst scan_lines.simps) simp

definition padding_place :: "nat \<Rightarrow> nat \<Rightarrow> nat \<Rightarrow> (nat \<times> nat) option \<Rightarrow> (nat \<times> nat) option" where
  "padding_place el e pad p = (case p of Some p \<Rightarrow> Some p | None \<Rightarrow> if pad = 0 then None else Some (e, e + el))"

lemma scan_absent:
  assumes "list_all env_entry_ok es" "sc_replace st \<or> n \<notin> fst ` set es" "sc_end st = Some i \<or> es \<noteq> [] \<or> pad \<noteq> 0"
  shows "scan_lines n el (env_block es pad) i st =
    st\<lparr>sc_end := Some (i + length (env_lines es)),
       sc_place := padding_place el (i + length (env_lines es)) pad (sc_place st)\<rparr>"
  using assms
proof (induction es arbitrary: i st)
  case Nil
  then show ?case by (auto simp: env_block_def scan_padding padding_place_def split: option.split)
next
  case (Cons e es)
  have "scan_lines n el (env_block (e # es) pad) i st =
      scan_lines n el (env_block es pad) (i + length (env_entry e)) (st\<lparr>sc_end := Some (i + length (env_entry e))\<rparr>)"
    using Cons.prems scan_entry[of e n el "env_block es pad" i st] by (auto simp: env_block_def)
  then show ?case using Cons.prems
      Cons.IH[of "st\<lparr>sc_end := Some (i + length (env_entry e))\<rparr>" "i + length (env_entry e)"]
    by (auto simp: add.assoc)
qed

lemma scan_present:
  assumes "list_all env_entry_ok (es @ (n, v) # fs)" "n \<notin> fst ` set es" "\<not> sc_replace st"
  shows "scan_lines n el (env_block (es @ (n, v) # fs) pad) i st =
    st\<lparr>sc_place := Some (i + length (env_lines es), i + length (env_lines es) + length (env_entry (n, v))),
       sc_end := Some (i + length (env_lines (es @ (n, v) # fs))), sc_replace := True\<rparr>"
  using assms
proof (induction es arbitrary: i st)
  case Nil
  let ?l = "length (env_entry (n, v))"
  let ?st = "st\<lparr>sc_place := Some (i, i + ?l), sc_end := Some (i + ?l), sc_replace := True\<rparr>"
  have "scan_lines n el (env_block ((n, v) # fs) pad) i st = scan_lines n el (env_block fs pad) (i + ?l) ?st"
    using Nil.prems scan_entry[of "(n, v)" n el "env_block fs pad" i st] by (simp add: env_block_def)
  also have "\<dots> = ?st\<lparr>sc_end := Some (i + ?l + length (env_lines fs))\<rparr>"
    using Nil.prems scan_absent[of fs ?st n "i + ?l" pad el] by (simp add: padding_place_def)
  finally show ?case by (simp add: add.assoc)
next
  case (Cons e es)
  have "scan_lines n el (env_block ((e # es) @ (n, v) # fs) pad) i st =
      scan_lines n el (env_block (es @ (n, v) # fs) pad) (i + length (env_entry e)) (st\<lparr>sc_end := Some (i + length (env_entry e))\<rparr>)"
    using Cons.prems scan_entry[of e n el "env_block (es @ (n, v) # fs) pad" i st] by (auto simp: env_block_def)
  then show ?case using Cons.prems
      Cons.IH[of "st\<lparr>sc_end := Some (i + length (env_entry e))\<rparr>" "i + length (env_entry e)"]
    by (auto simp: add.assoc)
qed

lemma replicate_split: "k \<le> m \<Longrightarrow> replicate m x = replicate k x @ replicate (m - k) x"
  by (simp flip: replicate_add)

lemma env_assign_absent: "n \<notin> fst ` set es \<Longrightarrow> env_assign n v es = es @ [(n, v)]"
  by (induction es) auto

lemma env_assign_present: "n \<notin> fst ` set es \<Longrightarrow> env_assign n v (es @ (n, w) # fs) = es @ (n, v) # fs"
  by (induction es) auto

lemma env_split: "n \<in> fst ` set es \<Longrightarrow> \<exists>fs w gs. es = fs @ (n, w) # gs \<and> n \<notin> fst ` set fs"
proof (induction es)
  case (Cons e es)
  show ?case
  proof (cases "fst e = n")
    case True
    then show ?thesis by (intro exI[of _ "[]"] exI[of _ "snd e"] exI[of _ es]) auto
  next
    case False
    then obtain fs w gs where "es = fs @ (n, w) # gs" "n \<notin> fst ` set fs" using Cons by auto
    then show ?thesis using False by (intro exI[of _ "e # fs"] exI[of _ w] exI[of _ gs]) auto
  qed
qed simp

text \<open>\<^verbatim>\<open>update_env\<close> assigns the variable in the list and adjusts the padding; it fails exactly if the lines do not fit.\<close>

lemma update_env_block:
  assumes "list_all env_entry_ok es"
  shows "update_env (env_block es pad) n v =
    (if length (env_lines (env_assign n v es)) \<le> length (env_block es pad)
     then Inr (0, env_block (env_assign n v es) (length (env_block es pad) - length (env_lines (env_assign n v es))))
     else Inr (- 1, env_block es pad))"
proof (cases "n \<in> fst ` set es")
  case False
  let ?entry = "n @ ''='' @ v @ [CHR 0x0A]"
  let ?i = "length (env_lines es)"
  let ?st = "scan_lines n (length ?entry) (env_block es pad) 0 \<lparr>sc_place = None, sc_end = None, sc_replace = False\<rparr>"
  have len: "length (env_block es pad) = ?i + pad" by (simp add: env_block_def)
  have lines: "env_lines (env_assign n v es) = env_lines es @ ?entry" using False by (simp add: env_assign_absent)
  show ?thesis
  proof (cases "pad = 0")
    case True
    have "sc_place ?st = None"
    proof (cases "es = []")
      case True
      then show ?thesis using \<open>pad = 0\<close> by (simp add: env_block_def scan_lines.simps[of n _ "[]"])
    next
      case False
      then show ?thesis using scan_absent[OF assms, of "\<lparr>sc_place = None, sc_end = None, sc_replace = False\<rparr>" n 0 pad "length ?entry"]
          \<open>n \<notin> fst ` set es\<close> True by (simp add: padding_place_def)
    qed
    then have "update_env (env_block es pad) n v = Inr (- 1, env_block es pad)" unfolding update_env_def Let_def by simp
    then show ?thesis using True unfolding lines len by simp
  next
    case pad: False
    have st: "sc_place ?st = Some (?i, ?i + length ?entry)" "sc_end ?st = Some ?i"
      using scan_absent[OF assms, of "\<lparr>sc_place = None, sc_end = None, sc_replace = False\<rparr>" n 0 pad "length ?entry"] False pad
      by (simp_all add: padding_place_def)
    have u: "update_env (env_block es pad) n v =
        (if ?i + length ?entry > ?i + pad then Inr (- 1, env_block es pad)
         else hbind (env_place (env_block es pad) ?i (?i + length ?entry) ?entry) (\<lambda>buf. Inr (0, buf)))"
      unfolding update_env_def Let_def st prod.case option.case len by simp
    show ?thesis
    proof (cases "length ?entry \<le> pad")
      case True
      have r: "replicate pad CHR ''#'' = replicate (length ?entry) CHR ''#'' @ replicate (pad - length ?entry) CHR ''#''"
        by (rule replicate_split[OF True])
      have b: "env_block es pad = env_lines es @ replicate (length ?entry) CHR ''#'' @ replicate (pad - length ?entry) CHR ''#''"
        unfolding env_block_def r ..
      have "env_place (env_block es pad) ?i (?i + length ?entry) ?entry = Inr (env_lines es @ ?entry @ replicate (pad - length ?entry) CHR ''#'')"
        using env_place_same[of ?entry "replicate (length ?entry) CHR ''#''" "env_lines es" "replicate (pad - length ?entry) CHR ''#''"]
        unfolding b by simp
      then show ?thesis using True unfolding u lines len by (simp add: env_block_def lines)
    qed (simp add: u lines len)
  qed
next
  case True
  then obtain fs w gs where es: "es = fs @ (n, w) # gs" "n \<notin> fst ` set fs"
    by (metis (no_types, lifting) env_split)
  let ?entry = "n @ ''='' @ v @ [CHR 0x0A]"
  let ?old = "n @ ''='' @ w @ [CHR 0x0A]"
  let ?a = "env_lines fs"
  let ?c = "env_lines gs @ replicate pad CHR ''#''"
  let ?st = "scan_lines n (length ?entry) (env_block es pad) 0 \<lparr>sc_place = None, sc_end = None, sc_replace = False\<rparr>"
  have b: "env_block es pad = ?a @ ?old @ ?c" by (simp add: env_block_def es)
  have len: "length (env_block es pad) = length ?a + length ?old + length (env_lines gs) + pad" by (simp add: b)
  have lines: "env_lines (env_assign n v es) = ?a @ ?entry @ env_lines gs" using es by (simp add: env_assign_present)
  have st: "sc_place ?st = Some (length ?a, length ?a + length ?old)" "sc_end ?st = Some (length ?a + length ?old + length (env_lines gs))"
    using scan_present[of fs n w gs "\<lparr>sc_place = None, sc_end = None, sc_replace = False\<rparr>" "length ?entry" pad 0] assms es
    by (simp_all add: add.assoc)
  have u: "update_env (env_block es pad) n v =
        (if length ?entry > length ?old + pad then Inr (- 1, env_block es pad)
         else hbind (env_place (?a @ ?old @ ?c) (length ?a) (length ?a + length ?old) ?entry) (\<lambda>buf. Inr (0, buf)))"
    unfolding update_env_def Let_def st prod.case option.case len unfolding b by simp
  have new: "env_block (env_assign n v es) k = ?a @ ?entry @ env_lines gs @ replicate k CHR ''#''" for k by (simp add: env_block_def lines)
  show ?thesis
  proof (cases "length ?entry \<le> length ?old + pad")
    case fits: True
    have "env_place (?a @ ?old @ ?c) (length ?a) (length ?a + length ?old) ?entry =
        Inr (?a @ ?entry @ env_lines gs @ replicate (length ?old + pad - length ?entry) CHR ''#'')"
    proof (rule linorder_cases[of "length ?entry" "length ?old"])
      assume "length ?entry = length ?old"
      then show ?thesis using env_place_same[of ?entry ?old ?a ?c] by simp
    next
      assume l: "length ?entry < length ?old"
      then show ?thesis using env_place_shrink[of ?old ?entry "length ?old - length ?entry" ?a ?c]
        by (simp flip: replicate_add)
    next
      assume l: "length ?old < length ?entry"
      let ?k = "length ?entry - length ?old"
      have r: "?c = (env_lines gs @ replicate (pad - ?k) CHR ''#'') @ replicate ?k CHR ''#''"
        using l fits by (simp flip: replicate_add)
      show ?thesis using env_place_grow[of ?entry ?old "replicate ?k CHR ''#''" ?a "env_lines gs @ replicate (pad - ?k) CHR ''#''"] l fits
        unfolding r by simp
    qed
    then show ?thesis using fits unfolding u len lines new by simp
  qed (simp add: u len lines)
qed

section \<open>Loading what was saved\<close>

lemma env_line_entry: "env_entry_ok (n, v) \<Longrightarrow> env_line env (n @ ''='' @ v) = script_env_set env n v"
  by (cases n) (auto simp: env_line_def strchr_first[of "CHR ''=''" "_ # _", simplified])

lemma strtok_block:
  "list_all env_entry_ok es \<Longrightarrow>
     strtok_all CHR 0x0A (env_block es pad) = map (\<lambda>(n, v). n @ ''='' @ v) es @ (if pad = 0 then [] else [replicate pad CHR ''#''])"
proof (induction es)
  case Nil
  show ?case by (cases "pad = 0") (simp_all add: env_block_def strtok_all_word)
next
  case (Cons e es)
  obtain n v where e: "e = (n, v)" by force
  have "strtok_all CHR 0x0A ((n @ ''='' @ v) @ CHR 0x0A # env_block es pad) = (n @ ''='' @ v) # strtok_all CHR 0x0A (env_block es pad)"
    using Cons.prems by (intro strtok_all_Cons) (auto simp: e)
  then show ?case using Cons by (simp add: e env_block_def)
qed

lemma foldl_env_lines:
  "list_all env_entry_ok es \<Longrightarrow> foldl env_line env (map (\<lambda>(n, v). n @ ''='' @ v) es) = script_env.puts env es"
proof (induction es arbitrary: env)
  case (Cons e es)
  obtain n v where e: "e = (n, v)" by force
  have "env_line env (n @ ''='' @ v) = script_env_set env n v" using Cons.prems by (intro env_line_entry) (simp add: e)
  then show ?case using Cons by (simp add: e script_env.puts_simps)
qed (simp add: script_env.puts_simps)

lemma block_no_NUL: "list_all env_entry_ok es \<Longrightarrow> NUL \<notin> set (env_block es pad)"
  by (induction es) (auto simp: env_block_def)

text \<open>Loading a block assigns its variables in their order.\<close>

lemma parse_block:
  assumes "list_all env_entry_ok es"
  shows "parse_buf_to_env env (env_signature @ env_block es pad) = Some (script_env.puts env es)"
proof -
  have tw: "takeWhile (\<lambda>c. c \<noteq> NUL) (env_block es pad) = env_block es pad"
    using block_no_NUL[OF assms, of pad] by (intro takeWhile_eq_all_conv[THEN iffD2]) auto
  have "foldl env_line env (strtok_all CHR 0x0A (env_block es pad)) = script_env.puts env es"
    unfolding strtok_block[OF assms] foldl_append foldl_env_lines[OF assms] by (cases pad) (simp_all add: env_line_def)
  then show ?thesis by (simp add: parse_buf_to_env_def tw del: takeWhile_eq_all_conv)
qed

lemma env_assign_ok: "list_all env_entry_ok es \<Longrightarrow> env_entry_ok (n, v) \<Longrightarrow> list_all env_entry_ok (env_assign n v es)"
  by (induction es) auto

lemma env_assign_names: "fst ` set (env_assign n v es) = insert n (fst ` set es)"
  by (induction es) auto

lemma env_assign_distinct: "distinct (map fst es) \<Longrightarrow> distinct (map fst (env_assign n v es))"
proof (induction es)
  case (Cons e es)
  then show ?case using env_assign_names[of n v es] by auto
qed simp

lemma puts_distinct:
  "distinct (map fst es) \<Longrightarrow>
     script_env_get (script_env.puts env es) k = (case map_of es k of Some v \<Rightarrow> Some v | None \<Rightarrow> script_env_get env k)"
proof (induction es arbitrary: env)
  case (Cons e es)
  obtain n v where e: "e = (n, v)" by force
  have "map_of es n = None" using Cons.prems by (simp add: e map_of_eq_None_iff)
  then show ?case using Cons by (auto simp: e script_env.puts_simps split: option.split)
qed (simp add: script_env.puts_simps)

lemma map_of_assign: "map_of (env_assign n v es) = (map_of es)(n \<mapsto> v)"
  by (induction es) (auto simp: fun_eq_iff)

text \<open>What the block says after a successful update.\<close>

lemma update_then_load:
  assumes "list_all env_entry_ok es" "distinct (map fst es)" "env_entry_ok (n, v)"
    "update_env (env_block es pad) n v = Inr (0, buf)"
  shows "\<exists>env'. parse_buf_to_env env (env_signature @ buf) = Some env' \<and>
    (\<forall>k. script_env_get env' k = (if k = n then Some v else case map_of es k of Some w \<Rightarrow> Some w | None \<Rightarrow> script_env_get env k))"
proof -
  have buf: "buf = env_block (env_assign n v es) (length (env_block es pad) - length (env_lines (env_assign n v es)))"
    using assms(4) unfolding update_env_block[OF assms(1)] by (simp split: if_splits)
  show ?thesis unfolding buf parse_block[OF env_assign_ok[OF assms(1,3)]]
    by (auto simp: puts_distinct[OF env_assign_distinct[OF assms(2)]] map_of_assign)
qed

end
