(* ===== verification/Grub_Words.thy ===== *)
theory Grub_Words
  imports Grub_Env
begin

text \<open>
  Words of a GRUB script and their expansion, \<^verbatim>\<open>process_expansions\<close> of \<^verbatim>\<open>discover/grub2/script.c\<close>: texts and variables are
  put together to arguments, and the value of a variable outside double quotes is split at blanks.
\<close>

section \<open>Words\<close>

text \<open>A text, or a variable that is split or not.\<close>

datatype grub2_word = Word_text string | Word_var string bool

text \<open>The chained words of every argument.\<close>

type_synonym grub2_argv = "grub2_word list list"

definition is_delim :: "char \<Rightarrow> bool" where
  "is_delim c \<longleftrightarrow> c = CHR '' '' \<or> c = CHR 0x09"

fun word_name :: "grub2_word \<Rightarrow> string" where
  "word_name (Word_text t) = t"
| "word_name (Word_var n sp) = n"

fun word_split :: "grub2_word \<Rightarrow> bool" where
  "word_split (Word_text t) = False"
| "word_split (Word_var n sp) = sp"

definition expand_var :: "script_env \<Rightarrow> string \<Rightarrow> string" where
  "expand_var env name = (case script_env_get env name of Some v \<Rightarrow> v | None \<Rightarrow> [])"

fun word_text :: "script_env \<Rightarrow> grub2_word \<Rightarrow> string" where
  "word_text env (Word_text t) = t"
| "word_text env (Word_var n sp) = expand_var env n"

section \<open>Expansion\<close>

text \<open>The array of arguments so far; a new element is NULL until the first text is added.\<close>

type_synonym arg_array = "cstr list"

definition append_text_to_current_arg :: "arg_array \<Rightarrow> string \<Rightarrow> arg_array" where
  "append_text_to_current_arg argv text =
     argv[length argv - 1 := Some (case last argv of Some cur \<Rightarrow> cur @ text | None \<Rightarrow> text)]"

text \<open>The loop over the characters; \<open>pos\<close> is the text from the recorded position.\<close>

fun append_split :: "string \<Rightarrow> cstr \<Rightarrow> arg_array \<Rightarrow> arg_array" where
  "append_split [] pos argv = (case pos of Some w \<Rightarrow> append_text_to_current_arg argv w | None \<Rightarrow> argv)"
| "append_split (c # text) pos argv =
     (case pos of
        Some w \<Rightarrow>
          if is_delim c then append_split text None (append_text_to_current_arg argv w)
          else append_split text (Some (w @ [c])) argv
      | None \<Rightarrow>
          if \<not> is_delim c then append_split text (Some [c]) (argv @ [None])
          else append_split text None argv)"

definition append_word_to_argv :: "script_env \<Rightarrow> arg_array \<Rightarrow> grub2_word \<Rightarrow> arg_array" where
  "append_word_to_argv env argv word =
     (let text = word_text env word
      in if text = [] then argv
         else if \<not> word_split word then append_text_to_current_arg argv text
         else append_split text (if is_delim (hd text) then None else Some []) argv)"

definition expand_args :: "script_env \<Rightarrow> grub2_argv \<Rightarrow> arg_array" where
  "expand_args env words =
     (let argv = foldl (\<lambda>argv top_word. foldl (append_word_to_argv env) (argv @ [Some []]) top_word) [] words
      in if argv \<noteq> [] \<and> last argv = None then butlast argv else argv)"

definition process_expansions :: "script_env \<Rightarrow> grub2_argv \<Rightarrow> string list" where
  "process_expansions env words = map (\<lambda>a. case a of Some s \<Rightarrow> s | None \<Rightarrow> []) (expand_args env words)"

section \<open>The reference\<close>

text \<open>The pieces that a word adds: the first joins the current argument, the others begin new ones.\<close>

fun blank_words :: "string \<Rightarrow> string list" where
  "blank_words [] = []"
| "blank_words (c # s) =
     (if is_delim c then blank_words s
      else
        (case s of
           [] \<Rightarrow> [[c]]
         | d # _ \<Rightarrow> if is_delim d then [c] # blank_words s
                   else (case blank_words s of [] \<Rightarrow> [[c]] | w # ws \<Rightarrow> (c # w) # ws)))"

definition word_pieces :: "script_env \<Rightarrow> grub2_word \<Rightarrow> string list" where
  "word_pieces env word =
     (let text = word_text env word
      in if \<not> word_split word \<or> text = [] then [text]
         else if is_delim (hd text) then [] # blank_words text else blank_words text)"

definition join_pieces :: "string list \<Rightarrow> string list \<Rightarrow> string list" where
  "join_pieces args pieces = butlast args @ [last args @ hd pieces] @ tl pieces"

definition top_args :: "script_env \<Rightarrow> grub2_word list \<Rightarrow> string list" where
  "top_args env top_word = foldl (\<lambda>args word. join_pieces args (word_pieces env word)) [[]] top_word"

text \<open>The two agree.\<close>

lemma append_text_snoc: "append_text_to_current_arg (argv @ [a]) text = argv @ [Some (case a of Some cur \<Rightarrow> cur @ text | None \<Rightarrow> text)]"
  by (simp add: append_text_to_current_arg_def)

lemma blank_words_delim: "is_delim c \<Longrightarrow> blank_words (c # s) = blank_words s"
  by simp

text \<open>A run of characters without blanks, then the rest.\<close>

lemma blank_words_run:
  "w \<noteq> [] \<Longrightarrow> list_all (\<lambda>c. \<not> is_delim c) w \<Longrightarrow> s = [] \<or> is_delim (hd s) \<Longrightarrow> blank_words (w @ s) = w # blank_words s"
proof (induction w)
  case (Cons c w)
  show ?case
  proof (cases w)
    case Nil
    then show ?thesis using Cons.prems by (cases s) auto
  next
    case (Cons d w')
    then show ?thesis using Cons.IH Cons.prems by auto
  qed
qed simp

lemma blank_words_start: "\<not> is_delim c \<Longrightarrow> blank_words (c # s) \<noteq> []"
  by (cases s) (auto split: list.splits)

lemma append_split_words:
  "append_split s None argv = argv @ map Some (blank_words s)"
  "list_all (\<lambda>c. \<not> is_delim c) w \<Longrightarrow> w \<noteq> [] \<or> s \<noteq> [] \<and> \<not> is_delim (hd s) \<Longrightarrow>
     append_split s (Some w) (argv @ [a]) =
       argv @ Some ((case a of Some cur \<Rightarrow> cur | None \<Rightarrow> []) @ hd (blank_words (w @ s))) # map Some (tl (blank_words (w @ s)))"
proof (induction s arbitrary: argv a w)
  case Nil
  {
    case 1
    then show ?case by simp
  next
    case 2
    then show ?case using blank_words_run[of w "[]"] by (auto simp: append_text_snoc split: option.split)
  }
next
  case (Cons c s)
  {
    case 1
    show ?case
    proof (cases "is_delim c")
      case True
      then show ?thesis using Cons.IH(1) by simp
    next
      case False
      then show ?thesis using Cons.IH(2)[of "[c]" argv None] blank_words_start[of c s]
        by (cases "blank_words (c # s)") (simp_all del: blank_words.simps)
    qed
  next
    case 2
    show ?case
    proof (cases "is_delim c")
      case True
      then have "w \<noteq> []" using 2 by auto
      then show ?thesis using True Cons.IH(1) blank_words_run[of w "c # s"] 2
        by (auto simp: append_text_snoc split: option.split)
    next
      case False
      then show ?thesis using Cons.IH(2)[of "w @ [c]" argv a] 2 by simp
    qed
  }
qed

lemma append_word_pieces:
  "append_word_to_argv env (argv @ map Some args) word = argv @ map Some (join_pieces args (word_pieces env word))"
  if "args \<noteq> []"
proof -
  obtain as a where args: "args = as @ [a]" using \<open>args \<noteq> []\<close> by (metis append_butlast_last_id)
  show ?thesis
  proof (cases "word_text env word")
    case Nil
    then show ?thesis by (simp add: append_word_to_argv_def word_pieces_def join_pieces_def args)
  next
    case (Cons c t)
    show ?thesis
    proof (cases "word_split word")
      case False
      then show ?thesis using Cons append_text_snoc[of "argv @ map Some as" "Some a"]
        by (simp add: append_word_to_argv_def word_pieces_def join_pieces_def args)
    next
      case True
      then show ?thesis
        using Cons append_split_words(1)[of "c # t" "argv @ map Some args"]
          append_split_words(2)[of "[]" "c # t" "argv @ map Some as" "Some a"]
        by (simp add: append_word_to_argv_def word_pieces_def join_pieces_def args Let_def
            del: append_split.simps blank_words.simps)
    qed
  qed
qed

lemma join_pieces_not_Nil[simp]: "join_pieces args pieces \<noteq> []"
  by (simp add: join_pieces_def)

lemma append_words_pieces:
  "args \<noteq> [] \<Longrightarrow> foldl (append_word_to_argv env) (argv @ map Some args) top_word =
     argv @ map Some (foldl (\<lambda>args word. join_pieces args (word_pieces env word)) args top_word)"
  by (induction top_word arbitrary: args) (simp_all add: append_word_pieces)

lemma expand_args_pieces:
  "foldl (\<lambda>argv top_word. foldl (append_word_to_argv env) (argv @ [Some []]) top_word) (map Some args) words =
     map Some (args @ concat (map (top_args env) words))"
proof (induction words arbitrary: args)
  case (Cons top_word words)
  have "foldl (append_word_to_argv env) (map Some args @ [Some []]) top_word = map Some (args @ top_args env top_word)"
    using append_words_pieces[of "[[]]" env "map Some args" top_word] by (simp add: top_args_def)
  then show ?case using Cons[of "args @ top_args env top_word"] by simp
qed simp

text \<open>
  The expanded arguments are those of the words of the line one after the other; the last element of the array is
  never left unset.
\<close>

theorem process_expansions_pieces: "process_expansions env words = concat (map (top_args env) words)"
proof -
  have argv: "foldl (\<lambda>argv top_word. foldl (append_word_to_argv env) (argv @ [Some []]) top_word) [] words =
      map Some (concat (map (top_args env) words))"
    using expand_args_pieces[of env "[]" words] by simp
  have "expand_args env words = map Some (concat (map (top_args env) words))"
    unfolding expand_args_def argv Let_def using last_map[of "concat (map (top_args env) words)" Some]
    by (auto simp del: concat_eq_Nil_conv)
  then show ?thesis by (simp add: process_expansions_def comp_def)
qed

lemma top_args_not_Nil: "top_args env top_word \<noteq> []"
proof -
  have "args \<noteq> [] \<Longrightarrow> foldl (\<lambda>args word. join_pieces args (word_pieces env word)) args top_word \<noteq> []" for args
    by (induction top_word arbitrary: args) auto
  then show ?thesis by (simp add: top_args_def)
qed

text \<open>Every word of the line gives an argument at least, and text is never split.\<close>

lemma process_expansions_length: "length words \<le> length (process_expansions env words)"
proof (induction words)
  case (Cons w words)
  have "1 \<le> length (top_args env w)" using top_args_not_Nil[of env w] by (cases "top_args env w") auto
  then show ?case using Cons by (simp add: process_expansions_pieces)
qed (simp add: process_expansions_pieces)

lemma process_expansions_text:
  "process_expansions env (map (\<lambda>t. [Word_text t]) ts) = ts"
  by (induction ts) (simp_all add: process_expansions_pieces top_args_def join_pieces_def word_pieces_def)

end
