(* ===== verification/Grub_Script.thy ===== *)
theory Grub_Script
  imports Grub_Words Parser_Conf
begin

text \<open>
  GRUB scripts, \<^verbatim>\<open>discover/grub2/grub2.h\<close>, \<^verbatim>\<open>script.c\<close> and \<^verbatim>\<open>builtins.c\<close>: the statements, the state of a script and the
  commands that run no other statements.  The lexer and the grammar are input for flex and bison, and the parser they
  generate is a parameter, as are the directories of a device and the success of writing a file.
\<close>

section \<open>Data\<close>

text \<open>The name of a function and the variable of a loop are the first words of what the grammar allows there.  The
  condition of an \<^verbatim>\<open>if\<close> is NULL for the empty statement.  A submenu is a block.\<close>

datatype grub2_statement =
    Stmt_simple grub2_argv
  | Stmt_menuentry grub2_argv "grub2_statement list"
  | Stmt_if "grub2_conditional list" "grub2_statement list option"
  | Stmt_block "grub2_statement list"
  | Stmt_function grub2_word "grub2_statement list"
  | Stmt_for grub2_word grub2_argv "grub2_statement list"
and grub2_conditional = Conditional "grub2_statement option" "grub2_statement list"

datatype grub2_function =
    builtin_set_fn | builtin_linux_fn | builtin_initrd_fn | builtin_devicetree_fn | builtin_search_fn | builtin_test_fn
  | builtin_true_fn | builtin_false_fn | builtin_nop_fn | builtin_load_env_fn | builtin_save_env_fn | builtin_blscfg_fn
  | builtin_source_fn
  | Function_invoke "grub2_statement list"

text \<open>
  \<open>gs_statements_live\<close>: the list that \<^verbatim>\<open>script->statements\<close> points to has not been freed.  \<open>gs_scanner\<close> is the state that the
  lexer keeps from one file to the next, its stack of start conditions.  \<open>gs_files\<close> has the files of every device, as
  they are after what the script has saved.
\<close>

record grub2_script =
  gs_statements_live :: bool
  gs_environment :: script_env
  gs_symtab :: "(string \<times> grub2_function) list"
  gs_ctx :: discover_context
  gs_handler :: device_handler
  gs_opt :: "nat option"
  gs_filename :: cstr
  gs_n_options :: u32
  gs_options :: "nat list"
  gs_include_depth :: nat
  gs_scanner :: nat
  gs_files :: "nat \<Rightarrow> device_files"

text \<open>
  \<open>ge_parse\<close>: the statements of a buffer, \<open>None\<close> for a syntax error.  \<open>ge_replace\<close>: a file of a device is replaced, with the new
  inode, or this fails because the configuration forbids it, the device cannot be mounted for writing or the system call fails.
  \<open>ge_scandir\<close>: the names in a directory, by its full path.
\<close>

record grub2_world =
  ge_parse :: "nat \<Rightarrow> string \<Rightarrow> grub2_statement list option \<times> nat"
  ge_replace :: "nat \<Rightarrow> string \<Rightarrow> string \<Rightarrow> nat option"
  ge_scandir :: "string \<Rightarrow> string list option"

type_synonym script_m = "(int \<times> grub2_script) h_m"

definition script_get :: "grub2_script \<Rightarrow> string \<Rightarrow> cstr" where
  "script_get s name = script_env_get (gs_environment s) name"

definition script_set :: "string \<Rightarrow> string \<Rightarrow> grub2_script \<Rightarrow> grub2_script" where
  "script_set name val s = s\<lparr>gs_environment := script_env_set (gs_environment s) name val\<rparr>"

definition script_register_function :: "string \<Rightarrow> grub2_function \<Rightarrow> grub2_script \<Rightarrow> grub2_script" where
  "script_register_function name fn s = s\<lparr>gs_symtab := (name, fn) # gs_symtab s\<rparr>"

definition script_lookup_function :: "grub2_script \<Rightarrow> string \<Rightarrow> grub2_function option" where
  "script_lookup_function s name = map_of (gs_symtab s) name"

definition builtins :: "(string \<times> grub2_function) list" where
  "builtins =
     [(''set'', builtin_set_fn), (''linux'', builtin_linux_fn), (''linux16'', builtin_linux_fn), (''initrd'', builtin_initrd_fn),
      (''initrd16'', builtin_initrd_fn), (''devicetree'', builtin_devicetree_fn), (''search'', builtin_search_fn),
      (''['', builtin_test_fn), (''test'', builtin_test_fn), (''true'', builtin_true_fn), (''false'', builtin_false_fn),
      (''load_env'', builtin_load_env_fn), (''save_env'', builtin_save_env_fn), (''blscfg'', builtin_blscfg_fn),
      (''source'', builtin_source_fn)]"

definition nops :: "string list" where
  "nops = [''echo'', ''export'', ''insmod'', ''loadfont'', ''terminfo'']"

definition register_builtins :: "grub2_script \<Rightarrow> grub2_script" where
  "register_builtins s =
     foldl (\<lambda>s name. script_register_function name builtin_nop_fn s)
       (foldl (\<lambda>s (name, fn). script_register_function name fn s) s builtins) nops"

section \<open>Options\<close>

definition on_option :: "nat \<Rightarrow> (discover_boot_option \<Rightarrow> discover_boot_option) \<Rightarrow> grub2_script \<Rightarrow> grub2_script h_m" where
  "on_option r f s = hbind (get_opt (gs_handler s) r) (\<lambda>opt. Inr (s\<lparr>gs_handler := put_opt r (f opt) (gs_handler s)\<rparr>))"

definition script_resource :: "grub2_script \<Rightarrow> string \<Rightarrow> resource option h_m" where
  "script_resource s path =
     create_grub2_resource (gs_handler s) (ctx_device (gs_ctx s)) (script_get s ''root'') path"

text \<open>The number of an option, or its identifier, or its name.\<close>

definition option_is_default :: "grub2_script \<Rightarrow> cstr \<Rightarrow> cstr \<Rightarrow> bool" where
  "option_is_default s name ident =
     (case script_get s ''default'' of
        None \<Rightarrow> False
      | Some var \<Rightarrow>
          (let (default_idx, endp) = strtoul var 10
           in if endp \<noteq> 0 \<and> endp = length var then (of_int default_idx :: u32) = gs_n_options s
              else if ident = Some var then True
              else name = Some var))"

section \<open>Commands\<close>

definition builtin_set :: "string list \<Rightarrow> grub2_script \<Rightarrow> script_m" where
  "builtin_set argv s =
     (case argv of
        _ # a # args \<Rightarrow>
          (case strchr a CHR ''='' of
             None \<Rightarrow> Inr (- 1, s)
           | Some p \<Rightarrow>
               Inr (0, script_set (take p a) (foldl (\<lambda>val arg. val @ '' '' @ arg) (drop (Suc p) a) args) s))
      | _ \<Rightarrow> Inr (- 1, s))"

definition linux_args :: "string list \<Rightarrow> cstr" where
  "linux_args args =
     (case args of [] \<Rightarrow> None | a # args \<Rightarrow> Some (foldl (\<lambda>val arg. val @ '' '' @ arg) a args))"

definition builtin_linux :: "string list \<Rightarrow> grub2_script \<Rightarrow> script_m" where
  "builtin_linux argv s =
     (case (gs_opt s, argv) of
        (Some r, _ # path # args) \<Rightarrow>
          hbind (script_resource s path) (\<lambda>image.
          hbind (script_resource s (path @ ''.cmdline.sig'')) (\<lambda>sig.
          hbind (on_option r (\<lambda>opt. opt\<lparr>dbo_boot_image := image, dbo_args_sig_file := sig,
              dbo_option := (dbo_option opt)\<lparr>opt_boot_args := linux_args args\<rparr>\<rparr>) s) (\<lambda>s.
          Inr (0, s))))
      | _ \<Rightarrow> Inr (- 1, s))"

definition builtin_initrd :: "string list \<Rightarrow> grub2_script \<Rightarrow> script_m" where
  "builtin_initrd argv s =
     (case (gs_opt s, argv) of
        (Some r, _ # path # _) \<Rightarrow>
          hbind (script_resource s path) (\<lambda>res.
          hbind (on_option r (\<lambda>opt. opt\<lparr>dbo_initrd := res\<rparr>) s) (\<lambda>s. Inr (0, s)))
      | _ \<Rightarrow> Inr (- 1, s))"

definition builtin_devicetree :: "string list \<Rightarrow> grub2_script \<Rightarrow> script_m" where
  "builtin_devicetree argv s =
     (case (gs_opt s, argv) of
        (Some r, _ # path # _) \<Rightarrow>
          hbind (script_resource s path) (\<lambda>res.
          hbind (on_option r (\<lambda>opt. opt\<lparr>dbo_dtb := res\<rparr>) s) (\<lambda>s. Inr (0, s)))
      | _ \<Rightarrow> Inr (- 1, s))"

subsection \<open>search\<close>

datatype lookup_type = LOOKUP_UUID | LOOKUP_LABEL | LOOKUP_FILE

text \<open>What \<^verbatim>\<open>getopt_long\<close> has found: the variable, the kind of lookup and the arguments that are no options.\<close>

record search_args =
  sa_env_var :: string
  sa_lookup_type :: lookup_type
  sa_rest :: "string list"

fun search_short :: "char \<Rightarrow> search_args \<Rightarrow> search_args" where
  "search_short c a =
     (if c = CHR ''f'' then a\<lparr>sa_lookup_type := LOOKUP_FILE\<rparr>
      else if c = CHR ''l'' then a\<lparr>sa_lookup_type := LOOKUP_LABEL\<rparr>
      else if c = CHR ''u'' then a\<lparr>sa_lookup_type := LOOKUP_UUID\<rparr>
      else a)"

definition search_options :: "string list" where
  "search_options = [''set'', ''file'', ''label'', ''fs-uuid'']"

text \<open>A long option may be abbreviated when only one option begins so.\<close>

definition search_long :: "string \<Rightarrow> string option" where
  "search_long name =
     (if name \<in> set search_options then Some name
      else case filter (\<lambda>opt. take (length name) opt = name) search_options of [opt] \<Rightarrow> Some opt | _ \<Rightarrow> None)"

text \<open>Unknown options, a value where none is taken and a missing value are passed over; \<^verbatim>\<open>--\<close> ends the options.\<close>

fun search_getopt :: "string list \<Rightarrow> search_args \<Rightarrow> search_args" where
  "search_getopt [] a = a"
| "search_getopt (arg # args) a =
     (if arg = ''--'' then a\<lparr>sa_rest := sa_rest a @ args\<rparr>
      else if take 2 arg = ''--'' then
        (let name = takeWhile (\<lambda>c. c \<noteq> CHR ''='') (drop 2 arg);
             val = (case strchr arg CHR ''='' of Some p \<Rightarrow> Some (drop (Suc p) arg) | None \<Rightarrow> None)
         in case (search_long name, val) of
              (None, _) \<Rightarrow> search_getopt args a
            | (Some opt, Some v) \<Rightarrow> search_getopt args (if opt = ''set'' then a\<lparr>sa_env_var := v\<rparr> else a)
            | (Some opt, None) \<Rightarrow>
                if opt = ''set'' then
                  (case args of [] \<Rightarrow> a | v # args \<Rightarrow> search_getopt args (a\<lparr>sa_env_var := v\<rparr>))
                else search_getopt args
                  (a\<lparr>sa_lookup_type := (if opt = ''file'' then LOOKUP_FILE else if opt = ''label'' then LOOKUP_LABEL else LOOKUP_UUID)\<rparr>))
      else if take 1 arg = ''-'' \<and> length arg > 1 then search_getopt args (foldl (\<lambda>a c. search_short c a) a (tl arg))
      else search_getopt args (a\<lparr>sa_rest := sa_rest a @ [arg]\<rparr>))"

definition builtin_search :: "string list \<Rightarrow> grub2_script \<Rightarrow> script_m" where
  "builtin_search argv s =
     (let a = search_getopt (tl argv) \<lparr>sa_env_var = ''root'', sa_lookup_type = LOOKUP_UUID, sa_rest = []\<rparr>;
          found = (\<lambda>dev unknown. case dev of
                     Some d \<Rightarrow> hbind (get_dev (gs_handler s) d) (\<lambda>dev. Inr (dev_id (dd_device dev)))
                   | None \<Rightarrow> Inr unknown)
      in if sa_env_var a = [] then Inr (0, s)
         else
           (case sa_rest a of
              [] \<Rightarrow> Inr (- 1, s)
            | spec # _ \<Rightarrow>
                hbind (case sa_lookup_type a of
                   LOOKUP_UUID \<Rightarrow> hbind (device_lookup_by_uuid (gs_handler s) (Some spec)) (\<lambda>dev. found dev (Some spec))
                 | LOOKUP_LABEL \<Rightarrow> hbind (device_lookup_by_label (gs_handler s) (Some spec)) (\<lambda>dev. found dev None)
                 | LOOKUP_FILE \<Rightarrow> Inr None) (\<lambda>res.
                Inr (0, case res of Some v \<Rightarrow> script_set (sa_env_var a) v s | None \<Rightarrow> s))))"

subsection \<open>test\<close>

text \<open>The device and the path of a description; \<open>None\<close> is the error.\<close>

definition parse_to_device_path :: "grub2_script \<Rightarrow> string \<Rightarrow> (nat \<times> cstr) option h_m" where
  "parse_to_device_path s desc =
     (case grub2_parse_file (Some desc) of
        None \<Rightarrow> Inr None
      | Some file \<Rightarrow>
          hbind (if gf_dev file \<noteq> None then grub2_lookup_device (gs_handler s) (gf_dev file)
                 else Inr (Some (ctx_device (gs_ctx s)))) (\<lambda>dev.
          Inr (map_option (\<lambda>d. (d, gf_path file)) dev)))"

text \<open>\<^verbatim>\<open>stat\<close> of what a description names, with whether there is a path.\<close>

definition stat_description :: "grub2_script \<Rightarrow> string \<Rightarrow> (bool \<times> device_file) option h_m" where
  "stat_description s desc =
     hbind (parse_to_device_path s desc) (\<lambda>found.
     case found of
       None \<Rightarrow> Inr None
     | Some (d, path) \<Rightarrow>
         hbind (get_dev (gs_handler s) d) (\<lambda>dev.
         Inr (map_option (Pair (path \<noteq> None))
           (parser_stat_path (gs_files s d) dev (case path of Some p \<Rightarrow> p | None \<Rightarrow> [])))))"

definition builtin_test_op_file :: "grub2_script \<Rightarrow> char \<Rightarrow> string \<Rightarrow> bool h_m" where
  "builtin_test_op_file s op file =
     hbind (stat_description s file) (\<lambda>st.
     Inr (case st of
            None \<Rightarrow> False
          | Some (has_path, f) \<Rightarrow>
              if op = CHR ''e'' then True
              else if op = CHR ''s'' then has_path \<and> df_size f > 0
              else if op = CHR ''f'' then has_path \<and> \<not> df_is_dir f
              else False))"

definition builtin_test_op_dir :: "grub2_script \<Rightarrow> char \<Rightarrow> string \<Rightarrow> bool h_m" where
  "builtin_test_op_dir s op dir =
     (if op \<noteq> CHR ''d'' then Inr False
      else hbind (stat_description s dir) (\<lambda>st.
           Inr (case st of None \<Rightarrow> False | Some (has_path, f) \<Rightarrow> has_path \<and> df_is_dir f)))"

text \<open>\<^verbatim>\<open>strcmp (a, b) < 0\<close>\<close>

fun strless :: "string \<Rightarrow> string \<Rightarrow> bool" where
  "strless a [] = False"
| "strless [] (d # b) = True"
| "strless (c # a) (d # b) = (if c = d then strless a b else (of_char c :: nat) < of_char d)"

text \<open>The result of the test at the head of the arguments and the number of arguments it takes.\<close>

definition test_unary :: "grub2_script \<Rightarrow> string list \<Rightarrow> (bool \<times> nat) h_m" where
  "test_unary s argv =
     (case argv of
        op # a1 # _ \<Rightarrow>
          if op = ''-z'' then Inr (a1 = [], 2)
          else if op = ''-n'' then Inr (a1 \<noteq> [], 2)
          else if op = ''-s'' \<or> op = ''-f'' \<or> op = ''-e'' then
            hbind (builtin_test_op_file s (op ! 1) a1) (\<lambda>b. Inr (b, 2))
          else if op = ''-d'' then hbind (builtin_test_op_dir s (op ! 1) a1) (\<lambda>b. Inr (b, 2))
          else Inr (op \<noteq> [], 1)
      | op # _ \<Rightarrow> Inr (op \<noteq> [], 1)
      | [] \<Rightarrow> Inr (False, 1))"

definition builtin_test_op :: "grub2_script \<Rightarrow> string list \<Rightarrow> (bool \<times> nat) h_m" where
  "builtin_test_op s argv =
     (case argv of
        a1 # op # a2 # _ \<Rightarrow>
          if op = ''='' \<or> op = ''=='' then Inr (a1 = a2, 3)
          else if op = ''!='' then Inr (a1 \<noteq> a2, 3)
          else if op = ''<'' then Inr (strless a1 a2, 3)
          else if op = ''>'' then Inr (strless a2 a1, 3)
          else test_unary s argv
      | _ \<Rightarrow> test_unary s argv)"

lemma test_op_consumes: "builtin_test_op s argv = Inr (b, n) \<Longrightarrow> 0 < n"
  by (auto simp: builtin_test_op_def test_unary_def hbind_Inr_iff split: list.splits if_splits)

text \<open>The loop over the arguments: \<open>neg\<close> is \<^verbatim>\<open>not\<close>, \<open>rc\<close> the last result.\<close>

function (sequential) test_loop :: "grub2_script \<Rightarrow> string list \<Rightarrow> bool \<Rightarrow> bool \<Rightarrow> int h_m" where
  "test_loop s [] neg rc = Inr (if rc then 0 else 1)"
| "test_loop s (arg # argv) neg rc =
     (if arg = ''!'' then test_loop s argv True rc
      else if arg = ''-a'' then (if \<not> rc then Inr 1 else test_loop s argv neg rc)
      else if arg = ''-o'' then (if rc then Inr 0 else test_loop s argv neg rc)
      else
        (case builtin_test_op s (arg # argv) of
           Inl e \<Rightarrow> Inl e
         | Inr (b, consumed) \<Rightarrow>
             test_loop s (drop consumed (arg # argv)) False (if neg then \<not> b else b)))"
  by pat_completeness auto
termination
  by (relation "measure (\<lambda>(s, argv, neg, rc). length argv)") (auto dest: test_op_consumes)

definition builtin_test :: "string list \<Rightarrow> grub2_script \<Rightarrow> script_m" where
  "builtin_test argv s =
     (let argv = (if hd argv = ''['' \<and> last argv = '']'' then butlast argv else argv)
      in hbind (test_loop s (tl argv) False False) (\<lambda>rc. Inr (rc, s)))"

subsection \<open>Environment blocks\<close>

definition default_envfile :: string where
  "default_envfile = ''grubenv''"

definition script_envpath :: "grub2_script \<Rightarrow> string \<Rightarrow> string" where
  "script_envpath s envfile = (case script_get s ''prefix'' of Some p \<Rightarrow> p | None \<Rightarrow> []) @ ''/'' @ envfile"

definition builtin_load_env :: "string list \<Rightarrow> grub2_script \<Rightarrow> script_m" where
  "builtin_load_env argv s =
     hbind (get_dev (gs_handler s) (ctx_device (gs_ctx s))) (\<lambda>dev.
     if dd_mount_path dev = None then Inr (- 1, s)
     else
       (let envfile = (case argv of [_, f, file] \<Rightarrow> if f = ''-f'' then file else default_envfile | _ \<Rightarrow> default_envfile)
        in case parser_request_file (gs_files s (ctx_device (gs_ctx s))) dev (script_envpath s envfile) of
             None \<Rightarrow> Inr (0, s)
           | Some buf \<Rightarrow>
               (case parse_buf_to_env (gs_environment s) buf of
                  None \<Rightarrow> Inr (0, s)
                | Some env \<Rightarrow> Inr (0, s\<lparr>gs_environment := env\<rparr>))))"

text \<open>The variables are written to the part of the buffer after the signature, one after the other; an entry that
  does not fit is left out.\<close>

fun save_vars :: "script_env \<Rightarrow> string list \<Rightarrow> string \<Rightarrow> string h_m" where
  "save_vars env [] buf = Inr buf"
| "save_vars env (name # names) buf =
     hbind (update_env buf name (expand_var env name)) (\<lambda>(rc, buf). save_vars env names buf)"

definition put_file :: "nat \<Rightarrow> string \<Rightarrow> device_file \<Rightarrow> grub2_script \<Rightarrow> grub2_script" where
  "put_file d path f s = s\<lparr>gs_files := (gs_files s)(d := (gs_files s d)(path \<mapsto> f))\<rparr>"

text \<open>An error in reading is returned; a block that is not one is not.\<close>

definition builtin_save_env :: "grub2_world \<Rightarrow> string list \<Rightarrow> grub2_script \<Rightarrow> script_m" where
  "builtin_save_env w argv s =
     (let d = ctx_device (gs_ctx s) in
      hbind (get_dev (gs_handler s) d) (\<lambda>dev.
      let dash_f = (length argv \<ge> 2 \<and> argv ! 1 = ''-f'')
      in if dd_mount_path dev = None then Inr (- 1, s)
         else if dash_f \<and> length argv < 3 then Inr (- 1, s)
         else
           (let path = script_envpath s (if dash_f then argv ! 2 else default_envfile);
                siglen = length env_signature
            in case parser_request_file (gs_files s d) dev path of
                 None \<Rightarrow> Inr (- 1, s)
               | Some buf \<Rightarrow>
                   if take siglen buf \<noteq> env_signature then Inr (0, s)
                   else
                     hbind (save_vars (gs_environment s) (drop (if dash_f then 3 else 1) argv) (drop siglen buf)) (\<lambda>rest.
                     case ge_replace w d path (env_signature @ rest) of
                       None \<Rightarrow> Inr (- 1, s)
                     | Some ino \<Rightarrow>
                         Inr (0, put_file d path \<lparr>df_ino = ino, df_is_dir = False, df_size = length (env_signature @ rest),
                           df_data = Some (env_signature @ rest)\<rparr> s)))))"

end
