(* ===== verification/Grub_Bls.thy ===== *)
theory Grub_Bls
  imports Grub_Script "HOL-Library.Multiset"
begin

text \<open>
  Boot loader specification entries, \<^verbatim>\<open>discover/grub2/blscfg.c\<close>: the command \<^verbatim>\<open>blscfg\<close> of a GRUB script makes an option of
  every file of a directory.  The directory is read with \<^verbatim>\<open>scandir\<close>, sorted by \<^verbatim>\<open>strverscmp\<close> and used from its end.
\<close>

section \<open>Fields\<close>

definition isblank :: "char \<Rightarrow> bool" where
  "isblank c \<longleftrightarrow> c = CHR '' '' \<or> c = CHR 0x09"

definition isalnum :: "char \<Rightarrow> bool" where
  "isalnum c \<longleftrightarrow>
     isdigit c \<or> (let n = (of_char c :: nat) in 0x41 \<le> n \<and> n \<le> 0x5A \<or> 0x61 \<le> n \<and> n \<le> 0x7A)"

text \<open>The text from \<open>start\<close> to \<open>end'\<close>, or the value of the variable of that name, is added to the buffer.\<close>

definition field_append :: "script_env \<Rightarrow> bool \<Rightarrow> cstr \<Rightarrow> string \<Rightarrow> nat \<Rightarrow> nat \<Rightarrow> cstr" where
  "field_append env is_var buffer val start end' =
     (let temp = take (Suc end' - start) (drop start val);
          add = (\<lambda>field. Some (case buffer of Some b \<Rightarrow> b @ field | None \<Rightarrow> field))
      in if is_var then (case script_env_get env temp of None \<Rightarrow> buffer | Some field \<Rightarrow> add field)
         else add temp)"

text \<open>The characters are moved to the front; \<open>end\<close> is the position after the last that is no blank.\<close>

fun trim_end :: "string \<Rightarrow> nat \<Rightarrow> nat \<Rightarrow> nat" where
  "trim_end [] j end' = end'"
| "trim_end (c # s) j end' = trim_end s (Suc j) (if \<not> isblank c then Suc j else end')"

definition field_trim :: "string \<Rightarrow> string" where
  "field_trim buffer = (let s = dropWhile isblank buffer in take (trim_end s 0 0) s)"

text \<open>The loop at position \<open>i\<close> with the characters that are left; the result \<open>None\<close> is NULL.\<close>

fun expand_scan :: "script_env \<Rightarrow> string \<Rightarrow> string \<Rightarrow> nat \<Rightarrow> nat \<Rightarrow> nat \<Rightarrow> bool \<Rightarrow> cstr \<Rightarrow> cstr" where
  "expand_scan env val [] i start end' is_var buffer =
     (if start \<noteq> end'
      then (case field_append env is_var buffer val start end' of None \<Rightarrow> None | Some b \<Rightarrow> Some (field_trim b))
      else map_option field_trim buffer)"
| "expand_scan env val (c # rest) i start end' is_var buffer =
     (if c = CHR ''$'' then
        (if start \<noteq> end' then
           (case field_append env is_var buffer val start end' of
              None \<Rightarrow> None
            | Some b \<Rightarrow> expand_scan env val rest (Suc i) (Suc i) i True (Some b))
         else expand_scan env val rest (Suc i) (Suc i) i True buffer)
      else if is_var \<and> \<not> isalnum c \<and> c \<noteq> CHR ''_'' then
        expand_scan env val rest (Suc i) i i False (field_append env is_var buffer val start end')
      else expand_scan env val rest (Suc i) start i is_var buffer)"

definition expand_field :: "script_env \<Rightarrow> string \<Rightarrow> cstr" where
  "expand_field env val = expand_scan env val val 0 0 0 False None"

section \<open>Entries\<close>

record bls_state =
  bs_opt :: nat
  bs_script :: grub2_script
  bs_idx :: u32
  bs_filename :: string
  bs_title :: cstr
  bs_version :: cstr
  bs_machine_id :: cstr
  bs_image :: cstr
  bs_initrd :: cstr
  bs_dtb :: cstr

definition bls_process_pair :: "cstr \<Rightarrow> string \<Rightarrow> bls_state \<Rightarrow> bls_state h_m" where
  "bls_process_pair name val st =
     (let field = expand_field (gs_environment (bs_script st)) val
      in case name of
           None \<Rightarrow> Inr st
         | Some n \<Rightarrow>
             if strcaseeq n ''title'' then Inr (st\<lparr>bs_title := field\<rparr>)
             else if strcaseeq n ''version'' then Inr (st\<lparr>bs_version := field\<rparr>)
             else if strcaseeq n ''machine-id'' then Inr (st\<lparr>bs_machine_id := field\<rparr>)
             else if strcaseeq n ''linux'' then Inr (st\<lparr>bs_image := field\<rparr>)
             else if strcaseeq n ''initrd'' then Inr (st\<lparr>bs_initrd := field\<rparr>)
             else if strcaseeq n ''devicetree'' then Inr (st\<lparr>bs_dtb := field\<rparr>)
             else if strcaseeq n ''options'' then
               hbind (on_option (bs_opt st) (\<lambda>opt. opt\<lparr>dbo_option := (dbo_option opt)\<lparr>opt_boot_args := field\<rparr>\<rparr>) (bs_script st)) (\<lambda>s.
               Inr (st\<lparr>bs_script := s\<rparr>))
             else Inr st)"

definition bls_option_is_default :: "bls_state \<Rightarrow> string \<Rightarrow> string \<Rightarrow> bool" where
  "bls_option_is_default st ident name =
     (case script_get (bs_script st) ''default'' of
        None \<Rightarrow> False
      | Some var \<Rightarrow>
          if var = ident then True
          else if var = name then True
          else (let (idx, endp) = strtoul var 10
                in endp \<noteq> 0 \<and> endp = length var \<and> (of_int idx :: u32) = bs_idx st))"

text \<open>The path without its extension, which the code cuts off in place.\<close>

definition bls_stem :: "string \<Rightarrow> string" where
  "bls_stem filename = take (length filename - length ''.conf'') filename"

definition bls_basename :: "string \<Rightarrow> string" where
  "bls_basename filename = (case strrchr filename CHR ''/'' of Some p \<Rightarrow> drop (Suc p) filename | None \<Rightarrow> filename)"

definition bls_name :: "bls_state \<Rightarrow> string \<Rightarrow> string" where
  "bls_name st image_file =
     (case (bs_title st, bs_machine_id st, bs_version st) of
        (Some title, _, _) \<Rightarrow> title
      | (None, Some machine_id, Some version) \<Rightarrow> machine_id @ '' '' @ version
      | (None, None, Some version) \<Rightarrow> version
      | (None, _, None) \<Rightarrow> image_file)"

definition optional_script_resource :: "grub2_script \<Rightarrow> cstr \<Rightarrow> resource option h_m" where
  "optional_script_resource s path = (case path of None \<Rightarrow> Inr None | Some p \<Rightarrow> script_resource s p)"

definition script_status :: "status_type \<Rightarrow> (cstr \<Rightarrow> handler_msg) \<Rightarrow> grub2_script \<Rightarrow> grub2_script h_m" where
  "script_status t m s =
     hbind (get_dev (gs_handler s) (ctx_device (gs_ctx s))) (\<lambda>dev.
     Inr (s\<lparr>gs_handler := device_handler_status t (m (dev_id (dd_device dev))) (gs_handler s)\<rparr>))"

definition bls_finish :: "bls_state \<Rightarrow> grub2_script h_m" where
  "bls_finish st =
     (let s = bs_script st
      in case bs_image st of
           None \<Rightarrow> script_status STATUS_INFO (\<lambda>d. Bls_no_image d (bs_filename st)) s
         | Some image_file \<Rightarrow>
             (let ident = bls_basename (bls_stem (bs_filename st)); name = bls_name st image_file
              in hbind (script_resource s image_file) (\<lambda>image.
                 hbind (optional_script_resource s (bs_initrd st)) (\<lambda>initrd.
                 hbind (optional_script_resource s (bs_dtb st)) (\<lambda>dtb.
                 hbind (script_resource s (image_file @ ''.cmdline.sig'')) (\<lambda>sig.
                 hbind (on_option (bs_opt st) (\<lambda>opt. opt
                     \<lparr>dbo_boot_image := image, dbo_initrd := (if bs_initrd st = None then dbo_initrd opt else initrd),
                      dbo_dtb := (if bs_dtb st = None then dbo_dtb opt else dtb), dbo_args_sig_file := sig,
                      dbo_option := (dbo_option opt)\<lparr>opt_id := Some ident, opt_name := Some name,
                        opt_is_default := bls_option_is_default st ident name\<rparr>\<rparr>) s) (\<lambda>s.
                 script_status STATUS_INFO (\<lambda>d. Bls_entry d (bls_stem (bs_filename st)))
                   (s\<lparr>gs_options := gs_options s @ [bs_opt st], gs_n_options := gs_n_options s + 1\<rparr>))))))))"

section \<open>Directories\<close>

definition bls_dirs :: "string list" where
  "bls_dirs = [''/loader/entries'', ''/boot/loader/entries'']"

definition bls_filter :: "string \<Rightarrow> bool" where
  "bls_filter name \<longleftrightarrow> length ''.conf'' \<le> length name \<and> drop (length name - length ''.conf'') name = ''.conf''"

text \<open>
  \<^verbatim>\<open>strverscmp\<close> of the C library: characters are compared until they differ, in one of four states: outside a number, in a
  number, in a number after leading zeros, and in leading zeros.  A class is 0 for other characters, 1 for a digit
  from 1 to 9 and 2 for zero.  The result is an order.
\<close>

datatype vers_state = Vers_N | Vers_I | Vers_F | Vers_Z

datatype vers_order = Before | Same | After

datatype vers_verdict = Vers_cmp | Vers_len | Vers_is vers_order

definition char_class :: "char option \<Rightarrow> nat" where
  "char_class c = (case c of None \<Rightarrow> 0 | Some c \<Rightarrow> if c = CHR ''0'' then 2 else if isdigit c then 1 else 0)"

fun vers_next :: "vers_state \<Rightarrow> nat \<Rightarrow> vers_state" where
  "vers_next Vers_N k = (if k = 0 then Vers_N else if k = 1 then Vers_I else Vers_Z)"
| "vers_next Vers_I k = (if k = 0 then Vers_N else Vers_I)"
| "vers_next Vers_F k = (if k = 0 then Vers_N else Vers_F)"
| "vers_next Vers_Z k = (if k = 0 then Vers_N else if k = 1 then Vers_F else Vers_Z)"

fun vers_result :: "vers_state \<Rightarrow> nat \<Rightarrow> nat \<Rightarrow> vers_verdict" where
  "vers_result Vers_N k1 k2 = (if k1 = 1 \<and> k2 = 1 then Vers_len else Vers_cmp)"
| "vers_result Vers_I k1 k2 =
     (if k1 = 0 \<and> k2 = 0 then Vers_cmp else if k1 = 0 then Vers_is Before else if k2 = 0 then Vers_is After else Vers_len)"
| "vers_result Vers_F k1 k2 = Vers_cmp"
| "vers_result Vers_Z k1 k2 =
     (if k1 = 0 \<and> k2 = 0 then Vers_cmp else if k1 = 0 then Vers_is After else if k2 = 0 then Vers_is Before else Vers_cmp)"

definition char_head :: "string \<Rightarrow> char option" where
  "char_head s = (case s of [] \<Rightarrow> None | c # _ \<Rightarrow> Some c)"

definition char_cmp :: "char option \<Rightarrow> char option \<Rightarrow> vers_order" where
  "char_cmp c1 c2 =
     (let n = (\<lambda>c. case c of None \<Rightarrow> 0 | Some c \<Rightarrow> (of_char c :: nat))
      in if n c1 < n c2 then Before else if n c2 < n c1 then After else Same)"

text \<open>The characters after the first difference: the longer run of digits is the greater number.\<close>

definition vers_len :: "string \<Rightarrow> string \<Rightarrow> vers_order \<Rightarrow> vers_order" where
  "vers_len p1 p2 diff =
     (let n1 = length (takeWhile isdigit p1); n2 = length (takeWhile isdigit p2)
      in if n2 < n1 then After else if n1 < n2 then Before else diff)"

fun strverscmp_from :: "vers_state \<Rightarrow> string \<Rightarrow> string \<Rightarrow> vers_order" where
  "strverscmp_from st [] [] = Same"
| "strverscmp_from st p1 p2 =
     (let c1 = char_head p1; c2 = char_head p2
      in if c1 = c2 then strverscmp_from (vers_next st (char_class c1)) (tl p1) (tl p2)
         else
           (case vers_result st (char_class c1) (char_class c2) of
              Vers_cmp \<Rightarrow> char_cmp c1 c2
            | Vers_len \<Rightarrow> vers_len (tl p1) (tl p2) (char_cmp c1 c2)
            | Vers_is ord \<Rightarrow> ord))"

definition strverscmp :: "string \<Rightarrow> string \<Rightarrow> vers_order" where
  "strverscmp s1 s2 = strverscmp_from Vers_N s1 s2"

fun bls_insert :: "string \<Rightarrow> string list \<Rightarrow> string list" where
  "bls_insert x [] = [x]"
| "bls_insert x (y # ys) = (if strverscmp x y = After then y # bls_insert x ys else x # y # ys)"

definition bls_sort :: "string list \<Rightarrow> string list" where
  "bls_sort names = foldr bls_insert names []"

definition parser_scandir :: "grub2_world \<Rightarrow> discover_device \<Rightarrow> string \<Rightarrow> string list option" where
  "parser_scandir w dev dirname =
     map_option (\<lambda>names. bls_sort (filter bls_filter names)) (ge_scandir w (fmt_s (dd_mount_path dev) @ dirname))"

section \<open>The command\<close>

definition bls_init :: "nat \<Rightarrow> grub2_script \<Rightarrow> u32 \<Rightarrow> string \<Rightarrow> bls_state" where
  "bls_init r s idx filename =
     \<lparr>bs_opt = r, bs_script = s, bs_idx = idx, bs_filename = filename, bs_title = None, bs_version = None,
      bs_machine_id = None, bs_image = None, bs_initrd = None, bs_dtb = None\<rparr>"

text \<open>The loop over the entries that are left, with the index of the next.\<close>

fun bls_entries :: "string \<Rightarrow> string list \<Rightarrow> u32 \<Rightarrow> grub2_script \<Rightarrow> script_m" where
  "bls_entries blsdir [] idx s = Inr (0, s)"
| "bls_entries blsdir (name # names) idx s =
     (let filename = blsdir @ ''/'' @ name;
          (r, h) = discover_boot_option_create (ctx_device (gs_ctx s)) (gs_handler s);
          s = s\<lparr>gs_handler := h\<rparr>
      in hbind (get_dev h (ctx_device (gs_ctx s))) (\<lambda>dev.
         case parser_request_file (gs_files s (ctx_device (gs_ctx s))) dev filename of
           None \<Rightarrow>
             hbind (if names \<noteq> [] then script_status STATUS_INFO (\<lambda>d. Bls_scan_failed d blsdir) s else Inr s) (\<lambda>s.
             Inr (- 1, s))
         | Some buf \<Rightarrow>
             hbind (conf_parse_buf CHR '' '' bls_process_pair True (takeWhile (\<lambda>c. c \<noteq> NUL) buf) (bls_init r s idx filename)) (\<lambda>st.
             hbind (bls_finish st) (bls_entries blsdir names (idx + 1)))))"

definition bls_directory :: "grub2_script \<Rightarrow> discover_device \<Rightarrow> cstr" where
  "bls_directory s dev =
     (case script_get s ''blsdir'' of
        Some dir \<Rightarrow> Some dir
      | None \<Rightarrow> List.find (\<lambda>dir. parser_stat_path (gs_files s (ctx_device (gs_ctx s))) dev dir \<noteq> None) bls_dirs)"

definition builtin_blscfg :: "grub2_world \<Rightarrow> grub2_script \<Rightarrow> script_m" where
  "builtin_blscfg w s =
     hbind (get_dev (gs_handler s) (ctx_device (gs_ctx s))) (\<lambda>dev.
     case bls_directory s dev of
       None \<Rightarrow> hbind (script_status STATUS_INFO Bls_no_directory s) (\<lambda>s. Inr (- 1, s))
     | Some blsdir \<Rightarrow>
         (case parser_scandir w dev blsdir of
            None \<Rightarrow> Inr (- 1, s)
          | Some names \<Rightarrow>
              if names = [] then Inr (- 1, s)
              else bls_entries blsdir (rev names) (gs_n_options s) s))"

section \<open>Order of the entries\<close>

fun converse_order :: "vers_order \<Rightarrow> vers_order" where
  "converse_order Before = After"
| "converse_order Same = Same"
| "converse_order After = Before"

lemma char_cmp_converse: "char_cmp c2 c1 = converse_order (char_cmp c1 c2)"
  by (simp add: char_cmp_def Let_def)

lemma vers_len_converse: "vers_len p2 p1 (converse_order diff) = converse_order (vers_len p1 p2 diff)"
  by (simp add: vers_len_def Let_def)

lemma vers_result_converse:
  "vers_result st k2 k1 = (case vers_result st k1 k2 of Vers_is ord \<Rightarrow> Vers_is (converse_order ord) | v \<Rightarrow> v)"
  by (cases st) simp_all

definition vers_verdict_order :: "vers_state \<Rightarrow> string \<Rightarrow> string \<Rightarrow> vers_order" where
  "vers_verdict_order st p1 p2 =
     (case vers_result st (char_class (char_head p1)) (char_class (char_head p2)) of
        Vers_cmp \<Rightarrow> char_cmp (char_head p1) (char_head p2)
      | Vers_len \<Rightarrow> vers_len (tl p1) (tl p2) (char_cmp (char_head p1) (char_head p2))
      | Vers_is ord \<Rightarrow> ord)"

lemma vers_verdict_converse: "vers_verdict_order st p2 p1 = converse_order (vers_verdict_order st p1 p2)"
  unfolding vers_verdict_order_def vers_result_converse[of st "char_class (char_head p2)"]
    char_cmp_converse[of "char_head p2"] vers_len_converse
  by (simp split: vers_verdict.split)

lemma strverscmp_differ: "char_head p1 \<noteq> char_head p2 \<Longrightarrow> strverscmp_from st p1 p2 = vers_verdict_order st p1 p2"
  by (cases p1; cases p2) (simp_all add: vers_verdict_order_def Let_def)

lemma strverscmp_from_converse: "strverscmp_from st p2 p1 = converse_order (strverscmp_from st p1 p2)"
proof (induction p1 arbitrary: p2 st)
  case Nil
  then show ?case by (cases p2) (simp_all only: strverscmp_from.simps(1) converse_order.simps strverscmp_differ[of _ "[]"] strverscmp_differ[of "[]"]
        char_head_def list.case option.distinct not_False_eq_True vers_verdict_converse[of st _ "[]"])
next
  case (Cons c p1)
  show ?case
  proof (cases "char_head (c # p1) = char_head p2")
    case True
    then obtain q where "p2 = c # q" by (cases p2) (simp_all add: char_head_def)
    then show ?thesis using Cons.IH by (simp add: Let_def char_head_def)
  next
    case False
    show ?thesis unfolding strverscmp_differ[OF False] strverscmp_differ[OF False[symmetric]] by (rule vers_verdict_converse)
  qed
qed

lemma strverscmp_converse: "strverscmp y x = converse_order (strverscmp x y)"
  unfolding strverscmp_def by (rule strverscmp_from_converse)

lemma bls_insert_set: "mset (bls_insert x ys) = add_mset x (mset ys)"
  by (induction ys) auto

fun bls_ordered :: "string list \<Rightarrow> bool" where
  "bls_ordered (x # y # ys) = (strverscmp x y \<noteq> After \<and> bls_ordered (y # ys))"
| "bls_ordered _ = True"

lemma not_after: "strverscmp x y = After \<Longrightarrow> strverscmp y x \<noteq> After"
  unfolding strverscmp_converse[of x y] by (cases "strverscmp y x") simp_all

lemma bls_insert_ordered: "bls_ordered ys \<Longrightarrow> bls_ordered (bls_insert x ys)"
  by (induction ys rule: bls_ordered.induct) (auto simp: not_after)

lemma bls_sort_result: "mset (bls_sort names) = mset names \<and> bls_ordered (bls_sort names)"
  unfolding bls_sort_def by (induction names) (simp_all add: bls_insert_set bls_insert_ordered)

section \<open>Fields\<close>

definition strip_blanks :: "string \<Rightarrow> string" where
  "strip_blanks s = rev (dropWhile isblank (rev (dropWhile isblank s)))"

lemma trim_end_shift: "trim_end s j e = (if list_all isblank s then e else j + length (rev (dropWhile isblank (rev s))))"
proof (induction s arbitrary: j e)
  case (Cons c s)
  show ?case
  proof (cases "list_all isblank s")
    case True
    then have "dropWhile isblank (rev s) = []" by (simp add: list_all_iff)
    then show ?thesis using Cons True by (auto simp: dropWhile_append list_all_iff)
  next
    case False
    then have "\<exists>x \<in> set s. \<not> isblank x" by (auto simp: list_all_iff)
    then show ?thesis using Cons False by (auto simp: dropWhile_append1)
  qed
qed simp

lemma strip_take: "take (length (dropWhile P (rev s))) s = rev (dropWhile P (rev s))"
proof -
  have "s = rev (dropWhile P (rev s)) @ rev (takeWhile P (rev s))"
    by (metis rev_append rev_rev_ident takeWhile_dropWhile_id)
  then show ?thesis by (metis append_eq_conv_conj length_rev)
qed

lemma field_trim_strip: "field_trim s = strip_blanks s"
proof (cases "list_all isblank (dropWhile isblank s)")
  case True
  then have blank: "dropWhile isblank s = []"
    using hd_dropWhile[of isblank s] by (cases "dropWhile isblank s") auto
  show ?thesis unfolding field_trim_def strip_blanks_def Let_def blank by simp
next
  case False
  then show ?thesis by (simp add: field_trim_def strip_blanks_def trim_end_shift strip_take)
qed

lemma expand_text:
  "CHR ''$'' \<notin> set rest \<Longrightarrow>
     expand_scan env val rest i 0 e False None =
       (let e' = (if rest = [] then e else i + length rest - 1) in if e' \<noteq> 0 then Some (field_trim (take (Suc e') val)) else None)"
proof (induction rest arbitrary: i e)
  case (Cons c rest)
  then have "expand_scan env val (c # rest) i 0 e False None = expand_scan env val rest (Suc i) 0 i False None" by auto
  then show ?case using Cons by (cases rest) simp_all
qed (simp add: field_append_def)

lemma expand_plain_field:
  assumes "CHR ''$'' \<notin> set val"
  shows "expand_field env val = (if length val \<le> 1 then None else Some (strip_blanks val))"
  using assms by (cases val) (auto simp: expand_field_def expand_text Let_def field_trim_strip)

end
