(* ===== verification/Grub_Exec.thy ===== *)
theory Grub_Exec
  imports Grub_Bls
begin

text \<open>
  Running a GRUB script, the statements of \<^verbatim>\<open>discover/grub2/script.c\<close>, \<^verbatim>\<open>builtin_source\<close> and the parser of
  \<^verbatim>\<open>discover/grub2/grub2.c\<close>.  A function may call itself and nothing but the stack ends that: calls and sourced files
  nest to a given depth, and beyond it is the fault \<open>Stack_overflow\<close>.  The nesting of the statements themselves is not
  counted.  A \<^verbatim>\<open>for\<close> statement keeps its list for each time it is entered; in the code a loop that is entered again from
  its own body, through a recursive function, continues with the list of the inner loop.
\<close>

section \<open>Statements\<close>

fun set_parameters :: "nat \<Rightarrow> string list \<Rightarrow> grub2_script \<Rightarrow> grub2_script" where
  "set_parameters i [] s = s"
| "set_parameters i (arg # args) s = set_parameters (Suc i) args (script_set (fmt_u i) arg s)"

text \<open>The parser sees all but the last byte of the buffer.\<close>

definition grub2_parser_parse ::
    "grub2_world \<Rightarrow> string \<Rightarrow> string \<Rightarrow> grub2_script \<Rightarrow> grub2_statement list option \<times> grub2_script" where
  "grub2_parser_parse w filename buf s =
     (if buf = [] then (None, s)
      else
        (let (stmts, scanner) = ge_parse w (gs_scanner s) (butlast buf);
             s = s\<lparr>gs_filename := Some filename, gs_scanner := scanner\<rparr>
         in (stmts, if stmts = None then s else s\<lparr>gs_statements_live := True\<rparr>)))"

text \<open>
  \<open>run\<close> executes the statements of another file or function.  When the file cannot be parsed, \<^verbatim>\<open>script->statements\<close> is still
  the list of the statements that are being executed, and that is freed.
\<close>

definition builtin_source ::
    "grub2_world \<Rightarrow> (grub2_statement list \<Rightarrow> grub2_script \<Rightarrow> script_m) \<Rightarrow> string list \<Rightarrow> grub2_script \<Rightarrow> script_m" where
  "builtin_source w run argv s =
     (if length argv \<noteq> 2 then Inr (0, s)
      else if gs_include_depth s \<ge> 10 then Inr (0, s)
      else
        hbind (parse_to_device_path s (argv ! 1)) (\<lambda>found.
        case found of
          Some (d, Some path) \<Rightarrow>
            hbind (get_dev (gs_handler s) d) (\<lambda>dev.
            case parser_request_file (gs_files s d) dev path of
              None \<Rightarrow> Inr (0, s)
            | Some buf \<Rightarrow>
                (let (stmts, s') = grub2_parser_parse w (argv ! 1) buf (s\<lparr>gs_include_depth := gs_include_depth s + 1\<rparr>);
                     restore = (\<lambda>live s'. s'\<lparr>gs_statements_live := live, gs_filename := gs_filename s,
                       gs_include_depth := gs_include_depth s' - 1\<rparr>)
                 in case stmts of
                      None \<Rightarrow> if \<not> gs_statements_live s' then Inl Double_free else Inr (0, restore False s')
                    | Some stmts \<Rightarrow>
                        hbind (run stmts s') (\<lambda>(rc, s').
                        if \<not> gs_statements_live s' then Inl Double_free
                        else Inr (1, restore (gs_statements_live s) s'))))
        | _ \<Rightarrow> Inr (0, s)))"

fun invoke ::
    "grub2_world \<Rightarrow> (grub2_statement list \<Rightarrow> grub2_script \<Rightarrow> script_m) \<Rightarrow> grub2_function \<Rightarrow> string list \<Rightarrow> grub2_script \<Rightarrow> script_m" where
  "invoke w run builtin_set_fn argv s = builtin_set argv s"
| "invoke w run builtin_linux_fn argv s = builtin_linux argv s"
| "invoke w run builtin_initrd_fn argv s = builtin_initrd argv s"
| "invoke w run builtin_devicetree_fn argv s = builtin_devicetree argv s"
| "invoke w run builtin_search_fn argv s = builtin_search argv s"
| "invoke w run builtin_test_fn argv s = builtin_test argv s"
| "invoke w run builtin_true_fn argv s = Inr (0, s)"
| "invoke w run builtin_false_fn argv s = Inr (1, s)"
| "invoke w run builtin_nop_fn argv s = Inr (0, s)"
| "invoke w run builtin_load_env_fn argv s = builtin_load_env argv s"
| "invoke w run builtin_save_env_fn argv s = builtin_save_env w argv s"
| "invoke w run builtin_blscfg_fn argv s = builtin_blscfg w s"
| "invoke w run builtin_source_fn argv s = builtin_source w run argv s"
| "invoke w run (Function_invoke body) argv s = run body (set_parameters 1 (tl argv) s)"

definition statement_simple_execute ::
    "grub2_world \<Rightarrow> (grub2_statement list \<Rightarrow> grub2_script \<Rightarrow> script_m) \<Rightarrow> grub2_argv \<Rightarrow> grub2_script \<Rightarrow> script_m" where
  "statement_simple_execute w run words s =
     (case process_expansions (gs_environment s) words of
        [] \<Rightarrow> Inr (0, s)
      | cmd # args \<Rightarrow>
          (case strchr cmd CHR ''='' of
             Some pos \<Rightarrow> Inr (0, script_set (take pos cmd) (drop (Suc pos) cmd) s)
           | None \<Rightarrow>
               (case script_lookup_function s cmd of
                  None \<Rightarrow> Inr (1, s)
                | Some fn \<Rightarrow> invoke w run fn (cmd # args) s)))"

text \<open>The value of \<^verbatim>\<open>--id\<close> among the arguments of a menu entry.\<close>

fun menuentry_id :: "string list \<Rightarrow> cstr" where
  "menuentry_id [] = None"
| "menuentry_id (arg # args) =
     (if take 4 arg = ''--id'' then
        (if length arg > 5 then Some (drop 5 arg) else (case args of a # _ \<Rightarrow> Some a | [] \<Rightarrow> None))
      else menuentry_id args)"

definition menuentry_start :: "nat \<Rightarrow> string list \<Rightarrow> grub2_script \<Rightarrow> grub2_script h_m" where
  "menuentry_start r args s =
     hbind (get_dev (gs_handler s) (ctx_device (gs_ctx s))) (\<lambda>dev.
     let name = (case args of a # _ \<Rightarrow> a | [] \<Rightarrow> ''(unknown)'');
         ident = (case menuentry_id (tl args) of Some i \<Rightarrow> i | None \<Rightarrow> name)
     in on_option r (\<lambda>opt. opt\<lparr>dbo_option := (dbo_option opt)
          \<lparr>opt_name := Some name, opt_id := Some (fmt_s (dev_id (dd_device dev)) @ ''#'' @ ident)\<rparr>\<rparr>) (s\<lparr>gs_opt := Some r\<rparr>))"

text \<open>An entry without a kernel is left as the current option.\<close>

definition menuentry_finish :: "nat \<Rightarrow> cstr \<Rightarrow> grub2_script \<Rightarrow> script_m" where
  "menuentry_finish r ident s =
     hbind (get_opt (gs_handler s) r) (\<lambda>opt.
     if dbo_boot_image opt = None then Inr (- 1, s)
     else
       hbind (on_option r (\<lambda>opt. opt\<lparr>dbo_option := (dbo_option opt)
         \<lparr>opt_is_default := option_is_default s (opt_name (dbo_option opt)) ident\<rparr>\<rparr>) s) (\<lambda>s.
       Inr (0, s\<lparr>gs_options := gs_options s @ [r], gs_n_options := gs_n_options s + 1, gs_opt := None\<rparr>)))"

definition statement_menuentry_execute :: "(grub2_script \<Rightarrow> script_m) \<Rightarrow> grub2_argv \<Rightarrow> grub2_script \<Rightarrow> script_m" where
  "statement_menuentry_execute body words s =
     (let args = process_expansions (gs_environment s) words;
          (r, h) = discover_boot_option_create (ctx_device (gs_ctx s)) (gs_handler s)
      in hbind (menuentry_start r args (s\<lparr>gs_handler := h\<rparr>)) (\<lambda>s.
         hbind (body s) (\<lambda>(rc, s).
         menuentry_finish r (menuentry_id (tl args)) s)))"

fun for_loop :: "(grub2_script \<Rightarrow> script_m) \<Rightarrow> string \<Rightarrow> string list \<Rightarrow> int \<Rightarrow> grub2_script \<Rightarrow> script_m" where
  "for_loop body varname [] rc s = Inr (rc, s)"
| "for_loop body varname (arg # args) rc s =
     hbind (body (script_set varname arg s)) (\<lambda>(rc, s). for_loop body varname args rc s)"

fun statement_execute ::
    "grub2_world \<Rightarrow> (grub2_statement list \<Rightarrow> grub2_script \<Rightarrow> script_m) \<Rightarrow> grub2_statement \<Rightarrow> grub2_script \<Rightarrow> script_m"
  and statements_execute ::
    "grub2_world \<Rightarrow> (grub2_statement list \<Rightarrow> grub2_script \<Rightarrow> script_m) \<Rightarrow> grub2_statement list \<Rightarrow> int \<Rightarrow> grub2_script \<Rightarrow> script_m"
  and conditionals_execute ::
    "grub2_world \<Rightarrow> (grub2_statement list \<Rightarrow> grub2_script \<Rightarrow> script_m) \<Rightarrow> grub2_conditional list \<Rightarrow> int \<Rightarrow> grub2_script \<Rightarrow>
       (bool \<times> int \<times> grub2_script) h_m" where
  "statement_execute w run (Stmt_simple words) s = statement_simple_execute w run words s"
| "statement_execute w run (Stmt_block stmts) s = statements_execute w run stmts 0 s"
| "statement_execute w run (Stmt_if conditionals else_case) s =
     hbind (conditionals_execute w run conditionals 0 s) (\<lambda>(executed, rc, s).
     if executed then Inr (rc, s)
     else (case else_case of None \<Rightarrow> Inr (rc, s) | Some stmts \<Rightarrow> statements_execute w run stmts 0 s))"
| "statement_execute w run (Stmt_menuentry words stmts) s =
     statement_menuentry_execute (\<lambda>s. statements_execute w run stmts 0 s) words s"
| "statement_execute w run (Stmt_function name body) s =
     Inr (0, script_register_function (word_text (gs_environment s) name) (Function_invoke body) s)"
| "statement_execute w run (Stmt_for var words body) s =
     for_loop (\<lambda>s. statements_execute w run body 0 s) (word_name var) (process_expansions (gs_environment s) words) 0 s"
| "statements_execute w run [] rc s = Inr (rc, s)"
| "statements_execute w run (stmt # stmts) rc s =
     hbind (statement_execute w run stmt s) (\<lambda>(rc, s). statements_execute w run stmts rc s)"
| "conditionals_execute w run [] rc s = Inr (False, rc, s)"
| "conditionals_execute w run (Conditional condition stmts # conditionals) rc s =
     (case condition of
        None \<Rightarrow> Inl Null_pointer
      | Some condition \<Rightarrow>
          hbind (statement_execute w run condition s) (\<lambda>(rc, s).
          if rc = 0 then hbind (statements_execute w run stmts 0 s) (\<lambda>(rc, s). Inr (True, rc, s))
          else conditionals_execute w run conditionals rc s))"

text \<open>Statements with \<open>n\<close> levels of the stack left.\<close>

primrec grub2_run :: "grub2_world \<Rightarrow> nat \<Rightarrow> grub2_statement list \<Rightarrow> grub2_script \<Rightarrow> script_m" where
  "grub2_run w 0 = (\<lambda>stmts s. Inl Stack_overflow)"
| "grub2_run w (Suc n) = (\<lambda>stmts s. statements_execute w (grub2_run w n) stmts 0 s)"

section \<open>The parser\<close>

definition default_prefix :: string where
  "default_prefix = ''/boot/grub''"

definition init_env :: "grub2_script \<Rightarrow> grub2_script" where
  "init_env s =
     (let prefix = (case gs_filename s of
            None \<Rightarrow> None
          | Some f \<Rightarrow> map_option (\<lambda>p. take p f) (strrchr f CHR ''/''))
      in script_set ''feature_menuentry_id'' ''y''
           (script_set ''prefix'' (case prefix of Some p \<Rightarrow> p | None \<Rightarrow> default_prefix) (s\<lparr>gs_environment := []\<rparr>)))"

fun have_default :: "device_handler \<Rightarrow> nat list \<Rightarrow> bool h_m" where
  "have_default h [] = Inr False"
| "have_default h (r # rs) =
     hbind (get_opt h r) (\<lambda>opt. hbind (have_default h rs) (\<lambda>b. Inr (opt_is_default (dbo_option opt) \<or> b)))"

definition set_fallback_default :: "grub2_script \<Rightarrow> grub2_script h_m" where
  "set_fallback_default s =
     hbind (have_default (gs_handler s) (gs_options s)) (\<lambda>found.
     case gs_options s of
       first # _ \<Rightarrow>
         if found then Inr s
         else on_option first (\<lambda>opt. opt\<lparr>dbo_option := (dbo_option opt)\<lparr>opt_is_default := True\<rparr>\<rparr>) s
     | [] \<Rightarrow> Inr s)"

fun add_options :: "nat list \<Rightarrow> discover_context \<Rightarrow> device_handler \<Rightarrow> (discover_context \<times> device_handler) h_m" where
  "add_options [] ctx h = Inr (ctx, h)"
| "add_options (r # rs) ctx h = hbind (discover_context_add_boot_option ctx r h) (\<lambda>(ctx, h). add_options rs ctx h)"

definition script_execute ::
    "grub2_world \<Rightarrow> nat \<Rightarrow> grub2_statement list \<Rightarrow> grub2_script \<Rightarrow> (discover_context \<times> device_handler) h_m" where
  "script_execute w n stmts s =
     hbind (grub2_run w n stmts (init_env s)) (\<lambda>(rc, s).
     hbind (set_fallback_default s) (\<lambda>s.
     add_options (gs_options s) (gs_ctx s) (gs_handler s)))"

definition create_script :: "(nat \<Rightarrow> device_files) \<Rightarrow> discover_context \<Rightarrow> device_handler \<Rightarrow> grub2_script" where
  "create_script files ctx h =
     register_builtins
       \<lparr>gs_statements_live = False, gs_environment = [], gs_symtab = [], gs_ctx = ctx, gs_handler = h, gs_opt = None,
        gs_filename = None, gs_n_options = 0, gs_options = [], gs_include_depth = 0, gs_scanner = 0, gs_files = files\<rparr>"

definition grub2_parser_parse_and_execute ::
    "grub2_world \<Rightarrow> nat \<Rightarrow> string \<Rightarrow> string \<Rightarrow> grub2_script \<Rightarrow> (discover_context \<times> device_handler) h_m" where
  "grub2_parser_parse_and_execute w n filename buf s =
     (case grub2_parser_parse w filename buf s of
        (None, s) \<Rightarrow> Inr (gs_ctx s, gs_handler s)
      | (Some stmts, s) \<Rightarrow> script_execute w n stmts s)"

definition grub2_conf_files :: "string list" where
  "grub2_conf_files =
     [''/grub.cfg'', ''/menu.lst'', ''/grub/grub.cfg'', ''/grub2/grub.cfg'', ''/grub/menu.lst'', ''/boot/grub/grub.cfg'',
      ''/boot/grub2/grub.cfg'', ''/boot/grub/menu.lst'', ''/efi/boot/grub.cfg'', ''/GRUB.CFG'', ''/MENU.LST'', ''/GRUB/GRUB.CFG'',
      ''/GRUB2/GRUB.CFG'', ''/GRUB/MENU.LST'', ''/BOOT/GRUB/GRUB.CFG'', ''/BOOT/GRUB/MENU.LST'', ''/EFI/BOOT/GRUB.CFG'']"

text \<open>The first file that can be read is the only one that is parsed.\<close>

fun grub2_files ::
    "grub2_world \<Rightarrow> nat \<Rightarrow> (nat \<Rightarrow> device_files) \<Rightarrow> string list \<Rightarrow> discover_context \<Rightarrow> device_handler \<Rightarrow> (discover_context \<times> device_handler) h_m" where
  "grub2_files w n files [] ctx h = Inr (ctx, h)"
| "grub2_files w n files (filename # filenames) ctx h =
     hbind (get_dev h (ctx_device ctx)) (\<lambda>dev.
     case parser_request_file (files (ctx_device ctx)) dev filename of
       None \<Rightarrow> grub2_files w n files filenames ctx h
     | Some buf \<Rightarrow>
         hbind (grub2_parser_parse_and_execute w n filename buf (create_script files ctx h)) (\<lambda>(ctx, h).
         hbind (get_dev h (ctx_device ctx)) (\<lambda>dev.
         Inr (ctx, device_handler_status STATUS_INFO (Parsed_config (dev_id (dd_device dev)) ''GRUB'' filename) h))))"

definition grub2_parse :: "grub2_world \<Rightarrow> nat \<Rightarrow> (nat \<Rightarrow> device_files) \<Rightarrow> parser_fn" where
  "grub2_parse w n files ctx h =
     (if ctx_event ctx \<noteq> None then Inr (ctx, h) else grub2_files w n files grub2_conf_files ctx h)"

end
