(* ===== verification/Grub_Safe.thy ===== *)
theory Grub_Safe
  imports Grub_Exec
begin

text \<open>
  What running a script keeps.  The statements are dealt with once, for any fault that is to be avoided, any invariant of the
  script and any relation of the states before and after, in the locale \<open>script_logic\<close>; it has two instances: no script
  uses a freed object or leaves the handler inconsistent, and a script without functions needs a bounded stack.
\<close>

section \<open>Statements\<close>

text \<open>Whether statements are free of function definitions, unless these are allowed.\<close>

fun plain_stmt :: "bool \<Rightarrow> grub2_statement \<Rightarrow> bool"
  and plain_stmts :: "bool \<Rightarrow> grub2_statement list \<Rightarrow> bool"
  and plain_conds :: "bool \<Rightarrow> grub2_conditional list \<Rightarrow> bool" where
  "plain_stmt b (Stmt_simple words) = True"
| "plain_stmt b (Stmt_block stmts) = plain_stmts b stmts"
| "plain_stmt b (Stmt_if conds els) = (plain_conds b conds \<and> (case els of None \<Rightarrow> True | Some stmts \<Rightarrow> plain_stmts b stmts))"
| "plain_stmt b (Stmt_menuentry words stmts) = plain_stmts b stmts"
| "plain_stmt b (Stmt_function name body) = b"
| "plain_stmt b (Stmt_for var words body) = plain_stmts b body"
| "plain_stmts b [] = True"
| "plain_stmts b (stmt # stmts) = (plain_stmt b stmt \<and> plain_stmts b stmts)"
| "plain_conds b [] = True"
| "plain_conds b (Conditional condition stmts # conds) =
     ((case condition of None \<Rightarrow> True | Some c \<Rightarrow> plain_stmt b c) \<and> plain_stmts b stmts \<and> plain_conds b conds)"

lemma plain_all: "plain_stmt True stmt" "plain_stmts True stmts" "plain_conds True conds"
  by (induction True stmt and True stmts and True conds rule: plain_stmt_plain_stmts_plain_conds.induct)
    (auto split: option.splits)

locale script_logic =
  fixes bad :: h_fault
    and ok :: "grub2_script \<Rightarrow> bool"
    and rel :: "grub2_script \<Rightarrow> grub2_script \<Rightarrow> bool"
    and allow :: bool
    and w :: grub2_world
    and run :: "grub2_statement list \<Rightarrow> grub2_script \<Rightarrow> script_m"
  assumes not_null: "bad \<noteq> Null_pointer"
    and rel_refl: "rel s s"
    and rel_trans: "rel s t \<Longrightarrow> rel t u \<Longrightarrow> rel s u"
    and set_keeps: "ok s \<Longrightarrow> ok (script_set name val s) \<and> rel s (script_set name val s)"
    and register_keeps: "allow \<Longrightarrow> ok s \<Longrightarrow>
      ok (script_register_function name (Function_invoke body) s) \<and> rel s (script_register_function name (Function_invoke body) s)"
    and command_keeps: "ok s \<Longrightarrow> script_lookup_function s name = Some fn \<Longrightarrow>
      keeping bad (\<lambda>(rc, s'). ok s' \<and> rel s s') (invoke w run fn argv s)"
    and menu_keeps: "ok s \<Longrightarrow> (\<And>s. ok s \<Longrightarrow> keeping bad (\<lambda>(rc, s'). ok s' \<and> rel s s') (exec s)) \<Longrightarrow>
      keeping bad (\<lambda>(rc, s'). ok s' \<and> rel s s') (statement_menuentry_execute exec words s)"
begin

abbreviation post :: "grub2_script \<Rightarrow> int \<times> grub2_script \<Rightarrow> bool" where
  "post s \<equiv> (\<lambda>(rc, s'). ok s' \<and> rel s s')"

lemma post_trans: "keeping bad (post t) m \<Longrightarrow> rel s t \<Longrightarrow> keeping bad (post s) m"
  by (erule keeping_mono) (auto intro: rel_trans)

lemma then_post:
  "keeping bad (post s) m \<Longrightarrow> (\<And>rc t. ok t \<Longrightarrow> keeping bad (post t) (k rc t)) \<Longrightarrow> keeping bad (post s) (hbind m (\<lambda>(rc, t). k rc t))"
  by (erule keeping_hbind) (auto intro: post_trans)

lemma simple_keeps: "ok s \<Longrightarrow> keeping bad (post s) (statement_simple_execute w run words s)"
  by (auto simp: statement_simple_execute_def rel_refl set_keeps intro: command_keeps split: list.split option.split)

lemma for_keeps:
  assumes "\<And>s. ok s \<Longrightarrow> keeping bad (post s) (body s)"
  shows "ok s \<Longrightarrow> keeping bad (post s) (for_loop body varname args rc s)"
proof (induction args arbitrary: rc s)
  case (Cons arg args)
  have "keeping bad (post s) (body (script_set varname arg s))"
    using assms set_keeps[OF Cons.prems] post_trans by blast
  then show ?case unfolding for_loop.simps by (rule then_post) (rule Cons.IH)
qed (simp add: rel_refl)

lemma statement_keeps:
  "b = allow \<Longrightarrow> plain_stmt b stmt \<Longrightarrow> ok s \<Longrightarrow> keeping bad (post s) (statement_execute w run stmt s)"
  "b = allow \<Longrightarrow> plain_stmts b stmts \<Longrightarrow> ok s \<Longrightarrow> keeping bad (post s) (statements_execute w run stmts rc s)"
  "b = allow \<Longrightarrow> plain_conds b conds \<Longrightarrow> ok s \<Longrightarrow>
     keeping bad (\<lambda>(executed, x). post s x) (conditionals_execute w run conds rc s)"
proof (induction b stmt and b stmts and b conds arbitrary: s and s rc and s rc
    rule: plain_stmt_plain_stmts_plain_conds.induct)
  case (1 b words)
  then show ?case by (simp add: simple_keeps)
next
  case (2 b stmts)
  then show ?case by simp
next
  case (3 b conds els)
  have "keeping bad (\<lambda>(executed, x). post s x) (conditionals_execute w run conds 0 s)" using 3 by simp
  moreover have "keeping bad (post s) (case els of None \<Rightarrow> Inr (rc, t) | Some stmts \<Rightarrow> statements_execute w run stmts 0 t)"
    if "ok t" "rel s t" for rc t
    using 3 that post_trans[of t _ s] by (cases els) auto
  ultimately show ?case unfolding statement_execute.simps by (elim keeping_hbind) auto
next
  case (4 b words stmts)
  then show ?case by (simp add: menu_keeps)
next
  case (5 b name body)
  then show ?case by (simp add: register_keeps)
next
  case (6 b var words body)
  then show ?case by (simp add: for_keeps)
next
  case (7 b)
  then show ?case by (simp add: rel_refl)
next
  case (8 b stmt stmts)
  then show ?case unfolding statements_execute.simps by (intro then_post) simp_all
next
  case (9 b)
  then show ?case by (simp add: rel_refl)
next
  case (10 b condition stmts conds)
  show ?case
  proof (cases condition)
    case None
    then show ?thesis using not_null by (auto simp: eq_commute)
  next
    case (Some c)
    have c: "keeping bad (post s) (statement_execute w run c s)" using 10 Some by simp
    have body: "keeping bad (\<lambda>(executed, x). post t x) (hbind (statements_execute w run stmts 0 t) (\<lambda>(rc, s). Inr (True, rc, s)))"
      if "ok t" for t
      by (rule keeping_hbind[where Q = "post t"]) (use 10 that in auto)
    have "keeping bad (\<lambda>(executed, x). post s x)
        (if rc = 0 then hbind (statements_execute w run stmts 0 t) (\<lambda>(rc, s). Inr (True, rc, s))
         else conditionals_execute w run conds rc t)" if "ok t" "rel s t" for rc t
      using body[OF that(1)] 10(3)[of t rc] 10(4,5) that by (auto elim!: keeping_mono intro: rel_trans)
    then have "keeping bad (\<lambda>(executed, x). post s x) ((\<lambda>(rc, t). if rc = 0 then hbind (statements_execute w run stmts 0 t) (\<lambda>(rc, s). Inr (True, rc, s))
         else conditionals_execute w run conds rc t) x)" if "post s x" for x
      using that by (cases x) simp
    from keeping_hbind[OF c this] show ?thesis by (simp only: Some conditionals_execute.simps option.case)
  qed
qed

end

section \<open>Freed objects\<close>

text \<open>An option with a name and an identifier.\<close>

definition named :: "device_handler \<Rightarrow> nat \<Rightarrow> bool" where
  "named h r \<longleftrightarrow> (\<exists>opt. h_opt h r = Some opt \<and> opt_name (dbo_option opt) \<noteq> None \<and> opt_id (dbo_option opt) \<noteq> None)"

definition script_ok :: "(nat + nat) set \<Rightarrow> grub2_script \<Rightarrow> bool" where
  "script_ok X s \<longleftrightarrow>
     handler_ok X (gs_handler s) \<and> context_ok (gs_handler s) (gs_ctx s) \<and> distinct (gs_options s) \<and>
     (\<forall>r \<in> set (gs_options s). pending (gs_handler s) (gs_ctx s) r \<and> named (gs_handler s) r) \<and>
     (\<forall>r. gs_opt s = Some r \<longrightarrow> pending (gs_handler s) (gs_ctx s) r)"

text \<open>Objects stay, and new options of the script are new objects.\<close>

definition script_grows :: "grub2_script \<Rightarrow> grub2_script \<Rightarrow> bool" where
  "script_grows s s' \<longleftrightarrow>
     gs_ctx s' = gs_ctx s \<and> same_view (gs_handler s) (gs_handler s') \<and> h_next (gs_handler s) \<le> h_next (gs_handler s') \<and>
     (\<forall>r. named (gs_handler s) r \<longrightarrow> named (gs_handler s') r) \<and>
     (\<forall>r \<in> set (gs_options s'). r \<in> set (gs_options s) \<or> h_next (gs_handler s) \<le> r)"

lemma script_grows_refl [simp]: "script_grows s s"
  by (simp add: script_grows_def)

lemma script_grows_trans: "script_grows s t \<Longrightarrow> script_grows t u \<Longrightarrow> script_grows s u"
  by (fastforce simp: script_grows_def intro: same_view_trans)

abbreviation script_post :: "(nat + nat) set \<Rightarrow> grub2_script \<Rightarrow> int \<times> grub2_script \<Rightarrow> bool" where
  "script_post X s \<equiv> (\<lambda>(rc, s'). script_ok X s' \<and> script_grows s s')"

lemma pending_old: "handler_ok X h \<Longrightarrow> pending h ctx r \<Longrightarrow> r < h_next h"
  using pending_live[of h ctx r] by (auto simp: handler_ok_def fresh_ok_def not_le[symmetric])

text \<open>A change of the handler that keeps what contexts rely on.\<close>

lemma script_ok_view:
  assumes "script_ok X s" "handler_ok X h" "same_view (gs_handler s) h" "h_next (gs_handler s) \<le> h_next h"
    "\<And>r. named (gs_handler s) r \<Longrightarrow> named h r"
  shows "script_ok X (s\<lparr>gs_handler := h\<rparr>)" "script_grows s (s\<lparr>gs_handler := h\<rparr>)"
  using assms by (auto simp: script_ok_def script_grows_def intro: context_ok_view pending_view)

lemma script_dev: "script_ok X s \<Longrightarrow> \<exists>dev. h_dev (gs_handler s) (ctx_device (gs_ctx s)) = Some dev"
  by (auto simp: script_ok_def context_ok_def)

lemma script_set_keeps [simp]:
  "script_ok X (script_set name val s) = script_ok X s" "script_grows s (script_set name val s)"
  by (simp_all add: script_ok_def script_grows_def script_set_def)

text \<open>A change of an option that leaves its device and does not take away its name or its identifier.\<close>

definition option_change :: "(discover_boot_option \<Rightarrow> discover_boot_option) \<Rightarrow> bool" where
  "option_change f \<longleftrightarrow> (\<forall>opt. dbo_device (f opt) = dbo_device opt \<and>
     (opt_name (dbo_option opt) \<noteq> None \<longrightarrow> opt_name (dbo_option (f opt)) \<noteq> None) \<and>
     (opt_id (dbo_option opt) \<noteq> None \<longrightarrow> opt_id (dbo_option (f opt)) \<noteq> None))"

lemma on_option_keeps:
  assumes "script_ok X s" "pending (gs_handler s) (gs_ctx s) r" "option_change f"
  shows "safely (\<lambda>s'. script_ok X s' \<and> script_grows s s' \<and> gs_options s' = gs_options s \<and> gs_opt s' = gs_opt s \<and>
      h_next (gs_handler s') = h_next (gs_handler s) \<and> (\<exists>opt. h_opt (gs_handler s') r = Some (f opt))) (on_option r f s)"
proof -
  obtain opt where opt: "h_opt (gs_handler s) r = Some opt" using pending_live[OF assms(2)] by blast
  have dev: "dbo_device (f opt) = dbo_device opt" using assms(3) by (simp add: option_change_def)
  have "handler_ok X (put_opt r (f opt) (gs_handler s))"
    using assms(1) by (intro handler_ok_put_opt[OF _ opt dev]) (simp add: script_ok_def)
  moreover have "named (gs_handler s) q \<Longrightarrow> named (put_opt r (f opt) (gs_handler s)) q" for q
    using opt assms(3) by (auto simp: named_def put_opt_def option_change_def)
  ultimately show ?thesis using script_ok_view[OF assms(1) _ same_view_put_opt[OF opt dev]] opt
    by (auto simp: on_option_def put_opt_def)
qed

lemma script_lookup_live:
  "script_ok X s \<Longrightarrow> safely (found_live (gs_handler s)) (grub2_lookup_device (gs_handler s) desc)"
  by (auto simp: script_ok_def intro: grub2_lookup_device_live)

lemma script_resource_safe: "script_ok X s \<Longrightarrow> safely (\<lambda>_. True) (script_resource s path)"
proof -
  assume ok: "script_ok X s"
  obtain dev where dev: "h_dev (gs_handler s) (ctx_device (gs_ctx s)) = Some dev" using script_dev[OF ok] by blast
  let ?d = "ctx_device (gs_ctx s)"
  have res: "safely (\<lambda>_. True) (case found of
        Some r \<Rightarrow> hbind (get_dev (gs_handler s) r) (\<lambda>dev. hbind (resolve_resource_against_device dev (Some p)) (\<lambda>res. Inr (Some res)))
      | None \<Rightarrow> Inr u)" if "\<forall>d. found = Some d \<longrightarrow> h_dev (gs_handler s) d \<noteq> None" for found p u
    using that by (auto split: option.split intro!: safely_hbind[OF resolve_against_safe])
  have "safely (\<lambda>found. \<forall>d. found = Some d \<longrightarrow> h_dev (gs_handler s) d \<noteq> None)
     (if fdev \<noteq> None then grub2_lookup_device (gs_handler s) fdev else Inr (Some ?d))" for fdev
    using safely_mono[OF script_lookup_live[OF ok, of fdev]] dev by (auto simp: found_live_def)
  note found = safely_hbind[OF this res]
  have url: "safely (\<lambda>_. True) (if b then map_sum Url_error id m else Inr None)" for b m
    by (cases m) simp_all
  show ?thesis unfolding script_resource_def create_grub2_resource_def Let_def
    by (rule safely_True_hbind[OF url]) (simp only: split: option.split, intro allI impI conjI, simp_all only: safely_Inr found)
qed

text \<open>The commands.\<close>

lemma found_id_safe:
  assumes "script_ok X s" "safely (found_live (gs_handler s)) m"
  shows "safely (\<lambda>_. True) (hbind m (\<lambda>dev. case dev of
     Some d \<Rightarrow> hbind (get_dev (gs_handler s) d) (\<lambda>dev. Inr (dev_id (dd_device dev))) | None \<Rightarrow> Inr unknown))"
  by (rule safely_hbind[OF assms(2)]) (auto simp: found_live_def split: option.split)

lemma builtin_search_keeps: "script_ok X s \<Longrightarrow> safely (script_post X s) (builtin_search argv s)"
proof -
  assume ok: "script_ok X s"
  have l: "safely (found_live (gs_handler s)) (device_lookup_by_uuid (gs_handler s) n)"
    "safely (found_live (gs_handler s)) (device_lookup_by_label (gs_handler s) n)" for n
    using device_lookup_live ok by (auto simp: script_ok_def device_lookup_by_uuid_def device_lookup_by_label_def)
  show ?thesis unfolding builtin_search_def Let_def
    by (auto split: list.split lookup_type.split intro!: safely_True_hbind found_id_safe[OF ok l(1)] found_id_safe[OF ok l(2)]
        simp: ok split: option.split)
qed

text \<open>\<open>fill\<close>: a command that makes resources and puts them into the current option.\<close>

lemma fill_current:
  assumes "script_ok X s" "gs_opt s = Some r" "option_change f"
  shows "safely (script_post X s) (hbind (on_option r f s) (\<lambda>s. Inr (0, s)))"
  by (rule safely_hbind[OF on_option_keeps[OF assms(1) _ assms(3)]]) (use assms in \<open>auto simp: script_ok_def\<close>)

lemma builtin_option_keeps:
  assumes "script_ok X s"
  shows "safely (script_post X s) (builtin_linux argv s)" "safely (script_post X s) (builtin_initrd argv s)"
    "safely (script_post X s) (builtin_devicetree argv s)"
  unfolding builtin_linux_def builtin_initrd_def builtin_devicetree_def
  by (auto split: option.split list.split simp: assms option_change_def
      intro!: safely_True_hbind[OF script_resource_safe[OF assms]] fill_current[OF assms])

lemma parse_to_device_path_live:
  assumes "script_ok X s"
  shows "safely (\<lambda>found. \<forall>d path. found = Some (d, path) \<longrightarrow> h_dev (gs_handler s) d \<noteq> None) (parse_to_device_path s desc)"
proof -
  obtain dev where "h_dev (gs_handler s) (ctx_device (gs_ctx s)) = Some dev" using script_dev[OF assms] by blast
  then show ?thesis unfolding parse_to_device_path_def
    by (auto split: option.split intro!: safely_hbind[OF script_lookup_live[OF assms]] simp: found_live_def)
qed

lemma stat_description_safe: "script_ok X s \<Longrightarrow> safely (\<lambda>_. True) (stat_description s desc)"
  unfolding stat_description_def
  by (erule safely_hbind[OF parse_to_device_path_live]) (auto split: option.split prod.split)

lemma builtin_test_op_safe: "script_ok X s \<Longrightarrow> safely (\<lambda>_. True) (builtin_test_op s argv)"
  unfolding builtin_test_op_def test_unary_def builtin_test_op_file_def builtin_test_op_dir_def
  by (auto split: list.split intro!: safely_True_hbind[OF stat_description_safe] safely_True_hbind[OF safely_True_hbind[OF stat_description_safe]])

lemma test_loop_safe: "script_ok X s \<Longrightarrow> safely (\<lambda>_. True) (test_loop s argv neg rc)"
proof (induction s argv neg rc rule: test_loop.induct)
  case (2 s arg argv neg rc)
  then show ?case using builtin_test_op_safe[OF 2(5), of "arg # argv"]
    by (cases "builtin_test_op s (arg # argv)") auto
qed simp

lemma builtin_test_keeps: "script_ok X s \<Longrightarrow> safely (script_post X s) (builtin_test argv s)"
  unfolding builtin_test_def Let_def by (rule safely_True_hbind[OF test_loop_safe]) auto

lemma same_script_keeps [simp]:
  "script_ok X (s\<lparr>gs_environment := e\<rparr>) = script_ok X s" "script_grows s (s\<lparr>gs_environment := e\<rparr>)"
  "script_ok X (s\<lparr>gs_files := fs\<rparr>) = script_ok X s" "script_grows s (s\<lparr>gs_files := fs\<rparr>)"
  "script_ok X (put_file d p fl s) = script_ok X s" "script_grows s (put_file d p fl s)"
  by (simp_all add: script_ok_def script_grows_def put_file_def)

lemma builtin_load_env_keeps: "script_ok X s \<Longrightarrow> safely (script_post X s) (builtin_load_env argv s)"
  using script_dev[of X s] by (auto simp: builtin_load_env_def Let_def split: option.split)

lemma save_vars_total: "\<exists>buf'. save_vars env names buf = Inr buf' \<and> length buf' = length buf"
proof (induction names arbitrary: buf)
  case (Cons name names)
  obtain rc b where "update_env buf name (expand_var env name) = Inr (rc, b)" "length b = length buf"
    using update_env_bounded[of buf name "expand_var env name"] by auto
  then show ?case using Cons[of b] by simp
qed simp

lemma builtin_save_env_keeps: "script_ok X s \<Longrightarrow> safely (script_post X s) (builtin_save_env w argv s)"
proof -
  assume ok: "script_ok X s"
  obtain dev where dev: "h_dev (gs_handler s) (ctx_device (gs_ctx s)) = Some dev" using script_dev[OF ok] by blast
  have "safely (script_post X s) (hbind (save_vars e ns b) (\<lambda>rest. case ge_replace w d path (env_signature @ rest) of
       None \<Rightarrow> Inr (- 1, s) | Some ino \<Rightarrow> Inr (0, put_file d path (fl ino rest) s)))" for e ns b d path fl
    using save_vars_total[of e ns b] ok by (auto split: option.split)
  then show ?thesis using dev ok unfolding builtin_save_env_def Let_def by (auto split: option.split)
qed

text \<open>A new option is pending, and no option of the script.\<close>

lemma script_create:
  assumes "script_ok X s" "discover_boot_option_create (ctx_device (gs_ctx s)) (gs_handler s) = (r, h)"
  shows "script_ok X (s\<lparr>gs_handler := h\<rparr>)" "script_grows s (s\<lparr>gs_handler := h\<rparr>)" "pending h (gs_ctx s) r"
    "r = h_next (gs_handler s)" "h_next h = Suc r" "r \<notin> set (gs_options s)"
proof -
  have ok: "handler_ok X (gs_handler s)" "context_ok (gs_handler s) (gs_ctx s)" using assms(1) by (simp_all add: script_ok_def)
  note c = create_keeps[OF ok assms(2)]
  show r: "r = h_next (gs_handler s)" and n: "h_next h = Suc r"
    using assms(2) by (auto simp: discover_boot_option_create_def put_opt_def)
  have "same_view (gs_handler s) h" using create_view[OF ok(1), of "ctx_device (gs_ctx s)"] assms(2) by simp
  moreover have "named (gs_handler s) q \<Longrightarrow> named h q" for q
    using assms(2) ok(1) by (auto simp: named_def discover_boot_option_create_def put_opt_def handler_ok_def fresh_ok_def)
  ultimately show "script_ok X (s\<lparr>gs_handler := h\<rparr>)" "script_grows s (s\<lparr>gs_handler := h\<rparr>)"
    using script_ok_view[OF assms(1) c(1)] r n by simp_all
  show "pending h (gs_ctx s) r" by (rule c(3))
  show "r \<notin> set (gs_options s)" using pending_old[OF ok(1)] assms(1) r by (fastforce simp: script_ok_def)
qed

lemma script_grows_pending: "script_grows s t \<Longrightarrow> pending (gs_handler s) (gs_ctx s) r \<Longrightarrow> pending (gs_handler t) (gs_ctx t) r"
  by (auto simp: script_grows_def intro: pending_view)

text \<open>A pending option becomes the last one of the script.\<close>

lemma script_append:
  assumes "script_ok X s" "pending (gs_handler s) (gs_ctx s) r" "named (gs_handler s) r" "r \<notin> set (gs_options s)" "opt = None \<or> opt = gs_opt s"
  shows "script_ok X (s\<lparr>gs_options := gs_options s @ [r], gs_n_options := n, gs_opt := opt\<rparr>)"
  using assms by (auto simp: script_ok_def)

lemma script_grows_append:
  assumes "script_grows s t" "h_next (gs_handler s) \<le> r"
  shows "script_grows s (t\<lparr>gs_options := gs_options t @ [r], gs_n_options := n, gs_opt := opt\<rparr>)"
  using assms by (auto simp: script_grows_def)

lemma menuentry_start_keeps:
  assumes "script_ok X s" "pending (gs_handler s) (gs_ctx s) r"
  shows "safely (\<lambda>s'. script_ok X s' \<and> script_grows s s' \<and> gs_options s' = gs_options s \<and>
      h_next (gs_handler s') = h_next (gs_handler s) \<and> named (gs_handler s') r) (menuentry_start r args s)"
proof -
  obtain dev where dev: "h_dev (gs_handler s) (ctx_device (gs_ctx s)) = Some dev" using script_dev[OF assms(1)] by blast
  let ?s = "s\<lparr>gs_opt := Some r\<rparr>"
  have ok: "script_ok X ?s" using assms by (simp add: script_ok_def)
  show ?thesis unfolding menuentry_start_def using dev
    by (auto simp: Let_def intro!: safely_mono[OF on_option_keeps[OF ok]] assms(2) simp: script_grows_def option_change_def named_def)
qed

lemma menuentry_finish_keeps:
  assumes "script_ok X t" "script_grows s t" "pending (gs_handler t) (gs_ctx t) r" "r \<notin> set (gs_options t)" "named (gs_handler t) r"
    "h_next (gs_handler s) \<le> r"
  shows "safely (script_post X s) (menuentry_finish r ident t)"
proof -
  obtain opt where opt: "h_opt (gs_handler t) r = Some opt" using pending_live[OF assms(3)] by blast
  have "script_post X s (0, u\<lparr>gs_options := gs_options u @ [r], gs_n_options := n, gs_opt := None\<rparr>)"
    if "script_ok X u" "script_grows t u" "gs_options u = gs_options t" for u n
    using script_append[OF that(1) script_grows_pending[OF that(2) assms(3)], where opt = None and n = n] that assms
      script_grows_append[OF script_grows_trans[OF assms(2) that(2)], where r = r and n = n and opt = None]
    by (simp add: script_grows_def[of t u])
  then show ?thesis unfolding menuentry_finish_def using opt assms(1,2)
    by (auto simp: option_change_def intro!: safely_hbind[OF on_option_keeps[OF assms(1,3)]])
qed

lemma menuentry_keeps:
  assumes "script_ok X s" "\<And>s. script_ok X s \<Longrightarrow> safely (script_post X s) (body s)"
  shows "safely (script_post X s) (statement_menuentry_execute body words s)"
proof -
  obtain r h where c: "discover_boot_option_create (ctx_device (gs_ctx s)) (gs_handler s) = (r, h)" by force
  note new = script_create[OF assms(1) c]
  let ?s = "s\<lparr>gs_handler := h\<rparr>"
  have start: "safely (\<lambda>s'. script_ok X s' \<and> script_grows ?s s' \<and> gs_options s' = gs_options s \<and> h_next (gs_handler s') = Suc r \<and>
      named (gs_handler s') r) (menuentry_start r args ?s)" for args
    using menuentry_start_keeps[OF new(1), of r args] new by simp
  have "safely (script_post X s) (hbind (body t) (\<lambda>(rc, u). menuentry_finish r ident u))"
    if t: "script_ok X t" "script_grows ?s t" "gs_options t = gs_options s" "h_next (gs_handler t) = Suc r"
      "named (gs_handler t) r" for t ident
  proof (rule safely_hbind[OF assms(2)[OF t(1)]])
    fix x
    assume x: "script_post X t x"
    obtain rc u where u: "x = (rc, u)" by (cases x)
    have g: "script_ok X u" "script_grows ?s u" using x t(2) by (auto simp: u intro: script_grows_trans)
    have "r \<notin> set (gs_options u)" using x new(6) t(3,4) by (auto simp: u script_grows_def)
    moreover have "named (gs_handler u) r" using x t(5) by (simp add: u script_grows_def)
    ultimately show "safely (script_post X s) (case x of (rc, u) \<Rightarrow> menuentry_finish r ident u)"
      using menuentry_finish_keeps[OF g(1) script_grows_trans[OF new(2) g(2)] script_grows_pending[OF g(2)]] new(3,4) by (simp add: u)
  qed
  then show ?thesis unfolding statement_menuentry_execute_def Let_def c prod.case
    by (intro safely_hbind[OF start]) auto
qed

text \<open>Entries of a directory.\<close>

lemma script_status_keeps:
  assumes "script_ok X s"
  shows "safely (\<lambda>s'. script_ok X s' \<and> script_grows s s') (script_status t m s)"
proof -
  obtain dev where dev: "h_dev (gs_handler s) (ctx_device (gs_ctx s)) = Some dev" using script_dev[OF assms] by blast
  let ?h = "device_handler_status t (m (dev_id (dd_device dev))) (gs_handler s)"
  have "handler_ok X ?h" "h_next ?h = h_next (gs_handler s)"
    using assms by (simp_all add: script_ok_def device_handler_status_def notify_def)
  moreover have "named ?h r = named (gs_handler s) r" for r
    by (simp add: named_def device_handler_status_def notify_def)
  ultimately show ?thesis using script_ok_view[OF assms _ same_view_status(1)] dev by (simp add: script_status_def)
qed

definition bls_ok :: "(nat + nat) set \<Rightarrow> grub2_script \<Rightarrow> nat \<Rightarrow> bls_state \<Rightarrow> bool" where
  "bls_ok X s r st \<longleftrightarrow> bs_opt st = r \<and> script_ok X (bs_script st) \<and> script_grows s (bs_script st) \<and>
     pending (gs_handler (bs_script st)) (gs_ctx (bs_script st)) r \<and> r \<notin> set (gs_options (bs_script st))"

lemma bls_process_pair_keeps: "bls_ok X s r st \<Longrightarrow> safely (bls_ok X s r) (bls_process_pair name val st)"
proof -
  assume ok: "bls_ok X s r st"
  have "safely (bls_ok X s r) (hbind (on_option (bs_opt st) (\<lambda>opt. opt\<lparr>dbo_option := (dbo_option opt)\<lparr>opt_boot_args := a\<rparr>\<rparr>) (bs_script st)) (\<lambda>s.
      Inr (st\<lparr>bs_script := s\<rparr>)))" for a
    using ok by (intro safely_hbind[OF on_option_keeps[where X = X]])
      (auto simp: bls_ok_def option_change_def intro: script_grows_trans script_grows_pending)
  then show ?thesis using ok unfolding bls_process_pair_def Let_def by (auto simp: bls_ok_def split: option.split)
qed

lemma bls_finish_keeps:
  assumes "bls_ok X s r st" "h_next (gs_handler s) \<le> r"
  shows "safely (\<lambda>s'. script_ok X s' \<and> script_grows s s') (bls_finish st)"
proof -
  have ok: "script_ok X (bs_script st)" "script_grows s (bs_script st)" "bs_opt st = r"
    "pending (gs_handler (bs_script st)) (gs_ctx (bs_script st)) r" "r \<notin> set (gs_options (bs_script st))"
    using assms(1) by (simp_all add: bls_ok_def)
  have opt: "safely (\<lambda>_. True) (optional_script_resource (bs_script st) path)" for path
    by (simp add: optional_script_resource_def script_resource_safe[OF ok(1)] split: option.split)
  have "safely (\<lambda>s'. script_ok X s' \<and> script_grows s s')
      (script_status t m (u\<lparr>gs_options := gs_options u @ [r], gs_n_options := n\<rparr>))"
    if "script_ok X u" "script_grows (bs_script st) u" "gs_options u = gs_options (bs_script st)"
      "named (gs_handler u) r" for t m u n
  proof -
    have "script_ok X (u\<lparr>gs_options := gs_options u @ [r], gs_n_options := n\<rparr>)"
      using script_append[OF that(1) script_grows_pending[OF that(2) ok(4)], where opt = "gs_opt u" and n = n] that(3,4) ok(5) by simp
    moreover have "script_grows s (u\<lparr>gs_options := gs_options u @ [r], gs_n_options := n\<rparr>)"
      using script_grows_append[OF script_grows_trans[OF ok(2) that(2)] assms(2), where n = n and opt = "gs_opt u"] by simp
    ultimately show ?thesis by (blast intro: safely_mono[OF script_status_keeps] script_grows_trans)
  qed
  then show ?thesis unfolding bls_finish_def Let_def ok(3) using ok(1,2,4,5)
    by (auto simp: option_change_def named_def split: option.split intro!: safely_True_hbind[OF script_resource_safe[OF ok(1)]] safely_True_hbind[OF opt]
        safely_hbind[OF on_option_keeps[OF ok(1,4)]] intro: safely_mono[OF script_status_keeps[OF ok(1)]] script_grows_trans)
qed

lemma bls_entries_keeps: "script_ok X s \<Longrightarrow> safely (script_post X s) (bls_entries blsdir names idx s)"
proof (induction names arbitrary: idx s)
  case (Cons name names)
  obtain r h where c: "discover_boot_option_create (ctx_device (gs_ctx s)) (gs_handler s) = (r, h)" by force
  note new = script_create[OF Cons.prems c]
  let ?s = "s\<lparr>gs_handler := h\<rparr>"
  obtain dev where dev: "h_dev h (ctx_device (gs_ctx s)) = Some dev" using script_dev[OF new(1)] by auto
  have init: "bls_ok X s r (bls_init r ?s idx f)" for f using new by (simp add: bls_ok_def bls_init_def)
  have "safely (script_post X s) (hbind (bls_finish st) (bls_entries blsdir names (idx + 1)))" if "bls_ok X s r st" for st
    by (rule safely_hbind[OF bls_finish_keeps[OF that]]) (use new(4) in \<open>auto intro!: safely_mono[OF Cons.IH] intro: script_grows_trans\<close>)
  then have "safely (script_post X s) (hbind (conf_parse_buf CHR '' '' bls_process_pair True buf (bls_init r ?s idx f)) (\<lambda>st.
      hbind (bls_finish st) (bls_entries blsdir names (idx + 1))))" for buf f
    by (intro safely_hbind[OF conf_parse_buf_keeps[where P = "bls_ok X s r"]]) (simp_all add: bls_process_pair_keeps init)
  moreover have "safely (script_post X s) (hbind (if b then script_status STATUS_INFO m ?s else Inr ?s) (\<lambda>s. Inr (- 1, s)))" for b m
    using new(1,2) safely_hbind[OF script_status_keeps[OF new(1)]]
    by (cases b) (auto intro!: safely_hbind[OF script_status_keeps[OF new(1)]] intro: script_grows_trans)
  ultimately show ?case using dev by (simp add: c Let_def split: option.split split del: if_split)
qed simp

lemma builtin_blscfg_keeps: "script_ok X s \<Longrightarrow> safely (script_post X s) (builtin_blscfg w s)"
proof -
  assume ok: "script_ok X s"
  have "safely (script_post X s) (hbind (script_status t m s) (\<lambda>s. Inr (- 1, s)))" for t m
    by (rule safely_hbind[OF script_status_keeps[OF ok]]) auto
  then show ?thesis using script_dev[OF ok] bls_entries_keeps[OF ok] ok
    by (auto simp: builtin_blscfg_def split: option.split)
qed

text \<open>Sourced files.\<close>

lemma parsed_script_keeps:
  assumes "script_ok X s" "grub2_parser_parse w filename buf (s\<lparr>gs_include_depth := d\<rparr>) = (stmts, s')"
  shows "script_ok X s'" "script_grows s s'"
  using assms by (auto simp: grub2_parser_parse_def Let_def script_ok_def script_grows_def split: if_splits prod.splits)

lemma builtin_source_keeps:
  assumes "script_ok X s" "\<And>stmts s. script_ok X s \<Longrightarrow> safely (script_post X s) (run stmts s)"
  shows "safely (script_post X s) (builtin_source w run argv s)"
proof -
  let ?restore = "\<lambda>live s'. s'\<lparr>gs_statements_live := live, gs_filename := gs_filename s,
     gs_include_depth := gs_include_depth s' - 1\<rparr>"
  have restore: "script_ok X (t\<lparr>gs_statements_live := live, gs_filename := f, gs_include_depth := i\<rparr>) = script_ok X t"
    "script_grows s (t\<lparr>gs_statements_live := live, gs_filename := f, gs_include_depth := i\<rparr>) = script_grows s t" for live f i t
    by (simp_all add: script_ok_def script_grows_def)
  have "safely (script_post X s) (case grub2_parser_parse w filename buf (s\<lparr>gs_include_depth := gs_include_depth s + 1\<rparr>) of
      (stmts, s') \<Rightarrow> (case stmts of
         None \<Rightarrow> if \<not> gs_statements_live s' then Inl Double_free else Inr (0, ?restore False s')
       | Some stmts \<Rightarrow> hbind (run stmts s') (\<lambda>(rc, s').
           if \<not> gs_statements_live s' then Inl Double_free else Inr (1, ?restore (gs_statements_live s) s'))))" for filename buf
  proof -
    obtain stmts s' where p: "grub2_parser_parse w filename buf (s\<lparr>gs_include_depth := gs_include_depth s + 1\<rparr>) = (stmts, s')" by force
    note ok = parsed_script_keeps[OF assms(1) p]
    show ?thesis unfolding p prod.case
      by (cases stmts) (auto simp: ok restore intro!: safely_hbind[OF assms(2)[OF ok(1)]] intro: script_grows_trans[OF ok(2)])
  qed
  then show ?thesis unfolding builtin_source_def Let_def
    by (auto simp: assms(1) split: option.split intro!: safely_hbind[OF parse_to_device_path_live[OF assms(1)]])
qed

lemma set_parameters_keeps: "script_ok X s \<Longrightarrow> script_ok X (set_parameters i args s) \<and> script_grows s (set_parameters i args s)"
proof (induction args arbitrary: i s)
  case (Cons arg args)
  let ?s = "script_set (fmt_u i) arg s"
  have "script_ok X (set_parameters (Suc i) args ?s)" "script_grows ?s (set_parameters (Suc i) args ?s)"
    using Cons.IH[of ?s "Suc i"] Cons.prems by simp_all
  then show ?case using script_grows_trans[OF script_set_keeps(2)[of s "fmt_u i" arg]] by simp
qed simp

lemma script_run_logic:
  assumes "\<And>stmts s. script_ok X s \<Longrightarrow> safely (script_post X s) (run stmts s)"
  shows "script_logic Use_after_free (script_ok X) script_grows True w run"
proof
  fix s name fn argv
  assume ok: "script_ok X s"
  have "safely (script_post X s) (run body (set_parameters i args s))" for body i args
    by (rule safely_mono[OF assms]) (use set_parameters_keeps[OF ok, of i args] in \<open>auto intro: script_grows_trans\<close>)
  moreover have "safely (script_post X s) (builtin_set argv s)"
    by (simp add: builtin_set_def ok split: list.split option.split)
  ultimately show "keeping Use_after_free (script_post X s) (invoke w run fn argv s)"
    unfolding safely_keeping[symmetric]
    by (cases fn) (simp_all add: ok builtin_option_keeps builtin_search_keeps builtin_test_keeps builtin_load_env_keeps
        builtin_save_env_keeps builtin_blscfg_keeps builtin_source_keeps assms)
next
  fix s exec words
  assume "script_ok X s" "\<And>s. script_ok X s \<Longrightarrow> keeping Use_after_free (script_post X s) (exec s)"
  then show "keeping Use_after_free (script_post X s) (statement_menuentry_execute exec words s)"
    using menuentry_keeps[of X s exec words] by (simp add: safely_keeping)
next
  fix s t u
  assume "script_grows s t" "script_grows t u"
  then show "script_grows s u" by (rule script_grows_trans)
next
  fix s name body
  assume "script_ok X s"
  then show "script_ok X (script_register_function name (Function_invoke body) s) \<and>
      script_grows s (script_register_function name (Function_invoke body) s)"
    by (simp add: script_register_function_def script_ok_def script_grows_def)
qed simp_all

lemma grub2_run_safe: "script_ok X s \<Longrightarrow> safely (script_post X s) (grub2_run w n stmts s)"
proof (induction n arbitrary: stmts s)
  case (Suc n)
  have "script_logic Use_after_free (script_ok X) script_grows True w (grub2_run w n)"
    by (rule script_run_logic) (rule Suc.IH)
  from script_logic.statement_keeps(2)[OF this refl plain_all(2) Suc.prems] show ?case by (simp add: safely_keeping)
qed simp

interpretation script_safety: script_logic Use_after_free "script_ok X" script_grows True w "grub2_run w n" for X w n
  by (rule script_run_logic) (rule grub2_run_safe)

section \<open>The parser\<close>

lemma init_env_keeps: "script_ok X s \<Longrightarrow> script_ok X (init_env s)"
  by (simp add: init_env_def Let_def)

lemma have_default_safe: "script_ok X s \<Longrightarrow> set rs \<subseteq> set (gs_options s) \<Longrightarrow> safely (\<lambda>_. True) (have_default (gs_handler s) rs)"
proof (induction rs)
  case (Cons r rs)
  then obtain opt where "h_opt (gs_handler s) r = Some opt"
    using pending_live[of "gs_handler s" "gs_ctx s" r] by (auto simp: script_ok_def)
  then show ?case using Cons by (auto intro!: safely_True_hbind)
qed simp

lemma set_fallback_keeps: "script_ok X s \<Longrightarrow> safely (script_ok X) (set_fallback_default s)"
proof -
  assume ok: "script_ok X s"
  have "safely (script_ok X) (on_option r (\<lambda>opt. opt\<lparr>dbo_option := (dbo_option opt)\<lparr>opt_is_default := b\<rparr>\<rparr>) s)" if "gs_options s = r # rs" for r rs b
    using ok that by (intro safely_mono[OF on_option_keeps[OF ok]]) (auto simp: script_ok_def[of X s] option_change_def)
  then show ?thesis unfolding set_fallback_default_def
    by (intro safely_True_hbind[OF have_default_safe[OF ok]]) (auto simp: ok split: list.split)
qed

lemma add_options_keeps:
  "handler_ok X h \<Longrightarrow> context_ok h ctx \<Longrightarrow> distinct rs \<Longrightarrow> \<forall>r \<in> set rs. pending h ctx r \<Longrightarrow>
     safely (parsed_ok X) (add_options rs ctx h)"
proof (induction rs arbitrary: ctx h)
  case (Cons r rs)
  obtain opt where opt: "h_opt h r = Some opt" using pending_live[of h ctx r] Cons.prems(4) by auto
  let ?h = "put_opt r (opt\<lparr>dbo_source := ctx_parser ctx\<rparr>) h"
  let ?ctx = "ctx\<lparr>ctx_boot_options := ctx_boot_options ctx @ [r]\<rparr>"
  have add: "discover_context_add_boot_option ctx r h = Inr (?ctx, ?h)"
    using opt by (simp add: discover_context_add_boot_option_def)
  have ok: "handler_ok X ?h" "context_ok ?h ?ctx" using add_keeps[OF Cons.prems(1,2), of r] Cons.prems(4) by (simp_all add: add)
  have "pending ?h ctx r'" if "r' \<in> set rs" for r'
    using Cons.prems(4) that fill_keeps(3)[OF Cons.prems(1,2) opt] by simp
  then have "\<forall>r' \<in> set rs. pending ?h ?ctx r'" using Cons.prems(3) by (auto simp: pending_def)
  then show ?case using Cons.IH[OF ok] Cons.prems(3) by (simp add: add)
qed simp

lemma script_execute_keeps: "script_ok X s \<Longrightarrow> safely (parsed_ok X) (script_execute w n stmts s)"
  unfolding script_execute_def
  by (rule safely_hbind[OF grub2_run_safe[OF init_env_keeps]])
    (auto simp: script_ok_def intro!: safely_hbind[OF set_fallback_keeps] add_options_keeps)

lemma register_builtins_same:
  "gs_handler (register_builtins s) = gs_handler s" "gs_ctx (register_builtins s) = gs_ctx s"
  "gs_options (register_builtins s) = gs_options s" "gs_opt (register_builtins s) = gs_opt s"
  by (simp_all add: register_builtins_def builtins_def nops_def script_register_function_def)

lemma create_script_ok: "handler_ok X h \<Longrightarrow> context_ok h ctx \<Longrightarrow> script_ok X (create_script files ctx h)"
  by (simp add: script_ok_def create_script_def register_builtins_same)

lemma parse_and_execute_keeps:
  assumes "script_ok X s"
  shows "safely (parsed_ok X) (grub2_parser_parse_and_execute w n filename buf s)"
proof -
  obtain stmts s' where p: "grub2_parser_parse w filename buf s = (stmts, s')" by force
  have "script_ok X s'" using parsed_script_keeps(1)[OF assms, of w filename buf "gs_include_depth s"] p by simp
  then show ?thesis using script_execute_keeps[of X s' w n]
    by (cases stmts) (auto simp: grub2_parser_parse_and_execute_def p script_ok_def)
qed

lemma grub2_files_keeps:
  "handler_ok X h \<Longrightarrow> context_ok h ctx \<Longrightarrow> safely (parsed_ok X) (grub2_files w n files filenames ctx h)"
proof (induction filenames)
  case (Cons filename filenames)
  obtain dev where "h_dev h (ctx_device ctx) = Some dev" using Cons.prems(2) by (auto simp: context_ok_def)
  moreover have "safely (parsed_ok X) (hbind (get_dev h' (ctx_device ctx')) (\<lambda>dev.
      Inr (ctx', device_handler_status STATUS_INFO (m dev) h')))" if ok: "handler_ok X h'" "context_ok h' ctx'" for h' ctx' m
  proof -
    obtain dev where "h_dev h' (ctx_device ctx') = Some dev" using ok(2) by (auto simp: context_ok_def)
    then show ?thesis using ok context_ok_view[OF same_view_status(1) ok(2)] by simp
  qed
  ultimately show ?case using Cons
    by (auto split: option.split intro!: safely_hbind[OF parse_and_execute_keeps[OF create_script_ok]])
qed simp

interpretation grub2: parser "grub2_parse w n files" for w n files
  by unfold_locales (simp add: grub2_parse_def grub2_files_keeps)

end
