(* ===== verification/Grub_Stack.thy ===== *)
theory Grub_Stack
  imports Grub_Safe
begin

text \<open>
  The stack that a script needs: files nest ten levels deep, so that a script without functions runs with eleven levels, whatever
  the commands do; more levels never change a result; and a function that calls itself needs more than any number.
\<close>

section \<open>Commands\<close>

text \<open>Only the nesting of files and functions is counted, and no command changes that or the table of functions.\<close>

definition same_calls :: "grub2_script \<Rightarrow> grub2_script \<Rightarrow> bool" where
  "same_calls s s' \<longleftrightarrow> gs_symtab s' = gs_symtab s \<and> gs_include_depth s' = gs_include_depth s"

abbreviation calm :: "'a h_m \<Rightarrow> bool" where
  "calm \<equiv> keeping Stack_overflow (\<lambda>_. True)"

abbreviation calls_post :: "grub2_script \<Rightarrow> int \<times> grub2_script \<Rightarrow> bool" where
  "calls_post s \<equiv> (\<lambda>(rc, s'). same_calls s s')"

named_theorems calm_intros

lemma same_calls_refl [simp]: "same_calls s s"
  by (simp add: same_calls_def)

lemma same_calls_trans: "same_calls s t \<Longrightarrow> same_calls t u \<Longrightarrow> same_calls s u"
  by (simp add: same_calls_def)

lemma same_calls_set [simp]:
  "same_calls s (script_set name val s)" "same_calls s (s\<lparr>gs_environment := e\<rparr>)" "same_calls s (put_file d p f s)"
  "same_calls s (s\<lparr>gs_handler := h\<rparr>)" "same_calls s (s\<lparr>gs_handler := h, gs_opt := opt\<rparr>)" "same_calls s (s\<lparr>gs_opt := opt\<rparr>)"
  by (simp_all add: same_calls_def script_set_def put_file_def)

lemma get_calm [simp, calm_intros]: "calm (get_dev h d)" "calm (get_opt h r)"
  by (simp_all add: get_dev_def get_opt_def split: option.split)

lemma url_calm [calm_intros]: "calm (map_sum Url_error f m)"
  by (cases m) simp_all

lemma lookup_loop_calm: "calm (lookup_loop h match str rs)"
  by (induction rs) (auto intro!: keeping_True_hbind get_calm)

lemma lookup_calm [calm_intros]:
  "calm (device_lookup_by_uuid h u)" "calm (device_lookup_by_label h u)" "calm (device_lookup_by_id h u)"
  by (auto simp: device_lookup_by_uuid_def device_lookup_by_label_def device_lookup_by_id_def device_lookup_def lookup_loop_calm
      split: option.split)

lemma grub2_lookup_calm [calm_intros]: "calm (grub2_lookup_device h desc)"
  unfolding grub2_lookup_device_def by (auto intro!: keeping_True_hbind lookup_calm)

lemma script_resource_calm [calm_intros]: "calm (script_resource s path)"
proof -
  have url: "calm (if b then map_sum Url_error id m else Inr None)" for b m by (cases m) simp_all
  have found: "calm (if b then grub2_lookup_device h f else Inr x)" for b h f x by (simp add: grub2_lookup_calm)
  show ?thesis
    unfolding script_resource_def create_grub2_resource_def resolve_resource_against_device_def Let_def
    by (rule keeping_True_hbind[OF url]) (auto split: option.split split del: if_split
        intro!: keeping_True_hbind[OF found] keeping_True_hbind[OF grub2_lookup_calm] keeping_True_hbind[OF get_calm(1)] keeping_True_hbind[OF url_calm])
qed

lemma on_option_calm [calm_intros]: "keeping Stack_overflow (same_calls s) (on_option r f s)"
  unfolding on_option_def by (rule keeping_True_hbind[OF get_calm(2)]) simp

lemma script_status_calm [calm_intros]: "keeping Stack_overflow (same_calls s) (script_status t m s)"
  unfolding script_status_def by (rule keeping_True_hbind[OF get_calm(1)]) simp

lemma option_command_calm:
  "keeping Stack_overflow (calls_post s) (hbind (on_option r f s) (\<lambda>s. Inr (0, s)))"
  by (rule keeping_hbind[OF on_option_calm]) simp

lemma builtin_option_calm:
  "keeping Stack_overflow (calls_post s) (builtin_linux argv s)"
  "keeping Stack_overflow (calls_post s) (builtin_initrd argv s)"
  "keeping Stack_overflow (calls_post s) (builtin_devicetree argv s)"
  unfolding builtin_linux_def builtin_initrd_def builtin_devicetree_def
  by (auto split: option.split list.split intro!: keeping_True_hbind[OF script_resource_calm] option_command_calm)

lemma builtin_search_calm: "keeping Stack_overflow (calls_post s) (builtin_search argv s)"
proof -
  have "calm (hbind m (\<lambda>dev. case dev of
     Some d \<Rightarrow> hbind (get_dev (gs_handler s) d) (\<lambda>dev. Inr (dev_id (dd_device dev))) | None \<Rightarrow> Inr unknown))"
    if "calm m" for m unknown
    by (rule keeping_True_hbind[OF that]) (auto split: option.split intro!: keeping_True_hbind get_calm)
  then show ?thesis unfolding builtin_search_def Let_def
    by (auto split: list.split lookup_type.split option.split intro!: keeping_True_hbind[where P = "calls_post s"] lookup_calm)
qed

lemma parse_to_device_path_calm [calm_intros]: "calm (parse_to_device_path s desc)"
  unfolding parse_to_device_path_def by (auto split: option.split intro!: keeping_True_hbind grub2_lookup_calm)

lemma builtin_test_op_calm: "calm (builtin_test_op s argv)"
proof -
  have stat: "calm (stat_description s desc)" for desc
    unfolding stat_description_def
    by (rule keeping_True_hbind[OF parse_to_device_path_calm]) (auto split: option.split prod.split intro!: keeping_True_hbind get_calm)
  show ?thesis
    unfolding builtin_test_op_def test_unary_def builtin_test_op_file_def builtin_test_op_dir_def
    by (auto split: list.split intro!: keeping_True_hbind[OF stat] keeping_True_hbind[OF keeping_True_hbind[OF stat]])
qed

lemma test_loop_calm: "calm (test_loop s argv neg rc)"
proof (induction s argv neg rc rule: test_loop.induct)
  case (2 s arg argv neg rc)
  then show ?case using builtin_test_op_calm[of s "arg # argv"]
    by (cases "builtin_test_op s (arg # argv)") auto
qed simp

lemma builtin_test_calm: "keeping Stack_overflow (calls_post s) (builtin_test argv s)"
  unfolding builtin_test_def Let_def by (rule keeping_True_hbind[OF test_loop_calm]) simp

lemma builtin_env_calm:
  "keeping Stack_overflow (calls_post s) (builtin_load_env argv s)"
  "keeping Stack_overflow (calls_post s) (builtin_save_env w argv s)"
proof -
  show "keeping Stack_overflow (calls_post s) (builtin_load_env argv s)"
    unfolding builtin_load_env_def Let_def
    by (rule keeping_True_hbind[OF get_calm(1)]) (auto split: option.split)
  have save: "calm (save_vars e ns b)" for e ns b using save_vars_total[of e ns b] by auto
  show "keeping Stack_overflow (calls_post s) (builtin_save_env w argv s)"
    unfolding builtin_save_env_def Let_def
    by (rule keeping_True_hbind[OF get_calm(1)]) (auto split: option.split intro!: keeping_True_hbind[OF save])
qed

lemma builtin_blscfg_calm: "keeping Stack_overflow (calls_post s) (builtin_blscfg w s)"
proof -
  let ?P = "\<lambda>s st. same_calls s (bs_script st)"
  have pair: "keeping Stack_overflow (?P s) (bls_process_pair name val st)" if "?P s st" for s st name val
    unfolding bls_process_pair_def Let_def
    using that by (auto split: option.split intro!: keeping_hbind[OF on_option_calm] intro: same_calls_trans)
  have opt: "calm (optional_script_resource s path)" for s path
    by (simp add: optional_script_resource_def script_resource_calm split: option.split)
  have status: "keeping Stack_overflow (same_calls s) (script_status t m u)" if "same_calls s u" for s t m u
    by (rule keeping_mono[OF script_status_calm]) (rule same_calls_trans[OF that])
  have app: "same_calls s (u\<lparr>gs_options := os, gs_n_options := n\<rparr>) = same_calls s u" for s u os n by (simp add: same_calls_def)
  have finish: "keeping Stack_overflow (same_calls s) (bls_finish st)" if "?P s st" for s st
    unfolding bls_finish_def Let_def using that
    by (auto split: option.split intro!: keeping_True_hbind[OF script_resource_calm] keeping_True_hbind[OF opt]
        keeping_hbind[OF on_option_calm] status simp: app intro: same_calls_trans)
  have entries: "keeping Stack_overflow (calls_post s) (bls_entries blsdir names idx t)" if "same_calls s t" for blsdir names idx s t
    using that
  proof (induction names arbitrary: idx t)
    case (Cons name names)
    obtain r h where c: "discover_boot_option_create (ctx_device (gs_ctx t)) (gs_handler t) = (r, h)" by force
    have t: "same_calls s (t\<lparr>gs_handler := h\<rparr>)" using Cons.prems same_calls_trans same_calls_set(4) by blast
    have "keeping Stack_overflow (?P s) (conf_parse_buf CHR '' '' bls_process_pair True buf (bls_init r (t\<lparr>gs_handler := h\<rparr>) idx f))" for buf f
      by (rule conf_parse_buf_keeping) (simp_all add: pair bls_init_def t)
    then show ?case unfolding bls_entries.simps c Let_def prod.case
      by (intro keeping_True_hbind[OF get_calm(1)])
        (auto split: option.split intro!: keeping_hbind[OF status[OF t]] keeping_hbind[where Q = "?P s"] keeping_hbind[OF finish]
          Cons.IH t simp: t)
  qed simp
  show ?thesis unfolding builtin_blscfg_def
    by (rule keeping_True_hbind[OF get_calm(1)]) (auto split: option.split intro!: keeping_hbind[OF script_status_calm] entries)
qed

section \<open>Scripts without functions\<close>

fun builtin_fn :: "grub2_function \<Rightarrow> bool" where
  "builtin_fn (Function_invoke body) = False"
| "builtin_fn fn = True"

text \<open>\<open>n\<close> levels are left for sourced files.\<close>

definition stack_ok :: "nat \<Rightarrow> grub2_script \<Rightarrow> bool" where
  "stack_ok n s \<longleftrightarrow> (\<forall>(name, fn) \<in> set (gs_symtab s). builtin_fn fn) \<and> 10 \<le> gs_include_depth s + n"

definition sources_plain :: "grub2_world \<Rightarrow> bool" where
  "sources_plain w \<longleftrightarrow> (\<forall>scanner buf stmts. fst (ge_parse w scanner buf) = Some stmts \<longrightarrow> plain_stmts False stmts)"

lemma stack_ok_same: "same_calls s s' \<Longrightarrow> stack_ok n s' = stack_ok n s"
  by (simp add: same_calls_def stack_ok_def)

lemma lookup_builtin: "stack_ok n s \<Longrightarrow> script_lookup_function s name = Some fn \<Longrightarrow> builtin_fn fn"
  by (auto simp: stack_ok_def script_lookup_function_def dest: map_of_SomeD)

text \<open>What is known of the script after a command: it has the same depth and is as good as before.\<close>

abbreviation stack_post :: "nat \<Rightarrow> grub2_script \<Rightarrow> int \<times> grub2_script \<Rightarrow> bool" where
  "stack_post n s \<equiv> (\<lambda>(rc, s'). stack_ok n s' \<and> gs_include_depth s' = gs_include_depth s)"

lemma calls_stack_post: "stack_ok n s \<Longrightarrow> keeping Stack_overflow (calls_post s) m \<Longrightarrow> keeping Stack_overflow (stack_post n s) m"
  by (erule keeping_mono) (auto simp: stack_ok_def same_calls_def)

lemma builtin_source_calm:
  assumes "sources_plain w" "stack_ok n s"
    "\<And>stmts s. plain_stmts False stmts \<Longrightarrow> stack_ok (n - 1) s \<Longrightarrow> 11 \<le> gs_include_depth s + n \<Longrightarrow>
       gs_include_depth s \<le> 10 \<Longrightarrow> keeping Stack_overflow (stack_post (n - 1) s) (run stmts s)"
  shows "keeping Stack_overflow (stack_post n s) (builtin_source w run argv s)"
proof (cases "gs_include_depth s \<ge> 10")
  case False
  let ?s = "s\<lparr>gs_include_depth := gs_include_depth s + 1\<rparr>"
  have depth: "11 \<le> gs_include_depth s + 1 + n" "stack_ok (n - 1) ?s" using assms(2) False by (auto simp: stack_ok_def)
  have "keeping Stack_overflow (stack_post n s) (case grub2_parser_parse w filename buf ?s of
      (stmts, s') \<Rightarrow> (case stmts of
         None \<Rightarrow> if \<not> gs_statements_live s' then Inl Double_free
           else Inr (0, s'\<lparr>gs_statements_live := False, gs_filename := gs_filename s, gs_include_depth := gs_include_depth s' - 1\<rparr>)
       | Some stmts \<Rightarrow> hbind (run stmts s') (\<lambda>(rc, s').
           if \<not> gs_statements_live s' then Inl Double_free
           else Inr (1, s'\<lparr>gs_statements_live := gs_statements_live s, gs_filename := gs_filename s,
             gs_include_depth := gs_include_depth s' - 1\<rparr>))))" for filename buf
  proof -
    obtain stmts s' where p: "grub2_parser_parse w filename buf ?s = (stmts, s')" by force
    have s': "gs_include_depth s' = gs_include_depth s + 1" "gs_symtab s' = gs_symtab s" "stack_ok (n - 1) s'"
      using p depth(2) by (auto simp: grub2_parser_parse_def Let_def stack_ok_def split: if_splits prod.splits)
    have plain: "stmts = Some sts \<Longrightarrow> plain_stmts False sts" for sts
      using p assms(1) by (auto simp: grub2_parser_parse_def Let_def sources_plain_def split: if_splits prod.splits) (metis fst_conv)
    show ?thesis
    proof (cases stmts)
      case None
      then show ?thesis unfolding p prod.case using s' assms(2) by (simp add: stack_ok_def)
    next
      case (Some sts)
      have "keeping Stack_overflow (stack_post (n - 1) s') (run sts s')"
        using assms(3)[OF plain[OF Some] s'(3)] depth(1) s'(1) False by simp
      then show ?thesis unfolding p prod.case Some option.case
        by (rule keeping_hbind) (use assms(2) in \<open>auto simp: s' stack_ok_def\<close>)
    qed
  qed
  then show ?thesis unfolding builtin_source_def Let_def
    by (auto simp: assms(2) split: option.split intro!: keeping_True_hbind[OF parse_to_device_path_calm] keeping_True_hbind[OF get_calm(1)])
qed (simp add: builtin_source_def assms(2))

lemma menuentry_calm:
  assumes "stack_ok n s" "\<And>s. stack_ok n s \<Longrightarrow> keeping Stack_overflow (stack_post n s) (body s)"
  shows "keeping Stack_overflow (stack_post n s) (statement_menuentry_execute body words s)"
proof -
  have start: "keeping Stack_overflow (same_calls s) (menuentry_start r args (s\<lparr>gs_handler := h\<rparr>))" for r args h
    unfolding menuentry_start_def Let_def
    by (rule keeping_True_hbind[OF get_calm(1)], rule keeping_mono[OF on_option_calm]) (simp add: same_calls_def)
  have finish: "keeping Stack_overflow (stack_post n s) (menuentry_finish r ident t)"
    if "stack_ok n t" "gs_include_depth t = gs_include_depth s" for r ident t
    unfolding menuentry_finish_def using that
    by (intro keeping_True_hbind[OF get_calm(2)]) (auto intro!: keeping_hbind[OF on_option_calm] simp: stack_ok_def same_calls_def)
  have "keeping Stack_overflow (stack_post n s) (hbind (body t) (\<lambda>(rc, u). menuentry_finish r ident u))" if "same_calls s t" for t r ident
    by (rule keeping_hbind[OF assms(2)]) (use assms(1) that finish in \<open>auto simp: stack_ok_def same_calls_def\<close>)
  then show ?thesis unfolding statement_menuentry_execute_def Let_def
    by (cases "discover_boot_option_create (ctx_device (gs_ctx s)) (gs_handler s)") (auto intro!: keeping_hbind[OF start])
qed

lemma stack_run_logic:
  assumes "sources_plain w" "\<And>stmts s. plain_stmts False stmts \<Longrightarrow> stack_ok (n - 1) s \<Longrightarrow> 11 \<le> gs_include_depth s + n \<Longrightarrow>
       gs_include_depth s \<le> 10 \<Longrightarrow> keeping Stack_overflow (stack_post (n - 1) s) (run stmts s)"
  shows "script_logic Stack_overflow (stack_ok n) (\<lambda>s s'. gs_include_depth s' = gs_include_depth s) False w run"
proof
  fix s name fn argv
  assume ok: "stack_ok n s" and fn: "script_lookup_function s name = Some fn"
  have "keeping Stack_overflow (calls_post s) (builtin_set argv s)"
    by (simp add: builtin_set_def split: list.split option.split)
  note commands = this builtin_option_calm builtin_search_calm builtin_test_calm builtin_env_calm builtin_blscfg_calm
  show "keeping Stack_overflow (stack_post n s) (invoke w run fn argv s)"
    using lookup_builtin[OF ok fn] builtin_source_calm[OF assms(1) ok assms(2)]
    by (cases fn) (simp_all add: ok commands calls_stack_post)
next
  fix s exec words
  assume "stack_ok n s" "\<And>s. stack_ok n s \<Longrightarrow> keeping Stack_overflow (stack_post n s) (exec s)"
  then show "keeping Stack_overflow (stack_post n s) (statement_menuentry_execute exec words s)" by (rule menuentry_calm)
qed (simp_all add: stack_ok_def script_set_def)

lemma grub2_run_calm:
  "sources_plain w \<Longrightarrow> plain_stmts False stmts \<Longrightarrow> stack_ok (n - 1) s \<Longrightarrow> 11 \<le> gs_include_depth s + n \<Longrightarrow>
     gs_include_depth s \<le> 10 \<Longrightarrow> keeping Stack_overflow (stack_post (n - 1) s) (grub2_run w n stmts s)"
proof (induction n arbitrary: stmts s)
  case (Suc n)
  have "script_logic Stack_overflow (stack_ok n) (\<lambda>s s'. gs_include_depth s' = gs_include_depth s) False w (grub2_run w n)"
    using Suc.prems(1) by (intro stack_run_logic Suc.IH)
  from script_logic.statement_keeps(2)[OF this refl Suc.prems(2)] Suc.prems(3) show ?case by simp
qed simp

section \<open>More stack\<close>

text \<open>The results are the same, unless the first overflows.\<close>

definition deeper :: "'a h_m \<Rightarrow> 'a h_m \<Rightarrow> bool" where
  "deeper m m' \<longleftrightarrow> m = Inl Stack_overflow \<or> m' = m"

lemma deeper_refl [simp]: "deeper m m"
  by (simp add: deeper_def)

lemma deeper_hbind: "deeper m m' \<Longrightarrow> (\<And>x. deeper (k x) (k' x)) \<Longrightarrow> deeper (hbind m k) (hbind m' k')"
  by (cases m) (auto simp: deeper_def hbind_def)

lemma deeper_pair: "(\<And>a b. deeper (k a b) (k' a b)) \<Longrightarrow> deeper (case x of (a, b) \<Rightarrow> k a b) (case x of (a, b) \<Rightarrow> k' a b)"
  by (cases x) simp

lemma deeper_source:
  assumes "\<And>stmts s. deeper (run stmts s) (run' stmts s)"
  shows "deeper (builtin_source w run argv s) (builtin_source w run' argv s)"
  unfolding builtin_source_def Let_def by (auto split: option.split prod.split intro!: deeper_hbind assms)

lemma deeper_for:
  assumes "\<And>s. deeper (body s) (body' s)"
  shows "deeper (for_loop body var args rc s) (for_loop body' var args rc s)"
  by (induction args arbitrary: rc s) (auto intro!: deeper_hbind assms)

lemma deeper_menuentry:
  assumes "\<And>s. deeper (body s) (body' s)"
  shows "deeper (statement_menuentry_execute body words s) (statement_menuentry_execute body' words s)"
  unfolding statement_menuentry_execute_def Let_def by (auto split: prod.split intro!: deeper_hbind assms)

lemma deeper_statement:
  assumes "\<And>stmts s. deeper (run stmts s) (run' stmts s)"
  shows "deeper (statement_execute w run stmt s) (statement_execute w run' stmt s)"
    "deeper (statements_execute w run stmts rc s) (statements_execute w run' stmts rc s)"
    "deeper (conditionals_execute w run conds rc s) (conditionals_execute w run' conds rc s)"
proof (induction True stmt and True stmts and True conds arbitrary: s and s rc and s rc
    rule: plain_stmt_plain_stmts_plain_conds.induct)
  case (1 words)
  have "deeper (invoke w run fn argv s) (invoke w run' fn argv s)" for fn argv
    by (cases fn) (simp_all add: assms deeper_source)
  then show ?case by (auto simp: statement_simple_execute_def split: list.split option.split)
next
  case (3 conds els)
  then show ?case by (auto split: option.split intro!: deeper_hbind)
next
  case (10 condition stmts conds)
  then show ?case by (auto split: option.split intro!: deeper_hbind)
qed (auto intro!: deeper_hbind deeper_for deeper_menuentry)

lemma grub2_run_Suc: "deeper (grub2_run w n stmts s) (grub2_run w (Suc n) stmts s)"
proof (induction n arbitrary: stmts s)
  case (Suc n)
  then show ?case using deeper_statement(2)[of "grub2_run w n" "grub2_run w (Suc n)"] by simp
qed (simp add: deeper_def)

lemma grub2_run_more: "n \<le> m \<Longrightarrow> deeper (grub2_run w n stmts s) (grub2_run w m stmts s)"
proof (induction m rule: dec_induct)
  case (step m)
  then show ?case using grub2_run_Suc[of w m stmts s] by (auto simp: deeper_def)
qed simp

end
