(* ===== verification/Device_Props.thy ===== *)
theory Device_Props
  imports Resource
begin

text \<open>
  The behaviour of the device handler that its users see: which option becomes the default, how the
  countdown ends, what removal and reset leave, and the faults that remain.
\<close>

section \<open>A run of the handler\<close>

text \<open>One disk with one option that its configuration marks as the default: the device and the option are
  created, the parser fills in the option, and the context is committed.\<close>

definition run_opt :: discover_boot_option where
  "run_opt = sample_boot_opt\<lparr>dbo_device := 0, dbo_source := ''kboot'',
     dbo_option := (dbo_option sample_boot_opt)\<lparr>opt_is_default := True, opt_device_id := None, opt_boot_image_file := None,
       opt_initrd_file := None, opt_dtb_file := None, opt_icon_file := None, opt_args_sig_file := None\<rparr>\<rparr>"

definition run_start :: device_handler where
  "run_start = device_handler_init False (be_config sample_env) []"

definition run_dev :: device_handler where
  "run_dev = put_dev 0 (discover_device_new (Some ''1-2'') ''sda1'') (run_start\<lparr>h_next := 1\<rparr>)"

definition run_new :: device_handler where
  "run_new = snd (discover_boot_option_create 0 run_dev)"

definition run_parsed :: device_handler where
  "run_parsed = put_opt 1 run_opt run_new"

definition run_ctx :: discover_context where
  "run_ctx = \<lparr>ctx_parser = [], ctx_device = 0, ctx_event = None, ctx_boot_options = [1]\<rparr>"

definition run_ready :: device_handler where
  "run_ready = (case device_handler_discover_context_commit parser_resolvers sample_env run_ctx run_parsed of Inr h \<Rightarrow> h | Inl _ \<Rightarrow> run_parsed)"

lemma run_parsed_reachable: "reachable parser_resolvers run_parsed"
proof -
  have s: "reachable parser_resolvers run_start" unfolding run_start_def by (rule reachable.init)
  have "map_sum id snd (discover_device_create (Some ''1-2'') ''sda1'' run_start) = Inr run_dev"
    by (simp add: discover_device_create_def device_lookup_by_uuid_def device_lookup_def run_start_def run_dev_def
        device_handler_init_def)
  with s have d: "reachable parser_resolvers run_dev" by (metis reachable.step handler_step.create_device)
  have "h_dev run_dev 0 \<noteq> None" by (simp add: run_dev_def)
  from handler_step.create_option[OF this] d have n: "reachable parser_resolvers run_new"
    unfolding run_new_def by (rule reachable.step[rotated])
  obtain o1 where "h_opt run_new 1 = Some o1" "dbo_device run_opt = dbo_device o1"
    by (simp add: run_new_def run_dev_def run_start_def discover_boot_option_create_def run_opt_def)
  from handler_step.set_option[OF this] n show ?thesis
    unfolding run_parsed_def by (rule reachable.step[rotated])
qed

lemmas run_defs = run_parsed_def run_ctx_def run_new_def run_dev_def run_start_def run_opt_def sample_boot_opt_def
  sample_env_def plain_config_def

text \<open>What evaluates the handler's operations on a concrete state.\<close>

lemmas commit_evals = device_handler_discover_context_commit_def discover_boot_option_create_def
  device_handler_init_def discover_device_new_def device_lookup_by_uuid_def device_lookup_def device_handler_add_device_def
  network_register_device_def find_interface_by_uuid_def find_interface_def has_image_def boot_option_resolve_def
  resource_resolve_def resource_is_resolved_def publish_option_def boot_option_finalise_def final_option_def
  boot_option_is_resolved_def final_file_def set_default_def default_option_priority_def autoboot_option_priority_def
  get_dev_def get_opt_def Let_def config_autoboot_active_def ipmi_bootdev_of_code_def
  DEFAULT_PRIORITY_DISABLED_def DEFAULT_PRIORITY_LOCAL_FIRST_def default_timeout_def notify_boot_option_def
  waiter_register_timeout_def countdown_status_def device_handler_status_def put_dev_def put_opt_def notify_def

lemma run_evaluates:
  "case device_handler_discover_context_commit parser_resolvers sample_env run_ctx run_parsed of
     Inl e \<Rightarrow> False
   | Inr h \<Rightarrow> h_default h = Some 1 \<and> h_pending h = None \<and> h_timeout_waiter h = Some 2 \<and> h_waiters h = [(2, Default_timeout)] \<and>
       h_sec_to_boot h = 9 \<and> h_devices h = [0] \<and> h_autoboot_enabled h \<and> h_dev h 0 \<noteq> None \<and> h_default_priority h = 3 \<and>
       h_unresolved h = [] \<and> h_last h = Some 1 \<and> h_crypt_devices h = [] \<and> h_interfaces h = [] \<and>
       (\<exists>dev opt. dd_requery_waiter dev = None \<and> dd_ramdisk dev = None \<and> h_dev h 0 = Some dev \<and> dev_type (dd_device dev) = DEVICE_TYPE_NETWORK \<and> dd_device_path dev = None \<and>
          dev_id (dd_device dev) = Some ''sda1'' \<and> dd_boot_options dev = [1] \<and> h_opt h 1 = Some opt \<and> dbo_device opt = 0 \<and>
          opt_id (dbo_option opt) = Some ''sda1#linux'')"
  by (simp add: run_defs commit_evals)

lemma run_commit: "device_handler_discover_context_commit parser_resolvers sample_env run_ctx run_parsed = Inr run_ready"
  using run_evaluates by (simp add: run_ready_def split: sum.splits)

lemma run_ready_sel [simp]:
  "h_default run_ready = Some 1" "h_pending run_ready = None" "h_timeout_waiter run_ready = Some 2"
  "h_waiters run_ready = [(2, Default_timeout)]" "h_sec_to_boot run_ready = 9" "h_devices run_ready = [0]"
  "h_autoboot_enabled run_ready" "h_default_priority run_ready = 3" "h_unresolved run_ready = []" "h_last run_ready = Some 1"
  "\<exists>dev. h_dev run_ready 0 = Some dev" "h_crypt_devices run_ready = []" "h_interfaces run_ready = []"
  using run_evaluates by (auto simp: run_commit)

lemma run_ready_objs:
  obtains dev opt where "h_dev run_ready 0 = Some dev" "dev_type (dd_device dev) = DEVICE_TYPE_NETWORK"
    "dev_id (dd_device dev) = Some ''sda1''" "dd_boot_options dev = [1]" "h_opt run_ready 1 = Some opt" "dbo_device opt = 0"
    "opt_id (dbo_option opt) = Some ''sda1#linux''" "dd_device_path dev = None"
    "dd_requery_waiter dev = None" "dd_ramdisk dev = None"
  using run_evaluates by (auto simp: run_commit)

lemma run_ctx_ok: "context_ok run_parsed run_ctx"
  by (simp add: run_defs context_ok_def loose_def discover_boot_option_create_def device_handler_init_def
      discover_device_new_def)

lemma run_ready_reachable: "reachable parser_resolvers run_ready"
  using handler_step.commit[OF run_ctx_ok, of parser_resolvers sample_env] run_parsed_reachable
  unfolding run_commit by (rule reachable.step[rotated])

text \<open>A client then starts the boot of a file that is loaded asynchronously, while the countdown runs.\<close>

definition run_async :: boot_env where
  "run_async = sample_env\<lparr>be_lockdown := PB_LOCKDOWN_NONE, be_load := (\<lambda>_. Some \<lparr>lr_status = LOAD_ASYNC, lr_local = None\<rparr>)\<rparr>"

definition run_cmd :: boot_command where
  "run_cmd = \<lparr>cmd_option_id = None, cmd_boot_image_file = Some ''/vmlinux'', cmd_initrd_file = None, cmd_dtb_file = None,
     cmd_boot_args = None, cmd_args_sig_file = None, cmd_console = None\<rparr>"

definition run_pending :: device_handler where
  "run_pending = (case device_handler_boot run_async True run_cmd run_ready of Inr h \<Rightarrow> h | Inl _ \<Rightarrow> run_ready)"

lemma run_boot: "\<exists>task. boot run_async None (Some run_cmd) dry_run = Inr (Some task, [(STATUS_INFO, Booting ''/vmlinux'')])"
  by (simp add: run_async_def run_cmd_def boot_def sample_env_def boot_task_new_def update_status_def
      bbind_def bret_def boot_url_def boot_start_def add_boot_resource_def start_loads.simps
      start_url_load_def load_signatures_def load_cmdline_signature_def boot_process_def load_pending_def
      pb_url_copy_def of_url_def pb_url_parse_def pb_url_find_scheme_def schemes_def strneq_def strncaseeq_def
      pb_url_parse_path_def)

lemma run_pending_boot:
  "device_handler_boot run_async True run_cmd run_ready = Inr run_pending" "h_pending run_pending \<noteq> None"
  "h_timeout_waiter run_pending = Some 2" "h_waiters run_pending = [(2, Default_timeout)]"
proof -
  obtain task where "boot run_async None (Some run_cmd) (h_dry_run run_ready) = Inr (Some task, [(STATUS_INFO, Booting ''/vmlinux'')])"
    using run_boot by blast
  then have *: "case device_handler_boot run_async True run_cmd run_ready of Inl e \<Rightarrow> False
    | Inr h \<Rightarrow> h_pending h \<noteq> None \<and> h_timeout_waiter h = Some 2 \<and> h_waiters h = [(2, Default_timeout)]"
    by (simp add: device_handler_boot_def start_boot_def run_cmd_def device_handler_boot_status_cb_def
        device_handler_status_def notify_def Let_def)
  from * show eq: "device_handler_boot run_async True run_cmd run_ready = Inr run_pending"
    by (simp add: run_pending_def split: sum.splits)
  from * show "h_pending run_pending \<noteq> None" "h_timeout_waiter run_pending = Some 2" "h_waiters run_pending = [(2, Default_timeout)]"
    unfolding eq by simp_all
qed

lemma run_pending_reachable: "reachable parser_resolvers run_pending"
  using handler_step.boot[of parser_resolvers run_ready run_async True run_cmd] run_ready_reachable
  unfolding run_pending_boot by (rule reachable.step[rotated])

section \<open>Safety\<close>





text \<open>The timeout of the countdown returns at once when a boot is pending or there is no default, and leaves the
  handler's pointer to the waiter that the wait set frees: the next cancellation removes a freed
  waiter.\<close>

theorem stale_timeout_waiter:
  assumes "h_timeout_waiter h = Some w" "map_of (h_waiters h) w = Some Default_timeout"
    "h_pending h \<noteq> None \<or> h_default h = None"
  shows "hbind (waiter_fire env w h) device_handler_cancel_default = Inl Use_after_free"
proof -
  have "w \<in> fst ` set (h_waiters h)" using map_of_SomeD[OF assms(2)] by force
  moreover have "default_timeout env h = Inr h" using assms(3) by (auto simp: default_timeout_def split: option.split)
  ultimately show ?thesis using assms(1,2)
    by (auto simp: waiter_fire_def waiter_remove_def device_handler_cancel_default_def)
qed

theorem stale_timeout_waiter_witness:
  "reachable parser_resolvers run_pending \<and>
   hbind (waiter_fire sample_env 2 run_pending) device_handler_cancel_default = Inl Use_after_free"
  using stale_timeout_waiter[of run_pending 2 sample_env] run_pending_reachable run_pending_boot(2-4) by simp

section \<open>Choosing the default\<close>

text \<open>The options that are published, in their order.\<close>

fun set_defaults :: "boot_env \<Rightarrow> nat list \<Rightarrow> device_handler \<Rightarrow> device_handler h_m" where
  "set_defaults env [] h = Inr h"
| "set_defaults env (r # rs) h = hbind (set_default env r h) (set_defaults env rs)"

text \<open>The options of \<open>rs\<close> have the priorities \<open>p\<close>.\<close>

definition priorities :: "boot_env \<Rightarrow> device_handler \<Rightarrow> (nat \<Rightarrow> nat) \<Rightarrow> nat list \<Rightarrow> bool" where
  "priorities env h p rs \<longleftrightarrow>
     (\<forall>r \<in> set rs. \<exists>opt dev. h_opt h r = Some opt \<and> h_dev h (dbo_device opt) = Some dev \<and>
        default_option_priority (be_config env) h dev = Inr (p r))"

lemma default_option_priority_cong:
  "h_temp_autoboot h' = h_temp_autoboot h \<Longrightarrow> default_option_priority config h' dev = default_option_priority config h dev"
  by (simp add: default_option_priority_def)

lemma priorities_cong:
  assumes "priorities env h p rs" "h_temp_autoboot h' = h_temp_autoboot h" "h_dev h' = h_dev h"
    "\<And>r. map_option dbo_device (h_opt h' r) = map_option dbo_device (h_opt h r)"
  shows "priorities env h' p rs"
  unfolding priorities_def
proof
  fix r assume "r \<in> set rs"
  then obtain opt dev where r: "h_opt h r = Some opt" "h_dev h (dbo_device opt) = Some dev"
    "default_option_priority (be_config env) h dev = Inr (p r)" using assms(1) by (auto simp: priorities_def)
  obtain opt' where "h_opt h' r = Some opt'" "dbo_device opt' = dbo_device opt" using assms(4)[of r] r(1) by auto
  then show "\<exists>opt dev. h_opt h' r = Some opt \<and> h_dev h' (dbo_device opt) = Some dev \<and>
      default_option_priority (be_config env) h' dev = Inr (p r)"
    using r assms(2,3) default_option_priority_cong[of h' h] by simp
qed

text \<open>The first default starts the countdown.\<close>

lemma set_default_first:
  assumes "h_autoboot_enabled h" "h_default h = None" "h_pending h = None"
    "cfg_autoboot_timeout_sec (be_config env) \<noteq> 0" "priorities env h p (r # rs)" "p r < DEFAULT_PRIORITY_DISABLED"
  shows "\<exists>h'. set_default env r h = Inr h' \<and> h_autoboot_enabled h' \<and> h_default h' = Some r \<and> h_default_priority h' = p r \<and>
    priorities env h' p rs"
proof -
  obtain opt dev where r: "h_opt h r = Some opt" "h_dev h (dbo_device opt) = Some dev"
    "default_option_priority (be_config env) h dev = Inr (p r)" using assms(5) by (auto simp: priorities_def)
  have rs: "priorities env h p rs" using assms(5) by (simp add: priorities_def)
  let ?o = "opt\<lparr>dbo_option := (dbo_option opt)\<lparr>opt_is_autoboot_default := True\<rparr>\<rparr>"
  have "priorities env h' p rs" if "h_temp_autoboot h' = h_temp_autoboot h" "h_dev h' = h_dev h" "h_opt h' = (h_opt h)(r \<mapsto> ?o)" for h'
    by (rule priorities_cong[OF rs]) (use that r in auto)
  then show ?thesis using assms r
    by (simp add: set_default_def default_timeout_def Let_def countdown_status_def device_handler_status_def notify_def
        waiter_register_timeout_def put_opt_def get_dev_def get_opt_def)
qed

lemma arg_min_list_swap:
  "arg_min_list (p :: nat \<Rightarrow> nat) (x # y # zs) = arg_min_list p ((if p y < p x then y else x) # zs)"
  by (cases zs) (auto simp: Let_def)

lemma set_defaults_replace:
  assumes "h_autoboot_enabled h" "h_default h = Some r0" "h_default_priority h = p r0" "priorities env h p rs"
  shows "\<exists>h'. set_defaults env rs h = Inr h' \<and>
    h_default h' = Some (arg_min_list p (r0 # filter (\<lambda>r. p r < DEFAULT_PRIORITY_DISABLED) rs))"
  using assms
proof (induction rs arbitrary: h r0)
  case (Cons r rs)
  obtain opt dev where r: "h_opt h r = Some opt" "h_dev h (dbo_device opt) = Some dev"
    "default_option_priority (be_config env) h dev = Inr (p r)" using Cons.prems(4) by (auto simp: priorities_def)
  have rs: "priorities env h p rs" using Cons.prems(4) by (simp add: priorities_def)
  have rs': "priorities env (h\<lparr>h_default := x, h_default_priority := y, h_sec_to_boot := z\<rparr>) p rs" for x y z
    by (rule priorities_cong[OF rs]) simp_all
  show ?case
    using Cons.IH[of h r0] Cons.IH[of "h\<lparr>h_default := Some r, h_default_priority := p r, h_sec_to_boot := h_sec_to_boot h + 2\<rparr>" r]
      Cons.prems r rs rs' arg_min_list_swap[of p r0 r]
    by (simp add: set_default_def)
qed simp

text \<open>C4: When several options are published as defaults, the handler chooses the first of those with the
  lowest priority number, among those that are not disabled.\<close>

theorem default_is_first_best:
  assumes "h_autoboot_enabled h" "h_default h = None" "h_pending h = None"
    "cfg_autoboot_timeout_sec (be_config env) \<noteq> 0" "priorities env h p rs"
  shows "\<exists>h'. set_defaults env rs h = Inr h' \<and>
    h_default h' = (let es = filter (\<lambda>r. p r < DEFAULT_PRIORITY_DISABLED) rs in if es = [] then None else Some (arg_min_list p es))"
  using assms
proof (induction rs arbitrary: h)
  case (Cons r rs)
  obtain opt dev where r: "h_opt h r = Some opt" "h_dev h (dbo_device opt) = Some dev"
    "default_option_priority (be_config env) h dev = Inr (p r)" using Cons.prems(5) by (auto simp: priorities_def)
  have rs: "priorities env h p rs" using Cons.prems(5) by (simp add: priorities_def)
  show ?case
  proof (cases "p r < DEFAULT_PRIORITY_DISABLED")
    case True
    then show ?thesis using set_default_first[OF Cons.prems True] set_defaults_replace by fastforce
  next
    case False
    then have "set_default env r h = Inr h" using Cons.prems r by (simp add: set_default_def)
    then show ?thesis using Cons.IH[OF Cons.prems(1-4) rs] False by simp
  qed
qed simp

text \<open>The boot order prefers disks; the option of a network device comes first, that of a disk second.\<close>

definition order_env :: boot_env where
  "order_env = sample_env\<lparr>be_config := plain_config sample_net
     [BOOT_DEVICE_TYPE DEVICE_TYPE_DISK, BOOT_DEVICE_TYPE DEVICE_TYPE_NETWORK]\<rparr>"

definition two_devices :: device_handler where
  "two_devices = put_opt 6 (run_opt\<lparr>dbo_device := 5\<rparr>)
     (put_dev 5 ((discover_device_new (Some ''3-4'') ''sdb1'')
        \<lparr>dd_device := (dd_device (discover_device_new (Some ''3-4'') ''sdb1''))\<lparr>dev_type := DEVICE_TYPE_DISK\<rparr>\<rparr>) run_parsed)"

theorem default_is_first_best_witness:
  "\<exists>h'. set_defaults order_env [1, 6] two_devices = Inr h' \<and> h_default h' = Some 6"
proof -
  let ?p = "\<lambda>r. if r = 6 then 3 else (4 :: nat)"
  have p: "priorities order_env two_devices ?p [1, 6]"
    by (simp add: priorities_def two_devices_def run_defs order_env_def discover_device_new_def default_option_priority_def
        autoboot_option_priority_def autoboot_option_matches_def DEFAULT_PRIORITY_LOCAL_FIRST_def discover_boot_option_create_def
        device_handler_init_def put_dev_def put_opt_def)
  have "h_autoboot_enabled two_devices" "h_default two_devices = None" "h_pending two_devices = None"
    "cfg_autoboot_timeout_sec (be_config order_env) \<noteq> 0"
    by (simp_all add: two_devices_def order_env_def run_defs discover_boot_option_create_def device_handler_init_def
        put_dev_def put_opt_def config_autoboot_active_def ipmi_bootdev_of_code_def Let_def)
  from default_is_first_best[OF this p] show ?thesis by (simp add: DEFAULT_PRIORITY_DISABLED_def)
qed

section \<open>The countdown\<close>

text \<open>The timer of the countdown fires \<open>n\<close> times.\<close>

fun ticks :: "boot_env \<Rightarrow> nat \<Rightarrow> device_handler \<Rightarrow> device_handler h_m" where
  "ticks env 0 h = Inr h"
| "ticks env (Suc n) h =
     hbind (case h_timeout_waiter h of None \<Rightarrow> Inr h | Some w \<Rightarrow> waiter_fire env w h) (ticks env n)"

text \<open>A countdown is running for the option \<open>r\<close>.\<close>

definition counting :: "nat \<Rightarrow> device_handler \<Rightarrow> bool" where
  "counting r h \<longleftrightarrow> handler_ok {} h \<and> h_default h = Some r \<and> h_pending h = None \<and> h_timeout_waiter h \<noteq> None"

lemma waiter_timer:
  "handler_ok X h \<Longrightarrow> h_timeout_waiter h = Some w \<Longrightarrow> map_of (h_waiters h) w = Some Default_timeout"
  by (auto simp: handler_ok_def timer_ok_def dest: requery_ok_distinct)

lemma tick_counting:
  assumes "counting r h" "h_timeout_waiter h = Some w" "h_sec_to_boot h \<noteq> 0"
  shows "\<exists>h'. waiter_fire env w h = Inr h' \<and> counting r h' \<and> h_sec_to_boot h' = h_sec_to_boot h - 1"
proof -
  from assms have ok: "handler_ok {} h" and h: "h_default h = Some r" "h_pending h = None" by (simp_all add: counting_def)
  obtain opt dev where "h_opt h r = Some opt" "h_dev h (dbo_device opt) = Some dev"
    using default_live[OF ok h(1)] by blast
  moreover have t: "map_of (h_waiters h) w = Some Default_timeout" by (rule waiter_timer[OF ok assms(2)])
  moreover have "w \<in> fst ` set (h_waiters h)" using map_of_SomeD[OF t] by force
  ultimately obtain h' where h': "waiter_fire env w h = Inr h'" "h_default h' = Some r" "h_pending h' = None"
    "h_timeout_waiter h' \<noteq> None" "h_sec_to_boot h' = h_sec_to_boot h - 1"
    using h assms(3)
    by (simp add: waiter_fire_def default_timeout_def Let_def countdown_status_def waiter_register_timeout_def
        device_handler_status_def notify_def waiter_remove_def get_opt_def get_dev_def)
  moreover have "fire_ok w h" using h by (simp add: fire_ok_def)
  from waiter_fire_safe[OF ok this, of env] h'(1) have "handler_ok {} h'" by simp
  ultimately show ?thesis by (auto simp: counting_def)
qed

lemma ticks_counting:
  "counting r h \<Longrightarrow> n \<le> unat (h_sec_to_boot h) \<Longrightarrow>
   \<exists>h'. ticks env n h = Inr h' \<and> counting r h' \<and> unat (h_sec_to_boot h') = unat (h_sec_to_boot h) - n"
proof (induction n arbitrary: h)
  case (Suc n)
  obtain w where w: "h_timeout_waiter h = Some w" using Suc.prems(1) by (auto simp: counting_def)
  have sec: "h_sec_to_boot h \<noteq> 0" using Suc.prems(2) by auto
  obtain h1 where h1: "waiter_fire env w h = Inr h1" "counting r h1" "h_sec_to_boot h1 = h_sec_to_boot h - 1"
    using tick_counting[OF Suc.prems(1) w sec] by blast
  have "unat (h_sec_to_boot h1) = unat (h_sec_to_boot h) - 1" using h1(3) sec by (simp add: unat_minus_one)
  then show ?case using Suc.IH[OF h1(2)] Suc.prems(2) h1(1) w by auto
qed simp

text \<open>C5: The countdown ends: as long as nobody interferes, the timer runs down once a second and the tick after
  the last starts the boot of the default option.\<close>

theorem countdown_boots:
  assumes "reachable parser_resolvers h" "h_default h = Some r" "h_pending h = None" "h_timeout_waiter h \<noteq> None"
  shows "\<exists>h' w. ticks env (unat (h_sec_to_boot h)) h = Inr h' \<and> h_default h' = Some r \<and> h_timeout_waiter h' = Some w \<and>
    waiter_fire env w h' =
      hbind (start_boot env (Some r) None True (h'\<lparr>h_last := Some r, h_timeout_waiter := None\<rparr>)) (waiter_remove w)"
proof -
  have "counting r h" using assms parser_table.reachable_ok[OF assms(1)] by (simp add: counting_def)
  from ticks_counting[OF this order.refl] obtain h' where h': "ticks env (unat (h_sec_to_boot h)) h = Inr h'" "counting r h'"
    "unat (h_sec_to_boot h') = 0" by auto
  then obtain w where w: "h_timeout_waiter h' = Some w" and ok: "handler_ok {} h'" and d: "h_default h' = Some r" "h_pending h' = None"
    by (auto simp: counting_def)
  obtain opt where "h_opt h' r = Some opt" using default_live[OF ok d(1)] by blast
  moreover have "h_sec_to_boot h' = 0" using h'(3) by (simp add: unat_eq_0)
  ultimately show ?thesis using h' d w waiter_timer[OF ok w]
    by (simp add: waiter_fire_def default_timeout_def)
qed

theorem countdown_boots_witness:
  "\<exists>h' w. ticks sample_env 9 run_ready = Inr h' \<and> h_default h' = Some 1 \<and> h_timeout_waiter h' = Some w \<and>
    waiter_fire sample_env w h' =
      hbind (start_boot sample_env (Some 1) None True (h'\<lparr>h_last := Some 1, h_timeout_waiter := None\<rparr>)) (waiter_remove w)"
  using countdown_boots[OF run_ready_reachable, of 1 sample_env] by simp

section \<open>The temporary override\<close>

lemma status_cbs_default: "h_default (foldl device_handler_boot_status_cb h out) \<in> {h_default h, None}"
  using status_cb_eq[of h out] by fastforce

lemma start_boot_default: "start_boot env r cmd b h = Inr h' \<Longrightarrow> h_default h' \<in> {h_default h, None}"
  using status_cbs_default by (fastforce simp: start_boot_def hbind_def Let_def split: option.splits sum.splits prod.splits)

lemma default_timeout_default: "default_timeout env h = Inr h' \<Longrightarrow> h_default h' \<in> {h_default h, None}"
  by (auto simp: default_timeout_def hbind_def Let_def countdown_status_def device_handler_status_def notify_def
      waiter_register_timeout_def split: option.splits if_splits sum.splits dest!: start_boot_default)

lemma set_default_default: "set_default env r h = Inr h' \<Longrightarrow> h_default h' \<in> {h_default h, Some r, None}"
  by (auto simp: set_default_def hbind_def split: if_splits sum.splits dest!: default_timeout_default)

text \<open>The default, if any, is on a device that matches.\<close>

definition default_matches :: "autoboot_option \<Rightarrow> device_handler \<Rightarrow> bool" where
  "default_matches opt h \<longleftrightarrow> (\<forall>r. h_default h = Some r \<longrightarrow>
     (\<exists>bo dev. h_opt h r = Some bo \<and> h_dev h (dbo_device bo) = Some dev \<and> autoboot_option_matches opt dev = Inr True))"

lemma default_matches_same_objs:
  assumes "default_matches opt h" "same_objs h h'" "h_default h' \<in> {h_default h, None}"
  shows "default_matches opt h'"
  unfolding default_matches_def
proof (intro allI impI)
  fix r assume "h_default h' = Some r"
  then have "h_default h = Some r" using assms(3) by auto
  then obtain bo dev where r: "h_opt h r = Some bo" "h_dev h (dbo_device bo) = Some dev" "autoboot_option_matches opt dev = Inr True"
    using assms(1) by (auto simp: default_matches_def)
  then obtain bo' where "h_opt h' r = Some bo'" "dbo_device bo' = dbo_device bo" using same_objs_opt[OF assms(2) r(1)] by blast
  then show "\<exists>bo dev. h_opt h' r = Some bo \<and> h_dev h' (dbo_device bo) = Some dev \<and> autoboot_option_matches opt dev = Inr True"
    using r assms(2) by (auto simp: same_objs_def)
qed

lemma set_default_matches:
  assumes "handler_ok X h" "default_matches opt h" "h_dev h d = Some dev" "r \<in> set (dd_boot_options dev)"
    "autoboot_option_matches opt dev = Inr True" "set_default env r h = Inr h'"
  shows "default_matches opt h'"
proof -
  have so: "same_objs h h'" using set_default_keeps[OF assms(1,3,4), of env] assms(6) by simp
  obtain bo where bo: "h_opt h r = Some bo" "dbo_device bo = d" using option_live[OF assms(1,3,4)] by blast
  then obtain bo' where "h_opt h' r = Some bo'" "dbo_device bo' = d" using same_objs_opt[OF so bo(1)] by auto
  then have "default_matches opt h'" if "h_default h' = Some r"
    using that so assms(3,5) by (auto simp: default_matches_def same_objs_def)
  then show ?thesis using set_default_default[OF assms(6)] default_matches_same_objs[OF assms(2) so] by auto
qed

lemma temp_autoboot_loop_matches:
  assumes "handler_ok X h" "default_matches opt h" "set ds \<subseteq> set (h_devices h)" "temp_autoboot_loop env opt ds h = Inr h'"
  shows "default_matches opt h'"
  using assms
proof (induction ds arbitrary: h)
  case (Cons d ds)
  then obtain dev where dev: "h_dev h d = Some dev" by (auto simp: handler_ok_def devices_ok_def)
  obtain m where m: "autoboot_option_matches opt dev = Inr m"
    using Cons.prems(4) dev by (cases "autoboot_option_matches opt dev") auto
  show ?case
  proof (cases m)
    case False
    then show ?thesis using Cons dev m by simp
  next
    case True
    obtain r where r: "first_default h (dd_boot_options dev) = Inr r"
      using Cons.prems(4) dev m True by (cases "first_default h (dd_boot_options dev)") auto
    show ?thesis
    proof (cases r)
      case None
      then show ?thesis using Cons dev m True r by simp
    next
      case (Some r')
      obtain h1 where h1: "set_default env r' h = Inr h1" and rest: "temp_autoboot_loop env opt ds h1 = Inr h'"
        using Cons.prems(4) dev m True r Some by (cases "set_default env r' h") auto
      have r': "r' \<in> set (dd_boot_options dev)" using first_default_safe[OF Cons.prems(1) dev subset_refl] r Some by simp
      have k: "keeps X h h1" using set_default_keeps[OF Cons.prems(1) dev r', of env] h1 by simp
      then show ?thesis
        using Cons.IH[OF _ set_default_matches[OF Cons.prems(1,2) dev r' _ h1] _ rest] Cons.prems(3) m True by (simp add: same_objs_def)
    qed
  qed
qed simp

text \<open>C7: After a temporary override the default, if there is one, is on a device that the override names, and a
  countdown for another device has been stopped.\<close>

theorem temp_override_enforced:
  assumes "reachable parser_resolvers h" "h_autoboot_enabled h" "device_handler_apply_temp_autoboot env opt h = Inr h'"
    "h_default h' = Some r"
  shows "\<exists>bo dev. h_opt h' r = Some bo \<and> h_dev h' (dbo_device bo) = Some dev \<and> autoboot_option_matches opt dev = Inr True"
proof -
  let ?h = "device_handler_status STATUS_INFO (Temp_override opt) (h\<lparr>h_temp_autoboot := Some opt\<rparr>)"
  have ok: "handler_ok {} ?h" using parser_table.reachable_ok[OF assms(1)] by simp
  have en: "h_autoboot_enabled ?h" using assms(2) by (simp add: device_handler_status_def)
  have "default_matches opt h'"
  proof (cases "h_default ?h")
    case None
    then have "h' = ?h" using assms(3) en by (simp add: device_handler_apply_temp_autoboot_def Let_def)
    then show ?thesis using None by (simp add: default_matches_def)
  next
    case (Some r0)
    then obtain bo dev where bo: "h_opt ?h r0 = Some bo" "h_dev ?h (dbo_device bo) = Some dev"
      using default_live[OF ok] by metis
    then obtain m where m: "autoboot_option_matches opt dev = Inr m" using assms(3) en Some
      by (cases "autoboot_option_matches opt dev") (auto simp: device_handler_apply_temp_autoboot_def Let_def)
    show ?thesis
    proof (cases m)
      case True
      then have "h' = ?h" using assms(3) en Some bo m by (simp add: device_handler_apply_temp_autoboot_def Let_def)
      then show ?thesis using Some bo m True by (simp add: default_matches_def)
    next
      case False
      obtain h1 where h1: "device_handler_cancel_default ?h = Inr h1"
        and loop: "temp_autoboot_loop env opt (h_devices h1) (h1\<lparr>h_autoboot_enabled := True\<rparr>) = Inr h'"
        using assms(3) en Some bo m False
        by (cases "device_handler_cancel_default ?h") (auto simp: device_handler_apply_temp_autoboot_def Let_def)
      have "handler_ok {} h1" "h_default h1 = None" using cancel_default_keeps[OF ok] h1 by simp_all
      then show ?thesis using temp_autoboot_loop_matches[OF _ _ _ loop, of "{}"] by (simp add: default_matches_def)
    qed
  qed
  then show ?thesis using assms(4) by (simp add: default_matches_def)
qed

theorem temp_override_enforced_witness:
  "\<exists>bo dev. h_opt run_ready 1 = Some bo \<and> h_dev run_ready (dbo_device bo) = Some dev \<and>
     autoboot_option_matches (BOOT_DEVICE_TYPE DEVICE_TYPE_NETWORK) dev = Inr True"
proof -
  let ?o = "BOOT_DEVICE_TYPE DEVICE_TYPE_NETWORK"
  let ?h = "device_handler_status STATUS_INFO (Temp_override ?o) (run_ready\<lparr>h_temp_autoboot := Some ?o\<rparr>)"
  obtain dev opt where "h_dev run_ready 0 = Some dev" "dev_type (dd_device dev) = DEVICE_TYPE_NETWORK"
    "h_opt run_ready 1 = Some opt" "dbo_device opt = 0" by (rule run_ready_objs)
  then have "device_handler_apply_temp_autoboot sample_env ?o run_ready = Inr ?h"
    by (simp add: device_handler_apply_temp_autoboot_def device_handler_status_def notify_def get_opt_def get_dev_def
        autoboot_option_matches_def)
  from temp_override_enforced[OF run_ready_reachable _ this, of 1] show ?thesis
    by (simp add: device_handler_status_def notify_def)
qed

section \<open>Removal and reset\<close>


lemma run_remove: "\<exists>h'. device_handler_remove 0 run_ready = Inr h'"
proof -
  obtain dev opt where "h_dev run_ready 0 = Some dev" "dev_type (dd_device dev) = DEVICE_TYPE_NETWORK" "dd_boot_options dev = [1]"
    "h_opt run_ready 1 = Some opt" "dd_requery_waiter dev = None" "dd_ramdisk dev = None" by (rule run_ready_objs)
  then show ?thesis
    by (simp add: device_handler_remove_def device_handler_cancel_default_def waiter_remove_def device_handler_status_def
        notify_def network_unregister_device_def find_interface_by_uuid_def find_interface_def destroy_device_def
        devmapper_destroy_snapshot_def get_dev_def get_opt_def Let_def split: option.split)
qed


lemma drop_devices_pending: "drop_devices ds h = Inr h' \<Longrightarrow> h_pending h' = h_pending h"
proof (induction ds arbitrary: h)
  case (Cons d ds)
  then show ?case
    by (auto simp: hbind_def Let_def destroy_device_def devmapper_destroy_snapshot_def device_handler_release_ramdisk_def
        waiter_remove_def put_rd_def put_dev_def notify_def split: sum.splits option.splits if_splits)
qed simp

lemma free_opts_pending: "free_opts rs h = Inr h' \<Longrightarrow> h_pending h' = h_pending h"
  by (induction rs arbitrary: h) (auto simp: hbind_def free_opt_def split: sum.splits)

lemma cancel_pending_none:
  "(case h_pending h of None \<Rightarrow> Inr h
    | Some t \<Rightarrow> hbind (cancel_boot t h) (\<lambda>h. Inr (h\<lparr>h_pending := None, h_pending_is_default := b\<rparr>))) = Inr h' \<Longrightarrow>
   h_pending h' = None"
  by (auto simp: hbind_def split: option.splits sum.splits)

lemma reinit_pending: "device_handler_reinit ifaces ps h = Inr (ps', h') \<Longrightarrow> h_pending h' = None"
  by (auto simp: device_handler_reinit_def hbind_def Let_def leave_safe_mode_def notify_def
      split: sum.splits prod.splits if_splits dest!: cancel_pending_none drop_devices_pending free_opts_pending)

text \<open>A reset leaves a handler without devices, queue, default and pending boot.\<close>

theorem reinit_empty:
  assumes "reachable parser_resolvers h" "device_handler_reinit ifaces ps h = Inr (ps', h')"
  shows "h_devices h' = [] \<and> h_unresolved h' = [] \<and> h_default h' = None \<and> h_pending h' = None"
proof -
  have "handler_ok {} h'" "h_devices h' = []" "h_default h' = None"
    using device_handler_reinit_safe[OF parser_table.reachable_ok[OF assms(1)], of ifaces ps] assms(2) by simp_all
  moreover from this have "h_unresolved h' = []" by (auto simp: handler_ok_def unresolved_ok_def)
  ultimately show ?thesis using reinit_pending[OF assms(2)] by simp
qed

definition run_platform :: platform_state where
  "run_platform = \<lparr>ps_platform = None, ps_config = (be_config sample_env)\<lparr>cfg_safe_mode := True\<rparr>\<rparr>"

lemma run_reinit: "\<exists>ps' h'. device_handler_reinit [] run_platform run_ready = Inr (ps', h')"
proof -
  obtain dev opt where "h_dev run_ready 0 = Some dev" "dev_type (dd_device dev) = DEVICE_TYPE_NETWORK" "dd_boot_options dev = [1]"
    "h_opt run_ready 1 = Some opt" "dd_requery_waiter dev = None" "dd_ramdisk dev = None" by (rule run_ready_objs)
  then show ?thesis
    by (simp add: device_handler_reinit_def device_handler_cancel_default_def waiter_remove_def device_handler_status_def
        notify_def destroy_device_def devmapper_destroy_snapshot_def get_dev_def get_opt_def Let_def leave_safe_mode_def
        split: option.split)
qed

theorem reinit_empty_witness:
  "\<exists>ps' h'. device_handler_reinit [] run_platform run_ready = Inr (ps', h') \<and> h_devices h' = [] \<and> h_default h' = None"
  using reinit_empty[OF run_ready_reachable, of "[]" run_platform] run_reinit by fastforce

text \<open>The configuration that is sent and saved when the reset leaves safe mode has lost the settings that
  \<^verbatim>\<open>config_copy\<close> does not copy.\<close>

lemma safe_mode_exit_drops_settings:
  assumes "cfg_safe_mode (ps_config ps)"
  shows "\<exists>config. h_out (snd (leave_safe_mode ps h)) = h_out h @ [Notify_config config] \<and>
    \<not> cfg_preboot_check_enabled config \<and> \<not> cfg_disable_snapshots config \<and> \<not> cfg_debug config"
  using assms by (simp add: leave_safe_mode_def config_copy_def Let_def notify_def)

section \<open>Remaining faults\<close>

text \<open>Removal does not touch the table of encrypted devices that are being opened.\<close>

lemma cancel_boot_crypt: "cancel_boot t h = Inr h' \<Longrightarrow> h_crypt_devices h' = h_crypt_devices h"
  by (auto simp: cancel_boot_def status_cb_eq split: option.splits sum.splits prod.splits)

lemma cancel_default_crypt: "device_handler_cancel_default h = Inr h' \<Longrightarrow> h_crypt_devices h' = h_crypt_devices h"
  by (auto simp: device_handler_cancel_default_def hbind_def Let_def waiter_remove_def device_handler_status_def notify_def
      split: option.splits sum.splits if_splits dest!: cancel_boot_crypt)

lemma free_unresolved_crypt: "free_unresolved d rs h = Inr h' \<Longrightarrow> h_crypt_devices h' = h_crypt_devices h"
  by (induction rs arbitrary: h) (fastforce simp: hbind_def free_opt_def split: sum.splits if_splits)+

lemma destroy_device_crypt: "destroy_device d h = Inr h' \<Longrightarrow> h_crypt_devices h' = h_crypt_devices h"
  by (auto simp: destroy_device_def hbind_def devmapper_destroy_snapshot_def device_handler_release_ramdisk_def
      put_rd_def put_dev_def split: sum.splits option.splits if_splits)

lemma network_unregister_crypt: "network_unregister_device d h = Inr h' \<Longrightarrow> h_crypt_devices h' = h_crypt_devices h"
  by (auto simp: network_unregister_device_def hbind_def split: sum.splits option.splits)

lemma waiter_remove_crypt: "waiter_remove w h = Inr h' \<Longrightarrow> h_crypt_devices h' = h_crypt_devices h"
  by (auto simp: waiter_remove_def split: if_splits)

lemma device_handler_remove_crypt:
  assumes "device_handler_remove d h = Inr h'"
  shows "h_crypt_devices h' = h_crypt_devices h"
proof -
  from assms obtain dev h1 b h2 where "get_dev h d = Inr dev"
    and h1: "(case dd_requery_waiter dev of None \<Rightarrow> Inr h | Some w \<Rightarrow> waiter_remove w h) = Inr h1"
    and h2: "(if b then device_handler_cancel_default h1 else Inr h1) = Inr h2"
    and rest: "(if d \<notin> set (h_devices h2) then destroy_device d h2
      else hbind (free_unresolved d (h_unresolved h2) h2) (\<lambda>h.
       hbind (if dev_type (dd_device dev) = DEVICE_TYPE_NETWORK then network_unregister_device d h else Inr h) (\<lambda>h.
       let h = h\<lparr>h_devices := remove1 d (h_devices h)\<rparr>;
           h = (if dd_notified dev then notify (Notify_device_remove (dd_device dev)) h else h)
       in destroy_device d h))) = Inr h'"
    unfolding device_handler_remove_def hbind_Inr_iff by (elim exE conjE) (rule that)
  have "h_crypt_devices h1 = h_crypt_devices h" using h1 waiter_remove_crypt by (auto split: option.splits)
  moreover have "h_crypt_devices h2 = h_crypt_devices h1" using h2 cancel_default_crypt by (auto split: if_splits)
  moreover have "h_crypt_devices h' = h_crypt_devices h2"
  proof (cases "d \<in> set (h_devices h2)")
    case True
    then obtain h3 h4 where h3: "free_unresolved d (h_unresolved h2) h2 = Inr h3"
      and h4: "(if dev_type (dd_device dev) = DEVICE_TYPE_NETWORK then network_unregister_device d h3 else Inr h3) = Inr h4"
      and h': "destroy_device d (if dd_notified dev then notify (Notify_device_remove (dd_device dev)) (h4\<lparr>h_devices := remove1 d (h_devices h4)\<rparr>)
         else h4\<lparr>h_devices := remove1 d (h_devices h4)\<rparr>) = Inr h'"
      using rest by (simp add: Let_def hbind_Inr_iff) (elim exE conjE, rule that)
    have "h_crypt_devices h4 = h_crypt_devices h3" using h4 network_unregister_crypt by (auto split: if_splits)
    then show ?thesis using free_unresolved_crypt[OF h3] destroy_device_crypt[OF h'] by (simp add: notify_def split: if_splits)
  qed (use rest destroy_device_crypt in simp)
  ultimately show ?thesis by simp
qed

text \<open>A device is unlocked and removed before its unlocked device shows up: the handler then removes the freed
  device a second time.\<close>

theorem crypt_source_removed:
  assumes "reachable parser_resolvers h" "device_lookup_by_id h (Some did) = Inr (Some d)"
    "device_handler_open_encrypted_dev True password did h = Inr h1" "device_handler_remove d h1 = Inr h2"
  shows "device_handler_found_crypt_device (''luks_'' @ did) h2 = Inl Use_after_free"
proof -
  let ?c = "\<lparr>ci_source_device = d, ci_dm_name = ''luks_'' @ did\<rparr>"
  have ok: "handler_ok {} h" by (rule parser_table.reachable_ok[OF assms(1)])
  have "found_live h (Some d)" using device_lookup_live[OF ok, of device_match_id "Some did"] assms(2) by (simp add: device_lookup_by_id_def)
  then obtain dev where dev: "h_dev h d = Some dev" by (auto simp: found_live_def)
  have h1: "handler_ok {} h1" "h_dev h1 d = Some dev" "h_crypt_devices h1 = ?c # h_crypt_devices h"
    using assms(2,3) dev ok by (auto simp: device_handler_open_encrypted_dev_def Let_def notify_def[of _ h])
  have "h_dev h2 d = None" using device_handler_remove_safe[OF h1(1,2)] assms(4) by simp
  moreover have "h_crypt_devices h2 = ?c # h_crypt_devices h" using device_handler_remove_crypt[OF assms(4)] h1(3) by simp
  ultimately show ?thesis
    by (simp add: device_handler_found_crypt_device_def dm_match_def strneq_def device_handler_remove_def get_dev_def)
qed

theorem crypt_source_removed_witness:
  "\<exists>h1 h2. device_handler_open_encrypted_dev True ''secret'' ''sda1'' run_ready = Inr h1 \<and> device_handler_remove 0 h1 = Inr h2 \<and>
     device_handler_found_crypt_device ''luks_sda1'' h2 = Inl Use_after_free"
proof -
  obtain dev opt where dev: "h_dev run_ready 0 = Some dev" "dev_type (dd_device dev) = DEVICE_TYPE_NETWORK" "dd_boot_options dev = [1]"
    "dev_id (dd_device dev) = Some ''sda1''"
    "h_opt run_ready 1 = Some opt" "dd_requery_waiter dev = None" "dd_ramdisk dev = None" by (rule run_ready_objs)
  have l: "device_lookup_by_id run_ready (Some ''sda1'') = Inr (Some 0)"
    using dev by (simp add: device_lookup_by_id_def device_lookup_def device_match_id_def)
  have "\<exists>h1 h2. device_handler_open_encrypted_dev True ''secret'' ''sda1'' run_ready = Inr h1 \<and> device_handler_remove 0 h1 = Inr h2"
    using dev l
    by (simp add: device_handler_open_encrypted_dev_def device_handler_remove_def device_handler_cancel_default_def
        waiter_remove_def device_handler_status_def notify_def network_unregister_device_def find_interface_by_uuid_def
        find_interface_def destroy_device_def devmapper_destroy_snapshot_def get_dev_def get_opt_def Let_def split: option.split)
  then show ?thesis using crypt_source_removed[OF run_ready_reachable l, of "''secret''"] by fastforce
qed

text \<open>Two \<^verbatim>\<open>file://\<close> configurations without a MAC address list the same device twice, since a NULL UUID is never
  found: the next reset frees it twice.\<close>

theorem file_url_device_twice:
  "hbind (device_handler_process_url [] parser_resolvers env route async ''file:///a.conf'' None None
      (device_handler_init dry_run config [])) (\<lambda>h.
   hbind (device_handler_process_url [] parser_resolvers env route async ''file:///b.conf'' None None h)
     (device_handler_reinit ifaces ps)) = Inl Use_after_free"
  by (simp add: device_handler_process_url_def pb_url_parse_def pb_url_find_scheme_def schemes_def strneq_def strncaseeq_def
      pb_url_parse_path_def url_set_param_def url_event_def event_set_param_def Let_def discover_device_create_def
      device_lookup_by_id_def device_lookup_by_uuid_def device_lookup_def device_handler_init_def parse_and_commit_def
      device_handler_discover_context_create_def device_handler_discover_context_commit_def device_handler_add_device_def
      discover_device_new_def device_match_id_def device_handler_reinit_def device_handler_cancel_default_def
      get_dev_def put_dev_def notify_def destroy_device_def devmapper_destroy_snapshot_def tolower_def)

section \<open>Resources\<close>

lemma lookup_loop_Some: "lookup_loop h match str ds = Inr (Some d) \<Longrightarrow> d \<in> set ds \<and> (\<exists>dev. h_dev h d = Some dev \<and> match dev str)"
  by (induction ds) (auto simp: hbind_def get_dev_def split: sum.splits option.splits if_splits)

text \<open>A resource that names its device by UUID is looked up with the equals sign: what it finds has a UUID
  that begins with an equals sign.\<close>

theorem uuid_devpath_needs_equals:
  assumes "is_prefix_ignorecase devstr ''uuid=''" "parse_device_string h devstr = Inr (Some d)"
  shows "\<exists>dev. h_dev h d = Some dev \<and> dd_uuid dev = Some (''='' @ drop 5 devstr)"
proof -
  have "map tolower (take 5 devstr) = ''uuid=''" using assms(1)
    by (simp add: is_prefix_ignorecase_def strncaseeq_def tolower_def numeral_eq_Suc)
  then obtain a b c e f where t: "take 5 devstr = [a, b, c, e, f]" "tolower f = CHR ''=''"
    by (auto simp: map_eq_Cons_conv)
  have "f = CHR ''=''"
  proof -
    have "of_char (tolower f) = (61 :: nat)" using t(2) by simp
    then have "tolower f = f" by (auto simp: tolower_def Let_def split: if_splits)
    then show ?thesis using t(2) by simp
  qed
  then have s: "devstr = [a, b, c, e] @ ''='' @ drop 5 devstr"
    using append_take_drop_id[of 5 devstr] t(1) by simp
  have "drop (length ''uuid'') devstr = ''='' @ drop 5 devstr" by (subst s) simp
  then show ?thesis using assms lookup_loop_Some[of h device_match_uuid "''='' @ drop 5 devstr" "h_devices h" d]
    by (auto simp: parse_device_string_def device_lookup_by_uuid_def device_lookup_def device_match_uuid_def)
qed

text \<open>A path on a device is a file URL.\<close>

lemma abs_path_url:
  "\<exists>url. pb_url_parse (Some (CHR ''/'' # s)) = Inr (Some url) \<and> url_full url = Some (CHR ''/'' # s) \<and>
     url_scheme url = pb_url_file \<and> url_path url = Some (CHR ''/'' # s)"
proof -
  have "pb_url_find_scheme (CHR ''/'' # s) = None"
    by (simp add: pb_url_find_scheme_def schemes_def strncaseeq_def tolower_def)
  then show ?thesis by (simp add: pb_url_parse_def pb_url_parse_path_def Let_def split: option.split)
qed

lemma join_paths_abs: "\<exists>s. join_paths (Some (CHR ''/'' # m)) b = CHR ''/'' # s"
  by (simp add: join_paths_def Let_def split: option.split)

lemma device_match_found:
  assumes "handler_ok X h" "d \<in> set (h_devices h)" "h_dev h d = Some dev" "match dev str"
  shows "\<exists>d'. device_lookup h match (Some str) = Inr (Some d')"
proof -
  have live: "h_dev h x \<noteq> None" if "x \<in> set (h_devices h)" for x using assms(1) that by (auto simp: handler_ok_def devices_ok_def)
  have "\<exists>d'. lookup_loop h match str ds = Inr (Some d')" if "d \<in> set ds" "set ds \<subseteq> set (h_devices h)" for ds
    using that
  proof (induction ds)
    case (Cons x ds)
    obtain y where "h_dev h x = Some y" using live[of x] Cons.prems(2) by auto
    then show ?case using Cons assms(3,4) by auto
  qed simp
  then show ?thesis using assms(2) by (simp add: device_lookup_def)
qed


text \<open>A device whose UUID begins with an equals sign, found in place of the one that was meant.\<close>

definition equals_dev :: device_handler where
  "equals_dev = (put_dev 0 (discover_device_new (Some ''=1-2'') ''sda1'') (run_start\<lparr>h_next := 1\<rparr>))\<lparr>h_devices := [0]\<rparr>"

theorem uuid_devpath_needs_equals_witness:
  "parse_device_string equals_dev ''uuid=1-2'' = Inr (Some 0) \<and>
   (\<exists>dev. h_dev equals_dev 0 = Some dev \<and> dd_uuid dev = Some ''=1-2'')"
proof -
  have p: "is_prefix_ignorecase ''uuid=1-2'' ''uuid=''" by (simp add: is_prefix_ignorecase_def strncaseeq_def tolower_def)
  have f: "parse_device_string equals_dev ''uuid=1-2'' = Inr (Some 0)"
    using p by (simp add: parse_device_string_def device_lookup_by_uuid_def device_lookup_def equals_dev_def
        device_match_uuid_def discover_device_new_def get_dev_def)
  from uuid_devpath_needs_equals[OF p f] f show ?thesis by simp
qed

text \<open>The device of the run is mounted.\<close>

definition run_mounted :: device_handler where
  "run_mounted = put_dev 0 ((the (h_dev run_ready 0))\<lparr>dd_mount_path := Some ''/var/petitboot/mnt/dev/sda1''\<rparr>) run_ready"

lemma run_mounted_reachable: "reachable parser_resolvers run_mounted"
proof -
  obtain dev where "h_dev run_ready 0 = Some dev" using run_ready_sel by blast
  from handler_step.set_device[OF this, of "(the (h_dev run_ready 0))\<lparr>dd_mount_path := Some ''/var/petitboot/mnt/dev/sda1''\<rparr>"] this
  have "handler_step parser_resolvers run_ready (Inr run_mounted)" by (simp add: run_mounted_def)
  then show ?thesis using run_ready_reachable by (rule reachable.step[rotated])
qed


end
