(* ===== verification/Parser_Props.thy ===== *)
theory Parser_Props
  imports Yaboot Syslinux Grub_Stack Device_Props
begin

text \<open>
  What the configuration file parsers guarantee: a file of name and value lines is read back as it was written,
  the kernel gets the arguments of its entry, and discovery with the parsers for local files leaves the handler
  consistent.
\<close>

section \<open>Configuration files\<close>

text \<open>C19: a configuration file of well-formed lines is parsed into its pairs: the parser's \<^verbatim>\<open>process_pair\<close> is
  called for every line, in their order, with the name and the value that were written.\<close>

theorem conf_file_roundtrip:
  assumes "list_all (conf_pair_ok d) ps" "d \<in> {CHR ''='', CHR '' ''}"
  shows "conf_parse_buf d process start (conf_print d ps) st = conf_fold process ps st"
  using assms by (intro conf_parse_buf_print) auto

theorem conf_file_roundtrip_witness:
  "conf_parse_buf CHR ''='' (\<lambda>n v st. Inr (st @ [(n, v)])) True (conf_print CHR ''='' [(''default'', ''linux''), (''linux'', ''/vmlinux quiet'')]) [] =
     Inr [(Some ''default'', ''linux''), (Some ''linux'', ''/vmlinux quiet'')]"
  by (subst conf_file_roundtrip) (simp_all add: conf_clean_def conf_blank_def isspace_def is_comment_def)

text \<open>A first line that consists of blanks makes the parser read before the beginning of the buffer; a
  later one is skipped.\<close>

lemma blank_first_line:
  assumes "s \<noteq> []" "list_all conf_blank s" "CHR 0x0A \<notin> set s"
  shows "conf_parse_buf d process start (s @ CHR 0x0A # rest) st =
    (if start then Inl Out_of_bounds else conf_parse_buf d process False rest st)"
  by (cases start) (simp_all add: conf_parse_buf_blank assms)

section \<open>Kernel entries\<close>

text \<open>C20: the command line of a kernel entry in \<^verbatim>\<open>kboot.conf\<close>: the boot option's arguments are the
  words of the entry that name no file, in their order, after the root device when the entry or the file sets one.\<close>

theorem kboot_command_line:
  assumes "globals_ok globals" "CHR '' '' \<notin> set k" "list_all kboot_word_ok ws" "ws \<noteq> []"
    and root: "\<And>r. conf_global globals ''root'' = Some (Some r) \<Longrightarrow> conf_clean r"
    and opt: "hbind (kboot_split globals (k @ '' '' @ kboot_words_text ws)) (\<lambda>(img, l). kboot_option globals dev name img l d_opt) = Inr opt"
  shows "opt_boot_args (dbo_option opt) =
    Some (kboot_words_text (root_words (fold kboot_apply ws (kboot_defaults globals)) @ filter kboot_is_arg ws))"
proof -
  let ?l = "fold kboot_apply ws (kboot_defaults globals)"
  have o: "kboot_option globals dev name k ?l d_opt = Inr opt"
    using opt by (simp add: kboot_split_words[OF assms(1-4), simplified])
  have a: "kl_args ?l = spaced (filter kboot_is_arg ws)" by (simp add: kl_args_fold kboot_defaults_def)
  have "conf_global globals ''root'' \<noteq> None"
    by (rule globals_names[OF assms(1)]) (simp add: kboot_global_options_def)
  then have "conf_clean r" if "kl_root (kboot_defaults globals) = Some r" for r
    using that root by (cases "conf_global globals ''root''") (auto simp: kboot_defaults_def)
  then have r: "conf_clean r" if "kl_root ?l = Some r" for r
    using that kl_root_fold[OF assms(3), of "kboot_defaults globals"] by blast
  have "conf_clean (kboot_word_text w)" if "w \<in> set (root_words ?l @ filter kboot_is_arg ws)" for w
    using that assms(3) r conf_clean_line[of "''root''" _ "CHR ''=''"]
    by (auto simp: root_words_def list_all_iff word_ok_clean conf_clean_def[of "''root''"] conf_blank_def isspace_def split: option.splits)
  then have "strip_in_place (spaced (root_words ?l @ filter kboot_is_arg ws)) = Inr (kboot_words_text (root_words ?l @ filter kboot_is_arg ws))"
    by (rule strip_spaced)
  then show ?thesis using kboot_option_args[OF o] by (auto simp: a)
qed


definition entry_words :: "kboot_word list" where
  "entry_words = [Named ''root'' ''/dev/sda1'', Bare ''quiet'', Named ''initrd'' ''/initrd'', Named ''console'' ''hvc0'']"

definition entry_globals :: "(string \<times> cstr) list" where
  "entry_globals = conf_init_global_options kboot_global_options"

definition entry_dev :: discover_device where
  "entry_dev = (discover_device_new (Some ''1-2'') ''sda1'')\<lparr>dd_mount_path := Some ''/mnt''\<rparr>"

lemmas case_evals = strcaseeq_def tolower_def conf_param_in_list_def conf_global_def

lemmas url_evals = pb_url_parse_def pb_url_find_scheme_def schemes_def strneq_def strncaseeq_def pb_url_parse_path_def
  of_url_def pb_url_copy_def

lemma kboot_entry_evaluates:
  "\<exists>opt. hbind (kboot_split entry_globals (''/vmlinux'' @ '' '' @ kboot_words_text entry_words))
     (\<lambda>(img, l). kboot_option entry_globals entry_dev ''linux'' img l run_opt) = Inr opt"
proof -
  have w: "kboot_split entry_globals (''/vmlinux'' @ '' '' @ kboot_words_text entry_words) =
      Inr (''/vmlinux'', fold kboot_apply entry_words (kboot_defaults entry_globals))"
    by (rule kboot_split_words)
      (simp_all add: entry_globals_def entry_words_def conf_clean_def conf_blank_def isspace_def)
  show ?thesis unfolding w
    by (simp add: kboot_option_def optional_resource_def entry_words_def entry_globals_def entry_dev_def kboot_defaults_def
        conf_init_global_options_def kboot_global_options_def conf_get_global_option_def case_evals strip_in_place_def
        conf_strip_str_def conf_blank_def isspace_def create_devpath_resource_def resolve_resource_against_device_def
        join_paths_def discover_device_new_def url_evals)
qed

theorem kboot_command_line_witness:
  "\<exists>opt. hbind (kboot_split entry_globals (''/vmlinux'' @ '' '' @ kboot_words_text entry_words))
     (\<lambda>(img, l). kboot_option entry_globals entry_dev ''linux'' img l run_opt) = Inr opt \<and>
     opt_boot_args (dbo_option opt) = Some ''root=/dev/sda1 quiet console=hvc0''"
proof -
  obtain opt where opt: "hbind (kboot_split entry_globals (''/vmlinux'' @ '' '' @ kboot_words_text entry_words))
     (\<lambda>(img, l). kboot_option entry_globals entry_dev ''linux'' img l run_opt) = Inr opt"
    using kboot_entry_evaluates by blast
  have "opt_boot_args (dbo_option opt) =
      Some (kboot_words_text (root_words (fold kboot_apply entry_words (kboot_defaults entry_globals)) @ filter kboot_is_arg entry_words))"
    by (rule kboot_command_line[OF _ _ _ _ _ opt])
      (simp_all add: entry_globals_def entry_words_def conf_clean_def conf_blank_def isspace_def
        conf_init_global_options_def kboot_global_options_def globals_ok_def case_evals)
  then show ?thesis using opt by (simp add: entry_words_def root_words_def case_evals)
qed

text \<open>An empty word in a kernel's command line, from two spaces in a row, becomes the argument \<^verbatim>\<open>(null)\<close>, and an
  argument with an empty value gets the value \<^verbatim>\<open>(null)\<close>.\<close>

lemma kboot_empty_words:
  assumes "conf_clean n" "CHR '' '' \<notin> set n" "CHR ''='' \<notin> set n" "\<not> conf_param_in_list [''initrd'', ''root'', ''dtb''] n"
  shows "kboot_args (n @ ''=  '' @ rest) l = kboot_args rest (l\<lparr>kl_args := kl_args l @ n @ ''=(null) (null) ''\<rparr>)"
  using kboot_args_empty_value[OF assms, of "CHR '' '' # rest" l] by (simp add: kboot_args_empty_word)

section \<open>Discovery\<close>

text \<open>The parsers that read the files of a mounted device.\<close>

definition on_device :: "(device_files \<Rightarrow> parser_fn) \<Rightarrow> (nat \<Rightarrow> device_files) \<Rightarrow> parser_fn" where
  "on_device parse files ctx = parse (files (ctx_device ctx)) ctx"

definition local_parsers :: "grub2_world \<Rightarrow> nat \<Rightarrow> (nat \<Rightarrow> device_files) \<Rightarrow> (string \<times> parser_fn) list" where
  "local_parsers w n files =
     [(''grub2'', grub2_parse w n files), (''kboot'', on_device kboot_parse files), (''yaboot'', on_device yaboot_parse files),
      (''syslinux'', on_device syslinux_parse files)]"

lemma on_device_parser: "(\<And>fs. parser (parse fs)) \<Longrightarrow> parser (on_device parse files)"
  by (simp add: parser_def on_device_def)

lemma local_parser: "(name, parse) \<in> set (local_parsers w n files) \<Longrightarrow> parser parse"
  by (auto simp: local_parsers_def
      intro: on_device_parser kboot.parser_axioms yaboot.parser_axioms syslinux.parser_axioms grub2.parser_axioms)

interpretation local_discovery: discovery parser_resolvers "local_parsers w n files" for w n files
  by (intro discovery.intro discovery_axioms.intro parser_table.resolver_axioms local_parser)

text \<open>C16: discovering a mounted device with the parsers for GRUB, kboot, yaboot and syslinux, registered in any order, whatever
  files the devices have, whatever the grammar makes of them and however much stack a script may use, uses no freed
  device, option or task and leaves the handler consistent.\<close>

theorem local_discovery_safe:
  assumes "reachable parser_resolvers h" "context_ok h (device_handler_discover_context_create d None)"
    "set parsers \<subseteq> set (local_parsers w n files)"
  shows "safely (handler_ok {}) (device_handler_discover parsers parser_resolvers env mount d h)"
proof -
  have "discovery parser_resolvers parsers"
    using assms(3) local_parser by (intro discovery.intro discovery_axioms.intro parser_table.resolver_axioms) blast
  from discovery.discover_safe[OF this parser_table.reachable_ok[OF assms(1)] assms(2)] show ?thesis .
qed

definition entry_files :: device_files where
  "entry_files path = (if path = ''/etc/kboot.conf'' then Some \<lparr>df_ino = 7, df_is_dir = False, df_size = 20, df_data = Some ''linux=/vmlinux quiet''\<rparr> else None)"

definition entry_world :: grub2_world where
  "entry_world = \<lparr>ge_parse = (\<lambda>scanner buf. (None, scanner)), ge_replace = (\<lambda>d path buf. Some 0), ge_scandir = (\<lambda>path. None)\<rparr>"

theorem local_discovery_safe_witness:
  "safely (handler_ok {}) (device_handler_discover (rev (local_parsers entry_world 12 (\<lambda>_. entry_files))) parser_resolvers sample_env (Some ''/mnt'') 0 run_parsed)"
  by (rule local_discovery_safe[OF run_parsed_reachable, where w = entry_world and n = 12 and files = "\<lambda>_. entry_files"])
    (simp_all add: run_defs context_ok_def loose_def discover_boot_option_create_def device_handler_init_def
      discover_device_new_def device_handler_discover_context_create_def)

text \<open>The file of this device gives one option.\<close>

lemma entry_files_option:
  "\<exists>ctx h opt. kboot_parse entry_files (device_handler_discover_context_create 0 None)
      (put_dev 0 entry_dev run_parsed) = Inr (ctx, h) \<and> ctx_boot_options ctx = [2] \<and> h_opt h 2 = Some opt \<and>
      opt_boot_args (dbo_option opt) = Some ''quiet'' \<and> opt_id (dbo_option opt) = Some ''sda1#linux''"
  by (simp add: kboot_parse_def kboot_conf_files_def kboot_files.simps device_handler_discover_context_create_def
      parser_is_unique_def parser_stat_path_def parser_request_file_def entry_files_def
      entry_dev_def run_defs get_dev_def get_opt_def put_dev_def put_opt_def discover_boot_option_create_def
      conf_parse_buf.simps conf_get_pair_def conf_replace_char_def conf_strip_str_def conf_blank_def isspace_def is_comment_def
      kboot_process_pair_def kboot_ignored_names_def conf_init_global_options_def kboot_global_options_def
      kboot_split_def conf_get_global_option_def case_evals kboot_args.simps conf_get_pair_equal_def kboot_arg_def fmt_s_def
      kboot_option_def optional_resource_def strip_in_place_def create_devpath_resource_def resolve_resource_against_device_def
      join_paths_def discover_device_new_def url_evals discover_context_add_boot_option_def
      device_handler_status_def notify_def device_handler_init_def Let_def)

section \<open>syslinux\<close>


definition menu_entries :: "syslinux_boot_option list" where
  "menu_entries = [\<lparr>sl_label = Some ''linux'', sl_image = Some ''/vmlinuz'', sl_append = Some ''quiet'', sl_initrd = None\<rparr>,
     \<lparr>sl_label = Some ''plain'', sl_image = Some ''/vmlinuz'', sl_append = None, sl_initrd = None\<rparr>]"

definition menu_conf :: syslinux_conf where
  "menu_conf = \<lparr>sc_globals = syslinux_globals,
     sc_state = \<lparr>so_processed_options = menu_entries, so_current_option = None, so_cfg_dir = None\<rparr>,
     sc_dc = run_ctx, sc_handler = put_dev 0 entry_dev run_parsed\<rparr>"

lemma menu_evaluates: "\<exists>conf'. syslinux_finalize menu_conf = Inr conf'"
  by (simp add: syslinux_finalize_def menu_conf_def menu_entries_def finish_boot_option_def conf_get_global_option_def
      syslinux_globals_def case_evals finalize_entry_def implicit_image_def discover_boot_option_create_def
      syslinux_option_def syslinux_args_def optional_resource_def strip_in_place_def conf_strip_str_def conf_blank_def isspace_def
      create_devpath_resource_def resolve_resource_against_device_def join_paths_def url_evals entry_dev_def discover_device_new_def
      run_defs get_dev_def get_opt_def put_dev_def put_opt_def free_opt_def discover_context_add_boot_option_def device_handler_init_def Let_def)


section \<open>yaboot\<close>

text \<open>an image of \<^verbatim>\<open>yaboot.conf\<close> that is not given a label stops the discovery process: finishing the section
  fails an assertion.\<close>

theorem yaboot_unlabelled_aborts:
  assumes "map fst (yc_globals conf) = map fst yaboot_global_options" "yaboot_process_pair (Some ''image'') k conf = Inr conf'"
  shows "yaboot_finish conf' = Inl Assertion"
  using image_result[OF assms] by (auto simp: yaboot_finish_def)

definition first_conf :: yaboot_conf where
  "first_conf = \<lparr>yc_globals = conf_init_global_options yaboot_global_options, yc_state = yaboot_state_init, yc_dc = run_ctx,
     yc_handler = put_dev 0 entry_dev run_parsed\<rparr>"

lemmas yaboot_evals = yaboot_global_options_def conf_init_global_options_def yaboot_process_pair_def yaboot_state_init_def yaboot_section_def
  state_start_new_option_def yaboot_set_option_def discover_boot_option_create_def case_evals conf_get_global_option_def run_ctx_def get_opt_def

lemma first_image: "\<exists>conf'. yaboot_process_pair (Some ''image'') ''/vmlinux'' first_conf = Inr conf'"
  by (simp add: first_conf_def yaboot_evals)

theorem yaboot_unlabelled_aborts_witness:
  "\<exists>conf'. yaboot_process_pair (Some ''image'') ''/vmlinux'' first_conf = Inr conf' \<and> yaboot_finish conf' = Inl Assertion"
  using first_image yaboot_unlabelled_aborts[of first_conf "''/vmlinux''"]
  by (force simp: first_conf_def conf_init_global_options_def yaboot_global_options_def)

text \<open>a section of \<^verbatim>\<open>yaboot.conf\<close> that names no initrd gets the initrd of the section before it.\<close>

theorem yaboot_initrd_inherited:
  assumes "map fst (yc_globals conf) = map fst yaboot_global_options" "ys_initrd (yc_state conf) = Some i"
    "yaboot_process_pair (Some ''image'') k conf = Inr c1" "yaboot_process_pair (Some ''label'') n c1 = Inr c2" "yaboot_finish c2 = Inr c3"
  shows "\<exists>r opt. ctx_boot_options (yc_dc c3) = ctx_boot_options (yc_dc c1) @ [r] \<and> h_opt (yc_handler c3) r = Some opt \<and>
    opt_name (dbo_option opt) = Some n \<and> dbo_initrd opt \<noteq> None"
proof -
  obtain r opt where r: "ys_opt (yc_state c1) = Some r" "h_opt (yc_handler c1) r = Some opt" "ys_initrd (yc_state c1) = Some i"
      "map fst (yc_globals c1) = map fst yaboot_global_options"
    using image_result[OF assms(1,3)] assms(1,2) by auto
  from label_result[OF assms(4) r(4,1,2)] obtain opt' where l: "yc_state c2 = yc_state c1" "yc_dc c2 = yc_dc c1"
      "h_opt (yc_handler c2) r = Some opt'" "opt_name (dbo_option opt') = Some n" by auto
  from yaboot_finish_option[OF assms(5), of r opt' i] l r show ?thesis by auto
qed

definition later_conf :: yaboot_conf where
  "later_conf = first_conf\<lparr>yc_state := yaboot_state_init\<lparr>ys_globals_done := True, ys_initrd := Some ''/initrd''\<rparr>\<rparr>"

lemma later_section:
  "\<exists>c1 c2 c3. yaboot_process_pair (Some ''image'') ''/vmlinux'' later_conf = Inr c1 \<and> yaboot_process_pair (Some ''label'') ''two'' c1 = Inr c2 \<and>
     yaboot_finish c2 = Inr c3 \<and> ctx_boot_options (yc_dc c1) = [1]"
  by (simp add: later_conf_def first_conf_def yaboot_evals suse_fp_def yaboot_section_pair_def get_dev_def put_dev_def put_opt_def
      entry_dev_def discover_device_new_def run_defs device_handler_init_def yaboot_finish_def yaboot_initrd_def
      create_yaboot_devpath_resource_def yaboot_devpath_def create_devpath_resource_def resolve_resource_against_device_def
      join_paths_def url_evals yaboot_boot_args_def strip_in_place_def conf_strip_str_def conf_blank_def isspace_def
      discover_context_add_boot_option_def Let_def)

theorem yaboot_initrd_inherited_witness:
  "\<exists>c1 c2 c3 r opt. yaboot_process_pair (Some ''image'') ''/vmlinux'' later_conf = Inr c1 \<and>
     yaboot_process_pair (Some ''label'') ''two'' c1 = Inr c2 \<and> yaboot_finish c2 = Inr c3 \<and> ctx_boot_options (yc_dc c3) = [1, r] \<and> h_opt (yc_handler c3) r = Some opt \<and> opt_name (dbo_option opt) = Some ''two'' \<and>
     dbo_initrd opt \<noteq> None"
proof -
  obtain c1 c2 c3 where c: "yaboot_process_pair (Some ''image'') ''/vmlinux'' later_conf = Inr c1"
      "yaboot_process_pair (Some ''label'') ''two'' c1 = Inr c2" "yaboot_finish c2 = Inr c3" "ctx_boot_options (yc_dc c1) = [1]"
    using later_section by blast
  have "map fst (yc_globals later_conf) = map fst yaboot_global_options" "ys_initrd (yc_state later_conf) = Some ''/initrd''"
    by (simp_all add: later_conf_def first_conf_def conf_init_global_options_def yaboot_global_options_def)
  from yaboot_initrd_inherited[OF this c(1-3)] obtain r opt where "ctx_boot_options (yc_dc c3) = [1, r]"
      "h_opt (yc_handler c3) r = Some opt" "opt_name (dbo_option opt) = Some ''two''" "dbo_initrd opt \<noteq> None"
    using c(4) by auto
  then show ?thesis using c by blast
qed

end
