(* ===== verification/Grub_Props.thy ===== *)
theory Grub_Props
  imports Parser_Props
begin

text \<open>
  What GRUB scripts guarantee: every option is complete and one is the default, scripts without functions end, arguments
  are split as they should be, and variables are saved and loaded; and where the interpreter goes wrong.
\<close>

section \<open>Options\<close>

lemma add_options_result:
  "add_options rs ctx h = Inr (ctx', h') \<Longrightarrow>
     ctx_boot_options ctx' = ctx_boot_options ctx @ rs \<and>
     (\<forall>r. map_option dbo_option (h_opt h' r) = map_option dbo_option (h_opt h r))"
proof (induction rs arbitrary: ctx h)
  case (Cons r rs)
  obtain opt where opt: "h_opt h r = Some opt"
    using Cons.prems by (cases "h_opt h r") (auto simp: discover_context_add_boot_option_def get_opt_def)
  then show ?case using Cons.IH Cons.prems
    by (auto simp: discover_context_add_boot_option_def put_opt_def)
qed simp

lemma named_options: "map_option dbo_option (h_opt h' r) = map_option dbo_option (h_opt h r) \<Longrightarrow> named h' r = named h r"
  by (cases "h_opt h r"; cases "h_opt h' r") (auto simp: named_def)

definition default_option :: "device_handler \<Rightarrow> nat \<Rightarrow> bool" where
  "default_option h r \<longleftrightarrow> (\<exists>opt. h_opt h r = Some opt \<and> opt_is_default (dbo_option opt))"

lemma default_options:
  "map_option dbo_option (h_opt h' r) = map_option dbo_option (h_opt h r) \<Longrightarrow> default_option h' r = default_option h r"
  by (cases "h_opt h r"; cases "h_opt h' r") (auto simp: default_option_def)

lemma have_default_result: "have_default h rs = Inr b \<Longrightarrow> b = (\<exists>r \<in> set rs. default_option h r)"
  by (induction rs arbitrary: b) (auto simp: hbind_Inr_iff get_opt_def default_option_def split: option.splits)

lemma set_fallback_result:
  assumes "set_fallback_default s = Inr s'" "gs_options s \<noteq> []"
  shows "\<exists>r \<in> set (gs_options s'). default_option (gs_handler s') r"
proof -
  obtain b where b: "have_default (gs_handler s) (gs_options s) = Inr b"
    using assms(1) by (auto simp: set_fallback_default_def hbind_Inr_iff)
  obtain r rs where rs: "gs_options s = r # rs" using assms(2) by (cases "gs_options s") auto
  show ?thesis
  proof (cases b)
    case True
    then have "s' = s" using assms(1) by (simp add: set_fallback_default_def b[unfolded rs] rs del: have_default.simps)
    then show ?thesis using have_default_result[OF b] True by simp
  next
    case False
    then show ?thesis using assms(1) b unfolding set_fallback_default_def rs
      by (auto simp: on_option_def hbind_Inr_iff get_opt_def put_opt_def default_option_def rs split: option.splits)
  qed
qed

lemma set_fallback_same: "set_fallback_default s = Inr s' \<Longrightarrow> gs_options s' = gs_options s \<and> gs_ctx s' = gs_ctx s"
  by (cases "gs_options s") (auto simp: set_fallback_default_def on_option_def hbind_Inr_iff split: if_splits)

text \<open>What executing a script adds to the context.\<close>

lemma script_execute_result:
  assumes "script_ok X s" "script_execute w n stmts s = Inr (ctx', h')"
  shows "\<exists>rs. ctx_boot_options ctx' = ctx_boot_options (gs_ctx s) @ rs \<and> (\<forall>r \<in> set rs. named h' r) \<and>
    (rs \<noteq> [] \<longrightarrow> (\<exists>r \<in> set rs. default_option h' r))"
proof -
  obtain rc t u where t: "grub2_run w n stmts (init_env s) = Inr (rc, t)" and u: "set_fallback_default t = Inr u"
    and add: "add_options (gs_options u) (gs_ctx u) (gs_handler u) = Inr (ctx', h')"
    using assms(2) by (auto simp: script_execute_def hbind_Inr_iff)
  have ok: "script_ok X t" and ctx: "gs_ctx t = gs_ctx s"
    using grub2_run_safe[OF init_env_keeps[OF assms(1)], of w n stmts] t
    by (auto simp: script_grows_def init_env_def Let_def script_set_def)
  have ok': "script_ok X u" using set_fallback_keeps[OF ok] u by simp
  note same = add_options_result[OF add]
  have "\<forall>r \<in> set (gs_options u). named h' r" using ok' named_options[OF same[THEN conjunct2, rule_format]] by (simp add: script_ok_def)
  moreover have "\<exists>r \<in> set (gs_options u). default_option h' r" if "gs_options u \<noteq> []"
    using set_fallback_result[OF u] set_fallback_same[OF u] that default_options[OF same[THEN conjunct2, rule_format]] by simp
  ultimately show ?thesis using same set_fallback_same[OF u] ctx by (intro exI[of _ "gs_options u"]) simp
qed

lemma create_script_same: "gs_ctx (create_script files ctx h) = ctx"
  by (simp add: create_script_def register_builtins_same)

lemma grub2_parse_result:
  assumes "handler_ok X h" "context_ok h ctx" "grub2_parse w n files ctx h = Inr (ctx', h')"
  shows "\<exists>rs. ctx_boot_options ctx' = ctx_boot_options ctx @ rs \<and> (\<forall>r \<in> set rs. named h' r) \<and>
    (rs \<noteq> [] \<longrightarrow> (\<exists>r \<in> set rs. default_option h' r))"
proof -
  have "\<exists>rs. ctx_boot_options ctx' = ctx_boot_options ctx @ rs \<and> (\<forall>r \<in> set rs. named h' r) \<and>
      (rs \<noteq> [] \<longrightarrow> (\<exists>r \<in> set rs. default_option h' r))"
    if "grub2_files w n files filenames ctx h = Inr (ctx', h')" for filenames
    using that
  proof (induction filenames)
    case (Cons filename filenames)
    obtain dev where dev: "h_dev h (ctx_device ctx) = Some dev" using assms(2) by (auto simp: context_ok_def)
    show ?case
    proof (cases "parser_request_file (files (ctx_device ctx)) dev filename")
      case None
      then show ?thesis using Cons dev by simp
    next
      case (Some buf)
      let ?s = "create_script files ctx h"
      have "\<exists>h1 m. grub2_parser_parse_and_execute w n filename buf ?s = Inr (ctx', h1) \<and> h' = device_handler_status STATUS_INFO m h1"
        using Cons.prems dev Some by (auto simp: hbind_Inr_iff)
      then obtain h1 m where e: "grub2_parser_parse_and_execute w n filename buf ?s = Inr (ctx', h1)"
        and h': "h' = device_handler_status STATUS_INFO m h1" by blast
      have opts: "h_opt h' = h_opt h1" by (simp add: h' device_handler_status_def notify_def)
      obtain stmts t where p: "grub2_parser_parse w filename buf ?s = (stmts, t)" by force
      have t: "script_ok X t" "gs_ctx t = ctx"
        using parsed_script_keeps[OF create_script_ok[OF assms(1,2), of files], of w filename buf "gs_include_depth ?s"] p
        by (simp_all add: script_grows_def create_script_same)
      show ?thesis
      proof (cases stmts)
        case None
        then show ?thesis using e t by (intro exI[of _ "[]"]) (simp add: grub2_parser_parse_and_execute_def p)
      next
        case (Some sts)
        then have "script_execute w n sts t = Inr (ctx', h1)" using e by (simp add: grub2_parser_parse_and_execute_def p)
        from script_execute_result[OF t(1) this] show ?thesis unfolding t(2) by (simp add: named_def default_option_def opts)
      qed
    qed
  qed auto
  then show ?thesis using assms(3) by (auto simp: grub2_parse_def split: if_splits)
qed

text \<open>C23: every boot option that a GRUB configuration adds to the context, from a menu entry or from a boot loader
  specification file, has a name and an identifier.\<close>

theorem grub2_options_named:
  assumes "handler_ok X h" "context_ok h ctx" "grub2_parse w n files ctx h = Inr (ctx', h')"
  shows "\<exists>rs. ctx_boot_options ctx' = ctx_boot_options ctx @ rs \<and> (\<forall>r \<in> set rs. named h' r)"
  using grub2_parse_result[OF assms] by blast

text \<open>C24: if a GRUB configuration gives any boot options, one of them is marked as the default, even when the
  variable that names the default matches none.\<close>

theorem grub2_has_default:
  assumes "handler_ok X h" "context_ok h ctx" "grub2_parse w n files ctx h = Inr (ctx', h')"
    "ctx_boot_options ctx' \<noteq> ctx_boot_options ctx"
  shows "\<exists>r \<in> set (ctx_boot_options ctx'). default_option h' r"
  using grub2_parse_result[OF assms(1-3)] assms(4) by auto

section \<open>Stack\<close>

lemma create_script_stack: "stack_ok 10 (init_env (create_script files ctx h))"
  by (simp add: stack_ok_def init_env_def create_script_def register_builtins_def builtins_def nops_def
      script_register_function_def script_set_def Let_def)

lemma create_script_depth: "gs_include_depth (init_env (create_script files ctx h)) = 0"
  by (simp add: init_env_def create_script_def register_builtins_def builtins_def nops_def
      script_register_function_def script_set_def Let_def)

text \<open>C22: a GRUB script that defines no functions, in its own file or in one that it reads with \<^verbatim>\<open>source\<close>, ends: eleven
  levels of the stack are enough, and with more the result is the same.\<close>

theorem grub2_script_terminates:
  assumes "sources_plain w" "plain_stmts False stmts"
  shows "\<exists>res. res \<noteq> Inl Stack_overflow \<and> (\<forall>n \<ge> 11. grub2_run w n stmts (init_env (create_script files ctx h)) = res)"
proof -
  let ?s = "init_env (create_script files ctx h)"
  have "grub2_run w 11 stmts ?s \<noteq> Inl Stack_overflow"
    using grub2_run_calm[OF assms, of 11 ?s] create_script_stack[of files ctx h] create_script_depth[of files ctx h]
    by (cases "grub2_run w 11 stmts ?s") auto
  moreover have "grub2_run w n stmts ?s = grub2_run w 11 stmts ?s" if "11 \<le> n" for n
    using grub2_run_more[OF that, of w stmts ?s] calculation unfolding deeper_def by blast
  ultimately show ?thesis by blast
qed

definition call :: "string \<Rightarrow> grub2_statement" where
  "call name = Stmt_simple [[Word_text name]]"

lemma call_execute:
  "CHR ''='' \<notin> set name \<Longrightarrow> statement_execute w run (call name) s =
     (case script_lookup_function s name of None \<Rightarrow> Inr (1, s) | Some fn \<Rightarrow> invoke w run fn [name] s)"
  by (simp add: call_def statement_simple_execute_def process_expansions_pieces top_args_def join_pieces_def word_pieces_def)

lemma recursive_call:
  assumes "script_lookup_function s ''f'' = Some (Function_invoke [call ''f''])"
  shows "grub2_run w n [call ''f''] s = Inl Stack_overflow"
proof (induction n)
  case (Suc n)
  then show ?case by (simp add: call_execute assms)
qed simp

text \<open>a function that calls itself exhausts the stack, however large it is: nothing limits the depth of calls.\<close>

theorem grub2_recursion_unbounded:
  "grub2_run w n [Stmt_function (Word_text ''f'') [call ''f''], call ''f''] s = Inl Stack_overflow"
proof (cases n)
  case (Suc m)
  have "script_lookup_function (script_register_function ''f'' (Function_invoke [call ''f'']) s) ''f'' = Some (Function_invoke [call ''f''])"
    by (simp add: script_lookup_function_def script_register_function_def)
  then show ?thesis using recursive_call[of "script_register_function ''f'' (Function_invoke [call ''f'']) s" w m]
    by (simp add: Suc call_execute)
qed simp

text \<open>when a file that is read with \<^verbatim>\<open>source\<close> cannot be parsed, the list of the statements that are being executed is
  freed, and it is freed again when this happens a second time.\<close>

theorem source_failed_twice:
  assumes "parse_to_device_path s file = Inr (Some (d, Some path))" "h_dev (gs_handler s) d = Some dev"
    "parser_request_file (gs_files s d) dev path = Some buf" "\<And>scanner. fst (ge_parse w scanner (butlast buf)) = None"
    "gs_include_depth s < 10" "gs_statements_live s"
  shows "\<exists>s'. builtin_source w run [cmd, file] s = Inr (0, s') \<and> builtin_source w run [cmd, file] s' = Inl Double_free"
proof -
  have parse: "fst (grub2_parser_parse w file buf t) = None" "gs_statements_live (snd (grub2_parser_parse w file buf t)) = gs_statements_live t"
    "gs_handler (snd (grub2_parser_parse w file buf t)) = gs_handler t" "gs_files (snd (grub2_parser_parse w file buf t)) = gs_files t"
    "gs_ctx (snd (grub2_parser_parse w file buf t)) = gs_ctx t" "gs_include_depth (snd (grub2_parser_parse w file buf t)) = gs_include_depth t" for t
    using assms(4)[of "gs_scanner t"]
    by (auto simp: grub2_parser_parse_def Let_def split: prod.split)
  obtain t where t: "grub2_parser_parse w file buf (s\<lparr>gs_include_depth := gs_include_depth s + 1\<rparr>) = (None, t)"
    using parse(1) by (metis prod.collapse)
  note same = parse(2-6)[of "s\<lparr>gs_include_depth := gs_include_depth s + 1\<rparr>", unfolded t, simplified]
  let ?s = "t\<lparr>gs_statements_live := False, gs_filename := gs_filename s, gs_include_depth := gs_include_depth s\<rparr>"
  have first: "builtin_source w run [cmd, file] s = Inr (0, ?s)"
    using assms t same by (simp add: builtin_source_def)
  have path: "parse_to_device_path ?s file = Inr (Some (d, Some path))"
    using assms(1) same by (cases "grub2_parse_file (Some file)") (auto simp: parse_to_device_path_def split: if_splits)
  obtain u where u: "grub2_parser_parse w file buf (?s\<lparr>gs_include_depth := gs_include_depth ?s + 1\<rparr>) = (None, u)"
    using parse(1) by (metis prod.collapse)
  have "\<not> gs_statements_live u" using parse(2)[of "?s\<lparr>gs_include_depth := gs_include_depth ?s + 1\<rparr>"] u by simp
  then have "builtin_source w run [cmd, file] ?s = Inl Double_free"
    using assms path same u by (simp add: builtin_source_def)
  then show ?thesis using first by blast
qed

section \<open>Arguments\<close>

text \<open>C25: the arguments of a command are the texts of its words, with every variable replaced by its value: text and
  quoted variables join the argument they stand in, and the value of an unquoted variable is split at blanks, its first
  piece joining what is before it unless a blank comes first, and every word gives at least one argument.\<close>

theorem expansion_reference: "process_expansions env words = concat (map (top_args env) words)"
  by (rule process_expansions_pieces)

section \<open>Saved variables\<close>

text \<open>C28: saving variables to an environment block never reads or writes outside the block and never changes its length,
  whatever the block contains.\<close>

theorem save_env_in_bounds:
  "\<exists>buf'. save_vars env names buf = Inr buf' \<and> length buf' = length buf"
  by (rule save_vars_total)

text \<open>C26: setting a variable in a well-formed environment block replaces its entry or adds one at the end, with the
  padding adjusted so that the block keeps its size; if there is no room the block is left as it is and the
  result is an error.\<close>

theorem env_block_update:
  assumes "list_all env_entry_ok es"
  shows "update_env (env_block es pad) n v =
    (if length (env_lines (env_assign n v es)) \<le> length (env_block es pad)
     then Inr (0, env_block (env_assign n v es) (length (env_block es pad) - length (env_lines (env_assign n v es))))
     else Inr (- 1, env_block es pad))"
  by (rule update_env_block[OF assms])

lemma put_file_same:
  "gs_handler (put_file d p f s) = gs_handler s" "gs_ctx (put_file d p f s) = gs_ctx s"
  "gs_files (put_file d p f s) d = (gs_files s d)(p \<mapsto> f)"
  by (simp_all add: put_file_def)

text \<open>C27: a variable that a script has saved with \<^verbatim>\<open>save_env\<close> is there again after \<^verbatim>\<open>load_env\<close> in a later run, with the other
  variables of the block, if the block has room for it and can be written.\<close>

theorem save_then_load:
  assumes dev: "h_dev (gs_handler s) (ctx_device (gs_ctx s)) = Some dev" "dd_mount_path dev \<noteq> None"
    and block: "gs_files s (ctx_device (gs_ctx s)) (script_envpath s default_envfile) = Some f"
      "df_data f = Some (env_signature @ env_block es pad)"
    and ok: "list_all env_entry_ok es" "distinct (map fst es)" "env_entry_ok (n, v)" "n \<noteq> ''-f''" "script_get s n = Some v"
    and room: "length (env_lines (env_assign n v es)) \<le> length (env_block es pad)"
    and writes: "\<And>buf. ge_replace w (ctx_device (gs_ctx s)) (script_envpath s default_envfile) buf \<noteq> None"
    and prefix: "script_env_get env ''prefix'' = script_get s ''prefix''"
  shows "\<exists>s1 s2. builtin_save_env w [''save_env'', n] s = Inr (0, s1) \<and>
    builtin_load_env [''load_env''] (s1\<lparr>gs_environment := env\<rparr>) = Inr (0, s2) \<and>
    (\<forall>k. script_get s2 k = (if k = n then Some v else case map_of es k of Some u \<Rightarrow> Some u | None \<Rightarrow> script_env_get env k))"
proof -
  let ?d = "ctx_device (gs_ctx s)" and ?path = "script_envpath s default_envfile"
  obtain buf where buf: "update_env (env_block es pad) n v = Inr (0, buf)"
    using room unfolding update_env_block[OF ok(1)] by simp
  obtain env' where env': "parse_buf_to_env env (env_signature @ buf) = Some env'"
    "\<And>k. script_env_get env' k = (if k = n then Some v else case map_of es k of Some u \<Rightarrow> Some u | None \<Rightarrow> script_env_get env k)"
    using update_then_load[OF ok(1-3) buf, of env] by blast
  obtain ino where ino: "ge_replace w ?d ?path (env_signature @ buf) = Some ino" using writes by blast
  let ?f = "\<lparr>df_ino = ino, df_is_dir = False, df_size = length (env_signature @ buf), df_data = Some (env_signature @ buf)\<rparr>"
  let ?s1 = "put_file ?d ?path ?f s"
  have val: "expand_var (gs_environment s) n = v" using ok(5) by (simp add: expand_var_def script_get_def)
  have save: "builtin_save_env w [''save_env'', n] s = Inr (0, ?s1)"
    using dev block ok(4) ino by (auto simp: builtin_save_env_def parser_request_file_def val buf Let_def)
  have path: "script_envpath ((put_file d p g s)\<lparr>gs_environment := env\<rparr>) default_envfile = ?path" for d p g
    using prefix by (simp add: script_envpath_def script_get_def)
  have "builtin_load_env [''load_env''] (?s1\<lparr>gs_environment := env\<rparr>) = Inr (0, ?s1\<lparr>gs_environment := env'\<rparr>)"
    using dev env'(1) by (auto simp: builtin_load_env_def path put_file_same parser_request_file_def)
  then show ?thesis using save env'(2) by (auto simp: script_get_def)
qed

section \<open>Boot loader specification entries\<close>


definition entries_world :: grub2_world where
  "entries_world = \<lparr>ge_parse = (\<lambda>scanner buf. (None, scanner)), ge_replace = (\<lambda>d path buf. None),
     ge_scandir = (\<lambda>path. if path = ''/mnt/loader/entries'' then Some [''v10.conf'', ''README'', ''v9.conf''] else None)\<rparr>"


text \<open>a field of an entry that has no variables is taken over without the blanks around it, unless it is a single
  character: then it is lost.\<close>

theorem bls_plain_field:
  assumes "CHR ''$'' \<notin> set val"
  shows "expand_field env val = (if length val \<le> 1 then None else Some (strip_blanks val))"
  by (rule expand_plain_field[OF assms])

theorem bls_plain_field_witness:
  "expand_field [] ''5'' = None \<and> expand_field [] '' 5.8 '' = Some ''5.8''"
  using bls_plain_field[of "''5''" "[]"] bls_plain_field[of "'' 5.8 ''" "[]"] by (simp add: strip_blanks_def isblank_def)

section \<open>Examples\<close>

definition menu_script :: "grub2_statement list" where
  "menu_script = [Stmt_menuentry [[Word_text ''Linux'']] [Stmt_simple [[Word_text ''linux''], [Word_text ''/vmlinux''], [Word_text ''quiet'']]]]"

definition menu_world :: grub2_world where
  "menu_world = \<lparr>ge_parse = (\<lambda>scanner buf. (Some menu_script, scanner)), ge_replace = (\<lambda>d path buf. Some 9), ge_scandir = (\<lambda>path. None)\<rparr>"

definition menu_files :: "nat \<Rightarrow> device_files" where
  "menu_files d path = (if path = ''/grub.cfg'' then Some \<lparr>df_ino = 7, df_is_dir = False, df_size = 5, df_data = Some ''entry''\<rparr> else None)"

definition menu_handler :: device_handler where
  "menu_handler = put_dev 0 entry_dev run_parsed"

abbreviation menu_ctx :: discover_context where
  "menu_ctx \<equiv> device_handler_discover_context_create 0 None"

lemma menu_handler_ok: "handler_ok {} menu_handler" "context_ok menu_handler menu_ctx"
proof -
  obtain dev where dev: "h_dev run_parsed 0 = Some dev" "dd_boot_options dev = []" "dd_requery_waiter dev = None" "dd_ramdisk dev = None"
    by (simp add: run_defs discover_boot_option_create_def device_handler_init_def discover_device_new_def put_opt_def put_dev_def)
  show "handler_ok {} menu_handler" unfolding menu_handler_def
    using dev by (intro handler_ok_put_dev[OF parser_table.reachable_ok[OF run_parsed_reachable] dev(1)])
      (simp_all add: entry_dev_def discover_device_new_def)
  show "context_ok menu_handler menu_ctx"
    by (simp add: menu_handler_def entry_dev_def run_defs context_ok_def loose_def discover_boot_option_create_def device_handler_init_def
      discover_device_new_def device_handler_discover_context_create_def put_dev_def put_opt_def)
qed

lemmas script_evals = process_expansions_pieces top_args_def join_pieces_def word_pieces_def script_get_def script_set_def
  script_env_get_def script_env_set_def script_lookup_function_def script_register_function_def on_option_def
  statement_simple_execute_def

lemma create_script_defs:
  "create_script files ctx h = \<lparr>gs_statements_live = False, gs_environment = [],
     gs_symtab = map (\<lambda>n. (n, builtin_nop_fn)) (rev nops) @ rev builtins, gs_ctx = ctx, gs_handler = h, gs_opt = None,
     gs_filename = None, gs_n_options = 0, gs_options = [], gs_include_depth = 0, gs_scanner = 0, gs_files = files\<rparr>"
  by (simp add: create_script_def register_builtins_def builtins_def nops_def script_register_function_def)

lemma menu_parsed:
  "\<exists>ctx h opt. grub2_parse menu_world 1 menu_files menu_ctx menu_handler = Inr (ctx, h) \<and> ctx_boot_options ctx = [2] \<and>
     h_opt h 2 = Some opt \<and> opt_id (dbo_option opt) = Some ''sda1#Linux'' \<and> opt_boot_args (dbo_option opt) = Some ''quiet''"
  by (simp add: grub2_parse_def grub2_conf_files_def parser_request_file_def menu_files_def menu_handler_def run_defs entry_dev_def
     device_handler_discover_context_create_def discover_device_new_def get_dev_def get_opt_def put_dev_def put_opt_def
     device_handler_init_def discover_boot_option_create_def grub2_parser_parse_and_execute_def grub2_parser_parse_def menu_world_def
     menu_script_def script_execute_def init_env_def create_script_defs builtins_def nops_def script_evals
     statement_menuentry_execute_def menuentry_start_def menuentry_finish_def builtin_linux_def script_resource_def
     create_grub2_resource_def grub2_parse_file_def resolve_resource_against_device_def join_paths_def url_evals linux_args_def
     set_fallback_default_def discover_context_add_boot_option_def option_is_default_def fmt_s_def
     device_handler_status_def notify_def Let_def)

theorem grub2_options_named_witness:
  "\<exists>ctx h. grub2_parse menu_world 1 menu_files menu_ctx menu_handler = Inr (ctx, h) \<and> ctx_boot_options ctx = [2] \<and> named h 2"
proof -
  obtain ctx h where p: "grub2_parse menu_world 1 menu_files menu_ctx menu_handler = Inr (ctx, h)" "ctx_boot_options ctx = [2]"
    using menu_parsed by blast
  show ?thesis using grub2_options_named[OF menu_handler_ok p(1)] p
    by (auto simp: device_handler_discover_context_create_def)
qed

theorem grub2_has_default_witness:
  "\<exists>ctx h. grub2_parse menu_world 1 menu_files menu_ctx menu_handler = Inr (ctx, h) \<and> default_option h 2"
proof -
  obtain ctx h where p: "grub2_parse menu_world 1 menu_files menu_ctx menu_handler = Inr (ctx, h)" "ctx_boot_options ctx = [2]"
    using menu_parsed by blast
  show ?thesis using grub2_has_default[OF menu_handler_ok p(1)] p
    by (auto simp: device_handler_discover_context_create_def)
qed

theorem grub2_script_terminates_witness:
  "\<exists>res. res \<noteq> Inl Stack_overflow \<and> (\<forall>n \<ge> 11. grub2_run menu_world n menu_script (init_env (create_script menu_files menu_ctx menu_handler)) = res)"
  by (rule grub2_script_terminates) (simp_all add: sources_plain_def menu_world_def menu_script_def)

definition sourcing_script :: grub2_script where
  "sourcing_script = (create_script menu_files menu_ctx menu_handler)\<lparr>gs_statements_live := True\<rparr>"

theorem source_failed_twice_witness:
  "\<exists>s'. builtin_source entry_world (\<lambda>_ s. Inr (0, s)) [''source'', ''/grub.cfg''] sourcing_script = Inr (0, s') \<and>
     builtin_source entry_world (\<lambda>_ s. Inr (0, s)) [''source'', ''/grub.cfg''] s' = Inl Double_free"
  by (rule source_failed_twice[where d = 0 and path = "''/grub.cfg''" and dev = entry_dev and buf = "''entry''"])
    (simp_all add: sourcing_script_def create_script_defs parse_to_device_path_def grub2_parse_file_def menu_handler_def
      device_handler_discover_context_create_def parser_request_file_def menu_files_def entry_dev_def entry_world_def put_dev_def)

theorem env_block_update_witness:
  "update_env (env_block [(''a'', ''1''), (''b'', ''2'')] 3) ''a'' ''1234'' = Inr (0, env_block [(''a'', ''1234''), (''b'', ''2'')] 0)"
  using env_block_update[of "[(''a'', ''1''), (''b'', ''2'')]" 3 "''a''" "''1234''"]
  by (simp add: env_block_def)

definition saved_block :: device_file where
  "saved_block = \<lparr>df_ino = 3, df_is_dir = False, df_size = 63, df_data = Some (env_signature @ env_block [(''boots'', ''7'')] 30)\<rparr>"

definition saving_script :: grub2_script where
  "saving_script = (create_script (\<lambda>d path. if path = ''/boot/grub/grubenv''
       then Some saved_block else None) menu_ctx menu_handler)
     \<lparr>gs_environment := [(''saved_entry'', ''2''), (''prefix'', ''/boot/grub'')]\<rparr>"

theorem save_then_load_witness:
  "\<exists>s1 s2. builtin_save_env menu_world [''save_env'', ''saved_entry''] saving_script = Inr (0, s1) \<and>
     builtin_load_env [''load_env''] (s1\<lparr>gs_environment := [(''prefix'', ''/boot/grub'')]\<rparr>) = Inr (0, s2) \<and>
     script_get s2 ''saved_entry'' = Some ''2'' \<and> script_get s2 ''boots'' = Some ''7''"
proof -
  have "\<exists>s1 s2. builtin_save_env menu_world [''save_env'', ''saved_entry''] saving_script = Inr (0, s1) \<and>
     builtin_load_env [''load_env''] (s1\<lparr>gs_environment := [(''prefix'', ''/boot/grub'')]\<rparr>) = Inr (0, s2) \<and>
     (\<forall>k. script_get s2 k = (if k = ''saved_entry'' then Some ''2'' else case map_of [(''boots'', ''7'')] k of Some u \<Rightarrow> Some u
        | None \<Rightarrow> script_env_get [(''prefix'', ''/boot/grub'')] k))"
    by (rule save_then_load[where dev = entry_dev and f = saved_block and pad = 30])
      (simp_all add: saving_script_def create_script_defs menu_handler_def device_handler_discover_context_create_def put_dev_def
        entry_dev_def script_envpath_def script_get_def script_env_get_def default_envfile_def menu_world_def saved_block_def env_block_def)
  then show ?thesis by force
qed

end
