(* ===== verification/Wire.thy ===== *)
theory Wire
  imports Types
begin

text \<open>
  The primitives of the message format, \<^verbatim>\<open>lib/pb-protocol/pb-protocol.c\<close>: the cursor that the
  deserialisers move over a payload, \<^verbatim>\<open>read_string\<close>, \<^verbatim>\<open>read_u32\<close> and the array loops on one side,
  \<^verbatim>\<open>pb_protocol_serialise_string\<close> on the other.

  A reader is a function of the cursor.  It returns a value and the moved cursor, or the way
  it went wrong: \<open>Malformed\<close> is the \<^verbatim>\<open>-1\<close> of the sources, \<open>Out_of_bounds\<close> a load outside the
  payload's allocation and \<open>Null_deref\<close> a store through the NULL that \<^verbatim>\<open>talloc_array\<close> returns
  for a count it refuses.  The last two are undefined behaviour in C: a reader that may
  produce them is unsafe on that payload.
\<close>

section \<open>Cursors and readers\<close>

text \<open>\<open>cbuf\<close> is the allocated payload, \<open>cpos\<close> the offset of the pointer \<^verbatim>\<open>pos\<close> in it and
  \<open>clen\<close> the variable \<^verbatim>\<open>len\<close>, an \<^verbatim>\<open>unsigned int\<close> that the code decrements on its own.\<close>

record cursor =
  cbuf :: string
  cpos :: nat
  clen :: u32

datatype rd_err = Malformed | Out_of_bounds | Null_deref

type_synonym 'a reader = "cursor \<Rightarrow> rd_err + ('a \<times> cursor)"

definition rreturn :: "'a \<Rightarrow> 'a reader" where
  "rreturn x c = Inr (x, c)"

definition rfail :: "rd_err \<Rightarrow> 'a reader" where
  "rfail e c = Inl e"

definition rbind :: "'a reader \<Rightarrow> ('a \<Rightarrow> 'b reader) \<Rightarrow> 'b reader" where
  "rbind m k c = (case m c of Inl e \<Rightarrow> Inl e | Inr (x, c') \<Rightarrow> k x c')"

text \<open>\<^verbatim>\<open>pos += n; len -= m\<close>.\<close>

definition radvance :: "u32 \<Rightarrow> u32 \<Rightarrow> unit reader" where
  "radvance n m c = Inr ((), c\<lparr>cpos := cpos c + unat n, clen := clen c - m\<rparr>)"

text \<open>\<^verbatim>\<open>if (len < n) goto out\<close>.\<close>

definition rneed :: "u32 \<Rightarrow> unit reader" where
  "rneed n c = (if clen c < n then Inl Malformed else Inr ((), c))"

text \<open>A load of \<open>n\<close> bytes at \<open>off\<close> from a buffer.\<close>

definition mem_load :: "string \<Rightarrow> nat \<Rightarrow> nat \<Rightarrow> string option" where
  "mem_load buf off n =
     (if off + n \<le> length buf then Some (take n (drop off buf)) else None)"

definition rpeek :: "nat \<Rightarrow> string reader" where
  "rpeek n c =
     (case mem_load (cbuf c) (cpos c) n of
        None \<Rightarrow> Inl Out_of_bounds
      | Some s \<Rightarrow> Inr (s, c))"

text \<open>\<^verbatim>\<open>talloc_strndup\<close> of at most \<open>n\<close> characters at offset \<open>off\<close>: the loop loads one character
  after the other until it has \<open>n\<close> or meets a NUL.\<close>

definition talloc_strndup :: "string \<Rightarrow> nat \<Rightarrow> nat \<Rightarrow> string option" where
  "talloc_strndup buf off n =
     (let avail = drop off buf; s = takeWhile (\<lambda>c. c \<noteq> NUL) (take n avail)
      in if length s = length avail \<and> length avail < n then None else Some s)"

definition read_string :: "cstr reader" where
  "read_string =
     rbind (rneed 4) (\<lambda>_. rbind (rpeek 4) (\<lambda>h c.
       let str_len = un_be32 h; read_len = (4 :: u32)
       in if clen c < read_len + str_len then Inl Malformed
          else rbind
            (\<lambda>c. if str_len = 0 then Inr (None, c)
                 else (case talloc_strndup (cbuf c) (cpos c + unat read_len) (unat str_len) of
                         None \<Rightarrow> Inl Out_of_bounds
                       | Some s \<Rightarrow> Inr (Some s, c)))
            (\<lambda>str. rbind (radvance (read_len + str_len) (read_len + str_len)) (\<lambda>_. rreturn str))
            c))"

definition read_u32 :: "u32 reader" where
  "read_u32 =
     rbind (rneed 4) (\<lambda>_. rbind (rpeek 4) (\<lambda>h.
     rbind (radvance 4 4) (\<lambda>_. rreturn (un_be32 h))))"

text \<open>\<^verbatim>\<open>read_u32 (&tmp); field = !!tmp\<close>.\<close>

definition read_u32_bool :: "bool reader" where
  "read_u32_bool = rbind read_u32 (\<lambda>tmp. rreturn (tmp \<noteq> 0))"

text \<open>\<^verbatim>\<open>*(bool *)pos\<close>, after which \<^verbatim>\<open>pos\<close> moves by one and \<^verbatim>\<open>len\<close> by \<open>m\<close>.\<close>

definition read_bool :: "u32 \<Rightarrow> bool reader" where
  "read_bool m =
     rbind (rpeek 1) (\<lambda>b. rbind (radvance 1 m) (\<lambda>_. rreturn (b \<noteq> [NUL])))"

text \<open>\<^verbatim>\<open>MAX_TALLOC_SIZE\<close>, and the counts for which \<^verbatim>\<open>_talloc_array\<close> returns NULL.\<close>

definition MAX_TALLOC_SIZE :: u32 where
  "MAX_TALLOC_SIZE = 0x10000000"

definition talloc_array_refused :: "u32 \<Rightarrow> u32 \<Rightarrow> bool" where
  "talloc_array_refused el_size count \<longleftrightarrow> MAX_TALLOC_SIZE div el_size \<le> count"

text \<open>\<^verbatim>\<open>sizeof (char *)\<close> on the 64-bit hosts the model is about.\<close>

definition PTR_SIZE :: u32 where
  "PTR_SIZE = 8"

text \<open>\<^verbatim>\<open>sizeof (struct autoboot_option)\<close>: an enum and a union with a pointer.\<close>

definition AUTOBOOT_OPTION_SIZE :: u32 where
  "AUTOBOOT_OPTION_SIZE = 16"

text \<open>\<^verbatim>\<open>for (i = 0; i < n; i++) { read an element; array[i] = element; }\<close>\<close>

fun read_loop :: "bool \<Rightarrow> 'a reader \<Rightarrow> nat \<Rightarrow> 'a list reader" where
  "read_loop array_null rd 0 = rreturn []"
| "read_loop array_null rd (Suc n) =
     rbind rd (\<lambda>x. if array_null then rfail Null_deref
       else rbind (read_loop array_null rd n) (\<lambda>xs. rreturn (x # xs)))"

text \<open>A count, the allocation of the array of pointers and the loop that fills it.\<close>

definition read_array :: "'a reader \<Rightarrow> 'a list reader" where
  "read_array rd =
     rbind read_u32 (\<lambda>n. read_loop (talloc_array_refused PTR_SIZE n) rd (unat n))"

section \<open>Writers\<close>

text \<open>The stores of a serialiser are sequential, so what it has written is the list of bytes from
  \<^verbatim>\<open>buf\<close> to \<^verbatim>\<open>pos\<close>.  \<open>pos\<close> says whether the destination is other than NULL.\<close>

definition optional_strlen :: "cstr \<Rightarrow> u32" where
  "optional_strlen str = (case str of None \<Rightarrow> 0 | Some s \<Rightarrow> word_of_nat (length s))"

definition pb_protocol_serialise_string :: "bool \<Rightarrow> cstr \<Rightarrow> string" where
  "pb_protocol_serialise_string pos str =
     (if \<not> pos then []
      else be32 (optional_strlen str) @ (case str of None \<Rightarrow> [] | Some s \<Rightarrow> s))"

abbreviation ser_str :: "cstr \<Rightarrow> string" where
  "ser_str \<equiv> pb_protocol_serialise_string True"

definition ser_bool :: "bool \<Rightarrow> string" where
  "ser_bool b = [if b then CHR 0x01 else NUL]"

text \<open>\<^verbatim>\<open>*(uint32_t *)pos = flag\<close>, in the host's byte order.\<close>

definition ser_u32_bool :: "endian \<Rightarrow> bool \<Rightarrow> string" where
  "ser_u32_bool e b = host32 e (if b then 1 else 0)"

definition ser_array :: "('a \<Rightarrow> string) \<Rightarrow> 'a list \<Rightarrow> string" where
  "ser_array ser xs = be32 (word_of_nat (length xs)) @ concat (map ser xs)"

datatype ser_err = Buffer_overrun | Invalid_message

text \<open>\<^verbatim>\<open>assert (pos <= buf + buf_len); return (pos <= buf + buf_len) ? 0 : -1\<close>.  Once the
  position is past the end the stores have already left the buffer.\<close>

definition ser_finish :: "string \<Rightarrow> u32 \<Rightarrow> ser_err + string" where
  "ser_finish bs buf_len = (if int (length bs) \<le> sint buf_len then Inr bs else Inl Buffer_overrun)"

text \<open>\<^verbatim>\<open>PB_PROTOCOL_MAX_PAYLOAD_SIZE\<close>.\<close>

definition PB_PROTOCOL_MAX_PAYLOAD_SIZE :: nat where
  "PB_PROTOCOL_MAX_PAYLOAD_SIZE = 64 * 1024"

section \<open>The contract of a reader\<close>

lemma rbind_assoc [simp]: "rbind (rbind m f) g = rbind m (\<lambda>x. rbind (f x) g)"
  by (auto simp: rbind_def fun_eq_iff split: sum.split prod.split)

lemma rbind_return [simp]: "rbind (rreturn x) k = k x"
  by (simp add: rbind_def rreturn_def fun_eq_iff)


text \<open>The bytes \<open>bs\<close> lie at the cursor, inside the payload of a message of acceptable size, and
  \<^verbatim>\<open>len\<close> covers them.\<close>

definition ready :: "cursor \<Rightarrow> string \<Rightarrow> bool" where
  "ready c bs \<longleftrightarrow>
     length (cbuf c) \<le> PB_PROTOCOL_MAX_PAYLOAD_SIZE \<and>
     (\<exists>pre post. cbuf c = pre @ bs @ post \<and> cpos c = length pre \<and> length bs \<le> unat (clen c))"

text \<open>The reader succeeds with \<open>x\<close> and leaves the cursor at \<open>bs\<close>, in the same buffer.\<close>

definition reads :: "'a reader \<Rightarrow> cursor \<Rightarrow> string \<Rightarrow> 'a \<Rightarrow> bool" where
  "reads r c bs x \<longleftrightarrow> (\<exists>c'. r c = Inr (x, c') \<and> ready c' bs \<and> cbuf c' = cbuf c)"

text \<open>The strings that reach the other side unchanged: an empty string arrives as NULL.\<close>

definition wf_str :: "cstr \<Rightarrow> bool" where
  "wf_str s \<longleftrightarrow> (case s of None \<Rightarrow> True | Some t \<Rightarrow> c_string t)"

definition norm_str :: "cstr \<Rightarrow> cstr" where
  "norm_str s = (if s = Some [] then None else s)"

lemma norm_str_idem [simp]: "norm_str (norm_str s) = norm_str s"
  by (simp add: norm_str_def)

lemma reads_return [reads_intros]: "ready c bs \<Longrightarrow> x = y \<Longrightarrow> reads (rreturn x) c bs y"
  by (auto simp: reads_def rreturn_def)

lemma reads_bind:
  assumes "reads m c bs x"
    and "\<And>c'. ready c' bs \<Longrightarrow> cbuf c' = cbuf c \<Longrightarrow> reads (k x) c' bs' y"
  shows "reads (rbind m k) c bs' y"
proof -
  from assms(1) obtain c' where m: "m c = Inr (x, c')" and c': "ready c' bs" "cbuf c' = cbuf c"
    by (auto simp: reads_def)
  from assms(2)[OF c'] m c'(2) show ?thesis by (auto simp: reads_def rbind_def)
qed

lemma ready_clen: "ready c bs \<Longrightarrow> length bs \<le> unat (clen c)"
  by (auto simp: ready_def)

lemma ready_Nil_pos: "ready c bs \<Longrightarrow> cpos c \<le> length (cbuf c)"
  by (auto simp: ready_def)

lemma ready_need: "ready c bs \<Longrightarrow> unat n \<le> length bs \<Longrightarrow> \<not> clen c < n"
  by (auto simp: ready_def word_less_nat_alt)

lemma ready_load: "ready c (h @ bs) \<Longrightarrow> mem_load (cbuf c) (cpos c) (length h) = Some h"
  by (auto simp: ready_def mem_load_def)

lemma reads_need [reads_intros]: "ready c bs \<Longrightarrow> unat n \<le> length bs \<Longrightarrow> reads (rneed n) c bs ()"
  by (auto simp: reads_def rneed_def ready_need)

lemma reads_peek [reads_intros]:
  "ready c (h @ bs) \<Longrightarrow> length h = n \<Longrightarrow> reads (rpeek n) c (h @ bs) h"
  by (auto simp: reads_def rpeek_def ready_load)

lemma reads_advance [reads_intros]:
  assumes "ready c (h @ bs)" and "length h = unat n" and "unat m \<le> unat n"
  shows "reads (radvance n m) c bs ()"
proof -
  from assms(1) obtain pre post where
    c: "cbuf c = pre @ (h @ bs) @ post" "cpos c = length pre" "length (h @ bs) \<le> unat (clen c)"
    by (auto simp: ready_def)
  from assms c(3) have "m \<le> clen c" by (auto simp: word_le_nat_alt)
  then have "unat (clen c - m) = unat (clen c) - unat m" by (rule unat_sub)
  with assms c(3) have "length bs \<le> unat (clen c - m)" by simp
  moreover have "cbuf c = (pre @ h) @ bs @ post" using c(1) by simp
  ultimately have "ready (c\<lparr>cpos := cpos c + unat n, clen := clen c - m\<rparr>) bs"
    unfolding ready_def using assms(1,2) c(2)
    by (intro conjI exI[of _ "pre @ h"] exI[of _ post]) (simp_all add: ready_def)
  then show ?thesis by (simp add: reads_def radvance_def)
qed

lemma reads_u32 [reads_intros]:
  assumes "ready c (be32 w @ bs)"
  shows "reads read_u32 c bs w"
proof -
  have "unat (4 :: u32) \<le> length (be32 w @ bs)" by simp
  from assms this have n: "reads (rneed 4) c (be32 w @ bs) ()" by (rule reads_need)
  show ?thesis unfolding read_u32_def
    by (rule reads_bind[OF n], rule reads_bind[OF reads_peek], assumption, simp,
        rule reads_bind[OF reads_advance], assumption, simp, simp, rule reads_return, assumption, simp)
qed

lemma reads_u32_bool [reads_intros]:
  assumes "ready c (ser_u32_bool e b @ bs)"
  shows "reads read_u32_bool c bs b"
proof -
  have eq: "ser_u32_bool e b = be32 (un_be32 (ser_u32_bool e b))"
    by (cases e; cases b)
       (simp_all add: ser_u32_bool_def host32_def be32_def un_be32_def char_of_def)
  have nz: "(un_be32 (ser_u32_bool e b) \<noteq> 0) = b"
    by (cases e; cases b)
       (simp_all add: ser_u32_bool_def host32_def be32_def un_be32_def char_of_def)
  from assms have "ready c (be32 (un_be32 (ser_u32_bool e b)) @ bs)" using eq by simp
  then show ?thesis unfolding read_u32_bool_def
    by (rule reads_bind[OF reads_u32]) (rule reads_return, assumption, rule nz)
qed

lemma reads_bool [reads_intros]:
  assumes "ready c (ser_bool b @ bs)" and "m \<in> {0, 1}"
  shows "reads (read_bool m) c bs b"
proof -
  have len: "length (ser_bool b) = 1" by (simp add: ser_bool_def)
  have "unat m \<le> unat (1 :: u32)" using assms(2) by auto
  then have adv: "reads (radvance 1 m) c' bs ()" if "ready c' (ser_bool b @ bs)" for c'
    using that len by (intro reads_advance) simp_all
  have val: "(ser_bool b \<noteq> [NUL]) = b" by (simp add: ser_bool_def)
  show ?thesis unfolding read_bool_def
    by (rule reads_bind[OF reads_peek[OF assms(1) len]], rule reads_bind[OF adv], assumption)
       (rule reads_return, assumption, rule val)
qed

lemma talloc_strndup_exact:
  assumes "c_string s" and "drop off buf = s @ post"
  shows "talloc_strndup buf off (length s) = Some s"
  using assms by (auto simp: talloc_strndup_def c_string_def takeWhile_eq_all_conv Let_def)

lemma reads_string [reads_intros]:
  assumes "ready c (ser_str s @ bs)" and "wf_str s"
  shows "reads read_string c bs (norm_str s)"
proof -
  let ?t = "case s of None \<Rightarrow> [] | Some t \<Rightarrow> t"
  let ?n = "optional_strlen s"
  have ser: "ser_str s = be32 ?n @ ?t" by (simp add: pb_protocol_serialise_string_def)
  from assms(1) obtain pre post where
    c: "cbuf c = pre @ (ser_str s @ bs) @ post" "cpos c = length pre"
    and fit: "length (ser_str s @ bs) \<le> unat (clen c)"
    by (auto simp: ready_def)
  have lt: "4 + length ?t \<le> unat (clen c)" using fit by (simp add: ser)
  have "unat (clen c) < 2 ^ 32" using unsigned_less[of "clen c"] by simp
  with lt have n: "unat ?n = length ?t"
    by (cases s) (auto simp: optional_strlen_def unat_of_nat)
  have n4: "unat (4 + ?n) = 4 + length ?t"
    using lt \<open>unat (clen c) < 2 ^ 32\<close> n by (simp add: unat_word_ariths)
  have guard: "\<not> clen c < 4 + ?n" using lt n4 by (simp add: word_less_nat_alt)
  have z: "?n = 0 \<longleftrightarrow> ?t = []" using n by (metis length_0_conv unat_0 unsigned_0 unat_eq_zero)
  have dup: "talloc_strndup (cbuf c) (cpos c + 4) (length ?t) = Some ?t"
    using assms(2) c ser
    by (intro talloc_strndup_exact[where post = "bs @ post"])
       (auto simp: wf_str_def c_string_def split: option.splits)
  have load: "mem_load (cbuf c) (cpos c) 4 = Some (be32 ?n)"
    using ready_load[of c "be32 ?n" "?t @ bs"] assms(1) by (simp add: ser)
  have val: "(if ?n = 0 then None else Some ?t) = norm_str s"
    using z by (cases s) (auto simp: norm_str_def)
  have "read_string c = rbind (radvance (4 + ?n) (4 + ?n)) (\<lambda>_. rreturn (norm_str s)) c"
    using ready_need[OF assms(1), of 4] guard dup n val[symmetric]
    by (simp add: read_string_def rbind_def rneed_def rpeek_def load ser Let_def)
  moreover have "reads (radvance (4 + ?n) (4 + ?n)) c bs ()"
    by (rule reads_advance[OF assms(1)]) (simp_all add: ser n4)
  then have "reads (rbind (radvance (4 + ?n) (4 + ?n)) (\<lambda>_. rreturn (norm_str s))) c bs (norm_str s)"
    by (rule reads_bind) (rule reads_return, assumption, rule refl)
  ultimately show ?thesis by (simp add: reads_def)
qed

text \<open>A field codec: a writer and the reader that inverts it, on the values that satisfy
  \<open>ok\<close> and up to the representation \<open>norm\<close> that arrives.\<close>

locale codec =
  fixes enc :: "'a \<Rightarrow> string"
    and dec :: "'a reader"
    and norm :: "'a \<Rightarrow> 'a"
    and ok :: "'a \<Rightarrow> bool"
  assumes enc_nonempty: "enc x \<noteq> []"
    and dec_enc: "ready c (enc x @ bs) \<Longrightarrow> ok x \<Longrightarrow> reads dec c bs (norm x)"
begin

lemma length_le_concat: "length xs \<le> length (concat (map enc xs))"
proof (induction xs)
  case (Cons x xs)
  then show ?case using enc_nonempty[of x] by (cases "enc x") auto
qed simp

lemma loop_enc:
  "ready c (concat (map enc xs) @ bs) \<Longrightarrow> list_all ok xs \<Longrightarrow>
     reads (read_loop False dec (length xs)) c bs (map norm xs)"
proof (induction xs arbitrary: c)
  case Nil
  then show ?case by (simp add: reads_return)
next
  case (Cons x xs)
  from Cons.prems(1) have "ready c (enc x @ (concat (map enc xs) @ bs))" by simp
  then have "reads dec c (concat (map enc xs) @ bs) (norm x)"
    using Cons.prems(2) by (intro dec_enc) simp_all
  moreover have "reads (read_loop False dec (length xs)) c' bs (map norm xs)"
    if "ready c' (concat (map enc xs) @ bs)" for c'
    using Cons.IH[OF that] Cons.prems(2) by simp
  ultimately show ?case
    by (auto intro!: reads_bind[of dec] reads_bind[of "read_loop False dec (length xs)"] reads_return)
qed

lemma array_count:
  assumes "ready c (ser_array enc xs @ bs)"
  shows "unat (word_of_nat (length xs) :: u32) = length xs"
    and "\<not> talloc_array_refused PTR_SIZE (word_of_nat (length xs))"
    and "\<not> talloc_array_refused AUTOBOOT_OPTION_SIZE (word_of_nat (length xs))"
proof -
  have "length xs \<le> PB_PROTOCOL_MAX_PAYLOAD_SIZE"
    using assms length_le_concat[of xs] by (auto simp: ready_def ser_array_def)
  then have "length xs \<le> 65536" by (simp add: PB_PROTOCOL_MAX_PAYLOAD_SIZE_def)
  then show "unat (word_of_nat (length xs) :: u32) = length xs"
    and "\<not> talloc_array_refused PTR_SIZE (word_of_nat (length xs))"
    and "\<not> talloc_array_refused AUTOBOOT_OPTION_SIZE (word_of_nat (length xs))"
    by (simp_all add: unat_of_nat talloc_array_refused_def PTR_SIZE_def AUTOBOOT_OPTION_SIZE_def
        MAX_TALLOC_SIZE_def word_le_nat_alt)
qed

lemma array_enc:
  assumes "ready c (ser_array enc xs @ bs)" and "list_all ok xs"
  shows "reads (read_array dec) c bs (map norm xs)"
  using array_count(1,2)[OF assms(1)] loop_enc[OF _ assms(2)] assms(1)
  unfolding read_array_def ser_array_def
  by (auto intro!: reads_bind[OF reads_u32])

end

interpretation str: codec ser_str read_string norm_str wf_str
  by unfold_locales (simp add: pb_protocol_serialise_string_def be32_def Let_def, rule reads_string)

interpretation u32c: codec be32 read_u32 id "\<lambda>_. True"
  by unfold_locales (simp add: be32_def Let_def, simp add: reads_u32)

end
