(* ===== verification/Protocol_Ser.thy ===== *)
theory Protocol_Ser
  imports Wire
begin

text \<open>
  The sending side of \<^verbatim>\<open>lib/pb-protocol/pb-protocol.c\<close>: for every message type the length
  function \<^verbatim>\<open>pb_protocol_*_len\<close>, with which a caller sizes the message, and the serialiser
  \<^verbatim>\<open>pb_protocol_serialise_*\<close>.  Lengths are 32-bit words, as the \<^verbatim>\<open>unsigned int\<close> accumulators are.
  A serialiser is the bytes it stores (\<open>\<dots>_bytes\<close>) followed by the check against the buffer.
\<close>

section \<open>Enumerations on the wire\<close>

fun config_method_code :: "config_method \<Rightarrow> u32" where
  "config_method_code CONFIG_METHOD_DHCP = 0"
| "config_method_code CONFIG_METHOD_STATIC = 1"
| "config_method_code (CONFIG_METHOD_invalid w) = w"

fun status_type_code :: "status_type \<Rightarrow> u32" where
  "status_type_code STATUS_INFO = 0"
| "status_type_code STATUS_ERROR = 1"
| "status_type_code (STATUS_invalid w) = w"

fun option_type_code :: "option_type \<Rightarrow> u32" where
  "option_type_code DISCOVER_BOOT_OPTION = 0"
| "option_type_code DISCOVER_PLUGIN_OPTION = 1"
| "option_type_code (DISCOVER_invalid w) = w"

fun boot_type_code :: "autoboot_option \<Rightarrow> u32" where
  "boot_type_code (BOOT_DEVICE_TYPE t) = 0"
| "boot_type_code (BOOT_DEVICE_UUID u) = 1"
| "boot_type_code (BOOT_DEVICE_invalid w u) = w"

text \<open>\<^verbatim>\<open>struct auth_message\<close>: the operation and the member of the union it selects.\<close>

datatype auth_message =
    AUTH_MSG_REQUEST cstr
  | AUTH_MSG_RESPONSE bool
  | AUTH_MSG_SET cstr cstr
  | AUTH_MSG_DECRYPT cstr cstr
  | AUTH_MSG_invalid u32

fun auth_op_code :: "auth_message \<Rightarrow> u32" where
  "auth_op_code (AUTH_MSG_REQUEST p) = 0"
| "auth_op_code (AUTH_MSG_RESPONSE b) = 1"
| "auth_op_code (AUTH_MSG_SET p q) = 2"
| "auth_op_code (AUTH_MSG_DECRYPT p d) = 3"
| "auth_op_code (AUTH_MSG_invalid w) = w"

section \<open>Lengths\<close>

definition pb_protocol_device_len :: "device \<Rightarrow> u32" where
  "pb_protocol_device_len dev =
     4 + optional_strlen (dev_id dev) +
     4 +
     4 + optional_strlen (dev_name dev) +
     4 + optional_strlen (dev_description dev) +
     4 + optional_strlen (dev_icon_file dev)"

definition pb_protocol_boot_option_len :: "boot_option \<Rightarrow> u32" where
  "pb_protocol_boot_option_len opt =
     4 + optional_strlen (opt_device_id opt) +
     4 + optional_strlen (opt_id opt) +
     4 + optional_strlen (opt_name opt) +
     4 + optional_strlen (opt_description opt) +
     4 + optional_strlen (opt_icon_file opt) +
     4 + optional_strlen (opt_boot_image_file opt) +
     4 + optional_strlen (opt_initrd_file opt) +
     4 + optional_strlen (opt_dtb_file opt) +
     4 + optional_strlen (opt_boot_args opt) +
     4 + optional_strlen (opt_args_sig_file opt) +
     1 + 1 + 4"

definition pb_protocol_boot_len :: "boot_command \<Rightarrow> u32" where
  "pb_protocol_boot_len boot =
     4 + optional_strlen (cmd_option_id boot) +
     4 + optional_strlen (cmd_boot_image_file boot) +
     4 + optional_strlen (cmd_initrd_file boot) +
     4 + optional_strlen (cmd_dtb_file boot) +
     4 + optional_strlen (cmd_boot_args boot) +
     4 + optional_strlen (cmd_args_sig_file boot) +
     4 + optional_strlen (cmd_console boot)"

definition pb_protocol_boot_status_len :: "status \<Rightarrow> u32" where
  "pb_protocol_boot_status_len status = 4 + 4 + optional_strlen (st_message status) + 4 + 4"

text \<open>\<^verbatim>\<open>for (i = 0; i < n; i++) len += 4 + optional_strlen (strings[i])\<close>.\<close>

definition strings_len :: "cstr list \<Rightarrow> u32" where
  "strings_len ss = sum_list (map (\<lambda>s. 4 + optional_strlen s) ss)"

definition pb_protocol_system_info_len :: "system_info \<Rightarrow> u32" where
  "pb_protocol_system_info_len sysinfo =
     4 + optional_strlen (si_type sysinfo) +
     4 + optional_strlen (si_identifier sysinfo) +
     4 + 4 +
     4 + strings_len (si_platform_primary sysinfo) +
     4 + strings_len (si_platform_other sysinfo) +
     4 + strings_len (si_bmc_current sysinfo) +
     4 + strings_len (si_bmc_golden sysinfo) +
     word_of_nat HWADDR_SIZE +
     sum_list (map (\<lambda>if_info.
         4 + word_of_nat (length (ifi_hwaddr if_info)) +
         4 + optional_strlen (ifi_name if_info) +
         1 +
         4 + optional_strlen (ifi_address if_info) +
         4 + optional_strlen (ifi_address_v6 if_info)) (si_interfaces sysinfo)) +
     sum_list (map (\<lambda>bd_info.
         4 + optional_strlen (bd_name bd_info) +
         4 + optional_strlen (bd_uuid bd_info) +
         4 + optional_strlen (bd_mountpoint bd_info)) (si_blockdevs sysinfo)) +
     3 * 1"

definition pb_protocol_interface_config_len :: "interface_config \<Rightarrow> u32" where
  "pb_protocol_interface_config_len conf =
     (let len = word_of_nat HWADDR_SIZE + 4
      in if ifc_ignore conf then len
         else len + 4 +
           (if ifc_method conf = CONFIG_METHOD_STATIC
            then 4 + optional_strlen (ifc_address conf) +
                 4 + optional_strlen (ifc_gateway conf) +
                 4 + optional_strlen (ifc_url conf)
            else 0) + 4)"

definition autoboot_opt_len :: "autoboot_option \<Rightarrow> u32" where
  "autoboot_opt_len opt =
     (case opt of
        BOOT_DEVICE_TYPE t \<Rightarrow> 4 + 4
      | BOOT_DEVICE_UUID u \<Rightarrow> 4 + 4 + optional_strlen u
      | BOOT_DEVICE_invalid w u \<Rightarrow> 4 + 4 + optional_strlen u)"

definition pb_protocol_config_len :: "config \<Rightarrow> u32" where
  "pb_protocol_config_len config =
     4 + 4 + 4 +
     4 + sum_list (map pb_protocol_interface_config_len (net_interfaces (cfg_network config))) +
     4 + strings_len (net_dns_servers (cfg_network config)) +
     4 + optional_strlen (cfg_http_proxy config) +
     4 + optional_strlen (cfg_https_proxy config) +
     4 + sum_list (map autoboot_opt_len (cfg_autoboot_opts config)) +
     4 + 4 + 4 +
     4 +
     4 + strings_len (cfg_consoles config) +
     4 + optional_strlen (cfg_boot_console config) +
     4 +
     4 + optional_strlen (cfg_lang config) +
     4"

definition pb_protocol_url_len :: "cstr \<Rightarrow> u32" where
  "pb_protocol_url_len url = 4 + optional_strlen url"

definition pb_protocol_plugin_option_len :: "plugin_option \<Rightarrow> u32" where
  "pb_protocol_plugin_option_len opt =
     4 + optional_strlen (plg_id opt) +
     (4 + optional_strlen (plg_name opt)) +
     (4 + optional_strlen (plg_vendor opt)) +
     (4 + optional_strlen (plg_vendor_id opt)) +
     (4 + optional_strlen (plg_version opt)) +
     (4 + optional_strlen (plg_date opt)) +
     (4 + optional_strlen (plg_plugin_file opt)) +
     4 + strings_len (plg_executables opt)"

definition pb_protocol_temp_autoboot_len :: "autoboot_option \<Rightarrow> u32" where
  "pb_protocol_temp_autoboot_len opt =
     4 + (case opt of
            BOOT_DEVICE_TYPE t \<Rightarrow> 4
          | BOOT_DEVICE_UUID u \<Rightarrow> optional_strlen u
          | BOOT_DEVICE_invalid w u \<Rightarrow> optional_strlen u)"

definition pb_protocol_authenticate_len :: "auth_message \<Rightarrow> u32" where
  "pb_protocol_authenticate_len msg =
     (case msg of
        AUTH_MSG_REQUEST p \<Rightarrow> 4 + 4 + optional_strlen p
      | AUTH_MSG_RESPONSE b \<Rightarrow> 4 + 4
      | AUTH_MSG_SET p q \<Rightarrow> 4 + 4 + optional_strlen p + 4 + optional_strlen q
      | AUTH_MSG_DECRYPT p d \<Rightarrow> 4 + 4 + optional_strlen p + 4 + optional_strlen d
      | AUTH_MSG_invalid w \<Rightarrow> 0)"

section \<open>Serialisers\<close>

definition device_bytes :: "endian \<Rightarrow> device \<Rightarrow> string" where
  "device_bytes e dev =
     ser_str (dev_id dev) @
     host32 e (device_type_code (dev_type dev)) @
     ser_str (dev_name dev) @
     ser_str (dev_description dev) @
     ser_str (dev_icon_file dev)"

definition pb_protocol_serialise_device :: "endian \<Rightarrow> device \<Rightarrow> u32 \<Rightarrow> ser_err + string" where
  "pb_protocol_serialise_device e dev buf_len = ser_finish (device_bytes e dev) buf_len"

definition boot_option_bytes :: "boot_option \<Rightarrow> string" where
  "boot_option_bytes opt =
     ser_str (opt_device_id opt) @
     ser_str (opt_id opt) @
     ser_str (opt_name opt) @
     ser_str (opt_description opt) @
     ser_str (opt_icon_file opt) @
     ser_str (opt_boot_image_file opt) @
     ser_str (opt_initrd_file opt) @
     ser_str (opt_dtb_file opt) @
     ser_str (opt_boot_args opt) @
     ser_str (opt_args_sig_file opt) @
     ser_bool (opt_is_default opt) @
     ser_bool (opt_is_autoboot_default opt) @
     be32 (option_type_code (opt_type opt))"

definition pb_protocol_serialise_boot_option :: "boot_option \<Rightarrow> u32 \<Rightarrow> ser_err + string" where
  "pb_protocol_serialise_boot_option opt buf_len = ser_finish (boot_option_bytes opt) buf_len"

definition boot_command_bytes :: "boot_command \<Rightarrow> string" where
  "boot_command_bytes boot =
     ser_str (cmd_option_id boot) @
     ser_str (cmd_boot_image_file boot) @
     ser_str (cmd_initrd_file boot) @
     ser_str (cmd_dtb_file boot) @
     ser_str (cmd_boot_args boot) @
     ser_str (cmd_args_sig_file boot) @
     ser_str (cmd_console boot)"

definition pb_protocol_serialise_boot_command :: "boot_command \<Rightarrow> u32 \<Rightarrow> ser_err + string" where
  "pb_protocol_serialise_boot_command boot buf_len = ser_finish (boot_command_bytes boot) buf_len"

text \<open>\<^verbatim>\<open>*(bool *)pos = __cpu_to_be32 (flag)\<close> stores whether the swapped integer is non-zero, which
  is the flag itself.\<close>

definition boot_status_bytes :: "status \<Rightarrow> string" where
  "boot_status_bytes status =
     be32 (status_type_code (st_type status)) @
     ser_str (st_message status) @
     ser_bool (st_backlog status) @
     ser_bool (st_boot_active status)"

definition pb_protocol_serialise_boot_status :: "status \<Rightarrow> u32 \<Rightarrow> ser_err + string" where
  "pb_protocol_serialise_boot_status status buf_len = ser_finish (boot_status_bytes status) buf_len"

definition interface_info_bytes :: "interface_info \<Rightarrow> string" where
  "interface_info_bytes if_info =
     be32 (word_of_nat (length (ifi_hwaddr if_info))) @
     map char_of_u8 (ifi_hwaddr if_info) @
     ser_str (ifi_name if_info) @
     ser_bool (ifi_link if_info) @
     ser_str (ifi_address if_info) @
     ser_str (ifi_address_v6 if_info)"

definition blockdev_info_bytes :: "blockdev_info \<Rightarrow> string" where
  "blockdev_info_bytes bd_info =
     ser_str (bd_name bd_info) @
     ser_str (bd_uuid bd_info) @
     ser_str (bd_mountpoint bd_info)"

text \<open>A \<^verbatim>\<open>bmc_mac\<close> that is set has \<^verbatim>\<open>HWADDR_SIZE\<close> bytes.\<close>

definition bmc_mac_bytes :: "u8 list option \<Rightarrow> string" where
  "bmc_mac_bytes mac =
     (case mac of
        Some m \<Rightarrow> map char_of_u8 (take HWADDR_SIZE m)
      | None \<Rightarrow> replicate HWADDR_SIZE NUL)"

definition system_info_bytes :: "system_info \<Rightarrow> string" where
  "system_info_bytes sysinfo =
     ser_str (si_type sysinfo) @
     ser_str (si_identifier sysinfo) @
     ser_array ser_str (si_platform_primary sysinfo) @
     ser_array ser_str (si_platform_other sysinfo) @
     ser_array ser_str (si_bmc_current sysinfo) @
     ser_array ser_str (si_bmc_golden sysinfo) @
     ser_array interface_info_bytes (si_interfaces sysinfo) @
     ser_array blockdev_info_bytes (si_blockdevs sysinfo) @
     bmc_mac_bytes (si_bmc_mac sysinfo) @
     ser_bool (si_stb_fw_measurement sysinfo) @
     ser_bool (si_stb_fw_enforcing sysinfo) @
     ser_bool (si_stb_os_enforcing sysinfo)"

definition pb_protocol_serialise_system_info :: "system_info \<Rightarrow> u32 \<Rightarrow> ser_err + string" where
  "pb_protocol_serialise_system_info sysinfo buf_len = ser_finish (system_info_bytes sysinfo) buf_len"

definition pb_protocol_serialise_config_interface :: "endian \<Rightarrow> interface_config \<Rightarrow> string" where
  "pb_protocol_serialise_config_interface e conf =
     map char_of_u8 (ifc_hwaddr conf) @
     ser_u32_bool e (ifc_ignore conf) @
     (if ifc_ignore conf then []
      else be32 (config_method_code (ifc_method conf)) @
           (if ifc_method conf = CONFIG_METHOD_STATIC
            then ser_str (ifc_address conf) @ ser_str (ifc_gateway conf) @ ser_str (ifc_url conf)
            else []) @
           ser_u32_bool e (ifc_override conf))"

definition autoboot_opt_bytes :: "autoboot_option \<Rightarrow> string" where
  "autoboot_opt_bytes opt =
     be32 (boot_type_code opt) @
     (case opt of
        BOOT_DEVICE_TYPE t \<Rightarrow> be32 (device_type_code t)
      | BOOT_DEVICE_UUID u \<Rightarrow> ser_str u
      | BOOT_DEVICE_invalid w u \<Rightarrow> ser_str u)"

definition config_bytes :: "endian \<Rightarrow> config \<Rightarrow> string" where
  "config_bytes e config =
     ser_u32_bool e (cfg_autoboot_enabled config) @
     be32 (cfg_autoboot_timeout_sec config) @
     ser_u32_bool e (cfg_safe_mode config) @
     ser_array (pb_protocol_serialise_config_interface e) (net_interfaces (cfg_network config)) @
     ser_array ser_str (net_dns_servers (cfg_network config)) @
     ser_str (cfg_http_proxy config) @
     ser_str (cfg_https_proxy config) @
     ser_array autoboot_opt_bytes (cfg_autoboot_opts config) @
     be32 (cfg_ipmi_bootdev config) @
     ser_u32_bool e (cfg_ipmi_bootdev_persistent config) @
     ser_u32_bool e (cfg_ipmi_bootdev_mailbox config) @
     ser_u32_bool e (cfg_allow_writes config) @
     ser_array ser_str (cfg_consoles config) @
     ser_str (cfg_boot_console config) @
     ser_u32_bool e (cfg_manual_console config) @
     ser_str (cfg_lang config) @
     ser_u32_bool e (cfg_preboot_check_enabled config)"

definition pb_protocol_serialise_config :: "endian \<Rightarrow> config \<Rightarrow> u32 \<Rightarrow> ser_err + string" where
  "pb_protocol_serialise_config e config buf_len = ser_finish (config_bytes e config) buf_len"

definition pb_protocol_serialise_url :: "cstr \<Rightarrow> u32 \<Rightarrow> ser_err + string" where
  "pb_protocol_serialise_url url buf_len = ser_finish (ser_str url) buf_len"

definition plugin_option_bytes :: "plugin_option \<Rightarrow> string" where
  "plugin_option_bytes opt =
     ser_str (plg_id opt) @
     ser_str (plg_name opt) @
     ser_str (plg_vendor opt) @
     ser_str (plg_vendor_id opt) @
     ser_str (plg_version opt) @
     ser_str (plg_date opt) @
     ser_str (plg_plugin_file opt) @
     ser_array ser_str (plg_executables opt)"

definition pb_protocol_serialise_plugin_option :: "plugin_option \<Rightarrow> u32 \<Rightarrow> ser_err + string" where
  "pb_protocol_serialise_plugin_option opt buf_len = ser_finish (plugin_option_bytes opt) buf_len"

definition pb_protocol_serialise_temp_autoboot :: "autoboot_option \<Rightarrow> u32 \<Rightarrow> ser_err + string" where
  "pb_protocol_serialise_temp_autoboot opt buf_len = ser_finish (autoboot_opt_bytes opt) buf_len"

definition authenticate_bytes :: "endian \<Rightarrow> auth_message \<Rightarrow> string option" where
  "authenticate_bytes e msg =
     map_option (\<lambda>body. host32 e (auth_op_code msg) @ body)
       (case msg of
          AUTH_MSG_REQUEST p \<Rightarrow> Some (ser_str p)
        | AUTH_MSG_RESPONSE b \<Rightarrow> Some (ser_bool b)
        | AUTH_MSG_SET p q \<Rightarrow> Some (ser_str p @ ser_str q)
        | AUTH_MSG_DECRYPT p d \<Rightarrow> Some (ser_str p @ ser_str d)
        | AUTH_MSG_invalid w \<Rightarrow> None)"

definition pb_protocol_serialise_authenticate :: "endian \<Rightarrow> auth_message \<Rightarrow> u32 \<Rightarrow> ser_err + string" where
  "pb_protocol_serialise_authenticate e msg buf_len =
     (case authenticate_bytes e msg of
        None \<Rightarrow> Inl Invalid_message
      | Some bs \<Rightarrow> ser_finish bs buf_len)"

section \<open>The length functions size the buffer\<close>

text \<open>The number of bytes a list has, as the 32-bit accumulators of the length functions count.\<close>

abbreviation nbytes :: "string \<Rightarrow> u32" where
  "nbytes bs \<equiv> word_of_nat (length bs)"

lemma nbytes_ser_str [wire_simps]: "nbytes (ser_str s) = 4 + optional_strlen s"
  by (simp add: pb_protocol_serialise_string_def optional_strlen_def split: option.split)

lemma nbytes_ser_bool [wire_simps]: "length (ser_bool b) = 1"
  by (simp add: ser_bool_def)

lemma nbytes_ser_u32_bool [wire_simps]: "length (ser_u32_bool e b) = 4"
  by (simp add: ser_u32_bool_def)

lemma nbytes_concat: "nbytes (concat (map f xs)) = sum_list (map (\<lambda>x. nbytes (f x)) xs)"
  by (induction xs) simp_all

lemma nbytes_ser_array [wire_simps]:
  "nbytes (ser_array f xs) = 4 + sum_list (map (\<lambda>x. nbytes (f x)) xs)"
  by (simp add: ser_array_def nbytes_concat)

declare strings_len_def [wire_simps]

lemma device_len_bytes: "pb_protocol_device_len dev = nbytes (device_bytes e dev)"
  by (simp add: pb_protocol_device_len_def device_bytes_def wire_simps)

lemma boot_option_len_bytes: "pb_protocol_boot_option_len opt = nbytes (boot_option_bytes opt)"
  by (simp add: pb_protocol_boot_option_len_def boot_option_bytes_def wire_simps)

lemma boot_command_len_bytes: "pb_protocol_boot_len boot = nbytes (boot_command_bytes boot)"
  by (simp add: pb_protocol_boot_len_def boot_command_bytes_def wire_simps)

lemma plugin_option_len_bytes:
  "pb_protocol_plugin_option_len opt = nbytes (plugin_option_bytes opt)"
  by (simp add: pb_protocol_plugin_option_len_def plugin_option_bytes_def wire_simps)

lemma interface_info_len_bytes:
  "nbytes (interface_info_bytes i) =
     4 + word_of_nat (length (ifi_hwaddr i)) + 4 + optional_strlen (ifi_name i) + 1 +
     4 + optional_strlen (ifi_address i) + 4 + optional_strlen (ifi_address_v6 i)"
  by (simp add: interface_info_bytes_def wire_simps)

lemma blockdev_info_len_bytes:
  "nbytes (blockdev_info_bytes b) =
     4 + optional_strlen (bd_name b) + 4 + optional_strlen (bd_uuid b) +
     4 + optional_strlen (bd_mountpoint b)"
  by (simp add: blockdev_info_bytes_def wire_simps)

definition wf_bmc_mac :: "u8 list option \<Rightarrow> bool" where
  "wf_bmc_mac mac \<longleftrightarrow> (case mac of None \<Rightarrow> True | Some m \<Rightarrow> length m = HWADDR_SIZE)"

lemma bmc_mac_length: "wf_bmc_mac mac \<Longrightarrow> length (bmc_mac_bytes mac) = HWADDR_SIZE"
  by (simp add: wf_bmc_mac_def bmc_mac_bytes_def split: option.splits)

lemma system_info_len_bytes:
  assumes "wf_bmc_mac (si_bmc_mac s)"
  shows "pb_protocol_system_info_len s = nbytes (system_info_bytes s)"
  using assms bmc_mac_length[of "si_bmc_mac s"]
  by (simp add: pb_protocol_system_info_len_def system_info_bytes_def wire_simps
      interface_info_len_bytes blockdev_info_len_bytes HWADDR_SIZE_def)

lemma autoboot_opt_len_bytes: "autoboot_opt_len opt = nbytes (autoboot_opt_bytes opt)"
  by (simp add: autoboot_opt_len_def autoboot_opt_bytes_def wire_simps split: autoboot_option.split)

lemma interface_config_len_bytes:
  "length (ifc_hwaddr c) = HWADDR_SIZE \<Longrightarrow>
     pb_protocol_interface_config_len c = nbytes (pb_protocol_serialise_config_interface e c)"
  by (simp add: pb_protocol_interface_config_len_def pb_protocol_serialise_config_interface_def
      wire_simps Let_def)

lemma config_len_bytes:
  assumes "list_all (\<lambda>c. length (ifc_hwaddr c) = HWADDR_SIZE) (net_interfaces (cfg_network c))"
  shows "pb_protocol_config_len c = nbytes (config_bytes e c)"
proof -
  have ifaces: "map pb_protocol_interface_config_len (net_interfaces (cfg_network c)) =
        map (\<lambda>x. nbytes (pb_protocol_serialise_config_interface e x)) (net_interfaces (cfg_network c))"
    using assms by (auto simp: list_all_iff intro: interface_config_len_bytes)
  have opts: "autoboot_opt_len = (\<lambda>opt. nbytes (autoboot_opt_bytes opt))"
    by (rule ext) (rule autoboot_opt_len_bytes)
  show ?thesis
    unfolding pb_protocol_config_len_def config_bytes_def ifaces opts by (simp add: wire_simps)
qed

text \<open>With a buffer of the size the length function gives, a serialiser reports success.\<close>

lemma ser_finish_fits:
  assumes "length bs \<le> PB_PROTOCOL_MAX_PAYLOAD_SIZE"
  shows "ser_finish bs (nbytes bs) = Inr bs"
proof -
  have "int (length bs) < 2 ^ 31" using assms by (simp add: PB_PROTOCOL_MAX_PAYLOAD_SIZE_def)
  then have "sint (nbytes bs) = int (length bs)"
    by (simp add: signed_of_nat signed_take_bit_int_eq_self_iff signed_take_bit_int_eq_self)
  then show ?thesis by (simp add: ser_finish_def)
qed

end
