(* ===== verification/Protocol_Deser.thy ===== *)
theory Protocol_Deser
  imports Protocol_Ser
begin

text \<open>
  The receiving side of \<^verbatim>\<open>lib/pb-protocol/pb-protocol.c\<close>: the deserialisers, with every bounds
  check they make and every one they leave out.  A deserialiser fills in a structure that the
  caller allocated; the structure is an argument, and on success the result is its new value.
  After a failure the callers release the structure, so its partial contents are not kept.
\<close>

section \<open>Messages\<close>

record pb_message =
  msg_action :: u32
  msg_payload_len :: u32
  msg_payload :: string

definition msg_cursor :: "pb_message \<Rightarrow> cursor" where
  "msg_cursor m = \<lparr>cbuf = msg_payload m, cpos = 0, clen = msg_payload_len m\<rparr>"

definition run_reader :: "'a reader \<Rightarrow> pb_message \<Rightarrow> rd_err + 'a" where
  "run_reader r m = map_sum id fst (r (msg_cursor m))"

definition pb_protocol_deserialise_string :: "pb_message \<Rightarrow> rd_err + cstr" where
  "pb_protocol_deserialise_string m =
     (case run_reader read_string m of
        Inl Malformed \<Rightarrow> Inr None
      | r \<Rightarrow> r)"

section \<open>Enumerations read from the wire\<close>

definition config_method_of_code :: "u32 \<Rightarrow> config_method" where
  "config_method_of_code w =
     (if w = 0 then CONFIG_METHOD_DHCP else if w = 1 then CONFIG_METHOD_STATIC
      else CONFIG_METHOD_invalid w)"

definition option_type_of_code :: "u32 \<Rightarrow> option_type" where
  "option_type_of_code w =
     (if w = 0 then DISCOVER_BOOT_OPTION else if w = 1 then DISCOVER_PLUGIN_OPTION
      else DISCOVER_invalid w)"

section \<open>Deserialisers\<close>

definition device_reader :: "endian \<Rightarrow> device \<Rightarrow> device reader" where
  "device_reader e dev =
     rbind read_string (\<lambda>id'.
     rbind (rneed 4) (\<lambda>_.
     rbind (rpeek 4) (\<lambda>t.
     rbind (radvance 4 4) (\<lambda>_.
     rbind read_string (\<lambda>name.
     rbind read_string (\<lambda>description.
     rbind read_string (\<lambda>icon_file.
     rreturn (dev\<lparr>dev_id := id', dev_type := device_type_of_code (un_host32 e t),
                  dev_name := name, dev_description := description,
                  dev_icon_file := icon_file\<rparr>))))))))"

definition pb_protocol_deserialise_device ::
    "endian \<Rightarrow> device \<Rightarrow> pb_message \<Rightarrow> rd_err + device" where
  "pb_protocol_deserialise_device e dev m = run_reader (device_reader e dev) m"

definition boot_option_reader :: "u32 \<Rightarrow> boot_option \<Rightarrow> boot_option reader" where
  "boot_option_reader payload_len opt =
     rbind read_string (\<lambda>device_id.
     rbind read_string (\<lambda>id'.
     rbind read_string (\<lambda>name.
     rbind read_string (\<lambda>description.
     rbind read_string (\<lambda>icon_file.
     rbind read_string (\<lambda>boot_image_file.
     rbind read_string (\<lambda>initrd_file.
     rbind read_string (\<lambda>dtb_file.
     rbind read_string (\<lambda>boot_args.
     rbind read_string (\<lambda>args_sig_file.
     rbind (rneed 1) (\<lambda>_.
     rbind (read_bool 1) (\<lambda>is_default.
     rbind (read_bool 1) (\<lambda>is_autoboot_default.
     rbind read_u32 (\<lambda>t c.
       if cpos c \<le> unat payload_len
       then Inr (opt\<lparr>opt_device_id := device_id, opt_id := id', opt_name := name,
                     opt_description := description, opt_icon_file := icon_file,
                     opt_boot_image_file := boot_image_file, opt_initrd_file := initrd_file,
                     opt_dtb_file := dtb_file, opt_boot_args := boot_args,
                     opt_args_sig_file := args_sig_file, opt_is_default := is_default,
                     opt_is_autoboot_default := is_autoboot_default,
                     opt_type := option_type_of_code t\<rparr>, c)
       else Inl Malformed))))))))))))))"

definition pb_protocol_deserialise_boot_option ::
    "boot_option \<Rightarrow> pb_message \<Rightarrow> rd_err + boot_option" where
  "pb_protocol_deserialise_boot_option opt m =
     run_reader (boot_option_reader (msg_payload_len m) opt) m"

definition boot_command_reader :: "boot_command \<Rightarrow> boot_command reader" where
  "boot_command_reader cmd =
     rbind read_string (\<lambda>option_id.
     rbind read_string (\<lambda>boot_image_file.
     rbind read_string (\<lambda>initrd_file.
     rbind read_string (\<lambda>dtb_file.
     rbind read_string (\<lambda>boot_args.
     rbind read_string (\<lambda>args_sig_file.
     rbind read_string (\<lambda>console.
     rreturn (cmd\<lparr>cmd_option_id := option_id, cmd_boot_image_file := boot_image_file,
                  cmd_initrd_file := initrd_file, cmd_dtb_file := dtb_file,
                  cmd_boot_args := boot_args, cmd_args_sig_file := args_sig_file,
                  cmd_console := console\<rparr>))))))))"

definition pb_protocol_deserialise_boot_command ::
    "boot_command \<Rightarrow> pb_message \<Rightarrow> rd_err + boot_command" where
  "pb_protocol_deserialise_boot_command cmd m = run_reader (boot_command_reader cmd) m"

text \<open>Neither flag of a boot status is checked against \<^verbatim>\<open>len\<close>.\<close>

definition boot_status_reader :: "status \<Rightarrow> status reader" where
  "boot_status_reader status =
     rbind (rneed 4) (\<lambda>_.
     rbind (rpeek 4) (\<lambda>t.
     let type_code = un_be32 t
     in if type_code \<noteq> 0 \<and> type_code \<noteq> 1 then rfail Malformed
        else
          rbind (radvance 4 4) (\<lambda>_.
          rbind read_string (\<lambda>message.
          rbind (read_bool 0) (\<lambda>backlog.
          rbind (read_bool 0) (\<lambda>boot_active.
          rreturn (status\<lparr>st_type := (if type_code = 0 then STATUS_INFO else STATUS_ERROR),
                          st_message := message, st_backlog := backlog,
                          st_boot_active := boot_active\<rparr>)))))))"

definition pb_protocol_deserialise_boot_status :: "status \<Rightarrow> pb_message \<Rightarrow> rd_err + status" where
  "pb_protocol_deserialise_boot_status status m = run_reader (boot_status_reader status) m"

text \<open>The link flag of an interface is neither checked against \<^verbatim>\<open>len\<close> nor taken off it.\<close>

definition interface_info_reader :: "interface_info reader" where
  "interface_info_reader =
     rbind read_u32 (\<lambda>hwaddr_size.
     rbind (rneed hwaddr_size) (\<lambda>_.
     rbind (rpeek (unat hwaddr_size)) (\<lambda>hwaddr.
     rbind (radvance hwaddr_size hwaddr_size) (\<lambda>_.
     rbind read_string (\<lambda>name.
     rbind (read_bool 0) (\<lambda>link.
     rbind read_string (\<lambda>address.
     rbind read_string (\<lambda>address_v6.
     rreturn \<lparr>ifi_hwaddr = map u8_of_char hwaddr, ifi_name = name, ifi_link = link,
              ifi_address = address, ifi_address_v6 = address_v6\<rparr>))))))))"

definition blockdev_info_reader :: "blockdev_info reader" where
  "blockdev_info_reader =
     rbind read_string (\<lambda>name.
     rbind read_string (\<lambda>uuid.
     rbind read_string (\<lambda>mountpoint.
     rreturn \<lparr>bd_name = name, bd_uuid = uuid, bd_mountpoint = mountpoint\<rparr>)))"

text \<open>The BMC address: \<^verbatim>\<open>pos[i]\<close> is compared with 0 until one byte differs, which copies all six; the
  field keeps its value when all are 0.  Either way six bytes are loaded, unchecked.\<close>

definition bmc_mac_reader :: "u8 list option \<Rightarrow> u8 list option reader" where
  "bmc_mac_reader old =
     rbind (rpeek HWADDR_SIZE) (\<lambda>mac.
     rbind (radvance (word_of_nat HWADDR_SIZE) (word_of_nat HWADDR_SIZE)) (\<lambda>_.
     rreturn (if list_ex (\<lambda>b. b \<noteq> NUL) mac then Some (map u8_of_char mac) else old)))"

text \<open>The strings of the version arrays are copied with \<^verbatim>\<open>talloc_strdup\<close>, which maps NULL to NULL.\<close>

definition system_info_reader :: "system_info \<Rightarrow> system_info reader" where
  "system_info_reader sysinfo =
     rbind read_string (\<lambda>type'.
     rbind read_string (\<lambda>identifier.
     rbind (read_array read_string) (\<lambda>primary.
     rbind (read_array read_string) (\<lambda>other.
     rbind (read_array read_string) (\<lambda>bmc_current.
     rbind (read_array read_string) (\<lambda>bmc_golden.
     rbind (read_array interface_info_reader) (\<lambda>interfaces.
     rbind (read_array blockdev_info_reader) (\<lambda>blockdevs.
     rbind (bmc_mac_reader (si_bmc_mac sysinfo)) (\<lambda>bmc_mac.
     rbind (read_bool 0) (\<lambda>fw_measurement.
     rbind (read_bool 0) (\<lambda>fw_enforcing.
     rbind (read_bool 0) (\<lambda>os_enforcing.
     rreturn (sysinfo\<lparr>si_type := type', si_identifier := identifier,
                      si_platform_primary := primary, si_platform_other := other,
                      si_bmc_current := bmc_current, si_bmc_golden := bmc_golden,
                      si_interfaces := interfaces, si_blockdevs := blockdevs,
                      si_bmc_mac := bmc_mac, si_stb_fw_measurement := fw_measurement,
                      si_stb_fw_enforcing := fw_enforcing,
                      si_stb_os_enforcing := os_enforcing\<rparr>)))))))))))))"

definition pb_protocol_deserialise_system_info ::
    "system_info \<Rightarrow> pb_message \<Rightarrow> rd_err + system_info" where
  "pb_protocol_deserialise_system_info sysinfo m = run_reader (system_info_reader sysinfo) m"

text \<open>An \<^verbatim>\<open>interface_config\<close> is allocated zeroed before it is filled in.\<close>

definition interface_config_zero :: interface_config where
  "interface_config_zero =
     \<lparr>ifc_hwaddr = replicate HWADDR_SIZE 0, ifc_ignore = False, ifc_method = CONFIG_METHOD_DHCP,
      ifc_address = None, ifc_gateway = None, ifc_url = None, ifc_override = False\<rparr>"

definition pb_protocol_deserialise_config_interface :: "interface_config reader" where
  "pb_protocol_deserialise_config_interface =
     rbind (rneed (word_of_nat HWADDR_SIZE)) (\<lambda>_.
     rbind (rpeek HWADDR_SIZE) (\<lambda>hwaddr.
     rbind (radvance (word_of_nat HWADDR_SIZE) (word_of_nat HWADDR_SIZE)) (\<lambda>_.
     rbind read_u32_bool (\<lambda>ignore.
     let iface = interface_config_zero\<lparr>ifc_hwaddr := map u8_of_char hwaddr, ifc_ignore := ignore\<rparr>
     in if ignore then rreturn iface
        else
          rbind read_u32 (\<lambda>method_code.
          let iface = iface\<lparr>ifc_method := config_method_of_code method_code\<rparr>
          in rbind
               (if method_code = 1
                then rbind read_string (\<lambda>address.
                     rbind read_string (\<lambda>gateway.
                     rbind read_string (\<lambda>url.
                     rreturn (iface\<lparr>ifc_address := address, ifc_gateway := gateway,
                                    ifc_url := url\<rparr>))))
                else rreturn iface) (\<lambda>iface.
             rbind read_u32_bool (\<lambda>override.
             rreturn (iface\<lparr>ifc_override := override\<rparr>))))))))"

text \<open>The members of the array are stored one by one, so a refused array faults as soon as the
  first \<^verbatim>\<open>boot_type\<close> has been read.\<close>

definition autoboot_opt_reader :: "bool \<Rightarrow> autoboot_option reader" where
  "autoboot_opt_reader array_null =
     rbind read_u32 (\<lambda>tmp.
     if array_null then rfail Null_deref
     else if tmp = 0 then rbind read_u32 (\<lambda>t. rreturn (BOOT_DEVICE_TYPE (device_type_of_code t)))
     else rbind read_string (\<lambda>str.
            rreturn (if tmp = 1 then BOOT_DEVICE_UUID str else BOOT_DEVICE_invalid tmp str)))"

definition autoboot_opts_reader :: "autoboot_option list reader" where
  "autoboot_opts_reader =
     rbind read_u32 (\<lambda>n.
     read_loop False (autoboot_opt_reader (talloc_array_refused AUTOBOOT_OPTION_SIZE n)) (unat n))"

definition config_reader :: "config \<Rightarrow> config reader" where
  "config_reader config =
     rbind read_u32_bool (\<lambda>autoboot_enabled.
     rbind read_u32 (\<lambda>timeout.
     rbind read_u32_bool (\<lambda>safe_mode.
     rbind (read_array pb_protocol_deserialise_config_interface) (\<lambda>interfaces.
     rbind (read_array read_string) (\<lambda>dns_servers.
     rbind read_string (\<lambda>http_proxy.
     rbind read_string (\<lambda>https_proxy.
     rbind autoboot_opts_reader (\<lambda>autoboot_opts.
     rbind read_u32 (\<lambda>bootdev.
     rbind read_u32_bool (\<lambda>persistent.
     rbind read_u32_bool (\<lambda>mailbox.
     rbind read_u32_bool (\<lambda>allow_writes.
     rbind (read_array read_string) (\<lambda>consoles.
     rbind read_string (\<lambda>boot_console.
     rbind read_u32_bool (\<lambda>manual_console.
     rbind read_string (\<lambda>lang.
     rbind read_u32_bool (\<lambda>preboot_check.
     rreturn (config\<lparr>cfg_autoboot_enabled := autoboot_enabled,
                     cfg_autoboot_timeout_sec := timeout, cfg_safe_mode := safe_mode,
                     cfg_network := \<lparr>net_interfaces = interfaces, net_dns_servers = dns_servers\<rparr>,
                     cfg_http_proxy := http_proxy, cfg_https_proxy := https_proxy,
                     cfg_autoboot_opts := autoboot_opts, cfg_ipmi_bootdev := bootdev,
                     cfg_ipmi_bootdev_persistent := persistent,
                     cfg_ipmi_bootdev_mailbox := mailbox, cfg_allow_writes := allow_writes,
                     cfg_consoles := consoles, cfg_boot_console := boot_console,
                     cfg_manual_console := manual_console, cfg_lang := lang,
                     cfg_preboot_check_enabled := preboot_check\<rparr>))))))))))))))))))"

definition pb_protocol_deserialise_config :: "config \<Rightarrow> pb_message \<Rightarrow> rd_err + config" where
  "pb_protocol_deserialise_config config m = run_reader (config_reader config) m"

text \<open>A refused array of executables is reported as a failure.\<close>

definition executables_reader :: "cstr list reader" where
  "executables_reader =
     rbind read_u32 (\<lambda>n.
     if talloc_array_refused PTR_SIZE n then rfail Malformed
     else read_loop False read_string (unat n))"

definition plugin_option_reader :: "plugin_option \<Rightarrow> plugin_option reader" where
  "plugin_option_reader opt =
     rbind read_string (\<lambda>id'.
     rbind read_string (\<lambda>name.
     rbind read_string (\<lambda>vendor.
     rbind read_string (\<lambda>vendor_id.
     rbind read_string (\<lambda>version.
     rbind read_string (\<lambda>date.
     rbind read_string (\<lambda>plugin_file.
     rbind executables_reader (\<lambda>executables.
     rreturn (opt\<lparr>plg_id := id', plg_name := name, plg_vendor := vendor,
                  plg_vendor_id := vendor_id, plg_version := version, plg_date := date,
                  plg_plugin_file := plugin_file, plg_executables := executables\<rparr>)))))))))"

definition pb_protocol_deserialise_plugin_option ::
    "plugin_option \<Rightarrow> pb_message \<Rightarrow> rd_err + plugin_option" where
  "pb_protocol_deserialise_plugin_option opt m = run_reader (plugin_option_reader opt) m"

definition temp_autoboot_reader :: "autoboot_option reader" where
  "temp_autoboot_reader =
     rbind read_u32 (\<lambda>tmp.
     if tmp = 0 then rbind read_u32 (\<lambda>t. rreturn (BOOT_DEVICE_TYPE (device_type_of_code t)))
     else if tmp = 1 then rbind read_string (\<lambda>str. rreturn (BOOT_DEVICE_UUID str))
     else rfail Malformed)"

definition pb_protocol_deserialise_temp_autoboot :: "pb_message \<Rightarrow> rd_err + autoboot_option" where
  "pb_protocol_deserialise_temp_autoboot m = run_reader temp_autoboot_reader m"

text \<open>The operation of an authentication message is neither checked against \<^verbatim>\<open>len\<close> nor taken off
  it, and the flag of a response is not checked.\<close>

definition auth_body_reader :: "u32 \<Rightarrow> auth_message reader" where
  "auth_body_reader op =
     (if op = 0 then rbind read_string (\<lambda>p. rreturn (AUTH_MSG_REQUEST p))
      else if op = 1 then rbind (read_bool 0) (\<lambda>b. rreturn (AUTH_MSG_RESPONSE b))
      else if op = 2 then
        rbind read_string (\<lambda>p. rbind read_string (\<lambda>q. rreturn (AUTH_MSG_SET p q)))
      else if op = 3 then
        rbind read_string (\<lambda>p. rbind read_string (\<lambda>d. rreturn (AUTH_MSG_DECRYPT p d)))
      else rfail Malformed)"

definition authenticate_reader :: "endian \<Rightarrow> auth_message reader" where
  "authenticate_reader e =
     rbind (rpeek 4) (\<lambda>o'. rbind (radvance 4 0) (\<lambda>_. auth_body_reader (un_host32 e o')))"

definition pb_protocol_deserialise_authenticate ::
    "endian \<Rightarrow> pb_message \<Rightarrow> rd_err + auth_message" where
  "pb_protocol_deserialise_authenticate e m = run_reader (authenticate_reader e) m"

end
