(* ===== verification/Protocol.thy ===== *)
theory Protocol
  imports Protocol_Deser
begin

text \<open>
  Whole messages of \<^verbatim>\<open>lib/pb-protocol/pb-protocol.c\<close>: creation, the transfer over a socket whose
  \<^verbatim>\<open>write\<close> and \<^verbatim>\<open>read\<close> calls may be short, and the round trips of every message type.  The
  codecs of the structures interpret the locale \<open>codec\<close> of the wire layer; what the receiver
  gets is the sender's value up to the normal form \<open>norm_\<dots>\<close>, in which an empty string has become
  NULL and members that are not transmitted have their initial values.
\<close>

section \<open>Creation and transfer\<close>

text \<open>\<open>mem\<close> is the indeterminate contents of the allocated payload.  For a negative length the
  allocation is either refused, so that the store of the header faults, or too small for the
  header.\<close>

definition pb_protocol_create_message ::
    "u32 \<Rightarrow> u32 \<Rightarrow> string \<Rightarrow> rd_err + pb_message option" where
  "pb_protocol_create_message action payload_len mem =
     (if int PB_PROTOCOL_MAX_PAYLOAD_SIZE < sint payload_len then Inr None
      else if sint payload_len < - 8 then Inl Null_deref
      else if sint payload_len < 0 then Inl Out_of_bounds
      else Inr (Some \<lparr>msg_action = action, msg_payload_len = payload_len, msg_payload = mem\<rparr>))"

text \<open>What a serialiser leaves in the payload of a message: its bytes, then the old contents.\<close>

definition store_payload :: "string \<Rightarrow> pb_message \<Rightarrow> pb_message" where
  "store_payload bs m = m\<lparr>msg_payload := bs @ drop (length bs) (msg_payload m)\<rparr>"

definition message_bytes :: "pb_message \<Rightarrow> string" where
  "message_bytes m = be32 (msg_action m) @ be32 (msg_payload_len m) @ msg_payload m"

text \<open>The results of the successive \<^verbatim>\<open>write\<close> calls come from the environment; a call beyond the
  list fails.  The result says whether everything was written, and what went out.\<close>

fun write_loop :: "int list \<Rightarrow> string \<Rightarrow> string \<Rightarrow> bool \<times> string" where
  "write_loop rcs [] out = (True, out)"
| "write_loop [] (x # xs) out = (False, out)"
| "write_loop (rc # rcs) (x # xs) out =
     (if rc \<le> 0 then (False, out)
      else write_loop rcs (drop (nat rc) (x # xs)) (out @ take (nat rc) (x # xs)))"

definition pb_protocol_write_message :: "int list \<Rightarrow> pb_message \<Rightarrow> bool \<times> string" where
  "pb_protocol_write_message rcs m = write_loop rcs (message_bytes m) []"

text \<open>One \<^verbatim>\<open>read\<close> of up to \<open>n\<close> bytes from a stream, of which the environment delivers at most
  \<open>k\<close>: nothing at all is an error or the end of the stream.\<close>

definition sys_read :: "nat \<Rightarrow> nat \<Rightarrow> string \<Rightarrow> string \<times> string" where
  "sys_read k n stream = (take (min k n) stream, drop (min k n) stream)"

fun read_payload :: "nat list \<Rightarrow> nat \<Rightarrow> string \<Rightarrow> string \<Rightarrow> (string \<times> string) option" where
  "read_payload ks 0 stream acc = Some (acc, stream)"
| "read_payload [] (Suc n) stream acc = None"
| "read_payload (k # ks) (Suc n) stream acc =
     (case sys_read k (Suc n) stream of
        (got, stream') \<Rightarrow>
          if got = [] then None
          else read_payload ks (Suc n - length got) stream' (acc @ got))"

definition pb_protocol_read_message ::
    "nat list \<Rightarrow> string \<Rightarrow> (pb_message \<times> string) option" where
  "pb_protocol_read_message ks stream =
     (case ks of
        [] \<Rightarrow> None
      | k # ks' \<Rightarrow>
          (case sys_read k 8 stream of
             (m, stream') \<Rightarrow>
               if length m \<noteq> 8 then None
               else
                 (let action = un_be32 (take 4 m); payload_len = un_be32 (drop 4 m)
                  in if PB_PROTOCOL_MAX_PAYLOAD_SIZE < unat payload_len then None
                     else (case read_payload ks' (unat payload_len) stream' [] of
                             None \<Rightarrow> None
                           | Some (payload, rest) \<Rightarrow>
                               Some (\<lparr>msg_action = action, msg_payload_len = payload_len,
                                      msg_payload = payload\<rparr>, rest)))))"

section \<open>Reader steps\<close>

lemma step_string [reads_steps]:
  "ready c (ser_str s @ bs) \<Longrightarrow> wf_str s \<Longrightarrow>
     (\<And>c'. ready c' bs \<Longrightarrow> cbuf c' = cbuf c \<Longrightarrow> reads (k (norm_str s)) c' bs' y) \<Longrightarrow>
     reads (rbind read_string k) c bs' y"
  by (rule reads_bind[OF reads_string])

lemma step_u32 [reads_steps]:
  "ready c (be32 w @ bs) \<Longrightarrow>
     (\<And>c'. ready c' bs \<Longrightarrow> cbuf c' = cbuf c \<Longrightarrow> reads (k w) c' bs' y) \<Longrightarrow>
     reads (rbind read_u32 k) c bs' y"
  by (rule reads_bind[OF reads_u32])

lemma step_u32_bool [reads_steps]:
  "ready c (ser_u32_bool e b @ bs) \<Longrightarrow>
     (\<And>c'. ready c' bs \<Longrightarrow> cbuf c' = cbuf c \<Longrightarrow> reads (k b) c' bs' y) \<Longrightarrow>
     reads (rbind read_u32_bool k) c bs' y"
  by (rule reads_bind[OF reads_u32_bool])

lemma step_bool0 [reads_steps]:
  "ready c (ser_bool b @ bs) \<Longrightarrow>
     (\<And>c'. ready c' bs \<Longrightarrow> cbuf c' = cbuf c \<Longrightarrow> reads (k b) c' bs' y) \<Longrightarrow>
     reads (rbind (read_bool 0) k) c bs' y"
  by (rule reads_bind[OF reads_bool]) simp_all

lemma step_bool1 [reads_steps]:
  "ready c (ser_bool b @ bs) \<Longrightarrow>
     (\<And>c'. ready c' bs \<Longrightarrow> cbuf c' = cbuf c \<Longrightarrow> reads (k b) c' bs' y) \<Longrightarrow>
     reads (rbind (read_bool 1) k) c bs' y"
  by (rule reads_bind[OF reads_bool]) simp_all

lemma step_host32 [reads_steps]:
  assumes "ready c (host32 e w @ bs)"
    and "\<And>c'. ready c' bs \<Longrightarrow> cbuf c' = cbuf c \<Longrightarrow> reads (k (host32 e w)) c' bs' y"
  shows "reads (rbind (rneed 4) (\<lambda>_. rbind (rpeek 4) (\<lambda>t. rbind (radvance 4 4) (\<lambda>_. k t)))) c bs' y"
proof -
  have adv: "reads (radvance 4 4) c' bs ()" if "ready c' (host32 e w @ bs)" for c'
    using that by (rule reads_advance) simp_all
  show ?thesis
    by (rule reads_bind[OF reads_need[OF assms(1)]], simp,
        rule reads_bind[OF reads_peek], assumption, simp,
        rule reads_bind[OF adv], assumption) (rule assms(2); simp)
qed

lemma step_need [reads_steps]:
  "ready c bs \<Longrightarrow> unat n \<le> length bs \<Longrightarrow>
     (\<And>c'. ready c' bs \<Longrightarrow> cbuf c' = cbuf c \<Longrightarrow> reads (k ()) c' bs' y) \<Longrightarrow>
     reads (rbind (rneed n) k) c bs' y"
  by (rule reads_bind[OF reads_need])

lemma step_bytes:
  assumes "ready c (h @ bs)" and "length h = n" and "unat w = n" and "unat v \<le> n"
    and "\<And>c'. ready c' bs \<Longrightarrow> cbuf c' = cbuf c \<Longrightarrow> reads (k h) c' bs' y"
  shows "reads (rbind (rpeek n) (\<lambda>t. rbind (radvance w v) (\<lambda>_. k t))) c bs' y"
proof -
  have adv: "reads (radvance w v) c' bs ()" if "ready c' (h @ bs)" for c'
    using that assms(2-4) by (intro reads_advance) simp_all
  show ?thesis
    by (rule reads_bind[OF reads_peek[OF assms(1,2)]], rule reads_bind[OF adv], assumption)
       (rule assms(5); simp)
qed

section \<open>Values that survive the transfer, and their normal forms\<close>

definition wf_device :: "device \<Rightarrow> bool" where
  "wf_device d \<longleftrightarrow>
     wf_str (dev_id d) \<and> wf_device_type (dev_type d) \<and> wf_str (dev_name d) \<and>
     wf_str (dev_description d) \<and> wf_str (dev_icon_file d)"

definition norm_device :: "device \<Rightarrow> device" where
  "norm_device d =
     \<lparr>dev_id = norm_str (dev_id d), dev_type = dev_type d, dev_name = norm_str (dev_name d),
      dev_description = norm_str (dev_description d), dev_icon_file = norm_str (dev_icon_file d)\<rparr>"

fun wf_option_type :: "option_type \<Rightarrow> bool" where
  "wf_option_type (DISCOVER_invalid w) \<longleftrightarrow> 1 < w"
| "wf_option_type _ \<longleftrightarrow> True"

definition wf_boot_option :: "boot_option \<Rightarrow> bool" where
  "wf_boot_option b \<longleftrightarrow>
     wf_str (opt_device_id b) \<and> wf_str (opt_id b) \<and> wf_str (opt_name b) \<and>
     wf_str (opt_description b) \<and> wf_str (opt_icon_file b) \<and> wf_str (opt_boot_image_file b) \<and>
     wf_str (opt_initrd_file b) \<and> wf_str (opt_dtb_file b) \<and> wf_str (opt_boot_args b) \<and>
     wf_str (opt_args_sig_file b) \<and> wf_option_type (opt_type b)"

definition norm_boot_option :: "boot_option \<Rightarrow> boot_option" where
  "norm_boot_option b =
     \<lparr>opt_device_id = norm_str (opt_device_id b), opt_id = norm_str (opt_id b),
      opt_name = norm_str (opt_name b), opt_description = norm_str (opt_description b),
      opt_icon_file = norm_str (opt_icon_file b),
      opt_boot_image_file = norm_str (opt_boot_image_file b),
      opt_initrd_file = norm_str (opt_initrd_file b), opt_dtb_file = norm_str (opt_dtb_file b),
      opt_boot_args = norm_str (opt_boot_args b),
      opt_args_sig_file = norm_str (opt_args_sig_file b), opt_is_default = opt_is_default b,
      opt_is_autoboot_default = opt_is_autoboot_default b, opt_type = opt_type b\<rparr>"

definition wf_boot_command :: "boot_command \<Rightarrow> bool" where
  "wf_boot_command b \<longleftrightarrow>
     wf_str (cmd_option_id b) \<and> wf_str (cmd_boot_image_file b) \<and> wf_str (cmd_initrd_file b) \<and>
     wf_str (cmd_dtb_file b) \<and> wf_str (cmd_boot_args b) \<and> wf_str (cmd_args_sig_file b) \<and>
     wf_str (cmd_console b)"

definition norm_boot_command :: "boot_command \<Rightarrow> boot_command" where
  "norm_boot_command b =
     \<lparr>cmd_option_id = norm_str (cmd_option_id b),
      cmd_boot_image_file = norm_str (cmd_boot_image_file b),
      cmd_initrd_file = norm_str (cmd_initrd_file b), cmd_dtb_file = norm_str (cmd_dtb_file b),
      cmd_boot_args = norm_str (cmd_boot_args b),
      cmd_args_sig_file = norm_str (cmd_args_sig_file b), cmd_console = norm_str (cmd_console b)\<rparr>"

definition wf_status :: "status \<Rightarrow> bool" where
  "wf_status s \<longleftrightarrow> st_type s \<in> {STATUS_INFO, STATUS_ERROR} \<and> wf_str (st_message s)"

definition norm_status :: "status \<Rightarrow> status" where
  "norm_status s = s\<lparr>st_message := norm_str (st_message s)\<rparr>"

definition wf_interface_info :: "interface_info \<Rightarrow> bool" where
  "wf_interface_info i \<longleftrightarrow>
     wf_str (ifi_name i) \<and> wf_str (ifi_address i) \<and> wf_str (ifi_address_v6 i)"

definition norm_interface_info :: "interface_info \<Rightarrow> interface_info" where
  "norm_interface_info i =
     i\<lparr>ifi_name := norm_str (ifi_name i), ifi_address := norm_str (ifi_address i),
       ifi_address_v6 := norm_str (ifi_address_v6 i)\<rparr>"

definition wf_blockdev_info :: "blockdev_info \<Rightarrow> bool" where
  "wf_blockdev_info b \<longleftrightarrow> wf_str (bd_name b) \<and> wf_str (bd_uuid b) \<and> wf_str (bd_mountpoint b)"

definition norm_blockdev_info :: "blockdev_info \<Rightarrow> blockdev_info" where
  "norm_blockdev_info b =
     \<lparr>bd_name = norm_str (bd_name b), bd_uuid = norm_str (bd_uuid b),
      bd_mountpoint = norm_str (bd_mountpoint b)\<rparr>"

text \<open>An address of zeros is taken for none, and leaves the receiver's field alone.\<close>

definition norm_bmc_mac :: "u8 list option \<Rightarrow> u8 list option \<Rightarrow> u8 list option" where
  "norm_bmc_mac old mac =
     (case mac of
        Some m \<Rightarrow> if list_ex (\<lambda>b. b \<noteq> 0) m then Some m else old
      | None \<Rightarrow> old)"

definition wf_system_info :: "system_info \<Rightarrow> bool" where
  "wf_system_info s \<longleftrightarrow>
     wf_str (si_type s) \<and> wf_str (si_identifier s) \<and>
     list_all wf_str (si_platform_primary s) \<and> list_all wf_str (si_platform_other s) \<and>
     list_all wf_str (si_bmc_current s) \<and> list_all wf_str (si_bmc_golden s) \<and>
     list_all wf_interface_info (si_interfaces s) \<and> list_all wf_blockdev_info (si_blockdevs s) \<and>
     wf_bmc_mac (si_bmc_mac s)"

definition norm_system_info :: "system_info \<Rightarrow> system_info \<Rightarrow> system_info" where
  "norm_system_info s0 s =
     s\<lparr>si_type := norm_str (si_type s), si_identifier := norm_str (si_identifier s),
       si_platform_primary := map norm_str (si_platform_primary s),
       si_platform_other := map norm_str (si_platform_other s),
       si_bmc_current := map norm_str (si_bmc_current s),
       si_bmc_golden := map norm_str (si_bmc_golden s),
       si_interfaces := map norm_interface_info (si_interfaces s),
       si_blockdevs := map norm_blockdev_info (si_blockdevs s),
       si_bmc_mac := norm_bmc_mac (si_bmc_mac s0) (si_bmc_mac s)\<rparr>"

fun wf_config_method :: "config_method \<Rightarrow> bool" where
  "wf_config_method (CONFIG_METHOD_invalid w) \<longleftrightarrow> 1 < w"
| "wf_config_method _ \<longleftrightarrow> True"

definition wf_interface_config :: "interface_config \<Rightarrow> bool" where
  "wf_interface_config c \<longleftrightarrow>
     length (ifc_hwaddr c) = HWADDR_SIZE \<and> wf_config_method (ifc_method c) \<and>
     wf_str (ifc_address c) \<and> wf_str (ifc_gateway c) \<and> wf_str (ifc_url c)"

text \<open>Nothing but the address follows the flag of an ignored interface, and a DHCP interface has
  no static settings.\<close>

definition norm_interface_config :: "interface_config \<Rightarrow> interface_config" where
  "norm_interface_config c =
     (if ifc_ignore c
      then interface_config_zero\<lparr>ifc_hwaddr := ifc_hwaddr c, ifc_ignore := True\<rparr>
      else if ifc_method c = CONFIG_METHOD_STATIC
      then c\<lparr>ifc_address := norm_str (ifc_address c), ifc_gateway := norm_str (ifc_gateway c),
             ifc_url := norm_str (ifc_url c)\<rparr>
      else c\<lparr>ifc_address := None, ifc_gateway := None, ifc_url := None\<rparr>)"

fun wf_autoboot_opt :: "autoboot_option \<Rightarrow> bool" where
  "wf_autoboot_opt (BOOT_DEVICE_TYPE t) \<longleftrightarrow> wf_device_type t"
| "wf_autoboot_opt (BOOT_DEVICE_UUID u) \<longleftrightarrow> wf_str u"
| "wf_autoboot_opt (BOOT_DEVICE_invalid w u) \<longleftrightarrow> 1 < w \<and> wf_str u"

fun norm_autoboot_opt :: "autoboot_option \<Rightarrow> autoboot_option" where
  "norm_autoboot_opt (BOOT_DEVICE_TYPE t) = BOOT_DEVICE_TYPE t"
| "norm_autoboot_opt (BOOT_DEVICE_UUID u) = BOOT_DEVICE_UUID (norm_str u)"
| "norm_autoboot_opt (BOOT_DEVICE_invalid w u) = BOOT_DEVICE_invalid w (norm_str u)"

definition wf_config :: "config \<Rightarrow> bool" where
  "wf_config c \<longleftrightarrow>
     list_all wf_interface_config (net_interfaces (cfg_network c)) \<and>
     list_all wf_str (net_dns_servers (cfg_network c)) \<and>
     wf_str (cfg_http_proxy c) \<and> wf_str (cfg_https_proxy c) \<and>
     list_all wf_autoboot_opt (cfg_autoboot_opts c) \<and>
     list_all wf_str (cfg_consoles c) \<and> wf_str (cfg_boot_console c) \<and> wf_str (cfg_lang c)"

text \<open>\<^verbatim>\<open>disable_snapshots\<close> and \<^verbatim>\<open>debug\<close> are not transmitted: the receiver keeps its own.\<close>

definition norm_config :: "config \<Rightarrow> config \<Rightarrow> config" where
  "norm_config c0 c =
     c\<lparr>cfg_network :=
         \<lparr>net_interfaces = map norm_interface_config (net_interfaces (cfg_network c)),
          net_dns_servers = map norm_str (net_dns_servers (cfg_network c))\<rparr>,
       cfg_http_proxy := norm_str (cfg_http_proxy c),
       cfg_https_proxy := norm_str (cfg_https_proxy c),
       cfg_autoboot_opts := map norm_autoboot_opt (cfg_autoboot_opts c),
       cfg_consoles := map norm_str (cfg_consoles c),
       cfg_boot_console := norm_str (cfg_boot_console c), cfg_lang := norm_str (cfg_lang c),
       cfg_disable_snapshots := cfg_disable_snapshots c0, cfg_debug := cfg_debug c0\<rparr>"

definition wf_plugin_option :: "plugin_option \<Rightarrow> bool" where
  "wf_plugin_option p \<longleftrightarrow>
     wf_str (plg_id p) \<and> wf_str (plg_name p) \<and> wf_str (plg_vendor p) \<and> wf_str (plg_vendor_id p) \<and>
     wf_str (plg_version p) \<and> wf_str (plg_date p) \<and> wf_str (plg_plugin_file p) \<and>
     list_all wf_str (plg_executables p)"

definition norm_plugin_option :: "plugin_option \<Rightarrow> plugin_option" where
  "norm_plugin_option p =
     \<lparr>plg_id = norm_str (plg_id p), plg_name = norm_str (plg_name p),
      plg_vendor = norm_str (plg_vendor p), plg_vendor_id = norm_str (plg_vendor_id p),
      plg_version = norm_str (plg_version p), plg_date = norm_str (plg_date p),
      plg_plugin_file = norm_str (plg_plugin_file p),
      plg_executables = map norm_str (plg_executables p)\<rparr>"

fun wf_auth :: "auth_message \<Rightarrow> bool" where
  "wf_auth (AUTH_MSG_REQUEST p) \<longleftrightarrow> wf_str p"
| "wf_auth (AUTH_MSG_RESPONSE b) \<longleftrightarrow> True"
| "wf_auth (AUTH_MSG_SET p q) \<longleftrightarrow> wf_str p \<and> wf_str q"
| "wf_auth (AUTH_MSG_DECRYPT p d) \<longleftrightarrow> wf_str p \<and> wf_str d"
| "wf_auth (AUTH_MSG_invalid w) \<longleftrightarrow> False"

fun norm_auth :: "auth_message \<Rightarrow> auth_message" where
  "norm_auth (AUTH_MSG_REQUEST p) = AUTH_MSG_REQUEST (norm_str p)"
| "norm_auth (AUTH_MSG_RESPONSE b) = AUTH_MSG_RESPONSE b"
| "norm_auth (AUTH_MSG_SET p q) = AUTH_MSG_SET (norm_str p) (norm_str q)"
| "norm_auth (AUTH_MSG_DECRYPT p d) = AUTH_MSG_DECRYPT (norm_str p) (norm_str d)"
| "norm_auth (AUTH_MSG_invalid w) = AUTH_MSG_invalid w"

section \<open>Field by field\<close>

lemma ser_str_nonempty [simp]: "ser_str s \<noteq> []"
  by (simp add: pb_protocol_serialise_string_def be32_def Let_def)

lemma be32_nonempty [simp]: "be32 w \<noteq> []"
  by (simp add: be32_def Let_def)

lemma reads_device:
  "ready c (device_bytes e d @ bs) \<Longrightarrow> wf_device d \<Longrightarrow>
     reads (device_reader e d0) c bs (norm_device d)"
  unfolding device_bytes_def device_reader_def wf_device_def
  by (auto elim!: reads_steps intro!: reads_return simp: norm_device_def)

lemma option_type_of_code_code [simp]:
  "wf_option_type t \<Longrightarrow> option_type_of_code (option_type_code t) = t"
  by (cases t) (auto simp: option_type_of_code_def)

lemma reads_boot_command:
  "ready c (boot_command_bytes b @ bs) \<Longrightarrow> wf_boot_command b \<Longrightarrow>
     reads (boot_command_reader b0) c bs (norm_boot_command b)"
  unfolding boot_command_bytes_def boot_command_reader_def wf_boot_command_def
  by (auto elim!: reads_steps intro!: reads_return simp: norm_boot_command_def)

lemma reads_blockdev_info:
  "ready c (blockdev_info_bytes b @ bs) \<Longrightarrow> wf_blockdev_info b \<Longrightarrow>
     reads blockdev_info_reader c bs (norm_blockdev_info b)"
  unfolding blockdev_info_bytes_def blockdev_info_reader_def wf_blockdev_info_def
  by (auto elim!: reads_steps intro!: reads_return simp: norm_blockdev_info_def)

lemma reads_within:
  "ready c bs \<Longrightarrow> length (cbuf c) \<le> unat n \<Longrightarrow> x = y \<Longrightarrow>
     reads (\<lambda>c. if cpos c \<le> unat n then Inr (x, c) else Inl Malformed) c bs y"
  using ready_Nil_pos[of c bs] by (simp add: reads_def)

lemma reads_boot_option:
  "ready c (boot_option_bytes b @ bs) \<Longrightarrow> wf_boot_option b \<Longrightarrow>
     length (cbuf c) \<le> unat n \<Longrightarrow>
     reads (boot_option_reader n b0) c bs (norm_boot_option b)"
  unfolding boot_option_bytes_def boot_option_reader_def wf_boot_option_def
  by (auto elim!: reads_steps intro!: reads_within simp: norm_boot_option_def)

lemma reads_status:
  assumes "ready c (boot_status_bytes s @ bs)" and "wf_status s"
  shows "reads (boot_status_reader s0) c bs (norm_status s)"
proof -
  let ?t = "be32 (status_type_code (st_type s))"
  let ?rest = "ser_str (st_message s) @ ser_bool (st_backlog s) @ ser_bool (st_boot_active s) @ bs"
  have rdy: "ready c (?t @ ?rest)" using assms(1) by (simp add: boot_status_bytes_def)
  have adv: "reads (radvance 4 4) c' ?rest ()" if "ready c' (?t @ ?rest)" for c'
    using that by (rule reads_advance) simp_all
  from assms(2) show ?thesis
    unfolding boot_status_reader_def wf_status_def
    by (intro reads_bind[OF reads_need[OF rdy]] reads_bind[OF reads_peek])
       (auto simp: norm_status_def intro!: reads_bind[OF adv] reads_return elim!: reads_steps)
qed

lemma reads_interface_info:
  assumes "ready c (interface_info_bytes i @ bs)" and "wf_interface_info i"
  shows "reads interface_info_reader c bs (norm_interface_info i)"
proof -
  let ?n = "word_of_nat (length (ifi_hwaddr i)) :: u32"
  let ?h = "map char_of_u8 (ifi_hwaddr i)"
  have "length (ifi_hwaddr i) \<le> PB_PROTOCOL_MAX_PAYLOAD_SIZE"
    using assms(1) by (auto simp: ready_def interface_info_bytes_def)
  then have n: "unat ?n = length (ifi_hwaddr i)"
    by (simp add: PB_PROTOCOL_MAX_PAYLOAD_SIZE_def unat_of_nat)
  from assms show ?thesis
    unfolding interface_info_bytes_def interface_info_reader_def wf_interface_info_def
    by (auto elim!: reads_steps step_bytes[of _ ?h] intro!: reads_return
        simp: norm_interface_info_def n comp_def)
qed

lemma char_of_u8_NUL [simp]: "char_of_u8 b = NUL \<longleftrightarrow> b = 0"
proof -
  have "u8_of_char NUL = 0" by (simp add: u8_of_char_def)
  then show ?thesis by (metis char_of_u8_of_char u8_of_char_of_u8)
qed

lemma reads_bmc_mac:
  assumes "ready c (bmc_mac_bytes mac @ bs)" and "wf_bmc_mac mac"
  shows "reads (bmc_mac_reader old) c bs (norm_bmc_mac old mac)"
proof -
  let ?h = "bmc_mac_bytes mac"
  have val: "(if list_ex (\<lambda>b. b \<noteq> NUL) ?h then Some (map u8_of_char ?h) else old) =
             norm_bmc_mac old mac"
    using assms(2) by (auto simp: norm_bmc_mac_def bmc_mac_bytes_def wf_bmc_mac_def list_ex_iff
        comp_def split: option.splits)
  show ?thesis unfolding bmc_mac_reader_def
    by (rule step_bytes[OF assms(1) bmc_mac_length[OF assms(2)]])
       (simp_all add: val HWADDR_SIZE_def reads_return)
qed

lemma config_method_of_code_code [simp]:
  "wf_config_method t \<Longrightarrow> config_method_of_code (config_method_code t) = t"
  by (cases t) (auto simp: config_method_of_code_def)

lemma config_method_of_code_1 [simp]: "config_method_of_code 1 = CONFIG_METHOD_STATIC"
  by (simp add: config_method_of_code_def)

lemma config_method_code_static [simp]:
  "wf_config_method t \<Longrightarrow> config_method_code t = 1 \<longleftrightarrow> t = CONFIG_METHOD_STATIC"
  by (cases t) auto

lemma reads_interface_config:
  assumes "ready c (pb_protocol_serialise_config_interface e i @ bs)" and "wf_interface_config i"
  shows "reads pb_protocol_deserialise_config_interface c bs (norm_interface_config i)"
proof -
  let ?h = "map char_of_u8 (ifc_hwaddr i)"
  have h: "length ?h = HWADDR_SIZE" using assms(2) by (simp add: wf_interface_config_def)
  from assms h show ?thesis
    unfolding pb_protocol_serialise_config_interface_def
      pb_protocol_deserialise_config_interface_def wf_interface_config_def
    by (auto elim!: reads_steps step_bytes[of _ ?h] intro!: reads_return
        simp: norm_interface_config_def interface_config_zero_def comp_def HWADDR_SIZE_def Let_def)
qed


lemma reads_autoboot_opt:
  "ready c (autoboot_opt_bytes opt @ bs) \<Longrightarrow> wf_autoboot_opt opt \<Longrightarrow>
     reads (autoboot_opt_reader False) c bs (norm_autoboot_opt opt)"
  unfolding autoboot_opt_bytes_def autoboot_opt_reader_def
  by (cases opt) (auto elim!: reads_steps intro!: reads_return)

lemma reads_temp_autoboot:
  "ready c (autoboot_opt_bytes opt @ bs) \<Longrightarrow> wf_autoboot_opt opt \<Longrightarrow>
     boot_type_code opt \<le> 1 \<Longrightarrow> reads temp_autoboot_reader c bs (norm_autoboot_opt opt)"
  unfolding autoboot_opt_bytes_def temp_autoboot_reader_def
  by (cases opt) (auto elim!: reads_steps intro!: reads_return)

lemma reads_authenticate:
  assumes "authenticate_bytes e msg = Some enc" and "ready c (enc @ bs)" and "wf_auth msg"
  shows "reads (authenticate_reader e) c bs (norm_auth msg)"
proof -
  let ?op = "host32 e (auth_op_code msg)"
  obtain body where enc: "enc = ?op @ body"
    and body: "body = (case msg of
        AUTH_MSG_REQUEST p \<Rightarrow> ser_str p | AUTH_MSG_RESPONSE b \<Rightarrow> ser_bool b
      | AUTH_MSG_SET p q \<Rightarrow> ser_str p @ ser_str q
      | AUTH_MSG_DECRYPT p d \<Rightarrow> ser_str p @ ser_str d | AUTH_MSG_invalid w \<Rightarrow> [])"
    using assms(1,3) by (cases msg) (auto simp: authenticate_bytes_def)
  have rdy: "ready c (?op @ (body @ bs))" using assms(2) enc by simp
  have rest: "reads (auth_body_reader (auth_op_code msg)) c' bs (norm_auth msg)"
    if "ready c' (body @ bs)" for c'
    using that assms(3) body unfolding auth_body_reader_def
    by (cases msg) (auto elim!: reads_steps intro!: reads_return)
  show ?thesis unfolding authenticate_reader_def
    by (rule step_bytes[OF rdy]) (simp_all add: rest)
qed

section \<open>Codecs\<close>

interpretation ifi: codec interface_info_bytes interface_info_reader norm_interface_info
  wf_interface_info
  by unfold_locales (simp add: interface_info_bytes_def, rule reads_interface_info)

interpretation bdi: codec blockdev_info_bytes blockdev_info_reader norm_blockdev_info
  wf_blockdev_info
  by unfold_locales (simp add: blockdev_info_bytes_def, rule reads_blockdev_info)

interpretation ifc: codec "pb_protocol_serialise_config_interface e"
  pb_protocol_deserialise_config_interface norm_interface_config wf_interface_config for e
proof unfold_locales
  fix x :: interface_config
  have "ser_u32_bool e (ifc_ignore x) \<noteq> []"
    using nbytes_ser_u32_bool[of e "ifc_ignore x"] by auto
  then show "pb_protocol_serialise_config_interface e x \<noteq> []"
    by (simp add: pb_protocol_serialise_config_interface_def)
qed (rule reads_interface_config)

interpretation abo: codec autoboot_opt_bytes "autoboot_opt_reader False" norm_autoboot_opt
  wf_autoboot_opt
  by unfold_locales (simp add: autoboot_opt_bytes_def, rule reads_autoboot_opt)

interpretation devc: codec "device_bytes e" "device_reader e d0" norm_device wf_device for e d0
  by unfold_locales (simp add: device_bytes_def, rule reads_device)

interpretation cmdc: codec boot_command_bytes "boot_command_reader b0" norm_boot_command
  wf_boot_command for b0
  by unfold_locales (simp add: boot_command_bytes_def, rule reads_boot_command)

interpretation statc: codec boot_status_bytes "boot_status_reader s0" norm_status wf_status for s0
  by unfold_locales (simp add: boot_status_bytes_def, rule reads_status)

lemma step_strings [reads_steps]:
  "ready c (ser_array ser_str ss @ bs) \<Longrightarrow> list_all wf_str ss \<Longrightarrow>
     (\<And>c'. ready c' bs \<Longrightarrow> cbuf c' = cbuf c \<Longrightarrow> reads (k (map norm_str ss)) c' bs' y) \<Longrightarrow>
     reads (rbind (read_array read_string) k) c bs' y"
  by (rule reads_bind[OF str.array_enc])

lemma step_interface_infos [reads_steps]:
  "ready c (ser_array interface_info_bytes xs @ bs) \<Longrightarrow> list_all wf_interface_info xs \<Longrightarrow>
     (\<And>c'. ready c' bs \<Longrightarrow> cbuf c' = cbuf c \<Longrightarrow> reads (k (map norm_interface_info xs)) c' bs' y) \<Longrightarrow>
     reads (rbind (read_array interface_info_reader) k) c bs' y"
  by (rule reads_bind[OF ifi.array_enc])

lemma step_blockdev_infos [reads_steps]:
  "ready c (ser_array blockdev_info_bytes xs @ bs) \<Longrightarrow> list_all wf_blockdev_info xs \<Longrightarrow>
     (\<And>c'. ready c' bs \<Longrightarrow> cbuf c' = cbuf c \<Longrightarrow> reads (k (map norm_blockdev_info xs)) c' bs' y) \<Longrightarrow>
     reads (rbind (read_array blockdev_info_reader) k) c bs' y"
  by (rule reads_bind[OF bdi.array_enc])

lemma step_interface_configs [reads_steps]:
  "ready c (ser_array (pb_protocol_serialise_config_interface e) xs @ bs) \<Longrightarrow>
     list_all wf_interface_config xs \<Longrightarrow>
     (\<And>c'. ready c' bs \<Longrightarrow> cbuf c' = cbuf c \<Longrightarrow> reads (k (map norm_interface_config xs)) c' bs' y) \<Longrightarrow>
     reads (rbind (read_array pb_protocol_deserialise_config_interface) k) c bs' y"
  by (rule reads_bind[OF ifc.array_enc])

lemma step_bmc_mac [reads_steps]:
  "ready c (bmc_mac_bytes mac @ bs) \<Longrightarrow> wf_bmc_mac mac \<Longrightarrow>
     (\<And>c'. ready c' bs \<Longrightarrow> cbuf c' = cbuf c \<Longrightarrow> reads (k (norm_bmc_mac old mac)) c' bs' y) \<Longrightarrow>
     reads (rbind (bmc_mac_reader old) k) c bs' y"
  by (rule reads_bind[OF reads_bmc_mac])


lemma step_autoboot_opts [reads_steps]:
  assumes "ready c (ser_array autoboot_opt_bytes xs @ bs)" and "list_all wf_autoboot_opt xs"
    and "\<And>c'. ready c' bs \<Longrightarrow> cbuf c' = cbuf c \<Longrightarrow> reads (k (map norm_autoboot_opt xs)) c' bs' y"
  shows "reads (rbind autoboot_opts_reader k) c bs' y"
proof -
  have "reads autoboot_opts_reader c bs (map norm_autoboot_opt xs)"
    using assms(1) abo.array_count(1,3)[OF assms(1)] abo.loop_enc[OF _ assms(2)]
    unfolding autoboot_opts_reader_def ser_array_def by (auto elim!: step_u32)
  then show ?thesis by (rule reads_bind) (rule assms(3))
qed

lemma step_executables [reads_steps]:
  assumes "ready c (ser_array ser_str xs @ bs)" and "list_all wf_str xs"
    and "\<And>c'. ready c' bs \<Longrightarrow> cbuf c' = cbuf c \<Longrightarrow> reads (k (map norm_str xs)) c' bs' y"
  shows "reads (rbind executables_reader k) c bs' y"
proof -
  have "reads executables_reader c bs (map norm_str xs)"
    using assms(1) str.array_count(1,2)[OF assms(1)] str.loop_enc[OF _ assms(2)]
    unfolding executables_reader_def ser_array_def by (auto elim!: step_u32)
  then show ?thesis by (rule reads_bind) (rule assms(3))
qed

lemma reads_system_info:
  "ready c (system_info_bytes s @ bs) \<Longrightarrow> wf_system_info s \<Longrightarrow>
     reads (system_info_reader s0) c bs (norm_system_info s0 s)"
  unfolding system_info_bytes_def system_info_reader_def wf_system_info_def
  by (auto elim!: reads_steps intro!: reads_return simp: norm_system_info_def)

lemma reads_config:
  "ready c (config_bytes e cfg @ bs) \<Longrightarrow> wf_config cfg \<Longrightarrow>
     reads (config_reader cfg0) c bs (norm_config cfg0 cfg)"
  unfolding config_bytes_def config_reader_def wf_config_def
  by (auto elim!: reads_steps intro!: reads_return simp: norm_config_def)

lemma reads_plugin_option:
  "ready c (plugin_option_bytes p @ bs) \<Longrightarrow> wf_plugin_option p \<Longrightarrow>
     reads (plugin_option_reader p0) c bs (norm_plugin_option p)"
  unfolding plugin_option_bytes_def plugin_option_reader_def wf_plugin_option_def
  by (auto elim!: reads_steps intro!: reads_return simp: norm_plugin_option_def)

interpretation sysc: codec system_info_bytes "system_info_reader s0" "norm_system_info s0"
  wf_system_info for s0
  by unfold_locales (simp add: system_info_bytes_def, rule reads_system_info)

interpretation cfgc: codec "config_bytes e" "config_reader c0" "norm_config c0" wf_config for e c0
proof unfold_locales
  fix x :: config
  have "ser_u32_bool e (cfg_autoboot_enabled x) \<noteq> []"
    using nbytes_ser_u32_bool[of e "cfg_autoboot_enabled x"] by auto
  then show "config_bytes e x \<noteq> []" by (simp add: config_bytes_def)
qed (rule reads_config)

interpretation plgc: codec plugin_option_bytes "plugin_option_reader p0" norm_plugin_option
  wf_plugin_option for p0
  by unfold_locales (simp add: plugin_option_bytes_def, rule reads_plugin_option)

end
