(* ===== verification/Messages.thy ===== *)
theory Messages
  imports Protocol
begin

text \<open>
  What the message layer guarantees: a message survives the socket, every structure that one side
  serialises is recovered by the other, and which payloads the deserialisers can be trusted with.
  The round trips rest on the interpretations of \<open>codec\<close> for the structures.
\<close>

section \<open>Messages\<close>

text \<open>A message whose payload has the announced length, of an acceptable size.\<close>

definition wf_message :: "pb_message \<Rightarrow> bool" where
  "wf_message m \<longleftrightarrow>
     length (msg_payload m) = unat (msg_payload_len m) \<and>
     length (msg_payload m) \<le> PB_PROTOCOL_MAX_PAYLOAD_SIZE"

lemma ready_message:
  "wf_message m \<Longrightarrow> msg_payload m = bs @ junk \<Longrightarrow> ready (msg_cursor m) bs"
  unfolding ready_def msg_cursor_def wf_message_def
  by (auto intro!: exI[of _ "[]"] exI[of _ junk])

lemma run_reader_reads: "reads r (msg_cursor m) bs x \<Longrightarrow> run_reader r m = Inr x"
  by (auto simp: reads_def run_reader_def)

context codec
begin

lemma run_enc:
  assumes "wf_message m" and "msg_payload m = enc x @ junk" and "ok x"
  shows "run_reader dec m = Inr (norm x)"
proof -
  have "ready (msg_cursor m) (enc x @ [])" using ready_message[OF assms(1,2)] by simp
  from run_reader_reads[OF dec_enc[OF this assms(3)]] show ?thesis .
qed

end

lemma write_loop_progress:
  assumes "list_all (\<lambda>rc. 0 < rc) rcs" and "length bs \<le> length rcs"
  shows "write_loop rcs bs out = (True, out @ bs)"
  using assms
proof (induction rcs bs out rule: write_loop.induct)
  case (3 rc rcs x xs out)
  then have "0 < rc" and "list_all (\<lambda>rc. 0 < rc) rcs" by simp_all
  moreover from this have "length (drop (nat rc) (x # xs)) \<le> length rcs"
    using "3.prems"(2) by (cases "nat rc") auto
  ultimately have "write_loop rcs (drop (nat rc) (x # xs)) (out @ take (nat rc) (x # xs)) =
      (True, (out @ take (nat rc) (x # xs)) @ drop (nat rc) (x # xs))"
    using "3.IH" by simp
  with \<open>0 < rc\<close> show ?case
    by (simp only: write_loop.simps not_le[symmetric] if_False append_assoc append_take_drop_id)
qed simp_all

text \<open>A \<^verbatim>\<open>write\<close> that fails is reported, and what went out before is a prefix.\<close>

lemma write_loop_prefix: "\<exists>rest. out @ bs = snd (write_loop rcs bs out) @ rest"
proof (induction rcs bs out rule: write_loop.induct)
  case (3 rc rcs x xs out)
  show ?case
  proof (cases "rc \<le> 0")
    case False
    with 3 obtain rest where
      "(out @ take (nat rc) (x # xs)) @ drop (nat rc) (x # xs) =
         snd (write_loop rcs (drop (nat rc) (x # xs)) (out @ take (nat rc) (x # xs))) @ rest"
      by blast
    then have "out @ x # xs =
         snd (write_loop rcs (drop (nat rc) (x # xs)) (out @ take (nat rc) (x # xs))) @ rest"
      by (simp only: append_assoc append_take_drop_id)
    with False show ?thesis by auto
  qed simp
qed simp_all

lemma write_loop_True: "fst (write_loop rcs bs out) \<Longrightarrow> snd (write_loop rcs bs out) = out @ bs"
proof (induction rcs bs out rule: write_loop.induct)
  case (3 rc rcs x xs out)
  then have rc: "\<not> rc \<le> 0" by (auto split: if_splits)
  with "3.prems" have "fst (write_loop rcs (drop (nat rc) (x # xs)) (out @ take (nat rc) (x # xs)))"
    by simp
  from "3.IH"[OF rc this] rc show ?case
    by (simp only: write_loop.simps if_False append_assoc append_take_drop_id)
qed simp_all

lemma read_payload_progress:
  assumes "list_all (\<lambda>k. 0 < k) ks" and "length p \<le> length ks"
  shows "read_payload ks (length p) (p @ rest) acc = Some (acc @ p, rest)"
  using assms
proof (induction ks arbitrary: p acc)
  case (Cons k ks)
  show ?case
  proof (cases "length p")
    case (Suc n)
    let ?j = "min k (Suc n)"
    have j: "0 < ?j" "?j \<le> length p" using Cons.prems Suc by auto
    have got: "sys_read k (Suc n) (p @ rest) = (take ?j p, drop ?j p @ rest)"
      using j by (simp add: sys_read_def)
    have ne: "take ?j p \<noteq> []" and len: "Suc n - length (take ?j p) = length (drop ?j p)"
      using j Suc by auto
    have "length (drop ?j p) \<le> length ks" using j Cons.prems(2) by simp
    then have "read_payload ks (length (drop ?j p)) (drop ?j p @ rest) (acc @ take ?j p) =
        Some ((acc @ take ?j p) @ drop ?j p, rest)"
      using Cons.prems(1) by (intro Cons.IH) simp_all
    then show ?thesis
      by (simp only: Suc read_payload.simps got prod.case ne if_False len append_assoc
          append_take_drop_id)
  qed simp
qed simp

lemma sint_small:
  assumes "unat (len :: u32) \<le> PB_PROTOCOL_MAX_PAYLOAD_SIZE"
  shows "sint len = uint len" and "uint len \<le> 65536"
proof -
  have "int (unat len) \<le> 65536" using assms by (simp only: PB_PROTOCOL_MAX_PAYLOAD_SIZE_def)
  then show "uint len \<le> 65536" by simp
  then have "uint len < 2 ^ 31" by (rule le_less_trans) simp
  moreover have "- (2 ^ 31) \<le> uint len" by (rule order_trans[OF _ uint_ge_0]) simp
  ultimately show "sint len = uint len" by (simp add: sint_uint signed_take_bit_int_eq_self)
qed

lemma length_le_uint: "length bs \<le> unat (len :: u32) \<Longrightarrow> int (length bs) \<le> uint len"
  by (metis of_nat_le_iff uint_nat)

lemma unat_nbytes:
  "length bs \<le> PB_PROTOCOL_MAX_PAYLOAD_SIZE \<Longrightarrow> unat (nbytes bs) = length bs"
  by (simp add: unat_of_nat PB_PROTOCOL_MAX_PAYLOAD_SIZE_def)

lemma create_message_ok:
  "unat len \<le> PB_PROTOCOL_MAX_PAYLOAD_SIZE \<Longrightarrow>
     pb_protocol_create_message a len mem =
       Inr (Some \<lparr>msg_action = a, msg_payload_len = len, msg_payload = mem\<rparr>)"
  using sint_small[of len] uint_ge_0[of len]
  by (simp add: pb_protocol_create_message_def not_less order_trans[OF _ uint_ge_0] PB_PROTOCOL_MAX_PAYLOAD_SIZE_def)

context codec
begin

text \<open>A message of \<open>len\<close> bytes, enough for the encoding, filled in and read back.\<close>

lemma filled:
  assumes "ok x" and "length (enc x) \<le> unat len" and "unat len \<le> PB_PROTOCOL_MAX_PAYLOAD_SIZE"
    and "length mem = unat len"
  shows "\<exists>m. pb_protocol_create_message a len mem = Inr (Some m) \<and>
             ser_finish (enc x) len = Inr (enc x) \<and>
             wf_message (store_payload (enc x) m) \<and>
             run_reader dec (store_payload (enc x) m) = Inr (norm x)"
proof -
  let ?m = "\<lparr>msg_action = a, msg_payload_len = len, msg_payload = mem\<rparr>"
  have wf: "wf_message (store_payload (enc x) ?m)"
    using assms(2-4) by (simp add: wf_message_def store_payload_def)
  moreover have "run_reader dec (store_payload (enc x) ?m) = Inr (norm x)"
    using run_enc[OF wf, of x "drop (length (enc x)) mem"] assms(1) by (simp add: store_payload_def)
  moreover have "ser_finish (enc x) len = Inr (enc x)"
    using length_le_uint[OF assms(2)] by (simp add: ser_finish_def sint_small(1)[OF assms(3)])
  ultimately show ?thesis using create_message_ok[OF assms(3)] by blast
qed

text \<open>The same with the length function of the message type.\<close>

lemma filled_exact:
  assumes "ok x" and "len = nbytes (enc x)" and "length (enc x) \<le> PB_PROTOCOL_MAX_PAYLOAD_SIZE"
    and "length mem = unat len"
  shows "\<exists>m. pb_protocol_create_message a len mem = Inr (Some m) \<and>
             ser_finish (enc x) len = Inr (enc x) \<and>
             wf_message (store_payload (enc x) m) \<and>
             run_reader dec (store_payload (enc x) m) = Inr (norm x)"
  using filled[OF assms(1) _ _ assms(4)] assms(2,3) by (simp add: unat_nbytes)

end

section \<open>Sample values\<close>

definition sample_boot_command :: boot_command where
  "sample_boot_command =
     \<lparr>cmd_option_id = Some ''sda1#1'', cmd_boot_image_file = Some ''/vmlinux'',
      cmd_initrd_file = Some [], cmd_dtb_file = None, cmd_boot_args = Some ''quiet'',
      cmd_args_sig_file = None, cmd_console = Some ''hvc0''\<rparr>"

definition sample_device :: device where
  "sample_device =
     \<lparr>dev_id = Some ''sda1'', dev_type = DEVICE_TYPE_DISK, dev_name = Some ''sda1'',
      dev_description = None, dev_icon_file = Some ''''\<rparr>"

definition sample_boot_option :: boot_option where
  "sample_boot_option =
     \<lparr>opt_device_id = Some ''sda1'', opt_id = Some ''sda1#1'', opt_name = Some ''linux'',
      opt_description = None, opt_icon_file = None, opt_boot_image_file = Some ''/vmlinux'',
      opt_initrd_file = None, opt_dtb_file = None, opt_boot_args = Some ''quiet'',
      opt_args_sig_file = None, opt_is_default = True, opt_is_autoboot_default = False,
      opt_type = DISCOVER_BOOT_OPTION\<rparr>"

definition sample_status :: status where
  "sample_status =
     \<lparr>st_type = STATUS_ERROR, st_message = Some ''no'', st_backlog = False, st_boot_active = True\<rparr>"

definition sample_plugin :: plugin_option where
  "sample_plugin =
     \<lparr>plg_id = Some ''p'', plg_name = Some ''raid'', plg_vendor = None, plg_vendor_id = None,
      plg_version = Some ''1'', plg_date = None, plg_plugin_file = Some ''/p'',
      plg_executables = [Some ''a'', Some ''b'']\<rparr>"

definition sample_system_info :: system_info where
  "sample_system_info =
     \<lparr>si_type = Some ''t'', si_identifier = None, si_platform_primary = [Some ''v1''],
      si_platform_other = [], si_bmc_current = [], si_bmc_golden = [],
      si_interfaces = [\<lparr>ifi_hwaddr = [1, 2, 3, 4, 5, 6], ifi_name = Some ''eth0'', ifi_link = True,
                        ifi_address = None, ifi_address_v6 = None\<rparr>],
      si_blockdevs = [\<lparr>bd_name = Some ''sda'', bd_uuid = None, bd_mountpoint = None\<rparr>],
      si_bmc_mac = Some [0, 1, 0, 0, 0, 0], si_stb_fw_measurement = True,
      si_stb_fw_enforcing = False, si_stb_os_enforcing = False\<rparr>"

definition sample_config :: config where
  "sample_config =
     \<lparr>cfg_autoboot_enabled = True, cfg_autoboot_timeout_sec = 10,
      cfg_network =
        \<lparr>net_interfaces =
           [\<lparr>ifc_hwaddr = [1, 2, 3, 4, 5, 6], ifc_ignore = False, ifc_method = CONFIG_METHOD_STATIC,
             ifc_address = Some ''10.0.0.2/8'', ifc_gateway = Some ''10.0.0.1'', ifc_url = None,
             ifc_override = False\<rparr>],
         net_dns_servers = [Some ''10.0.0.9'']\<rparr>,
      cfg_preboot_check_enabled = False,
      cfg_autoboot_opts = [BOOT_DEVICE_TYPE DEVICE_TYPE_NETWORK, BOOT_DEVICE_UUID (Some ''u1'')],
      cfg_ipmi_bootdev = 0, cfg_ipmi_bootdev_persistent = False, cfg_ipmi_bootdev_mailbox = False,
      cfg_http_proxy = None, cfg_https_proxy = None, cfg_allow_writes = True,
      cfg_boot_console = Some ''hvc0'', cfg_manual_console = False, cfg_lang = Some ''C'',
      cfg_consoles = [Some ''hvc0''], cfg_disable_snapshots = False, cfg_safe_mode = False,
      cfg_debug = False\<rparr>"

lemmas wf_simps = wf_config_def wf_interface_config_def wf_system_info_def wf_interface_info_def
  wf_blockdev_info_def wf_bmc_mac_def wf_device_def wf_boot_option_def wf_boot_command_def
  wf_status_def wf_plugin_option_def wf_str_def c_string_def HWADDR_SIZE_def

lemmas bytes_simps = config_bytes_def pb_protocol_serialise_config_interface_def
  autoboot_opt_bytes_def system_info_bytes_def interface_info_bytes_def blockdev_info_bytes_def
  bmc_mac_bytes_def device_bytes_def boot_option_bytes_def boot_command_bytes_def
  boot_status_bytes_def plugin_option_bytes_def ser_array_def pb_protocol_serialise_string_def
  nbytes_ser_bool nbytes_ser_u32_bool HWADDR_SIZE_def PB_PROTOCOL_MAX_PAYLOAD_SIZE_def

lemmas len_simps = pb_protocol_config_len_def pb_protocol_interface_config_len_def
  autoboot_opt_len_def strings_len_def pb_protocol_system_info_len_def pb_protocol_device_len_def
  pb_protocol_boot_option_len_def pb_protocol_boot_len_def pb_protocol_boot_status_len_def
  pb_protocol_plugin_option_len_def optional_strlen_def HWADDR_SIZE_def Let_def

lemma sample_wf:
  "wf_config sample_config" "wf_system_info sample_system_info"
  "wf_boot_command sample_boot_command" "wf_device sample_device"
  "wf_boot_option sample_boot_option" "wf_status sample_status" "wf_plugin_option sample_plugin"
  by (simp_all add: wf_simps sample_config_def sample_system_info_def sample_boot_command_def
      sample_device_def sample_boot_option_def sample_status_def sample_plugin_def)

lemma sample_fits:
  "length (config_bytes e sample_config) \<le> PB_PROTOCOL_MAX_PAYLOAD_SIZE"
  "length (system_info_bytes sample_system_info) \<le> PB_PROTOCOL_MAX_PAYLOAD_SIZE"
  "length (boot_command_bytes sample_boot_command) \<le> PB_PROTOCOL_MAX_PAYLOAD_SIZE"
  "length (device_bytes e sample_device) \<le> PB_PROTOCOL_MAX_PAYLOAD_SIZE"
  "length (boot_option_bytes sample_boot_option) \<le> PB_PROTOCOL_MAX_PAYLOAD_SIZE"
  "length (boot_status_bytes sample_status) \<le> PB_PROTOCOL_MAX_PAYLOAD_SIZE"
  "length (plugin_option_bytes sample_plugin) \<le> PB_PROTOCOL_MAX_PAYLOAD_SIZE"
  by (simp_all add: bytes_simps sample_config_def sample_system_info_def sample_boot_command_def
      sample_device_def sample_boot_option_def sample_status_def sample_plugin_def)

section \<open>Round trips\<close>



text \<open>the configuration that the server sends is the one a client receives.  The message is
  created with the length \<^verbatim>\<open>pb_protocol_config_len\<close> gives, the serialiser stays inside it, and the
  deserialiser recovers every transmitted setting: interfaces, DNS servers, proxies, the boot
  order, the IPMI override, consoles and flags.\<close>

theorem config_roundtrip:
  assumes "wf_config cfg" and "length (config_bytes e cfg) \<le> PB_PROTOCOL_MAX_PAYLOAD_SIZE"
    and "length mem = unat (pb_protocol_config_len cfg)"
  shows "\<exists>m bs. pb_protocol_create_message a (pb_protocol_config_len cfg) mem = Inr (Some m) \<and>
           pb_protocol_serialise_config e cfg (pb_protocol_config_len cfg) = Inr bs \<and>
           pb_protocol_deserialise_config cfg0 (store_payload bs m) = Inr (norm_config cfg0 cfg)"
proof -
  have "pb_protocol_config_len cfg = nbytes (config_bytes e cfg)"
    using assms(1) by (intro config_len_bytes) (auto simp: wf_config_def wf_interface_config_def list_all_iff)
  from cfgc.filled_exact[OF assms(1) this assms(2,3), of a cfg0] show ?thesis
    unfolding pb_protocol_serialise_config_def pb_protocol_deserialise_config_def by blast
qed

theorem config_roundtrip_witness:
  "\<exists>m bs. pb_protocol_create_message 9 (pb_protocol_config_len sample_config)
             (replicate (unat (pb_protocol_config_len sample_config)) NUL) = Inr (Some m) \<and>
     pb_protocol_serialise_config Little_Endian sample_config (pb_protocol_config_len sample_config)
       = Inr bs \<and>
     pb_protocol_deserialise_config sample_config (store_payload bs m) = Inr sample_config"
proof -
  have "norm_config sample_config sample_config = sample_config"
    by (simp add: norm_config_def norm_interface_config_def norm_str_def sample_config_def)
  then show ?thesis
    using config_roundtrip[OF sample_wf(1) sample_fits(1), of _ 9 Little_Endian sample_config] by simp
qed

text \<open>what the server tells a client about the machine arrives: firmware versions, interfaces,
  block devices, the BMC address and the secure-boot flags.  A BMC address of zeros is taken for
  none.\<close>

theorem system_info_roundtrip:
  assumes "wf_system_info s" and "length (system_info_bytes s) \<le> PB_PROTOCOL_MAX_PAYLOAD_SIZE"
    and "length mem = unat (pb_protocol_system_info_len s)"
  shows "\<exists>m bs. pb_protocol_create_message a (pb_protocol_system_info_len s) mem = Inr (Some m) \<and>
           pb_protocol_serialise_system_info s (pb_protocol_system_info_len s) = Inr bs \<and>
           pb_protocol_deserialise_system_info s0 (store_payload bs m) = Inr (norm_system_info s0 s)"
proof -
  have "pb_protocol_system_info_len s = nbytes (system_info_bytes s)"
    using assms(1) by (intro system_info_len_bytes) (simp add: wf_system_info_def)
  from sysc.filled_exact[OF assms(1) this assms(2,3), of a s0] show ?thesis
    unfolding pb_protocol_serialise_system_info_def pb_protocol_deserialise_system_info_def by blast
qed

theorem system_info_roundtrip_witness:
  "\<exists>m bs. pb_protocol_create_message 8 (pb_protocol_system_info_len sample_system_info)
             (replicate (unat (pb_protocol_system_info_len sample_system_info)) NUL)
             = Inr (Some m) \<and>
     pb_protocol_serialise_system_info sample_system_info
       (pb_protocol_system_info_len sample_system_info) = Inr bs \<and>
     pb_protocol_deserialise_system_info sample_system_info (store_payload bs m)
       = Inr (norm_system_info sample_system_info sample_system_info)"
  by (rule system_info_roundtrip[OF sample_wf(2) sample_fits(2)]) simp

text \<open>the boot command a client sends is the one the server receives, each file and argument,
  with an empty string arriving as NULL.\<close>

theorem boot_command_roundtrip:
  assumes "wf_boot_command b" and "length (boot_command_bytes b) \<le> PB_PROTOCOL_MAX_PAYLOAD_SIZE"
    and "length mem = unat (pb_protocol_boot_len b)"
  shows "\<exists>m bs. pb_protocol_create_message a (pb_protocol_boot_len b) mem = Inr (Some m) \<and>
           pb_protocol_serialise_boot_command b (pb_protocol_boot_len b) = Inr bs \<and>
           pb_protocol_deserialise_boot_command b0 (store_payload bs m) = Inr (norm_boot_command b)"
  using cmdc.filled_exact[OF assms(1) boot_command_len_bytes assms(2,3), of a b0]
  unfolding pb_protocol_serialise_boot_command_def pb_protocol_deserialise_boot_command_def by blast

theorem boot_command_roundtrip_witness:
  "\<exists>m bs. pb_protocol_create_message 5 (pb_protocol_boot_len sample_boot_command)
             (replicate (unat (pb_protocol_boot_len sample_boot_command)) NUL) = Inr (Some m) \<and>
     pb_protocol_serialise_boot_command sample_boot_command
       (pb_protocol_boot_len sample_boot_command) = Inr bs \<and>
     pb_protocol_deserialise_boot_command sample_boot_command (store_payload bs m)
       = Inr (sample_boot_command\<lparr>cmd_initrd_file := None\<rparr>)"
proof -
  have "norm_boot_command sample_boot_command = sample_boot_command\<lparr>cmd_initrd_file := None\<rparr>"
    by (simp add: norm_boot_command_def norm_str_def sample_boot_command_def)
  then show ?thesis
    using boot_command_roundtrip[OF sample_wf(3) sample_fits(3), of _ 5 sample_boot_command] by simp
qed

text \<open>a device survives the transfer between two processes of one host, whose byte order the
  type field is written in.\<close>

theorem device_roundtrip:
  assumes "wf_device d" and "length (device_bytes e d) \<le> PB_PROTOCOL_MAX_PAYLOAD_SIZE"
    and "length mem = unat (pb_protocol_device_len d)"
  shows "\<exists>m bs. pb_protocol_create_message a (pb_protocol_device_len d) mem = Inr (Some m) \<and>
           pb_protocol_serialise_device e d (pb_protocol_device_len d) = Inr bs \<and>
           pb_protocol_deserialise_device e d0 (store_payload bs m) = Inr (norm_device d)"
  using devc.filled_exact[OF assms(1) device_len_bytes assms(2,3), of a d0]
  unfolding pb_protocol_serialise_device_def pb_protocol_deserialise_device_def by blast

theorem device_roundtrip_witness:
  "\<exists>m bs. pb_protocol_create_message 1 (pb_protocol_device_len sample_device)
             (replicate (unat (pb_protocol_device_len sample_device)) NUL) = Inr (Some m) \<and>
     pb_protocol_serialise_device Big_Endian sample_device (pb_protocol_device_len sample_device)
       = Inr bs \<and>
     pb_protocol_deserialise_device Big_Endian sample_device (store_payload bs m)
       = Inr (norm_device sample_device)"
  by (rule device_roundtrip[OF sample_wf(4) sample_fits(4)]) simp

text \<open>a boot option survives the transfer with all its files, its flags and its type, and the
  deserialiser's final check of the position accepts it.\<close>

theorem boot_option_roundtrip:
  assumes "wf_boot_option b" and "length (boot_option_bytes b) \<le> PB_PROTOCOL_MAX_PAYLOAD_SIZE"
    and "length mem = unat (pb_protocol_boot_option_len b)"
  shows "\<exists>m bs. pb_protocol_create_message a (pb_protocol_boot_option_len b) mem = Inr (Some m) \<and>
           pb_protocol_serialise_boot_option b (pb_protocol_boot_option_len b) = Inr bs \<and>
           pb_protocol_deserialise_boot_option b0 (store_payload bs m) = Inr (norm_boot_option b)"
proof -
  let ?bs = "boot_option_bytes b" and ?len = "pb_protocol_boot_option_len b"
  let ?m = "\<lparr>msg_action = a, msg_payload_len = ?len, msg_payload = mem\<rparr>"
  have len: "?len = nbytes ?bs" by (rule boot_option_len_bytes)
  have n: "unat ?len = length ?bs" using assms(2) len by (simp add: unat_nbytes)
  have wf: "wf_message (store_payload ?bs ?m)"
    using assms(2,3) n by (simp add: wf_message_def store_payload_def)
  have "ready (msg_cursor (store_payload ?bs ?m)) (?bs @ [])"
    using ready_message[OF wf, of ?bs "[]"] assms(3) n by (simp add: store_payload_def)
  then have "reads (boot_option_reader ?len b0) (msg_cursor (store_payload ?bs ?m)) [] (norm_boot_option b)"
    using assms(1,3) n by (intro reads_boot_option) (simp_all add: msg_cursor_def store_payload_def)
  then have "pb_protocol_deserialise_boot_option b0 (store_payload ?bs ?m) = Inr (norm_boot_option b)"
    unfolding pb_protocol_deserialise_boot_option_def
    by (intro run_reader_reads) (simp add: store_payload_def)
  moreover have "pb_protocol_create_message a ?len mem = Inr (Some ?m)"
    using assms(2) n by (intro create_message_ok) simp
  ultimately show ?thesis
    using ser_finish_fits[OF assms(2)] len unfolding pb_protocol_serialise_boot_option_def by metis
qed

theorem boot_option_roundtrip_witness:
  "\<exists>m bs. pb_protocol_create_message 2 (pb_protocol_boot_option_len sample_boot_option)
             (replicate (unat (pb_protocol_boot_option_len sample_boot_option)) NUL)
             = Inr (Some m) \<and>
     pb_protocol_serialise_boot_option sample_boot_option
       (pb_protocol_boot_option_len sample_boot_option) = Inr bs \<and>
     pb_protocol_deserialise_boot_option sample_boot_option (store_payload bs m)
       = Inr (norm_boot_option sample_boot_option)"
  by (rule boot_option_roundtrip[OF sample_wf(5) sample_fits(5)]) simp

text \<open>a status message survives the transfer, in a buffer that is six bytes longer than what the
  serialiser writes.\<close>

theorem boot_status_roundtrip:
  assumes "wf_status s" and "unat (pb_protocol_boot_status_len s) \<le> PB_PROTOCOL_MAX_PAYLOAD_SIZE"
    and "length (boot_status_bytes s) \<le> PB_PROTOCOL_MAX_PAYLOAD_SIZE"
    and "length mem = unat (pb_protocol_boot_status_len s)"
  shows "\<exists>m bs. pb_protocol_create_message a (pb_protocol_boot_status_len s) mem = Inr (Some m) \<and>
           pb_protocol_serialise_boot_status s (pb_protocol_boot_status_len s) = Inr bs \<and>
           pb_protocol_deserialise_boot_status s0 (store_payload bs m) = Inr (norm_status s)"
proof -
  have "pb_protocol_boot_status_len s = nbytes (boot_status_bytes s) + 6"
    by (simp add: pb_protocol_boot_status_len_def boot_status_bytes_def wire_simps)
  then have "unat (pb_protocol_boot_status_len s) = length (boot_status_bytes s) + 6"
    using assms(3) by (simp add: unat_word_ariths unat_of_nat PB_PROTOCOL_MAX_PAYLOAD_SIZE_def)
  then have "length (boot_status_bytes s) \<le> unat (pb_protocol_boot_status_len s)" by simp
  from statc.filled[OF assms(1) this assms(2,4), of a s0] show ?thesis
    unfolding pb_protocol_serialise_boot_status_def pb_protocol_deserialise_boot_status_def by blast
qed

theorem boot_status_roundtrip_witness:
  "\<exists>m bs. pb_protocol_create_message 6 (pb_protocol_boot_status_len sample_status)
             (replicate (unat (pb_protocol_boot_status_len sample_status)) NUL) = Inr (Some m) \<and>
     pb_protocol_serialise_boot_status sample_status (pb_protocol_boot_status_len sample_status)
       = Inr bs \<and>
     pb_protocol_deserialise_boot_status sample_status (store_payload bs m)
       = Inr (norm_status sample_status)"
  by (rule boot_status_roundtrip[OF sample_wf(6) _ sample_fits(6)])
     (simp_all add: sample_status_def len_simps PB_PROTOCOL_MAX_PAYLOAD_SIZE_def)

text \<open>a plugin with its executables survives the transfer.\<close>

theorem plugin_option_roundtrip:
  assumes "wf_plugin_option p" and "length (plugin_option_bytes p) \<le> PB_PROTOCOL_MAX_PAYLOAD_SIZE"
    and "length mem = unat (pb_protocol_plugin_option_len p)"
  shows "\<exists>m bs. pb_protocol_create_message a (pb_protocol_plugin_option_len p) mem = Inr (Some m) \<and>
           pb_protocol_serialise_plugin_option p (pb_protocol_plugin_option_len p) = Inr bs \<and>
           pb_protocol_deserialise_plugin_option p0 (store_payload bs m) = Inr (norm_plugin_option p)"
  using plgc.filled_exact[OF assms(1) plugin_option_len_bytes assms(2,3), of a p0]
  unfolding pb_protocol_serialise_plugin_option_def pb_protocol_deserialise_plugin_option_def by blast

theorem plugin_option_roundtrip_witness:
  "\<exists>m bs. pb_protocol_create_message 12 (pb_protocol_plugin_option_len sample_plugin)
             (replicate (unat (pb_protocol_plugin_option_len sample_plugin)) NUL) = Inr (Some m) \<and>
     pb_protocol_serialise_plugin_option sample_plugin
       (pb_protocol_plugin_option_len sample_plugin) = Inr bs \<and>
     pb_protocol_deserialise_plugin_option sample_plugin (store_payload bs m)
       = Inr (norm_plugin_option sample_plugin)"
  by (rule plugin_option_roundtrip[OF sample_wf(7) sample_fits(7)]) simp

lemma authenticate_len_bytes:
  assumes "authenticate_bytes e msg = Some enc" and "length enc \<le> PB_PROTOCOL_MAX_PAYLOAD_SIZE"
  shows "length enc \<le> unat (pb_protocol_authenticate_len msg)"
proof -
  have "unat (nbytes enc) = length enc" using assms(2) by (rule unat_nbytes)
  moreover have "pb_protocol_authenticate_len msg = nbytes enc"
    if "\<forall>b. msg \<noteq> AUTH_MSG_RESPONSE b"
    using that assms(1) by (cases msg) (auto simp: authenticate_bytes_def
      pb_protocol_authenticate_len_def wire_simps)
  ultimately show ?thesis
    using assms(1) by (cases msg) (auto simp: authenticate_bytes_def
      pb_protocol_authenticate_len_def wire_simps)
qed

text \<open>an authentication message, a request, a password change, a decryption request or a
  response, survives the transfer.  A response occupies five of the eight bytes reserved for it.\<close>

theorem authenticate_roundtrip:
  assumes "authenticate_bytes e msg = Some enc" and "wf_auth msg"
    and "unat (pb_protocol_authenticate_len msg) \<le> PB_PROTOCOL_MAX_PAYLOAD_SIZE"
    and "length enc \<le> PB_PROTOCOL_MAX_PAYLOAD_SIZE"
    and "length mem = unat (pb_protocol_authenticate_len msg)"
  shows "\<exists>m bs. pb_protocol_create_message a (pb_protocol_authenticate_len msg) mem = Inr (Some m) \<and>
           pb_protocol_serialise_authenticate e msg (pb_protocol_authenticate_len msg) = Inr bs \<and>
           pb_protocol_deserialise_authenticate e (store_payload bs m) = Inr (norm_auth msg)"
proof -
  let ?len = "pb_protocol_authenticate_len msg"
  let ?m = "\<lparr>msg_action = a, msg_payload_len = ?len, msg_payload = mem\<rparr>"
  have le: "length enc \<le> unat ?len" by (rule authenticate_len_bytes[OF assms(1,4)])
  have wf: "wf_message (store_payload enc ?m)"
    using assms(3,5) le by (simp add: wf_message_def store_payload_def)
  have "ready (msg_cursor (store_payload enc ?m)) (enc @ [])"
    using ready_message[OF wf, of enc "drop (length enc) mem"] by (simp add: store_payload_def)
  from run_reader_reads[OF reads_authenticate[OF assms(1) this assms(2)]]
  have "pb_protocol_deserialise_authenticate e (store_payload enc ?m) = Inr (norm_auth msg)"
    by (simp add: pb_protocol_deserialise_authenticate_def)
  moreover have "pb_protocol_serialise_authenticate e msg ?len = Inr enc"
    using assms(1) length_le_uint[OF le] sint_small(1)[OF assms(3)]
    by (simp add: pb_protocol_serialise_authenticate_def ser_finish_def)
  ultimately show ?thesis using create_message_ok[OF assms(3)] by blast
qed

theorem authenticate_roundtrip_witness:
  "\<exists>m bs. pb_protocol_create_message 16 14 (replicate 14 NUL) = Inr (Some m) \<and>
     pb_protocol_serialise_authenticate Little_Endian (AUTH_MSG_SET None (Some ''pw'')) 14 = Inr bs \<and>
     pb_protocol_deserialise_authenticate Little_Endian (store_payload bs m)
       = Inr (AUTH_MSG_SET None (Some ''pw''))"
  using authenticate_roundtrip[of Little_Endian "AUTH_MSG_SET None (Some ''pw'')"
      "host32 Little_Endian 2 @ ser_str None @ ser_str (Some ''pw'')" "replicate 14 NUL" 16]
  by (simp add: authenticate_bytes_def pb_protocol_authenticate_len_def optional_strlen_def
      wf_str_def norm_str_def c_string_def PB_PROTOCOL_MAX_PAYLOAD_SIZE_def
      pb_protocol_serialise_string_def)

text \<open>the buffer for a temporary autoboot option that names a device by UUID is four bytes too
  small: \<^verbatim>\<open>pb_protocol_temp_autoboot_len\<close> leaves out the length field of the string, so the serialiser
  writes past the end of the message it was given and its assertion fails.\<close>

theorem temp_autoboot_uuid_overrun:
  assumes "length u \<le> PB_PROTOCOL_MAX_PAYLOAD_SIZE"
  shows "pb_protocol_serialise_temp_autoboot (BOOT_DEVICE_UUID (Some u))
           (pb_protocol_temp_autoboot_len (BOOT_DEVICE_UUID (Some u))) = Inl Buffer_overrun"
proof -
  have n: "length (autoboot_opt_bytes (BOOT_DEVICE_UUID (Some u))) = 8 + length u"
    by (simp add: autoboot_opt_bytes_def pb_protocol_serialise_string_def)
  have "sint (4 + word_of_nat (length u) :: u32) = 4 + int (length u)"
  proof -
    have "4 + int (length u) < 2 ^ 31" using assms by (simp add: PB_PROTOCOL_MAX_PAYLOAD_SIZE_def)
    moreover have "(4 + word_of_nat (length u) :: u32) = word_of_int (4 + int (length u))" by simp
    ultimately show ?thesis
      by (simp only: signed_of_int) (simp add: signed_take_bit_int_eq_self)
  qed
  then show ?thesis
    by (simp add: pb_protocol_serialise_temp_autoboot_def ser_finish_def n
        pb_protocol_temp_autoboot_len_def optional_strlen_def)
qed

theorem temp_autoboot_uuid_overrun_witness:
  "pb_protocol_serialise_temp_autoboot (BOOT_DEVICE_UUID (Some ''1234-abcd''))
     (pb_protocol_temp_autoboot_len (BOOT_DEVICE_UUID (Some ''1234-abcd''))) = Inl Buffer_overrun"
  by (rule temp_autoboot_uuid_overrun) (simp add: PB_PROTOCOL_MAX_PAYLOAD_SIZE_def)

text \<open>the deserialiser of authentication messages reads the operation before it looks at the
  length, so a message with fewer than four bytes of payload makes it read beyond them.\<close>

theorem authenticate_short_payload:
  assumes "length (msg_payload m) < 4"
  shows "pb_protocol_deserialise_authenticate e m = Inl Out_of_bounds"
  using assms by (simp add: pb_protocol_deserialise_authenticate_def run_reader_def
      authenticate_reader_def rbind_def rpeek_def mem_load_def msg_cursor_def)

theorem authenticate_short_payload_witness:
  "pb_protocol_deserialise_authenticate Little_Endian
     \<lparr>msg_action = 16, msg_payload_len = 0, msg_payload = []\<rparr> = Inl Out_of_bounds"
  by (rule authenticate_short_payload) simp

section \<open>Memory safety of the deserialisers\<close>

text \<open>The cursor of a deserialiser whose \<^verbatim>\<open>len\<close> still tells how much of the payload is left.\<close>

definition in_bounds :: "cursor \<Rightarrow> bool" where
  "in_bounds c \<longleftrightarrow>
     cpos c + unat (clen c) \<le> length (cbuf c) \<and> length (cbuf c) \<le> PB_PROTOCOL_MAX_PAYLOAD_SIZE"

definition header_at :: "string \<Rightarrow> nat \<Rightarrow> u32" where
  "header_at buf i = un_be32 (take 4 (drop i buf))"

text \<open>No length that a payload could announce makes \<^verbatim>\<open>read_len + str_len\<close> wrap around.\<close>

definition no_wrap :: "string \<Rightarrow> bool" where
  "no_wrap buf \<longleftrightarrow> list_all (\<lambda>i. header_at buf i < 0xfffffffc) [0..<length buf - 3]"

text \<open>The outcome of a reader that stayed inside the payload \<open>buf\<close> and faulted on no pointer.\<close>

definition inside :: "string \<Rightarrow> rd_err + ('a \<times> cursor) \<Rightarrow> bool" where
  "inside buf r \<longleftrightarrow>
     (case r of Inl e \<Rightarrow> e = Malformed | Inr (x, c) \<Rightarrow> in_bounds c \<and> cbuf c = buf)"

definition safe :: "'a reader \<Rightarrow> bool" where
  "safe r \<longleftrightarrow> (\<forall>c. in_bounds c \<longrightarrow> no_wrap (cbuf c) \<longrightarrow> inside (cbuf c) (r c))"

lemma safeI: "(\<And>c. in_bounds c \<Longrightarrow> no_wrap (cbuf c) \<Longrightarrow> inside (cbuf c) (r c)) \<Longrightarrow> safe r"
  by (simp add: safe_def)

lemma safeD: "safe r \<Longrightarrow> in_bounds c \<Longrightarrow> no_wrap (cbuf c) \<Longrightarrow> inside (cbuf c) (r c)"
  by (simp add: safe_def)

lemma inside_simps [simp]:
  "inside buf (Inl e) \<longleftrightarrow> e = Malformed"
  "inside buf (Inr (x, c)) \<longleftrightarrow> in_bounds c \<and> cbuf c = buf"
  by (simp_all add: inside_def)

lemma safe_bind:
  assumes "safe m" and "\<And>x. safe (k x)"
  shows "safe (rbind m k)"
proof (rule safeI)
  fix c assume c: "in_bounds c" "no_wrap (cbuf c)"
  note m = safeD[OF assms(1) c]
  show "inside (cbuf c) (rbind m k c)"
  proof (cases "m c")
    case (Inl e)
    with m show ?thesis by (simp add: rbind_def)
  next
    case (Inr p)
    obtain x c' where p: "p = (x, c')" by (cases p)
    with m Inr have "in_bounds c'" and eq: "cbuf c' = cbuf c" by simp_all
    then have "inside (cbuf c') (k x c')" using c(2) by (intro safeD[OF assms(2)]) simp_all
    with Inr p eq show ?thesis by (simp add: rbind_def)
  qed
qed

lemma safe_return: "safe (rreturn x)"
  by (simp add: safe_def rreturn_def)

lemma safe_malformed: "safe (rfail Malformed)"
  by (simp add: safe_def rfail_def)

text \<open>A load of \<open>n\<close> bytes guarded by \<^verbatim>\<open>if (len < n)\<close>.\<close>

lemma in_bounds_need:
  assumes "in_bounds c" and "\<not> clen c < n"
  shows "mem_load (cbuf c) (cpos c) (unat n) = Some (take (unat n) (drop (cpos c) (cbuf c)))"
    and "in_bounds (c\<lparr>cpos := cpos c + unat n, clen := clen c - n\<rparr>)"
proof -
  from assms(2) have n: "unat n \<le> unat (clen c)" by (simp add: word_less_nat_alt)
  moreover have "unat (clen c - n) = unat (clen c) - unat n"
    using assms(2) by (intro unat_sub) simp
  ultimately show
    "mem_load (cbuf c) (cpos c) (unat n) = Some (take (unat n) (drop (cpos c) (cbuf c)))"
    "in_bounds (c\<lparr>cpos := cpos c + unat n, clen := clen c - n\<rparr>)"
    using assms(1) by (auto simp: mem_load_def in_bounds_def)
qed

lemma safe_load:
  assumes "unat n = m" and "\<And>h. safe (k h)"
  shows "safe (rbind (rneed n) (\<lambda>_. rbind (rpeek m) (\<lambda>h. rbind (radvance n n) (\<lambda>_. k h))))"
proof (rule safeI)
  fix c assume c: "in_bounds c" "no_wrap (cbuf c)"
  let ?h = "take (unat n) (drop (cpos c) (cbuf c))"
  let ?c = "c\<lparr>cpos := cpos c + unat n, clen := clen c - n\<rparr>"
  let ?r = "rbind (rneed n) (\<lambda>_. rbind (rpeek m) (\<lambda>h. rbind (radvance n n) (\<lambda>_. k h))) c"
  show "inside (cbuf c) ?r"
  proof (cases "clen c < n")
    case False
    have "?r = k ?h ?c"
      using False in_bounds_need(1)[OF c(1) False] assms(1)
      by (simp add: rbind_def rneed_def rpeek_def radvance_def)
    then show ?thesis
      using safeD[OF assms(2) in_bounds_need(2)[OF c(1) False]] c(2) by simp
  qed (simp add: rbind_def rneed_def)
qed

lemma safe_u32: "safe read_u32"
  unfolding read_u32_def by (rule safe_load) (simp_all add: safe_return)

text \<open>A string is copied inside the payload exactly when its length does not wrap around, or
  a NUL stops the copy.\<close>

lemma strndup_overrun:
  "talloc_strndup buf off n = None \<longleftrightarrow> length (drop off buf) < n \<and> NUL \<notin> set (drop off buf)"
proof -
  let ?a = "drop off buf"
  have "length (takeWhile (\<lambda>c. c \<noteq> NUL) (take n ?a)) = length ?a \<longleftrightarrow> NUL \<notin> set ?a"
    if "length ?a < n"
  proof -
    have "length (takeWhile (\<lambda>c. c \<noteq> NUL) ?a) = length ?a \<longleftrightarrow>
          takeWhile (\<lambda>c. c \<noteq> NUL) ?a = ?a"
      by (metis length_append self_append_conv add_cancel_left_right length_0_conv
          takeWhile_dropWhile_id)
    also have "\<dots> \<longleftrightarrow> NUL \<notin> set ?a" by (auto simp: takeWhile_eq_all_conv)
    finally show ?thesis using that by simp
  qed
  then show ?thesis by (auto simp: talloc_strndup_def Let_def)
qed

lemma header_wraps:
  fixes h :: u32
  shows "0xfffffffc \<le> h \<Longrightarrow> unat (4 + h) < 4"
    and "h < 0xfffffffc \<Longrightarrow> unat (4 + h) = 4 + unat h"
proof -
  have u: "unat h < 2 ^ 32" using unsigned_less[of h] by simp
  have s: "unat (4 + h) = (4 + unat h) mod 2 ^ 32" by (simp add: unat_word_ariths)
  show "unat (4 + h) < 4" if "0xfffffffc \<le> h"
  proof -
    from that have "0xfffffffc \<le> unat h" by (simp add: word_le_nat_alt)
    then have "(4 + unat h) mod 2 ^ 32 = 4 + unat h - 2 ^ 32" using u by (simp add: mod_if)
    with s u show ?thesis by simp
  qed
  show "unat (4 + h) = 4 + unat h" if "h < 0xfffffffc"
    using that s by (simp add: word_less_nat_alt)
qed

lemma read_string_cases:
  assumes "in_bounds c" and "4 \<le> clen c"
  defines "h \<equiv> header_at (cbuf c) (cpos c)"
  shows "read_string c =
    (if clen c < 4 + h then Inl Malformed
     else if h = 0 then Inr (None, c\<lparr>cpos := cpos c + unat (4 + h), clen := clen c - (4 + h)\<rparr>)
     else case talloc_strndup (cbuf c) (cpos c + 4) (unat h) of
            None \<Rightarrow> Inl Out_of_bounds
          | Some s \<Rightarrow> Inr (Some s, c\<lparr>cpos := cpos c + unat (4 + h), clen := clen c - (4 + h)\<rparr>))"
proof -
  from assms(2) have n: "\<not> clen c < 4" by simp
  from in_bounds_need(1)[OF assms(1) n]
  have "mem_load (cbuf c) (cpos c) 4 = Some (take 4 (drop (cpos c) (cbuf c)))" by simp
  then show ?thesis unfolding h_def header_at_def using n
    by (simp add: read_string_def rbind_def rneed_def rpeek_def radvance_def rreturn_def Let_def
        split: option.split)
qed

lemma read_string_oob:
  assumes "in_bounds c"
  shows "read_string c = Inl Out_of_bounds \<longleftrightarrow>
           4 \<le> clen c \<and> 0xfffffffc \<le> header_at (cbuf c) (cpos c) \<and>
           NUL \<notin> set (drop (cpos c + 4) (cbuf c))"
proof (cases "4 \<le> clen c")
  case False
  then show ?thesis by (simp add: read_string_def rbind_def rneed_def not_le)
next
  case True
  let ?h = "header_at (cbuf c) (cpos c)" and ?a = "drop (cpos c + 4) (cbuf c)"
  have len: "length (cbuf c) \<le> 65536" and pos: "cpos c + unat (clen c) \<le> length (cbuf c)"
    using assms by (simp_all add: in_bounds_def PB_PROTOCOL_MAX_PAYLOAD_SIZE_def)
  have four: "4 \<le> unat (clen c)" using True by (simp add: word_le_nat_alt)
  show ?thesis
  proof (cases "0xfffffffc \<le> ?h")
    case wrap: True
    then have "\<not> clen c < 4 + ?h"
      using header_wraps(1)[OF wrap] four by (simp add: word_less_nat_alt)
    moreover have "0xfffffffc \<le> unat ?h" using wrap by (simp add: word_le_nat_alt)
    moreover from this have "?h \<noteq> 0" by auto
    ultimately show ?thesis using read_string_cases[OF assms True] True wrap len
      strndup_overrun[of "cbuf c" "cpos c + 4" "unat ?h"]
      by (auto split: option.split)
  next
    case False
    then have "unat (4 + ?h) = 4 + unat ?h" by (intro header_wraps(2)) simp
    then have "clen c < 4 + ?h \<or> unat ?h \<le> length ?a" using pos by (auto simp: word_less_nat_alt)
    then show ?thesis using read_string_cases[OF assms True] False
      strndup_overrun[of "cbuf c" "cpos c + 4" "unat ?h"]
      by (auto split: option.split)
  qed
qed

text \<open>the exact condition under which \<^verbatim>\<open>read_string\<close> leaves the payload.  With a cursor that is in
  bounds it happens if and only if four bytes of header are left, the announced length is one of
  the four for which the 32-bit sum \<^verbatim>\<open>read_len + str_len\<close> wraps below 4, and no NUL follows.\<close>

theorem read_string_out_of_bounds:
  assumes "in_bounds c"
  shows "read_string c = Inl Out_of_bounds \<longleftrightarrow>
           4 \<le> clen c \<and> 0xfffffffc \<le> header_at (cbuf c) (cpos c) \<and>
           NUL \<notin> set (drop (cpos c + 4) (cbuf c))"
  by (rule read_string_oob[OF assms])

theorem read_string_out_of_bounds_witness:
  "read_string \<lparr>cbuf = [CHR 0xff, CHR 0xff, CHR 0xff, CHR 0xff, CHR ''x''], cpos = 0, clen = 5\<rparr>
     = Inl Out_of_bounds"
  by (subst read_string_out_of_bounds)
     (simp_all add: in_bounds_def header_at_def un_be32_def PB_PROTOCOL_MAX_PAYLOAD_SIZE_def)

lemma no_wrap_header:
  "no_wrap buf \<Longrightarrow> i + 4 \<le> length buf \<Longrightarrow> header_at buf i < 0xfffffffc"
  by (auto simp: no_wrap_def list_all_iff)

lemma safe_string: "safe read_string"
proof (rule safeI)
  fix c assume c: "in_bounds c" "no_wrap (cbuf c)"
  let ?h = "header_at (cbuf c) (cpos c)"
  show "inside (cbuf c) (read_string c)"
  proof (cases "4 \<le> clen c")
    case True
    then have "cpos c + 4 \<le> length (cbuf c)"
      using c(1) by (auto simp: in_bounds_def word_le_nat_alt)
    then have h: "?h < 0xfffffffc" using no_wrap_header c(2) by blast
    then have ok: "read_string c \<noteq> Inl Out_of_bounds"
      using read_string_oob[OF c(1)] by auto
    have "in_bounds (c\<lparr>cpos := cpos c + unat (4 + ?h), clen := clen c - (4 + ?h)\<rparr>)"
      if "\<not> clen c < 4 + ?h" using in_bounds_need(2)[OF c(1) that] .
    then show ?thesis using read_string_cases[OF c(1) True] ok
      by (auto split: option.splits if_splits)
  next
    case False
    then show ?thesis by (simp add: read_string_def rbind_def rneed_def not_le)
  qed
qed

lemma safe_loop: "safe rd \<Longrightarrow> safe (read_loop False rd n)"
  by (induction n) (auto intro!: safe_bind safe_return)

lemmas safe_intros = safe_string safe_u32 safe_return safe_malformed safe_loop

lemma safe_executables: "safe executables_reader"
  unfolding executables_reader_def by (intro safe_bind safe_u32) (simp add: safe_intros)

text \<open>C30: the deserialisers of devices, boot commands, plugins, URLs and temporary autoboot options
  never load outside the payload and never fault, whatever bytes a client sends, as long as no
  four of them announce a length of 4294967292 or more.  They return a value or report a
  malformed message.\<close>

theorem deserialise_safe:
  assumes "wf_message m" and "no_wrap (msg_payload m)"
  shows "pb_protocol_deserialise_device e d m \<notin> {Inl Out_of_bounds, Inl Null_deref} \<and>
         pb_protocol_deserialise_boot_command b m \<notin> {Inl Out_of_bounds, Inl Null_deref} \<and>
         pb_protocol_deserialise_plugin_option p m \<notin> {Inl Out_of_bounds, Inl Null_deref} \<and>
         pb_protocol_deserialise_temp_autoboot m \<notin> {Inl Out_of_bounds, Inl Null_deref} \<and>
         pb_protocol_deserialise_string m \<notin> {Inl Out_of_bounds, Inl Null_deref}"
proof -
  have run: "run_reader r m \<notin> {Inl Out_of_bounds, Inl Null_deref}" if "safe r" for r :: "'a reader"
  proof -
    have "in_bounds (msg_cursor m)" using assms(1) by (simp add: in_bounds_def msg_cursor_def wf_message_def)
    from safeD[OF that this] assms(2) show ?thesis
      by (cases "r (msg_cursor m)") (auto simp: run_reader_def msg_cursor_def)
  qed
  have "pb_protocol_deserialise_device e d m \<notin> {Inl Out_of_bounds, Inl Null_deref}"
    unfolding pb_protocol_deserialise_device_def device_reader_def
    by (intro run safe_bind[OF safe_string] safe_load safe_return) simp
  moreover have "pb_protocol_deserialise_boot_command b m \<notin> {Inl Out_of_bounds, Inl Null_deref}"
    unfolding pb_protocol_deserialise_boot_command_def boot_command_reader_def
    by (intro run safe_bind safe_intros)
  moreover have "pb_protocol_deserialise_plugin_option p m \<notin> {Inl Out_of_bounds, Inl Null_deref}"
    unfolding pb_protocol_deserialise_plugin_option_def plugin_option_reader_def
    by (intro run safe_bind safe_executables safe_intros)
  moreover have "pb_protocol_deserialise_temp_autoboot m \<notin> {Inl Out_of_bounds, Inl Null_deref}"
    unfolding pb_protocol_deserialise_temp_autoboot_def temp_autoboot_reader_def
    by (intro run safe_bind safe_u32) (auto intro!: safe_bind safe_intros)
  moreover have "pb_protocol_deserialise_string m \<notin> {Inl Out_of_bounds, Inl Null_deref}"
    using run[OF safe_string] unfolding pb_protocol_deserialise_string_def
    by (auto split: sum.splits rd_err.splits)
  ultimately show ?thesis by blast
qed

theorem deserialise_safe_witness:
  "pb_protocol_deserialise_boot_command sample_boot_command
     \<lparr>msg_action = 5, msg_payload_len = 6, msg_payload = be32 9 @ ''sd''\<rparr>
       \<notin> {Inl Out_of_bounds, Inl Null_deref}"
  by (rule deserialise_safe[THEN conjunct2, THEN conjunct1])
     (simp_all add: wf_message_def PB_PROTOCOL_MAX_PAYLOAD_SIZE_def no_wrap_def upt_rec header_at_def
       be32_def un_be32_def)

end
