(* ===== verification/Crypt.thy ===== *)
theory Crypt
  imports Prelude
begin

text \<open>
  Passwords, \<^verbatim>\<open>lib/crypt/crypt.c\<close>: the root password in \<^verbatim>\<open>/etc/shadow\<close>.  The shadow file is a list of names
  and password fields; the functions of the C library it rests on, \<^verbatim>\<open>crypt\<close> and \<^verbatim>\<open>random\<close>, and whether the
  file can be locked, read and written, are parameters.
\<close>

type_synonym shadow = "(string \<times> string) list"

record crypt_env =
  ce_crypt :: "string \<Rightarrow> string \<Rightarrow> string option"
  ce_random_salt :: string
  ce_lock :: bool
  ce_read :: bool
  ce_write :: bool

text \<open>\<^verbatim>\<open>getspnam (name)\<close>.\<close>

definition getspnam :: "shadow \<Rightarrow> string \<Rightarrow> string option" where
  "getspnam sh name = map_of sh name"

text \<open>Every entry whose name begins with \<^verbatim>\<open>root\<close> gets the hash.\<close>

definition crypt_set_password_hash :: "crypt_env \<Rightarrow> string \<Rightarrow> shadow \<Rightarrow> int \<times> shadow" where
  "crypt_set_password_hash env hash sh =
     (if \<not> ce_lock env then (- 1, sh)
      else if \<not> ce_read env then (- 1, sh)
      else
        (let is_root = (\<lambda>name. strneq name ''root'' (length ''root''));
             new = map (\<lambda>(name, pwd). (name, if is_root name then hash else pwd)) sh;
             new = (if list_ex (\<lambda>(name, pwd). is_root name) sh then new else new @ [(''root'', hash)])
         in if \<not> ce_write env then (- 1, sh) else (0, new)))"

definition crypt_hash_password :: "crypt_env \<Rightarrow> cstr \<Rightarrow> shadow \<Rightarrow> string option" where
  "crypt_hash_password env password sh =
     (case getspnam sh ''root'' of
        None \<Rightarrow> None
      | Some pwd \<Rightarrow>
          (let salt = (if length pwd \<noteq> 0 then pwd else ''$6$'' @ ce_random_salt env)
           in ce_crypt env (case password of Some p \<Rightarrow> p | None \<Rightarrow> []) salt))"

definition crypt_set_password :: "crypt_env \<Rightarrow> cstr \<Rightarrow> shadow \<Rightarrow> int \<times> shadow" where
  "crypt_set_password env password sh =
     (if password = None \<or> password = Some [] then crypt_set_password_hash env [] sh
      else (case crypt_hash_password env password sh of
              None \<Rightarrow> (- 1, sh)
            | Some hash \<Rightarrow> crypt_set_password_hash env hash sh))"

definition crypt_get_hash :: "shadow \<Rightarrow> cstr" where
  "crypt_get_hash sh = getspnam sh ''root''"

definition crypt_check_password :: "crypt_env \<Rightarrow> shadow \<Rightarrow> cstr \<Rightarrow> bool" where
  "crypt_check_password env sh password =
     (case getspnam sh ''root'' of
        None \<Rightarrow> False
      | Some pwd \<Rightarrow>
          (case ce_crypt env (case password of Some p \<Rightarrow> p | None \<Rightarrow> []) pwd of
             None \<Rightarrow> False
           | Some hash \<Rightarrow> strneq pwd hash (length pwd)))"

section \<open>Properties\<close>

lemma getspnam_set_hash:
  assumes "crypt_set_password_hash env hash sh = (0, sh')" "getspnam sh ''root'' \<noteq> None"
  shows "getspnam sh' ''root'' = Some hash"
proof -
  let ?r = "\<lambda>name. strneq name ''root'' (length ''root'')"
  let ?new = "map (\<lambda>(name, pwd). (name, if ?r name then hash else pwd)) sh"
  have sh': "sh' = (if list_ex (\<lambda>(name, pwd). ?r name) sh then ?new else ?new @ [(''root'', hash)])"
    using assms by (auto simp: crypt_set_password_hash_def Let_def split: if_splits)
  have m: "map_of ?new name = map_option (\<lambda>pwd. if ?r name then hash else pwd) (map_of sh name)" for name
    by (induction sh) (auto split: prod.splits)
  have r: "?r ''root''" by (simp add: strneq_def)
  show ?thesis using assms(2) m[of "''root''"] r by (auto simp: sh' getspnam_def map_of_append)
qed

text \<open>An account whose name only begins with \<^verbatim>\<open>root\<close> gets the password too.\<close>

lemma prefix_account_gets_password:
  "ce_lock env \<Longrightarrow> ce_read env \<Longrightarrow> ce_write env \<Longrightarrow>
   crypt_set_password_hash env hash [(''rootuser'', x), (''root'', y)] = (0, [(''rootuser'', hash), (''root'', hash)])"
  by (simp add: crypt_set_password_hash_def strneq_def Let_def)


text \<open>A toy hash: the setting's first character and the password.\<close>

definition sample_crypt :: crypt_env where
  "sample_crypt = \<lparr>ce_crypt = (\<lambda>p s. if s = [] then None else Some (take 1 s @ p)), ce_random_salt = ''ab'', ce_lock = True, ce_read = True, ce_write = True\<rparr>"


end
