(* ===== verification/Server.thy ===== *)
theory Server
  imports Resource Messages Crypt
begin

text \<open>
  The server, \<^verbatim>\<open>discover/discover-server.c\<close>: the clients on the socket, which of them may change
  anything, the messages they send and what the device handler tells them.

  Clients live in the heap \<open>sv_client\<close>.  A message that was written to a client is appended to \<open>cl_out\<close>.  \<open>cl_io\<close> says that the client's I/O
  waiter is in the wait set, \<open>cl_root\<close> is what the socket reports of the peer.  The timeouts of
  authenticated clients are in \<open>sv_timers\<close>, a waiter with the client that is its argument, and
  \<open>sv_platform_hash\<close> is what \<^verbatim>\<open>platform_set_password\<close> was given last.
\<close>

section \<open>Data\<close>

record client =
  cl_io :: bool
  cl_remote_closed :: bool
  cl_can_modify :: bool
  cl_auth_waiter :: "nat option"
  cl_root :: bool
  cl_out :: "pb_message list"

record discover_server =
  sv_client :: "nat \<Rightarrow> client option"
  sv_clients :: "nat list"
  sv_status :: "status list"
  sv_restrict_clients :: bool
  sv_timers :: "(nat \<times> nat) list"
  sv_next :: nat
  sv_handler :: device_handler
  sv_platform :: platform_state
  sv_shadow :: shadow
  sv_platform_hash :: cstr

text \<open>What the server gets from outside: whether a write to a client succeeds, the texts of the messages, the
  contents of fresh memory, and the parameters of the handler's operations.\<close>

record server_env =
  se_endian :: endian
  se_write :: "nat \<Rightarrow> pb_message \<Rightarrow> bool"
  se_mem :: "u32 \<Rightarrow> string"
  se_mem_bool :: bool
  se_text :: "handler_msg \<Rightarrow> string"
  se_sysinfo :: system_info
  se_crypt :: crypt_env
  se_boot :: boot_env
  se_parsers :: "(string \<times> parser_fn) list"
  se_resolvers :: resolvers
  se_ifaces :: "net_interface list"
  se_route :: "pb_url \<Rightarrow> string option"
  se_async :: "pb_url \<Rightarrow> bool"
  se_process :: bool
  se_config_mem :: config
  se_command_mem :: boot_command

datatype s_fault =
    Handler_fault h_fault
  | Wire_fault rd_err
  | Serialise_fault ser_err
  | Freed_waiter
  | Freed_client
  | Null_string_arg

type_synonym 'a s_m = "s_fault + 'a"

definition sbind :: "'a s_m \<Rightarrow> ('a \<Rightarrow> 'b s_m) \<Rightarrow> 'b s_m" where
  "sbind m k = (case m of Inl e \<Rightarrow> Inl e | Inr x \<Rightarrow> k x)"

definition get_client :: "nat \<Rightarrow> discover_server \<Rightarrow> client s_m" where
  "get_client c sv = (case sv_client sv c of Some cl \<Rightarrow> Inr cl | None \<Rightarrow> Inl Freed_client)"

definition put_client :: "nat \<Rightarrow> client \<Rightarrow> discover_server \<Rightarrow> discover_server" where
  "put_client c cl sv = sv\<lparr>sv_client := (sv_client sv)(c := Some cl)\<rparr>"

section \<open>Writing to a client\<close>

definition client_write_message :: "server_env \<Rightarrow> nat \<Rightarrow> pb_message \<Rightarrow> discover_server \<Rightarrow> (int \<times> discover_server) s_m" where
  "client_write_message env c m sv =
     sbind (get_client c sv) (\<lambda>cl.
     if cl_remote_closed cl then Inr (- 1, sv)
     else if se_write env c m then Inr (0, put_client c (cl\<lparr>cl_out := cl_out cl @ [m]\<rparr>) sv)
     else Inr (- 1, put_client c (cl\<lparr>cl_remote_closed := True\<rparr>) sv))"

text \<open>The shape the \<^verbatim>\<open>write_\<dots>_message\<close> functions share: allocate, serialise, write.\<close>

definition write_serialised ::
    "server_env \<Rightarrow> nat \<Rightarrow> u32 \<Rightarrow> u32 \<Rightarrow> ser_err + string \<Rightarrow> discover_server \<Rightarrow> (int \<times> discover_server) s_m" where
  "write_serialised env c action len bytes sv =
     (case pb_protocol_create_message action len (se_mem env len) of
        Inl e \<Rightarrow> Inl (Wire_fault e)
      | Inr None \<Rightarrow> Inr (- 1, sv)
      | Inr (Some message) \<Rightarrow>
          (case bytes of
             Inl e \<Rightarrow> Inl (Serialise_fault e)
           | Inr bs \<Rightarrow> client_write_message env c (store_payload bs message) sv))"

definition write_device_add_message :: "server_env \<Rightarrow> device \<Rightarrow> nat \<Rightarrow> discover_server \<Rightarrow> (int \<times> discover_server) s_m" where
  "write_device_add_message env dev c =
     (let len = pb_protocol_device_len dev
      in write_serialised env c 0x1 len (pb_protocol_serialise_device (se_endian env) dev len))"

definition write_boot_option_add_message :: "server_env \<Rightarrow> boot_option \<Rightarrow> nat \<Rightarrow> discover_server \<Rightarrow> (int \<times> discover_server) s_m" where
  "write_boot_option_add_message env opt c =
     (let len = pb_protocol_boot_option_len opt
      in write_serialised env c 0x2 len (pb_protocol_serialise_boot_option opt len))"

definition write_plugin_option_add_message :: "server_env \<Rightarrow> plugin_option \<Rightarrow> nat \<Rightarrow> discover_server \<Rightarrow> (int \<times> discover_server) s_m" where
  "write_plugin_option_add_message env opt c =
     (let len = pb_protocol_plugin_option_len opt
      in write_serialised env c 0xc len (pb_protocol_serialise_plugin_option opt len))"

definition write_plugins_remove_message :: "server_env \<Rightarrow> nat \<Rightarrow> discover_server \<Rightarrow> (int \<times> discover_server) s_m" where
  "write_plugins_remove_message env c = write_serialised env c 0xd 0 (Inr [])"

definition write_device_remove_message :: "server_env \<Rightarrow> cstr \<Rightarrow> nat \<Rightarrow> discover_server \<Rightarrow> (int \<times> discover_server) s_m" where
  "write_device_remove_message env id' c sv =
     (case id' of
        None \<Rightarrow> Inl Null_string_arg
      | Some s \<Rightarrow> write_serialised env c 0x3 (word_of_nat (length s + 4)) (Inr (ser_str id')) sv)"

definition write_boot_status_message :: "server_env \<Rightarrow> status \<Rightarrow> nat \<Rightarrow> discover_server \<Rightarrow> (int \<times> discover_server) s_m" where
  "write_boot_status_message env status c =
     (let len = pb_protocol_boot_status_len status
      in write_serialised env c 0x6 len (pb_protocol_serialise_boot_status status len))"

definition write_system_info_message :: "server_env \<Rightarrow> system_info \<Rightarrow> nat \<Rightarrow> discover_server \<Rightarrow> (int \<times> discover_server) s_m" where
  "write_system_info_message env sysinfo c =
     (let len = pb_protocol_system_info_len sysinfo
      in write_serialised env c 0x8 len (pb_protocol_serialise_system_info sysinfo len))"

definition write_config_message :: "server_env \<Rightarrow> config \<Rightarrow> nat \<Rightarrow> discover_server \<Rightarrow> (int \<times> discover_server) s_m" where
  "write_config_message env config c =
     (let len = pb_protocol_config_len config
      in write_serialised env c 0x9 len (pb_protocol_serialise_config (se_endian env) config len))"

definition write_authenticate_message :: "server_env \<Rightarrow> nat \<Rightarrow> discover_server \<Rightarrow> (int \<times> discover_server) s_m" where
  "write_authenticate_message env c sv =
     sbind (get_client c sv) (\<lambda>cl.
     let auth_msg = AUTH_MSG_RESPONSE (cl_can_modify cl); len = pb_protocol_authenticate_len auth_msg
     in write_serialised env c 0x10 len (pb_protocol_serialise_authenticate (se_endian env) auth_msg len) sv)"

section \<open>Notifications\<close>

text \<open>\<^verbatim>\<open>list_for_each_entry\<close> over the clients, whatever a write returns.\<close>

fun send_all :: "('a \<Rightarrow> discover_server \<Rightarrow> (int \<times> discover_server) s_m) \<Rightarrow> 'a list \<Rightarrow> discover_server \<Rightarrow> discover_server s_m" where
  "send_all f [] sv = Inr sv"
| "send_all f (c # cs) sv = sbind (f c sv) (\<lambda>(rc, sv). send_all f cs sv)"

abbreviation to_clients where
  "to_clients f sv \<equiv> send_all f (sv_clients sv) sv"

definition discover_server_notify_device_add :: "server_env \<Rightarrow> device \<Rightarrow> discover_server \<Rightarrow> discover_server s_m" where
  "discover_server_notify_device_add env device sv = to_clients (write_device_add_message env device) sv"

definition discover_server_notify_boot_option_add :: "server_env \<Rightarrow> boot_option \<Rightarrow> discover_server \<Rightarrow> discover_server s_m" where
  "discover_server_notify_boot_option_add env opt sv = to_clients (write_boot_option_add_message env opt) sv"

definition discover_server_notify_device_remove :: "server_env \<Rightarrow> device \<Rightarrow> discover_server \<Rightarrow> discover_server s_m" where
  "discover_server_notify_device_remove env device sv = to_clients (write_device_remove_message env (dev_id device)) sv"

text \<open>The \<^verbatim>\<open>boot_active\<close> member of the saved status is not assigned.\<close>

definition discover_server_notify_boot_status :: "server_env \<Rightarrow> status \<Rightarrow> discover_server \<Rightarrow> discover_server s_m" where
  "discover_server_notify_boot_status env status sv =
     (let entry = \<lparr>st_type = st_type status, st_message = st_message status, st_backlog = True, st_boot_active = se_mem_bool env\<rparr>
      in to_clients (write_boot_status_message env status) (sv\<lparr>sv_status := sv_status sv @ [entry]\<rparr>))"

definition discover_server_notify_system_info :: "server_env \<Rightarrow> system_info \<Rightarrow> discover_server \<Rightarrow> discover_server s_m" where
  "discover_server_notify_system_info env sysinfo sv = to_clients (write_system_info_message env sysinfo) sv"

definition discover_server_notify_config :: "server_env \<Rightarrow> config \<Rightarrow> discover_server \<Rightarrow> discover_server s_m" where
  "discover_server_notify_config env config sv = to_clients (write_config_message env config) sv"

definition discover_server_notify_plugin_option_add :: "server_env \<Rightarrow> plugin_option \<Rightarrow> discover_server \<Rightarrow> discover_server s_m" where
  "discover_server_notify_plugin_option_add env opt sv = to_clients (write_plugin_option_add_message env opt) sv"

definition discover_server_notify_plugins_remove :: "server_env \<Rightarrow> discover_server \<Rightarrow> discover_server s_m" where
  "discover_server_notify_plugins_remove env sv = to_clients (write_plugins_remove_message env) sv"

text \<open>The status structure of a handler message: that of a boot is active while there is no error.\<close>

definition handler_status :: "server_env \<Rightarrow> status_type \<Rightarrow> handler_msg \<Rightarrow> status" where
  "handler_status env t msg =
     \<lparr>st_type = t, st_message = Some (se_text env msg), st_backlog = False,
      st_boot_active = (case msg of From_boot m \<Rightarrow> t = STATUS_INFO | _ \<Rightarrow> False)\<rparr>"

text \<open>The calls the handler makes of the server; the others are not for the clients.\<close>

definition deliver :: "server_env \<Rightarrow> notification \<Rightarrow> discover_server \<Rightarrow> discover_server s_m" where
  "deliver env n sv =
     (case n of
        Notify_device_add d \<Rightarrow> discover_server_notify_device_add env d sv
      | Notify_device_remove d \<Rightarrow> discover_server_notify_device_remove env d sv
      | Notify_boot_option_add opt \<Rightarrow> discover_server_notify_boot_option_add env opt sv
      | Notify_plugin_option_add opt \<Rightarrow> discover_server_notify_plugin_option_add env opt sv
      | Notify_plugins_remove \<Rightarrow> discover_server_notify_plugins_remove env sv
      | Notify_config config \<Rightarrow> discover_server_notify_config env config sv
      | Notify_status t msg \<Rightarrow> discover_server_notify_boot_status env (handler_status env t msg) sv
      | _ \<Rightarrow> Inr sv)"

fun deliver_all :: "server_env \<Rightarrow> notification list \<Rightarrow> discover_server \<Rightarrow> discover_server s_m" where
  "deliver_all env [] sv = Inr sv"
| "deliver_all env (n # ns) sv = sbind (deliver env n sv) (deliver_all env ns)"

text \<open>An operation of the handler, with what it sends in the order of its calls; it never reads the clients.\<close>

definition run_handler ::
    "server_env \<Rightarrow> (platform_state \<Rightarrow> device_handler \<Rightarrow> (platform_state \<times> device_handler) h_m) \<Rightarrow>
     discover_server \<Rightarrow> discover_server s_m" where
  "run_handler env operation sv =
     sbind (map_sum Handler_fault id (operation (sv_platform sv) (sv_handler sv))) (\<lambda>(ps, h).
     deliver_all env (h_out h) (sv\<lparr>sv_handler := h\<lparr>h_out := []\<rparr>, sv_platform := ps\<rparr>))"

definition handler_only ::
    "(device_handler \<Rightarrow> device_handler h_m) \<Rightarrow> platform_state \<Rightarrow> device_handler \<Rightarrow> (platform_state \<times> device_handler) h_m" where
  "handler_only operation ps h = map_sum id (\<lambda>h. (ps, h)) (operation h)"

section \<open>Authentication\<close>

definition discover_server_set_auth_mode :: "server_env \<Rightarrow> bool \<Rightarrow> discover_server \<Rightarrow> discover_server s_m" where
  "discover_server_set_auth_mode env restrict sv =
     to_clients
       (\<lambda>c sv. sbind (get_client c sv) (\<lambda>cl.
          write_authenticate_message env c (put_client c (cl\<lparr>cl_can_modify := \<not> restrict\<rparr>) sv)))
       (sv\<lparr>sv_restrict_clients := restrict\<rparr>)"

text \<open>\<^verbatim>\<open>waiter_remove\<close> of an authentication timeout.\<close>

definition timer_remove :: "nat \<Rightarrow> discover_server \<Rightarrow> discover_server s_m" where
  "timer_remove w sv =
     (if w \<notin> fst ` set (sv_timers sv) then Inl Freed_waiter
      else Inr (sv\<lparr>sv_timers := filter (\<lambda>t. fst t \<noteq> w) (sv_timers sv)\<rparr>))"

text \<open>The callback of the timeout, after which the wait set removes the waiter.\<close>

definition client_auth_timeout :: "server_env \<Rightarrow> nat \<Rightarrow> discover_server \<Rightarrow> discover_server s_m" where
  "client_auth_timeout env c sv =
     sbind (get_client c sv) (\<lambda>cl.
     sbind (write_authenticate_message env c (put_client c (cl\<lparr>cl_auth_waiter := None, cl_can_modify := False\<rparr>) sv))
       (\<lambda>(rc, sv). Inr sv))"

definition timer_fire :: "server_env \<Rightarrow> nat \<Rightarrow> discover_server \<Rightarrow> discover_server s_m" where
  "timer_fire env w sv =
     (case map_of (sv_timers sv) w of
        None \<Rightarrow> Inr sv
      | Some c \<Rightarrow> sbind (client_auth_timeout env c sv) (timer_remove w))"

definition text_status :: "status_type \<Rightarrow> string \<Rightarrow> status" where
  "text_status t msg = \<lparr>st_type = t, st_message = Some msg, st_backlog = False, st_boot_active = False\<rparr>"

definition reply :: "server_env \<Rightarrow> status_type \<Rightarrow> string \<Rightarrow> nat \<Rightarrow> int \<Rightarrow> discover_server \<Rightarrow> (int \<times> discover_server) s_m" where
  "reply env t msg c rc sv = sbind (write_boot_status_message env (text_status t msg) c sv) (\<lambda>(x, sv). Inr (rc, sv))"

definition authenticate_client :: "server_env \<Rightarrow> nat \<Rightarrow> discover_server \<Rightarrow> (int \<times> discover_server) s_m" where
  "authenticate_client env c sv =
     sbind (get_client c sv) (\<lambda>cl.
     sbind (write_authenticate_message env c (put_client c (cl\<lparr>cl_can_modify := True\<rparr>) sv)) (\<lambda>(rc, sv).
     sbind (case cl_auth_waiter cl of None \<Rightarrow> Inr sv | Some w \<Rightarrow> timer_remove w sv) (\<lambda>sv.
     sbind (get_client c sv) (\<lambda>cl.
     reply env STATUS_INFO ''Authenticated successfully'' c rc
       (put_client c (cl\<lparr>cl_auth_waiter := Some (sv_next sv)\<rparr>)
          (sv\<lparr>sv_timers := sv_timers sv @ [(sv_next sv, c)], sv_next := Suc (sv_next sv)\<rparr>))))))"

definition change_password :: "server_env \<Rightarrow> cstr \<Rightarrow> nat \<Rightarrow> discover_server \<Rightarrow> (int \<times> discover_server) s_m" where
  "change_password env new_password c sv =
     (let (rc, sh) = crypt_set_password (se_crypt env) new_password (sv_shadow sv); sv = sv\<lparr>sv_shadow := sh\<rparr>
      in if rc \<noteq> 0 then reply env STATUS_ERROR ''Error setting password'' c rc sv
         else
           let clear = (new_password = None \<or> new_password = Some []);
               sv = sv\<lparr>sv_platform_hash := (if clear then Some [] else crypt_get_hash sh)\<rparr>
           in sbind (discover_server_set_auth_mode env (\<not> clear) sv)
             (reply env STATUS_ERROR ''Password updated successfully'' c rc))"

definition open_encrypted :: "server_env \<Rightarrow> cstr \<Rightarrow> cstr \<Rightarrow> device_handler \<Rightarrow> device_handler h_m" where
  "open_encrypted env password device_id h =
     (case device_id of
        None \<Rightarrow> Inr (device_handler_status STATUS_ERROR (No_encrypted_device (fmt_s None)) h)
      | Some i \<Rightarrow> device_handler_open_encrypted_dev (se_process env) (fmt_s password) i h)"

definition discover_server_handle_auth_message ::
    "server_env \<Rightarrow> nat \<Rightarrow> auth_message \<Rightarrow> discover_server \<Rightarrow> (int \<times> discover_server) s_m" where
  "discover_server_handle_auth_message env c auth_msg sv =
     (case auth_msg of
        AUTH_MSG_REQUEST password \<Rightarrow>
          if \<not> crypt_check_password (se_crypt env) (sv_shadow sv) password
          then reply env STATUS_ERROR ''Password incorrect'' c (- 1) sv
          else authenticate_client env c sv
      | AUTH_MSG_SET password new_password \<Rightarrow>
          if sv_restrict_clients sv \<and> \<not> crypt_check_password (se_crypt env) (sv_shadow sv) password
          then reply env STATUS_ERROR ''Password incorrect'' c (- 1) sv
          else change_password env new_password c sv
      | AUTH_MSG_DECRYPT password device_id \<Rightarrow>
          sbind (get_client c sv) (\<lambda>cl.
          if \<not> cl_can_modify cl
          then reply env STATUS_ERROR ''Must authenticate before opening encrypted device'' c (- 1) sv
          else sbind (run_handler env (handler_only (open_encrypted env password device_id)) sv) (\<lambda>sv. Inr (0, sv)))
      | _ \<Rightarrow> Inr (- 1, sv))"

section \<open>Messages from a client\<close>

text \<open>\<^verbatim>\<open>client_destructor\<close>; the client leaves the list.\<close>

definition client_destroy :: "nat \<Rightarrow> discover_server \<Rightarrow> discover_server s_m" where
  "client_destroy c sv =
     sbind (get_client c sv) (\<lambda>cl.
     if \<not> cl_io cl then Inl Freed_waiter
     else
       sbind (case cl_auth_waiter cl of None \<Rightarrow> Inr sv | Some w \<Rightarrow> timer_remove w sv) (\<lambda>sv.
       Inr (sv\<lparr>sv_clients := remove1 c (sv_clients sv), sv_client := (sv_client sv)(c := None)\<rparr>)))"

text \<open>A deserialiser's result: a malformed message is an ordinary failure, anything else a fault.\<close>

definition parsed :: "rd_err + 'a \<Rightarrow> 'a option s_m" where
  "parsed r = (case r of Inl Malformed \<Rightarrow> Inr None | Inl e \<Rightarrow> Inl (Wire_fault e) | Inr x \<Rightarrow> Inr (Some x))"

definition boot_message :: "server_env \<Rightarrow> bool \<Rightarrow> pb_message \<Rightarrow> discover_server \<Rightarrow> (int \<times> discover_server) s_m" where
  "boot_message env can_modify m sv =
     sbind (parsed (pb_protocol_deserialise_boot_command (se_command_mem env) m)) (\<lambda>cmd.
     case cmd of
       None \<Rightarrow> Inr (0, sv)
     | Some cmd \<Rightarrow>
         sbind (run_handler env (handler_only (device_handler_boot (se_boot env) can_modify cmd)) sv) (\<lambda>sv. Inr (0, sv)))"

definition process_url_message :: "server_env \<Rightarrow> cstr \<Rightarrow> device_handler \<Rightarrow> device_handler h_m" where
  "process_url_message env url h =
     (case url of
        None \<Rightarrow> Inl (Url_error Assert_failed)
      | Some u \<Rightarrow>
          device_handler_process_url (se_parsers env) (se_resolvers env) (se_boot env) (se_route env) (se_async env) u None None h)"

text \<open>The messages of a client that may not make changes; the result is not 0 after a failed
  authentication.\<close>

definition process_unprivileged :: "server_env \<Rightarrow> nat \<Rightarrow> pb_message \<Rightarrow> discover_server \<Rightarrow> (int \<times> discover_server) s_m" where
  "process_unprivileged env c m sv =
     (if msg_action m = 0x5 then boot_message env False m sv
      else if msg_action m = 0x7
      then sbind (run_handler env (handler_only device_handler_cancel_default) sv) (\<lambda>sv. Inr (0, sv))
      else if msg_action m = 0x10
      then sbind (parsed (pb_protocol_deserialise_authenticate (se_endian env) m)) (\<lambda>auth_msg.
           case auth_msg of
             None \<Rightarrow> Inr (- 1, sv)
           | Some a \<Rightarrow> discover_server_handle_auth_message env c a sv)
      else reply env STATUS_ERROR ''Client must run as root to make changes'' c 0 sv)"

definition process_privileged :: "server_env \<Rightarrow> nat \<Rightarrow> pb_message \<Rightarrow> discover_server \<Rightarrow> (int \<times> discover_server) s_m" where
  "process_privileged env c m sv =
     (let done = (\<lambda>m. sbind m (\<lambda>sv. Inr (0, sv)))
      in if msg_action m = 0x5 then boot_message env True m sv
         else if msg_action m = 0x7 then done (run_handler env (handler_only device_handler_cancel_default) sv)
         else if msg_action m = 0xa then done (run_handler env (device_handler_reinit (se_ifaces env)) sv)
         else if msg_action m = 0x9
         then sbind (parsed (pb_protocol_deserialise_config (se_config_mem env) m)) (\<lambda>config.
              case config of
                None \<Rightarrow> Inr (0, sv)
              | Some config \<Rightarrow> done (run_handler env (device_handler_update_config (se_ifaces env) False config) sv))
         else if msg_action m = 0xb
         then sbind (map_sum Wire_fault id (pb_protocol_deserialise_string m)) (\<lambda>url.
              done (run_handler env (handler_only (process_url_message env url)) sv))
         else if msg_action m = 0xe
         then sbind (map_sum Wire_fault id (pb_protocol_deserialise_string m)) (\<lambda>url.
              done (run_handler env (handler_only (\<lambda>h. Inr (device_handler_install_plugin (se_process env)
                (case url of Some u \<Rightarrow> u | None \<Rightarrow> []) h))) sv))
         else if msg_action m = 0xf
         then sbind (parsed (pb_protocol_deserialise_temp_autoboot m)) (\<lambda>opt.
              case opt of
                None \<Rightarrow> Inr (0, sv)
              | Some opt \<Rightarrow> done (run_handler env (handler_only (device_handler_apply_temp_autoboot (se_boot env) opt)) sv))
         else if msg_action m = 0x10
         then sbind (parsed (pb_protocol_deserialise_authenticate (se_endian env) m)) (\<lambda>auth_msg.
              case auth_msg of
                None \<Rightarrow> Inr (0, sv)
              | Some a \<Rightarrow> sbind (discover_server_handle_auth_message env c a sv) (\<lambda>(rc, sv). Inr (0, sv)))
         else Inr (0, sv))"

text \<open>\<open>message\<close> is what \<^verbatim>\<open>pb_protocol_read_message\<close> read from the client, \<open>None\<close> when the connection has ended.\<close>

definition discover_server_process_message ::
    "server_env \<Rightarrow> nat \<Rightarrow> pb_message option \<Rightarrow> discover_server \<Rightarrow> (int \<times> discover_server) s_m" where
  "discover_server_process_message env c message sv =
     (case message of
        None \<Rightarrow> sbind (client_destroy c sv) (\<lambda>sv. Inr (0, sv))
      | Some m \<Rightarrow>
          sbind (get_client c sv) (\<lambda>cl.
          if cl_can_modify cl then process_privileged env c m sv else process_unprivileged env c m sv))"

text \<open>The wait set calls back for a client that is ready, and removes the waiter when the callback fails.\<close>

definition client_ready :: "server_env \<Rightarrow> nat \<Rightarrow> pb_message option \<Rightarrow> discover_server \<Rightarrow> discover_server s_m" where
  "client_ready env c message sv =
     sbind (discover_server_process_message env c message sv) (\<lambda>(rc, sv).
     if rc = 0 then Inr sv
     else sbind (get_client c sv) (\<lambda>cl. Inr (put_client c (cl\<lparr>cl_io := False\<rparr>) sv)))"

section \<open>Connections\<close>

text \<open>Send one after the other, up to the first that fails.\<close>

fun send_until :: "(discover_server \<Rightarrow> (int \<times> discover_server) s_m) list \<Rightarrow> discover_server \<Rightarrow> (bool \<times> discover_server) s_m" where
  "send_until [] sv = Inr (True, sv)"
| "send_until (f # fs) sv = sbind (f sv) (\<lambda>(rc, sv). if rc \<noteq> 0 then Inr (False, sv) else send_until fs sv)"

text \<open>A device with its options, as they are when the message is built.\<close>

fun option_messages :: "server_env \<Rightarrow> nat \<Rightarrow> device_handler \<Rightarrow> nat list \<Rightarrow> (discover_server \<Rightarrow> (int \<times> discover_server) s_m) list h_m" where
  "option_messages env c h [] = Inr []"
| "option_messages env c h (r # rs) =
     hbind (get_opt h r) (\<lambda>opt.
     hbind (option_messages env c h rs) (\<lambda>ms. Inr (write_boot_option_add_message env (dbo_option opt) c # ms)))"

fun device_messages :: "server_env \<Rightarrow> nat \<Rightarrow> device_handler \<Rightarrow> nat list \<Rightarrow> (discover_server \<Rightarrow> (int \<times> discover_server) s_m) list h_m" where
  "device_messages env c h [] = Inr []"
| "device_messages env c h (d # ds) =
     hbind (get_dev h d) (\<lambda>dev.
     hbind (option_messages env c h (dd_boot_options dev)) (\<lambda>opts.
     hbind (device_messages env c h ds) (\<lambda>ms.
     Inr (write_device_add_message env (dd_device dev) c # opts @ ms))))"

text \<open>\<open>uid\<close> is the user of the peer, \<open>None\<close> when it cannot be determined.  Everything is sent up to the first
  failure; the status backlog and the plugins are sent whatever the writes return.\<close>

definition discover_server_process_connection :: "server_env \<Rightarrow> nat option \<Rightarrow> discover_server \<Rightarrow> discover_server s_m" where
  "discover_server_process_connection env uid sv =
     (let c = sv_next sv;
          cl = \<lparr>cl_io = True, cl_remote_closed = False,
                cl_can_modify = (if sv_restrict_clients sv then uid = Some 0 else True),
                cl_auth_waiter = None, cl_root = (uid = Some 0), cl_out = []\<rparr>;
          sv = sv\<lparr>sv_clients := c # sv_clients sv, sv_client := (sv_client sv)(c := Some cl), sv_next := Suc c\<rparr>
      in sbind (map_sum Handler_fault id (device_messages env c (sv_handler sv) (h_devices (sv_handler sv)))) (\<lambda>devices.
         sbind (send_until
           ([write_authenticate_message env c, write_system_info_message env (se_sysinfo env) c,
             write_config_message env (ps_config (sv_platform sv)) c] @ devices) sv) (\<lambda>(ok, sv).
         if \<not> ok then Inr sv
         else
           sbind (send_all (\<lambda>status. write_boot_status_message env status c) (sv_status sv) sv) (\<lambda>sv.
           send_all (\<lambda>opt. write_plugin_option_add_message env opt c) (h_plugins (sv_handler sv)) sv))))"

text \<open>The structure is not zeroed: \<open>mem\<close> is the initial value of the restriction, until
  \<^verbatim>\<open>discover_server_set_auth_mode\<close> is called for a platform that restricts its clients.\<close>

definition discover_server_init :: "bool \<Rightarrow> device_handler \<Rightarrow> platform_state \<Rightarrow> shadow \<Rightarrow> discover_server" where
  "discover_server_init mem h ps sh =
     \<lparr>sv_client = (\<lambda>_. None), sv_clients = [], sv_status = [], sv_restrict_clients = mem, sv_timers = [], sv_next = 0, sv_handler = h,
      sv_platform = ps, sv_shadow = sh, sv_platform_hash = None\<rparr>"

section \<open>What an operation leaves\<close>

definition yields :: "('a \<Rightarrow> bool) \<Rightarrow> 'a s_m \<Rightarrow> bool" where
  "yields P m \<longleftrightarrow> (\<forall>x. m = Inr x \<longrightarrow> P x)"

lemma yields_simps [simp]: "yields P (Inr x) \<longleftrightarrow> P x" "yields P (Inl e)"
  by (simp_all add: yields_def)

lemma sbind_simps [simp]: "sbind (Inr x) k = k x" "sbind (Inl e) k = Inl e"
  by (simp_all add: sbind_def)

lemma yields_sbind: "yields Q m \<Longrightarrow> (\<And>x. Q x \<Longrightarrow> yields P (k x)) \<Longrightarrow> yields P (sbind m k)"
  by (cases m) simp_all

lemma yields_True_sbind: "(\<And>x. yields P (k x)) \<Longrightarrow> yields P (sbind m k)"
  by (cases m) simp_all

lemma yields_mono: "yields Q m \<Longrightarrow> (\<And>x. Q x \<Longrightarrow> P x) \<Longrightarrow> yields P m"
  by (simp add: yields_def)

lemma yieldsD: "yields P m \<Longrightarrow> m = Inr x \<Longrightarrow> P x"
  by (simp add: yields_def)

text \<open>The rights of the clients and what the server protects are untouched: only messages went out.\<close>

definition rights :: "client \<Rightarrow> client" where
  "rights cl = cl\<lparr>cl_remote_closed := False, cl_out := []\<rparr>"

definition only_writes :: "discover_server \<Rightarrow> discover_server \<Rightarrow> bool" where
  "only_writes sv sv' \<longleftrightarrow>
     (\<forall>c. map_option rights (sv_client sv' c) = map_option rights (sv_client sv c)) \<and>
     sv_clients sv' = sv_clients sv \<and> sv_restrict_clients sv' = sv_restrict_clients sv \<and> sv_timers sv' = sv_timers sv \<and>
     sv_next sv' = sv_next sv \<and> sv_handler sv' = sv_handler sv \<and> sv_platform sv' = sv_platform sv \<and>
     sv_shadow sv' = sv_shadow sv \<and> sv_platform_hash sv' = sv_platform_hash sv"

lemma only_writes_refl [simp]: "only_writes sv sv"
  by (simp add: only_writes_def)

lemma only_writes_trans: "only_writes a b \<Longrightarrow> only_writes b c \<Longrightarrow> only_writes a c"
  by (simp add: only_writes_def)

lemma only_writes_status [simp]: "only_writes sv (sv\<lparr>sv_status := x\<rparr>)"
  by (simp add: only_writes_def)

lemma only_writes_client:
  assumes "only_writes sv sv'" "sv_client sv c = Some cl"
  obtains cl' where "sv_client sv' c = Some cl'" "cl_can_modify cl' = cl_can_modify cl" "cl_auth_waiter cl' = cl_auth_waiter cl"
    "cl_root cl' = cl_root cl" "cl_io cl' = cl_io cl"
proof -
  have "map_option rights (sv_client sv' c) = Some (rights cl)" using assms by (simp add: only_writes_def)
  then obtain cl' where "sv_client sv' c = Some cl'" "rights cl' = rights cl" by auto
  then show ?thesis using that by (cases cl, cases cl') (simp add: rights_def)
qed

lemma client_write_only:
  "yields (\<lambda>(rc, sv'). only_writes sv sv') (client_write_message env c m sv)"
  by (auto simp: client_write_message_def get_client_def put_client_def only_writes_def rights_def split: option.split)

lemma write_serialised_only: "yields (\<lambda>(rc, sv'). only_writes sv sv') (write_serialised env c action len bytes sv)"
  using client_write_only by (auto simp: write_serialised_def split: sum.splits option.splits)

named_theorems writes_only

lemma write_messages_only [writes_only]:
  "yields (\<lambda>(rc, sv'). only_writes sv sv') (write_device_add_message env dev c sv)"
  "yields (\<lambda>(rc, sv'). only_writes sv sv') (write_boot_option_add_message env opt c sv)"
  "yields (\<lambda>(rc, sv'). only_writes sv sv') (write_plugin_option_add_message env popt c sv)"
  "yields (\<lambda>(rc, sv'). only_writes sv sv') (write_plugins_remove_message env c sv)"
  "yields (\<lambda>(rc, sv'). only_writes sv sv') (write_device_remove_message env i c sv)"
  "yields (\<lambda>(rc, sv'). only_writes sv sv') (write_boot_status_message env status c sv)"
  "yields (\<lambda>(rc, sv'). only_writes sv sv') (write_system_info_message env sysinfo c sv)"
  "yields (\<lambda>(rc, sv'). only_writes sv sv') (write_config_message env config c sv)"
  "yields (\<lambda>(rc, sv'). only_writes sv sv') (write_authenticate_message env c sv)"
  by (auto simp: write_device_add_message_def write_boot_option_add_message_def write_plugin_option_add_message_def
      write_plugins_remove_message_def write_device_remove_message_def write_boot_status_message_def
      write_system_info_message_def write_config_message_def write_authenticate_message_def Let_def
      intro!: write_serialised_only yields_True_sbind split: option.split)

lemma send_all_only:
  assumes "\<And>x sv. yields (\<lambda>(rc, sv'). only_writes sv sv') (f x sv)"
  shows "yields (only_writes sv) (send_all f xs sv)"
proof (induction xs arbitrary: sv)
  case (Cons x xs)
  have "yields (only_writes sv) (case p of (rc, sv') \<Rightarrow> send_all f xs sv')" if "case p of (rc, sv') \<Rightarrow> only_writes sv sv'" for p
    using that Cons.IH by (auto intro: yields_mono only_writes_trans split: prod.splits)
  then show ?case by (auto intro: yields_sbind[OF assms])
qed simp

lemma deliver_only: "yields (only_writes sv) (deliver env n sv)"
proof -
  have s: "yields (only_writes sv) (discover_server_notify_boot_status env status sv)" for status
    unfolding discover_server_notify_boot_status_def Let_def
    by (rule yields_mono[OF send_all_only[OF writes_only(6)]]) (auto intro: only_writes_trans[OF only_writes_status])
  show ?thesis
    by (cases n) (simp_all add: deliver_def s discover_server_notify_device_add_def discover_server_notify_device_remove_def
        discover_server_notify_boot_option_add_def discover_server_notify_plugin_option_add_def
        discover_server_notify_plugins_remove_def discover_server_notify_config_def send_all_only writes_only)
qed

lemma deliver_all_only: "yields (only_writes sv) (deliver_all env ns sv)"
proof (induction ns arbitrary: sv)
  case (Cons n ns)
  show ?case using Cons.IH by (auto intro!: yields_sbind[OF deliver_only] intro: yields_mono only_writes_trans)
qed simp

lemma reply_only: "yields (\<lambda>(r, sv'). r = rc \<and> only_writes sv sv') (reply env t msg c rc sv)"
  unfolding reply_def by (rule yields_sbind[OF writes_only(6)]) auto

section \<open>The rights of the clients\<close>

text \<open>The waiter of a client, if it has one, is in the wait set with the client as its argument, and the other
  way round; the clients are listed once.\<close>

definition waiter_of :: "discover_server \<Rightarrow> nat \<Rightarrow> nat option" where
  "waiter_of sv c = Option.bind (sv_client sv c) cl_auth_waiter"

definition timers_ok :: "discover_server \<Rightarrow> bool" where
  "timers_ok sv \<longleftrightarrow>
     set (sv_clients sv) = dom (sv_client sv) \<and> distinct (sv_clients sv) \<and> (\<forall>c \<in> dom (sv_client sv). c < sv_next sv) \<and>
     distinct (map fst (sv_timers sv)) \<and> (\<forall>w \<in> fst ` set (sv_timers sv). w < sv_next sv) \<and>
     (\<forall>w c. (w, c) \<in> set (sv_timers sv) \<longleftrightarrow> waiter_of sv c = Some w)"

text \<open>While clients are restricted, one that may make changes is root or will lose the right.\<close>

definition rights_ok :: "discover_server \<Rightarrow> bool" where
  "rights_ok sv \<longleftrightarrow>
     (sv_restrict_clients sv \<longrightarrow>
       (\<forall>c cl. sv_client sv c = Some cl \<longrightarrow> cl_can_modify cl \<longrightarrow> cl_root cl \<or> cl_auth_waiter cl \<noteq> None))"

definition server_ok :: "discover_server \<Rightarrow> bool" where
  "server_ok sv \<longleftrightarrow> timers_ok sv \<and> rights_ok sv"

lemma only_writes_waiter: "only_writes sv sv' \<Longrightarrow> waiter_of sv' c = waiter_of sv c"
proof -
  assume "only_writes sv sv'"
  then have "map_option rights (sv_client sv' c) = map_option rights (sv_client sv c)" by (simp add: only_writes_def)
  then have "map_option (cl_auth_waiter \<circ> rights) (sv_client sv' c) = map_option (cl_auth_waiter \<circ> rights) (sv_client sv c)"
    by (metis option.map_comp)
  then show ?thesis by (cases "sv_client sv' c"; cases "sv_client sv c") (simp_all add: waiter_of_def rights_def)
qed

lemma only_writes_dom: "only_writes sv sv' \<Longrightarrow> dom (sv_client sv') = dom (sv_client sv)"
  unfolding only_writes_def dom_def by (metis (no_types, lifting) map_option_is_None)

lemma only_writes_sym: "only_writes sv sv' \<Longrightarrow> only_writes sv' sv"
  by (simp add: only_writes_def)

lemma only_writes_timers: "only_writes sv sv' \<Longrightarrow> timers_ok sv \<Longrightarrow> timers_ok sv'"
  by (simp add: timers_ok_def only_writes_waiter only_writes_dom) (simp add: only_writes_def)

lemma only_writes_rights:
  assumes "only_writes sv sv'" "rights_ok sv"
  shows "rights_ok sv'"
  unfolding rights_ok_def
proof (intro impI allI)
  fix c cl' assume "sv_restrict_clients sv'" "sv_client sv' c = Some cl'" "cl_can_modify cl'"
  moreover from this only_writes_client[OF only_writes_sym[OF assms(1)], of c cl'] obtain cl where
    "sv_client sv c = Some cl" "cl_can_modify cl = cl_can_modify cl'" "cl_auth_waiter cl = cl_auth_waiter cl'" "cl_root cl = cl_root cl'"
    by metis
  ultimately show "cl_root cl' \<or> cl_auth_waiter cl' \<noteq> None" using assms unfolding rights_ok_def only_writes_def by metis
qed

lemma only_writes_ok: "only_writes sv sv' \<Longrightarrow> server_ok sv \<Longrightarrow> server_ok sv'"
  by (simp add: server_ok_def only_writes_timers only_writes_rights)

lemma server_ok_irrelevant [simp]:
  "server_ok (sv\<lparr>sv_handler := h\<rparr>) = server_ok sv" "server_ok (sv\<lparr>sv_platform := ps\<rparr>) = server_ok sv"
  "server_ok (sv\<lparr>sv_shadow := sh\<rparr>) = server_ok sv" "server_ok (sv\<lparr>sv_platform_hash := x\<rparr>) = server_ok sv"
  "timers_ok (sv\<lparr>sv_restrict_clients := b\<rparr>) = timers_ok sv"
  by (simp_all add: server_ok_def timers_ok_def rights_ok_def waiter_of_def)

lemma run_handler_ok: "server_ok sv \<Longrightarrow> yields server_ok (run_handler env operation sv)"
  unfolding run_handler_def
  by (rule yields_True_sbind) (auto split: prod.splits intro!: yields_mono[OF deliver_all_only] elim: only_writes_ok)

lemma reply_ok: "server_ok sv \<Longrightarrow> yields (\<lambda>(r, sv'). server_ok sv') (reply env t msg c rc sv)"
  by (rule yields_mono[OF reply_only]) (auto intro: only_writes_ok)

text \<open>Changing the mode gives every client the same right.\<close>

lemma timers_ok_put_client:
  assumes "timers_ok sv" "sv_client sv c = Some cl" "cl_auth_waiter cl' = cl_auth_waiter cl"
  shows "timers_ok (put_client c cl' sv)"
proof -
  have "waiter_of (put_client c cl' sv) = waiter_of sv" using assms(2,3) by (auto simp: waiter_of_def put_client_def fun_eq_iff)
  then show ?thesis using assms(1,2) by (auto simp: timers_ok_def put_client_def)
qed

definition may :: "discover_server \<Rightarrow> nat \<Rightarrow> bool \<Rightarrow> bool" where
  "may sv c b \<longleftrightarrow> (\<forall>cl. sv_client sv c = Some cl \<longrightarrow> cl_can_modify cl = b)"

lemma only_writes_may: "only_writes sv sv' \<Longrightarrow> may sv c b \<Longrightarrow> may sv' c b"
  unfolding may_def by (metis only_writes_client only_writes_sym)

lemma auth_mode_loop:
  "timers_ok sv \<Longrightarrow> (\<And>c. c \<in> set (sv_clients sv) - set cs \<Longrightarrow> may sv c b) \<Longrightarrow>
   yields (\<lambda>sv'. timers_ok sv' \<and> sv_restrict_clients sv' = sv_restrict_clients sv \<and> (\<forall>c \<in> set (sv_clients sv'). may sv' c b))
     (send_all (\<lambda>c sv. sbind (get_client c sv) (\<lambda>cl. write_authenticate_message env c (put_client c (cl\<lparr>cl_can_modify := b\<rparr>) sv))) cs sv)"
proof (induction cs arbitrary: sv)
  case (Cons c cs)
  show ?case
  proof (cases "sv_client sv c")
    case (Some cl)
    let ?sv = "put_client c (cl\<lparr>cl_can_modify := b\<rparr>) sv"
    have t: "timers_ok ?sv" by (rule timers_ok_put_client[OF Cons.prems(1) Some]) simp
    have s: "sv_clients ?sv = sv_clients sv" "sv_restrict_clients ?sv = sv_restrict_clients sv" by (simp_all add: put_client_def)
    have m: "may ?sv x b" if "x \<in> set (sv_clients ?sv) - set cs" for x
      using that Cons.prems(2)[of x] by (auto simp: may_def put_client_def)
    have "yields (\<lambda>sv'. timers_ok sv' \<and> sv_restrict_clients sv' = sv_restrict_clients sv \<and> (\<forall>c \<in> set (sv_clients sv'). may sv' c b))
      (case p of (rc, sv') \<Rightarrow> send_all (\<lambda>c sv. sbind (get_client c sv) (\<lambda>cl. write_authenticate_message env c (put_client c (cl\<lparr>cl_can_modify := b\<rparr>) sv))) cs sv')"
      if w: "case p of (rc, sv') \<Rightarrow> only_writes ?sv sv'" for p
    proof -
      obtain rc sv1 where p: "p = (rc, sv1)" by fastforce
      then have w1: "only_writes ?sv sv1" using w by simp
      have "sv_clients sv1 = sv_clients sv" "sv_restrict_clients sv1 = sv_restrict_clients sv" using w1 s by (simp_all add: only_writes_def)
      moreover from this have "may sv1 x b" if "x \<in> set (sv_clients sv1) - set cs" for x
        using that m[of x] only_writes_may[OF w1] s by simp
      ultimately show ?thesis using Cons.IH[OF only_writes_timers[OF w1 t]] p by simp
    qed
    from yields_sbind[OF write_messages_only(9) this] Some show ?thesis by (simp add: get_client_def)
  qed (simp add: get_client_def)
qed simp

lemma rights_ok_none:
  assumes "timers_ok sv" "\<And>c. c \<in> set (sv_clients sv) \<Longrightarrow> may sv c (\<not> sv_restrict_clients sv)"
  shows "rights_ok sv"
proof -
  have "set (sv_clients sv) = dom (sv_client sv)" using assms(1) by (simp add: timers_ok_def)
  then show ?thesis using assms(2) unfolding rights_ok_def may_def by (metis domI)
qed

lemma set_auth_mode_ok:
  assumes "server_ok sv"
  shows "yields server_ok (discover_server_set_auth_mode env restrict sv)"
  unfolding discover_server_set_auth_mode_def
  by (rule yields_mono[OF auth_mode_loop[of "sv\<lparr>sv_restrict_clients := restrict\<rparr>" _ "\<not> restrict"]])
    (insert assms, auto simp: server_ok_def intro: rights_ok_none)

text \<open>A timer goes with its waiter.\<close>

definition drop_timer :: "nat option \<Rightarrow> (nat \<times> nat) list \<Rightarrow> (nat \<times> nat) list" where
  "drop_timer w ts = filter (\<lambda>t. Some (fst t) \<noteq> w) ts"

lemma timer_remove_eq:
  "w \<in> fst ` set (sv_timers sv) \<Longrightarrow> timer_remove w sv = Inr (sv\<lparr>sv_timers := drop_timer (Some w) (sv_timers sv)\<rparr>)"
  by (simp add: timer_remove_def drop_timer_def)

lemma drop_timer_None [simp]: "drop_timer None ts = ts"
  by (simp add: drop_timer_def)

lemma timers_okD:
  assumes "timers_ok sv"
  shows "(w, c) \<in> set (sv_timers sv) \<longleftrightarrow> waiter_of sv c = Some w" "distinct (map fst (sv_timers sv))"
    "w \<in> fst ` set (sv_timers sv) \<Longrightarrow> w < sv_next sv"
  using assms unfolding timers_ok_def by blast+

lemma timers_okI:
  assumes "set (sv_clients sv) = dom (sv_client sv)" "distinct (sv_clients sv)" "\<And>c. c \<in> dom (sv_client sv) \<Longrightarrow> c < sv_next sv"
    "distinct (map fst (sv_timers sv))" "\<And>w. w \<in> fst ` set (sv_timers sv) \<Longrightarrow> w < sv_next sv"
    "\<And>w c. (w, c) \<in> set (sv_timers sv) \<longleftrightarrow> waiter_of sv c = Some w"
  shows "timers_ok sv"
  using assms by (simp add: timers_ok_def)

lemma timer_unique: "timers_ok sv \<Longrightarrow> waiter_of sv a = Some w \<Longrightarrow> waiter_of sv b = Some w \<Longrightarrow> a = b"
  using eq_key_imp_eq_value[of "sv_timers sv" w a b] by (simp add: timers_okD)

lemma timers_ok_drop:
  assumes "timers_ok sv" "sv_client sv c = Some cl" "cl_auth_waiter cl' = None"
  shows "timers_ok (put_client c cl' sv\<lparr>sv_timers := drop_timer (cl_auth_waiter cl) (sv_timers sv)\<rparr>)" (is "timers_ok ?sv")
proof (rule timers_okI)
  show "set (sv_clients ?sv) = dom (sv_client ?sv)" "distinct (sv_clients ?sv)" "\<And>c. c \<in> dom (sv_client ?sv) \<Longrightarrow> c < sv_next ?sv"
    using assms(1,2) by (auto simp: timers_ok_def put_client_def)
  show "distinct (map fst (sv_timers ?sv))" using timers_okD(2)[OF assms(1)] by (simp add: drop_timer_def distinct_map_filter)
  show "w < sv_next ?sv" if "w \<in> fst ` set (sv_timers ?sv)" for w
    using that timers_okD(3)[OF assms(1), of w] by (auto simp: drop_timer_def put_client_def)
  have w: "waiter_of ?sv x = (if x = c then None else waiter_of sv x)" for x
    using assms(2,3) by (auto simp: waiter_of_def put_client_def)
  have c: "waiter_of sv c = cl_auth_waiter cl" using assms(2) by (simp add: waiter_of_def)
  show "(w, x) \<in> set (sv_timers ?sv) \<longleftrightarrow> waiter_of ?sv x = Some w" for w x
    unfolding w using timer_unique[OF assms(1), of c w x] timers_okD(1)[OF assms(1), of w x] c
    by (auto simp: drop_timer_def put_client_def)
qed

text \<open>A new timer for a client that has none.\<close>

lemma timers_ok_add:
  assumes "timers_ok sv" "sv_client sv c = Some cl" "cl_auth_waiter cl = None" "cl_auth_waiter cl' = Some (sv_next sv)"
  shows "timers_ok (put_client c cl' (sv\<lparr>sv_timers := sv_timers sv @ [(sv_next sv, c)], sv_next := Suc (sv_next sv)\<rparr>))" (is "timers_ok ?sv")
proof (rule timers_okI)
  show "set (sv_clients ?sv) = dom (sv_client ?sv)" "distinct (sv_clients ?sv)" "\<And>c. c \<in> dom (sv_client ?sv) \<Longrightarrow> c < sv_next ?sv"
    using assms(1,2) by (auto simp: timers_ok_def put_client_def less_Suc_eq)
  have fresh: "sv_next sv \<notin> fst ` set (sv_timers sv)" using timers_okD(3)[OF assms(1)] by blast
  then show "distinct (map fst (sv_timers ?sv))" using timers_okD(2)[OF assms(1)] by (simp add: put_client_def)
  show "w < sv_next ?sv" if "w \<in> fst ` set (sv_timers ?sv)" for w
    using that timers_okD(3)[OF assms(1), of w] by (auto simp: put_client_def less_Suc_eq)
  have w: "waiter_of ?sv x = (if x = c then Some (sv_next sv) else waiter_of sv x)" for x
    using assms(2,4) by (auto simp: waiter_of_def put_client_def)
  have c: "waiter_of sv c = None" using assms(2,3) by (simp add: waiter_of_def)
  show "(w, x) \<in> set (sv_timers ?sv) \<longleftrightarrow> waiter_of ?sv x = Some w" for w x
    unfolding w using c timers_okD(1)[OF assms(1), of w x] by (auto simp: put_client_def)
qed

lemma rights_ok_put_client:
  assumes "rights_ok sv" "sv_restrict_clients sv \<Longrightarrow> cl_can_modify cl \<Longrightarrow> cl_root cl \<or> cl_auth_waiter cl \<noteq> None"
  shows "rights_ok (put_client c cl sv)"
  using assms by (auto simp: rights_ok_def put_client_def)

lemma rights_ok_timers [simp]:
  "rights_ok (sv\<lparr>sv_timers := ts\<rparr>) = rights_ok sv" "rights_ok (sv\<lparr>sv_next := n\<rparr>) = rights_ok sv"
  by (simp_all add: rights_ok_def)

lemma timer_live: "timers_ok sv \<Longrightarrow> sv_client sv c = Some cl \<Longrightarrow> cl_auth_waiter cl = Some w \<Longrightarrow> w \<in> fst ` set (sv_timers sv)"
  using timers_okD(1)[of sv w c] by (auto simp: waiter_of_def intro: image_eqI[of w fst "(w, c)"])

lemma put_client_sel [simp]:
  "sv_client (put_client c cl sv) = (sv_client sv)(c := Some cl)" "sv_clients (put_client c cl sv) = sv_clients sv"
  "sv_timers (put_client c cl sv) = sv_timers sv" "sv_next (put_client c cl sv) = sv_next sv"
  "sv_restrict_clients (put_client c cl sv) = sv_restrict_clients sv" "sv_handler (put_client c cl sv) = sv_handler sv"
  "sv_platform (put_client c cl sv) = sv_platform sv" "sv_shadow (put_client c cl sv) = sv_shadow sv"
  "sv_platform_hash (put_client c cl sv) = sv_platform_hash sv"
  by (simp_all add: put_client_def)

lemma only_writes_put: "only_writes (put_client c x a) b \<Longrightarrow> only_writes (put_client c y a) (put_client c y b)"
  by (auto simp: only_writes_def)

lemma drop_waiter_step:
  assumes "timers_ok sv" "waiter_of sv c = w"
  shows "(case w of None \<Rightarrow> Inr sv | Some w \<Rightarrow> timer_remove w sv) = Inr (sv\<lparr>sv_timers := drop_timer w (sv_timers sv)\<rparr>)"
proof (cases w)
  case (Some x)
  then have "(x, c) \<in> set (sv_timers sv)" using assms timers_okD(1)[OF assms(1)] by simp
  then have "x \<in> fst ` set (sv_timers sv)" by force
  then show ?thesis using Some timer_remove_eq by simp
qed simp

lemma authenticate_client_ok:
  assumes "server_ok sv"
  shows "yields (\<lambda>(rc, sv'). server_ok sv') (authenticate_client env c sv)"
proof (cases "sv_client sv c")
  case (Some cl)
  let ?sv1 = "put_client c (cl\<lparr>cl_can_modify := True\<rparr>) sv"
  have t1: "timers_ok ?sv1" using timers_ok_put_client[OF _ Some] assms by (simp add: server_ok_def)
  have "yields (\<lambda>(rc, sv'). server_ok sv') (case p of (rc, sv) \<Rightarrow>
     sbind (case cl_auth_waiter cl of None \<Rightarrow> Inr sv | Some w \<Rightarrow> timer_remove w sv) (\<lambda>sv.
     sbind (get_client c sv) (\<lambda>cl.
     reply env STATUS_INFO ''Authenticated successfully'' c rc
       (put_client c (cl\<lparr>cl_auth_waiter := Some (sv_next sv)\<rparr>)
          (sv\<lparr>sv_timers := sv_timers sv @ [(sv_next sv, c)], sv_next := Suc (sv_next sv)\<rparr>)))))"
    if p: "case p of (rc, sv') \<Rightarrow> only_writes ?sv1 sv'" for p
  proof -
    obtain rc sv2 where p': "p = (rc, sv2)" by fastforce
    then have w: "only_writes ?sv1 sv2" using p by simp
    have t2: "timers_ok sv2" by (rule only_writes_timers[OF w t1])
    obtain cl2 where cl2: "sv_client sv2 c = Some cl2" "cl_can_modify cl2" "cl_auth_waiter cl2 = cl_auth_waiter cl"
      using only_writes_client[OF w, of c "cl\<lparr>cl_can_modify := True\<rparr>"] by auto
    let ?sv3 = "sv2\<lparr>sv_timers := drop_timer (cl_auth_waiter cl) (sv_timers sv2)\<rparr>"
    let ?cl = "cl2\<lparr>cl_auth_waiter := Some (sv_next sv2)\<rparr>"
    let ?sv4 = "put_client c ?cl (?sv3\<lparr>sv_timers := sv_timers ?sv3 @ [(sv_next sv2, c)], sv_next := Suc (sv_next sv2)\<rparr>)"
    have wo: "waiter_of sv2 c = cl_auth_waiter cl" using cl2 by (simp add: waiter_of_def)
    let ?none = "put_client c (cl2\<lparr>cl_auth_waiter := None\<rparr>) sv2\<lparr>sv_timers := drop_timer (cl_auth_waiter cl2) (sv_timers sv2)\<rparr>"
    have "timers_ok ?none" by (rule timers_ok_drop[OF t2 cl2(1)]) simp
    from timers_ok_add[OF this, of c "cl2\<lparr>cl_auth_waiter := None\<rparr>" ?cl] have "timers_ok ?sv4"
      using cl2(3) by (simp add: put_client_def)
    moreover have "rights_ok (put_client c ?cl sv2)"
      by (rule only_writes_rights[OF only_writes_put[OF w]], rule rights_ok_put_client) (use assms in \<open>simp_all add: server_ok_def\<close>)
    then have "rights_ok ?sv4" by (simp add: rights_ok_def)
    ultimately have "server_ok ?sv4" by (simp add: server_ok_def)
    then show ?thesis using p' cl2(1) reply_ok by (simp add: drop_waiter_step[OF t2 wo] get_client_def)
  qed
  from yields_sbind[OF write_messages_only(9) this] show ?thesis using Some by (simp add: authenticate_client_def get_client_def)
qed (simp add: authenticate_client_def get_client_def)

lemma change_password_ok: "server_ok sv \<Longrightarrow> yields (\<lambda>(rc, sv'). server_ok sv') (change_password env new c sv)"
  unfolding change_password_def
  by (auto simp: Let_def split: prod.splits intro!: reply_ok yields_sbind[OF set_auth_mode_ok])

lemma run_handler_done:
  "server_ok sv \<Longrightarrow> yields (\<lambda>(rc, sv'). server_ok sv') (sbind (run_handler env operation sv) (\<lambda>sv. Inr (rc, sv)))"
  by (rule yields_sbind[OF run_handler_ok]) simp_all

lemma handle_auth_ok:
  assumes "server_ok sv"
  shows "yields (\<lambda>(rc, sv'). server_ok sv') (discover_server_handle_auth_message env c a sv)"
proof (cases a)
  case (AUTH_MSG_DECRYPT p i)
  show ?thesis unfolding AUTH_MSG_DECRYPT discover_server_handle_auth_message_def auth_message.case
    by (rule yields_True_sbind) (use assms in \<open>simp add: reply_ok run_handler_done\<close>)
qed (use assms in \<open>simp_all add: discover_server_handle_auth_message_def reply_ok authenticate_client_ok change_password_ok\<close>)

lemma timer_fire_ok:
  assumes "server_ok sv"
  shows "yields (\<lambda>sv'. server_ok sv' \<and> (\<forall>c. (w, c) \<in> set (sv_timers sv) \<longrightarrow> may sv' c False)) (timer_fire env w sv)"
proof (cases "map_of (sv_timers sv) w")
  case None
  then have "(w, c) \<notin> set (sv_timers sv)" for c by (metis map_of_eq_None_iff fst_conv image_eqI)
  then show ?thesis using None assms by (simp add: timer_fire_def)
next
  case (Some c)
  have t: "timers_ok sv" and r: "rights_ok sv" using assms by (simp_all add: server_ok_def)
  have m: "(w, c) \<in> set (sv_timers sv)" using map_of_SomeD[OF Some] .
  then have wc: "waiter_of sv c = Some w" using timers_okD(1)[OF t] by simp
  then obtain cl where cl: "sv_client sv c = Some cl" "cl_auth_waiter cl = Some w" by (auto simp: waiter_of_def bind_eq_Some_conv)
  have only: "c' = c" if "(w, c') \<in> set (sv_timers sv)" for c' using that timer_unique[OF t wc] timers_okD(1)[OF t] by metis
  let ?cl = "cl\<lparr>cl_auth_waiter := None, cl_can_modify := False\<rparr>"
  let ?P = "\<lambda>sv'. server_ok sv' \<and> may sv' c False"
  have "yields ?P (timer_remove w sv2)" if w: "only_writes (put_client c ?cl sv) sv2" for sv2
  proof -
    let ?sv3 = "sv2\<lparr>sv_timers := drop_timer (Some w) (sv_timers sv2)\<rparr>"
    have ts: "sv_timers sv2 = sv_timers sv" using w by (simp add: only_writes_def)
    have d: "only_writes (put_client c ?cl sv\<lparr>sv_timers := drop_timer (Some w) (sv_timers sv)\<rparr>) ?sv3"
      using w by (simp add: only_writes_def)
    have "timers_ok ?sv3" using only_writes_timers[OF d] timers_ok_drop[OF t cl(1), of ?cl] cl(2) by simp
    moreover have "rights_ok ?sv3" using only_writes_rights[OF w rights_ok_put_client[OF r]] by simp
    moreover have "may sv2 c False" by (rule only_writes_may[OF w]) (simp add: may_def)
    moreover have "timer_remove w sv2 = Inr ?sv3" by (rule timer_remove_eq) (use m ts in force)
    ultimately show ?thesis by (simp add: server_ok_def may_def)
  qed
  then have "yields ?P (sbind (sbind (write_authenticate_message env c (put_client c ?cl sv)) (\<lambda>(rc, sv). Inr sv)) (timer_remove w))"
    by (intro yields_sbind[where Q = "only_writes (put_client c ?cl sv)"] yields_sbind[OF write_messages_only(9)]) auto
  then have "yields ?P (timer_fire env w sv)" using Some cl by (simp add: timer_fire_def client_auth_timeout_def get_client_def)
  then show ?thesis by (rule yields_mono) (use only in blast)
qed

lemma client_destroy_ok:
  assumes "server_ok sv"
  shows "yields server_ok (client_destroy c sv)"
proof (cases "sv_client sv c")
  case (Some cl)
  have t: "timers_ok sv" and r: "rights_ok sv" using assms by (simp_all add: server_ok_def)
  have w: "waiter_of sv c = cl_auth_waiter cl" using Some by (simp add: waiter_of_def)
  let ?ts = "drop_timer (cl_auth_waiter cl) (sv_timers sv)"
  let ?sv1 = "put_client c (cl\<lparr>cl_auth_waiter := None\<rparr>) sv\<lparr>sv_timers := ?ts\<rparr>"
  let ?sv2 = "sv\<lparr>sv_timers := ?ts, sv_clients := remove1 c (sv_clients sv), sv_client := (sv_client sv)(c := None)\<rparr>"
  have t1: "timers_ok ?sv1" by (rule timers_ok_drop[OF t Some]) simp
  have wo: "waiter_of ?sv2 x = waiter_of ?sv1 x" for x by (simp add: waiter_of_def)
  have d: "set (sv_clients sv) = dom (sv_client sv)" "distinct (sv_clients sv)" "\<forall>c \<in> dom (sv_client sv). c < sv_next sv"
    using t by (simp_all add: timers_ok_def)
  have "timers_ok ?sv2"
  proof (rule timers_okI)
    show "set (sv_clients ?sv2) = dom (sv_client ?sv2)" "distinct (sv_clients ?sv2)" "\<And>c. c \<in> dom (sv_client ?sv2) \<Longrightarrow> c < sv_next ?sv2"
      using d by auto
    show "distinct (map fst (sv_timers ?sv2))" "\<And>w. w \<in> fst ` set (sv_timers ?sv2) \<Longrightarrow> w < sv_next ?sv2"
      using timers_okD(2,3)[OF t1] by simp_all
    show "(w, x) \<in> set (sv_timers ?sv2) \<longleftrightarrow> waiter_of ?sv2 x = Some w" for w x
      unfolding wo using timers_okD(1)[OF t1, of w x] by simp
  qed
  moreover have "rights_ok ?sv2" using r by (auto simp: rights_ok_def)
  ultimately show ?thesis using Some by (simp add: client_destroy_def get_client_def drop_waiter_step[OF t w] server_ok_def)
qed (simp add: client_destroy_def get_client_def)

abbreviation keeps_server :: "(int \<times> discover_server) s_m \<Rightarrow> bool" where
  "keeps_server m \<equiv> yields (\<lambda>(rc, sv'). server_ok sv') m"

lemma boot_message_ok: "server_ok sv \<Longrightarrow> keeps_server (boot_message env b m sv)"
  unfolding boot_message_def by (rule yields_True_sbind) (simp add: run_handler_done split: option.split)

lemma process_unprivileged_ok: "server_ok sv \<Longrightarrow> keeps_server (process_unprivileged env c m sv)"
  unfolding process_unprivileged_def
  by (auto simp: boot_message_ok run_handler_done reply_ok handle_auth_ok intro!: yields_True_sbind split: option.split)

lemma process_privileged_ok:
  assumes "server_ok sv"
  shows "keeps_server (process_privileged env c m sv)"
proof -
  have auth: "keeps_server (sbind (discover_server_handle_auth_message env c a sv) (\<lambda>(rc, sv). Inr (0, sv)))" for a
    by (rule yields_sbind[OF handle_auth_ok[OF assms]]) auto
  have A: "keeps_server (sbind x (\<lambda>y. sbind (run_handler env (g y) sv) (\<lambda>sv. Inr (0, sv))))" for x :: "'x s_m" and g
    by (rule yields_True_sbind) (rule run_handler_done[OF assms])
  have B: "keeps_server (sbind x (\<lambda>y. case y of None \<Rightarrow> Inr (0, sv) | Some z \<Rightarrow> sbind (run_handler env (g z) sv) (\<lambda>sv. Inr (0, sv))))"
    for x :: "'y option s_m" and g
    by (rule yields_True_sbind) (simp add: run_handler_done[OF assms] assms split: option.split)
  have C: "keeps_server (sbind x (\<lambda>y. case y of None \<Rightarrow> Inr (0, sv)
     | Some a \<Rightarrow> sbind (discover_server_handle_auth_message env c a sv) (\<lambda>(rc, sv). Inr (0, sv))))" for x
    by (rule yields_True_sbind) (simp add: auth assms split: option.split)
  show ?thesis unfolding process_privileged_def Let_def
    by (simp only: if_split A B C boot_message_ok[OF assms] run_handler_done[OF assms] yields_simps) (simp add: assms)
qed

lemma process_message_ok: "server_ok sv \<Longrightarrow> keeps_server (discover_server_process_message env c message sv)"
proof (cases message)
  case None
  assume "server_ok sv"
  then show ?thesis unfolding None discover_server_process_message_def by (auto intro!: yields_sbind[OF client_destroy_ok])
next
  case (Some m)
  assume "server_ok sv"
  then show ?thesis unfolding Some discover_server_process_message_def option.case
    by (intro yields_True_sbind) (simp add: process_privileged_ok process_unprivileged_ok)
qed

lemma send_until_only:
  "(\<And>f sv. f \<in> set fs \<Longrightarrow> yields (\<lambda>(rc, sv'). only_writes sv sv') (f sv)) \<Longrightarrow>
   yields (\<lambda>(ok, sv'). only_writes sv sv') (send_until fs sv)"
proof (induction fs arbitrary: sv)
  case (Cons f fs)
  have ih: "yields (\<lambda>(ok, sv'). only_writes sv sv') (send_until fs sv)" for sv using Cons by simp
  have "yields (\<lambda>(ok, sv'). only_writes sv sv') (case p of (rc, sv) \<Rightarrow> if rc \<noteq> 0 then Inr (False, sv) else send_until fs sv)"
    if "case p of (rc, sv') \<Rightarrow> only_writes sv sv'" for p
    using that by (auto intro!: yields_mono[OF ih] elim: only_writes_trans split: prod.splits)
  from yields_sbind[OF Cons.prems[of f] this] show ?case by simp
qed simp

lemma option_messages_only:
  "option_messages env c h rs = Inr ms \<Longrightarrow> f \<in> set ms \<Longrightarrow> yields (\<lambda>(rc, sv'). only_writes sv sv') (f sv)"
  by (induction rs arbitrary: ms) (auto simp: hbind_def writes_only split: sum.splits)

lemma device_messages_only:
  "device_messages env c h ds = Inr ms \<Longrightarrow> f \<in> set ms \<Longrightarrow> yields (\<lambda>(rc, sv'). only_writes sv sv') (f sv)"
  by (induction ds arbitrary: ms) (auto simp: hbind_def writes_only split: sum.splits dest: option_messages_only)

lemma server_ok_connect:
  assumes "server_ok sv" "cl_auth_waiter cl = None" "sv_restrict_clients sv \<Longrightarrow> cl_can_modify cl \<Longrightarrow> cl_root cl"
  shows "server_ok (sv\<lparr>sv_clients := sv_next sv # sv_clients sv, sv_client := (sv_client sv)(sv_next sv := Some cl), sv_next := Suc (sv_next sv)\<rparr>)"
    (is "server_ok ?sv")
proof -
  have t: "timers_ok sv" and r: "rights_ok sv" using assms(1) by (simp_all add: server_ok_def)
  have fresh: "sv_next sv \<notin> dom (sv_client sv)" using t by (auto simp: timers_ok_def)
  then have w: "waiter_of ?sv x = waiter_of sv x" for x using assms(2) by (auto simp: waiter_of_def split: option.splits)
  have d: "set (sv_clients sv) = dom (sv_client sv)" "distinct (sv_clients sv)" "\<forall>c \<in> dom (sv_client sv). c < sv_next sv"
    using t by (simp_all add: timers_ok_def)
  have "timers_ok ?sv"
  proof (rule timers_okI)
    show "set (sv_clients ?sv) = dom (sv_client ?sv)" "distinct (sv_clients ?sv)" "\<And>c. c \<in> dom (sv_client ?sv) \<Longrightarrow> c < sv_next ?sv"
      using d fresh by (auto simp: less_Suc_eq)
    show "distinct (map fst (sv_timers ?sv))" "\<And>w. w \<in> fst ` set (sv_timers ?sv) \<Longrightarrow> w < sv_next ?sv"
      using timers_okD(2,3)[OF t] by (simp_all add: less_SucI)
    show "(w, x) \<in> set (sv_timers ?sv) \<longleftrightarrow> waiter_of ?sv x = Some w" for w x
      unfolding w using timers_okD(1)[OF t, of w x] by simp
  qed
  moreover have "rights_ok ?sv" using r assms(3) by (auto simp: rights_ok_def)
  ultimately show ?thesis by (simp add: server_ok_def)
qed

lemma process_connection_ok:
  assumes "server_ok sv"
  shows "yields server_ok (discover_server_process_connection env uid sv)"
proof -
  let ?c = "sv_next sv"
  let ?cl = "\<lparr>cl_io = True, cl_remote_closed = False, cl_can_modify = (if sv_restrict_clients sv then uid = Some 0 else True),
      cl_auth_waiter = None, cl_root = (uid = Some 0), cl_out = []\<rparr>"
  let ?sv = "sv\<lparr>sv_clients := ?c # sv_clients sv, sv_client := (sv_client sv)(?c := Some ?cl), sv_next := Suc ?c\<rparr>"
  have ok: "server_ok ?sv" by (rule server_ok_connect[OF assms]) auto
  have b: "yields server_ok (sbind (send_all (\<lambda>status. write_boot_status_message env status ?c) (sv_status sv1) sv1) (\<lambda>sv.
      send_all (\<lambda>opt. write_plugin_option_add_message env opt ?c) (h_plugins (sv_handler sv)) sv))"
    if "only_writes ?sv sv1" for sv1
    by (rule yields_sbind[OF send_all_only[OF writes_only(6)]], rule yields_mono[OF send_all_only[OF writes_only(3)]])
      (meson ok only_writes_ok only_writes_trans that)
  show ?thesis
  proof (cases "device_messages env ?c (sv_handler ?sv) (h_devices (sv_handler ?sv))")
    case (Inr ms)
    let ?fs = "[write_authenticate_message env ?c, write_system_info_message env (se_sysinfo env) ?c,
             write_config_message env (ps_config (sv_platform ?sv)) ?c] @ ms"
    have "yields (\<lambda>(ok, sv'). only_writes ?sv sv') (send_until ?fs ?sv)"
      by (rule send_until_only) (use device_messages_only[OF Inr] in \<open>auto simp: writes_only\<close>)
    then have "yields server_ok (sbind (send_until ?fs ?sv) (\<lambda>(k, sv).
        if \<not> k then Inr sv
        else sbind (send_all (\<lambda>status. write_boot_status_message env status ?c) (sv_status sv) sv) (\<lambda>sv.
           send_all (\<lambda>opt. write_plugin_option_add_message env opt ?c) (h_plugins (sv_handler sv)) sv)))"
      by (rule yields_sbind) (use b ok only_writes_ok in \<open>auto split: prod.splits\<close>)
    then show ?thesis using Inr by (simp add: discover_server_process_connection_def Let_def del: send_until.simps split del: if_split)
  qed (simp add: discover_server_process_connection_def Let_def)
qed

section \<open>The server as a state machine\<close>

inductive server_step :: "server_env \<Rightarrow> discover_server \<Rightarrow> discover_server s_m \<Rightarrow> bool" for env where
  connect: "server_step env sv (discover_server_process_connection env uid sv)"
| message: "sv_client sv c = Some cl \<Longrightarrow> cl_io cl \<Longrightarrow> server_step env sv (client_ready env c m sv)"
| auth_timeout: "server_step env sv (timer_fire env w sv)"
| handler: "server_step env sv (run_handler env operation sv)"
| system_info: "server_step env sv (discover_server_notify_system_info env info sv)"
| auth_mode: "server_step env sv (discover_server_set_auth_mode env True sv)"

inductive server_reachable :: "server_env \<Rightarrow> discover_server \<Rightarrow> bool" for env where
  init: "server_reachable env (discover_server_init mem h ps sh)"
| step: "server_reachable env sv \<Longrightarrow> server_step env sv (Inr sv') \<Longrightarrow> server_reachable env sv'"

lemma server_ok_init: "server_ok (discover_server_init mem h ps sh)"
  by (simp add: discover_server_init_def server_ok_def timers_ok_def rights_ok_def waiter_of_def)

lemma server_ok_io:
  assumes "server_ok sv" "sv_client sv c = Some cl"
  shows "server_ok (put_client c (cl\<lparr>cl_io := b\<rparr>) sv)"
proof -
  have "rights_ok (put_client c (cl\<lparr>cl_io := b\<rparr>) sv)"
    by (rule rights_ok_put_client) (use assms in \<open>auto simp: server_ok_def rights_ok_def\<close>)
  moreover have "timers_ok (put_client c (cl\<lparr>cl_io := b\<rparr>) sv)"
    by (rule timers_ok_put_client[OF _ assms(2)]) (use assms in \<open>auto simp: server_ok_def\<close>)
  ultimately show ?thesis by (simp add: server_ok_def)
qed

lemma client_ready_ok:
  assumes "server_ok sv"
  shows "yields server_ok (client_ready env c m sv)"
  unfolding client_ready_def
proof (rule yields_sbind[OF process_message_ok[OF assms]])
  fix p :: "int \<times> discover_server" assume p: "case p of (rc, sv') \<Rightarrow> server_ok sv'"
  obtain rc sv1 where "p = (rc, sv1)" by fastforce
  then show "yields server_ok (case p of (rc, sv) \<Rightarrow> if rc = 0 then Inr sv
      else sbind (get_client c sv) (\<lambda>cl. Inr (put_client c (cl\<lparr>cl_io := False\<rparr>) sv)))"
    using p server_ok_io[of sv1 c] by (cases "sv_client sv1 c") (simp_all add: get_client_def)
qed

lemma server_step_ok: "server_step env sv m \<Longrightarrow> server_ok sv \<Longrightarrow> yields server_ok m"
proof (induction rule: server_step.induct)
  case (auth_timeout sv w)
  show ?case by (rule yields_mono[OF timer_fire_ok[OF auth_timeout]]) simp
next
  case (system_info sv info)
  show ?case unfolding discover_server_notify_system_info_def
    by (rule yields_mono[OF send_all_only[OF writes_only(7)]]) (use system_info only_writes_ok in blast)
qed (simp_all add: process_connection_ok client_ready_ok run_handler_ok set_auth_mode_ok)

lemma server_reachable_ok: "server_reachable env sv \<Longrightarrow> server_ok sv"
  by (induction rule: server_reachable.induct) (auto simp: server_ok_init dest: server_step_ok)

end
