(* ===== verification/Client.thy ===== *)
theory Client
  imports Server
begin

text \<open>
  The client library, \<^verbatim>\<open>ui/common/discover-client.c\<close>: the copy of the devices and boot options that a user interface keeps, what it
  does with the messages of the server, and the requests it sends.  The calls of the interface's callbacks are appended to \<open>dc_calls\<close>, the
  messages that were written to \<open>dc_out\<close>.
\<close>

section \<open>Data\<close>

record client_device =
  cd_device :: device
  cd_boot_options :: "boot_option list"

text \<open>Which callbacks are set.\<close>

record discover_client_ops =
  op_device_add :: bool
  op_boot_option_add :: bool
  op_device_remove :: bool
  op_plugin_option_add :: bool
  op_plugins_remove :: bool
  op_update_status :: bool
  op_update_sysinfo :: bool
  op_update_config :: bool

datatype ui_call =
    Ui_device_add device
  | Ui_boot_option_add device boot_option
  | Ui_device_remove device
  | Ui_plugin_option_add plugin_option
  | Ui_plugins_remove
  | Ui_update_status status
  | Ui_update_sysinfo system_info
  | Ui_update_config config

record discover_client =
  dc_ops :: discover_client_ops
  dc_devices :: "client_device list"
  dc_authenticated :: bool
  dc_calls :: "ui_call list"
  dc_out :: "pb_message list"

datatype c_fault = Client_wire rd_err | Client_serialise ser_err | Client_null | Client_assertion

type_synonym 'a c_m = "c_fault + 'a"

definition cbind :: "'a c_m \<Rightarrow> ('a \<Rightarrow> 'b c_m) \<Rightarrow> 'b c_m" where
  "cbind m k = (case m of Inl e \<Rightarrow> Inl e | Inr x \<Rightarrow> k x)"

definition call_ui :: "bool \<Rightarrow> ui_call \<Rightarrow> discover_client \<Rightarrow> discover_client" where
  "call_ui is_set c client = (if is_set then client\<lparr>dc_calls := dc_calls client @ [c]\<rparr> else client)"

section \<open>The copy of the devices\<close>

text \<open>The index of the first device with an identifier; \<^verbatim>\<open>strcmp\<close> of a device that has none reads a NULL pointer.\<close>

fun find_index :: "client_device list \<Rightarrow> string \<Rightarrow> nat option c_m" where
  "find_index [] ident = Inr None"
| "find_index (d # ds) ident =
     (case dev_id (cd_device d) of
        None \<Rightarrow> Inl Client_null
      | Some i \<Rightarrow>
          if i = ident then Inr (Some 0) else cbind (find_index ds ident) (\<lambda>n. Inr (map_option Suc n)))"

definition device_add :: "device \<Rightarrow> discover_client \<Rightarrow> discover_client" where
  "device_add device client =
     call_ui (op_device_add (dc_ops client)) (Ui_device_add device)
       (client\<lparr>dc_devices := dc_devices client @ [\<lparr>cd_device = device, cd_boot_options = []\<rparr>]\<rparr>)"

text \<open>An option without a device identifier is a NULL pointer for \<^verbatim>\<open>strcmp\<close> as soon as there is a device.\<close>

definition find_device :: "discover_client \<Rightarrow> cstr \<Rightarrow> nat option c_m" where
  "find_device client ident =
     (case ident of
        None \<Rightarrow> if dc_devices client = [] then Inr None else Inl Client_null
      | Some i \<Rightarrow> find_index (dc_devices client) i)"

definition boot_option_add :: "boot_option \<Rightarrow> discover_client \<Rightarrow> discover_client c_m" where
  "boot_option_add opt client =
     cbind (find_device client (opt_device_id opt)) (\<lambda>found.
     case found of
       None \<Rightarrow> Inl Client_assertion
     | Some i \<Rightarrow>
         (let d = dc_devices client ! i
          in Inr (call_ui (op_boot_option_add (dc_ops client)) (Ui_boot_option_add (cd_device d) opt)
               (client\<lparr>dc_devices := (dc_devices client)[i := d\<lparr>cd_boot_options := opt # cd_boot_options d\<rparr>]\<rparr>))))"

text \<open>This callback is called without a check.\<close>

definition device_remove :: "string \<Rightarrow> discover_client \<Rightarrow> discover_client c_m" where
  "device_remove ident client =
     cbind (find_index (dc_devices client) ident) (\<lambda>found.
     case found of
       None \<Rightarrow> Inr client
     | Some i \<Rightarrow>
         if \<not> op_device_remove (dc_ops client) then Inl Client_null
         else
           Inr (call_ui True (Ui_device_remove (cd_device (dc_devices client ! i)))
             (client\<lparr>dc_devices := take i (dc_devices client) @ drop (Suc i) (dc_devices client)\<rparr>)))"

fun enumerate_options :: "discover_client_ops \<Rightarrow> device \<Rightarrow> boot_option list \<Rightarrow> discover_client \<Rightarrow> discover_client" where
  "enumerate_options ops d [] client = client"
| "enumerate_options ops d (opt # opts) client =
     enumerate_options ops d opts (call_ui (op_boot_option_add ops) (Ui_boot_option_add d opt) client)"

definition discover_client_enumerate :: "discover_client \<Rightarrow> discover_client" where
  "discover_client_enumerate client =
     foldl (\<lambda>c d. enumerate_options (dc_ops c) (cd_device d) (cd_boot_options d)
         (call_ui (op_device_add (dc_ops c)) (Ui_device_add (cd_device d)) c))
       client (dc_devices client)"

definition discover_client_device_count :: "discover_client \<Rightarrow> nat" where
  "discover_client_device_count client = length (dc_devices client)"

definition discover_client_get_device :: "discover_client \<Rightarrow> int \<Rightarrow> client_device option" where
  "discover_client_get_device client index =
     (if index < 0 \<or> int (length (dc_devices client)) \<le> index then None else Some (dc_devices client ! nat index))"

section \<open>Messages of the server\<close>

definition zero_device :: device where
  "zero_device = \<lparr>dev_id = None, dev_type = DEVICE_TYPE_NETWORK, dev_name = None, dev_description = None, dev_icon_file = None\<rparr>"

definition zero_boot_option :: boot_option where
  "zero_boot_option = \<lparr>opt_device_id = None, opt_id = None, opt_name = None, opt_description = None,
     opt_icon_file = None, opt_boot_image_file = None, opt_initrd_file = None, opt_dtb_file = None, opt_boot_args = None,
     opt_args_sig_file = None, opt_is_default = False, opt_is_autoboot_default = False, opt_type = DISCOVER_BOOT_OPTION\<rparr>"

definition zero_status :: status where
  "zero_status = \<lparr>st_type = STATUS_INFO, st_message = None, st_backlog = False, st_boot_active = False\<rparr>"

definition zero_system_info :: system_info where
  "zero_system_info = \<lparr>si_type = None, si_identifier = None, si_platform_primary = [], si_platform_other = [], si_bmc_current = [],
     si_bmc_golden = [], si_interfaces = [], si_blockdevs = [], si_bmc_mac = None, si_stb_fw_measurement = False,
     si_stb_fw_enforcing = False, si_stb_os_enforcing = False\<rparr>"

definition zero_config :: config where
  "zero_config = \<lparr>cfg_autoboot_enabled = False, cfg_autoboot_timeout_sec = 0,
     cfg_network = \<lparr>net_interfaces = [], net_dns_servers = []\<rparr>, cfg_preboot_check_enabled = False, cfg_autoboot_opts = [],
     cfg_ipmi_bootdev = 0, cfg_ipmi_bootdev_persistent = False, cfg_ipmi_bootdev_mailbox = False, cfg_http_proxy = None,
     cfg_https_proxy = None, cfg_allow_writes = False, cfg_boot_console = None, cfg_manual_console = False, cfg_lang = None,
     cfg_consoles = [], cfg_disable_snapshots = False, cfg_safe_mode = False, cfg_debug = False\<rparr>"

definition zero_plugin_option :: plugin_option where
  "zero_plugin_option = \<lparr>plg_id = None, plg_name = None, plg_vendor = None, plg_vendor_id = None, plg_version = None, plg_date = None,
     plg_plugin_file = None, plg_executables = []\<rparr>"

text \<open>A message that cannot be parsed is ignored.\<close>

definition on_parsed :: "rd_err + 'a \<Rightarrow> ('a \<Rightarrow> discover_client \<Rightarrow> discover_client c_m) \<Rightarrow> discover_client \<Rightarrow> discover_client c_m" where
  "on_parsed r f client =
     (case r of Inl Malformed \<Rightarrow> Inr client | Inl e \<Rightarrow> Inl (Client_wire e) | Inr x \<Rightarrow> f x client)"

definition ui_only :: "(discover_client_ops \<Rightarrow> bool) \<Rightarrow> ui_call \<Rightarrow> discover_client \<Rightarrow> discover_client c_m" where
  "ui_only is_set c client = Inr (call_ui (is_set (dc_ops client)) c client)"

definition client_message :: "endian \<Rightarrow> pb_message \<Rightarrow> discover_client \<Rightarrow> discover_client c_m" where
  "client_message e m =
     (if msg_action m = 0x1 then
        on_parsed (pb_protocol_deserialise_device e zero_device m) (\<lambda>dev client. Inr (device_add dev client))
      else if msg_action m = 0x2 then
        on_parsed (pb_protocol_deserialise_boot_option zero_boot_option m) boot_option_add
      else if msg_action m = 0x3 then
        on_parsed (pb_protocol_deserialise_string m)
          (\<lambda>ident client. case ident of None \<Rightarrow> Inr client | Some i \<Rightarrow> device_remove i client)
      else if msg_action m = 0x6 then
        on_parsed (pb_protocol_deserialise_boot_status zero_status m) (\<lambda>status. ui_only op_update_status (Ui_update_status status))
      else if msg_action m = 0x8 then
        on_parsed (pb_protocol_deserialise_system_info zero_system_info m) (\<lambda>info. ui_only op_update_sysinfo (Ui_update_sysinfo info))
      else if msg_action m = 0x9 then
        on_parsed (pb_protocol_deserialise_config zero_config m) (\<lambda>config. ui_only op_update_config (Ui_update_config config))
      else if msg_action m = 0xc then
        on_parsed (pb_protocol_deserialise_plugin_option zero_plugin_option m)
          (\<lambda>opt. ui_only op_plugin_option_add (Ui_plugin_option_add opt))
      else if msg_action m = 0xd then ui_only op_plugins_remove Ui_plugins_remove
      else if msg_action m = 0x10 then
        on_parsed (pb_protocol_deserialise_authenticate e m)
          (\<lambda>auth client. case auth of
             AUTH_MSG_RESPONSE authenticated \<Rightarrow> Inr (client\<lparr>dc_authenticated := authenticated\<rparr>)
           | _ \<Rightarrow> Inr client)
      else Inr)"

text \<open>What the library does when the socket is readable; \<open>None\<close> is a message that cannot be read, and the result is that of the waiter.\<close>

definition discover_client_process :: "endian \<Rightarrow> pb_message option \<Rightarrow> discover_client \<Rightarrow> (int \<times> discover_client) c_m" where
  "discover_client_process e message client =
     (case message of
        None \<Rightarrow> Inr (- 1, client)
      | Some m \<Rightarrow> cbind (client_message e m client) (\<lambda>client. Inr (0, client)))"

fun client_messages :: "endian \<Rightarrow> pb_message list \<Rightarrow> discover_client \<Rightarrow> discover_client c_m" where
  "client_messages e [] client = Inr client"
| "client_messages e (m # ms) client =
     cbind (discover_client_process e (Some m) client) (\<lambda>(rc, client). client_messages e ms client)"

definition discover_client_init :: "bool \<Rightarrow> discover_client_ops \<Rightarrow> discover_client" where
  "discover_client_init crypt_support ops =
     \<lparr>dc_ops = ops, dc_devices = [], dc_authenticated = (\<not> crypt_support), dc_calls = [], dc_out = []\<rparr>"

section \<open>Requests\<close>

text \<open>The contents of fresh memory, whether a write succeeds, and the name of the terminal.\<close>

record client_env =
  ce_endian :: endian
  ce_mem :: "u32 \<Rightarrow> string"
  ce_write :: "pb_message \<Rightarrow> bool"
  ce_ttyname :: cstr

definition client_send :: "client_env \<Rightarrow> u32 \<Rightarrow> u32 \<Rightarrow> ser_err + string \<Rightarrow> discover_client \<Rightarrow> (int \<times> discover_client) c_m" where
  "client_send env action len bytes client =
     (case pb_protocol_create_message action len (ce_mem env len) of
        Inl e \<Rightarrow> Inl (Client_wire e)
      | Inr None \<Rightarrow> Inr (- 1, client)
      | Inr (Some message) \<Rightarrow>
          (case bytes of
             Inl e \<Rightarrow> Inl (Client_serialise e)
           | Inr bs \<Rightarrow>
               (let m = store_payload bs message
                in if ce_write env m then Inr (0, client\<lparr>dc_out := dc_out client @ [m]\<rparr>) else Inr (- 1, client))))"

record pb_boot_data =
  bd_image :: cstr
  bd_initrd :: cstr
  bd_dtb :: cstr
  bd_args :: cstr
  bd_args_sig_file :: cstr

definition create_boot_command :: "client_env \<Rightarrow> boot_option option \<Rightarrow> pb_boot_data \<Rightarrow> boot_command" where
  "create_boot_command env opt data =
     \<lparr>cmd_option_id = (case opt of Some o' \<Rightarrow> opt_id o' | None \<Rightarrow> None), cmd_boot_image_file = bd_image data,
      cmd_initrd_file = bd_initrd data, cmd_dtb_file = bd_dtb data, cmd_boot_args = bd_args data,
      cmd_args_sig_file = bd_args_sig_file data, cmd_console = ce_ttyname env\<rparr>"

definition discover_client_boot :: "client_env \<Rightarrow> boot_option option \<Rightarrow> pb_boot_data \<Rightarrow> discover_client \<Rightarrow> (int \<times> discover_client) c_m" where
  "discover_client_boot env opt data =
     (let command = create_boot_command env opt data; len = pb_protocol_boot_len command
      in client_send env 0x5 len (pb_protocol_serialise_boot_command command len))"

definition discover_client_cancel_default :: "client_env \<Rightarrow> discover_client \<Rightarrow> (int \<times> discover_client) c_m" where
  "discover_client_cancel_default env = client_send env 0x7 0 (Inr [])"

definition discover_client_send_reinit :: "client_env \<Rightarrow> discover_client \<Rightarrow> (int \<times> discover_client) c_m" where
  "discover_client_send_reinit env = client_send env 0xa 0 (Inr [])"

definition discover_client_send_config :: "client_env \<Rightarrow> config \<Rightarrow> discover_client \<Rightarrow> (int \<times> discover_client) c_m" where
  "discover_client_send_config env config =
     (let len = pb_protocol_config_len config in client_send env 0x9 len (pb_protocol_serialise_config (ce_endian env) config len))"

definition discover_client_send_url :: "client_env \<Rightarrow> cstr \<Rightarrow> discover_client \<Rightarrow> (int \<times> discover_client) c_m" where
  "discover_client_send_url env url =
     (let len = pb_protocol_url_len url in client_send env 0xb len (pb_protocol_serialise_url url len))"

definition discover_client_send_plugin_install :: "client_env \<Rightarrow> cstr \<Rightarrow> discover_client \<Rightarrow> (int \<times> discover_client) c_m" where
  "discover_client_send_plugin_install env path =
     (let len = pb_protocol_url_len path in client_send env 0xe len (pb_protocol_serialise_url path len))"

definition discover_client_send_temp_autoboot :: "client_env \<Rightarrow> autoboot_option \<Rightarrow> discover_client \<Rightarrow> (int \<times> discover_client) c_m" where
  "discover_client_send_temp_autoboot env opt =
     (let len = pb_protocol_temp_autoboot_len opt in client_send env 0xf len (pb_protocol_serialise_temp_autoboot opt len))"

definition client_send_auth :: "client_env \<Rightarrow> auth_message \<Rightarrow> discover_client \<Rightarrow> (int \<times> discover_client) c_m" where
  "client_send_auth env auth_msg =
     (let len = pb_protocol_authenticate_len auth_msg
      in client_send env 0x10 len (pb_protocol_serialise_authenticate (ce_endian env) auth_msg len))"

definition discover_client_send_authenticate :: "client_env \<Rightarrow> cstr \<Rightarrow> discover_client \<Rightarrow> (int \<times> discover_client) c_m" where
  "discover_client_send_authenticate env password = client_send_auth env (AUTH_MSG_REQUEST password)"

definition discover_client_send_set_password :: "client_env \<Rightarrow> cstr \<Rightarrow> cstr \<Rightarrow> discover_client \<Rightarrow> (int \<times> discover_client) c_m" where
  "discover_client_send_set_password env password new_password = client_send_auth env (AUTH_MSG_SET password new_password)"

definition discover_client_send_open_luks_device :: "client_env \<Rightarrow> cstr \<Rightarrow> cstr \<Rightarrow> discover_client \<Rightarrow> (int \<times> discover_client) c_m" where
  "discover_client_send_open_luks_device env password device_id = client_send_auth env (AUTH_MSG_DECRYPT password device_id)"

end
