(* ===== verification/Server_Props.thy ===== *)
theory Server_Props
  imports Server
begin

text \<open>
  What the server guarantees about its clients: a client without rights changes nothing but the countdown
  and the boot that is already chosen, rights expire, and what a failed authentication does.
\<close>

section \<open>Confinement\<close>

text \<open>Operations that leave the handler and the configuration alone.\<close>

definition same_core :: "discover_server \<Rightarrow> discover_server \<Rightarrow> bool" where
  "same_core sv sv' \<longleftrightarrow> sv_handler sv' = sv_handler sv \<and> sv_platform sv' = sv_platform sv"

lemma same_core_simps [simp]:
  "same_core sv sv" "same_core sv (put_client c cl sv)" "same_core sv (sv\<lparr>sv_timers := ts\<rparr>)" "same_core sv (sv\<lparr>sv_next := n\<rparr>)"
  by (simp_all add: same_core_def)

lemma same_core_trans: "same_core a b \<Longrightarrow> same_core b c \<Longrightarrow> same_core a c"
  by (simp add: same_core_def)

lemma only_writes_core: "only_writes sv sv' \<Longrightarrow> same_core sv sv'"
  by (simp add: only_writes_def same_core_def)

lemma write_auth_core: "yields (\<lambda>(rc, sv'). same_core sv sv') (write_authenticate_message env c sv)"
  by (rule yields_mono[OF write_messages_only(9)]) (auto intro: only_writes_core)

lemma reply_core: "yields (\<lambda>(r, sv'). same_core sv sv') (reply env t msg c rc sv)"
  by (rule yields_mono[OF reply_only]) (auto intro: only_writes_core)

lemma reply_core_from: "same_core sv sv1 \<Longrightarrow> yields (\<lambda>(r, sv'). same_core sv sv') (reply env t msg c rc sv1)"
  by (rule yields_mono[OF reply_core]) (auto intro: same_core_trans)

lemma timer_remove_core: "yields (same_core sv) (timer_remove w sv)"
  by (simp add: timer_remove_def)

lemma authenticate_client_core: "yields (\<lambda>(rc, sv'). same_core sv sv') (authenticate_client env c sv)"
proof (cases "sv_client sv c")
  case (Some cl)
  let ?sv = "put_client c (cl\<lparr>cl_can_modify := True\<rparr>) sv"
  have "yields (\<lambda>(rc, sv'). same_core sv sv') (sbind (case w of None \<Rightarrow> Inr sv1 | Some w \<Rightarrow> timer_remove w sv1) (\<lambda>sv.
     sbind (get_client c sv) (\<lambda>cl.
     reply env STATUS_INFO ''Authenticated successfully'' c rc
       (put_client c (cl\<lparr>cl_auth_waiter := Some (sv_next sv)\<rparr>)
          (sv\<lparr>sv_timers := sv_timers sv @ [(sv_next sv, c)], sv_next := Suc (sv_next sv)\<rparr>)))))"
    if sv1: "same_core sv sv1" for w sv1 rc
  proof (rule yields_sbind[where Q = "same_core sv"])
    show "yields (same_core sv) (case w of None \<Rightarrow> Inr sv1 | Some w \<Rightarrow> timer_remove w sv1)"
      using sv1 by (auto intro: yields_mono[OF timer_remove_core] same_core_trans split: option.split)
    show "yields (\<lambda>(rc, sv'). same_core sv sv') (sbind (get_client c x) (\<lambda>cl.
       reply env STATUS_INFO ''Authenticated successfully'' c rc
         (put_client c (cl\<lparr>cl_auth_waiter := Some (sv_next x)\<rparr>)
            (x\<lparr>sv_timers := sv_timers x @ [(sv_next x, c)], sv_next := Suc (sv_next x)\<rparr>))))" if "same_core sv x" for x
      by (rule yields_True_sbind, rule reply_core_from) (use that in \<open>simp add: same_core_def\<close>)
  qed
  moreover have "same_core sv x" if "same_core ?sv x" for x using that by (simp add: same_core_def)
  ultimately show ?thesis using Some
    by (auto simp: authenticate_client_def get_client_def intro!: yields_sbind[OF write_auth_core] split: prod.splits)
qed (simp add: authenticate_client_def get_client_def)

lemma set_auth_mode_core: "yields (same_core sv) (discover_server_set_auth_mode env restrict sv)"
proof -
  have "yields (same_core sv) (send_all (\<lambda>c sv. sbind (get_client c sv) (\<lambda>cl.
          write_authenticate_message env c (put_client c (cl\<lparr>cl_can_modify := \<not> restrict\<rparr>) sv))) cs sv)" for cs sv
  proof (induction cs arbitrary: sv)
    case (Cons c cs)
    show ?case
    proof (cases "sv_client sv c")
      case (Some cl)
      have "yields (\<lambda>(rc, sv'). same_core sv sv') (write_authenticate_message env c (put_client c (cl\<lparr>cl_can_modify := \<not> restrict\<rparr>) sv))"
        by (rule yields_mono[OF write_auth_core]) (auto simp: same_core_def)
      from yields_sbind[OF this, of "same_core sv" "\<lambda>(rc, sv). send_all (\<lambda>c sv. sbind (get_client c sv) (\<lambda>cl.
          write_authenticate_message env c (put_client c (cl\<lparr>cl_can_modify := \<not> restrict\<rparr>) sv))) cs sv"]
      show ?thesis using Some yields_mono[OF Cons.IH] same_core_trans by (fastforce simp: get_client_def split: prod.splits)
    qed (simp add: get_client_def)
  qed simp
  then show ?thesis unfolding discover_server_set_auth_mode_def
    by (rule yields_mono) (simp add: same_core_def)
qed

lemma change_password_core: "yields (\<lambda>(rc, sv'). same_core sv sv') (change_password env new c sv)"
proof -
  obtain rc sh where e: "crypt_set_password (se_crypt env) new (sv_shadow sv) = (rc, sh)" by fastforce
  have "yields (\<lambda>(rc, sv'). same_core sv sv') (sbind (discover_server_set_auth_mode env b (sv\<lparr>sv_shadow := sh, sv_platform_hash := x\<rparr>))
      (reply env STATUS_ERROR ''Password updated successfully'' c r))" for b x r
    by (rule yields_sbind[OF set_auth_mode_core], rule reply_core_from) (simp add: same_core_def)
  moreover have "yields (\<lambda>(rc, sv'). same_core sv sv') (reply env STATUS_ERROR ''Error setting password'' c rc (sv\<lparr>sv_shadow := sh\<rparr>))"
    by (rule reply_core_from) (simp add: same_core_def)
  ultimately show ?thesis by (simp add: change_password_def e Let_def)
qed

text \<open>An operation of the handler that leaves the configuration alone.\<close>

lemma run_handler_confined:
  "yields (\<lambda>sv'. sv_platform sv' = sv_platform sv \<and> sv_shadow sv' = sv_shadow sv \<and> (\<forall>c b. may sv c b \<longrightarrow> may sv' c b))
     (run_handler env (handler_only operation) sv)"
proof (cases "operation (sv_handler sv)")
  case (Inr h)
  let ?sv = "sv\<lparr>sv_handler := h\<lparr>h_out := []\<rparr>, sv_platform := sv_platform sv\<rparr>"
  have core: "sv_platform sv' = sv_platform sv \<and> sv_shadow sv' = sv_shadow sv \<and> (\<forall>c b. may sv c b \<longrightarrow> may sv' c b)"
    if w: "only_writes ?sv sv'" for sv'
  proof -
    have "may sv c b \<Longrightarrow> may sv' c b" for c b using only_writes_may[OF w, of c b] by (simp add: may_def)
    then show ?thesis using w by (simp add: only_writes_def)
  qed
  have "yields (\<lambda>sv'. sv_platform sv' = sv_platform sv \<and> sv_shadow sv' = sv_shadow sv \<and> (\<forall>c b. may sv c b \<longrightarrow> may sv' c b))
     (deliver_all env (h_out h) ?sv)"
    by (rule yields_mono[OF deliver_all_only]) (use core in blast)
  then show ?thesis using Inr by (simp add: run_handler_def handler_only_def)
qed (simp add: run_handler_def handler_only_def)

text \<open>The password a client offers in a message.\<close>

definition offers :: "server_env \<Rightarrow> pb_message \<Rightarrow> cstr \<Rightarrow> bool" where
  "offers env m p \<longleftrightarrow>
     msg_action m = 0x10 \<and>
     (pb_protocol_deserialise_authenticate (se_endian env) m = Inr (AUTH_MSG_REQUEST p) \<or>
      (\<exists>new. pb_protocol_deserialise_authenticate (se_endian env) m = Inr (AUTH_MSG_SET p new)))"

definition confined :: "server_env \<Rightarrow> nat \<Rightarrow> pb_message \<Rightarrow> discover_server \<Rightarrow> discover_server \<Rightarrow> bool" where
  "confined env c m sv sv' \<longleftrightarrow>
     sv_platform sv' = sv_platform sv \<and>
     (sv_handler sv' = sv_handler sv \<or> msg_action m \<in> {0x5, 0x7}) \<and>
     (sv_shadow sv' = sv_shadow sv \<and> may sv' c False \<or>
      (\<exists>p. offers env m p \<and> crypt_check_password (se_crypt env) (sv_shadow sv) p))"

lemma confined_only_writes: "only_writes sv sv' \<Longrightarrow> may sv c False \<Longrightarrow> confined env c m sv sv'"
  using only_writes_may[of sv sv' c False] by (simp add: confined_def only_writes_def)

lemma run_handler_unprivileged:
  assumes "may sv c False" "msg_action m \<in> {0x5, 0x7}"
  shows "yields (\<lambda>(rc, sv'). confined env c m sv sv') (sbind (run_handler env (handler_only operation) sv) (\<lambda>sv. Inr (0, sv)))"
  by (rule yields_sbind[OF run_handler_confined]) (use assms in \<open>auto simp: confined_def\<close>)

lemma reply_unprivileged: "may sv c False \<Longrightarrow> yields (\<lambda>(rc, sv'). confined env c m sv sv') (reply env t msg c rc sv)"
  by (rule yields_mono[OF reply_only]) (auto intro: confined_only_writes)

lemma handle_auth_unprivileged:
  assumes "sv_client sv c = Some cl" "\<not> cl_can_modify cl" "sv_restrict_clients sv" "msg_action m = 0x10"
    "pb_protocol_deserialise_authenticate (se_endian env) m = Inr a"
  shows "yields (\<lambda>(rc, sv'). confined env c m sv sv') (discover_server_handle_auth_message env c a sv)"
proof -
  have may: "may sv c False" using assms(1,2) by (simp add: may_def)
  have ok: "yields (\<lambda>(rc, sv'). confined env c m sv sv') x"
    if "yields (\<lambda>(rc, sv'). same_core sv sv') x" "offers env m p" "crypt_check_password (se_crypt env) (sv_shadow sv) p" for x p
    by (rule yields_mono[OF that(1)]) (use that(2,3) in \<open>auto simp: confined_def same_core_def\<close>)
  show ?thesis
  proof (cases a)
    case (AUTH_MSG_REQUEST p)
    then have "offers env m p" using assms(4,5) by (simp add: offers_def)
    then show ?thesis using AUTH_MSG_REQUEST reply_unprivileged[OF may] ok[OF authenticate_client_core]
      by (simp add: discover_server_handle_auth_message_def)
  next
    case (AUTH_MSG_SET p new)
    then have "offers env m p" using assms(4,5) by (simp add: offers_def)
    then show ?thesis using AUTH_MSG_SET reply_unprivileged[OF may] ok[OF change_password_core] assms(3)
      by (simp add: discover_server_handle_auth_message_def)
  next
    case (AUTH_MSG_DECRYPT p i)
    then show ?thesis using reply_unprivileged[OF may] assms(1,2)
      by (simp add: discover_server_handle_auth_message_def get_client_def)
  qed (simp_all add: discover_server_handle_auth_message_def confined_only_writes may)
qed

lemma process_unprivileged_confined:
  assumes "sv_client sv c = Some cl" "\<not> cl_can_modify cl" "sv_restrict_clients sv"
  shows "yields (\<lambda>(rc, sv'). confined env c m sv sv') (process_unprivileged env c m sv)"
proof -
  have may: "may sv c False" using assms(1,2) by (simp add: may_def)
  have boot: "yields (\<lambda>(rc, sv'). confined env c m sv sv') (boot_message env False m sv)" if "msg_action m = 0x5"
    unfolding boot_message_def
    by (rule yields_True_sbind) (use run_handler_unprivileged[OF may] that may in \<open>auto simp: confined_only_writes split: option.split\<close>)
  have auth: "yields (\<lambda>(rc, sv'). confined env c m sv sv') (sbind (parsed (pb_protocol_deserialise_authenticate (se_endian env) m)) (\<lambda>auth_msg.
           case auth_msg of None \<Rightarrow> Inr (- 1, sv) | Some a \<Rightarrow> discover_server_handle_auth_message env c a sv))" if "msg_action m = 0x10"
  proof (cases "pb_protocol_deserialise_authenticate (se_endian env) m")
    case (Inl e)
    then show ?thesis by (cases e) (simp_all add: parsed_def confined_only_writes may)
  next
    case (Inr a)
    then show ?thesis using handle_auth_unprivileged[OF assms that Inr] by (simp add: parsed_def)
  qed
  have cancel: "yields (\<lambda>(rc, sv'). confined env c m sv sv')
      (sbind (run_handler env (handler_only device_handler_cancel_default) sv) (\<lambda>sv. Inr (0 :: int, sv)))" if "msg_action m = 0x7"
    by (rule run_handler_unprivileged[OF may]) (simp add: that)
  show ?thesis using boot auth cancel reply_unprivileged[OF may] by (simp add: process_unprivileged_def)
qed


section \<open>Expiry\<close>

lemma write_serialised_returns:
  assumes "sv_client sv c = Some cl" "0 \<le> sint len" "sint len \<le> int PB_PROTOCOL_MAX_PAYLOAD_SIZE"
  shows "\<exists>r. write_serialised env c action len (Inr bs) sv = Inr r"
  using assms by (auto simp: write_serialised_def pb_protocol_create_message_def client_write_message_def get_client_def)

lemma write_authenticate_returns:
  assumes "sv_client sv c = Some cl"
  shows "\<exists>r. write_authenticate_message env c sv = Inr r"
proof -
  let ?a = "AUTH_MSG_RESPONSE (cl_can_modify cl)"
  let ?len = "pb_protocol_authenticate_len ?a"
  have len: "0 \<le> sint ?len" "sint ?len \<le> int PB_PROTOCOL_MAX_PAYLOAD_SIZE"
    by (simp_all add: pb_protocol_authenticate_len_def PB_PROTOCOL_MAX_PAYLOAD_SIZE_def)
  have "\<exists>bs. pb_protocol_serialise_authenticate (se_endian env) ?a ?len = Inr bs"
    by (cases "se_endian env") (simp_all add: pb_protocol_serialise_authenticate_def authenticate_bytes_def pb_protocol_authenticate_len_def
        ser_finish_def host32_def ser_bool_def be32_def)
  then show ?thesis using write_serialised_returns[OF assms len] assms
    by (fastforce simp: write_authenticate_message_def get_client_def Let_def)
qed

text \<open>C6: While clients are restricted, a client that may make changes without being root has a timeout, and when
  the timeout expires the client loses the right.\<close>

theorem privileges_expire:
  assumes "server_reachable env sv" "sv_restrict_clients sv" "sv_client sv c = Some cl" "cl_can_modify cl" "\<not> cl_root cl"
  shows "\<exists>w sv' cl'. (w, c) \<in> set (sv_timers sv) \<and> timer_fire env w sv = Inr sv' \<and>
    sv_client sv' c = Some cl' \<and> \<not> cl_can_modify cl'"
proof -
  have ok: "server_ok sv" by (rule server_reachable_ok[OF assms(1)])
  then have t: "timers_ok sv" and r: "rights_ok sv" by (simp_all add: server_ok_def)
  obtain w where w: "cl_auth_waiter cl = Some w" using r assms(2-5) by (auto simp: rights_ok_def)
  then have m: "(w, c) \<in> set (sv_timers sv)" using timers_okD(1)[OF t] assms(3) by (simp add: waiter_of_def)
  let ?sv = "put_client c (cl\<lparr>cl_auth_waiter := None, cl_can_modify := False\<rparr>) sv"
  obtain rc sv2 where wr: "write_authenticate_message env c ?sv = Inr (rc, sv2)" using write_authenticate_returns[of ?sv c _ env] by auto
  have ow: "only_writes ?sv sv2" using yieldsD[OF write_messages_only(9) wr] by simp
  obtain cl2 where cl2: "sv_client sv2 c = Some cl2" "\<not> cl_can_modify cl2" 
    using only_writes_client[OF ow, of c "cl\<lparr>cl_auth_waiter := None, cl_can_modify := False\<rparr>"] by auto
  have "w \<in> fst ` set (sv_timers sv2)" using ow m by (force simp: only_writes_def)
  moreover have "map_of (sv_timers sv) w = Some c" by (rule map_of_is_SomeI[OF timers_okD(2)[OF t] m])
  ultimately have "timer_fire env w sv = Inr (sv2\<lparr>sv_timers := drop_timer (Some w) (sv_timers sv2)\<rparr>)"
    using assms(3) wr timer_remove_eq[of w sv2] by (simp add: timer_fire_def client_auth_timeout_def get_client_def)
  then show ?thesis using m cl2 by (intro exI[of _ w] exI[of _ "sv2\<lparr>sv_timers := drop_timer (Some w) (sv_timers sv2)\<rparr>"] exI[of _ cl2]) simp
qed

text \<open>The timeout also takes the right away when the password has been cleared in the meantime and nobody is
  restricted any more.\<close>

lemma timeout_ignores_mode:
  assumes "server_reachable env sv" "\<not> sv_restrict_clients sv" "(w, c) \<in> set (sv_timers sv)" "timer_fire env w sv = Inr sv'"
  shows "may sv' c False"
  using yieldsD[OF timer_fire_ok[OF server_reachable_ok[OF assms(1)]] assms(4)] assms(3) by blast

section \<open>Failed authentication\<close>

text \<open>After a wrong password the server still has the client but no longer waits for its messages: the
  callback's result makes the wait set drop the waiter.\<close>

theorem wrong_password_deafens:
  assumes "sv_client sv c = Some cl" "\<not> cl_can_modify cl" "msg_action m = 0x10"
    "pb_protocol_deserialise_authenticate (se_endian env) m = Inr (AUTH_MSG_REQUEST p)"
    "\<not> crypt_check_password (se_crypt env) (sv_shadow sv) p"
  shows "\<exists>sv' cl'. client_ready env c (Some m) sv = Inr sv' \<and> sv_client sv' c = Some cl' \<and> \<not> cl_io cl'"
proof -
  let ?st = "text_status STATUS_ERROR ''Password incorrect''"
  let ?len = "pb_protocol_boot_status_len ?st"
  have len: "0 \<le> sint ?len" "sint ?len \<le> int PB_PROTOCOL_MAX_PAYLOAD_SIZE"
    by (simp_all add: pb_protocol_boot_status_len_def text_status_def optional_strlen_def PB_PROTOCOL_MAX_PAYLOAD_SIZE_def)
  have "\<exists>bs. pb_protocol_serialise_boot_status ?st ?len = Inr bs"
    by (simp add: pb_protocol_serialise_boot_status_def boot_status_bytes_def pb_protocol_boot_status_len_def text_status_def
        optional_strlen_def ser_finish_def pb_protocol_serialise_string_def be32_def ser_bool_def)
  then obtain x sv1 where w: "write_boot_status_message env ?st c sv = Inr (x, sv1)"
    using write_serialised_returns[OF assms(1) len] by (fastforce simp: write_boot_status_message_def Let_def)
  have "only_writes sv sv1" using yieldsD[OF write_messages_only(6) w] by simp
  then obtain cl1 where "sv_client sv1 c = Some cl1" using only_writes_client[OF _ assms(1)] by metis
  then show ?thesis using assms w
    by (simp add: client_ready_def discover_server_process_message_def get_client_def process_unprivileged_def parsed_def
        discover_server_handle_auth_message_def reply_def)
qed

section \<open>A run of the server\<close>

text \<open>A restricted server with one client that is not root and whose connection no longer takes messages; the
  client sends the password.\<close>

definition sample_server_env :: server_env where
  "sample_server_env =
     \<lparr>se_endian = Little_Endian, se_write = (\<lambda>_ _. False), se_mem = (\<lambda>n. replicate (unat n) NUL), se_mem_bool = False,
      se_text = (\<lambda>_. []),
      se_sysinfo = \<lparr>si_type = None, si_identifier = None, si_platform_primary = [], si_platform_other = [], si_bmc_current = [],
        si_bmc_golden = [], si_interfaces = [], si_blockdevs = [], si_bmc_mac = None, si_stb_fw_measurement = False,
        si_stb_fw_enforcing = False, si_stb_os_enforcing = False\<rparr>,
      se_crypt = sample_crypt, se_boot = sample_env, se_parsers = [], se_resolvers = parser_resolvers, se_ifaces = [],
      se_route = (\<lambda>_. None), se_async = (\<lambda>_. True), se_process = True, se_config_mem = be_config sample_env,
      se_command_mem = sample_boot_command\<rparr>"

definition password_message :: "string \<Rightarrow> pb_message" where
  "password_message p = \<lparr>msg_action = 0x10, msg_payload_len = 10, msg_payload = host32 Little_Endian 0 @ ser_str (Some p)\<rparr>"

lemma password_message_parses:
  "pb_protocol_deserialise_authenticate Little_Endian (password_message ''pw'') = Inr (AUTH_MSG_REQUEST (Some ''pw''))"
  "pb_protocol_deserialise_authenticate Little_Endian (password_message ''no'') = Inr (AUTH_MSG_REQUEST (Some ''no''))"
  by code_simp+

definition start_server :: discover_server where
  "start_server = discover_server_init True (device_handler_init False (be_config sample_env) [])
     \<lparr>ps_platform = None, ps_config = be_config sample_env\<rparr> [(''root'', ''$pw'')]"

definition lone_client :: "bool \<Rightarrow> nat option \<Rightarrow> client" where
  "lone_client can_modify w = \<lparr>cl_io = True, cl_remote_closed = True, cl_can_modify = can_modify, cl_auth_waiter = w, cl_root = False, cl_out = []\<rparr>"

definition connected :: discover_server where
  "connected = start_server\<lparr>sv_client := [0 \<mapsto> lone_client False None], sv_clients := [0], sv_next := 1\<rparr>"

lemma connect_eq: "discover_server_process_connection sample_server_env (Some 1000) start_server = Inr connected"
  by (simp add: discover_server_process_connection_def start_server_def discover_server_init_def device_handler_init_def
      write_authenticate_message_def get_client_def write_serialised_def pb_protocol_create_message_def pb_protocol_authenticate_len_def
      PB_PROTOCOL_MAX_PAYLOAD_SIZE_def pb_protocol_serialise_authenticate_def authenticate_bytes_def ser_finish_def host32_def be32_def
      ser_bool_def client_write_message_def sample_server_env_def put_client_def connected_def lone_client_def Let_def)

lemma connected_reachable: "server_reachable sample_server_env connected"
  using server_step.connect[of sample_server_env start_server "Some 1000"] server_reachable.init
  unfolding connect_eq start_server_def[symmetric] by (metis server_reachable.step start_server_def)

theorem wrong_password_deafens_witness:
  "\<exists>sv' cl'. client_ready sample_server_env 0 (Some (password_message ''no'')) connected = Inr sv' \<and> sv_client sv' 0 = Some cl' \<and> \<not> cl_io cl'"
  by (rule wrong_password_deafens[of _ _ "lone_client False None" _ _ "Some ''no''"])
    (simp_all add: connected_def lone_client_def password_message_parses sample_server_env_def crypt_check_password_def start_server_def
      discover_server_init_def getspnam_def sample_crypt_def strneq_def, simp add: password_message_def)

text \<open>The right password; the connection takes no answer, so the wait set drops the waiter.\<close>

definition authenticated :: discover_server where
  "authenticated = start_server\<lparr>sv_client := [0 \<mapsto> (lone_client True (Some 1))\<lparr>cl_io := False\<rparr>], sv_clients := [0],
     sv_timers := [(1, 0)], sv_next := 2\<rparr>"

lemma authenticate_eq: "client_ready sample_server_env 0 (Some (password_message ''pw'')) connected = Inr authenticated"
proof -
  have p: "pb_protocol_deserialise_authenticate (se_endian sample_server_env) (password_message ''pw'') = Inr (AUTH_MSG_REQUEST (Some ''pw''))"
    by (simp add: password_message_parses sample_server_env_def)
  have c: "crypt_check_password (se_crypt sample_server_env) (sv_shadow connected) (Some ''pw'')"
    by (simp add: connected_def start_server_def sample_server_env_def discover_server_init_def crypt_check_password_def
        getspnam_def sample_crypt_def strneq_def)
  have "authenticate_client sample_server_env 0 connected = Inr (- 1, authenticated\<lparr>sv_client := [0 \<mapsto> lone_client True (Some 1)]\<rparr>)"
    by (simp add: authenticate_client_def get_client_def connected_def lone_client_def start_server_def discover_server_init_def
      write_authenticate_message_def write_serialised_def pb_protocol_create_message_def pb_protocol_authenticate_len_def
      PB_PROTOCOL_MAX_PAYLOAD_SIZE_def pb_protocol_serialise_authenticate_def authenticate_bytes_def ser_finish_def host32_def be32_def
      ser_bool_def client_write_message_def sample_server_env_def put_client_def Let_def reply_def write_boot_status_message_def
      pb_protocol_boot_status_len_def text_status_def optional_strlen_def pb_protocol_serialise_boot_status_def boot_status_bytes_def
      pb_protocol_serialise_string_def authenticated_def)
  moreover have "msg_action (password_message p) = 0x10" for p by (simp add: password_message_def)
  ultimately show ?thesis using p c
    by (simp add: client_ready_def discover_server_process_message_def get_client_def connected_def lone_client_def
        process_unprivileged_def parsed_def discover_server_handle_auth_message_def authenticated_def put_client_def)
qed

theorem privileges_expire_witness:
  "\<exists>w sv' cl'. (w, 0) \<in> set (sv_timers authenticated) \<and> timer_fire sample_server_env w authenticated = Inr sv' \<and>
    sv_client sv' 0 = Some cl' \<and> \<not> cl_can_modify cl'"
proof (rule privileges_expire)
  have "cl_io (lone_client False None)" "sv_client connected 0 = Some (lone_client False None)" by (simp_all add: lone_client_def connected_def)
  then have "server_step sample_server_env connected (Inr authenticated)"
    using server_step.message[of connected 0 "lone_client False None" sample_server_env "Some (password_message ''pw'')"] by (simp add: authenticate_eq)
  then show "server_reachable sample_server_env authenticated" by (rule server_reachable.step[OF connected_reachable])
  show "sv_client authenticated 0 = Some ((lone_client True (Some 1))\<lparr>cl_io := False\<rparr>)" by (simp add: authenticated_def)
qed (simp_all add: authenticated_def start_server_def discover_server_init_def lone_client_def)


end
