(* ===== verification/Client_Props.thy ===== *)
theory Client_Props
  imports Client Server_Props
begin

text \<open>
  The server and its clients together: the copy of the devices that a client keeps follows what the device handler tells the server, a new
  client gets the devices as they are, and what a client asks for is what the server does.
\<close>

section \<open>The view of a client\<close>

text \<open>What a notification of the device handler does to the list of devices, in terms of the view alone.\<close>

fun add_option :: "boot_option \<Rightarrow> client_device list \<Rightarrow> client_device list" where
  "add_option opt [] = []"
| "add_option opt (d # ds) =
     (if dev_id (cd_device d) = opt_device_id opt then d\<lparr>cd_boot_options := opt # cd_boot_options d\<rparr> # ds else d # add_option opt ds)"

fun drop_device :: "string \<Rightarrow> client_device list \<Rightarrow> client_device list" where
  "drop_device i [] = []"
| "drop_device i (d # ds) = (if dev_id (cd_device d) = Some i then ds else d # drop_device i ds)"

definition mirror :: "notification \<Rightarrow> client_device list \<Rightarrow> client_device list" where
  "mirror n view =
     (case n of
        Notify_device_add d \<Rightarrow> view @ [\<lparr>cd_device = norm_device d, cd_boot_options = []\<rparr>]
      | Notify_boot_option_add opt \<Rightarrow> add_option (norm_boot_option opt) view
      | Notify_device_remove d \<Rightarrow> (case norm_str (dev_id d) of None \<Rightarrow> view | Some i \<Rightarrow> drop_device i view)
      | _ \<Rightarrow> view)"

text \<open>Every device has an identifier.\<close>

definition named :: "client_device list \<Rightarrow> bool" where
  "named view \<longleftrightarrow> list_all (\<lambda>d. dev_id (cd_device d) \<noteq> None) view"

text \<open>A notification that fits in a message, and one that the view can take: a device has a name, and an option comes after its device.\<close>

definition fits_status :: "status \<Rightarrow> bool" where
  "fits_status s \<longleftrightarrow>
     wf_status s \<and> unat (pb_protocol_boot_status_len s) \<le> PB_PROTOCOL_MAX_PAYLOAD_SIZE \<and>
     length (boot_status_bytes s) \<le> PB_PROTOCOL_MAX_PAYLOAD_SIZE"

definition fits :: "server_env \<Rightarrow> notification \<Rightarrow> bool" where
  "fits env n \<longleftrightarrow>
     (case n of
        Notify_device_add d \<Rightarrow> wf_device d \<and> length (device_bytes (se_endian env) d) \<le> PB_PROTOCOL_MAX_PAYLOAD_SIZE
      | Notify_boot_option_add opt \<Rightarrow> wf_boot_option opt \<and> length (boot_option_bytes opt) \<le> PB_PROTOCOL_MAX_PAYLOAD_SIZE
      | Notify_device_remove d \<Rightarrow>
          dev_id d \<noteq> None \<and> wf_str (dev_id d) \<and> length (ser_str (dev_id d)) \<le> PB_PROTOCOL_MAX_PAYLOAD_SIZE
      | Notify_plugin_option_add p \<Rightarrow> wf_plugin_option p \<and> length (plugin_option_bytes p) \<le> PB_PROTOCOL_MAX_PAYLOAD_SIZE
      | Notify_config cfg \<Rightarrow> wf_config cfg \<and> length (config_bytes (se_endian env) cfg) \<le> PB_PROTOCOL_MAX_PAYLOAD_SIZE
      | Notify_status t msg \<Rightarrow> fits_status (handler_status env t msg)
      | _ \<Rightarrow> True)"

definition takes :: "notification \<Rightarrow> client_device list \<Rightarrow> bool" where
  "takes n view \<longleftrightarrow>
     (case n of
        Notify_device_add d \<Rightarrow> norm_str (dev_id d) \<noteq> None
      | Notify_boot_option_add opt \<Rightarrow>
          norm_str (opt_device_id opt) \<noteq> None \<and> list_ex (\<lambda>d. dev_id (cd_device d) = norm_str (opt_device_id opt)) view
      | _ \<Rightarrow> True)"

fun accepts :: "server_env \<Rightarrow> notification list \<Rightarrow> client_device list \<Rightarrow> bool" where
  "accepts env [] view \<longleftrightarrow> True"
| "accepts env (n # ns) view \<longleftrightarrow> fits env n \<and> takes n view \<and> accepts env ns (mirror n view)"

lemma named_add_option [simp]: "named (add_option opt view) = named view"
  by (induction view) (auto simp: named_def)

lemma named_drop_device: "named view \<Longrightarrow> named (drop_device i view)"
  by (induction view) (auto simp: named_def)

lemma named_mirror: "named view \<Longrightarrow> takes n view \<Longrightarrow> named (mirror n view)"
  unfolding mirror_def takes_def
  by (auto simp: named_drop_device norm_device_def split: notification.splits option.splits) (auto simp: named_def)

section \<open>The client's lists\<close>

lemma cbind_simps [simp]: "cbind (Inr x) k = k x" "cbind (Inl e) k = Inl e"
  by (simp_all add: cbind_def)

lemma call_ui_devices [simp]: "dc_devices (call_ui b c client) = dc_devices client" "dc_ops (call_ui b c client) = dc_ops client"
  by (simp_all add: call_ui_def)

lemma find_index_add:
  assumes "named view" "list_ex (\<lambda>d. dev_id (cd_device d) = Some i) view" "opt_device_id opt = Some i"
  shows "\<exists>n < length view. find_index view i = Inr (Some n) \<and>
    view[n := (view ! n)\<lparr>cd_boot_options := opt # cd_boot_options (view ! n)\<rparr>] = add_option opt view"
  using assms
proof (induction view)
  case (Cons d view)
  show ?case
  proof (cases "dev_id (cd_device d) = Some i")
    case False
    with Cons obtain n where "n < length view" "find_index view i = Inr (Some n)"
      "view[n := (view ! n)\<lparr>cd_boot_options := opt # cd_boot_options (view ! n)\<rparr>] = add_option opt view"
      by (auto simp: named_def)
    with False Cons.prems show ?thesis by (intro exI[of _ "Suc n"]) (auto simp: named_def)
  qed (use Cons.prems in auto)
qed simp

lemma find_index_drop:
  assumes "named view"
  shows "\<exists>r. find_index view i = Inr r \<and>
    drop_device i view = (case r of None \<Rightarrow> view | Some n \<Rightarrow> take n view @ drop (Suc n) view)"
  using assms
proof (induction view)
  case (Cons d view)
  then obtain r where "find_index view i = Inr r"
    "drop_device i view = (case r of None \<Rightarrow> view | Some n \<Rightarrow> take n view @ drop (Suc n) view)" by (auto simp: named_def)
  with Cons.prems show ?case by (cases r) (auto simp: named_def)
qed simp

lemma boot_option_add_view:
  assumes "named (dc_devices client)" "opt_device_id opt = Some i" "list_ex (\<lambda>d. dev_id (cd_device d) = Some i) (dc_devices client)"
  shows "\<exists>client'. boot_option_add opt client = Inr client' \<and> dc_devices client' = add_option opt (dc_devices client) \<and>
    dc_ops client' = dc_ops client"
proof -
  from find_index_add[OF assms(1,3,2)] obtain n where
    "find_index (dc_devices client) i = Inr (Some n)"
    "(dc_devices client)[n := (dc_devices client ! n)\<lparr>cd_boot_options := opt # cd_boot_options (dc_devices client ! n)\<rparr>] =
       add_option opt (dc_devices client)" by blast
  then show ?thesis using assms(2) by (simp add: boot_option_add_def find_device_def Let_def)
qed

lemma device_remove_view:
  assumes "named (dc_devices client)" "op_device_remove (dc_ops client)"
  shows "\<exists>client'. device_remove i client = Inr client' \<and> dc_devices client' = drop_device i (dc_devices client) \<and>
    dc_ops client' = dc_ops client"
  using find_index_drop[OF assms(1), of i] assms(2) by (auto simp: device_remove_def split: option.split)

section \<open>From the server to the client\<close>

text \<open>A client that is connected, and that takes what is written to it.\<close>

definition listens :: "server_env \<Rightarrow> nat \<Rightarrow> client \<Rightarrow> discover_server \<Rightarrow> bool" where
  "listens env c cl sv \<longleftrightarrow> server_ok sv \<and> sv_client sv c = Some cl \<and> \<not> cl_remote_closed cl \<and> (\<forall>m. se_write env c m)"

text \<open>The environment's memory is what was asked for.\<close>

definition sized :: "server_env \<Rightarrow> bool" where
  "sized env \<longleftrightarrow> (\<forall>n. length (se_mem env n) = unat n)"

lemma send_all_write:
  assumes "\<And>c sv. f c sv = client_write_message env c m sv" "distinct cs" "set cs \<subseteq> dom (sv_client sv)"
    "sv_client sv c = Some cl" "\<not> cl_remote_closed cl" "se_write env c m"
  shows "\<exists>sv'. send_all f cs sv = Inr sv' \<and>
    sv_client sv' c = Some (if c \<in> set cs then cl\<lparr>cl_out := cl_out cl @ [m]\<rparr> else cl)"
  using assms(2-5)
proof (induction cs arbitrary: sv cl)
  case (Cons x cs)
  obtain clx where x: "sv_client sv x = Some clx" using Cons.prems by auto
  then obtain rc sv1 where w: "client_write_message env x m sv = Inr (rc, sv1)"
    by (cases "cl_remote_closed clx"; cases "se_write env x m") (auto simp: client_write_message_def get_client_def)
  have dom: "set cs \<subseteq> dom (sv_client sv1)"
    using only_writes_dom[of sv sv1] yieldsD[OF client_write_only w] Cons.prems(2) by simp
  show ?case
  proof (cases "x = c")
    case True
    then have "sv_client sv1 c = Some (cl\<lparr>cl_out := cl_out cl @ [m]\<rparr>)"
      using w Cons.prems assms(6) by (auto simp: client_write_message_def get_client_def put_client_def)
    then show ?thesis using Cons.IH[OF _ dom, of "cl\<lparr>cl_out := cl_out cl @ [m]\<rparr>"] True Cons.prems w by (auto simp: assms(1))
  next
    case False
    then have "sv_client sv1 c = Some cl"
      using w x Cons.prems(3) by (auto simp: client_write_message_def get_client_def put_client_def split: if_splits)
    then show ?thesis using Cons.IH[OF _ dom, of cl] False Cons.prems w by (auto simp: assms(1))
  qed
qed simp

lemma to_clients_write:
  assumes "\<And>c sv. f c sv = client_write_message env c m sv" "listens env c cl sv"
  shows "\<exists>sv'. to_clients f sv = Inr sv' \<and> listens env c (cl\<lparr>cl_out := cl_out cl @ [m]\<rparr>) sv'"
proof -
  have sv: "distinct (sv_clients sv)" "set (sv_clients sv) = dom (sv_client sv)" "sv_client sv c = Some cl"
    using assms(2) by (auto simp: listens_def server_ok_def timers_ok_def)
  then have "c \<in> set (sv_clients sv)" by blast
  with send_all_write[of f, OF assms(1) sv(1) _ sv(3)] sv(2) assms(2) obtain sv' where
    s: "to_clients f sv = Inr sv'" "sv_client sv' c = Some (cl\<lparr>cl_out := cl_out cl @ [m]\<rparr>)" by (auto simp: listens_def)
  have "yields (only_writes sv) (to_clients f sv)" by (rule send_all_only) (simp add: assms(1) client_write_only)
  then have "server_ok sv'" using s(1) assms(2) only_writes_ok by (auto simp: listens_def)
  then show ?thesis using s assms(2) by (auto simp: listens_def)
qed

text \<open>Serialise, write, read back.\<close>

lemma write_serialised_parses:
  assumes "\<exists>m bs. pb_protocol_create_message a len (se_mem env len) = Inr (Some m) \<and> bytes = Inr bs \<and> P (store_payload bs m)"
  shows "\<exists>m. msg_action m = a \<and> P m \<and> (\<forall>c sv. write_serialised env c a len bytes sv = client_write_message env c m sv)"
proof -
  from assms obtain m bs where m: "pb_protocol_create_message a len (se_mem env len) = Inr (Some m)" "bytes = Inr bs"
    "P (store_payload bs m)" by blast
  then have "msg_action (store_payload bs m) = a"
    by (auto simp: pb_protocol_create_message_def store_payload_def split: if_splits)
  with m show ?thesis by (intro exI[of _ "store_payload bs m"]) (simp add: write_serialised_def)
qed

text \<open>A message that makes a client do to its list what the notification means.\<close>

definition conveys :: "server_env \<Rightarrow> notification \<Rightarrow> pb_message \<Rightarrow> bool" where
  "conveys env n m \<longleftrightarrow>
     (\<forall>client. named (dc_devices client) \<longrightarrow> op_device_remove (dc_ops client) \<longrightarrow> takes n (dc_devices client) \<longrightarrow>
       (\<exists>client'. client_message (se_endian env) m client = Inr client' \<and>
          dc_devices client' = mirror n (dc_devices client) \<and> dc_ops client' = dc_ops client))"

lemmas client_message_simps = client_message_def on_parsed_def ui_only_def device_add_def mirror_def takes_def

lemma device_message:
  assumes "fits env (Notify_device_add d)" "sized env"
  shows "\<exists>m. conveys env (Notify_device_add d) m \<and> (\<forall>c sv. write_device_add_message env d c sv = client_write_message env c m sv)"
proof -
  have "\<exists>m. msg_action m = 0x1 \<and> pb_protocol_deserialise_device (se_endian env) zero_device m = Inr (norm_device d) \<and>
      (\<forall>c sv. write_device_add_message env d c sv = client_write_message env c m sv)"
    unfolding write_device_add_message_def Let_def
    by (rule write_serialised_parses, rule device_roundtrip) (use assms in \<open>auto simp: fits_def sized_def\<close>)
  then show ?thesis by (rule ex_forward) (simp add: conveys_def client_message_simps)
qed

lemma option_message:
  assumes "fits env (Notify_boot_option_add opt)" "sized env"
  shows "\<exists>m. conveys env (Notify_boot_option_add opt) m \<and>
    (\<forall>c sv. write_boot_option_add_message env opt c sv = client_write_message env c m sv)"
proof -
  have "\<exists>m. msg_action m = 0x2 \<and> pb_protocol_deserialise_boot_option zero_boot_option m = Inr (norm_boot_option opt) \<and>
      (\<forall>c sv. write_boot_option_add_message env opt c sv = client_write_message env c m sv)"
    unfolding write_boot_option_add_message_def Let_def
    by (rule write_serialised_parses, rule boot_option_roundtrip) (use assms in \<open>auto simp: fits_def sized_def\<close>)
  moreover have "\<exists>client'. boot_option_add (norm_boot_option opt) client = Inr client' \<and>
      dc_devices client' = add_option (norm_boot_option opt) (dc_devices client) \<and> dc_ops client' = dc_ops client"
    if "named (dc_devices client)" "takes (Notify_boot_option_add opt) (dc_devices client)" for client
    using that by (intro boot_option_add_view[of client _ "the (norm_str (opt_device_id opt))"])
      (auto simp: takes_def norm_boot_option_def)
  ultimately show ?thesis by (elim ex_forward) (simp add: conveys_def client_message_def on_parsed_def mirror_def)
qed

lemma string_message:
  assumes "wf_str s" "length (ser_str s) \<le> PB_PROTOCOL_MAX_PAYLOAD_SIZE" "sized env" "len = nbytes (ser_str s)"
  shows "\<exists>m bs. pb_protocol_create_message a len (se_mem env len) = Inr (Some m) \<and> Inr (ser_str s) = Inr bs \<and>
    pb_protocol_deserialise_string (store_payload bs m) = Inr (norm_str s)"
  using str.filled_exact[OF assms(1,4,2), of "se_mem env len" a] assms(3)
  by (auto simp: sized_def pb_protocol_deserialise_string_def)

lemma remove_message:
  assumes "fits env (Notify_device_remove d)" "sized env"
  shows "\<exists>m. conveys env (Notify_device_remove d) m \<and>
    (\<forall>c sv. write_device_remove_message env (dev_id d) c sv = client_write_message env c m sv)"
proof -
  from assms(1) obtain s where d: "dev_id d = Some s" by (auto simp: fits_def)
  have "nbytes (ser_str (Some s)) = word_of_nat (length s + 4)" by (simp add: pb_protocol_serialise_string_def)
  then have "\<exists>m. msg_action m = 0x3 \<and> pb_protocol_deserialise_string m = Inr (norm_str (Some s)) \<and>
      (\<forall>c sv. write_serialised env c 0x3 (word_of_nat (length s + 4)) (Inr (ser_str (Some s))) sv = client_write_message env c m sv)"
    by (intro write_serialised_parses string_message) (use assms d in \<open>auto simp: fits_def\<close>)
  then show ?thesis using d device_remove_view
    by (elim ex_forward) (simp add: conveys_def client_message_simps write_device_remove_message_def split: option.split)
qed

abbreviation silent :: notification where
  "silent \<equiv> Notify_plugins_remove"

lemma status_message:
  assumes "fits_status s" "sized env" "n = silent \<or> n = Notify_status t msg"
  shows "\<exists>m. conveys env n m \<and> (\<forall>c sv. write_boot_status_message env s c sv = client_write_message env c m sv)"
proof -
  have "\<exists>m. msg_action m = 0x6 \<and> pb_protocol_deserialise_boot_status zero_status m = Inr (norm_status s) \<and>
      (\<forall>c sv. write_boot_status_message env s c sv = client_write_message env c m sv)"
    unfolding write_boot_status_message_def Let_def
    by (intro write_serialised_parses boot_status_roundtrip) (use assms in \<open>auto simp: fits_status_def sized_def\<close>)
  then show ?thesis by (rule ex_forward) (use assms(3) in \<open>auto simp: conveys_def client_message_simps\<close>)
qed

lemma other_messages:
  assumes "sized env"
  shows "fits env (Notify_plugin_option_add p) \<Longrightarrow> \<exists>m. conveys env (Notify_plugin_option_add p) m \<and>
      (\<forall>c sv. write_plugin_option_add_message env p c sv = client_write_message env c m sv)"
    and "fits env (Notify_config cfg) \<Longrightarrow> \<exists>m. conveys env (Notify_config cfg) m \<and>
      (\<forall>c sv. write_config_message env cfg c sv = client_write_message env c m sv)"
    and "fits env (Notify_status t msg) \<Longrightarrow> \<exists>m. conveys env (Notify_status t msg) m \<and>
      (\<forall>c sv. write_boot_status_message env (handler_status env t msg) c sv = client_write_message env c m sv)"
    and "\<exists>m. conveys env Notify_plugins_remove m \<and> (\<forall>c sv. write_plugins_remove_message env c sv = client_write_message env c m sv)"
proof -
  assume "fits env (Notify_plugin_option_add p)"
  then have "\<exists>m. msg_action m = 0xc \<and> pb_protocol_deserialise_plugin_option zero_plugin_option m = Inr (norm_plugin_option p) \<and>
      (\<forall>c sv. write_plugin_option_add_message env p c sv = client_write_message env c m sv)"
    unfolding write_plugin_option_add_message_def Let_def
    by (intro write_serialised_parses plugin_option_roundtrip) (use assms in \<open>auto simp: fits_def sized_def\<close>)
  then show "\<exists>m. conveys env (Notify_plugin_option_add p) m \<and>
      (\<forall>c sv. write_plugin_option_add_message env p c sv = client_write_message env c m sv)"
    by (rule ex_forward) (simp add: conveys_def client_message_simps)
next
  assume "fits env (Notify_config cfg)"
  then have "\<exists>m. msg_action m = 0x9 \<and> pb_protocol_deserialise_config zero_config m = Inr (norm_config zero_config cfg) \<and>
      (\<forall>c sv. write_config_message env cfg c sv = client_write_message env c m sv)"
    unfolding write_config_message_def Let_def
    by (intro write_serialised_parses config_roundtrip) (use assms in \<open>auto simp: fits_def sized_def\<close>)
  then show "\<exists>m. conveys env (Notify_config cfg) m \<and> (\<forall>c sv. write_config_message env cfg c sv = client_write_message env c m sv)"
    by (rule ex_forward) (simp add: conveys_def client_message_simps)
next
  assume "fits env (Notify_status t msg)"
  then show "\<exists>m. conveys env (Notify_status t msg) m \<and>
      (\<forall>c sv. write_boot_status_message env (handler_status env t msg) c sv = client_write_message env c m sv)"
    by (intro status_message) (use assms in \<open>auto simp: fits_def\<close>)
next
  have "\<exists>m. msg_action m = 0xd \<and> True \<and> (\<forall>c sv. write_plugins_remove_message env c sv = client_write_message env c m sv)"
    unfolding write_plugins_remove_message_def by (rule write_serialised_parses) (simp add: create_message_ok)
  then show "\<exists>m. conveys env Notify_plugins_remove m \<and>
      (\<forall>c sv. write_plugins_remove_message env c sv = client_write_message env c m sv)"
    by (rule ex_forward) (simp add: conveys_def client_message_simps)
qed

text \<open>The messages that do so one after the other.\<close>

definition convey :: "server_env \<Rightarrow> notification list \<Rightarrow> pb_message list \<Rightarrow> bool" where
  "convey env ns ms \<longleftrightarrow>
     (\<forall>client. named (dc_devices client) \<longrightarrow> op_device_remove (dc_ops client) \<longrightarrow> accepts env ns (dc_devices client) \<longrightarrow>
       (\<exists>client'. client_messages (se_endian env) ms client = Inr client' \<and>
          dc_devices client' = fold mirror ns (dc_devices client) \<and> dc_ops client' = dc_ops client))"

lemma convey_Nil [simp]: "convey env [] []"
  by (simp add: convey_def)

lemma convey_one: "conveys env n m \<Longrightarrow> convey env [n] [m]"
  by (fastforce simp: convey_def conveys_def discover_client_process_def)

lemma convey_silent: "mirror n = id \<Longrightarrow> convey env [n] []"
  by (simp add: convey_def)

lemma client_messages_append:
  "client_messages e (ms @ ms') client = cbind (client_messages e ms client) (client_messages e ms')"
  by (induction ms arbitrary: client) (auto simp: cbind_def split: sum.split)

lemma accepts_append: "accepts env (ns @ ns') view \<longleftrightarrow> accepts env ns view \<and> accepts env ns' (fold mirror ns view)"
  by (induction ns arbitrary: view) simp_all

lemma named_accepts: "named view \<Longrightarrow> accepts env ns view \<Longrightarrow> named (fold mirror ns view)"
  by (induction ns arbitrary: view) (simp_all add: named_mirror)

lemma convey_append:
  assumes "convey env ns ms" "convey env ns' ms'"
  shows "convey env (ns @ ns') (ms @ ms')"
  unfolding convey_def
proof (intro allI impI)
  fix client :: discover_client
  assume c: "named (dc_devices client)" "op_device_remove (dc_ops client)" "accepts env (ns @ ns') (dc_devices client)"
  then obtain c1 where c1: "client_messages (se_endian env) ms client = Inr c1"
    "dc_devices c1 = fold mirror ns (dc_devices client)" "dc_ops c1 = dc_ops client"
    using assms(1) by (auto simp: convey_def accepts_append)
  moreover have "named (dc_devices c1)" using c1 c by (auto simp: accepts_append intro: named_accepts)
  ultimately show "\<exists>client'. client_messages (se_endian env) (ms @ ms') client = Inr client' \<and>
      dc_devices client' = fold mirror (ns @ ns') (dc_devices client) \<and> dc_ops client' = dc_ops client"
    using assms(2)[unfolded convey_def, rule_format, of c1] c by (simp add: client_messages_append accepts_append)
qed

lemma listens_status: "listens env c cl sv \<Longrightarrow> listens env c cl (sv\<lparr>sv_status := x\<rparr>)"
  unfolding listens_def by (auto intro: only_writes_ok[OF only_writes_status])

definition sends :: "server_env \<Rightarrow> notification \<Rightarrow> bool" where
  "sends env n \<longleftrightarrow>
     (\<exists>ms. convey env [n] ms \<and> (\<forall>c cl sv. listens env c cl sv \<longrightarrow>
        (\<exists>sv'. deliver env n sv = Inr sv' \<and> listens env c (cl\<lparr>cl_out := cl_out cl @ ms\<rparr>) sv')))"

lemma sends_broadcast:
  assumes "\<exists>m. conveys env n m \<and> (\<forall>c sv. f c sv = client_write_message env c m sv)"
    "\<And>sv. \<exists>st. deliver env n sv = to_clients f (sv\<lparr>sv_status := st\<rparr>)"
  shows "sends env n"
proof -
  from assms(1) obtain m where m: "conveys env n m" "\<And>c sv. f c sv = client_write_message env c m sv" by blast
  have "\<exists>sv'. deliver env n sv = Inr sv' \<and> listens env c (cl\<lparr>cl_out := cl_out cl @ [m]\<rparr>) sv'" if "listens env c cl sv" for c cl sv
    using assms(2)[of sv] to_clients_write[OF m(2) listens_status[OF that]] by auto
  then show ?thesis using convey_one[OF m(1)] unfolding sends_def by blast
qed

lemma same_status: "\<exists>st. to_clients f sv = send_all f (sv_clients sv) (sv\<lparr>sv_status := st\<rparr>)"
  for f and sv :: discover_server
  by (rule exI[of _ "sv_status sv"]) simp

lemma fits_sends:
  assumes "fits env n" "sized env"
  shows "sends env n"
proof (cases n)
  case (Notify_device_add d)
  show ?thesis unfolding Notify_device_add
    by (rule sends_broadcast[OF device_message]) (use assms Notify_device_add in
      \<open>auto simp: deliver_def discover_server_notify_device_add_def intro: same_status\<close>)
next
  case (Notify_device_remove d)
  show ?thesis unfolding Notify_device_remove
    by (rule sends_broadcast[OF remove_message]) (use assms Notify_device_remove in
      \<open>auto simp: deliver_def discover_server_notify_device_remove_def intro: same_status\<close>)
next
  case (Notify_boot_option_add opt)
  show ?thesis unfolding Notify_boot_option_add
    by (rule sends_broadcast[OF option_message]) (use assms Notify_boot_option_add in
      \<open>auto simp: deliver_def discover_server_notify_boot_option_add_def intro: same_status\<close>)
next
  case (Notify_plugin_option_add p)
  show ?thesis unfolding Notify_plugin_option_add
    by (rule sends_broadcast[OF other_messages(1)]) (use assms Notify_plugin_option_add in
      \<open>auto simp: deliver_def discover_server_notify_plugin_option_add_def intro: same_status\<close>)
next
  case Notify_plugins_remove
  show ?thesis unfolding Notify_plugins_remove
    by (rule sends_broadcast[OF other_messages(4)]) (use assms in
      \<open>auto simp: deliver_def discover_server_notify_plugins_remove_def intro: same_status\<close>)
next
  case (Notify_config cfg)
  show ?thesis unfolding Notify_config
    by (rule sends_broadcast[OF other_messages(2)]) (use assms Notify_config in
      \<open>auto simp: deliver_def discover_server_notify_config_def intro: same_status\<close>)
next
  case (Notify_status t msg)
  show ?thesis unfolding Notify_status
    by (rule sends_broadcast[OF other_messages(3)]) (use assms Notify_status in
      \<open>auto simp: deliver_def discover_server_notify_boot_status_def Let_def\<close>)
qed (auto simp: sends_def deliver_def mirror_def fun_eq_iff intro!: exI[of _ "[]"] convey_silent)

lemma deliver_all_conveys:
  assumes "sized env" "list_all (fits env) ns" "listens env c cl sv"
  shows "\<exists>ms sv'. convey env ns ms \<and> deliver_all env ns sv = Inr sv' \<and> listens env c (cl\<lparr>cl_out := cl_out cl @ ms\<rparr>) sv'"
  using assms(2,3)
proof (induction ns arbitrary: cl sv)
  case Nil
  then show ?case by (intro exI[of _ "[]"]) simp
next
  case (Cons n ns)
  then have "sends env n" using fits_sends assms(1) by simp
  then obtain ms sv1 where 1: "convey env [n] ms" "deliver env n sv = Inr sv1" "listens env c (cl\<lparr>cl_out := cl_out cl @ ms\<rparr>) sv1"
    using Cons.prems(2) unfolding sends_def by blast
  from Cons.IH[OF _ 1(3)] Cons.prems(1) obtain ms' sv' where 2: "convey env ns ms'" "deliver_all env ns sv1 = Inr sv'"
    "listens env c (cl\<lparr>cl_out := (cl_out cl @ ms) @ ms'\<rparr>) sv'" by auto
  have "convey env (n # ns) (ms @ ms')" using convey_append[OF 1(1) 2(1)] by simp
  with 1 2 show ?case by (intro exI[of _ "ms @ ms'"] exI[of _ sv']) simp
qed

lemma accepts_fits: "accepts env ns view \<Longrightarrow> list_all (fits env) ns"
  by (induction ns arbitrary: view) auto

text \<open>C9: A connected client follows the device handler: whatever sequence of devices, options and removals the handler reports, the
  client's list after the messages is the one that the reports describe, and neither side fails on the way.\<close>

theorem client_mirrors_handler:
  assumes "server_ok sv" "sv_client sv c = Some cl" "\<not> cl_remote_closed cl" "\<forall>m. se_write env c m"
    and "\<forall>n. length (se_mem env n) = unat n"
    and "named (dc_devices client)" "op_device_remove (dc_ops client)" "accepts env ns (dc_devices client)"
  shows "\<exists>sv' cl' ms client'. deliver_all env ns sv = Inr sv' \<and> sv_client sv' c = Some cl' \<and> cl_out cl' = cl_out cl @ ms \<and>
    client_messages (se_endian env) ms client = Inr client' \<and> dc_devices client' = fold mirror ns (dc_devices client)"
proof -
  have "listens env c cl sv" "sized env" using assms by (simp_all add: listens_def sized_def)
  from deliver_all_conveys[OF this(2) accepts_fits[OF assms(8)] this(1)] obtain ms sv' where
    "convey env ns ms" "deliver_all env ns sv = Inr sv'" "listens env c (cl\<lparr>cl_out := cl_out cl @ ms\<rparr>) sv'" by blast
  with assms(6-8) show ?thesis by (fastforce simp: convey_def listens_def)
qed

section \<open>A new client\<close>

text \<open>\<open>f\<close> writes to a client with given rights a message that conveys the notification.\<close>

definition writes :: "server_env \<Rightarrow> nat \<Rightarrow> bool \<Rightarrow> (discover_server \<Rightarrow> (int \<times> discover_server) s_m) \<Rightarrow> notification \<Rightarrow> bool" where
  "writes env c b f n \<longleftrightarrow>
     (\<exists>m. conveys env n m \<and>
        (\<forall>cl sv. sv_client sv c = Some cl \<longrightarrow> cl_can_modify cl = b \<longrightarrow> f sv = client_write_message env c m sv))"

definition wrote :: "server_env \<Rightarrow> nat \<Rightarrow> client \<Rightarrow> notification list \<Rightarrow> discover_server \<Rightarrow> discover_server \<Rightarrow> bool" where
  "wrote env c cl ns sv sv' \<longleftrightarrow>
     (\<exists>ms. convey env ns ms \<and> listens env c (cl\<lparr>cl_out := cl_out cl @ ms\<rparr>) sv') \<and>
     sv_status sv' = sv_status sv \<and> sv_handler sv' = sv_handler sv"

lemma wrote_trans:
  assumes "\<And>cl. listens env c cl sv1 \<Longrightarrow> cl_can_modify cl = cl_can_modify cl0 \<Longrightarrow> wrote env c cl ns' sv1 sv2"
    "wrote env c cl0 ns sv sv1"
  shows "wrote env c cl0 (ns @ ns') sv sv2"
proof -
  from assms(2) obtain ms where 1: "convey env ns ms" "listens env c (cl0\<lparr>cl_out := cl_out cl0 @ ms\<rparr>) sv1"
    "sv_status sv1 = sv_status sv" "sv_handler sv1 = sv_handler sv" by (auto simp: wrote_def)
  with assms(1)[OF 1(2)] obtain ms' where 2: "convey env ns' ms'"
    "listens env c (cl0\<lparr>cl_out := (cl_out cl0 @ ms) @ ms'\<rparr>) sv2" "sv_status sv2 = sv_status sv1" "sv_handler sv2 = sv_handler sv1"
    by (auto simp: wrote_def)
  show ?thesis using convey_append[OF 1(1) 2(1)] 1 2 by (auto simp: wrote_def)
qed

lemma writes_one:
  assumes "writes env c (cl_can_modify cl) f n" "listens env c cl sv"
  shows "\<exists>sv'. f sv = Inr (0, sv') \<and> wrote env c cl [n] sv sv'"
proof -
  from assms obtain m where m: "conveys env n m" "f sv = client_write_message env c m sv"
    by (auto simp: writes_def listens_def)
  let ?sv = "put_client c (cl\<lparr>cl_out := cl_out cl @ [m]\<rparr>) sv"
  have f: "f sv = Inr (0, ?sv)" using m(2) assms(2) by (simp add: client_write_message_def get_client_def listens_def)
  then have "only_writes sv ?sv" using m(2) yieldsD[OF client_write_only] by fastforce
  then have "listens env c (cl\<lparr>cl_out := cl_out cl @ [m]\<rparr>) ?sv"
    using assms(2) only_writes_ok by (auto simp: listens_def put_client_def)
  with f convey_one[OF m(1)] show ?thesis by (auto simp: wrote_def put_client_def)
qed

lemma wrote_Nil: "listens env c cl sv \<Longrightarrow> wrote env c cl [] sv sv"
  unfolding wrote_def by (intro conjI exI[of _ "[]"]) simp_all

lemma send_until_writes:
  assumes "list_all2 (writes env c b) fs ns" "cl_can_modify cl = b" "listens env c cl sv"
  shows "\<exists>sv'. send_until fs sv = Inr (True, sv') \<and> wrote env c cl ns sv sv'"
  using assms
proof (induction fs ns arbitrary: cl sv rule: list_all2_induct)
  case (Cons f fs n ns)
  from writes_one[OF _ Cons.prems(2), of f n] Cons(1) Cons.prems(1) obtain sv1 where 1: "f sv = Inr (0, sv1)" "wrote env c cl [n] sv sv1" by blast
  then obtain ms where "listens env c (cl\<lparr>cl_out := cl_out cl @ ms\<rparr>) sv1" by (auto simp: wrote_def)
  from Cons.IH[OF _ this] Cons.prems(1) obtain sv' where 2: "send_until fs sv1 = Inr (True, sv')" by auto
  have "wrote env c cl ([n] @ ns) sv sv'"
    by (rule wrote_trans[OF _ 1(2)]) (use Cons.IH[of _ sv1] Cons.prems(1) 2 in auto)
  with 1 2 show ?case by auto
qed (simp add: wrote_Nil)

lemma send_all_writes:
  assumes "\<And>x. x \<in> set xs \<Longrightarrow> writes env c (cl_can_modify cl) (f x) n" "listens env c cl sv"
  shows "\<exists>sv'. send_all f xs sv = Inr sv' \<and> wrote env c cl (map (\<lambda>_. n) xs) sv sv'"
  using assms
proof (induction xs arbitrary: cl sv)
  case (Cons x xs)
  from writes_one[OF Cons.prems(1) Cons.prems(2)] obtain sv1 where 1: "f x sv = Inr (0, sv1)" "wrote env c cl [n] sv sv1" by auto
  then obtain ms where "listens env c (cl\<lparr>cl_out := cl_out cl @ ms\<rparr>) sv1" by (auto simp: wrote_def)
  from Cons.IH[OF _ this] Cons.prems(1) obtain sv' where 2: "send_all f xs sv1 = Inr sv'" by auto
  have "wrote env c cl ([n] @ map (\<lambda>_. n) xs) sv sv'"
    by (rule wrote_trans[OF _ 1(2)]) (use Cons.IH[of _ sv1] Cons.prems(1) 2 in auto)
  with 1 2 show ?case by auto
qed (simp add: wrote_Nil)

text \<open>A handler whose devices and options can be sent: they are there, fit into messages, and have distinct names under which the options
  know them.\<close>

definition sendable :: "server_env \<Rightarrow> device_handler \<Rightarrow> nat \<Rightarrow> bool" where
  "sendable env h d \<longleftrightarrow>
     (case h_dev h d of
        None \<Rightarrow> False
      | Some dev \<Rightarrow>
          fits env (Notify_device_add (dd_device dev)) \<and> norm_str (dev_id (dd_device dev)) \<noteq> None \<and>
          list_all (\<lambda>r. case h_opt h r of
             None \<Rightarrow> False
           | Some opt \<Rightarrow>
               fits env (Notify_boot_option_add (dbo_option opt)) \<and> opt_device_id (dbo_option opt) = dev_id (dd_device dev))
            (dd_boot_options dev))"

abbreviation ident_of :: "device_handler \<Rightarrow> nat \<Rightarrow> cstr" where
  "ident_of h d \<equiv> dev_id (dd_device (the (h_dev h d)))"

definition presentable :: "server_env \<Rightarrow> device_handler \<Rightarrow> bool" where
  "presentable env h \<longleftrightarrow> list_all (sendable env h) (h_devices h) \<and> distinct (map (ident_of h) (h_devices h))"

text \<open>What a client should show.\<close>

definition device_view :: "device_handler \<Rightarrow> nat \<Rightarrow> client_device" where
  "device_view h d =
     (let dev = the (h_dev h d)
      in \<lparr>cd_device = norm_device (dd_device dev),
          cd_boot_options = rev (map (\<lambda>r. norm_boot_option (dbo_option (the (h_opt h r)))) (dd_boot_options dev))\<rparr>)"

definition device_notes :: "device_handler \<Rightarrow> nat \<Rightarrow> notification list" where
  "device_notes h d =
     (let dev = the (h_dev h d)
      in Notify_device_add (dd_device dev) #
         map (\<lambda>r. Notify_boot_option_add (dbo_option (the (h_opt h r)))) (dd_boot_options dev))"

lemma add_option_last:
  "list_all (\<lambda>d. dev_id (cd_device d) \<noteq> opt_device_id opt) view \<Longrightarrow> dev_id (cd_device d) = opt_device_id opt \<Longrightarrow>
   add_option opt (view @ [d]) = view @ [d\<lparr>cd_boot_options := opt # cd_boot_options d\<rparr>]"
  by (induction view) auto

lemma mirror_options:
  assumes "list_all (\<lambda>opt. fits env (Notify_boot_option_add opt) \<and> norm_str (opt_device_id opt) = dev_id (cd_device d)) opts"
    "list_all (\<lambda>x. dev_id (cd_device x) \<noteq> dev_id (cd_device d)) view" "dev_id (cd_device d) \<noteq> None"
  shows "accepts env (map Notify_boot_option_add opts) (view @ [d]) \<and>
    fold mirror (map Notify_boot_option_add opts) (view @ [d]) =
      view @ [d\<lparr>cd_boot_options := rev (map norm_boot_option opts) @ cd_boot_options d\<rparr>]"
  using assms
proof (induction opts arbitrary: d)
  case (Cons opt opts)
  have m: "mirror (Notify_boot_option_add opt) (view @ [d]) =
      view @ [d\<lparr>cd_boot_options := norm_boot_option opt # cd_boot_options d\<rparr>]"
    unfolding mirror_def using Cons.prems by (simp, intro add_option_last) (auto simp: norm_boot_option_def)
  show ?case using Cons.prems Cons.IH[of "d\<lparr>cd_boot_options := norm_boot_option opt # cd_boot_options d\<rparr>"]
    by (simp add: m takes_def)
qed simp

lemma norm_str_inj: "norm_str a = norm_str b \<Longrightarrow> norm_str a \<noteq> None \<Longrightarrow> a = b"
  by (auto simp: norm_str_def split: if_splits)

lemma sendable_view:
  assumes "sendable env h d" "list_all (\<lambda>x. dev_id (cd_device x) \<noteq> norm_str (ident_of h d)) view"
  shows "accepts env (device_notes h d) view \<and> fold mirror (device_notes h d) view = view @ [device_view h d]"
proof -
  from assms(1) obtain dev where dev: "h_dev h d = Some dev" "fits env (Notify_device_add (dd_device dev))"
    "norm_str (dev_id (dd_device dev)) \<noteq> None" by (auto simp: sendable_def split: option.splits)
  let ?opts = "map (\<lambda>r. dbo_option (the (h_opt h r))) (dd_boot_options dev)"
  let ?d = "\<lparr>cd_device = norm_device (dd_device dev), cd_boot_options = []\<rparr>"
  have "accepts env (map Notify_boot_option_add ?opts) (view @ [?d]) \<and> fold mirror (map Notify_boot_option_add ?opts) (view @ [?d]) =
      view @ [?d\<lparr>cd_boot_options := rev (map norm_boot_option ?opts) @ cd_boot_options ?d\<rparr>]"
    by (rule mirror_options) (use assms dev in \<open>auto simp: sendable_def list_all_iff norm_device_def split: option.splits\<close>)
  moreover have "mirror (Notify_device_add (dd_device dev)) view = view @ [?d]" by (simp add: mirror_def)
  ultimately show ?thesis using dev
    by (simp add: device_notes_def device_view_def takes_def o_def)
qed

lemma presentable_view:
  assumes "list_all (sendable env h) ds" "distinct (map (ident_of h) ds)"
  shows "accepts env (concat (map (device_notes h) ds)) [] \<and> fold mirror (concat (map (device_notes h) ds)) [] = map (device_view h) ds"
  using assms
proof (induction ds rule: rev_induct)
  case (snoc d ds)
  have "norm_str (ident_of h x) \<noteq> norm_str (ident_of h d)" if "x \<in> set ds" for x
  proof
    assume "norm_str (ident_of h x) = norm_str (ident_of h d)"
    moreover have "norm_str (ident_of h x) \<noteq> None"
      using snoc.prems(1) that by (fastforce simp: list_all_iff sendable_def split: option.splits)
    ultimately have "ident_of h x = ident_of h d" by (rule norm_str_inj)
    moreover have "ident_of h d \<notin> ident_of h ` set ds" using snoc.prems(2) by simp
    ultimately show False using that by (metis (no_types, lifting) imageI)
  qed
  then have "list_all (\<lambda>x. dev_id (cd_device x) \<noteq> norm_str (ident_of h d)) (map (device_view h) ds)"
    by (auto simp: list_all_iff device_view_def norm_device_def Let_def)
  from sendable_view[OF _ this, of env] snoc show ?case by (simp add: accepts_append)
qed simp

lemma wrote_send_all:
  assumes "wrote env c cl ns sv sv1" "\<And>x. x \<in> set xs \<Longrightarrow> writes env c (cl_can_modify cl) (f x) n"
  shows "\<exists>sv2. send_all f xs sv1 = Inr sv2 \<and> wrote env c cl (ns @ map (\<lambda>_. n) xs) sv sv2"
proof -
  from assms(1) obtain ms where "listens env c (cl\<lparr>cl_out := cl_out cl @ ms\<rparr>) sv1" by (auto simp: wrote_def)
  from send_all_writes[OF _ this, of xs f n] assms(2) obtain sv2 where 2: "send_all f xs sv1 = Inr sv2" by auto
  have "wrote env c cl (ns @ map (\<lambda>_. n) xs) sv sv2"
  proof (rule wrote_trans[OF _ assms(1)])
    fix cl' assume "listens env c cl' sv1" "cl_can_modify cl' = cl_can_modify cl"
    with send_all_writes[of xs env c cl' f n sv1] assms(2) 2 show "wrote env c cl' (map (\<lambda>_. n) xs) sv1 sv2" by auto
  qed
  with 2 show ?thesis by blast
qed

lemma silents: "fold mirror (map (\<lambda>_. silent) zs) v = v" "accepts env (map (\<lambda>_. silent) zs) v"
  by (induction zs) (auto simp: mirror_def fits_def takes_def)

lemma convey_silents:
  assumes "fold mirror ns [] = view" "accepts env ns []"
  shows "fold mirror (([silent, silent, silent] @ ns) @ map (\<lambda>_. silent) xs @ map (\<lambda>_. silent) ys) [] = view \<and>
    accepts env (([silent, silent, silent] @ ns) @ map (\<lambda>_. silent) xs @ map (\<lambda>_. silent) ys) []"
  using assms by (simp add: accepts_append mirror_def fits_def takes_def silents)

lemma writesI:
  "\<exists>m. conveys env n m \<and> (\<forall>c sv. f c sv = client_write_message env c m sv) \<Longrightarrow> writes env c b (f c) n"
  by (auto simp: writes_def)

lemma option_messages_write:
  assumes "sized env" "list_all (\<lambda>r. case h_opt h r of None \<Rightarrow> False | Some opt \<Rightarrow> fits env (Notify_boot_option_add (dbo_option opt))) rs"
  shows "\<exists>fs. option_messages env c h rs = Inr fs \<and>
    list_all2 (writes env c b) fs (map (\<lambda>r. Notify_boot_option_add (dbo_option (the (h_opt h r)))) rs)"
  using assms(2)
  by (induction rs) (auto simp: get_opt_def split: option.splits intro!: writesI option_message assms(1))

lemma device_messages_write:
  assumes "sized env" "list_all (sendable env h) ds"
  shows "\<exists>fs. device_messages env c h ds = Inr fs \<and> list_all2 (writes env c b) fs (concat (map (device_notes h) ds))"
  using assms(2)
proof (induction ds)
  case (Cons d ds)
  then obtain fs where fs: "device_messages env c h ds = Inr fs" "list_all2 (writes env c b) fs (concat (map (device_notes h) ds))" by auto
  from Cons.prems obtain dev where dev: "h_dev h d = Some dev" "fits env (Notify_device_add (dd_device dev))"
    "list_all (\<lambda>r. case h_opt h r of None \<Rightarrow> False | Some opt \<Rightarrow> fits env (Notify_boot_option_add (dbo_option opt))) (dd_boot_options dev)"
    by (auto simp: sendable_def list_all_iff split: option.splits)
  from option_messages_write[OF assms(1) dev(3)] obtain gs where
    "option_messages env c h (dd_boot_options dev) = Inr gs"
    "list_all2 (writes env c b) gs (map (\<lambda>r. Notify_boot_option_add (dbo_option (the (h_opt h r)))) (dd_boot_options dev))" by blast
  moreover have "writes env c b (write_device_add_message env (dd_device dev) c) (Notify_device_add (dd_device dev))"
    by (intro writesI device_message dev assms)
  ultimately show ?case using fs dev by (auto simp: get_dev_def device_notes_def[of h d] intro: list_all2_appendI)
qed simp

text \<open>The other messages of a connection leave the list of devices as it is.\<close>

lemma authenticate_message:
  assumes "sized env"
  shows "writes env c b (write_authenticate_message env c) silent"
proof -
  let ?a = "AUTH_MSG_RESPONSE b"
  have "\<exists>m. msg_action m = 0x10 \<and> pb_protocol_deserialise_authenticate (se_endian env) m = Inr (norm_auth ?a) \<and>
      (\<forall>c sv. write_serialised env c 0x10 (pb_protocol_authenticate_len ?a)
         (pb_protocol_serialise_authenticate (se_endian env) ?a (pb_protocol_authenticate_len ?a)) sv = client_write_message env c m sv)"
    by (intro write_serialised_parses authenticate_roundtrip[where enc = "the (authenticate_bytes (se_endian env) ?a)"])
      (use assms in \<open>auto simp: sized_def authenticate_bytes_def pb_protocol_authenticate_len_def PB_PROTOCOL_MAX_PAYLOAD_SIZE_def
         ser_bool_def\<close>)
  then show ?thesis unfolding writes_def
    by (rule ex_forward) (simp add: conveys_def client_message_simps write_authenticate_message_def get_client_def Let_def)
qed

lemma system_info_message:
  assumes "sized env" "wf_system_info info" "length (system_info_bytes info) \<le> PB_PROTOCOL_MAX_PAYLOAD_SIZE"
  shows "writes env c b (write_system_info_message env info c) silent"
proof (rule writesI)
  have "\<exists>m. msg_action m = 0x8 \<and> pb_protocol_deserialise_system_info zero_system_info m = Inr (norm_system_info zero_system_info info) \<and>
      (\<forall>c sv. write_system_info_message env info c sv = client_write_message env c m sv)"
    unfolding write_system_info_message_def Let_def
    by (intro write_serialised_parses system_info_roundtrip) (use assms in \<open>auto simp: sized_def\<close>)
  then show "\<exists>m. conveys env silent m \<and> (\<forall>c sv. write_system_info_message env info c sv = client_write_message env c m sv)"
    by (rule ex_forward) (simp add: conveys_def client_message_simps)
qed

lemma writes_silent:
  assumes "writes env c b f n" "mirror n = id" "\<And>view. takes n view"
  shows "writes env c b f silent"
proof -
  have "conveys env silent m" if "conveys env n m" for m using that assms(2,3) by (simp add: conveys_def mirror_def takes_def)
  then show ?thesis using assms(1) by (auto simp: writes_def)
qed

text \<open>What else is sent to a new client fits into messages.\<close>

definition greeting_fits :: "server_env \<Rightarrow> discover_server \<Rightarrow> bool" where
  "greeting_fits env sv \<longleftrightarrow>
     wf_system_info (se_sysinfo env) \<and> length (system_info_bytes (se_sysinfo env)) \<le> PB_PROTOCOL_MAX_PAYLOAD_SIZE \<and>
     fits env (Notify_config (ps_config (sv_platform sv))) \<and> list_all fits_status (sv_status sv) \<and>
     list_all (\<lambda>p. fits env (Notify_plugin_option_add p)) (h_plugins (sv_handler sv))"

lemma greeting_writes:
  assumes "sized env" "greeting_fits env sv" "list_all (sendable env (sv_handler sv)) (h_devices (sv_handler sv))"
  shows "\<exists>fs. device_messages env c (sv_handler sv) (h_devices (sv_handler sv)) = Inr fs \<and>
    list_all2 (writes env c b)
      ([write_authenticate_message env c, write_system_info_message env (se_sysinfo env) c,
        write_config_message env (ps_config (sv_platform sv)) c] @ fs)
      ([silent, silent, silent] @ concat (map (device_notes (sv_handler sv)) (h_devices (sv_handler sv))))"
proof -
  have "writes env c b (write_config_message env (ps_config (sv_platform sv)) c) (Notify_config (ps_config (sv_platform sv)))"
    by (intro writesI other_messages(2)) (use assms in \<open>auto simp: greeting_fits_def\<close>)
  then have "writes env c b (write_config_message env (ps_config (sv_platform sv)) c) silent"
    by (rule writes_silent) (auto simp: mirror_def takes_def)
  with device_messages_write[OF assms(1,3), of c b] assms show ?thesis
    by (auto simp: greeting_fits_def authenticate_message system_info_message)
qed


section \<open>Requests of a client\<close>

text \<open>C11: A boot request arrives: the message that the client library writes for a boot is one for which the server boots exactly the
  command that the client put together, with the rights the client has.\<close>

theorem boot_request_served:
  assumes "command = create_boot_command cenv opt data" "wf_boot_command command"
    "length (boot_command_bytes command) \<le> PB_PROTOCOL_MAX_PAYLOAD_SIZE"
    and "\<forall>n. length (ce_mem cenv n) = unat n" "\<forall>m. ce_write cenv m" "sv_client sv c = Some cl"
  shows "\<exists>m. discover_client_boot cenv opt data client = Inr (0, client\<lparr>dc_out := dc_out client @ [m]\<rparr>) \<and>
    discover_server_process_message env c (Some m) sv =
      sbind (run_handler env (handler_only (device_handler_boot (se_boot env) (cl_can_modify cl) (norm_boot_command command))) sv)
        (\<lambda>sv. Inr (0, sv))"
proof -
  let ?len = "pb_protocol_boot_len command"
  from boot_command_roundtrip[OF assms(2,3), of "ce_mem cenv ?len" "0x5" "se_command_mem env"] assms(4) obtain m bs where
    m: "pb_protocol_create_message 0x5 ?len (ce_mem cenv ?len) = Inr (Some m)" "pb_protocol_serialise_boot_command command ?len = Inr bs"
    "pb_protocol_deserialise_boot_command (se_command_mem env) (store_payload bs m) = Inr (norm_boot_command command)" by auto
  have a: "msg_action (store_payload bs m) = 0x5"
    using m(1) by (auto simp: pb_protocol_create_message_def store_payload_def split: if_splits)
  have "discover_client_boot cenv opt data client = Inr (0, client\<lparr>dc_out := dc_out client @ [store_payload bs m]\<rparr>)"
    using assms(1,5) m by (simp add: discover_client_boot_def client_send_def)
  moreover have "discover_server_process_message env c (Some (store_payload bs m)) sv = boot_message env (cl_can_modify cl) (store_payload bs m) sv"
    using assms(6) a by (simp add: discover_server_process_message_def get_client_def process_privileged_def process_unprivileged_def Let_def)
  ultimately show ?thesis using m(3) by (auto simp: boot_message_def parsed_def)
qed

section \<open>A device that stays\<close>

text \<open>The operation reported nothing but status messages.\<close>

definition only_status :: "device_handler \<Rightarrow> device_handler \<Rightarrow> bool" where
  "only_status h h' \<longleftrightarrow> (\<exists>sts. h_out h' = h_out h @ map (\<lambda>(t, msg). Notify_status t msg) sts)"

lemma only_status_refl [simp]: "h_out h' = h_out h \<Longrightarrow> only_status h h'"
  unfolding only_status_def by (rule exI[of _ "[]"]) simp

lemma only_status_trans: "only_status a b \<Longrightarrow> only_status b c \<Longrightarrow> only_status a c"
  unfolding only_status_def by (metis append.assoc map_append)

lemma only_status_msg [simp]: "only_status h (device_handler_status t msg h)"
  unfolding only_status_def device_handler_status_def notify_def by (rule exI[of _ "[(t, msg)]"]) simp

definition quiet :: "device_handler \<Rightarrow> device_handler h_m \<Rightarrow> bool" where
  "quiet h m \<longleftrightarrow> (\<forall>h'. m = Inr h' \<longrightarrow> only_status h h')"

lemma quiet_Inr [simp]: "quiet h (Inr h') = only_status h h'"
  by (simp add: quiet_def)

lemma quiet_bind: "quiet h m \<Longrightarrow> (\<And>h1. only_status h h1 \<Longrightarrow> quiet h (k h1)) \<Longrightarrow> quiet h (hbind m k)"
  by (cases m) (simp_all add: quiet_def hbind_def)

lemma quiet_read: "(\<And>x. quiet h (k x)) \<Longrightarrow> quiet h (hbind m k)"
  by (cases m) (simp_all add: quiet_def hbind_def)

lemma quiet_trans: "only_status h h1 \<Longrightarrow> quiet h1 m \<Longrightarrow> quiet h m"
  unfolding quiet_def using only_status_trans by blast

lemma quiet_out: "(\<And>h'. m = Inr h' \<Longrightarrow> h_out h' = h_out h) \<Longrightarrow> quiet h m"
  by (simp add: quiet_def)

lemma quiet_waiter_remove: "quiet h (waiter_remove w h)"
  by (rule quiet_out) (auto simp: waiter_remove_def split: if_splits)

lemma quiet_cancel_boot: "quiet h (cancel_boot t h)"
proof -
  have "map (\<lambda>st. Notify_status (fst st) (From_boot (snd st))) out =
      map (\<lambda>(t, msg). Notify_status t msg) (map (\<lambda>st. (fst st, From_boot (snd st))) out)" for out by simp
  then show ?thesis unfolding quiet_def only_status_def cancel_boot_def
    by (auto simp: status_cb_eq simp del: map_map split: option.splits sum.splits)
qed

lemma quiet_free_unresolved: "quiet h (free_unresolved d rs h)"
proof (induction rs arbitrary: h)
  case (Cons r rs)
  have "quiet h (free_unresolved d rs (free_opt r (h\<lparr>h_unresolved := remove1 r (h_unresolved h)\<rparr>)))"
    by (rule quiet_trans[OF _ Cons]) (simp add: free_opt_def)
  with Cons show ?case by (auto intro!: quiet_read)
qed simp

lemma quiet_destroy_device: "quiet h (destroy_device d h)"
  by (rule quiet_out) (auto simp: destroy_device_def devmapper_destroy_snapshot_def device_handler_release_ramdisk_def hbind_def put_dev_def
      put_rd_def split: sum.splits option.splits if_splits)

lemma quiet_network_unregister: "quiet h (network_unregister_device d h)"
  by (rule quiet_out) (auto simp: network_unregister_device_def hbind_def split: sum.splits option.splits)

lemma only_status_upd:
  "only_status h h1 \<Longrightarrow> h_out h2 = h_out h1 \<Longrightarrow> only_status h h2"
  by (simp add: only_status_def)

lemma quiet_cancel_default: "quiet h (device_handler_cancel_default h)"
proof -
  have w: "quiet h (case h_timeout_waiter h of None \<Rightarrow> Inr h | Some w \<Rightarrow> waiter_remove w h)"
    by (simp add: quiet_waiter_remove split: option.split)
  have c: "quiet h1 (hbind (cancel_boot t h1) (\<lambda>h. Inr (h\<lparr>h_pending := None, h_pending_is_default := False\<rparr>)))" for h1 t
    by (rule quiet_bind[OF quiet_cancel_boot]) (auto elim: only_status_upd)
  have s: "only_status h1 (device_handler_status STATUS_INFO Default_cancelled (h2\<lparr>h_default := None\<rparr>))" if "only_status h1 h2" for h1 h2
    by (rule only_status_trans[OF only_status_upd[OF that] only_status_msg]) simp
  show ?thesis unfolding device_handler_cancel_default_def Let_def
  proof (rule quiet_bind[OF w])
    fix h1 assume h1: "only_status h h1"
    let ?h = "h1\<lparr>h_timeout_waiter := None, h_autoboot_enabled := False\<rparr>"
    have o: "only_status h ?h" using h1 by (rule only_status_upd) simp
    show "quiet h (if h_default ?h = None then Inr ?h else hbind (case h_pending ?h of
        Some t \<Rightarrow> if h_pending_is_default ?h
          then hbind (cancel_boot t ?h) (\<lambda>h. Inr (h\<lparr>h_pending := None, h_pending_is_default := False\<rparr>)) else Inr ?h
      | None \<Rightarrow> Inr ?h) (\<lambda>h. Inr (device_handler_status STATUS_INFO Default_cancelled (h\<lparr>h_default := None\<rparr>))))"
      by (rule quiet_trans[OF o]) (auto intro!: quiet_bind s c split: option.split simp del: select_convs)
  qed
qed

lemma remove_unnotified:
  assumes "h_dev h d = Some dev" "\<not> dd_notified dev"
  shows "quiet h (device_handler_remove d h)"
proof -
  have w: "quiet h (case dd_requery_waiter dev of None \<Rightarrow> Inr h | Some w \<Rightarrow> waiter_remove w h)"
    by (simp add: quiet_waiter_remove split: option.split)
  have r: "quiet h (hbind (free_unresolved d (h_unresolved h2) h2) (\<lambda>h3.
      hbind (if dev_type (dd_device dev) = DEVICE_TYPE_NETWORK then network_unregister_device d h3 else Inr h3) (\<lambda>h4.
      destroy_device d (h4\<lparr>h_devices := remove1 d (h_devices h4)\<rparr>))))" if "only_status h h2" for h2
  proof (rule quiet_bind[OF quiet_trans[OF that quiet_free_unresolved]])
    fix h3 assume h3: "only_status h h3"
    show "quiet h (hbind (if dev_type (dd_device dev) = DEVICE_TYPE_NETWORK then network_unregister_device d h3 else Inr h3) (\<lambda>h4.
        destroy_device d (h4\<lparr>h_devices := remove1 d (h_devices h4)\<rparr>)))"
      by (rule quiet_bind) (auto intro: quiet_trans[OF h3 quiet_network_unregister] h3 quiet_trans[OF only_status_upd quiet_destroy_device])
  qed
  have c: "quiet h (if isdef then device_handler_cancel_default h1 else Inr h1)" if "only_status h h1" for h1 isdef
    using that by (auto intro: quiet_trans[OF that quiet_cancel_default])
  have e: "quiet h (if d \<notin> set (h_devices h2) then destroy_device d h2
     else hbind (free_unresolved d (h_unresolved h2) h2) (\<lambda>h3.
      hbind (if dev_type (dd_device dev) = DEVICE_TYPE_NETWORK then network_unregister_device d h3 else Inr h3) (\<lambda>h4.
      destroy_device d (h4\<lparr>h_devices := remove1 d (h_devices h4)\<rparr>))))" if "only_status h h2" for h2
    using that r by (auto intro: quiet_trans[OF that quiet_destroy_device])
  have "device_handler_remove d h =
     hbind (case dd_requery_waiter dev of None \<Rightarrow> Inr h | Some w \<Rightarrow> waiter_remove w h) (\<lambda>h1.
     hbind (has_default h1 (dd_boot_options dev)) (\<lambda>isdef.
     hbind (if isdef then device_handler_cancel_default h1 else Inr h1) (\<lambda>h2.
     if d \<notin> set (h_devices h2) then destroy_device d h2
     else hbind (free_unresolved d (h_unresolved h2) h2) (\<lambda>h3.
      hbind (if dev_type (dd_device dev) = DEVICE_TYPE_NETWORK then network_unregister_device d h3 else Inr h3) (\<lambda>h4.
      destroy_device d (h4\<lparr>h_devices := remove1 d (h_devices h4)\<rparr>))))))"
    using assms unfolding device_handler_remove_def Let_def by (simp add: get_dev_def hbind_def[of "Inr _"] cong: if_cong)
  then show ?thesis using quiet_bind[OF w quiet_read[OF quiet_bind[OF c e]]] by simp
qed

text \<open>A device that is in the list of the handler but was not announced yet is sent to a client that connects, and its removal is not:
  whatever the client's list was, the removal of such a device leaves it as it is.\<close>

theorem unannounced_device_stays:
  assumes "server_ok sv" "sv_client sv c = Some cl" "\<not> cl_remote_closed cl" "\<forall>m. se_write env c m"
    and "\<forall>n. length (se_mem env n) = unat n"
    and "named (dc_devices client)" "op_device_remove (dc_ops client)"
    and "h_dev (sv_handler sv) d = Some dev" "\<not> dd_notified dev" "h_out (sv_handler sv) = []"
    and "device_handler_remove d (sv_handler sv) = Inr h" "list_all (fits env) (h_out h)"
  shows "\<exists>sv' cl' ms client'. run_handler env (handler_only (device_handler_remove d)) sv = Inr sv' \<and>
    sv_client sv' c = Some cl' \<and> cl_out cl' = cl_out cl @ ms \<and>
    client_messages (se_endian env) ms client = Inr client' \<and> dc_devices client' = dc_devices client"
proof -
  from remove_unnotified[OF assms(8,9)] assms(10,11) obtain sts where sts: "h_out h = map (\<lambda>(t, msg). Notify_status t msg) sts"
    by (auto simp: quiet_def only_status_def)
  have v: "fold mirror (map (\<lambda>(t, msg). Notify_status t msg) sts) v = v" for v
    by (induction sts) (auto simp: mirror_def)
  have a: "accepts env (map (\<lambda>(t, msg). Notify_status t msg) sts) v" if "list_all (fits env) (map (\<lambda>(t, msg). Notify_status t msg) sts)" for v
    using that by (induction sts) (auto simp: takes_def mirror_def)
  let ?sv = "sv\<lparr>sv_handler := h\<lparr>h_out := []\<rparr>, sv_platform := sv_platform sv\<rparr>"
  have "listens env c cl ?sv" "sized env" using assms by (simp_all add: listens_def sized_def)
  from deliver_all_conveys[OF this(2) assms(12) this(1)] obtain ms sv' where
    "convey env (h_out h) ms" "deliver_all env (h_out h) ?sv = Inr sv'" "listens env c (cl\<lparr>cl_out := cl_out cl @ ms\<rparr>) sv'" by blast
  moreover from this(2) have "run_handler env (handler_only (device_handler_remove d)) sv = Inr sv'"
    using assms(11) by (simp add: run_handler_def handler_only_def)
  ultimately show ?thesis using assms(6,7,12) sts v a by (fastforce simp: convey_def listens_def)
qed

section \<open>A run of server and client\<close>

definition open_env :: server_env where
  "open_env = sample_server_env\<lparr>se_write := \<lambda>_ _. True\<rparr>"

definition seen_handler :: device_handler where
  "seen_handler = (device_handler_init False sample_config [])\<lparr>
     h_dev := [0 \<mapsto> (discover_device_new (Some ''1-2'') ''sda1'')\<lparr>dd_device := sample_device, dd_boot_options := [1]\<rparr>],
     h_opt := [1 \<mapsto> sample_boot_opt\<lparr>dbo_option := sample_boot_option\<rparr>], h_devices := [0]\<rparr>"

definition seen_server :: discover_server where
  "seen_server = discover_server_init True seen_handler \<lparr>ps_platform = None, ps_config = sample_config\<rparr> []"

definition open_client :: client where
  "open_client = \<lparr>cl_io = True, cl_remote_closed = False, cl_can_modify = True, cl_auth_waiter = None, cl_root = True, cl_out = []\<rparr>"

definition joined_server :: discover_server where
  "joined_server = seen_server\<lparr>sv_client := [0 \<mapsto> open_client], sv_clients := [0], sv_next := 1\<rparr>"

definition all_ops :: discover_client_ops where
  "all_ops = \<lparr>op_device_add = True, op_boot_option_add = True, op_device_remove = True, op_plugin_option_add = True,
     op_plugins_remove = True, op_update_status = True, op_update_sysinfo = True, op_update_config = True\<rparr>"

lemma open_env_simps [simp]:
  "se_write open_env c m" "length (se_mem open_env n) = unat n" "se_endian open_env = Little_Endian"
  by (simp_all add: open_env_def sample_server_env_def)

lemma joined_ok [simp]: "server_ok joined_server" "server_ok seen_server"
proof -
  show "server_ok seen_server" unfolding seen_server_def by (rule server_ok_init)
  from server_ok_connect[OF this, of open_client] show "server_ok joined_server"
    by (simp add: joined_server_def seen_server_def discover_server_init_def open_client_def)
qed

lemma sample_notes_fit [simp]:
  "fits open_env (Notify_device_add sample_device)" "fits open_env (Notify_boot_option_add sample_boot_option)"
  "fits open_env (Notify_config sample_config)"
  using sample_wf sample_fits by (simp_all add: fits_def)

lemma norm_sample [simp]:
  "norm_str (dev_id sample_device) = Some ''sda1''" "norm_str (opt_device_id sample_boot_option) = Some ''sda1''"
  by (simp_all add: sample_device_def sample_boot_option_def norm_str_def)

lemma joined_simps [simp]:
  "sv_client joined_server 0 = Some open_client" "\<not> cl_remote_closed open_client" "cl_out open_client = []" "cl_can_modify open_client"
  "dc_devices (discover_client_init crypt ops) = []" "dc_ops (discover_client_init crypt ops) = ops"
  "dc_out (discover_client_init crypt ops) = []" "op_device_remove all_ops" "named []"
  by (simp_all add: joined_server_def open_client_def discover_client_init_def all_ops_def named_def)

theorem client_mirrors_handler_witness:
  "\<exists>sv' cl' ms client'.
    deliver_all open_env [Notify_device_add sample_device, Notify_boot_option_add sample_boot_option] joined_server = Inr sv' \<and>
    sv_client sv' 0 = Some cl' \<and> cl_out cl' = ms \<and>
    client_messages Little_Endian ms (discover_client_init False all_ops) = Inr client' \<and>
    dc_devices client' = [\<lparr>cd_device = norm_device sample_device, cd_boot_options = [norm_boot_option sample_boot_option]\<rparr>]"
proof -
  let ?ns = "[Notify_device_add sample_device, Notify_boot_option_add sample_boot_option]"
  let ?client = "discover_client_init False all_ops"
  have "fold mirror ?ns [] = [\<lparr>cd_device = norm_device sample_device, cd_boot_options = [norm_boot_option sample_boot_option]\<rparr>]"
    by (simp add: mirror_def norm_device_def norm_boot_option_def)
  moreover have "accepts open_env ?ns []" by (simp add: takes_def mirror_def norm_device_def)
  ultimately show ?thesis using client_mirrors_handler[of joined_server 0 open_client open_env ?client ?ns] by simp
qed


definition sample_client_env :: client_env where
  "sample_client_env = \<lparr>ce_endian = Little_Endian, ce_mem = (\<lambda>n. replicate (unat n) NUL), ce_write = (\<lambda>_. True), ce_ttyname = None\<rparr>"

definition sample_data :: pb_boot_data where
  "sample_data = \<lparr>bd_image = Some ''/vmlinux'', bd_initrd = None, bd_dtb = None, bd_args = Some ''quiet'', bd_args_sig_file = None\<rparr>"

lemma sample_client: "length (ce_mem sample_client_env n) = unat n" "ce_write sample_client_env m"
  by (simp_all add: sample_client_env_def)

theorem boot_request_served_witness:
  "\<exists>m. discover_client_boot sample_client_env (Some sample_boot_option) sample_data (discover_client_init False all_ops) =
      Inr (0, (discover_client_init False all_ops)\<lparr>dc_out := [m]\<rparr>) \<and>
    discover_server_process_message open_env 0 (Some m) joined_server =
      sbind (run_handler open_env (handler_only (device_handler_boot (se_boot open_env) True
        (norm_boot_command (create_boot_command sample_client_env (Some sample_boot_option) sample_data)))) joined_server)
        (\<lambda>sv. Inr (0, sv))"
proof -
  let ?cmd = "create_boot_command sample_client_env (Some sample_boot_option) sample_data"
  have "wf_boot_command ?cmd" "length (boot_command_bytes ?cmd) \<le> PB_PROTOCOL_MAX_PAYLOAD_SIZE"
    by (simp_all add: wf_simps bytes_simps create_boot_command_def sample_client_env_def sample_data_def sample_boot_option_def)
  moreover have "sv_client joined_server 0 = Some open_client" by (simp add: joined_server_def)
  ultimately show ?thesis
    using boot_request_served[OF refl, of sample_client_env "Some sample_boot_option" sample_data joined_server 0 open_client
      "discover_client_init False all_ops" open_env]
    by (simp add: sample_client)
qed

theorem unannounced_device_stays_witness:
  "\<exists>sv' cl' ms client'. run_handler open_env (handler_only (device_handler_remove 0)) joined_server = Inr sv' \<and>
    sv_client sv' 0 = Some cl' \<and> cl_out cl' = ms \<and>
    client_messages Little_Endian ms ((discover_client_init False all_ops)\<lparr>dc_devices := [device_view seen_handler 0]\<rparr>) = Inr client' \<and>
    dc_devices client' = [device_view seen_handler 0]"
proof -
  let ?client = "(discover_client_init False all_ops)\<lparr>dc_devices := [device_view seen_handler 0]\<rparr>"
  let ?dev = "(discover_device_new (Some ''1-2'') ''sda1'')\<lparr>dd_device := sample_device, dd_boot_options := [1]\<rparr>"
  have h: "sv_handler joined_server = seen_handler" "sv_client joined_server 0 = Some open_client"
    by (simp_all add: joined_server_def seen_server_def discover_server_init_def)
  have d: "h_dev seen_handler 0 = Some ?dev" "\<not> dd_notified ?dev" "h_out seen_handler = []"
    by (simp_all add: seen_handler_def device_handler_init_def discover_device_new_def)
  have v: "named [device_view seen_handler 0]" by (simp add: named_def device_view_def seen_handler_def norm_device_def)
  obtain h where r: "device_handler_remove 0 seen_handler = Inr h" "h_out h = []"
    by (simp add: device_handler_remove_def seen_handler_def device_handler_init_def discover_device_new_def get_dev_def
        get_opt_def hbind_def destroy_device_def devmapper_destroy_snapshot_def sample_device_def Let_def)
  show ?thesis
    using unannounced_device_stays[of joined_server 0 open_client open_env ?client 0 ?dev h] h d r
    by (simp add: v)
qed

end
