(* ===== verification/Sysinfo.thy ===== *)
theory Sysinfo
  imports Types Url Platform_Config
begin

text \<open>
  What the server knows about the machine, \<^verbatim>\<open>discover/sysinfo.c\<close>: the interfaces and the block devices are registered by the
  network and the device code, and the clients are told of every change.  The operations return the new information and whether the clients
  were told.
\<close>

section \<open>Operations\<close>

definition same_hwaddr :: "u8 list \<Rightarrow> interface_info \<Rightarrow> bool" where
  "same_hwaddr hwaddr i \<longleftrightarrow> ifi_hwaddr i = hwaddr"

text \<open>The new address is compared with the subnet that was cut off of the old one.\<close>

fun set_address :: "(bool \<Rightarrow> string \<Rightarrow> bool) \<Rightarrow> u8 list \<Rightarrow> string \<Rightarrow> interface_info list \<Rightarrow> interface_info list \<times> bool" where
  "set_address pton hwaddr address [] = ([], False)"
| "set_address pton hwaddr address (i # is) =
     (let new_addr = (case strchr address CHR ''/'' of Some n \<Rightarrow> take n address | None \<Rightarrow> address);
          v4 = (addr_scheme pton new_addr = AF_INET);
          old = (if v4 then ifi_address i else ifi_address_v6 i)
      in if same_hwaddr hwaddr i \<and> old \<noteq> Some address
         then ((if v4 then i\<lparr>ifi_address := Some new_addr\<rparr> else i\<lparr>ifi_address_v6 := Some new_addr\<rparr>) # is, True)
         else (let (js, told) = set_address pton hwaddr address is in (i # js, told)))"

definition system_info_set_interface_address ::
    "(bool \<Rightarrow> string \<Rightarrow> bool) \<Rightarrow> u8 list \<Rightarrow> string \<Rightarrow> system_info \<Rightarrow> system_info \<times> bool" where
  "system_info_set_interface_address pton hwaddr address sysinfo =
     (let (is, told) = set_address pton hwaddr address (si_interfaces sysinfo) in (sysinfo\<lparr>si_interfaces := is\<rparr>, told))"

fun register_interface :: "u8 list \<Rightarrow> string \<Rightarrow> bool \<Rightarrow> interface_info list \<Rightarrow> interface_info list \<times> bool" where
  "register_interface hwaddr name link [] =
     ([\<lparr>ifi_hwaddr = hwaddr, ifi_name = Some name, ifi_link = link, ifi_address = None, ifi_address_v6 = None\<rparr>], True)"
| "register_interface hwaddr name link (i # is) =
     (if same_hwaddr hwaddr i
      then (i\<lparr>ifi_name := Some name, ifi_link := link\<rparr> # is, ifi_name i \<noteq> Some name \<or> ifi_link i \<noteq> link)
      else (let (js, told) = register_interface hwaddr name link is in (i # js, told)))"

definition system_info_register_interface :: "u8 list \<Rightarrow> string \<Rightarrow> bool \<Rightarrow> system_info \<Rightarrow> system_info \<times> bool" where
  "system_info_register_interface hwaddr name link sysinfo =
     (let (is, told) = register_interface hwaddr name link (si_interfaces sysinfo) in (sysinfo\<lparr>si_interfaces := is\<rparr>, told))"

fun register_blockdev :: "string \<Rightarrow> cstr \<Rightarrow> cstr \<Rightarrow> blockdev_info list \<Rightarrow> blockdev_info list" where
  "register_blockdev name uuid mountpoint [] = [\<lparr>bd_name = Some name, bd_uuid = uuid, bd_mountpoint = mountpoint\<rparr>]"
| "register_blockdev name uuid mountpoint (b # bs) =
     (if bd_name b = Some name then b\<lparr>bd_uuid := uuid, bd_mountpoint := mountpoint\<rparr> # bs
      else b # register_blockdev name uuid mountpoint bs)"

text \<open>Here the clients are always told.\<close>

definition system_info_register_blockdev :: "string \<Rightarrow> cstr \<Rightarrow> cstr \<Rightarrow> system_info \<Rightarrow> system_info" where
  "system_info_register_blockdev name uuid mountpoint sysinfo =
     sysinfo\<lparr>si_blockdevs := register_blockdev name uuid mountpoint (si_blockdevs sysinfo)\<rparr>"

definition system_info_init :: "platform_state \<Rightarrow> system_info" where
  "system_info_init ps =
     snd (platform_get_sysinfo ps
       \<lparr>si_type = None, si_identifier = None, si_platform_primary = [], si_platform_other = [], si_bmc_current = [], si_bmc_golden = [],
        si_interfaces = [], si_blockdevs = [], si_bmc_mac = None, si_stb_fw_measurement = False, si_stb_fw_enforcing = False,
        si_stb_os_enforcing = False\<rparr>)"

definition system_info_reinit :: "system_info \<Rightarrow> system_info" where
  "system_info_reinit sysinfo = sysinfo\<lparr>si_blockdevs := [], si_interfaces := []\<rparr>"

section \<open>The registries\<close>

text \<open>One entry for each hardware address and for each name of a block device.\<close>

definition sysinfo_ok :: "system_info \<Rightarrow> bool" where
  "sysinfo_ok s \<longleftrightarrow> distinct (map ifi_hwaddr (si_interfaces s)) \<and> distinct (map bd_name (si_blockdevs s))"

abbreviation interface_of :: "system_info \<Rightarrow> u8 list \<Rightarrow> interface_info option" where
  "interface_of s hwaddr \<equiv> find (same_hwaddr hwaddr) (si_interfaces s)"

lemma register_interface_hwaddrs:
  "map ifi_hwaddr (fst (register_interface hwaddr name link is)) =
     (if hwaddr \<in> ifi_hwaddr ` set is then map ifi_hwaddr is else map ifi_hwaddr is @ [hwaddr])"
  by (induction "is") (auto simp: same_hwaddr_def Let_def split: prod.splits)

lemma register_interface_find:
  "find (same_hwaddr a) (fst (register_interface hwaddr name link is)) =
     (if a = hwaddr then Some (case find (same_hwaddr hwaddr) is of
        Some i \<Rightarrow> i\<lparr>ifi_name := Some name, ifi_link := link\<rparr>
      | None \<Rightarrow> \<lparr>ifi_hwaddr = hwaddr, ifi_name = Some name, ifi_link = link, ifi_address = None, ifi_address_v6 = None\<rparr>)
      else find (same_hwaddr a) is)"
  by (induction "is") (auto simp: same_hwaddr_def[abs_def] split: prod.splits)

lemma register_interface_told:
  "snd (register_interface hwaddr name link is) \<longleftrightarrow> fst (register_interface hwaddr name link is) \<noteq> is"
proof (induction "is")
  case (Cons i "is")
  then show ?case by (cases i) (auto simp: same_hwaddr_def split: prod.splits)
qed simp

lemma set_address_hwaddrs: "map ifi_hwaddr (fst (set_address pton hwaddr address is)) = map ifi_hwaddr is"
  by (induction "is") (auto simp: Let_def split: prod.splits)

lemma register_blockdev_names:
  "map bd_name (register_blockdev name uuid mountpoint bs) =
     (if Some name \<in> bd_name ` set bs then map bd_name bs else map bd_name bs @ [Some name])"
  by (induction bs) auto

lemma sysinfo_ok_ops:
  assumes "sysinfo_ok s"
  shows "sysinfo_ok (fst (system_info_register_interface hwaddr name link s))"
    "sysinfo_ok (fst (system_info_set_interface_address pton hwaddr address s))"
    "sysinfo_ok (system_info_register_blockdev bname uuid mountpoint s)"
    "sysinfo_ok (system_info_reinit s)"
  using assms register_interface_hwaddrs[of hwaddr name link "si_interfaces s"] register_blockdev_names[of bname uuid mountpoint "si_blockdevs s"]
    set_address_hwaddrs[of pton hwaddr address "si_interfaces s"]
  by (auto simp: sysinfo_ok_def system_info_register_interface_def system_info_set_interface_address_def system_info_register_blockdev_def
      system_info_reinit_def image_iff split: prod.splits if_splits)

text \<open>C34: a registered interface is found under its hardware address, with the name and the state of the link; the addresses that were set before stay,
  other interfaces are untouched, each address has one entry, and the clients are told exactly when something has changed.\<close>

theorem interface_registered:
  assumes "sysinfo_ok s"
  shows "(\<exists>i. interface_of (fst (system_info_register_interface hwaddr name link s)) hwaddr = Some i \<and> ifi_name i = Some name \<and>
      ifi_link i = link \<and> ifi_address i = Option.bind (interface_of s hwaddr) ifi_address) \<and>
    (\<forall>a. a \<noteq> hwaddr \<longrightarrow> interface_of (fst (system_info_register_interface hwaddr name link s)) a = interface_of s a) \<and>
    sysinfo_ok (fst (system_info_register_interface hwaddr name link s)) \<and>
    (snd (system_info_register_interface hwaddr name link s) \<longleftrightarrow> fst (system_info_register_interface hwaddr name link s) \<noteq> s)"
proof -
  obtain js told where r: "register_interface hwaddr name link (si_interfaces s) = (js, told)" by force
  have f: "find (same_hwaddr a) js = (if a = hwaddr then Some (case find (same_hwaddr hwaddr) (si_interfaces s) of
        Some i \<Rightarrow> i\<lparr>ifi_name := Some name, ifi_link := link\<rparr>
      | None \<Rightarrow> \<lparr>ifi_hwaddr = hwaddr, ifi_name = Some name, ifi_link = link, ifi_address = None, ifi_address_v6 = None\<rparr>)
      else find (same_hwaddr a) (si_interfaces s))" for a
    using register_interface_find[of a hwaddr name link "si_interfaces s"] r by simp
  have t: "told \<longleftrightarrow> js \<noteq> si_interfaces s" using register_interface_told[of hwaddr name link "si_interfaces s"] r by simp
  have "s\<lparr>si_interfaces := js\<rparr> \<noteq> s \<longleftrightarrow> js \<noteq> si_interfaces s" by (cases s) auto
  moreover have e: "system_info_register_interface hwaddr name link s = (s\<lparr>si_interfaces := js\<rparr>, told)"
    using r by (simp add: system_info_register_interface_def)
  ultimately show ?thesis using sysinfo_ok_ops(1)[OF assms, of hwaddr name link] f t by (auto simp: e split: option.split)
qed

definition plain_info :: system_info where
  "plain_info = \<lparr>si_type = None, si_identifier = None, si_platform_primary = [], si_platform_other = [], si_bmc_current = [], si_bmc_golden = [],
     si_interfaces = [\<lparr>ifi_hwaddr = [2, 0, 0, 0, 0, 1], ifi_name = Some ''eth0'', ifi_link = False, ifi_address = Some ''10.0.0.2'', ifi_address_v6 = None\<rparr>],
     si_blockdevs = [], si_bmc_mac = None, si_stb_fw_measurement = False, si_stb_fw_enforcing = False, si_stb_os_enforcing = False\<rparr>"

theorem interface_registered_witness:
  "\<exists>i. interface_of (fst (system_info_register_interface [2, 0, 0, 0, 0, 1] ''eth0'' True plain_info)) [2, 0, 0, 0, 0, 1] = Some i \<and>
     ifi_link i \<and> ifi_address i = Some ''10.0.0.2''"
  using interface_registered[of plain_info "[2, 0, 0, 0, 0, 1]" "''eth0''" True] by (auto simp: sysinfo_ok_def plain_info_def same_hwaddr_def)

text \<open>A static address carries its subnet: setting the same one again tells the clients again, although nothing has changed.\<close>

theorem static_address_always_new:
  assumes "interface_of s hwaddr = Some i" "addr_scheme pton net = AF_INET" "ifi_address i = Some net" "CHR ''/'' \<notin> set net" "distinct (map ifi_hwaddr (si_interfaces s))"
  shows "system_info_set_interface_address pton hwaddr (net @ ''/'' @ bits) s = (s, True)"
proof -
  have "set_address pton hwaddr (net @ ''/'' @ bits) is = (is, True)"
    if "find (same_hwaddr hwaddr) is = Some i" "distinct (map ifi_hwaddr is)" for "is"
    using that
  proof (induction "is")
    case (Cons j "is")
    have n: "strchr (net @ CHR ''/'' # bits) CHR ''/'' = Some (length net)" by (rule strchr_first[OF assms(4)])
    show ?case using Cons assms(2,3) n by (cases j) (auto simp: Let_def same_hwaddr_def[abs_def] split: if_splits)
  qed simp
  then show ?thesis using assms(1,5) by (simp add: system_info_set_interface_address_def)
qed

end
