(* ===== verification/User_Event.thy ===== *)
theory User_Event
  imports Discovery Sysinfo
begin

text \<open>
  User events, \<^verbatim>\<open>discover/user-event.c\<close>: what arrives on the event socket and what it makes the device handler do, and
  how the parameters of a DHCP event become the place and the names of a PXE configuration.
\<close>

section \<open>Numbers\<close>

text \<open>\<^verbatim>\<open>sscanf\<close> with up to \<open>n\<close> numbers between separators: the values that are assigned before the first mismatch.  A number is what \<^verbatim>\<open>strtoul\<close>
  reads, reduced to the width of the variable.\<close>

fun scan_fields :: "nat \<Rightarrow> char \<Rightarrow> nat \<Rightarrow> string \<Rightarrow> int list" where
  "scan_fields base sep 0 s = []"
| "scan_fields base sep (Suc n) s =
     (let (v, endp) = strtoul s base
      in if endp = 0 then []
         else v # (case drop endp s of [] \<Rightarrow> [] | c # rest \<Rightarrow> if c = sep then scan_fields base sep n rest else []))"

text \<open>Variables beyond the assigned ones keep what the stack holds.\<close>

definition assigned :: "nat \<Rightarrow> (nat \<Rightarrow> 'a::len word) \<Rightarrow> int list \<Rightarrow> 'a word list" where
  "assigned n mem vs = map (\<lambda>i. if i < length vs then word_of_int (vs ! i) else mem i) [0..<n]"

function hex_digits :: "nat \<Rightarrow> string" where
  "hex_digits n = (if n < 16 then [hex_digit n] else hex_digits (n div 16) @ [hex_digit (n mod 16)])"
  by pat_completeness auto

termination hex_digits
  by (relation "measure id") auto

declare hex_digits.simps [simp del]

definition toupper :: "char \<Rightarrow> char" where
  "toupper c = (let n = of_char c :: nat in if 97 \<le> n \<and> n \<le> 122 then char_of (n - 32) else c)"

definition fmt_02x_uint :: "u32 \<Rightarrow> string" where
  "fmt_02x_uint w = (if unat w < 16 then ''0'' else []) @ hex_digits (unat w)"

definition fmt_02X_uint :: "u32 \<Rightarrow> string" where
  "fmt_02X_uint w = map toupper (fmt_02x_uint w)"

section \<open>The environment\<close>

text \<open>The parsers and what the handler's operations need; the contents of uninitialised variables, how an option's address prints, whether a
  device can be unmounted, and the answers of the device mapper.\<close>

record user_env =
  ue_parsers :: "(string \<times> parser_fn) list"
  ue_resolvers :: resolvers
  ue_boot :: boot_env
  ue_route :: "pb_url \<Rightarrow> string option"
  ue_async :: "pb_url \<Rightarrow> bool"
  ue_words :: "nat \<Rightarrow> u32"
  ue_bytes :: "nat \<Rightarrow> u8"
  ue_pointer :: "nat \<Rightarrow> string"
  ue_umount :: "cstr \<Rightarrow> bool"
  ue_dm :: dm_env
  ue_dm_remove :: "string \<Rightarrow> bool"

section \<open>Events that describe an option\<close>

definition user_event_resource :: "event \<Rightarrow> bool \<Rightarrow> resource option h_m" where
  "user_event_resource event gen_boot_args_sigfile =
     (case event_get_param event ''siaddr'' of
        None \<Rightarrow> Inr None
      | Some siaddr \<Rightarrow>
          (case event_get_param event ''bootfile'' of
             None \<Rightarrow> Inr None
           | Some boot_file \<Rightarrow>
               hbind (map_sum Url_error id (pb_url_parse (Some (''tftp://'' @ siaddr @ ''/'' @ boot_file @
                        (if gen_boot_args_sigfile then ''.cmdline.sig'' else []))))) (\<lambda>url.
               Inr (map_option (\<lambda>u. create_url_resource (Some u)) url))))"

text \<open>The root file system; without a colon only the beginning of the argument is left.\<close>

definition rootpath_args :: "string \<Rightarrow> string" where
  "rootpath_args val =
     ''root=/dev/nfs ip=any nfsroot='' @
     (case strchr val CHR '':'' of
        Some p \<Rightarrow> take p val @ '':'' @ drop (Suc p) val
      | None \<Rightarrow> [])"

definition user_option :: "event \<Rightarrow> string \<Rightarrow> device \<Rightarrow> boot_option \<Rightarrow> boot_option" where
  "user_option event name dev opt =
     (let boot_args = (case event_get_param event ''rootpath'' of Some val \<Rightarrow> Some (rootpath_args val) | None \<Rightarrow> opt_boot_args opt)
      in opt\<lparr>opt_id := Some (fmt_s (dev_id dev) @ ''#'' @ name), opt_name := Some name, opt_boot_args := boot_args,
             opt_description := Some (fmt_s (opt_boot_image_file opt) @ '' '' @ (case boot_args of Some a \<Rightarrow> a | None \<Rightarrow> [])),
             opt_is_default := (if event_get_param event ''default'' \<noteq> None then True else opt_is_default opt)\<rparr>)"

definition parse_user_event :: "event \<Rightarrow> discover_context \<Rightarrow> device_handler \<Rightarrow> (int \<times> discover_context \<times> device_handler) h_m" where
  "parse_user_event event ctx h =
     hbind (get_dev h (ctx_device ctx)) (\<lambda>dev.
     let (r, h) = discover_boot_option_create (ctx_device ctx) h
     in hbind (get_opt h r) (\<lambda>d_opt.
        case event_get_param event ''name'' of
          None \<Rightarrow> Inr (- 1, ctx, free_opt r h)
        | Some name \<Rightarrow>
            hbind (user_event_resource event False) (\<lambda>boot_image.
            if boot_image = None then Inr (- 1, ctx, free_opt r h)
            else
              hbind (user_event_resource event True) (\<lambda>sig.
              hbind (discover_context_add_boot_option ctx r
                      (put_opt r (d_opt\<lparr>dbo_option := user_option event name (dd_device dev) (dbo_option d_opt),
                         dbo_boot_image := boot_image, dbo_args_sig_file := sig\<rparr>) h)) (\<lambda>(ctx, h).
              Inr (0, ctx, h))))))"

section \<open>PXE configurations\<close>

definition parse_host_addr :: "event \<Rightarrow> string option" where
  "parse_host_addr event =
     (case event_get_param event ''tftp'' of
        Some v \<Rightarrow> Some v
      | None \<Rightarrow>
          (case event_get_param event ''siaddr'' of
             Some v \<Rightarrow> Some v
           | None \<Rightarrow> event_get_param event ''serverid''))"

definition parse_mac_addr :: "(nat \<Rightarrow> u32) \<Rightarrow> string \<Rightarrow> string" where
  "parse_mac_addr mem mac =
     ''01'' @ concat (map (\<lambda>w. ''-'' @ fmt_02x_uint w) (assigned 6 mem (scan_fields 16 CHR '':'' 6 mac)))"

definition parse_ip_addr :: "(nat \<Rightarrow> u32) \<Rightarrow> string \<Rightarrow> string" where
  "parse_ip_addr mem ip = concat (map fmt_02X_uint (assigned 4 mem (scan_fields 10 CHR ''.'' 4 ip)))"

text \<open>The directory of the boot file.\<close>

definition bootfile_dir :: "string \<Rightarrow> string" where
  "bootfile_dir bootfile =
     (let basedir = (case strrchr bootfile CHR ''/'' of Some p \<Rightarrow> take p bootfile | None \<Rightarrow> [])
      in if basedir = [] then [] else basedir @ ''/'')"

text \<open>The URL and whether it is that of a file.\<close>

definition user_event_parse_conf_url :: "event \<Rightarrow> (pb_url option \<times> bool) h_m" where
  "user_event_parse_conf_url event =
     (let conffile = event_get_param event ''pxeconffile'';
          pathprefix = event_get_param event ''pxepathprefix'';
          bootfile = event_get_param event ''bootfile'';
          bootfile_url = event_get_param event ''bootfile_url'';
          is_complete = (conffile \<noteq> None);
          conf = (case conffile of Some c \<Rightarrow> c | None \<Rightarrow> []);
          result = (\<lambda>url is_complete. hbind (map_sum Url_error id (pb_url_parse (Some url))) (\<lambda>u. Inr (u, is_complete)))
      in if (case conffile of Some c \<Rightarrow> is_url c | None \<Rightarrow> False) then result conf is_complete
         else if (case pathprefix of Some p \<Rightarrow> is_url p | None \<Rightarrow> False) then result (the pathprefix @ conf) is_complete
         else
           (case parse_host_addr event of
              None \<Rightarrow>
                (case bootfile_url of
                   Some b \<Rightarrow> if is_url b then result b True else Inr (None, is_complete)
                 | None \<Rightarrow> Inr (None, is_complete))
            | Some host \<Rightarrow>
                result (''tftp://'' @ host @ ''/'' @
                  (case pathprefix of
                     Some p \<Rightarrow> dropWhile (\<lambda>c. c = CHR ''/'') p
                   | None \<Rightarrow>
                       (case bootfile of
                          Some b \<Rightarrow> if take 1 conf = ''/'' then [] else bootfile_dir b
                        | None \<Rightarrow> [])) @ conf) is_complete))"

fun ip_fallbacks :: "nat \<Rightarrow> string \<Rightarrow> string list" where
  "ip_fallbacks 0 ip_hex = []"
| "ip_fallbacks (Suc len) ip_hex = ip_hex # ip_fallbacks len (take len ip_hex)"

text \<open>The names without the NULL at the end.\<close>

definition user_event_parse_conf_filenames :: "(nat \<Rightarrow> u32) \<Rightarrow> event \<Rightarrow> string list option" where
  "user_event_parse_conf_filenames mem event =
     (let mac_addr = map_option (parse_mac_addr mem) (event_get_param event ''mac'');
          ip_hex = map_option (parse_ip_addr mem) (event_get_param event ''ip'')
      in if mac_addr = None \<and> ip_hex = None then None
         else Some ((case mac_addr of Some m \<Rightarrow> [m] | None \<Rightarrow> []) @
                    (case ip_hex of Some i \<Rightarrow> ip_fallbacks (length i) i | None \<Rightarrow> []) @ [''default'']))"

section \<open>Handling an event\<close>

text \<open>The handler, and the information about the machine, which is sent to the clients when it changes.\<close>

record user_state =
  us_handler :: device_handler
  us_sysinfo :: system_info
  us_sysinfo_out :: "system_info list"

definition on_handler :: "device_handler h_m \<Rightarrow> int \<Rightarrow> user_state \<Rightarrow> (int \<times> user_state) h_m" where
  "on_handler m rc st = hbind m (\<lambda>h. Inr (rc, st\<lparr>us_handler := h\<rparr>))"

definition user_event_dhcp :: "user_env \<Rightarrow> event \<Rightarrow> user_state \<Rightarrow> (int \<times> user_state) h_m" where
  "user_event_dhcp env event st =
     (case event_get_param event ''mac'' of
        None \<Rightarrow> Inr (- 1, st)
      | Some mac \<Rightarrow>
          (case (case event_get_param event ''ipv6'' of Some a \<Rightarrow> Some a | None \<Rightarrow> event_get_param event ''ip'') of
             None \<Rightarrow> Inr (- 1, st)
           | Some address \<Rightarrow>
               (let hwaddr = assigned 6 (ue_bytes env) (scan_fields 16 CHR '':'' 6 mac);
                    (info, told) = system_info_set_interface_address (be_pton (ue_boot env)) hwaddr address (us_sysinfo st);
                    st = st\<lparr>us_sysinfo := info, us_sysinfo_out := us_sysinfo_out st @ (if told then [info] else [])\<rparr>
                in hbind (discover_device_create (Some mac) (ev_device event) (us_handler st)) (\<lambda>(d, h).
                   on_handler (device_handler_dhcp (ue_parsers env) (ue_resolvers env) (ue_boot env) d event h) 0 st))))"

definition user_event_add :: "user_env \<Rightarrow> event \<Rightarrow> user_state \<Rightarrow> (int \<times> user_state) h_m" where
  "user_event_add env event st =
     hbind (discover_device_create (event_get_param event ''mac'') (ev_device event) (us_handler st)) (\<lambda>(d, h).
     hbind (get_dev h d) (\<lambda>dev.
     let h = put_dev d (dev\<lparr>dd_device := (dd_device dev)\<lparr>dev_id := Some (ev_device event)\<rparr>\<rparr>) h
     in hbind (parse_user_event event (device_handler_discover_context_create d None) h) (\<lambda>(rc, ctx, h).
        if rc \<noteq> 0 then Inr (rc, st\<lparr>us_handler := h\<rparr>)
        else on_handler (device_handler_discover_context_commit (ue_resolvers env) (ue_boot env) ctx h) 0 st)))"

definition user_event_remove :: "event \<Rightarrow> user_state \<Rightarrow> (int \<times> user_state) h_m" where
  "user_event_remove event st =
     hbind (case event_get_param event ''mac'' of
              Some mac \<Rightarrow> device_lookup_by_uuid (us_handler st) (Some mac)
            | None \<Rightarrow> device_lookup_by_id (us_handler st) (Some (ev_device event))) (\<lambda>found.
     case found of
       None \<Rightarrow> Inr (0, st)
     | Some d \<Rightarrow> on_handler (device_handler_remove d (us_handler st)) 0 st)"

definition user_event_url :: "user_env \<Rightarrow> event \<Rightarrow> user_state \<Rightarrow> (int \<times> user_state) h_m" where
  "user_event_url env event st =
     (case event_get_param event ''url'' of
        None \<Rightarrow> Inr (0, st)
      | Some url \<Rightarrow>
          on_handler (device_handler_process_url (ue_parsers env) (ue_resolvers env) (ue_boot env) (ue_route env) (ue_async env)
            url None None (us_handler st)) 0 st)"

definition zero_command :: boot_command where
  "zero_command = \<lparr>cmd_option_id = None, cmd_boot_image_file = None, cmd_initrd_file = None, cmd_dtb_file = None, cmd_boot_args = None,
     cmd_args_sig_file = None, cmd_console = None\<rparr>"

definition user_event_boot :: "user_env \<Rightarrow> event \<Rightarrow> user_state \<Rightarrow> (int \<times> user_state) h_m" where
  "user_event_boot env event st =
     (let boot = (\<lambda>cmd. on_handler (device_handler_boot (ue_boot env) False cmd (us_handler st)) 0 st)
      in case event_get_param event ''name'' of
           Some name \<Rightarrow>
             hbind (device_handler_find_option_by_name (us_handler st) (Some (ev_device event)) name) (\<lambda>found.
             case found of
               None \<Rightarrow> Inr (- 1, st)
             | Some r \<Rightarrow>
                 hbind (get_opt (us_handler st) r) (\<lambda>opt. boot (zero_command\<lparr>cmd_option_id := opt_id (dbo_option opt)\<rparr>)))
         | None \<Rightarrow>
             boot (zero_command\<lparr>cmd_option_id := event_get_param event ''id'', cmd_boot_image_file := event_get_param event ''image'',
               cmd_initrd_file := event_get_param event ''initrd'', cmd_dtb_file := event_get_param event ''dtb'',
               cmd_boot_args := event_get_param event ''args''\<rparr>))"

section \<open>Merging snapshots\<close>

definition create_snapshot :: "dm_env \<Rightarrow> discover_device \<Rightarrow> ramdisk_device \<Rightarrow> bool \<times> ramdisk_device" where
  "create_snapshot dm dev rd =
     (if rd_base rd = None \<or> rd_origin rd = None \<or> \<not> dm_create dm (dm_name dev []) then (False, rd)
      else (True, rd\<lparr>rd_snapshot := Some (''/dev/mapper/'' @ dm_name dev [])\<rparr>))"

text \<open>The device is unmounted.  Reloading the maps changes nothing here, whatever the device mapper answers; the merge in the kernel, for whose end
  the code waits, is taken to end.\<close>

definition devmapper_merge_snapshot :: "user_env \<Rightarrow> discover_device \<Rightarrow> ramdisk_device \<Rightarrow> (int \<times> ramdisk_device) h_m" where
  "devmapper_merge_snapshot env dev rd =
     (case rd_origin rd of
        None \<Rightarrow> Inl Null_pointer
      | Some origin \<Rightarrow>
          if \<not> dm_set_active (ue_dm env) origin False then Inr (- 1, rd)
          else
            (case rd_snapshot rd of
               None \<Rightarrow> Inl Null_pointer
             | Some snapshot \<Rightarrow>
                 if \<not> ue_dm_remove env snapshot then Inr (- 1, rd)
                 else
                   (let (ok, rd) = create_snapshot (ue_dm env) dev (rd\<lparr>rd_snapshot := None\<rparr>)
                    in if \<not> ok then Inr (- 1, rd)
                       else Inr (if dm_set_active (ue_dm env) origin True then 0 else - 1, rd))))"

text \<open>The device is mounted read-only again; only the merge changes the handler.\<close>

definition device_release_write :: "user_env \<Rightarrow> nat \<Rightarrow> bool \<Rightarrow> device_handler \<Rightarrow> device_handler h_m" where
  "device_release_write env d release h =
     (if \<not> release then Inr h
      else
        hbind (get_dev h d) (\<lambda>dev.
        if \<not> ue_umount env (dd_mount_path dev) then Inr h
        else
          (case dd_ramdisk dev of
             None \<Rightarrow> Inr h
           | Some r \<Rightarrow>
               hbind (get_rd h r) (\<lambda>rd.
               hbind (devmapper_merge_snapshot env dev rd) (\<lambda>(rc, rd). Inr (put_rd r rd h))))))"

section \<open>Snapshots and plugins\<close>

fun sync_all :: "user_env \<Rightarrow> nat list \<Rightarrow> device_handler \<Rightarrow> device_handler h_m" where
  "sync_all env [] h = Inr h"
| "sync_all env (d # ds) h =
     hbind (get_dev h d) (\<lambda>dev.
     hbind (if dev_type (dd_device dev) \<in> {DEVICE_TYPE_DISK, DEVICE_TYPE_USB} \<and> dd_ramdisk dev \<noteq> None then device_release_write env d True h else Inr h)
       (sync_all env ds))"

definition device_sync_snapshots :: "user_env \<Rightarrow> cstr \<Rightarrow> device_handler \<Rightarrow> device_handler h_m" where
  "device_sync_snapshots env device h =
     (case device of
        Some name \<Rightarrow>
          hbind (device_lookup_by_name h name) (\<lambda>found.
          case found of
            None \<Rightarrow> Inr h
          | Some d \<Rightarrow> hbind (get_dev h d) (\<lambda>dev. if dd_ramdisk dev \<noteq> None then device_release_write env d True h else Inr h))
      | None \<Rightarrow> sync_all env (h_devices h) h)"

definition user_event_sync :: "user_env \<Rightarrow> event \<Rightarrow> user_state \<Rightarrow> (int \<times> user_state) h_m" where
  "user_event_sync env event st =
     on_handler (device_sync_snapshots env (if strncaseeq (ev_device event) ''all'' 3 then None else Some (ev_device event)) (us_handler st)) 0 st"

text \<open>A path that begins with the mount point of the device; one character more is skipped.\<close>

definition plugin_path :: "string \<Rightarrow> string \<Rightarrow> string h_m" where
  "plugin_path mount_path path =
     (if strneq mount_path path (length mount_path)
      then if length path = length mount_path then Inl Out_of_bounds else Inr (drop (Suc (length mount_path)) path)
      else Inr path)"

definition process_uninstalled_plugin :: "user_env \<Rightarrow> event \<Rightarrow> user_state \<Rightarrow> (int \<times> user_state) h_m" where
  "process_uninstalled_plugin env event st =
     (case event_get_param event ''path'' of
        None \<Rightarrow> Inr (- 1, st)
      | Some path \<Rightarrow>
          hbind (device_lookup_by_name (us_handler st) (ev_device event)) (\<lambda>found.
          case found of
            None \<Rightarrow> Inr (- 1, st)
          | Some d \<Rightarrow>
              (let ctx = device_handler_discover_context_create d None; (r, h) = discover_boot_option_create d (us_handler st)
               in hbind (get_dev h d) (\<lambda>dev.
                  hbind (get_opt h r) (\<lambda>file_opt.
                  case dd_mount_path dev of
                    None \<Rightarrow> Inl Null_pointer
                  | Some mount_path \<Rightarrow>
                      hbind (plugin_path mount_path path) (\<lambda>path.
                      hbind (resolve_resource_against_device dev (Some path)) (\<lambda>res.
                      let opt = (dbo_option file_opt)\<lparr>opt_name := event_get_param event ''name'',
                            opt_id := Some (fmt_s (dev_id (dd_device dev)) @ ''@'' @ ue_pointer env r), opt_type := DISCOVER_PLUGIN_OPTION\<rparr>
                      in hbind (discover_context_add_boot_option ctx r
                                 (put_opt r (file_opt\<lparr>dbo_option := opt, dbo_boot_image := Some res\<rparr>) h)) (\<lambda>(ctx, h).
                         on_handler (device_handler_discover_context_commit (ue_resolvers env) (ue_boot env) ctx h) 0 st))))))))"

definition installed_plugin :: "event \<Rightarrow> string \<Rightarrow> plugin_option" where
  "installed_plugin event executables =
     \<lparr>plg_id = event_get_param event ''id'', plg_name = event_get_param event ''name'', plg_vendor = event_get_param event ''vendor'',
      plg_vendor_id = event_get_param event ''vendor_id'', plg_version = event_get_param event ''version'',
      plg_date = event_get_param event ''date'', plg_plugin_file = event_get_param event ''source_file'',
      plg_executables = map Some (strtok_all CHR '' '' executables)\<rparr>"

definition user_event_plugin :: "user_env \<Rightarrow> event \<Rightarrow> user_state \<Rightarrow> (int \<times> user_state) h_m" where
  "user_event_plugin env event st =
     (if (case event_get_param event ''installed'' of None \<Rightarrow> True | Some i \<Rightarrow> strneq i ''no'' 2)
      then process_uninstalled_plugin env event st
      else
        (case event_get_param event ''executables'' of
           None \<Rightarrow> Inr (- 1, st)
         | Some executables \<Rightarrow> on_handler (device_handler_add_plugin_option (installed_plugin event executables) (us_handler st)) 0 st))"

definition user_event :: "user_env \<Rightarrow> event \<Rightarrow> user_state \<Rightarrow> (int \<times> user_state) h_m" where
  "user_event env event st =
     (case ev_action event of
        EVENT_ACTION_ADD \<Rightarrow> user_event_add env event st
      | EVENT_ACTION_REMOVE \<Rightarrow> user_event_remove event st
      | EVENT_ACTION_URL \<Rightarrow> user_event_url env event st
      | EVENT_ACTION_DHCP \<Rightarrow> user_event_dhcp env event st
      | EVENT_ACTION_BOOT \<Rightarrow> user_event_boot env event st
      | EVENT_ACTION_SYNC \<Rightarrow> user_event_sync env event st
      | EVENT_ACTION_PLUGIN \<Rightarrow> user_event_plugin env event st)"

definition empty_event :: event where
  "empty_event = \<lparr>ev_type = EVENT_TYPE_USER, ev_action = EVENT_ACTION_ADD, ev_device = [], ev_params = []\<rparr>"

text \<open>The result of the operation is only logged.\<close>

definition user_event_handle_message :: "user_env \<Rightarrow> string \<Rightarrow> user_state \<Rightarrow> user_state h_m" where
  "user_event_handle_message env buf st =
     (case event_parse_ad_message empty_event buf of
        None \<Rightarrow> Inr st
      | Some event \<Rightarrow> hbind (user_event env event st) (\<lambda>(result, st). Inr st))"

definition PBOOT_USER_EVENT_SIZE :: nat where
  "PBOOT_USER_EVENT_SIZE = 1024"

text \<open>\<open>received\<close> is the next datagram, of which the buffer takes the beginning; \<open>None\<close> when it cannot be received.\<close>

definition user_event_process :: "user_env \<Rightarrow> string option \<Rightarrow> user_state \<Rightarrow> user_state h_m" where
  "user_event_process env received st =
     (case received of
        None \<Rightarrow> Inr st
      | Some data \<Rightarrow>
          (let buf = take PBOOT_USER_EVENT_SIZE data in if buf = [] then Inr st else user_event_handle_message env buf st))"

end
