(* ===== verification/Pxe.thy ===== *)
theory Pxe
  imports Parser_Conf User_Event
begin

text \<open>
  The parser for the files of PXE servers, \<^verbatim>\<open>discover/pxe-parser.c\<close>: which file is asked for, what happens when it has arrived, and
  the two formats it may have.  Loads from the network end later, in a callback; local ones call it before \<^verbatim>\<open>load_url_async\<close> returns.
\<close>

section \<open>The configuration\<close>

text \<open>The parser's information, without the names that are still to be tried, and the URL of the configuration.\<close>

record pxe_parser_info =
  pi_opt :: "nat option"
  pi_default_name :: cstr
  pi_proxy :: cstr

record pxe_conf =
  pc_info :: pxe_parser_info
  pc_conf_url :: pb_url

type_synonym pxe_state = "pxe_conf \<times> discover_context \<times> device_handler"

text \<open>Addresses, local files, whether a load from the network can be started or is queued, the contents of uninitialised variables, and how an
  address prints.\<close>

record pxe_world =
  px_pton :: "bool \<Rightarrow> string \<Rightarrow> bool"
  px_access :: "string \<Rightarrow> bool"
  px_read :: "string \<Rightarrow> string option"
  px_start :: "pb_url \<Rightarrow> bool"
  px_words :: "nat \<Rightarrow> u32"
  px_pointer :: "nat \<Rightarrow> string"

definition pxelinux_prefix :: string where
  "pxelinux_prefix = ''pxelinux.cfg/''"

definition pxe_finish :: "pxe_state \<Rightarrow> pxe_state h_m" where
  "pxe_finish st =
     (case st of (conf, ctx, h) \<Rightarrow>
        (case pi_opt (pc_info conf) of
           None \<Rightarrow> Inr st
         | Some r \<Rightarrow>
             hbind (get_opt h r) (\<lambda>opt.
             let h = (case pi_proxy (pc_info conf) of Some p \<Rightarrow> put_opt r (opt\<lparr>dbo_proxy := Some p\<rparr>) h | None \<Rightarrow> h)
             in hbind (discover_context_add_boot_option ctx r h) (\<lambda>(ctx, h).
                Inr (conf\<lparr>pc_info := (pc_info conf)\<lparr>pi_opt := None\<rparr>\<rparr>, ctx, h)))))"

definition pxe_url_join :: "(bool \<Rightarrow> string \<Rightarrow> bool) \<Rightarrow> pb_url \<Rightarrow> string \<Rightarrow> pb_url option h_m" where
  "pxe_url_join pton url s =
     map_sum Url_error id (pb_url_join pton url
       (if 2 < length s \<and> take 2 s = ''::''
        then if s ! 2 = CHR ''/'' then drop 2 s else CHR ''/'' # drop 2 s
        else dropWhile (\<lambda>c. c = CHR ''/'') s))"

definition pxe_append_string :: "string \<Rightarrow> boot_option \<Rightarrow> boot_option" where
  "pxe_append_string str opt =
     opt\<lparr>opt_boot_args := Some (case opt_boot_args opt of Some a \<Rightarrow> a @ '' '' @ str | None \<Rightarrow> str)\<rparr>"

definition pxe_sysappend_mac :: "u8 list option \<Rightarrow> string option" where
  "pxe_sysappend_mac mac =
     map_option (\<lambda>m. ''BOOTIF=01-'' @ fmt_02x (m ! 0) @ ''-'' @ fmt_02x (m ! 1) @ ''-'' @ fmt_02x (m ! 2) @ ''-'' @
       fmt_02x (m ! 3) @ ''-'' @ fmt_02x (m ! 4) @ ''-'' @ fmt_02x (m ! 5)) mac"

definition find_mac_by_name :: "cstr \<Rightarrow> device_handler \<Rightarrow> u8 list option h_m" where
  "find_mac_by_name name h =
     hbind (find_interface_by_name name h) (\<lambda>i. Inr (map_option (\<lambda>i. iface_hwaddr (h_interfaces h ! i)) i))"

text \<open>Only the second bit is supported.\<close>

definition pxe_process_sysappend :: "discover_context \<Rightarrow> device_handler \<Rightarrow> int \<Rightarrow> boot_option \<Rightarrow> boot_option h_m" where
  "pxe_process_sysappend ctx h val opt =
     (case ctx_event ctx of
        None \<Rightarrow> Inr opt
      | Some event \<Rightarrow>
          if odd (val div 2)
          then hbind (find_mac_by_name (Some (ev_device event)) h) (\<lambda>mac.
               Inr (case pxe_sysappend_mac mac of Some str \<Rightarrow> pxe_append_string str opt | None \<Rightarrow> opt))
          else Inr opt)"

text \<open>\<^verbatim>\<open>strcasestr\<close>: the first position.\<close>

fun strcasestr :: "string \<Rightarrow> string \<Rightarrow> nat option" where
  "strcasestr [] t = (if t = [] then Some 0 else None)"
| "strcasestr (c # s) t = (if strncaseeq (c # s) t (length t) then Some 0 else map_option Suc (strcasestr s t))"

definition pxe_resource :: "pxe_world \<Rightarrow> pxe_conf \<Rightarrow> string \<Rightarrow> resource option h_m" where
  "pxe_resource w conf s = hbind (pxe_url_join (px_pton w) (pc_conf_url conf) s) (\<lambda>url. Inr (Some (create_url_resource url)))"

text \<open>The parameters of an option.\<close>

definition pxe_option_pair ::
    "pxe_world \<Rightarrow> pxe_conf \<Rightarrow> discover_context \<Rightarrow> device_handler \<Rightarrow> string \<Rightarrow> string \<Rightarrow> discover_boot_option \<Rightarrow> discover_boot_option h_m" where
  "pxe_option_pair w conf ctx h name value opt =
     (if strcaseeq name ''TARBALL'' \<and> opt_type (dbo_option opt) = DISCOVER_PLUGIN_OPTION
      then hbind (pxe_resource w conf value) (\<lambda>res. Inr (opt\<lparr>dbo_boot_image := res\<rparr>))
      else if strcaseeq name ''KERNEL''
      then hbind (pxe_resource w conf value) (\<lambda>res.
           hbind (pxe_resource w conf (value @ ''.cmdline.sig'')) (\<lambda>sig. Inr (opt\<lparr>dbo_boot_image := res, dbo_args_sig_file := sig\<rparr>)))
      else if strcaseeq name ''INITRD'' then hbind (pxe_resource w conf value) (\<lambda>res. Inr (opt\<lparr>dbo_initrd := res\<rparr>))
      else if strcaseeq name ''APPEND''
      then (let opt = opt\<lparr>dbo_option := pxe_append_string value (dbo_option opt)\<rparr>
            in case strcasestr value ''INITRD='' of
                 None \<Rightarrow> Inr opt
               | Some n \<Rightarrow>
                   hbind (pxe_resource w conf (takeWhile (\<lambda>c. c \<noteq> CHR '' '') (drop (n + length ''INITRD='') value))) (\<lambda>res.
                   Inr (opt\<lparr>dbo_initrd := res\<rparr>)))
      else if strcaseeq name ''SYSAPPEND'' \<or> strcaseeq name ''IPAPPEND''
      then (let (type, end) = strtoul value 10
            in if end \<noteq> 0 \<and> end = length value
               then hbind (pxe_process_sysappend ctx h type (dbo_option opt)) (\<lambda>o'. Inr (opt\<lparr>dbo_option := o'\<rparr>))
               else Inr opt)
      else if strcaseeq name ''DTB'' \<or> strcaseeq name ''FDT'' then hbind (pxe_resource w conf value) (\<lambda>res. Inr (opt\<lparr>dbo_dtb := res\<rparr>))
      else Inr opt)"

definition pxe_new_option :: "pxe_world \<Rightarrow> string \<Rightarrow> string \<Rightarrow> pxe_state \<Rightarrow> pxe_state h_m" where
  "pxe_new_option w name value st =
     (case st of (conf, ctx, h) \<Rightarrow>
        (let (r, h) = discover_boot_option_create (ctx_device ctx) h
         in hbind (get_opt h r) (\<lambda>opt.
            hbind (get_dev h (ctx_device ctx)) (\<lambda>dev.
            let bo = (dbo_option opt)\<lparr>opt_name := Some value, opt_id := Some (fmt_s (dev_id (dd_device dev)) @ ''@'' @ px_pointer w r)\<rparr>;
                bo = (if strcaseeq name ''LABEL''
                      then bo\<lparr>opt_type := DISCOVER_BOOT_OPTION,
                              opt_is_default := (case pi_default_name (pc_info conf) of Some d \<Rightarrow> strcaseeq d value | None \<Rightarrow> False)\<rparr>
                      else bo\<lparr>opt_type := DISCOVER_PLUGIN_OPTION\<rparr>)
            in Inr (conf\<lparr>pc_info := (pc_info conf)\<lparr>pi_opt := Some r\<rparr>\<rparr>, ctx, put_opt r (opt\<lparr>dbo_option := bo\<rparr>) h)))))"

definition pxe_pair :: "pxe_world \<Rightarrow> string \<Rightarrow> string \<Rightarrow> pxe_state \<Rightarrow> pxe_state h_m" where
  "pxe_pair w name value st =
     (case st of (conf, ctx, h) \<Rightarrow>
        if strcaseeq name ''DEFAULT'' then Inr (conf\<lparr>pc_info := (pc_info conf)\<lparr>pi_default_name := Some value\<rparr>\<rparr>, ctx, h)
        else if strcaseeq name ''PROXY'' then Inr (conf\<lparr>pc_info := (pc_info conf)\<lparr>pi_proxy := Some value\<rparr>\<rparr>, ctx, h)
        else if strcaseeq name ''LABEL'' \<or> strcaseeq name ''PLUGIN''
        then hbind (if pi_opt (pc_info conf) \<noteq> None then pxe_finish st else Inr st) (pxe_new_option w name value)
        else
          (case pi_opt (pc_info conf) of
             None \<Rightarrow> Inr st
           | Some r \<Rightarrow>
               hbind (get_opt h r) (\<lambda>opt.
               hbind (pxe_option_pair w conf ctx h name value opt) (\<lambda>opt. Inr (conf, ctx, put_opt r opt h)))))"

text \<open>A line without a name may be that of an initrd.\<close>

definition pxe_process_pair :: "pxe_world \<Rightarrow> cstr \<Rightarrow> string \<Rightarrow> pxe_state \<Rightarrow> pxe_state h_m" where
  "pxe_process_pair w name value st =
     (case name of
        Some n \<Rightarrow> pxe_pair w n value st
      | None \<Rightarrow>
          if strncaseeq value ''initrd='' (length ''initrd='') then pxe_pair w ''initrd'' (drop (length ''initrd='') value) st
          else Inr st)"

section \<open>iPXE\<close>

text \<open>The kernel with its arguments; without arguments the option gets no name.\<close>

definition ipxe_kernel :: "pxe_world \<Rightarrow> pxe_conf \<Rightarrow> string \<Rightarrow> string list \<Rightarrow> discover_boot_option \<Rightarrow> discover_boot_option h_m" where
  "ipxe_kernel w conf file words opt =
     hbind (pxe_url_join (px_pton w) (pc_conf_url conf) file) (\<lambda>url.
     let opt = opt\<lparr>dbo_boot_image := Some (create_url_resource url)\<rparr>
     in case words of
          [] \<Rightarrow> Inr opt
        | word # rest \<Rightarrow>
            (let (name, args) =
               (if strcaseeq word ''--name''
                then (case rest of [] \<Rightarrow> (Some ''malformed ipxe option'', []) | n # args \<Rightarrow> (Some n, args))
                else (None, words));
                 bo = foldl (\<lambda>o' a. pxe_append_string a o') (dbo_option opt) args
             in case name of
                  Some n \<Rightarrow> Inr (opt\<lparr>dbo_option := bo\<lparr>opt_name := Some n\<rparr>\<rparr>)
                | None \<Rightarrow>
                    (case url of
                       None \<Rightarrow> Inl Null_pointer
                     | Some u \<Rightarrow> Inr (opt\<lparr>dbo_option := bo\<lparr>opt_name := Some (''ipxe option ('' @ fmt_s (url_full u) @ '')'')\<rparr>\<rparr>))))"

text \<open>A command; \<open>True\<close> ends the file.\<close>

definition ipxe_command :: "pxe_world \<Rightarrow> pxe_conf \<Rightarrow> cstr \<Rightarrow> cstr \<Rightarrow> discover_boot_option \<Rightarrow> (bool \<times> discover_boot_option) h_m" where
  "ipxe_command w conf name value opt =
     (case name of
        None \<Rightarrow>
          Inr (False, if (case value of Some v \<Rightarrow> strcaseeq v ''boot'' | None \<Rightarrow> False)
                      then opt\<lparr>dbo_option := (dbo_option opt)\<lparr>opt_is_default := True\<rparr>\<rparr> else opt)
      | Some n \<Rightarrow>
          (case value of
             None \<Rightarrow> Inr (False, opt)
           | Some v \<Rightarrow>
               if strcaseeq n ''kernel''
               then (case strtok_all CHR '' '' v of
                       [] \<Rightarrow> Inr (True, opt)
                     | file # words \<Rightarrow> hbind (ipxe_kernel w conf file words opt) (\<lambda>opt. Inr (False, opt)))
               else if strcaseeq n ''initrd'' then hbind (pxe_resource w conf v) (\<lambda>res. Inr (False, opt\<lparr>dbo_initrd := res\<rparr>))
               else Inr (False, opt)))"

function ipxe_commands :: "pxe_world \<Rightarrow> pxe_conf \<Rightarrow> string \<Rightarrow> discover_boot_option \<Rightarrow> discover_boot_option h_m" where
  "ipxe_commands w conf p opt =
     hbind (conf_get_pair False p CHR '' '' CHR 0x0A) (\<lambda>(name, value, rest).
     hbind (ipxe_command w conf name value opt) (\<lambda>(stop, opt).
     case rest of
       None \<Rightarrow> Inr opt
     | Some p \<Rightarrow> if stop then Inr opt else ipxe_commands w conf p opt))"
  by pat_completeness auto

termination ipxe_commands
  by (relation "measure (\<lambda>(w, conf, p, opt). length p)") (auto dest: conf_get_pair_shorter)

declare ipxe_commands.simps [simp del]

text \<open>\<open>None\<close>: not an iPXE script.  The first line has to have an end.\<close>

definition ipxe_simple_parser :: "pxe_world \<Rightarrow> string \<Rightarrow> pxe_state \<Rightarrow> pxe_state option h_m" where
  "ipxe_simple_parser w buf st =
     (if \<not> strneq buf ''#!ipxe'' (length ''#!ipxe'') then Inr None
      else
        (case strchr buf CHR 0x0A of
           None \<Rightarrow> Inl Null_pointer
         | Some n \<Rightarrow>
             (case st of (conf, ctx, h) \<Rightarrow>
                (let (r, h) = discover_boot_option_create (ctx_device ctx) h
                 in hbind (get_opt h r) (\<lambda>opt.
                    hbind (get_dev h (ctx_device ctx)) (\<lambda>dev.
                    let bo = (dbo_option opt)\<lparr>opt_id := Some (fmt_s (dev_id (dd_device dev)) @ ''@'' @ px_pointer w r),
                                              opt_type := DISCOVER_BOOT_OPTION\<rparr>
                    in hbind (ipxe_commands w conf (drop (Suc n) buf) (opt\<lparr>dbo_option := bo\<rparr>)) (\<lambda>opt.
                       let h = put_opt r opt h
                       in if dbo_boot_image opt = None then Inr (Some (conf, ctx, h))
                          else hbind (discover_context_add_boot_option ctx r h) (\<lambda>(ctx, h). Inr (Some (conf, ctx, h))))))))))"

section \<open>Loading\<close>

text \<open>How \<^verbatim>\<open>load_url_async\<close> (\<^verbatim>\<open>discover/paths.c\<close>) begins: it fails, goes on in the background, or calls back at once with the local path.\<close>

datatype load_start = Load_failed | Load_pending | Load_local "string option"

definition load_url_async :: "pxe_world \<Rightarrow> pb_url \<Rightarrow> load_start" where
  "load_url_async w url =
     (if url_scheme url = pb_url_file
      then Load_local (case url_path url of Some p \<Rightarrow> if px_access w p then Some p else None | None \<Rightarrow> None)
      else if px_start w url then Load_pending else Load_failed)"

text \<open>The first file that was loaded: it is parsed up to its first NUL, and the options are committed here.\<close>

definition pxe_parse_file ::
    "pxe_world \<Rightarrow> resolvers \<Rightarrow> boot_env \<Rightarrow> pb_url \<Rightarrow> string \<Rightarrow> pxe_state \<Rightarrow> (discover_context \<times> device_handler) h_m" where
  "pxe_parse_file w rs env url buf st =
     (let buf = takeWhile (\<lambda>c. c \<noteq> NUL) buf
      in hbind (ipxe_simple_parser w buf st) (\<lambda>ipxe.
         hbind (case ipxe of
                  Some st \<Rightarrow> Inr st
                | None \<Rightarrow> hbind (conf_parse_buf CHR '' '' (pxe_process_pair w) True buf st) pxe_finish) (\<lambda>(conf, ctx, h).
         hbind (device_handler_discover_context_commit rs env ctx h) (\<lambda>h.
         hbind (get_dev h (ctx_device ctx)) (\<lambda>dev.
         Inr (ctx\<lparr>ctx_boot_options := []\<rparr>, device_handler_status STATUS_INFO (Parsed_pxe (dev_id (dd_device dev)) url) h))))))"

definition dev_status :: "status_type \<Rightarrow> (cstr \<Rightarrow> handler_msg) \<Rightarrow> nat \<Rightarrow> device_handler \<Rightarrow> device_handler h_m" where
  "dev_status t msg d h = hbind (get_dev h d) (\<lambda>dev. Inr (device_handler_status t (msg (dev_id (dd_device dev))) h))"

text \<open>The result is the position of the current name, or \<open>None\<close> when the configuration has been freed.  A local load calls back while
  \<^verbatim>\<open>load_url_async\<close> still works on a task that is freed with the configuration.  After a failed one the position is advanced twice; that it has
  advanced at all is written out for the termination.\<close>

function pxe_load_next_filename ::
      "pxe_world \<Rightarrow> resolvers \<Rightarrow> boot_env \<Rightarrow> pxe_conf \<Rightarrow> pb_url \<Rightarrow> string list \<Rightarrow> nat \<Rightarrow> discover_context \<Rightarrow> device_handler \<Rightarrow>
       (nat option \<times> discover_context \<times> device_handler) h_m"
  and pxe_conf_parse_cb ::
      "pxe_world \<Rightarrow> resolvers \<Rightarrow> boot_env \<Rightarrow> pxe_conf \<Rightarrow> (pb_url \<times> string list) option \<Rightarrow> nat \<Rightarrow> pb_url \<Rightarrow> string option \<Rightarrow> discover_context \<Rightarrow>
       device_handler \<Rightarrow> (nat option \<times> discover_context \<times> device_handler) h_m" where
  "pxe_load_next_filename w rs env conf base files cur ctx h =
     (if length files \<le> cur then Inr (Some cur, ctx, h)
      else
        hbind (map_sum Url_error id (pb_url_join (px_pton w) base (files ! cur))) (\<lambda>url.
        case url of
          None \<Rightarrow> pxe_load_next_filename w rs env conf base files (Suc cur) ctx h
        | Some u \<Rightarrow>
            (case load_url_async w u of
               Load_failed \<Rightarrow> pxe_load_next_filename w rs env conf base files (Suc cur) ctx h
             | Load_pending \<Rightarrow> Inr (Some cur, ctx, notify (Load_url u) h)
             | Load_local local \<Rightarrow>
                 hbind (pxe_conf_parse_cb w rs env conf (Some (base, files)) cur u local ctx h) (\<lambda>(alive, ctx, h).
                 case alive of
                   None \<Rightarrow> Inl Use_after_free
                 | Some cur' \<Rightarrow>
                     if local = None then pxe_load_next_filename w rs env conf base files (max (Suc cur) (Suc cur')) ctx h
                     else Inr (Some cur', ctx, h)))))"
| "pxe_conf_parse_cb w rs env conf files cur url local ctx h =
     (case Option.bind local (px_read w) of
        Some buf \<Rightarrow> hbind (pxe_parse_file w rs env url buf (conf, ctx, h)) (\<lambda>(ctx, h). Inr (None, ctx, h))
      | None \<Rightarrow>
          (case files of
             None \<Rightarrow> hbind (dev_status STATUS_ERROR (\<lambda>i. Download_failed i url) (ctx_device ctx) h) (\<lambda>h. Inr (Some cur, ctx, h))
           | Some (base, files) \<Rightarrow>
               hbind (pxe_load_next_filename w rs env conf base files (Suc cur) ctx h) (\<lambda>(alive, ctx, h).
               case alive of
                 None \<Rightarrow> Inl Use_after_free
               | Some cur \<Rightarrow>
                   if length files \<le> cur
                   then hbind (dev_status STATUS_ERROR Pxe_failed (ctx_device ctx) h) (\<lambda>h. Inr (None, ctx, h))
                   else Inr (Some cur, ctx, h))))"
  by pat_completeness auto

termination
  by (relation "measure (case_sum (\<lambda>(w, rs, env, conf, base, files, cur, ctx, h). if cur < length files then 2 * (length files - cur) else 0)
      (\<lambda>(w, rs, env, conf, files, cur, url, local, ctx, h). case files of None \<Rightarrow> 1 | Some (base, files) \<Rightarrow>
         if cur < length files then 2 * (length files - cur) - 1 else 1))") auto

declare pxe_load_next_filename.simps [simp del] pxe_conf_parse_cb.simps [simp del]

text \<open>A load that goes on: the configuration, the names to be tried with their base URL, and the position.\<close>

record pxe_load =
  pl_conf :: pxe_conf
  pl_files :: "(pb_url \<times> string list) option"
  pl_current :: nat

definition copy_context :: "pb_url \<Rightarrow> pxe_conf" where
  "copy_context conf_url = \<lparr>pc_info = \<lparr>pi_opt = None, pi_default_name = None, pi_proxy = None\<rparr>, pc_conf_url = conf_url\<rparr>"

definition pxe_parse ::
    "pxe_world \<Rightarrow> resolvers \<Rightarrow> boot_env \<Rightarrow> discover_context \<Rightarrow> device_handler \<Rightarrow> (pxe_load option \<times> discover_context \<times> device_handler) h_m" where
  "pxe_parse w rs env ctx h =
     (case ctx_event ctx of
        None \<Rightarrow> Inr (None, ctx, h)
      | Some event \<Rightarrow>
          hbind (user_event_parse_conf_url event) (\<lambda>(conf_url, complete_url).
          case conf_url of
            None \<Rightarrow> Inr (None, ctx, h)
          | Some url \<Rightarrow>
              (let conf = copy_context url
               in if complete_url
                  then
                    hbind (case event_get_param event ''pxeconffile-local'' of
                             Some s \<Rightarrow> map_sum Url_error id (pb_url_parse (Some s))
                           | None \<Rightarrow> Inr (Some url)) (\<lambda>file_url.
                    case file_url of
                      None \<Rightarrow> Inr (None, ctx, h)
                    | Some u \<Rightarrow>
                        hbind (dev_status STATUS_INFO (\<lambda>i. Requesting_config i url) (ctx_device ctx) h) (\<lambda>h.
                        case load_url_async w u of
                          Load_failed \<Rightarrow> Inr (None, ctx, h)
                        | Load_pending \<Rightarrow> Inr (Some \<lparr>pl_conf = conf, pl_files = None, pl_current = 0\<rparr>, ctx, notify (Load_url u) h)
                        | Load_local local \<Rightarrow>
                            hbind (pxe_conf_parse_cb w rs env conf None 0 u local ctx h) (\<lambda>(alive, ctx, h). Inr (None, ctx, h))))
                  else
                    (case user_event_parse_conf_filenames (px_words w) event of
                       None \<Rightarrow> Inr (None, ctx, h)
                     | Some files \<Rightarrow>
                         hbind (map_sum Url_error id (pb_url_join (px_pton w) url pxelinux_prefix)) (\<lambda>base_url.
                         case base_url of
                           None \<Rightarrow> Inr (None, ctx, h)
                         | Some base \<Rightarrow>
                             hbind (dev_status STATUS_INFO (\<lambda>i. Probing_base i base) (ctx_device ctx) h) (\<lambda>h.
                             hbind (pxe_load_next_filename w rs env conf base files 0 ctx h) (\<lambda>(alive, ctx, h).
                             Inr (case alive of
                                    Some cur \<Rightarrow> if cur < length files then Some \<lparr>pl_conf = conf, pl_files = Some (base, files), pl_current = cur\<rparr>
                                                else None
                                  | None \<Rightarrow> None, ctx, h))))))))"

text \<open>As one of the parsers; the load is among the handler's notifications.\<close>

definition pxe_parser :: "pxe_world \<Rightarrow> resolvers \<Rightarrow> boot_env \<Rightarrow> parser_fn" where
  "pxe_parser w rs env ctx h = hbind (pxe_parse w rs env ctx h) (\<lambda>(load, ctx, h). Inr (ctx, h))"

end
