(* ===== verification/User_Safe.thy ===== *)
theory User_Safe
  imports User_Event
begin

text \<open>
  What the device handler keeps while it handles user events: events of any contents use no freed object, as long as no listed device
  without a UUID has a name that the event could mean.
\<close>

section \<open>Devices of an event\<close>

text \<open>No listed device without a UUID has the identifier.\<close>

definition unambiguous :: "device_handler \<Rightarrow> string \<Rightarrow> bool" where
  "unambiguous h i \<longleftrightarrow>
     list_all (\<lambda>d. case h_dev h d of None \<Rightarrow> True | Some x \<Rightarrow> dd_uuid x = None \<longrightarrow> dev_id (dd_device x) \<noteq> Some i) (h_devices h)"

lemma unambiguousD: "unambiguous h i \<Longrightarrow> d \<in> set (h_devices h) \<Longrightarrow> h_dev h d = Some x \<Longrightarrow> device_match_id x i \<Longrightarrow> dd_uuid x \<noteq> None"
  by (auto simp: unambiguous_def list_all_iff device_match_id_def split: option.splits)

lemma context_ok_listed:
  "d \<in> set (h_devices h) \<Longrightarrow> h_dev h d = Some x \<Longrightarrow> dd_uuid x \<noteq> None \<Longrightarrow> context_ok h (device_handler_discover_context_create d ev)"
  by (simp add: context_ok_def device_handler_discover_context_create_def)

lemma create_device_context:
  assumes "handler_ok X h" "uuid = None \<Longrightarrow> unambiguous h did"
  shows "safely (\<lambda>(d, h'). handler_ok X h' \<and> context_ok h' (device_handler_discover_context_create d ev))
    (discover_device_create uuid did h)"
proof -
  let ?P = "\<lambda>found. case found of
      Some d \<Rightarrow> d \<in> set (h_devices h) \<and> (\<exists>x. h_dev h d = Some x \<and> dd_uuid x \<noteq> None)
    | None \<Rightarrow> \<forall>d \<in> set (h_devices h). \<forall>x. h_dev h d = Some x \<longrightarrow> dd_uuid x = uuid \<longrightarrow> uuid = None"
  have l: "safely ?P (case uuid of Some u \<Rightarrow> device_lookup_by_uuid h uuid | None \<Rightarrow> device_lookup_by_id h (Some did))"
  proof (cases uuid)
    case None
    show ?thesis unfolding None option.case device_lookup_by_id_def
      by (rule safely_mono[OF device_lookup_safe[OF assms(1)]])
        (use unambiguousD[OF assms(2)[OF None]] in \<open>auto split: option.splits\<close>)
  next
    case (Some u)
    show ?thesis unfolding Some option.case device_lookup_by_uuid_def
      by (rule safely_mono[OF device_lookup_safe[OF assms(1)]]) (auto simp: device_match_uuid_def split: option.splits)
  qed
  have fresh: "h_next h \<notin> set (h_devices h)" "h_dev h (h_next h) = None"
    using assms(1) by (auto simp: handler_ok_def fresh_ok_def devices_ok_def)
  have new: "handler_ok X (put_dev (h_next h) (discover_device_new uuid did) (h\<lparr>h_next := Suc (h_next h)\<rparr>))"
    by (rule handler_ok_new_device[OF assms(1)]) (simp_all add: discover_device_new_def)
  show ?thesis unfolding discover_device_create_def
    by (rule safely_hbind[OF l])
      (use assms(1) fresh new in \<open>auto split: option.splits intro!: context_ok_listed
        simp: context_ok_def device_handler_discover_context_create_def discover_device_new_def\<close>)
qed

lemma put_dev_context:
  assumes "handler_ok X h" "context_ok h ctx" "h_dev h d = Some dev" "dd_boot_options dev' = dd_boot_options dev"
    "dd_requery_waiter dev' = dd_requery_waiter dev" "dd_ramdisk dev' = dd_ramdisk dev" "dd_uuid dev' = dd_uuid dev"
  shows "handler_ok X (put_dev d dev' h)" "context_ok (put_dev d dev' h) ctx"
  using handler_ok_put_dev[OF assms(1,3-6)] context_ok_view[OF same_view_put_dev[OF assms(3,7,4)] assms(2)] by simp_all

lemma context_device: "context_ok h (device_handler_discover_context_create d ev) \<Longrightarrow> \<exists>dev. h_dev h d = Some dev"
  by (auto simp: context_ok_def device_handler_discover_context_create_def)

section \<open>Parts\<close>

lemma user_event_resource_safe: "safely (\<lambda>_. True) (user_event_resource event sig)"
  by (auto simp: user_event_resource_def safely_def hbind_def split: option.split sum.split)
     (auto simp: map_sum_def split: sum.splits)

lemma parse_user_event_safe:
  assumes "handler_ok X h" "context_ok h ctx"
  shows "safely (\<lambda>(rc, ctx, h). parsed_ok X (ctx, h)) (parse_user_event event ctx h)"
proof -
  obtain dev where dev: "h_dev h (ctx_device ctx) = Some dev" using assms(2) by (auto simp: context_ok_def)
  obtain r h' where c: "discover_boot_option_create (ctx_device ctx) h = (r, h')" by force
  note made = create_keeps[OF assms c]
  obtain opt where opt: "h_opt h' r = Some opt" using pending_live[OF made(3)] by blast
  have drop: "handler_ok X (free_opt r h')" "context_ok (free_opt r h') ctx" using drop_keeps[OF made] by simp_all
  let ?Q = "\<lambda>(rc :: int, ctx, h). handler_ok X h \<and> context_ok h ctx"
  have add: "safely ?Q (hbind (discover_context_add_boot_option ctx r (put_opt r opt' h')) (\<lambda>(ctx, h). Inr (0, ctx, h)))"
    if "dbo_device opt' = dbo_device opt" for opt'
    by (rule safely_hbind[OF add_option_keeps[OF assms c opt that]]) auto
  have res: "safely ?Q (hbind (user_event_resource event sig) k)" if "\<And>x. safely ?Q (k x)" for sig k
    by (rule safely_hbind[OF user_event_resource_safe that])
  have "safely ?Q (parse_user_event event ctx h)" unfolding parse_user_event_def c
    using dev opt drop by (auto intro!: res add split: option.split)
  then show ?thesis by simp
qed

lemma on_handler_safe: "safely P m \<Longrightarrow> safely (\<lambda>(rc, st). P (us_handler st)) (on_handler m rc st)"
  unfolding on_handler_def by (rule safely_hbind) auto

lemma owned:
  assumes "handler_ok X h" "owns (h_dev h) d r"
  shows "\<exists>rd. h_rd h r = Some rd \<and> rd_base rd \<noteq> None"
proof -
  have "\<forall>d r. owns (h_dev h) d r \<longrightarrow> (\<exists>y. h_rd h r = Some y \<and> rd_base y \<noteq> None)"
    using assms(1) by (simp add: handler_ok_def ramdisks_ok_def)
  then show ?thesis using assms(2) by blast
qed

lemma handler_ok_same_base:
  assumes "handler_ok X h" "h_rd h r = Some rd" "rd_base rd' = rd_base rd"
  shows "handler_ok X (put_rd r rd' h)"
proof -
  have "ramdisks_ok (h_ramdisks h) ((h_rd h)(r := Some rd')) (h_dev h)"
    unfolding ramdisks_ok_def
  proof (intro conjI ballI allI impI)
    show "((h_rd h)(r := Some rd')) s \<noteq> None" if "s \<in> set (h_ramdisks h)" for s
      using assms(1) that by (auto simp: handler_ok_def ramdisks_ok_def)
    show "\<exists>y. ((h_rd h)(r := Some rd')) s = Some y \<and> rd_base y \<noteq> None" if "owns (h_dev h) d s" for d s
      using owned[OF assms(1) that] assms(2,3) by auto
    have u: "\<forall>d d' r. owns (h_dev h) d r \<longrightarrow> owns (h_dev h) d' r \<longrightarrow> d' = d" using assms(1) by (simp add: handler_ok_def ramdisks_ok_def)
    show "d' = d" if "owns (h_dev h) d s" "owns (h_dev h) d' s" for d d' s using u that by blast
  qed
  then show ?thesis using assms(1,2) by (auto simp: put_rd_def handler_ok_def fresh_ok_def)
qed

lemma put_rd_devs: "h_dev (put_rd r rd h) = h_dev h" "h_devices (put_rd r rd h) = h_devices h"
  by (simp_all add: put_rd_def)

lemma merge_safe: "safely (\<lambda>(rc, rd'). rd_base rd' = rd_base rd) (devmapper_merge_snapshot env dev rd)"
  by (auto simp: devmapper_merge_snapshot_def create_snapshot_def Let_def split: option.split)

lemma release_write_safe:
  assumes "handler_ok X h" "h_dev h d = Some dev"
  shows "safely (\<lambda>h'. handler_ok X h' \<and> h_dev h' = h_dev h \<and> h_devices h' = h_devices h) (device_release_write env d release h)"
proof -
  have "safely (\<lambda>h'. handler_ok X h' \<and> h_dev h' = h_dev h \<and> h_devices h' = h_devices h)
      (hbind (get_rd h r) (\<lambda>rd. hbind (devmapper_merge_snapshot env dev rd) (\<lambda>(rc, rd). Inr (put_rd r rd h))))"
    if own: "dd_ramdisk dev = Some r" for r
  proof -
    obtain rd where rd: "h_rd h r = Some rd"
      using owned[OF assms(1), of d r] assms(2) own by (auto simp: owns_def)
    show ?thesis using rd
      by (auto intro!: safely_hbind[OF merge_safe] handler_ok_same_base[OF assms(1) rd] simp: put_rd_devs split: prod.splits)
  qed
  then show ?thesis using assms by (auto simp: device_release_write_def split: option.split)
qed

lemma listed_live: "handler_ok X h \<Longrightarrow> d \<in> set (h_devices h) \<Longrightarrow> \<exists>dev. h_dev h d = Some dev"
  by (auto simp: handler_ok_def devices_ok_def)

lemma sync_all_safe: "handler_ok X h \<Longrightarrow> set ds \<subseteq> set (h_devices h) \<Longrightarrow> safely (handler_ok X) (sync_all env ds h)"
proof (induction ds arbitrary: h)
  case (Cons d ds)
  then obtain dev where dev: "h_dev h d = Some dev" using listed_live by fastforce
  show ?case using Cons dev
    by (auto intro!: safely_hbind[OF release_write_safe[OF Cons.prems(1) dev]])
qed simp

definition short_name :: "string \<Rightarrow> string" where
  "short_name name = (if strneq name ''/dev/'' 5 then drop 5 name else name)"

lemma lookup_by_name_short: "device_lookup_by_name h name = device_lookup h device_match_id (Some (short_name name))"
  by (simp add: device_lookup_by_name_def device_lookup_by_id_def short_name_def eval_nat_numeral)

lemma lookup_by_name_safe:
  "handler_ok X h \<Longrightarrow> safely (\<lambda>r. \<forall>d. r = Some d \<longrightarrow> d \<in> set (h_devices h) \<and> (\<exists>dev. h_dev h d = Some dev \<and>
     device_match_id dev (short_name name))) (device_lookup_by_name h name)"
  unfolding lookup_by_name_short by (rule safely_mono[OF device_lookup_safe]) (auto split: option.splits)

lemma sync_snapshots_safe:
  assumes "handler_ok X h"
  shows "safely (handler_ok X) (device_sync_snapshots env device h)"
proof -
  have "safely (handler_ok X) (device_release_write env d True h)" if "h_dev h d = Some dev" for d dev
    by (rule safely_mono[OF release_write_safe[OF assms that]]) simp
  then show ?thesis using assms
    by (auto simp: device_sync_snapshots_def split: option.split intro!: sync_all_safe safely_hbind[OF lookup_by_name_safe[OF assms]])
qed

lemma plugin_path_safe: "safely (\<lambda>_. True) (plugin_path m p)"
  by (simp add: plugin_path_def)

section \<open>Events\<close>

lemma user_event_remove_safe:
  assumes "handler_ok {} (us_handler st)"
  shows "safely (\<lambda>(rc, st). handler_ok {} (us_handler st)) (user_event_remove event st)"
proof -
  have r: "safely (\<lambda>(rc, st). handler_ok {} (us_handler st)) (on_handler (device_handler_remove d (us_handler st)) 0 st)"
    if "h_dev (us_handler st) d = Some dev" for d dev
    by (rule on_handler_safe[OF safely_mono[OF device_handler_remove_safe[OF assms that]]]) simp
  have l: "safely (\<lambda>f. \<forall>d. f = Some d \<longrightarrow> (\<exists>dev. h_dev (us_handler st) d = Some dev)) (device_lookup (us_handler st) match str)" for match str
    by (rule safely_mono[OF device_lookup_safe[OF assms]]) (auto split: option.splits)
  show ?thesis unfolding user_event_remove_def device_lookup_by_uuid_def device_lookup_by_id_def
    by (rule safely_hbind[where Q="\<lambda>f. \<forall>d. f = Some d \<longrightarrow> (\<exists>dev. h_dev (us_handler st) d = Some dev)"])
      (use assms l r in \<open>auto split: option.splits\<close>)
qed

lemma user_event_boot_safe:
  assumes "handler_ok X (us_handler st)"
  shows "safely (\<lambda>(rc, st). handler_ok X (us_handler st)) (user_event_boot env event st)"
proof -
  have "safely (\<lambda>r. \<forall>x. r = Some x \<longrightarrow> h_opt (us_handler st) x \<noteq> None) (device_handler_find_option_by_name (us_handler st) d n)" for d n
    unfolding device_handler_find_option_by_name_def
    by (rule find_in_devices_safe[OF assms subset_refl safely_True_hbind[OF strcmp_eq_safe]]) (simp add: strcmp_eq_safe)
  then show ?thesis
    by (auto simp: user_event_boot_def Let_def split: option.split
        intro!: on_handler_safe device_handler_boot_safe safely_hbind[of _ "device_handler_find_option_by_name (us_handler st) _ _"] assms)
qed

text \<open>A remote file is loaded first.\<close>

definition remote_file :: "string \<Rightarrow> bool" where
  "remote_file url \<longleftrightarrow> url \<noteq> [] \<and> last url \<noteq> CHR ''/'' \<and>
     (case pb_url_parse (Some url) of Inr (Some u) \<Rightarrow> url_scheme u \<noteq> pb_url_file | _ \<Rightarrow> True)"

text \<open>What an event needs besides a consistent handler: a device that it names is not a listed one without a UUID, a URL is that of a remote
  file, and a DHCP event is one that the parsers admit.\<close>

definition event_admitted :: "(event \<Rightarrow> bool) \<Rightarrow> device_handler \<Rightarrow> event \<Rightarrow> bool" where
  "event_admitted admit h event =
     (case ev_action event of
        EVENT_ACTION_ADD \<Rightarrow> event_get_param event ''mac'' = None \<longrightarrow> unambiguous h (ev_device event)
      | EVENT_ACTION_URL \<Rightarrow> pred_option remote_file (event_get_param event ''url'')
      | EVENT_ACTION_DHCP \<Rightarrow> admit event
      | EVENT_ACTION_PLUGIN \<Rightarrow> unambiguous h (short_name (ev_device event))
      | _ \<Rightarrow> True)"

context resolver
begin

lemma uninstalled_plugin_safe:
  assumes "handler_ok X (us_handler st)" "unambiguous (us_handler st) (short_name (ev_device event))" "ue_resolvers env = rs"
  shows "safely (\<lambda>(rc, st). handler_ok X (us_handler st)) (process_uninstalled_plugin env event st)"
proof -
  let ?h = "us_handler st" and ?P = "\<lambda>(rc :: int, st). handler_ok X (us_handler st)"
  have "safely ?P (let ctx = device_handler_discover_context_create d None; (r, h) = discover_boot_option_create d ?h
     in hbind (get_dev h d) (\<lambda>dev. hbind (get_opt h r) (\<lambda>file_opt. case dd_mount_path dev of None \<Rightarrow> Inl Null_pointer
     | Some mount_path \<Rightarrow> hbind (plugin_path mount_path path) (\<lambda>path. hbind (resolve_resource_against_device dev (Some path)) (\<lambda>res.
        let opt = f dev r file_opt in hbind (discover_context_add_boot_option ctx r
             (put_opt r (file_opt\<lparr>dbo_option := opt, dbo_boot_image := Some res\<rparr>) h)) (\<lambda>(ctx, h).
            on_handler (device_handler_discover_context_commit (ue_resolvers env) (ue_boot env) ctx h) 0 st))))))"
    if "d \<in> set (h_devices ?h)" "h_dev ?h d = Some dev" "dd_uuid dev \<noteq> None" for d dev path f
  proof -
    let ?ctx = "device_handler_discover_context_create d None"
    have ctx: "context_ok ?h ?ctx" by (rule context_ok_listed[OF that])
    obtain r h where c: "discover_boot_option_create (ctx_device ?ctx) ?h = (r, h)" by force
    note made = create_keeps[OF assms(1) ctx c]
    obtain opt where opt: "h_opt h r = Some opt" using pending_live[OF made(3)] by blast
    obtain dev' where dev': "h_dev h d = Some dev'" using context_device[OF made(2)] by blast
    have add: "safely ?P (hbind (discover_context_add_boot_option ?ctx r (put_opt r opt' h)) (\<lambda>(ctx, h).
         on_handler (device_handler_discover_context_commit (ue_resolvers env) (ue_boot env) ctx h) 0 st))"
      if "dbo_device opt' = dbo_device opt" for opt'
      by (rule safely_hbind[OF add_option_keeps[OF assms(1) ctx c opt that]])
        (auto simp: assms(3) intro!: on_handler_safe commit_safe)
    show ?thesis using c dev' opt
      by (auto simp: device_handler_discover_context_create_def Let_def split: option.split
          intro!: safely_True_hbind[OF plugin_path_safe] safely_True_hbind[OF resolve_against_safe] add[unfolded device_handler_discover_context_create_def])
  qed
  then show ?thesis unfolding process_uninstalled_plugin_def
    using unambiguousD[OF assms(2)] assms(1)
    by (auto split: option.split intro!: safely_hbind[OF lookup_by_name_safe[OF assms(1)]])
qed

lemma user_event_add_safe:
  assumes "handler_ok X (us_handler st)" "event_get_param event ''mac'' = None \<Longrightarrow> unambiguous (us_handler st) (ev_device event)"
    "ue_resolvers env = rs"
  shows "safely (\<lambda>(rc, st). handler_ok X (us_handler st)) (user_event_add env event st)"
  unfolding user_event_add_def
proof (rule safely_hbind[OF create_device_context[where ev=None, OF assms(1,2)]])
  let ?P = "\<lambda>(rc :: int, st). handler_ok X (us_handler st)"
  fix dh assume ok: "case dh of (d, h) \<Rightarrow> handler_ok X h \<and> context_ok h (device_handler_discover_context_create d None)"
  obtain d h where dh: "dh = (d, h)" by force
  let ?ctx = "device_handler_discover_context_create d None"
  have ok: "handler_ok X h" "context_ok h ?ctx" using ok dh by simp_all
  obtain dev where dev: "h_dev h d = Some dev" using context_device[OF ok(2)] by blast
  let ?h = "put_dev d (dev\<lparr>dd_device := (dd_device dev)\<lparr>dev_id := Some (ev_device event)\<rparr>\<rparr>) h"
  have p: "handler_ok X ?h" "context_ok ?h ?ctx" by (rule put_dev_context[OF ok dev]; simp)+
  have "safely ?P (hbind (parse_user_event event ?ctx ?h) (\<lambda>(rc, ctx, h). if rc \<noteq> 0 then Inr (rc, st\<lparr>us_handler := h\<rparr>)
        else on_handler (device_handler_discover_context_commit (ue_resolvers env) (ue_boot env) ctx h) 0 st))"
    by (rule safely_hbind[OF parse_user_event_safe[OF p]]) (auto simp: assms(3) intro!: on_handler_safe commit_safe)
  then show "safely ?P (case dh of (d, h) \<Rightarrow> hbind (get_dev h d) (\<lambda>dev.
     let h = put_dev d (dev\<lparr>dd_device := (dd_device dev)\<lparr>dev_id := Some (ev_device event)\<rparr>\<rparr>) h
     in hbind (parse_user_event event (device_handler_discover_context_create d None) h) (\<lambda>(rc, ctx, h).
        if rc \<noteq> 0 then Inr (rc, st\<lparr>us_handler := h\<rparr>)
        else on_handler (device_handler_discover_context_commit (ue_resolvers env) (ue_boot env) ctx h) 0 st)))"
    using dev by (simp add: dh)
qed simp

lemma process_url_remote_safe:
  assumes "handler_ok X h" "remote_file url"
  shows "safely (handler_ok X) (device_handler_process_url parsers rs env route async url None None h)"
proof -
  have ev: "safely (\<lambda>_. True) (url_set_param n v e)" for n v e
    by (cases v; cases "event_set_param e n (the v)") (auto simp: url_set_param_def)
  show ?thesis using assms
    by (cases "pb_url_parse (Some url)")
      (auto simp: device_handler_process_url_def remote_file_def Let_def split: option.split intro!: safely_True_hbind[OF ev])
qed

lemma user_event_handler_safe:
  assumes "handler_ok {} (us_handler st)" "event_admitted admit (us_handler st) event" "ue_resolvers env = rs"
    "ev_action event = EVENT_ACTION_DHCP \<Longrightarrow> safely (\<lambda>(rc, st). handler_ok {} (us_handler st)) (user_event_dhcp env event st)"
  shows "safely (\<lambda>(rc, st). handler_ok {} (us_handler st)) (user_event env event st)"
proof -
  have "safely (\<lambda>(rc, st). handler_ok {} (us_handler st)) (user_event_url env event st)" if "ev_action event = EVENT_ACTION_URL"
    using assms that process_url_remote_safe[of "{}" "us_handler st"]
    by (auto simp: user_event_url_def event_admitted_def split: option.split intro!: on_handler_safe)
  then show ?thesis
    using assms by (cases "ev_action event")
      (auto simp: user_event_def event_admitted_def user_event_sync_def user_event_plugin_def split: option.split
        intro!: user_event_add_safe user_event_remove_safe user_event_boot_safe on_handler_safe sync_snapshots_safe
          add_plugin_option_safe uninstalled_plugin_safe)
qed

end

section \<open>The information about the machine\<close>

lemma on_handler_sysinfo: "on_handler m rc st = Inr (rc', st') \<Longrightarrow> us_sysinfo st' = us_sysinfo st"
  by (cases m) (auto simp: on_handler_def)

lemma user_event_sysinfo:
  assumes "user_event env event st = Inr (rc, st')" "sysinfo_ok (us_sysinfo st)"
  shows "sysinfo_ok (us_sysinfo st')"
proof -
  have set: "system_info_set_interface_address pton hwaddr address (us_sysinfo st) = (i, t) \<Longrightarrow> sysinfo_ok i" for pton hwaddr address i t
    using sysinfo_ok_ops(2)[OF assms(2), of pton hwaddr address] by simp
  show ?thesis using assms
    by (cases "ev_action event")
      (auto simp: user_event_def user_event_add_def user_event_remove_def user_event_url_def user_event_dhcp_def user_event_boot_def
        user_event_sync_def user_event_plugin_def process_uninstalled_plugin_def hbind_def Let_def
        split: option.splits sum.splits prod.splits if_splits dest!: on_handler_sysinfo dest: set)
qed

end
