(* ===== verification/Pxe_Safe.thy ===== *)
theory Pxe_Safe
  imports Pxe User_Safe Parser_Props
begin

text \<open>
  The PXE parser keeps the handler consistent: while it reads a file, and when a load ends later.  It commits the options itself and the caller
  commits the context again, so that its device needs a UUID; and the names must not be those of local files.
\<close>

section \<open>Contexts of an event\<close>

text \<open>The device has a UUID, and stays the same, as the event does.\<close>

definition event_ok :: "(nat + nat) set \<Rightarrow> nat \<Rightarrow> event option \<Rightarrow> discover_context \<times> device_handler \<Rightarrow> bool" where
  "event_ok X d ev = (\<lambda>(ctx, h). handler_ok X h \<and> context_ok h ctx \<and> ctx_device ctx = d \<and> ctx_event ctx = ev \<and>
     (\<exists>dev. h_dev h d = Some dev \<and> dd_uuid dev \<noteq> None))"

lemma event_ok_pair: "event_ok X d ev (ctx, h) \<longleftrightarrow> handler_ok X h \<and> context_ok h ctx \<and> ctx_device ctx = d \<and> ctx_event ctx = ev \<and>
     (\<exists>dev. h_dev h d = Some dev \<and> dd_uuid dev \<noteq> None)"
  by (simp add: event_ok_def)

lemma event_okD:
  assumes "event_ok X d ev (ctx, h)"
  shows "handler_ok X h" "context_ok h ctx" "ctx_device ctx = d" "ctx_event ctx = ev"
  using assms by (simp_all add: event_ok_pair)

lemma event_ok_view:
  assumes "event_ok X d ev (ctx, h)" "same_view h h'" "handler_ok X h'"
  shows "event_ok X d ev (ctx, h')"
proof -
  obtain dev where "h_dev h d = Some dev" "dd_uuid dev \<noteq> None" using assms(1) by (auto simp: event_ok_pair)
  then obtain dev' where "h_dev h' d = Some dev'" "dd_uuid dev' \<noteq> None" using same_view_dev[OF assms(2)] by fastforce
  then show ?thesis using assms context_ok_view[OF assms(2)] by (auto simp: event_ok_pair)
qed

lemma event_ok_status [simp]:
  "event_ok X d ev (ctx, device_handler_status t m h) \<longleftrightarrow> event_ok X d ev (ctx, h)"
  "event_ok X d ev (ctx, notify n h) \<longleftrightarrow> event_ok X d ev (ctx, h)"
  by (auto simp: event_ok_pair context_ok_def loose_def device_handler_status_def notify_def handler_ok_def)

lemma event_ok_fill:
  assumes "event_ok X d ev (ctx, h)" "h_opt h r = Some opt" "dbo_device opt' = dbo_device opt"
  shows "event_ok X d ev (ctx, put_opt r opt' h)"
  by (rule event_ok_view[OF assms(1) same_view_put_opt[OF assms(2,3)] fill_keeps(1)[OF event_okD(1,2)[OF assms(1)] assms(2,3)]])

lemma event_ok_create:
  assumes "event_ok X d ev (ctx, h)" "discover_boot_option_create d h = (r, h')"
  shows "event_ok X d ev (ctx, h')" "pending h' ctx r"
proof -
  note ok = event_okD[OF assms(1)]
  note made = create_keeps[OF ok(1,2), unfolded ok(3), OF assms(2)]
  show "event_ok X d ev (ctx, h')"
    using event_ok_view[OF assms(1) _ made(1)] create_view[OF ok(1), of d] assms(2) by simp
  show "pending h' ctx r" using made(3) .
qed

lemma event_ok_add:
  assumes "event_ok X d ev (ctx, h)" "pending h ctx r"
  shows "safely (event_ok X d ev) (discover_context_add_boot_option ctx r h)"
proof -
  note ok = event_okD[OF assms(1)]
  obtain opt where opt: "h_opt h r = Some opt" using pending_live[OF assms(2)] by blast
  let ?opt = "opt\<lparr>dbo_source := ctx_parser ctx\<rparr>"
  have "event_ok X d ev (ctx, put_opt r ?opt h)" by (rule event_ok_fill[OF assms(1) opt]) simp
  moreover have "parsed_ok X (ctx\<lparr>ctx_boot_options := ctx_boot_options ctx @ [r]\<rparr>, put_opt r ?opt h)"
    using add_keeps[OF ok(1,2) assms(2)] opt by (simp add: discover_context_add_boot_option_def)
  ultimately show ?thesis using opt by (simp add: discover_context_add_boot_option_def event_ok_pair)
qed

lemma event_ok_live: "event_ok X d ev (ctx, h) \<Longrightarrow> \<exists>dev. h_dev h d = Some dev"
  by (auto simp: event_ok_pair)

lemma tagged_live: "tagged h d \<Longrightarrow> \<exists>dev. h_dev h d = Some dev"
  by (auto simp: tagged_def)

lemma tagged_event_ok:
  "tagged h (ctx_device ctx) \<Longrightarrow> handler_ok X h \<Longrightarrow> event_ok X (ctx_device ctx) (ctx_event ctx) (ctx\<lparr>ctx_boot_options := []\<rparr>, h)"
  by (auto simp: tagged_def event_ok_pair context_ok_def)

text \<open>The context of a device that was looked up or made by its hardware address.\<close>

lemma create_event_context:
  assumes "handler_ok X h"
  shows "safely (\<lambda>(d, h'). event_ok X d ev (device_handler_discover_context_create d ev, h')) (discover_device_create (Some mac) did h)"
proof -
  have l: "safely (\<lambda>found. \<forall>d. found = Some d \<longrightarrow> (\<exists>dev. h_dev h d = Some dev \<and> dd_uuid dev \<noteq> None)) (device_lookup_by_uuid h (Some mac))"
    unfolding device_lookup_by_uuid_def
    by (rule safely_mono[OF device_lookup_safe[OF assms]]) (auto simp: device_match_uuid_def split: option.splits)
  have "safely (\<lambda>(d, h'). \<exists>dev. h_dev h' d = Some dev \<and> dd_uuid dev \<noteq> None) (discover_device_create (Some mac) did h)"
    unfolding discover_device_create_def option.case
    by (rule safely_hbind[OF l]) (auto simp: discover_device_new_def split: option.split)
  then show ?thesis using create_device_context[OF assms, of "Some mac" did ev]
    by (cases "discover_device_create (Some mac) did h")
      (auto simp: event_ok_pair device_handler_discover_context_create_def)
qed

section \<open>Files\<close>

definition pxe_ok :: "(nat + nat) set \<Rightarrow> nat \<Rightarrow> event option \<Rightarrow> pxe_state \<Rightarrow> bool" where
  "pxe_ok X d ev = (\<lambda>(conf, ctx, h). event_ok X d ev (ctx, h) \<and> (\<forall>r. pi_opt (pc_info conf) = Some r \<longrightarrow> pending h ctx r))"

lemma pxe_ok_triple: "pxe_ok X d ev (conf, ctx, h) \<longleftrightarrow> event_ok X d ev (ctx, h) \<and> (\<forall>r. pi_opt (pc_info conf) = Some r \<longrightarrow> pending h ctx r)"
  by (simp add: pxe_ok_def)

lemma pxe_ok_event: "pxe_ok X d ev st \<Longrightarrow> event_ok X d ev (snd st)"
  by (auto simp: pxe_ok_def)

lemma pxe_finish_safe:
  assumes "pxe_ok X d ev st"
  shows "safely (\<lambda>st. pxe_ok X d ev st \<and> pi_opt (pc_info (fst st)) = None) (pxe_finish st)"
proof -
  obtain conf ctx h where st: "st = (conf, ctx, h)" by (cases st) auto
  have ok: "event_ok X d ev (ctx, h)" using assms by (simp add: st pxe_ok_triple)
  let ?Q = "\<lambda>st. pxe_ok X d ev st \<and> pi_opt (pc_info (fst st)) = None"
  have add: "safely ?Q (hbind (discover_context_add_boot_option ctx r h') (\<lambda>(ctx, h). Inr (conf\<lparr>pc_info := (pc_info conf)\<lparr>pi_opt := None\<rparr>\<rparr>, ctx, h)))"
    if "event_ok X d ev (ctx, h')" "pending h' ctx r" for r h'
    by (rule safely_hbind[OF event_ok_add[OF that]]) (auto simp: pxe_ok_triple)
  show ?thesis
  proof (cases "pi_opt (pc_info conf)")
    case (Some r)
    have p: "pending h ctx r" using assms Some by (simp add: st pxe_ok_triple)
    obtain opt where opt: "h_opt h r = Some opt" using pending_live[OF p] by blast
    have "event_ok X d ev (ctx, put_opt r (opt\<lparr>dbo_proxy := x\<rparr>) h)" "pending (put_opt r (opt\<lparr>dbo_proxy := x\<rparr>) h) ctx r" for x
      using event_ok_fill[OF ok opt] fill_keeps(3)[OF event_okD(1,2)[OF ok] opt _ p] by simp_all
    then show ?thesis using Some opt add ok p by (auto simp: st pxe_finish_def Let_def split: option.split)
  qed (use assms in \<open>simp add: st pxe_finish_def\<close>)
qed

lemma pxe_finish_event: "pxe_ok X d ev st \<Longrightarrow> safely (\<lambda>st. event_ok X d ev (snd st)) (pxe_finish st)"
  by (rule safely_mono[OF pxe_finish_safe]) (auto dest: pxe_ok_event)

lemma map_sum_url_safe [simp]: "safely (\<lambda>_. True) (map_sum Url_error f m)"
  by (cases m) simp_all

lemma pxe_url_join_safe: "safely (\<lambda>_. True) (pxe_url_join pton url s)"
  by (simp add: pxe_url_join_def)

lemma pxe_resource_safe: "safely (\<lambda>_. True) (pxe_resource w conf s)"
  by (simp add: pxe_resource_def safely_True_hbind[OF pxe_url_join_safe])

lemma find_mac_safe: "safely (\<lambda>_. True) (find_mac_by_name name h)"
  by (auto simp: find_mac_by_name_def find_interface_by_name_def intro!: safely_True_hbind intro: safely_mono[OF find_interface_safe])

lemma safely_if: "safely P a \<Longrightarrow> safely P b \<Longrightarrow> safely P (if c then a else b)"
  by simp

lemma sysappend_safe: "safely (\<lambda>_. True) (pxe_process_sysappend ctx h val opt)"
  by (auto simp: pxe_process_sysappend_def split: option.split intro!: safely_True_hbind[OF find_mac_safe])

lemma pxe_option_pair_safe: "safely (\<lambda>o'. dbo_device o' = dbo_device opt) (pxe_option_pair w conf ctx h name value opt)"
proof -
  let ?P = "\<lambda>o'. dbo_device o' = dbo_device opt"
  have res: "safely ?P (hbind (pxe_resource w conf s) k)" if "\<And>x. safely ?P (k x)" for s k
    by (rule safely_True_hbind[OF pxe_resource_safe that])
  have app: "safely ?P (let (type, end) = strtoul value 10 in if end \<noteq> 0 \<and> end = length value
      then hbind (pxe_process_sysappend ctx h type (dbo_option opt)) (\<lambda>o'. Inr (opt\<lparr>dbo_option := o'\<rparr>)) else Inr opt)"
    by (auto split: prod.split intro!: safely_True_hbind[OF sysappend_safe])
  have ini: "safely ?P (let opt = opt\<lparr>dbo_option := bo\<rparr> in case i of None \<Rightarrow> Inr opt
      | Some n \<Rightarrow> hbind (pxe_resource w conf (f n)) (\<lambda>res. Inr (opt\<lparr>dbo_initrd := res\<rparr>)))" for bo i f
    by (auto simp: Let_def split: option.split intro!: res)
  show ?thesis unfolding pxe_option_pair_def by (intro safely_if res app ini) simp_all
qed

lemma pxe_new_option_safe:
  assumes "pxe_ok X d ev st"
  shows "safely (pxe_ok X d ev) (pxe_new_option w name value st)"
proof -
  obtain conf ctx h where st: "st = (conf, ctx, h)" by (cases st) auto
  have ok: "event_ok X d ev (ctx, h)" using assms by (simp add: st pxe_ok_triple)
  obtain r h' where c: "discover_boot_option_create d h = (r, h')" by force
  note made = event_ok_create[OF ok c]
  obtain opt where opt: "h_opt h' r = Some opt" using pending_live[OF made(2)] by blast
  obtain dev where dev: "h_dev h' d = Some dev" using event_ok_live[OF made(1)] by blast
  have "pxe_ok X d ev (conf\<lparr>pc_info := (pc_info conf)\<lparr>pi_opt := Some r\<rparr>\<rparr>, ctx, put_opt r (opt\<lparr>dbo_option := bo\<rparr>) h')" for bo
    using event_ok_fill[OF made(1) opt] fill_keeps(3)[OF event_okD(1,2)[OF made(1)] opt _ made(2)] by (simp add: pxe_ok_triple)
  then show ?thesis using c opt dev event_okD(3)[OF ok] by (simp add: st pxe_new_option_def Let_def)
qed

lemma pxe_pair_safe:
  assumes "pxe_ok X d ev st"
  shows "safely (pxe_ok X d ev) (pxe_pair w n v st)"
proof -
  obtain conf ctx h where st: "st = (conf, ctx, h)" by (cases st) auto
  have ok: "event_ok X d ev (ctx, h)" using assms by (simp add: st pxe_ok_triple)
  have new: "safely (pxe_ok X d ev) (hbind (pxe_finish (conf, ctx, h)) (pxe_new_option w n v))"
      "safely (pxe_ok X d ev) (pxe_new_option w n v (conf, ctx, h))" for n v
    using assms safely_hbind[OF pxe_finish_safe[OF assms]] by (auto simp: st intro: pxe_new_option_safe)
  have upd: "pxe_ok X d ev (conf\<lparr>pc_info := f (pc_info conf)\<rparr>, ctx, h)" if "\<And>i. pi_opt (f i) = pi_opt i" for f
    using assms that by (simp add: st pxe_ok_triple)
  have pair: "safely (pxe_ok X d ev) (hbind (get_opt h r) (\<lambda>opt. hbind (pxe_option_pair w conf ctx h n v opt) (\<lambda>opt. Inr (conf, ctx, put_opt r opt h))))"
    if r: "pi_opt (pc_info conf) = Some r" for r n v
  proof -
    have p: "pending h ctx r" using assms r by (simp add: st pxe_ok_triple)
    obtain opt where opt: "h_opt h r = Some opt" using pending_live[OF p] by blast
    have "pxe_ok X d ev (conf, ctx, put_opt r opt' h)" if "dbo_device opt' = dbo_device opt" for opt'
      using event_ok_fill[OF ok opt that] fill_keeps(3)[OF event_okD(1,2)[OF ok] opt that] assms by (simp add: st pxe_ok_triple)
    then show ?thesis using opt by (auto intro!: safely_hbind[OF pxe_option_pair_safe])
  qed
  show ?thesis using assms new pair upd by (simp add: st pxe_pair_def split: option.split)
qed

lemma pxe_process_pair_safe: "pxe_ok X d ev st \<Longrightarrow> safely (pxe_ok X d ev) (pxe_process_pair w name value st)"
  by (auto simp: pxe_process_pair_def pxe_pair_safe split: option.split)

lemma ipxe_kernel_safe: "safely (\<lambda>o'. dbo_device o' = dbo_device opt) (ipxe_kernel w conf file words opt)"
  unfolding ipxe_kernel_def
  by (rule safely_True_hbind[OF pxe_url_join_safe]) (auto simp: Let_def split: list.split option.split)

lemma ipxe_command_safe: "safely (\<lambda>(stop, o'). dbo_device o' = dbo_device opt) (ipxe_command w conf name value opt)"
  by (auto simp: ipxe_command_def split: option.split list.split
      intro!: safely_hbind[OF ipxe_kernel_safe] safely_True_hbind[OF pxe_resource_safe])

lemma conf_get_pair_safe: "safely (\<lambda>(name, value, rest). \<forall>p. rest = Some p \<longrightarrow> length p < length str) (conf_get_pair start str d t)"
proof (cases "conf_get_pair start str d t")
  case (Inl e)
  have "safely (\<lambda>_. True) (conf_strip_str b x)" for b x by (simp add: conf_strip_str_def Let_def)
  then have "safely (\<lambda>_. True) (conf_get_pair start str d t)"
    by (auto simp: conf_get_pair_def split: option.split intro!: safely_True_hbind)
  then show ?thesis using Inl by simp
qed (auto dest: conf_get_pair_shorter)

lemma ipxe_commands_safe: "safely (\<lambda>o'. dbo_device o' = dbo_device opt) (ipxe_commands w conf p opt)"
proof (induction "length p" arbitrary: p opt rule: less_induct)
  case less
  have IH: "safely (\<lambda>o'. dbo_device o' = dbo_device opt) (ipxe_commands w conf q b)"
    if "length q < length p" "dbo_device b = dbo_device opt" for q b using less[of q b] that by simp
  show ?case unfolding ipxe_commands.simps[of w conf p]
  proof (rule safely_hbind[OF conf_get_pair_safe], clarify)
    fix name val :: cstr and rest :: "string option" assume r: "\<forall>q. rest = Some q \<longrightarrow> length q < length p"
    show "safely (\<lambda>o'. dbo_device o' = dbo_device opt) (hbind (ipxe_command w conf name val opt) (\<lambda>(stop, opt).
        case rest of None \<Rightarrow> Inr opt | Some p \<Rightarrow> if stop then Inr opt else ipxe_commands w conf p opt))"
      by (rule safely_hbind[OF ipxe_command_safe]) (use IH r in \<open>auto split: option.split\<close>)
  qed
qed

lemma ipxe_simple_parser_safe:
  assumes "pxe_ok X d ev st"
  shows "safely (\<lambda>r. \<forall>st'. r = Some st' \<longrightarrow> event_ok X d ev (snd st')) (ipxe_simple_parser w buf st)"
proof -
  obtain conf ctx h where st: "st = (conf, ctx, h)" by (cases st) auto
  have ok: "event_ok X d ev (ctx, h)" using assms by (simp add: st pxe_ok_triple)
  obtain r h' where c: "discover_boot_option_create d h = (r, h')" by force
  note made = event_ok_create[OF ok c]
  obtain opt where opt: "h_opt h' r = Some opt" using pending_live[OF made(2)] by blast
  obtain dev where dev: "h_dev h' d = Some dev" using event_ok_live[OF made(1)] by blast
  let ?P = "\<lambda>r. \<forall>st'. r = Some st' \<longrightarrow> event_ok X d ev (snd st')"
  have add: "safely ?P (hbind (discover_context_add_boot_option ctx r (put_opt r opt' h')) (\<lambda>(ctx, h). Inr (Some (conf, ctx, h))))"
    if "dbo_device opt' = dbo_device opt" for opt'
    by (rule safely_hbind[OF event_ok_add[OF event_ok_fill[OF made(1) opt that] fill_keeps(3)[OF event_okD(1,2)[OF made(1)] opt that made(2)]]]) auto
  have "safely ?P (hbind (ipxe_commands w conf p (opt\<lparr>dbo_option := bo\<rparr>)) (\<lambda>opt. let h = put_opt r opt h' in
      if dbo_boot_image opt = None then Inr (Some (conf, ctx, h))
      else hbind (discover_context_add_boot_option ctx r h) (\<lambda>(ctx, h). Inr (Some (conf, ctx, h)))))" for p bo
    by (rule safely_hbind[OF ipxe_commands_safe]) (use event_ok_fill[OF made(1) opt] add in \<open>auto simp: Let_def\<close>)
  then show ?thesis using c opt dev event_okD(3)[OF ok] by (simp add: ipxe_simple_parser_def st Let_def split: option.split)
qed

section \<open>Loading\<close>

context resolver
begin

lemma pxe_parse_file_safe:
  assumes "pxe_ok X d ev (conf, ctx, h)"
  shows "safely (event_ok X d ev) (pxe_parse_file w rs env url buf (conf, ctx, h))"
proof -
  have "safely (\<lambda>st. event_ok X d ev (snd st)) (hbind (conf_parse_buf CHR '' '' (pxe_process_pair w) True buf (conf, ctx, h)) pxe_finish)" for buf
    by (rule safely_hbind[OF conf_parse_buf_keeps[where P = "pxe_ok X d ev", OF pxe_process_pair_safe assms]])
      (auto intro: pxe_finish_event)
  then have parsed: "safely (\<lambda>st. event_ok X d ev (snd st)) (hbind (ipxe_simple_parser w buf (conf, ctx, h)) (\<lambda>ipxe. case ipxe of Some st \<Rightarrow> Inr st
       | None \<Rightarrow> hbind (conf_parse_buf CHR '' '' (pxe_process_pair w) True buf (conf, ctx, h)) pxe_finish))" for buf
    by (intro safely_hbind[OF ipxe_simple_parser_safe[OF assms]]) (auto split: option.split)
  have commit: "safely (event_ok X d ev) (hbind (device_handler_discover_context_commit rs env ctx h) (\<lambda>h.
       hbind (get_dev h (ctx_device ctx)) (\<lambda>dev. Inr (ctx\<lparr>ctx_boot_options := []\<rparr>, device_handler_status t (m dev) h))))"
    if ok: "event_ok X d ev (ctx, h)" for ctx h t m
  proof -
    obtain dev where dev: "h_dev h (ctx_device ctx) = Some dev" "dd_uuid dev \<noteq> None" using ok by (auto simp: event_ok_pair)
    show ?thesis
    proof (rule safely_hbind[OF commit_keeps[OF event_okD(1,2)[OF ok] dev(1)]])
      fix h1 assume h1: "handler_ok X h1 \<and> (dd_uuid dev \<noteq> None \<longrightarrow> tagged h1 (ctx_device ctx))"
      then obtain dev1 where "h_dev h1 (ctx_device ctx) = Some dev1" using tagged_live dev(2) by blast
      then show "safely (event_ok X d ev) (hbind (get_dev h1 (ctx_device ctx)) (\<lambda>dev. Inr (ctx\<lparr>ctx_boot_options := []\<rparr>, device_handler_status t (m dev) h1)))"
        using tagged_event_ok[of h1 ctx X] h1 dev(2) event_okD(3,4)[OF ok] by simp
    qed
  qed
  have assoc: "hbind m (\<lambda>i. hbind (f i) g) = hbind (hbind m f) g" for m :: "pxe_state option h_m" and f and g :: "pxe_state \<Rightarrow> (discover_context \<times> device_handler) h_m"
    by (cases m) simp_all
  show ?thesis unfolding pxe_parse_file_def Let_def assoc
    by (rule safely_hbind[OF parsed]) (auto intro: commit)
qed

end

text \<open>None of the names is that of a local file.\<close>

definition remote_names :: "pxe_world \<Rightarrow> pb_url \<Rightarrow> string list \<Rightarrow> bool" where
  "remote_names w base files =
     list_all (\<lambda>f. case pb_url_join (px_pton w) base f of Inr (Some u) \<Rightarrow> url_scheme u \<noteq> pb_url_file | _ \<Rightarrow> True) files"

lemma remote_load: "url_scheme u \<noteq> pb_url_file \<Longrightarrow> load_url_async w u = (if px_start w u then Load_pending else Load_failed)"
  by (simp add: load_url_async_def)

lemma load_next_remote:
  assumes "remote_names w base files"
  shows "safely (\<lambda>(alive, ctx', h'). ctx' = ctx \<and> (\<exists>cur' \<ge> cur. alive = Some cur') \<and> (h' = h \<or> (\<exists>u. h' = notify (Load_url u) h)))
    (pxe_load_next_filename w rs env conf base files cur ctx h)"
proof (induction "length files - cur" arbitrary: cur)
  case 0
  then show ?case by (simp add: pxe_load_next_filename.simps[of w rs env conf base files cur])
next
  case (Suc n)
  let ?P = "\<lambda>cur (alive, ctx', h'). ctx' = ctx \<and> (\<exists>cur' \<ge> cur. alive = Some cur') \<and> (h' = h \<or> (\<exists>u. h' = notify (Load_url u) h))"
  have c: "cur < length files" using Suc.hyps(2) by simp
  have IH: "safely (?P cur) (pxe_load_next_filename w rs env conf base files (Suc cur) ctx h)"
    by (rule safely_mono[OF Suc.hyps(1)]) (use Suc.hyps(2) in auto)
  show ?case
  proof (cases "pb_url_join (px_pton w) base (files ! cur)")
    case (Inr u)
    have "url_scheme v \<noteq> pb_url_file" if "u = Some v" for v
      using assms c Inr that by (auto simp: remote_names_def list_all_length)
    then show ?thesis using c Inr IH
      by (auto simp: pxe_load_next_filename.simps[of w rs env conf base files cur] remote_load split: option.split)
  qed (use c in \<open>simp add: pxe_load_next_filename.simps[of w rs env conf base files cur]\<close>)
qed

lemma dev_status_safe:
  assumes "event_ok X d ev (ctx, h)"
  shows "safely (\<lambda>h'. event_ok X d ev (ctx, h')) (dev_status t m (ctx_device ctx) h)"
  using event_ok_live[OF assms] event_okD(3)[OF assms] assms by (auto simp: dev_status_def)

context resolver
begin

text \<open>The end of a load.\<close>

lemma callback_safe:
  assumes "event_ok X d ev (ctx, h)" "pi_opt (pc_info conf) = None" "\<And>base names. files = Some (base, names) \<Longrightarrow> remote_names w base names"
  shows "safely (\<lambda>r. event_ok X d ev (snd r)) (pxe_conf_parse_cb w rs env conf files cur url local ctx h)"
proof -
  let ?P = "\<lambda>r :: nat option \<times> _. event_ok X d ev (snd r)"
  have parsed: "safely ?P (hbind (pxe_parse_file w rs env url buf (conf, ctx, h)) (\<lambda>(ctx, h). Inr (None, ctx, h)))" for buf
    by (rule safely_hbind[OF pxe_parse_file_safe[of X d ev]]) (use assms in \<open>auto simp: pxe_ok_triple\<close>)
  have stat: "safely ?P (hbind (dev_status t m (ctx_device ctx) h') (\<lambda>h. Inr (a, ctx, h)))" if "event_ok X d ev (ctx, h')" for t m a h'
    by (rule safely_hbind[OF dev_status_safe[OF that]]) simp
  have "safely ?P (hbind (pxe_load_next_filename w rs env conf base names (Suc cur) ctx h) (\<lambda>(alive, ctx, h).
       case alive of None \<Rightarrow> Inl Use_after_free | Some cur \<Rightarrow> if length names \<le> cur
         then hbind (dev_status STATUS_ERROR Pxe_failed (ctx_device ctx) h) (\<lambda>h. Inr (None, ctx, h)) else Inr (Some cur, ctx, h)))"
    if "files = Some (base, names)" for base names
    by (rule safely_hbind[OF load_next_remote[OF assms(3)[OF that]]]) (use assms(1) in \<open>auto intro!: stat\<close>)
  then show ?thesis unfolding pxe_conf_parse_cb.simps[of w rs env conf files]
    using parsed stat[OF assms(1)] by (auto split: option.split)
qed

end

section \<open>Names\<close>

lemma hex_digits_chars: "c \<in> set (hex_digits n) \<Longrightarrow> \<exists>i < 16. c = hex_digit i"
proof (induction n rule: hex_digits.induct)
  case (1 n)
  show ?case
  proof (cases "n < 16")
    case False
    then have "c \<in> set (hex_digits (n div 16)) \<or> c = hex_digit (n mod 16)" using 1(2) by (auto simp: hex_digits.simps[of n])
    moreover have "n mod 16 < 16" by simp
    ultimately show ?thesis using 1(1)[OF False] by blast
  qed (use 1(2) in \<open>auto simp: hex_digits.simps[of n]\<close>)
qed

lemma hex_upper: "i < 16 \<Longrightarrow> toupper (hex_digit i) \<noteq> CHR '':'' \<and> hex_digit i \<noteq> CHR '':''"
proof -
  assume i: "i < 16"
  have "list_all (\<lambda>i. toupper (hex_digit i) \<noteq> CHR '':'' \<and> hex_digit i \<noteq> CHR '':'') [0..<16]"
    by (simp add: upt_rec hex_digit_def toupper_def char_of_eq_iff take_bit_eq_mod)
  then show ?thesis using i by (simp add: list_all_iff)
qed

lemma fmt_chars: "CHR '':'' \<notin> set (fmt_02x_uint w)" "CHR '':'' \<notin> set (fmt_02X_uint w)"
  using hex_digits_chars[of _ "unat w"] hex_upper by (fastforce simp: fmt_02x_uint_def fmt_02X_uint_def toupper_def)+

lemma ip_fallbacks_chars: "f \<in> set (ip_fallbacks n s) \<Longrightarrow> c \<in> set f \<Longrightarrow> c \<in> set s"
  by (induction n arbitrary: s) (auto dest: in_set_takeD)

lemma conf_filenames_chars:
  assumes "user_event_parse_conf_filenames mem event = Some files" "f \<in> set files"
  shows "CHR '':'' \<notin> set f"
proof -
  have "CHR '':'' \<notin> set (parse_mac_addr mem m)" "CHR '':'' \<notin> set (parse_ip_addr mem i)" for m i
    using fmt_chars by (auto simp: parse_mac_addr_def parse_ip_addr_def)
  moreover from this have "f \<in> set (ip_fallbacks n (parse_ip_addr mem i)) \<Longrightarrow> CHR '':'' \<notin> set f" for n i
    using ip_fallbacks_chars by metis
  ultimately show ?thesis using assms
    by (auto simp: user_event_parse_conf_filenames_def Let_def split: if_splits option.splits)
qed

lemma join_scheme: "\<not> is_url s \<Longrightarrow> pb_url_join pton url s = Inr (Some u) \<Longrightarrow> url_scheme u = url_scheme url"
  by (auto simp: pb_url_join_def pb_url_copy_def pb_url_parse_path_def pb_url_update_full_def Let_def map_sum_def
      split: sum.splits option.splits if_splits)

lemma remote_names_files:
  assumes "user_event_parse_conf_filenames mem event = Some files" "url_scheme base \<noteq> pb_url_file"
  shows "remote_names w base files"
  unfolding remote_names_def list_all_iff
proof (clarsimp split: sum.split option.split)
  fix f u assume f: "f \<in> set files" and j: "pb_url_join (px_pton w) base f = Inr (Some u)" "url_scheme u = pb_url_file"
  show False using join_scheme[OF not_is_url[OF conf_filenames_chars[OF assms(1) f]] j(1)] j(2) assms(2) by simp
qed

section \<open>Network boot\<close>

text \<open>The names are looked for on a server.\<close>

definition remote_prefix :: "event \<Rightarrow> bool" where
  "remote_prefix event \<longleftrightarrow>
     (case user_event_parse_conf_url event of Inr (Some url, complete) \<Rightarrow> complete \<or> url_scheme url \<noteq> pb_url_file | _ \<Rightarrow> True)"

lemma parse_conf_url_safe: "safely (\<lambda>_. True) (user_event_parse_conf_url event)"
  by (auto simp: user_event_parse_conf_url_def Let_def split: option.split
      intro!: safely_True_hbind[OF map_sum_url_safe])

context resolver
begin

lemma complete_safe:
  assumes "event_ok X d ev (ctx, h)"
  shows "safely (\<lambda>r. event_ok X d ev (snd r))
     (hbind (dev_status t m (ctx_device ctx) h) (\<lambda>h.
      case load_url_async w u of
        Load_failed \<Rightarrow> Inr (None, ctx, h)
      | Load_pending \<Rightarrow> Inr (Some l, ctx, notify (Load_url u) h)
      | Load_local local \<Rightarrow> hbind (pxe_conf_parse_cb w rs env (copy_context url) None 0 u local ctx h) (\<lambda>(alive, ctx, h). Inr (None, ctx, h))))"
    (is "safely ?P _")
proof (rule safely_hbind[OF dev_status_safe[OF assms]])
  fix h' assume h': "event_ok X d ev (ctx, h')"
  have "safely ?P (hbind (pxe_conf_parse_cb w rs env (copy_context url) None 0 u local ctx h') (\<lambda>(alive, ctx, h). Inr (None, ctx, h)))" for local
    by (rule safely_hbind[OF callback_safe[OF h']]) (auto simp: copy_context_def)
  then show "safely ?P (case load_url_async w u of Load_failed \<Rightarrow> Inr (None, ctx, h')
      | Load_pending \<Rightarrow> Inr (Some l, ctx, notify (Load_url u) h')
      | Load_local local \<Rightarrow> hbind (pxe_conf_parse_cb w rs env (copy_context url) None 0 u local ctx h') (\<lambda>(alive, ctx, h). Inr (None, ctx, h)))"
    using h' by (simp split: load_start.split)
qed

lemma probe_safe:
  assumes "event_ok X d ev (ctx, h)" "remote_names w base files"
  shows "safely (\<lambda>r. event_ok X d ev (snd r))
     (hbind (dev_status t m (ctx_device ctx) h) (\<lambda>h.
      hbind (pxe_load_next_filename w rs env conf base files 0 ctx h) (\<lambda>(alive, ctx, h). Inr (f alive, ctx, h))))"
    (is "safely ?P _")
proof (rule safely_hbind[OF dev_status_safe[OF assms(1)]])
  fix h' assume h': "event_ok X d ev (ctx, h')"
  show "safely ?P (hbind (pxe_load_next_filename w rs env conf base files 0 ctx h') (\<lambda>(alive, ctx, h). Inr (f alive, ctx, h)))"
    by (rule safely_hbind[OF load_next_remote[OF assms(2)]]) (use h' in auto)
qed

lemma pxe_parse_safe:
  assumes "event_ok X d (Some event) (ctx, h)" "remote_prefix event"
  shows "safely (\<lambda>r. event_ok X d (Some event) (snd r)) (pxe_parse w rs env ctx h)"
    (is "safely ?P _")
proof -
  have idle: "?P (None, ctx, h)" using assms(1) by simp
  show ?thesis
  proof (cases "user_event_parse_conf_url event")
    case (Inl e)
    then show ?thesis using parse_conf_url_safe[of event] event_okD(4)[OF assms(1)] by (simp add: pxe_parse_def)
  next
    case (Inr r)
    obtain conf_url complete where r: "r = (conf_url, complete)" by force
    have "safely ?P (hbind (map_sum Url_error id (pb_url_join (px_pton w) url pxelinux_prefix)) (\<lambda>base_url. case base_url of None \<Rightarrow> Inr (None, ctx, h)
        | Some base \<Rightarrow> hbind (dev_status t (m base) (ctx_device ctx) h) (\<lambda>h.
            hbind (pxe_load_next_filename w rs env conf base files 0 ctx h) (\<lambda>(alive, ctx, h). Inr (f base alive, ctx, h)))))"
      if "conf_url = Some url" "\<not> complete" "user_event_parse_conf_filenames mem event = Some files" for url files t m f conf mem
    proof (cases "pb_url_join (px_pton w) url pxelinux_prefix")
      case (Inr b)
      have "url_scheme url \<noteq> pb_url_file" using assms(2) \<open>user_event_parse_conf_url event = Inr r\<close> that(1,2) r by (simp add: remote_prefix_def)
      moreover have "\<not> is_url pxelinux_prefix" by (simp add: is_url_def pxelinux_prefix_def strneq_def)
      ultimately have "url_scheme base \<noteq> pb_url_file" if "b = Some base" for base using join_scheme[of pxelinux_prefix] Inr that by metis
      then show ?thesis using Inr idle remote_names_files[OF that(3)] by (auto split: option.split intro!: probe_safe[OF assms(1)])
    qed simp
    then show ?thesis using Inr r idle event_okD(4)[OF assms(1)]
      by (auto simp: pxe_parse_def Let_def split: option.split intro!: safely_True_hbind[OF map_sum_url_safe] complete_safe[OF assms(1)])
  qed
qed

end

end
