(* ===== verification/Pxe_Props.thy ===== *)
theory Pxe_Props
  imports Pxe_Safe
begin

text \<open>
  Booting from the network: the contract of the parsers that work on an event, that the PXE parser and the others keep it, and with it that
  messages of any contents on the socket of the user events use no freed object; which of the files of a server is parsed, and which options
  it gives.
\<close>

section \<open>Parsers of events\<close>

locale event_parser =
  fixes parse :: parser_fn and admit :: "event \<Rightarrow> bool"
  assumes parse_event_keeps: "event_ok X d (Some e) (ctx, h) \<Longrightarrow> admit e \<Longrightarrow> safely (event_ok X d (Some e)) (parse ctx h)"

locale event_discovery = resolver rs for rs +
  fixes parsers :: "(string \<times> parser_fn) list" and admit :: "event \<Rightarrow> bool"
  assumes parsers_keep_event: "(name, parse) \<in> set parsers \<Longrightarrow> event_parser parse admit"
begin

lemma iterate_event_keeps:
  assumes "set ps \<subseteq> set parsers" "event_ok X d (Some e) (ctx, h)" "admit e"
  shows "safely (event_ok X d (Some e)) (iterate_parsers ps ctx h)"
  using assms(1,2)
proof (induction ps arbitrary: ctx h)
  case Nil
  then show ?case by (simp add: event_ok_pair)
next
  case (Cons p ps)
  obtain name parse where p: "p = (name, parse)" by force
  have "safely (event_ok X d (Some e)) (parse (ctx\<lparr>ctx_parser := name\<rparr>) h)"
    using Cons.prems p assms(3) by (intro event_parser.parse_event_keeps[OF parsers_keep_event[of name]]) (auto simp: event_ok_pair)
  then show ?case unfolding p iterate_parsers.simps
    by (rule safely_hbind) (use Cons in auto)
qed

lemma event_commit_safe:
  assumes "event_ok X d (Some e) (ctx, h)" "admit e"
  shows "safely (handler_ok X) (parse_and_commit parsers rs env ctx h)"
  unfolding parse_and_commit_def
  by (rule safely_hbind[OF iterate_event_keeps[OF subset_refl assms]]) (auto intro: commit_safe simp: event_ok_pair)

lemma dhcp_event_safe:
  assumes "event_ok {} d (Some event) (device_handler_discover_context_create d (Some event), h)" "admit event"
  shows "safely (handler_ok {}) (device_handler_dhcp parsers rs env d event h)"
proof -
  obtain dev where dev: "h_dev h d = Some dev" using event_ok_live[OF assms(1)] by blast
  have "safely (handler_ok {}) (hbind (device_handler_start_requery_timeout d (event_requery_timeout (Some event))
          (device_handler_status STATUS_INFO (Processing_dhcp i ip) h))
        (parse_and_commit parsers rs env (device_handler_discover_context_create d (Some event))))" (is "safely _ (hbind ?r _)") for i ip
  proof (rule safely_hbind)
    let ?s = "device_handler_status STATUS_INFO (Processing_dhcp i ip) h"
    have live: "h_dev ?s d = Some dev" using dev by (simp add: device_handler_status_def notify_def)
    show "safely (\<lambda>h'. handler_ok {} h' \<and> same_view h h') ?r"
      using start_requery_safe[OF _ live, of "event_requery_timeout (Some event)"]
        same_view_requery[OF live, of "event_requery_timeout (Some event)"] event_okD(1)[OF assms(1)]
      by (cases ?r) (auto intro: same_view_trans[OF same_view_status(1)])
  qed (use assms in \<open>blast intro: event_commit_safe event_ok_view\<close>)
  then show ?thesis using dev by (simp add: device_handler_dhcp_def Let_def)
qed

text \<open>The device is the one with the hardware address as its UUID.\<close>

lemma user_event_dhcp_safe:
  assumes "handler_ok {} (us_handler st)" "admit event" "ue_resolvers env = rs" "ue_parsers env = parsers"
  shows "safely (\<lambda>(rc, st). handler_ok {} (us_handler st)) (user_event_dhcp env event st)"
proof -
  let ?P = "\<lambda>(rc :: int, st). handler_ok {} (us_handler st)"
  have "safely ?P (hbind (discover_device_create (Some mac) i (us_handler st)) (\<lambda>(d, h).
       on_handler (device_handler_dhcp (ue_parsers env) (ue_resolvers env) (ue_boot env) d event h) 0 st'))" for mac i st'
    by (rule safely_hbind[OF create_event_context[OF assms(1)]]) (auto simp: assms intro!: on_handler_safe dhcp_event_safe)
  then show ?thesis using assms(1)
    by (auto simp: user_event_dhcp_def Let_def split: option.split prod.split)
qed

end

definition option_list :: "'a option \<Rightarrow> 'a list" where
  "option_list x = (case x of Some y \<Rightarrow> [y] | None \<Rightarrow> [])"

lemma option_list_simps [simp]: "option_list (Some x) = [x]" "option_list None = []"
  by (simp_all add: option_list_def)

section \<open>User events\<close>

text \<open>The parsers of the discovery server.\<close>

definition all_parsers :: "grub2_world \<Rightarrow> nat \<Rightarrow> (nat \<Rightarrow> device_files) \<Rightarrow> pxe_world \<Rightarrow> boot_env \<Rightarrow> (string \<times> parser_fn) list" where
  "all_parsers w n files pw env = local_parsers w n files @ [(''pxe'', pxe_parser pw parser_resolvers env)]"

interpretation pxe: event_parser "pxe_parser pw parser_resolvers env" remote_prefix for pw env
proof
  fix X d e ctx h
  assume "event_ok X d (Some e) (ctx, h)" "remote_prefix e"
  then show "safely (event_ok X d (Some e)) (pxe_parser pw parser_resolvers env ctx h)"
    unfolding pxe_parser_def by (rule safely_hbind[OF parser_table.pxe_parse_safe]) auto
qed

text \<open>The parsers of local files do nothing when there is an event.\<close>

lemma event_parser_idle: "(\<And>ctx h. ctx_event ctx \<noteq> None \<Longrightarrow> parse ctx h = Inr (ctx, h)) \<Longrightarrow> event_parser parse admit"
  by unfold_locales (auto simp: event_ok_pair)

lemma event_parser_of_all:
  assumes "(name, parse) \<in> set (all_parsers w n files pw env)"
  shows "event_parser parse remote_prefix"
proof (cases "parse = pxe_parser pw parser_resolvers env")
  case False
  then show ?thesis using assms
    by (intro event_parser_idle) (auto simp: all_parsers_def local_parsers_def on_device_def grub2_parse_def kboot_parse_def yaboot_parse_def syslinux_parse_def)
qed (simp add: pxe.event_parser_axioms)

interpretation network_discovery: event_discovery parser_resolvers "all_parsers w n files pw env" remote_prefix for w n files pw env
  by (intro event_discovery.intro event_discovery_axioms.intro parser_table.resolver_axioms event_parser_of_all)


definition lease_world :: pxe_world where
  "lease_world = \<lparr>px_pton = (\<lambda>_ _. False), px_access = (\<lambda>_. False), px_read = (\<lambda>_. None), px_start = (\<lambda>_. True), px_words = (\<lambda>_. 0),
     px_pointer = (\<lambda>_. ''0x1'')\<rparr>"

definition lease_env :: user_env where
  "lease_env = \<lparr>ue_parsers = all_parsers entry_world 12 (\<lambda>_. entry_files) lease_world sample_env, ue_resolvers = parser_resolvers, ue_boot = sample_env,
     ue_route = (\<lambda>_. None), ue_async = (\<lambda>_. True), ue_words = (\<lambda>_. 0), ue_bytes = (\<lambda>_. 0), ue_pointer = (\<lambda>_. ''0x1''), ue_umount = (\<lambda>_. True),
     ue_dm = \<lparr>dm_sectors = (\<lambda>_. 0), dm_create = (\<lambda>_. True), dm_set_active = (\<lambda>_ _. True)\<rparr>, ue_dm_remove = (\<lambda>_. True)\<rparr>"

definition lease_state :: user_state where
  "lease_state = \<lparr>us_handler = run_parsed, us_sysinfo = \<lparr>si_type = None, si_identifier = None, si_platform_primary = [], si_platform_other = [],
     si_bmc_current = [], si_bmc_golden = [], si_interfaces = [], si_blockdevs = [], si_bmc_mac = None, si_stb_fw_measurement = False,
     si_stb_fw_enforcing = False, si_stb_os_enforcing = False\<rparr>, us_sysinfo_out = []\<rparr>"

definition lease_message :: string where
  "lease_message = ''dhcp@eth0'' @ [NUL] @ ''mac=2:0:0:0:0:1'' @ [NUL] @ ''ip=10.0.0.2'' @ [NUL] @ ''siaddr=10.0.0.1'' @ [NUL]"

definition lease :: event where
  "lease = \<lparr>ev_type = EVENT_TYPE_USER, ev_action = EVENT_ACTION_DHCP, ev_device = ''eth0'', ev_params =
     [\<lparr>ep_name = ''mac'', ep_value = Heap ''2:0:0:0:0:1''\<rparr>, \<lparr>ep_name = ''ip'', ep_value = Heap ''10.0.0.2''\<rparr>,
      \<lparr>ep_name = ''siaddr'', ep_value = Heap ''10.0.0.1''\<rparr>]\<rparr>"

lemma lease_event: "event_parse_ad_message empty_event (take PBOOT_USER_EVENT_SIZE lease_message) = Some lease"
  by (simp add: lease_message_def PBOOT_USER_EVENT_SIZE_def event_parse_ad_message_def event_parse_ad_header_def c_prefix_def event_action_of_def
      event_parse_params.simps parse_param_def lease_def empty_event_def case_evals Let_def)

lemmas lease_evals = lease_def event_get_param_def case_evals user_event_parse_conf_url_def parse_host_addr_def url_evals is_url_def parse_host_def Let_def

lemma lease_url: "\<exists>url. user_event_parse_conf_url lease = Inr (Some url, False) \<and> url_scheme url = pb_url_tftp"
  by (simp add: lease_evals)

lemma lease_action: "ev_action lease = EVENT_ACTION_DHCP"
  by (simp add: lease_def)


section \<open>The names that are asked for\<close>

text \<open>The reference: the hardware address, the beginnings of the address in hexadecimal, the longest first, and \<^verbatim>\<open>default\<close>.\<close>

lemma ip_fallbacks_takes: "n = length s \<Longrightarrow> ip_fallbacks n s = map (\<lambda>k. take k s) (rev [1..<Suc n])"
proof (induction n arbitrary: s)
  case (Suc n)
  have "ip_fallbacks n (take n s) = map (\<lambda>k. take k (take n s)) (rev [1..<Suc n])" by (rule Suc.IH) (use Suc.prems in simp)
  also have "\<dots> = map (\<lambda>k. take k s) (rev [1..<Suc n])" by (rule map_cong) auto
  finally have fb: "ip_fallbacks n (take n s) = map (\<lambda>k. take k s) (rev [1..<Suc n])" .
  have "rev [1..<Suc (Suc n)] = Suc n # rev [1..<Suc n]" "take (Suc n) s = s" using Suc.prems by simp_all
  then show ?case by (simp only: ip_fallbacks.simps fb list.map)
qed simp


section \<open>Trying the names\<close>

text \<open>The loads of the names one after another: each ends with the path of the local copy, or without one.\<close>

fun pxe_outcomes ::
    "pxe_world \<Rightarrow> resolvers \<Rightarrow> boot_env \<Rightarrow> pxe_conf \<Rightarrow> pb_url \<Rightarrow> string list \<Rightarrow> nat \<Rightarrow> string option list \<Rightarrow> discover_context \<Rightarrow> device_handler \<Rightarrow>
     (nat option \<times> discover_context \<times> device_handler) h_m" where
  "pxe_outcomes w rs env conf base files cur [] ctx h = Inr (Some cur, ctx, h)"
| "pxe_outcomes w rs env conf base files cur (local # locals) ctx h =
     hbind (map_sum Url_error id (pb_url_join (px_pton w) base (files ! cur))) (\<lambda>url.
     case url of
       None \<Rightarrow> Inl Null_pointer
     | Some u \<Rightarrow>
         hbind (pxe_conf_parse_cb w rs env conf (Some (base, files)) cur u local ctx h) (\<lambda>(alive, ctx, h).
         case alive of
           None \<Rightarrow> Inr (None, ctx, h)
         | Some cur \<Rightarrow> pxe_outcomes w rs env conf base files cur locals ctx h))"

definition name_url :: "pxe_world \<Rightarrow> pb_url \<Rightarrow> string \<Rightarrow> pb_url" where
  "name_url w base name = the (projr (pb_url_join (px_pton w) base name))"

definition askable :: "pxe_world \<Rightarrow> pb_url \<Rightarrow> string \<Rightarrow> bool" where
  "askable w base name =
     (case pb_url_join (px_pton w) base name of Inr (Some u) \<Rightarrow> url_scheme u \<noteq> pb_url_file \<and> px_start w u | _ \<Rightarrow> False)"

definition asked :: "pxe_world \<Rightarrow> pb_url \<Rightarrow> string list \<Rightarrow> device_handler \<Rightarrow> device_handler" where
  "asked w base = fold (\<lambda>name. notify (Load_url (name_url w base name)))"

lemma askableD:
  assumes "askable w base name"
  shows "pb_url_join (px_pton w) base name = Inr (Some (name_url w base name))"
    "load_url_async w (name_url w base name) = Load_pending"
  using assms by (auto simp: askable_def name_url_def remote_load split: sum.splits option.splits)

lemma load_next_askable:
  assumes "list_all (askable w base) files" "cur \<le> length files"
  shows "pxe_load_next_filename w rs env conf base files cur ctx h = Inr (Some cur, ctx, asked w base (take 1 (drop cur files)) h)"
proof (cases "cur < length files")
  case True
  then have "askable w base (files ! cur)" using assms(1) by (simp add: list_all_length)
  moreover have "take 1 (drop cur files) = [files ! cur]" using True by (simp add: take_Suc_conv_app_nth hd_drop_conv_nth take_Suc)
  ultimately show ?thesis using True by (simp add: pxe_load_next_filename.simps[of w rs env conf base files cur] askableD asked_def)
qed (use assms(2) in \<open>simp add: pxe_load_next_filename.simps[of w rs env conf base files "length files"] asked_def\<close>)

definition unreadable :: "pxe_world \<Rightarrow> string \<times> string option \<Rightarrow> bool" where
  "unreadable w = (\<lambda>(name, local). Option.bind local (px_read w) = None)"

lemma asked_same [simp]: "h_dev (asked w base ns h) = h_dev h"
  by (induction ns arbitrary: h) (auto simp: asked_def notify_def)

lemma outcomes_from:
  assumes "list_all (askable w base) files"
  shows "cur < length files \<Longrightarrow> length locals = length files - cur \<Longrightarrow>
    pxe_outcomes w rs env conf base files cur locals ctx h =
    (let failed = takeWhile (unreadable w) (zip (drop cur files) locals);
         h = asked w base (take (length failed) (drop (Suc cur) files)) h
     in case drop (length failed) (zip (drop cur files) locals) of
          (name, local) # _ \<Rightarrow>
            hbind (pxe_parse_file w rs env (name_url w base name) (the (Option.bind local (px_read w))) (conf, ctx, h)) (\<lambda>(ctx, h). Inr (None, ctx, h))
        | [] \<Rightarrow> hbind (dev_status STATUS_ERROR Pxe_failed (ctx_device ctx) h) (\<lambda>h. Inr (None, ctx, h)))"
proof (induction locals arbitrary: cur h)
  case (Cons local locals)
  let ?n = "files ! cur"
  have n: "askable w base ?n" using assms Cons.prems(1) by (simp add: list_all_length)
  have d: "drop cur files = ?n # drop (Suc cur) files" using Cons.prems(1) by (simp add: Cons_nth_drop_Suc)
  show ?case
  proof (cases "Option.bind local (px_read w)")
    case (Some buf)
    then show ?thesis using askableD(1)[OF n] d
      by (cases "pxe_parse_file w rs env (name_url w base ?n) buf (conf, ctx, h)")
        (auto simp: pxe_conf_parse_cb.simps[of w rs env conf "Some (base, files)" cur] unreadable_def asked_def)
  next
    case None
    have load: "pxe_load_next_filename w rs env conf base files (Suc cur) ctx h =
        Inr (Some (Suc cur), ctx, asked w base (take 1 (drop (Suc cur) files)) h)"
      by (rule load_next_askable[OF assms]) (use Cons.prems(1) in simp)
    show ?thesis
    proof (cases "Suc cur < length files")
      case True
      have d': "drop (Suc cur) files = files ! Suc cur # drop (Suc (Suc cur)) files" using True by (simp add: Cons_nth_drop_Suc)
      have "length locals = length files - Suc cur" using Cons.prems(2) by simp
      note IH = Cons.IH[OF True this]
      let ?h = "asked w base [files ! Suc cur] h" and ?z = "zip (drop (Suc cur) files) locals"
      have step: "pxe_outcomes w rs env conf base files cur (local # locals) ctx h = pxe_outcomes w rs env conf base files (Suc cur) locals ctx ?h"
        using askableD(1)[OF n] load d' None True by (simp add: pxe_conf_parse_cb.simps[of w rs env conf "Some (base, files)" cur])
      have failed: "takeWhile (unreadable w) (zip (drop cur files) (local # locals)) = (?n, local) # takeWhile (unreadable w) ?z"
        and z: "zip (drop cur files) (local # locals) = (?n, local) # ?z" using d None by (simp_all add: unreadable_def)
      have h: "asked w base (take (Suc k) (drop (Suc cur) files)) h = asked w base (take k (drop (Suc (Suc cur)) files)) ?h" for k
        using d' by (simp add: asked_def)
      show ?thesis unfolding step IH failed Let_def length_Cons h unfolding z drop_Suc_Cons ..
    next
      case False
      then have "length files = Suc cur" using Cons.prems(1) by linarith
      then have "locals = []" "drop (Suc cur) files = []" using Cons.prems(2) by simp_all
      then show ?thesis using askableD(1)[OF n] d load None False
        by (cases "dev_status STATUS_ERROR Pxe_failed (ctx_device ctx) h")
          (auto simp: pxe_conf_parse_cb.simps[of w rs env conf "Some (base, files)" cur] unreadable_def asked_def Let_def)
    qed
  qed
qed simp

text \<open>C18: when the names of a PXE configuration can be asked for, each is asked for only after the one before could not be had, and the first
  file that can be read is parsed and no other; without one the failure is reported.  In both cases the configuration is freed.\<close>

theorem pxe_first_file:
  assumes "list_all (askable w base) files" "length locals = length files" "files \<noteq> []"
  shows "pxe_outcomes w rs env conf base files 0 locals ctx h =
    (let failed = takeWhile (unreadable w) (zip files locals);
         h = asked w base (take (length failed) (tl files)) h
     in case drop (length failed) (zip files locals) of
          (name, local) # _ \<Rightarrow>
            hbind (pxe_parse_file w rs env (name_url w base name) (the (Option.bind local (px_read w))) (conf, ctx, h)) (\<lambda>(ctx, h). Inr (None, ctx, h))
        | [] \<Rightarrow> hbind (dev_status STATUS_ERROR Pxe_failed (ctx_device ctx) h) (\<lambda>h. Inr (None, ctx, h)))"
  using outcomes_from[OF assms(1), of 0 locals rs env conf ctx h] assms(2,3) by (simp add: drop_Suc)

section \<open>The options of a file\<close>

text \<open>An entry is a label with its parameters; they do not begin another one and do not ask for the hardware address.\<close>

definition entry_param :: "string \<times> string \<Rightarrow> bool" where
  "entry_param = (\<lambda>(n, v). list_all (\<lambda>k. \<not> strcaseeq n k) [''DEFAULT'', ''PROXY'', ''LABEL'', ''PLUGIN'', ''SYSAPPEND'', ''IPAPPEND''])"

definition entry_pairs :: "string \<times> (string \<times> string) list \<Rightarrow> (string \<times> string) list" where
  "entry_pairs = (\<lambda>(label, params). (''LABEL'', label) # params)"

fun joined :: "string list \<Rightarrow> string" where
  "joined [] = []"
| "joined [v] = v"
| "joined (v # vs) = v @ '' '' @ joined vs"

lemma joined_snoc: "vs \<noteq> [] \<Longrightarrow> joined (vs @ [v]) = joined vs @ '' '' @ v"
proof (induction vs rule: joined.induct)
  case (3 v' v'' vs)
  then show ?case by (cases vs) auto
qed auto

definition values_of :: "string \<Rightarrow> (string \<times> string) list \<Rightarrow> string list" where
  "values_of name params = map snd (filter (\<lambda>(n, v). strcaseeq n name) params)"

definition entry_args :: "(string \<times> string) list \<Rightarrow> cstr" where
  "entry_args params = (let vs = values_of ''APPEND'' params in if vs = [] then None else Some (joined vs))"

text \<open>What the option of an entry is: the image is that of the last kernel.\<close>

definition pxe_entry :: "pxe_world \<Rightarrow> pxe_conf \<Rightarrow> string \<Rightarrow> string \<times> (string \<times> string) list \<Rightarrow> discover_boot_option \<Rightarrow> bool" where
  "pxe_entry w conf dflt = (\<lambda>(label, params) opt.
     opt_name (dbo_option opt) = Some label \<and> opt_type (dbo_option opt) = DISCOVER_BOOT_OPTION \<and>
     (opt_is_default (dbo_option opt) \<longleftrightarrow> strcaseeq dflt label) \<and> opt_boot_args (dbo_option opt) = entry_args params \<and>
     (case rev (values_of ''KERNEL'' params) of
        [] \<Rightarrow> dbo_boot_image opt = None
      | k # _ \<Rightarrow> pxe_resource w conf k = Inr (dbo_boot_image opt)))"

lemma pxe_resource_conf: "pc_conf_url conf = pc_conf_url conf' \<Longrightarrow> pxe_resource w conf s = pxe_resource w conf' s"
  by (simp add: pxe_resource_def)

lemma values_of_snoc: "values_of name (ps @ [(n, v)]) = values_of name ps @ (if strcaseeq n name then [v] else [])"
  by (simp add: values_of_def)

lemma case_distinct:
  "strcaseeq n ''KERNEL'' \<Longrightarrow> \<not> strcaseeq n ''APPEND''" "strcaseeq n ''KERNEL'' \<Longrightarrow> \<not> strcaseeq n ''TARBALL''"
  "strcaseeq n ''APPEND'' \<Longrightarrow> \<not> strcaseeq n ''INITRD''" "strcaseeq n ''APPEND'' \<Longrightarrow> \<not> strcaseeq n ''TARBALL''"
  by (auto simp: case_evals dest!: arg_cong[where f=hd])

lemma option_pair_entry:
  assumes "pxe_entry w conf dflt (label, ps) opt" "pxe_option_pair w conf ctx h n v opt = Inr opt'" "entry_param (n, v)"
  shows "pxe_entry w conf dflt (label, ps @ [(n, v)]) opt'"
proof -
  note e = assms(1)[unfolded pxe_entry_def prod.case]
  have t: "\<not> (strcaseeq n ''TARBALL'' \<and> opt_type (dbo_option opt) = DISCOVER_PLUGIN_OPTION)" using e by simp
  have s: "\<not> (strcaseeq n ''SYSAPPEND'' \<or> strcaseeq n ''IPAPPEND'')" using assms(3) by (simp add: entry_param_def)
  consider "strcaseeq n ''KERNEL''" | "strcaseeq n ''APPEND''" "\<not> strcaseeq n ''KERNEL''" | "\<not> strcaseeq n ''KERNEL''" "\<not> strcaseeq n ''APPEND''" by blast
  then show ?thesis
  proof cases
    case 1
    then show ?thesis using assms(2) e t case_distinct(1)[OF 1]
      by (auto simp: pxe_entry_def pxe_option_pair_def values_of_snoc entry_args_def elim!: hbind_InrE)
  next
    case 2
    have "opt_boot_args (dbo_option opt') = entry_args (ps @ [(n, v)])"
      using assms(2) e t 2 case_distinct(3)[OF 2(1)] joined_snoc[of "values_of ''APPEND'' ps" v]
      by (auto simp: pxe_option_pair_def pxe_append_string_def values_of_snoc entry_args_def Let_def elim!: hbind_InrE split: option.splits if_splits)
    moreover have "dbo_boot_image opt' = dbo_boot_image opt" "opt_name (dbo_option opt') = opt_name (dbo_option opt)"
        "opt_type (dbo_option opt') = opt_type (dbo_option opt)" "opt_is_default (dbo_option opt') = opt_is_default (dbo_option opt)"
      using assms(2) t 2 case_distinct(3)[OF 2(1)]
      by (auto simp: pxe_option_pair_def pxe_append_string_def Let_def elim!: hbind_InrE split: option.splits if_splits)
    ultimately show ?thesis using e 2 by (simp add: pxe_entry_def values_of_snoc split: list.splits)
  next
    case 3
    have "dbo_boot_image opt' = dbo_boot_image opt" "dbo_option opt' = dbo_option opt"
      using assms(2) t s 3 by (auto simp: pxe_option_pair_def elim!: hbind_InrE split: if_splits)
    then show ?thesis using e 3 by (simp add: pxe_entry_def values_of_snoc entry_args_def split: list.splits)
  qed
qed

lemma pxe_entry_same:
  assumes "pc_conf_url conf' = pc_conf_url conf" "dbo_option opt' = dbo_option opt" "dbo_boot_image opt' = dbo_boot_image opt"
  shows "pxe_entry w conf' dflt e opt' = pxe_entry w conf dflt e opt"
  using assms pxe_resource_conf[of conf' conf w] by (simp add: pxe_entry_def split: prod.split list.split)

lemma param_step:
  assumes "pi_opt (pc_info conf) = Some r" "h_opt h r = Some opt" "entry_param (n, v)"
  shows "pxe_process_pair w (Some n) v (conf, ctx, h) = hbind (pxe_option_pair w conf ctx h n v opt) (\<lambda>opt. Inr (conf, ctx, put_opt r opt h))"
  using assms by (simp add: entry_param_def pxe_process_pair_def pxe_pair_def)

lemma params_result:
  assumes "pi_opt (pc_info conf) = Some r"
  shows "conf_fold (pxe_process_pair w) qs (conf, ctx, h) = Inr st' \<Longrightarrow> h_opt h r = Some opt \<Longrightarrow> list_all entry_param qs \<Longrightarrow>
    pxe_entry w conf dflt (label, ps) opt \<Longrightarrow>
    \<exists>opt' h'. st' = (conf, ctx, h') \<and> h_opt h' r = Some opt' \<and> (\<forall>q. q \<noteq> r \<longrightarrow> h_opt h' q = h_opt h q) \<and> h_next h' = h_next h \<and> pxe_entry w conf dflt (label, ps @ qs) opt'"
proof (induction qs arbitrary: ps opt h)
  case Nil
  then show ?case by auto
next
  case (Cons p qs)
  obtain n v where p: "p = (n, v)" by force
  obtain opt1 where o: "pxe_option_pair w conf ctx h n v opt = Inr opt1"
      and rest: "conf_fold (pxe_process_pair w) qs (conf, ctx, put_opt r opt1 h) = Inr st'"
    using Cons.prems(1,3) param_step[OF assms Cons.prems(2), of n v w ctx] by (auto simp: p elim!: hbind_InrE)
  have "pxe_entry w conf dflt (label, ps @ [(n, v)]) opt1"
    using option_pair_entry[OF Cons.prems(4) o] Cons.prems(3) by (simp add: p)
  from Cons.IH[OF rest _ _ this] Cons.prems(3) show ?case by (auto simp: p)
qed

lemma finish_result:
  assumes "pxe_finish (conf, ctx, h) = Inr st'" "pi_opt (pc_info conf) = Some r" "h_opt h r = Some opt"
  shows "\<exists>opt' h'. st' = (conf\<lparr>pc_info := (pc_info conf)\<lparr>pi_opt := None\<rparr>\<rparr>, ctx\<lparr>ctx_boot_options := ctx_boot_options ctx @ [r]\<rparr>, h') \<and>
    h_opt h' r = Some opt' \<and> (\<forall>q. q \<noteq> r \<longrightarrow> h_opt h' q = h_opt h q) \<and> h_next h' = h_next h \<and> dbo_option opt' = dbo_option opt \<and> dbo_boot_image opt' = dbo_boot_image opt"
  using assms by (auto simp: pxe_finish_def discover_context_add_boot_option_def Let_def split: option.splits)

lemma pxe_label_result:
  assumes "pxe_new_option w ''LABEL'' l (conf, ctx, h) = Inr st'" "pi_default_name (pc_info conf) = Some dflt"
  shows "\<exists>opt h'. st' = (conf\<lparr>pc_info := (pc_info conf)\<lparr>pi_opt := Some (h_next h)\<rparr>\<rparr>, ctx, h') \<and>
    h_opt h' (h_next h) = Some opt \<and> (\<forall>q. q \<noteq> h_next h \<longrightarrow> h_opt h' q = h_opt h q) \<and> h_next h' = Suc (h_next h) \<and> pxe_entry w conf dflt (l, []) opt"
  using assms by (auto simp: pxe_new_option_def discover_boot_option_create_def Let_def pxe_entry_def entry_args_def values_of_def elim!: hbind_InrE)

definition pxe_entry_at :: "pxe_world \<Rightarrow> pxe_conf \<Rightarrow> string \<Rightarrow> device_handler \<Rightarrow> nat \<Rightarrow> string \<times> (string \<times> string) list \<Rightarrow> bool" where
  "pxe_entry_at w conf dflt h r e \<longleftrightarrow> (\<exists>opt. h_opt h r = Some opt \<and> pxe_entry w conf dflt e opt)"

lemma conf_fold_append: "conf_fold process (ps @ qs) st = hbind (conf_fold process ps st) (conf_fold process qs)"
proof (induction ps arbitrary: st)
  case (Cons p ps)
  obtain n v where p: "p = (n, v)" by force
  show ?case by (cases "process (Some n) v st") (simp_all add: p Cons.IH)
qed simp

lemma label_step:
  "pxe_process_pair w (Some ''LABEL'') l (conf, ctx, h) =
     hbind (if pi_opt (pc_info conf) \<noteq> None then pxe_finish (conf, ctx, h) else Inr (conf, ctx, h)) (pxe_new_option w ''LABEL'' l)"
  by (simp add: pxe_process_pair_def pxe_pair_def case_evals)

lemma entries_result:
  assumes "list_all (\<lambda>(l, ps). list_all entry_param ps) es"
  shows "hbind (conf_fold (pxe_process_pair w) (concat (map entry_pairs es)) (conf, ctx, h)) pxe_finish = Inr (conf', ctx', h') \<Longrightarrow>
    pi_default_name (pc_info conf) = Some dflt \<Longrightarrow> pi_opt (pc_info conf) = Some r \<Longrightarrow> pxe_entry_at w conf dflt h r e \<Longrightarrow> r < h_next h \<Longrightarrow>
    (\<exists>rs. ctx_boot_options ctx' = ctx_boot_options ctx @ r # rs \<and> list_all2 (pxe_entry_at w conf dflt h') (r # rs) (e # es)) \<and>
    (\<forall>q < h_next h. q \<noteq> r \<longrightarrow> h_opt h' q = h_opt h q)"
  using assms
proof (induction es arbitrary: conf ctx h r e)
  case Nil
  obtain opt where opt: "h_opt h r = Some opt" "pxe_entry w conf dflt e opt" using Nil.prems(4) by (auto simp: pxe_entry_at_def)
  have "pxe_finish (conf, ctx, h) = Inr (conf', ctx', h')" using Nil.prems(1) by simp
  from finish_result[OF this Nil.prems(3) opt(1)] obtain opt' where "h_opt h' r = Some opt'" "dbo_option opt' = dbo_option opt"
      "dbo_boot_image opt' = dbo_boot_image opt" "ctx_boot_options ctx' = ctx_boot_options ctx @ [r]" "\<forall>q. q \<noteq> r \<longrightarrow> h_opt h' q = h_opt h q" by auto
  then show ?case using opt(2) pxe_entry_same[of conf conf opt' opt] by (auto simp: pxe_entry_at_def)
next
  case (Cons e1 es)
  obtain l ps where e1: "e1 = (l, ps)" by force
  obtain opt where opt: "h_opt h r = Some opt" "pxe_entry w conf dflt e opt" using Cons.prems(4) by (auto simp: pxe_entry_at_def)
  let ?c = "conf\<lparr>pc_info := (pc_info conf)\<lparr>pi_opt := Some (h_next h)\<rparr>\<rparr>"
  let ?ctx = "ctx\<lparr>ctx_boot_options := ctx_boot_options ctx @ [r]\<rparr>"
  obtain st1 st2 st3 where st: "pxe_finish (conf, ctx, h) = Inr st1" "pxe_new_option w ''LABEL'' l st1 = Inr st2"
      "conf_fold (pxe_process_pair w) ps st2 = Inr st3"
      "hbind (conf_fold (pxe_process_pair w) (concat (map entry_pairs es)) st3) pxe_finish = Inr (conf', ctx', h')"
    using Cons.prems(1,3) by (auto simp: e1 entry_pairs_def conf_fold_append label_step elim!: hbind_InrE)
  from finish_result[OF st(1) Cons.prems(3) opt(1)] obtain opt1 h1 where
      f: "st1 = (conf\<lparr>pc_info := (pc_info conf)\<lparr>pi_opt := None\<rparr>\<rparr>, ?ctx, h1)" "h_opt h1 r = Some opt1" "\<forall>q. q \<noteq> r \<longrightarrow> h_opt h1 q = h_opt h q"
      "h_next h1 = h_next h" "dbo_option opt1 = dbo_option opt" "dbo_boot_image opt1 = dbo_boot_image opt" by auto
  from pxe_label_result[OF st(2)[unfolded f(1)], of dflt] Cons.prems(2) f(4) obtain opt2 h2 where
      g: "st2 = (?c, ?ctx, h2)" "h_opt h2 (h_next h) = Some opt2" "\<forall>q. q \<noteq> h_next h \<longrightarrow> h_opt h2 q = h_opt h1 q" "h_next h2 = Suc (h_next h)"
      "pxe_entry w conf dflt (l, []) opt2" using pxe_entry_same[of "conf\<lparr>pc_info := (pc_info conf)\<lparr>pi_opt := None\<rparr>\<rparr>" conf] by auto
  have c: "pxe_entry w ?c dflt e' o' = pxe_entry w conf dflt e' o'" "pxe_entry_at w ?c dflt = pxe_entry_at w conf dflt" for e' o'
    using pxe_entry_same[of ?c conf] by (auto simp: pxe_entry_at_def fun_eq_iff)
  from params_result[OF _ st(3)[unfolded g(1)] g(2), of dflt l "[]"] g(5) Cons.prems(6) e1 c(1) obtain opt3 h3 where
      k: "st3 = (?c, ?ctx, h3)" "h_opt h3 (h_next h) = Some opt3" "\<forall>q. q \<noteq> h_next h \<longrightarrow> h_opt h3 q = h_opt h2 q" "h_next h3 = Suc (h_next h)"
      "pxe_entry w conf dflt e1 opt3" using g(4) by auto
  have "pxe_entry_at w ?c dflt h3 (h_next h) e1" using k(2,5) c by (auto simp: pxe_entry_at_def)
  from Cons.IH[OF st(4)[unfolded k(1)] _ _ this] Cons.prems(2,6) k(4) c obtain rs where
      rs: "ctx_boot_options ctx' = ctx_boot_options ctx @ r # h_next h # rs" "list_all2 (pxe_entry_at w conf dflt h') (h_next h # rs) (e1 # es)"
      and fr: "\<forall>q < Suc (h_next h). q \<noteq> h_next h \<longrightarrow> h_opt h' q = h_opt h3 q" by auto
  have "h_opt h' q = h_opt h1 q" if "q < h_next h" for q using fr k(3) g(3) that by auto
  then have "pxe_entry_at w conf dflt h' r e" "\<forall>q < h_next h. q \<noteq> r \<longrightarrow> h_opt h' q = h_opt h q"
    using f(2,3,5,6) opt(2) Cons.prems(5) pxe_entry_same[of conf conf opt1 opt] by (auto simp: pxe_entry_at_def)
  then show ?case using rs by auto
qed

text \<open>The file is read to its end when the names in it can be joined to the URL.\<close>

definition joinable :: "pxe_world \<Rightarrow> pxe_conf \<Rightarrow> string \<times> string \<Rightarrow> bool" where
  "joinable w conf = (\<lambda>(n, v). list_all (\<lambda>s. \<not> isl (pxe_resource w conf s)) ([v, v @ ''.cmdline.sig''] @
     (case strcasestr v ''INITRD='' of Some n \<Rightarrow> [takeWhile (\<lambda>c. c \<noteq> CHR '' '') (drop (n + length ''INITRD='') v)] | None \<Rightarrow> [])))"

definition pxe_live :: "pb_url \<Rightarrow> pxe_state \<Rightarrow> bool" where
  "pxe_live url = (\<lambda>(conf, ctx, h). pc_conf_url conf = url \<and> h_dev h (ctx_device ctx) \<noteq> None \<and>
     (\<forall>r. pi_opt (pc_info conf) = Some r \<longrightarrow> h_opt h r \<noteq> None))"

lemma option_pair_returns:
  assumes "joinable w conf (n, v)" "\<not> strcaseeq n ''SYSAPPEND''" "\<not> strcaseeq n ''IPAPPEND''"
  shows "\<exists>opt'. pxe_option_pair w conf ctx h n v opt = Inr opt'"
proof -
  obtain a b where "pxe_resource w conf v = Inr a" "pxe_resource w conf (v @ ''.cmdline.sig'') = Inr b"
    using assms(1) by (auto simp: joinable_def isl_def) (meson sum.exhaust)
  moreover have "strcasestr v ''INITRD='' = Some k \<Longrightarrow> \<exists>c. pxe_resource w conf (takeWhile (\<lambda>c. c \<noteq> CHR '' '') (drop (k + length ''INITRD='') v)) = Inr c" for k
    using assms(1) by (auto simp: joinable_def isl_def) (meson sum.exhaust)
  ultimately show ?thesis using assms(2,3) by (auto simp: pxe_option_pair_def Let_def split: option.split)
qed

lemma finish_returns:
  assumes "pxe_live url st"
  shows "\<exists>st'. pxe_finish st = Inr st' \<and> pxe_live url st'"
  using assms by (cases st) (auto simp: pxe_live_def pxe_finish_def discover_context_add_boot_option_def Let_def split: option.splits)

definition pair_fine :: "pxe_world \<Rightarrow> pxe_conf \<Rightarrow> string \<times> string \<Rightarrow> bool" where
  "pair_fine w conf p \<longleftrightarrow> strcaseeq (fst p) ''LABEL'' \<or> strcaseeq (fst p) ''DEFAULT'' \<or>
     joinable w conf p \<and> \<not> strcaseeq (fst p) ''SYSAPPEND'' \<and> \<not> strcaseeq (fst p) ''IPAPPEND''"

lemma pair_returns:
  assumes "pxe_live (pc_conf_url conf) st" "pair_fine w conf (n, v)"
  shows "\<exists>st'. pxe_process_pair w (Some n) v st = Inr st' \<and> pxe_live (pc_conf_url conf) st'"
proof -
  obtain c ctx h where st: "st = (c, ctx, h)" by (cases st) auto
  have lab: "\<exists>st''. pxe_new_option w n v st' = Inr st'' \<and> pxe_live (pc_conf_url conf) st''" if "pxe_live (pc_conf_url conf) st'" for st'
    using that by (cases st') (auto simp: pxe_live_def pxe_new_option_def discover_boot_option_create_def Let_def)
  have new: "\<exists>st'. hbind (if b then pxe_finish st else Inr st) (pxe_new_option w n v) = Inr st' \<and> pxe_live (pc_conf_url conf) st'" for b
    using finish_returns[OF assms(1)] lab assms(1) by (cases b) fastforce+
  have pair: "\<exists>st'. (case pi_opt (pc_info c) of None \<Rightarrow> Inr st | Some r \<Rightarrow> hbind (get_opt h r) (\<lambda>opt.
       hbind (pxe_option_pair w c ctx h n v opt) (\<lambda>opt. Inr (c, ctx, put_opt r opt h)))) = Inr st' \<and> pxe_live (pc_conf_url conf) st'"
    if other: "\<not> strcaseeq n ''LABEL''" "\<not> strcaseeq n ''DEFAULT''"
  proof (cases "pi_opt (pc_info c)")
    case (Some r)
    have "joinable w c (n, v)" using assms other pxe_resource_conf[of c conf w] by (simp add: st pxe_live_def joinable_def pair_fine_def)
    moreover obtain opt where opt: "h_opt h r = Some opt" using assms(1) Some by (auto simp: st pxe_live_def)
    ultimately obtain opt' where "pxe_option_pair w c ctx h n v opt = Inr opt'"
      using option_pair_returns[of w c n v ctx h opt] assms(2) other by (auto simp: pair_fine_def)
    then show ?thesis using Some assms(1) opt by (auto simp: st pxe_live_def)
  qed (use assms(1) in simp)
  consider "strcaseeq n ''DEFAULT'' \<or> strcaseeq n ''PROXY''" | "\<not> (strcaseeq n ''DEFAULT'' \<or> strcaseeq n ''PROXY'')" "strcaseeq n ''LABEL'' \<or> strcaseeq n ''PLUGIN''"
    | "\<not> (strcaseeq n ''DEFAULT'' \<or> strcaseeq n ''PROXY'')" "\<not> (strcaseeq n ''LABEL'' \<or> strcaseeq n ''PLUGIN'')" by blast
  then show ?thesis
  proof cases
    case 1
    then show ?thesis using assms(1) by (auto simp: st pxe_process_pair_def pxe_pair_def pxe_live_def)
  next
    case 2
    then show ?thesis using new[of True, unfolded st] new[of False, unfolded st] by (simp add: st pxe_process_pair_def pxe_pair_def)
  next
    case 3
    then show ?thesis using pair[unfolded st] by (simp add: st pxe_process_pair_def pxe_pair_def)
  qed
qed

lemma fold_returns:
  assumes "list_all (pair_fine w conf) ps"
  shows "pxe_live (pc_conf_url conf) st \<Longrightarrow> \<exists>st'. hbind (conf_fold (pxe_process_pair w) ps st) pxe_finish = Inr st'"
  using assms
proof (induction ps arbitrary: st)
  case Nil
  then show ?case using finish_returns by fastforce
next
  case (Cons p ps)
  obtain n v where p: "p = (n, v)" by force
  obtain st1 where "pxe_process_pair w (Some n) v st = Inr st1" "pxe_live (pc_conf_url conf) st1"
    using pair_returns[OF Cons.prems(1), of w n v] Cons.prems(2) p by auto
  then show ?case using Cons.IH[of st1] Cons.prems(2) p by simp
qed

lemma file_result:
  assumes "list_all (\<lambda>(l, ps). list_all entry_param ps) es" "pi_opt (pc_info conf) = None" "pi_default_name (pc_info conf) = Some dflt"
    "hbind (conf_fold (pxe_process_pair w) (concat (map entry_pairs es)) (conf, ctx, h)) pxe_finish = Inr (conf', ctx', h')"
  shows "\<exists>rs. ctx_boot_options ctx' = ctx_boot_options ctx @ rs \<and> list_all2 (pxe_entry_at w conf dflt h') rs es"
proof (cases es)
  case Nil
  then show ?thesis using assms(2,4) by (simp add: pxe_finish_def)
next
  case (Cons e1 es')
  obtain l ps where e1: "e1 = (l, ps)" by force
  let ?c = "conf\<lparr>pc_info := (pc_info conf)\<lparr>pi_opt := Some (h_next h)\<rparr>\<rparr>"
  obtain st1 st2 where st: "pxe_new_option w ''LABEL'' l (conf, ctx, h) = Inr st1" "conf_fold (pxe_process_pair w) ps st1 = Inr st2"
      "hbind (conf_fold (pxe_process_pair w) (concat (map entry_pairs es')) st2) pxe_finish = Inr (conf', ctx', h')"
    using assms(2,4) Cons e1 by (auto simp: entry_pairs_def conf_fold_append label_step elim!: hbind_InrE)
  have c: "pxe_entry w ?c dflt e' o' = pxe_entry w conf dflt e' o'" "pxe_entry_at w ?c dflt = pxe_entry_at w conf dflt" for e' o'
    using pxe_entry_same[of ?c conf] by (auto simp: pxe_entry_at_def fun_eq_iff)
  from pxe_label_result[OF st(1) assms(3)] obtain opt1 h1 where g: "st1 = (?c, ctx, h1)" "h_opt h1 (h_next h) = Some opt1" "h_next h1 = Suc (h_next h)"
      "pxe_entry w conf dflt (l, []) opt1" by auto
  from params_result[OF _ st(2)[unfolded g(1)] g(2), of dflt l "[]"] g(4) assms(1) Cons e1 c(1) obtain opt2 h2 where
      k: "st2 = (?c, ctx, h2)" "h_opt h2 (h_next h) = Some opt2" "h_next h2 = Suc (h_next h)" "pxe_entry w conf dflt e1 opt2"
    using g(3) by auto
  have "pxe_entry_at w ?c dflt h2 (h_next h) e1" using k(2,4) c by (auto simp: pxe_entry_at_def)
  from entries_result[OF _ st(3)[unfolded k(1)] _ _ this] assms(1,3) Cons k(3) c show ?thesis by auto
qed

text \<open>C17: a PXE file with a default and entries gives one option for every entry, in their order: the label is the name, the option is the
  default exactly if the label is the file's default, the arguments are those of all the APPEND lines, with spaces between them, and the image
  is that of the last KERNEL line, joined to the URL of the file.\<close>

theorem pxe_options:
  assumes "list_all (conf_pair_ok CHR '' '') ((''DEFAULT'', dflt) # concat (map entry_pairs es))" "list_all (\<lambda>(l, ps). list_all entry_param ps) es"
    "list_all (joinable w (copy_context url)) (concat (map snd es))" "h_dev h (ctx_device ctx) \<noteq> None"
  shows "\<exists>conf' ctx' h' rs.
    hbind (conf_parse_buf CHR '' '' (pxe_process_pair w) True (conf_print CHR '' '' ((''DEFAULT'', dflt) # concat (map entry_pairs es)))
      (copy_context url, ctx, h)) pxe_finish = Inr (conf', ctx', h') \<and>
    ctx_boot_options ctx' = ctx_boot_options ctx @ rs \<and>
    list_all2 (\<lambda>r e. \<exists>opt. h_opt h' r = Some opt \<and> pxe_entry w (copy_context url) dflt e opt) rs es"
proof -
  let ?ps = "(''DEFAULT'', dflt) # concat (map entry_pairs es)" and ?c = "copy_context url"
  let ?d = "?c\<lparr>pc_info := (pc_info ?c)\<lparr>pi_default_name := Some dflt\<rparr>\<rparr>"
  have "list_all (\<lambda>(l, ps). list_all (joinable w ?c) ps) es" using assms(3) by (auto simp: list_all_iff split_def)
  then have fine: "list_all (pair_fine w ?c) ?ps" using assms(2)
    by (fastforce simp: list_all_iff pair_fine_def entry_pairs_def entry_param_def)
  have parse: "conf_parse_buf CHR '' '' (pxe_process_pair w) True (conf_print CHR '' '' ?ps) (?c, ctx, h) = conf_fold (pxe_process_pair w) ?ps (?c, ctx, h)"
    by (rule conf_parse_buf_print[OF _ _ assms(1)]) simp_all
  have "pxe_live (pc_conf_url ?c) (?c, ctx, h)" using assms(4) by (simp add: pxe_live_def copy_context_def)
  from fold_returns[OF fine this] obtain conf' ctx' h' where
      r: "hbind (conf_fold (pxe_process_pair w) ?ps (?c, ctx, h)) pxe_finish = Inr (conf', ctx', h')" by (metis prod_cases3)
  have "pxe_process_pair w (Some ''DEFAULT'') dflt (?c, ctx, h) = Inr (?d, ctx, h)" by (simp add: pxe_process_pair_def pxe_pair_def)
  then have "hbind (conf_fold (pxe_process_pair w) (concat (map entry_pairs es)) (?d, ctx, h)) pxe_finish = Inr (conf', ctx', h')" using r by simp
  from file_result[OF assms(2) _ _ this] obtain rs where "ctx_boot_options ctx' = ctx_boot_options ctx @ rs" "list_all2 (pxe_entry_at w ?d dflt h') rs es"
    by (auto simp: copy_context_def)
  moreover have "pxe_entry_at w ?d dflt h' = (\<lambda>r e. \<exists>opt. h_opt h' r = Some opt \<and> pxe_entry w ?c dflt e opt)"
    using pxe_entry_same[of ?d ?c] by (auto simp: pxe_entry_at_def fun_eq_iff)
  ultimately show ?thesis using r parse by auto
qed

section \<open>Faults\<close>

text \<open>A DHCP lease with a local directory as the path prefix, in which none of the files exists, makes the parser use a freed object: the
  callback of the last file frees the configuration, to which the task belongs that \<^verbatim>\<open>load_url_async\<close> goes on with.\<close>

theorem local_prefix_faults:
  assumes "list_all (\<lambda>f. \<exists>u. pb_url_join (px_pton w) base f = Inr (Some u) \<and> load_url_async w u = Load_local None) files"
    "cur < length files" "h_dev h (ctx_device ctx) \<noteq> None"
  shows "pxe_load_next_filename w rs env conf base files cur ctx h = Inl Use_after_free"
  using assms(2)
proof (induction "length files - cur" arbitrary: cur)
  case (Suc n)
  obtain u where u: "pb_url_join (px_pton w) base (files ! cur) = Inr (Some u)" "load_url_async w u = Load_local None"
    using assms(1) Suc.prems by (auto simp: list_all_length)
  have cb: "pxe_conf_parse_cb w rs env conf (Some (base, files)) cur u None ctx h =
     hbind (pxe_load_next_filename w rs env conf base files (Suc cur) ctx h) (\<lambda>(alive, ctx, h).
       case alive of None \<Rightarrow> Inl Use_after_free | Some cur \<Rightarrow>
         if length files \<le> cur then hbind (dev_status STATUS_ERROR Pxe_failed (ctx_device ctx) h) (\<lambda>h. Inr (None, ctx, h)) else Inr (Some cur, ctx, h))"
    by (simp add: pxe_conf_parse_cb.simps[of w rs env conf "Some (base, files)" cur])
  show ?case
  proof (cases "Suc cur < length files")
    case True
    have "pxe_load_next_filename w rs env conf base files (Suc cur) ctx h = Inl Use_after_free"
      by (rule Suc.hyps(1)) (use Suc.hyps(2) True in simp_all)
    then show ?thesis using u cb Suc.prems by (simp add: pxe_load_next_filename.simps[of w rs env conf base files cur])
  next
    case False
    then have "pxe_load_next_filename w rs env conf base files (Suc cur) ctx h = Inr (Some (Suc cur), ctx, h)"
      by (simp add: pxe_load_next_filename.simps[of w rs env conf base files "Suc cur"])
    then show ?thesis using u cb Suc.prems False assms(3)
      by (auto simp: pxe_load_next_filename.simps[of w rs env conf base files cur] dev_status_def)
  qed
qed simp

text \<open>A device may be removed while one of its files is being loaded: when the load then fails, the callback reads the freed device.\<close>

theorem removed_while_loading:
  assumes "handler_ok {} h" "h_dev h (ctx_device ctx) = Some dev" "device_handler_remove (ctx_device ctx) h = Inr h'"
  shows "pxe_conf_parse_cb w rs env conf None cur url None ctx h' = Inl Use_after_free"
proof -
  have "h_dev h' (ctx_device ctx) = None" using device_handler_remove_safe[OF assms(1,2)] assms(3) by simp
  then show ?thesis by (simp add: pxe_conf_parse_cb.simps dev_status_def get_dev_def)
qed

section \<open>Examples\<close>

definition menu_url :: pb_url where
  "menu_url = \<lparr>url_scheme = pb_url_tftp, url_full = Some ''tftp://10.0.0.1/pxelinux.cfg/default'', url_host = Some ''10.0.0.1'', url_port = None,
     url_path = Some ''/pxelinux.cfg/default'', url_dir = Some ''/pxelinux.cfg/'', url_file = Some ''default''\<rparr>"

definition boot_menu :: "(string \<times> (string \<times> string) list) list" where
  "boot_menu = [(''linux'', [(''KERNEL'', ''vmlinuz''), (''APPEND'', ''quiet''), (''APPEND'', ''ro'')]), (''old'', [(''kernel'', ''vmlinuz.old'')])]"

lemmas menu_evals = boot_menu_def entry_pairs_def entry_param_def case_evals conf_clean_def conf_blank_def isspace_def is_comment_def

lemma menu_joinable: "list_all (joinable lease_world (copy_context menu_url)) (concat (map snd boot_menu))"
  by (simp add: joinable_def menu_evals pxe_resource_def pxe_url_join_def copy_context_def menu_url_def lease_world_def pb_url_join_def is_url_def
      url_evals pb_url_update_full_def pb_url_to_string_def pb_url_scheme_info_def addr_scheme_def fmt_s_def create_url_resource_def Let_def)

theorem pxe_options_witness:
  "\<exists>conf' ctx' h' r1 r2 opt1 opt2.
    hbind (conf_parse_buf CHR '' '' (pxe_process_pair lease_world) True (conf_print CHR '' '' ((''DEFAULT'', ''old'') # concat (map entry_pairs boot_menu)))
      (copy_context menu_url, device_handler_discover_context_create 0 (Some lease), run_parsed)) pxe_finish = Inr (conf', ctx', h') \<and>
    ctx_boot_options ctx' = [r1, r2] \<and> h_opt h' r1 = Some opt1 \<and> opt_boot_args (dbo_option opt1) = Some ''quiet ro'' \<and>
    h_opt h' r2 = Some opt2 \<and> opt_name (dbo_option opt2) = Some ''old'' \<and> opt_is_default (dbo_option opt2)"
proof -
  have "list_all (conf_pair_ok CHR '' '') ((''DEFAULT'', ''old'') # concat (map entry_pairs boot_menu))" by (simp add: menu_evals)
  moreover have "list_all (\<lambda>(l, ps). list_all entry_param ps) boot_menu" by (simp add: menu_evals)
  moreover have "h_dev run_parsed (ctx_device (device_handler_discover_context_create 0 (Some lease))) \<noteq> None"
    by (simp add: run_defs device_handler_discover_context_create_def discover_boot_option_create_def device_handler_init_def)
  ultimately obtain conf' ctx' h' rs where p:
      "hbind (conf_parse_buf CHR '' '' (pxe_process_pair lease_world) True (conf_print CHR '' '' ((''DEFAULT'', ''old'') # concat (map entry_pairs boot_menu)))
        (copy_context menu_url, device_handler_discover_context_create 0 (Some lease), run_parsed)) pxe_finish = Inr (conf', ctx', h')"
      "ctx_boot_options ctx' = ctx_boot_options (device_handler_discover_context_create 0 (Some lease)) @ rs"
      "list_all2 (\<lambda>r e. \<exists>opt. h_opt h' r = Some opt \<and> pxe_entry lease_world (copy_context menu_url) ''old'' e opt) rs boot_menu"
    using pxe_options[of "''old''" boot_menu lease_world menu_url run_parsed "device_handler_discover_context_create 0 (Some lease)"] menu_joinable
    by blast
  have c: "ctx_boot_options (device_handler_discover_context_create 0 (Some lease)) = []" by (simp add: device_handler_discover_context_create_def)
  from p(3) obtain r1 r2 opt1 opt2 where o: "rs = [r1, r2]" "h_opt h' r1 = Some opt1" "h_opt h' r2 = Some opt2"
      "pxe_entry lease_world (copy_context menu_url) ''old'' (boot_menu ! 0) opt1" "pxe_entry lease_world (copy_context menu_url) ''old'' (boot_menu ! 1) opt2"
    by (auto simp: boot_menu_def list_all2_Cons2)
  have "opt_boot_args (dbo_option opt1) = Some ''quiet ro''" "opt_name (dbo_option opt2) = Some ''old''" "opt_is_default (dbo_option opt2)"
    using o(4,5) by (simp_all add: boot_menu_def pxe_entry_def entry_args_def values_of_def case_evals)
  then show ?thesis using p(1,2) o c by auto
qed

definition probe_world :: pxe_world where
  "probe_world = lease_world\<lparr>px_read := (\<lambda>path. if path = ''/tmp/pxe'' then Some ''DEFAULT old'' else None)\<rparr>"

lemma probe_askable: "list_all (askable probe_world menu_url) [''0A000002'', ''default'', ''more'']"
  by (simp add: askable_def probe_world_def menu_url_def lease_world_def pb_url_join_def is_url_def
      url_evals pb_url_update_full_def pb_url_to_string_def pb_url_scheme_info_def addr_scheme_def fmt_s_def Let_def)

theorem pxe_first_file_witness:
  "pxe_outcomes probe_world parser_resolvers sample_env (copy_context menu_url) menu_url [''0A000002'', ''default'', ''more''] 0
      [None, Some ''/tmp/pxe'', Some ''/tmp/pxe''] (device_handler_discover_context_create 0 (Some lease)) run_parsed =
    hbind (pxe_parse_file probe_world parser_resolvers sample_env (name_url probe_world menu_url ''default'') ''DEFAULT old''
      (copy_context menu_url, device_handler_discover_context_create 0 (Some lease), asked probe_world menu_url [''default''] run_parsed))
      (\<lambda>(ctx, h). Inr (None, ctx, h))"
  by (subst pxe_first_file[OF probe_askable]) (simp_all add: unreadable_def probe_world_def)

lemma lease_files: "user_event_parse_conf_filenames (\<lambda>_. 0) lease =
    Some [''01-02-00-00-00-00-01'', ''0A000002'', ''0A00000'', ''0A0000'', ''0A000'', ''0A00'', ''0A0'', ''0A'', ''0'', ''default'']"
  by code_simp


text \<open>One URL of a local file is enough to have its device listed twice, since the parser commits the context and so does the caller; the
  next reinitialisation frees the device twice.\<close>

theorem url_device_listed_twice:
  assumes "px_access w ''/a.conf''" "px_read w ''/a.conf'' = Some []"
  shows "\<exists>h. device_handler_process_url [(''pxe'', pxe_parser w parser_resolvers env)] parser_resolvers env route async ''file:///a.conf'' None None
      (device_handler_init dry_run config []) = Inr h \<and> h_devices h = [0, 0] \<and> device_handler_reinit ifaces ps h = Inl Use_after_free"
  using assms
  by (simp add: device_handler_process_url_def pb_url_parse_def pb_url_find_scheme_def schemes_def strneq_def strncaseeq_def
      pb_url_parse_path_def url_set_param_def url_event_def event_set_param_def Let_def discover_device_create_def
      device_lookup_by_id_def device_lookup_by_uuid_def device_lookup_def device_handler_init_def parse_and_commit_def
      device_handler_discover_context_create_def device_handler_discover_context_commit_def device_handler_add_device_def
      discover_device_new_def device_match_id_def device_handler_reinit_def device_handler_cancel_default_def
      get_dev_def put_dev_def notify_def destroy_device_def devmapper_destroy_snapshot_def tolower_def
      pxe_parser_def pxe_parse_def user_event_parse_conf_url_def event_get_param_def strcaseeq_def is_url_def load_url_async_def
      copy_context_def dev_status_def pxe_conf_parse_cb.simps pxe_parse_file_def ipxe_simple_parser_def conf_parse_buf.simps
      pxe_finish_def device_handler_status_def)

theorem url_device_listed_twice_witness:
  "\<exists>h. device_handler_process_url [(''pxe'', pxe_parser (lease_world\<lparr>px_access := (\<lambda>_. True), px_read := (\<lambda>_. Some [])\<rparr>) parser_resolvers sample_env)]
      parser_resolvers sample_env (\<lambda>_. None) (\<lambda>_. False) ''file:///a.conf'' None None
      (device_handler_init False (be_config sample_env) []) = Inr h \<and> h_devices h = [0, 0] \<and>
      device_handler_reinit [] run_platform h = Inl Use_after_free"
  by (rule url_device_listed_twice) simp_all

definition shared_dir :: pb_url where
  "shared_dir = \<lparr>url_scheme = pb_url_file, url_full = Some ''file:///srv/'', url_host = None, url_port = None,
     url_path = Some ''/srv/'', url_dir = Some ''/srv/'', url_file = Some []\<rparr>"

theorem local_prefix_faults_witness:
  "pxe_load_next_filename lease_world parser_resolvers sample_env (copy_context shared_dir) shared_dir [''0A'', ''default''] 0
     (device_handler_discover_context_create 0 (Some lease)) run_parsed = Inl Use_after_free"
  by (rule local_prefix_faults)
    (simp_all add: shared_dir_def lease_world_def pb_url_join_def is_url_def load_url_async_def
      url_evals pb_url_update_full_def pb_url_to_string_def pb_url_scheme_info_def addr_scheme_def fmt_s_def Let_def
      run_defs device_handler_discover_context_create_def discover_boot_option_create_def device_handler_init_def)

end
