(* ===== verification/Linked_List.thy ===== *)
theory Linked_List
  imports Device_Inv
begin

text \<open>
  The circular doubly linked lists of \<^verbatim>\<open>lib/list/list.c\<close> and \<^verbatim>\<open>list.h\<close>, on a store of items: the operations write the pointers in the order
  of the code, and are shown to be those of lists.  An item that is not allocated, or freed, is not in the store.
\<close>

section \<open>Operations\<close>

record list_item =
  li_prev :: nat
  li_next :: nat

type_synonym item_heap = "nat \<Rightarrow> list_item option"

definition read_next :: "nat \<Rightarrow> item_heap \<Rightarrow> nat h_m" where
  "read_next a h = (case h a of Some i \<Rightarrow> Inr (li_next i) | None \<Rightarrow> Inl Use_after_free)"

definition read_prev :: "nat \<Rightarrow> item_heap \<Rightarrow> nat h_m" where
  "read_prev a h = (case h a of Some i \<Rightarrow> Inr (li_prev i) | None \<Rightarrow> Inl Use_after_free)"

definition write_next :: "nat \<Rightarrow> nat \<Rightarrow> item_heap \<Rightarrow> item_heap h_m" where
  "write_next a v h = (case h a of Some i \<Rightarrow> Inr (h(a \<mapsto> i\<lparr>li_next := v\<rparr>)) | None \<Rightarrow> Inl Use_after_free)"

definition write_prev :: "nat \<Rightarrow> nat \<Rightarrow> item_heap \<Rightarrow> item_heap h_m" where
  "write_prev a v h = (case h a of Some i \<Rightarrow> Inr (h(a \<mapsto> i\<lparr>li_prev := v\<rparr>)) | None \<Rightarrow> Inl Use_after_free)"

definition list_init :: "nat \<Rightarrow> item_heap \<Rightarrow> item_heap h_m" where
  "list_init head h = hbind (write_next head head h) (write_prev head head)"

definition list_insert_before :: "nat \<Rightarrow> nat \<Rightarrow> item_heap \<Rightarrow> item_heap h_m" where
  "list_insert_before next item h =
     hbind (write_next item next h) (\<lambda>h.
     hbind (read_prev next h) (\<lambda>p.
     hbind (write_prev item p h) (\<lambda>h.
     hbind (read_prev next h) (\<lambda>p.
     hbind (write_next p item h) (\<lambda>h.
     write_prev next item h)))))"

definition list_insert_after :: "nat \<Rightarrow> nat \<Rightarrow> item_heap \<Rightarrow> item_heap h_m" where
  "list_insert_after prev item h =
     hbind (read_next prev h) (\<lambda>n.
     hbind (write_next item n h) (\<lambda>h.
     hbind (write_prev item prev h) (\<lambda>h.
     hbind (read_next prev h) (\<lambda>n.
     hbind (write_prev n item h) (\<lambda>h.
     write_next prev item h)))))"

definition list_remove :: "nat \<Rightarrow> item_heap \<Rightarrow> item_heap h_m" where
  "list_remove item h =
     hbind (read_next item h) (\<lambda>n.
     hbind (read_prev item h) (\<lambda>p.
     hbind (write_prev n p h) (\<lambda>h.
     hbind (read_prev item h) (\<lambda>p.
     hbind (read_next item h) (\<lambda>n.
     write_next p n h)))))"

definition list_add :: "nat \<Rightarrow> nat \<Rightarrow> item_heap \<Rightarrow> item_heap h_m" where
  "list_add head item h = list_insert_after head item h"

definition list_add_tail :: "nat \<Rightarrow> nat \<Rightarrow> item_heap \<Rightarrow> item_heap h_m" where
  "list_add_tail head item h = list_insert_before head item h"

text \<open>\<^verbatim>\<open>list_for_each_entry\<close>: the items from \<open>pos\<close> on, with at most \<open>n\<close> of them; \<open>None\<close>: the head has not been reached.\<close>

fun list_for_each_entry :: "nat \<Rightarrow> nat \<Rightarrow> nat \<Rightarrow> item_heap \<Rightarrow> nat list option h_m" where
  "list_for_each_entry 0 head pos h = Inr (if pos = head then Some [] else None)"
| "list_for_each_entry (Suc n) head pos h =
     (if pos = head then Inr (Some [])
      else hbind (read_next pos h) (\<lambda>next.
           hbind (list_for_each_entry n head next h) (\<lambda>xs. Inr (map_option (\<lambda>xs. pos # xs) xs))))"

text \<open>\<^verbatim>\<open>list_for_each_entry_safe\<close>: the body may remove or free the item.\<close>

fun list_for_each_entry_safe :: "nat \<Rightarrow> nat \<Rightarrow> nat \<Rightarrow> nat \<Rightarrow> (nat \<Rightarrow> 's \<times> item_heap \<Rightarrow> ('s \<times> item_heap) h_m) \<Rightarrow> 's \<times> item_heap \<Rightarrow> ('s \<times> item_heap) option h_m" where
  "list_for_each_entry_safe 0 head pos tmp body st = Inr (if pos = head then Some st else None)"
| "list_for_each_entry_safe (Suc n) head pos tmp body st =
     (if pos = head then Inr (Some st)
      else hbind (body pos st) (\<lambda>st.
           hbind (read_next tmp (snd st)) (\<lambda>tmp'. list_for_each_entry_safe n head tmp tmp' body st)))"

text \<open>The loops of the macros, from the first item of the list on.\<close>

definition list_entries :: "nat \<Rightarrow> nat \<Rightarrow> item_heap \<Rightarrow> nat list option h_m" where
  "list_entries n head h = hbind (read_next head h) (\<lambda>pos. list_for_each_entry n head pos h)"

definition list_loop_safe :: "nat \<Rightarrow> nat \<Rightarrow> (nat \<Rightarrow> 's \<times> item_heap \<Rightarrow> ('s \<times> item_heap) h_m) \<Rightarrow> 's \<times> item_heap \<Rightarrow> ('s \<times> item_heap) option h_m" where
  "list_loop_safe n head body st =
     hbind (read_next head (snd st)) (\<lambda>pos.
     hbind (read_next pos (snd st)) (\<lambda>tmp. list_for_each_entry_safe n head pos tmp body st))"

text \<open>The end of \<^verbatim>\<open>waiter_poll\<close>: everything on the list is freed, \<open>f\<close> being the effect on the objects that hold the items, and the list is empty.\<close>

definition free_entries :: "nat \<Rightarrow> nat \<Rightarrow> (nat \<Rightarrow> 's \<Rightarrow> 's) \<Rightarrow> 's \<times> item_heap \<Rightarrow> ('s \<times> item_heap) option h_m" where
  "free_entries n head f st =
     hbind (list_loop_safe n head (\<lambda>a (s, h). Inr (f a s, h(a := None))) st) (\<lambda>r.
       case r of None \<Rightarrow> Inr None | Some (s, h) \<Rightarrow> hbind (list_init head h) (\<lambda>h. Inr (Some (s, h))))"

section \<open>Chains\<close>

fun links :: "item_heap \<Rightarrow> nat list \<Rightarrow> bool" where
  "links h (a # b # xs) \<longleftrightarrow> map_option li_next (h a) = Some b \<and> map_option li_prev (h b) = Some a \<and> links h (b # xs)"
| "links h _ \<longleftrightarrow> True"

text \<open>The store has the list \<open>xs\<close> at the head.\<close>

definition list_at :: "item_heap \<Rightarrow> nat \<Rightarrow> nat list \<Rightarrow> bool" where
  "list_at h head xs \<longleftrightarrow> distinct (head # xs) \<and> links h (head # xs @ [head])"

lemma links_append: "links h (us @ a # vs) \<longleftrightarrow> links h (us @ [a]) \<and> links h (a # vs)"
proof (induction us rule: induct_list012)
  case (3 x y zs)
  then show ?case by simp
qed (cases vs; simp)+

lemma links_cong:
  assumes "\<And>a. a \<in> set (butlast xs) \<Longrightarrow> map_option li_next (h' a) = map_option li_next (h a)"
    "\<And>b. b \<in> set (tl xs) \<Longrightarrow> map_option li_prev (h' b) = map_option li_prev (h b)"
  shows "links h' xs = links h xs"
  using assms by (induction h xs rule: links.induct) auto

lemma writes:
  "map_option li_next (h a) = Some v \<Longrightarrow> read_next a h = Inr v" "map_option li_prev (h a) = Some v \<Longrightarrow> read_prev a h = Inr v"
  "h a \<noteq> None \<Longrightarrow> \<exists>h'. write_next a v h = Inr h' \<and> (\<forall>b. map_option li_next (h' b) = (if b = a then Some v else map_option li_next (h b))) \<and>
     (\<forall>b. map_option li_prev (h' b) = map_option li_prev (h b))"
  "h a \<noteq> None \<Longrightarrow> \<exists>h'. write_prev a v h = Inr h' \<and> (\<forall>b. map_option li_prev (h' b) = (if b = a then Some v else map_option li_prev (h b))) \<and>
     (\<forall>b. map_option li_next (h' b) = map_option li_next (h b))"
  by (auto simp: read_next_def read_prev_def write_next_def write_prev_def)

text \<open>What an insertion between \<open>p\<close> and \<open>n\<close> and a removal from between them do to the pointers; nothing else is written.\<close>

definition spliced :: "nat \<Rightarrow> nat \<Rightarrow> nat \<Rightarrow> item_heap \<Rightarrow> item_heap \<Rightarrow> bool" where
  "spliced p i n h h' \<longleftrightarrow>
     (\<forall>b. map_option li_next (h' b) = (if b = p then Some i else if b = i then Some n else map_option li_next (h b))) \<and>
     (\<forall>b. map_option li_prev (h' b) = (if b = n then Some i else if b = i then Some p else map_option li_prev (h b))) \<and>
     (\<forall>b. b \<notin> {p, i, n} \<longrightarrow> h' b = h b)"

definition unspliced :: "nat \<Rightarrow> nat \<Rightarrow> item_heap \<Rightarrow> item_heap \<Rightarrow> bool" where
  "unspliced p n h h' \<longleftrightarrow>
     (\<forall>b. map_option li_next (h' b) = (if b = p then Some n else map_option li_next (h b))) \<and>
     (\<forall>b. map_option li_prev (h' b) = (if b = n then Some p else map_option li_prev (h b))) \<and>
     (\<forall>b. b \<notin> {p, n} \<longrightarrow> h' b = h b)"

lemmas heap_access = read_next_def read_prev_def write_next_def write_prev_def

lemma insert_before_splices:
  assumes "map_option li_prev (h n) = Some p" "h p \<noteq> None" "h i \<noteq> None" "i \<notin> {p, n}"
  shows "\<exists>h'. list_insert_before n i h = Inr h' \<and> spliced p i n h h'"
  using assms by (auto simp: list_insert_before_def heap_access spliced_def)

lemma insert_after_splices:
  assumes "map_option li_next (h p) = Some n" "h n \<noteq> None" "h i \<noteq> None" "i \<notin> {p, n}"
  shows "\<exists>h'. list_insert_after p i h = Inr h' \<and> spliced p i n h h'"
  using assms by (auto simp: list_insert_after_def heap_access spliced_def)

lemma remove_unsplices:
  assumes "map_option li_next (h i) = Some n" "map_option li_prev (h i) = Some p" "h p \<noteq> None" "h n \<noteq> None" "i \<notin> {p, n}"
  shows "\<exists>h'. list_remove i h = Inr h' \<and> unspliced p n h h'"
  using assms by (auto simp: list_remove_def heap_access unspliced_def)

lemma links_join:
  assumes "ps \<noteq> []" "ns \<noteq> []"
  shows "links h (ps @ ns) \<longleftrightarrow> links h ps \<and> links h ns \<and>
    map_option li_next (h (last ps)) = Some (hd ns) \<and> map_option li_prev (h (hd ns)) = Some (last ps)"
proof -
  obtain us p n vs where "ps = us @ [p]" "ns = n # vs"
    using assms by (metis list.exhaust rev_exhaust)
  then show ?thesis
    using links_append [of h us p "n # vs"] by auto
qed

lemma unspliced_links:
  assumes "unspliced (last ps) (hd ns) h h'" "ps \<noteq> []" "ns \<noteq> []" "links h ps" "links h ns"
    "distinct (ps @ butlast ns)" "distinct (tl ps @ ns)"
  shows "links h' (ps @ ns)"
proof -
  obtain us p n vs where e: "ps = us @ [p]" "ns = n # vs"
    using assms(2,3) by (metis list.exhaust rev_exhaust)
  have "links h' ps"
    by (rule links_cong [THEN iffD2, OF _ _ assms(4)]) (use assms e in \<open>auto simp: unspliced_def\<close>)
  moreover have "links h' ns"
    by (rule links_cong [THEN iffD2, OF _ _ assms(5)]) (use assms e in \<open>auto simp: unspliced_def split: if_splits dest: in_set_butlastD\<close>)
  ultimately show ?thesis
    using assms(1-3) by (auto simp: links_join unspliced_def)
qed

lemma spliced_links:
  assumes "spliced (last ps) i (hd ns) h h'" "ps \<noteq> []" "ns \<noteq> []" "links h ps" "links h ns"
    "distinct (ps @ butlast ns)" "distinct (tl ps @ ns)" "i \<notin> set ps" "i \<notin> set ns"
  shows "links h' (ps @ i # ns)"
proof -
  obtain us p n vs where e: "ps = us @ [p]" "ns = n # vs"
    using assms(2,3) by (metis list.exhaust rev_exhaust)
  have t: "set (tl ps) \<subseteq> set ps"
    by (cases ps) auto
  have "links h' ps"
    by (rule links_cong [THEN iffD2, OF _ _ assms(4)]) (use assms e t in \<open>auto simp: spliced_def\<close>)
  moreover have "links h' ns"
    by (rule links_cong [THEN iffD2, OF _ _ assms(5)]) (use assms e in \<open>auto simp: spliced_def split: if_splits dest: in_set_butlastD\<close>)
  ultimately show ?thesis
    using assms(1-3,8,9) e links_append [of h' us p "i # n # vs"] by (auto simp: spliced_def)
qed

lemma links_alloc: "links h xs \<Longrightarrow> 2 \<le> length xs \<Longrightarrow> a \<in> set xs \<Longrightarrow> h a \<noteq> None"
proof (induction h xs rule: links.induct)
  case (1 h a b xs)
  then show ?case by (cases xs) auto
qed auto

section \<open>Lists\<close>

text \<open>The two neighbours at a place in the list: what stands before it and what stands after it, the head at both ends.\<close>

lemma list_at_split:
  "list_at h l (xs @ ys) \<longleftrightarrow> distinct (l # xs @ ys) \<and> links h (l # xs) \<and> links h (ys @ [l]) \<and>
    map_option li_next (h (last (l # xs))) = Some (hd (ys @ [l])) \<and> map_option li_prev (h (hd (ys @ [l]))) = Some (last (l # xs))"
  using links_join [of "l # xs" "ys @ [l]" h] by (simp add: list_at_def)

lemma list_at_alloc: "list_at h l xs \<Longrightarrow> a \<in> set (l # xs) \<Longrightarrow> h a \<noteq> None"
  by (auto simp: list_at_def dest: links_alloc [where a = a])

lemma insert_at:
  assumes "list_at h l (xs @ ys)" "i \<notin> set (l # xs @ ys)" "spliced (last (l # xs)) i (hd (ys @ [l])) h h'"
  shows "list_at h' l (xs @ i # ys)"
proof -
  have "links h' ((l # xs) @ i # ys @ [l])"
    by (rule spliced_links [OF assms(3)]) (use assms(1,2) in \<open>auto simp: list_at_split\<close>)
  then show ?thesis
    using assms(1,2) by (auto simp: list_at_def)
qed

lemma remove_at:
  assumes "list_at h l (xs @ i # ys)" "unspliced (last (l # xs)) (hd (ys @ [l])) h h'"
  shows "list_at h' l (xs @ ys)"
proof -
  have "links h (l # xs)" "links h (i # ys @ [l])" "distinct (l # xs @ i # ys)"
    using assms(1) by (simp_all add: list_at_split)
  moreover from this have "links h (ys @ [l])"
    by (cases ys) simp_all
  ultimately have "links h' ((l # xs) @ ys @ [l])"
    by (intro unspliced_links [OF assms(2)]) simp_all
  then show ?thesis
    using assms(1) by (auto simp: list_at_def)
qed

text \<open>The operations on lists of items that the code stands for.  An item put before the head is the last, one put after it the first.\<close>

datatype list_op = Add nat | Add_tail nat | Insert_before nat nat | Insert_after nat nat | Remove nat

fun list_step :: "nat \<Rightarrow> list_op \<Rightarrow> item_heap \<Rightarrow> item_heap h_m" where
  "list_step l (Add i) h = list_add l i h"
| "list_step l (Add_tail i) h = list_add_tail l i h"
| "list_step l (Insert_before n i) h = list_insert_before n i h"
| "list_step l (Insert_after p i) h = list_insert_after p i h"
| "list_step l (Remove i) h = list_remove i h"

fun op_spec :: "nat \<Rightarrow> list_op \<Rightarrow> nat list \<Rightarrow> nat list" where
  "op_spec l (Add i) xs = i # xs"
| "op_spec l (Add_tail i) xs = xs @ [i]"
| "op_spec l (Insert_before n i) xs = takeWhile (\<lambda>x. x \<noteq> n) xs @ i # dropWhile (\<lambda>x. x \<noteq> n) xs"
| "op_spec l (Insert_after p i) xs =
     (if p = l then i # xs else takeWhile (\<lambda>x. x \<noteq> p) xs @ p # i # tl (dropWhile (\<lambda>x. x \<noteq> p) xs))"
| "op_spec l (Remove i) xs = remove1 i xs"

text \<open>A new item is allocated and not yet in the list, its neighbour is; only an item of the list is removed.\<close>

fun op_ok :: "nat \<Rightarrow> item_heap \<Rightarrow> list_op \<Rightarrow> nat list \<Rightarrow> bool" where
  "op_ok l h (Add i) xs \<longleftrightarrow> h i \<noteq> None \<and> i \<notin> set (l # xs)"
| "op_ok l h (Add_tail i) xs \<longleftrightarrow> h i \<noteq> None \<and> i \<notin> set (l # xs)"
| "op_ok l h (Insert_before n i) xs \<longleftrightarrow> h i \<noteq> None \<and> i \<notin> set (l # xs) \<and> n \<in> set (l # xs)"
| "op_ok l h (Insert_after p i) xs \<longleftrightarrow> h i \<noteq> None \<and> i \<notin> set (l # xs) \<and> p \<in> set (l # xs)"
| "op_ok l h (Remove i) xs \<longleftrightarrow> i \<in> set xs"

fun op_items :: "list_op \<Rightarrow> nat set" where
  "op_items (Remove i) = {i}"
| "op_items (Add i) = {i}"
| "op_items (Add_tail i) = {i}"
| "op_items (Insert_before n i) = {i}"
| "op_items (Insert_after p i) = {i}"

text \<open>A step leaves everything outside the list and the item alone, and allocates and frees nothing.\<close>

definition framed :: "nat set \<Rightarrow> item_heap \<Rightarrow> item_heap \<Rightarrow> bool" where
  "framed A h h' \<longleftrightarrow> dom h' = dom h \<and> (\<forall>b. b \<notin> A \<longrightarrow> h' b = h b)"

lemma neighbours: "last (l # xs) \<in> set (l # xs @ ys)" "hd (ys @ [l]) \<in> set (l # xs @ ys)"
  by (cases ys; simp)+

lemma framedI:
  assumes "\<And>b. b \<notin> A \<Longrightarrow> h' b = h b" "\<And>b. b \<in> A \<Longrightarrow> h' b \<noteq> None" "\<And>b. b \<in> A \<Longrightarrow> h b \<noteq> None"
  shows "framed A h h'"
  unfolding framed_def dom_def using assms by (auto; metis option.distinct(1))

lemma spliced_framed:
  assumes "spliced p i n h h'" "h p \<noteq> None" "h i \<noteq> None" "h n \<noteq> None"
  shows "framed {p, i, n} h h'"
proof (rule framedI)
  fix b assume "b \<in> {p, i, n}"
  then have "map_option li_next (h' b) \<noteq> None \<or> map_option li_prev (h' b) \<noteq> None"
    using assms(1) by (auto simp: spliced_def split: if_splits)
  then show "h' b \<noteq> None"
    by auto
qed (use assms in \<open>auto simp: spliced_def\<close>)

lemma unspliced_framed:
  assumes "unspliced p n h h'" "h p \<noteq> None" "h n \<noteq> None"
  shows "framed {p, n} h h'"
proof (rule framedI)
  fix b assume "b \<in> {p, n}"
  then have "map_option li_next (h' b) \<noteq> None \<or> map_option li_prev (h' b) \<noteq> None"
    using assms(1) by (auto simp: unspliced_def split: if_splits)
  then show "h' b \<noteq> None"
    by auto
qed (use assms in \<open>auto simp: unspliced_def\<close>)

lemma framed_mono: "framed A h h' \<Longrightarrow> A \<subseteq> B \<Longrightarrow> framed B h h'"
  by (auto simp: framed_def)

lemma insert_before_at:
  assumes "list_at h l (xs @ ys)" "i \<notin> set (l # xs @ ys)" "h i \<noteq> None" "n = hd (ys @ [l])"
  shows "\<exists>h'. list_insert_before n i h = Inr h' \<and> list_at h' l (xs @ i # ys) \<and> framed (set (i # l # xs @ ys)) h h'"
proof -
  note nb = neighbours [where l = l and xs = xs and ys = ys]
  have p: "h (last (l # xs)) \<noteq> None" "h (hd (ys @ [l])) \<noteq> None"
    by (rule list_at_alloc [OF assms(1)]; use nb in \<open>simp del: last.simps; blast\<close>)+
  obtain h' where h': "list_insert_before n i h = Inr h'" "spliced (last (l # xs)) i (hd (ys @ [l])) h h'"
    using insert_before_splices [of h n "last (l # xs)" i] p assms nb by (auto simp: list_at_split simp del: last.simps)
  then show ?thesis
    using insert_at [OF assms(1,2)] framed_mono [OF spliced_framed [OF _ p(1) assms(3) p(2)], where B = "set (i # l # xs @ ys)"] nb by auto
qed

lemma insert_after_at:
  assumes "list_at h l (xs @ ys)" "i \<notin> set (l # xs @ ys)" "h i \<noteq> None" "p = last (l # xs)"
  shows "\<exists>h'. list_insert_after p i h = Inr h' \<and> list_at h' l (xs @ i # ys) \<and> framed (set (i # l # xs @ ys)) h h'"
proof -
  note nb = neighbours [where l = l and xs = xs and ys = ys]
  have p: "h (last (l # xs)) \<noteq> None" "h (hd (ys @ [l])) \<noteq> None"
    by (rule list_at_alloc [OF assms(1)]; use nb in \<open>simp del: last.simps; blast\<close>)+
  obtain h' where h': "list_insert_after p i h = Inr h'" "spliced (last (l # xs)) i (hd (ys @ [l])) h h'"
    using insert_after_splices [of h p "hd (ys @ [l])" i] p assms nb by (auto simp: list_at_split simp del: last.simps)
  then show ?thesis
    using insert_at [OF assms(1,2)] framed_mono [OF spliced_framed [OF _ p(1) assms(3) p(2)], where B = "set (i # l # xs @ ys)"] nb by auto
qed

lemma remove_item_at:
  assumes "list_at h l (xs @ i # ys)"
  shows "\<exists>h'. list_remove i h = Inr h' \<and> list_at h' l (xs @ ys) \<and> framed (set (l # xs @ ys)) h h'"
proof -
  note nb = neighbours [where l = l and xs = xs and ys = ys]
  have p: "h (last (l # xs)) \<noteq> None" "h (hd (ys @ [l])) \<noteq> None"
    by (rule list_at_alloc [OF assms(1)]; use nb in \<open>simp del: last.simps; blast\<close>)+
  have "map_option li_prev (h i) = Some (last (l # xs))" "map_option li_next (h i) = Some (hd (ys @ [l]))"
    using assms list_at_split [of h l "xs @ [i]" ys] by (simp_all add: list_at_split)
  moreover have "i \<notin> {last (l # xs), hd (ys @ [l])}"
    using assms nb by (auto simp: list_at_split simp del: last.simps)
  ultimately obtain h' where h': "list_remove i h = Inr h'" "unspliced (last (l # xs)) (hd (ys @ [l])) h h'"
    using remove_unsplices p by blast
  then show ?thesis
    using remove_at [OF assms] framed_mono [OF unspliced_framed [OF _ p], where B = "set (l # xs @ ys)"] nb by auto
qed

section \<open>Refinement\<close>

lemma takeWhile_split: "x \<in> set xs \<Longrightarrow> xs = takeWhile (\<lambda>y. y \<noteq> x) xs @ x # tl (dropWhile (\<lambda>y. y \<noteq> x) xs)"
  by (induction xs) auto

lemma dropWhile_hd: "x \<in> set xs \<Longrightarrow> hd (dropWhile (\<lambda>y. y \<noteq> x) xs) = x"
  by (induction xs) auto

lemma step_refines:
  assumes "list_at h l xs" "op_ok l h op xs"
  shows "\<exists>h'. list_step l op h = Inr h' \<and> list_at h' l (op_spec l op xs) \<and> framed (op_items op \<union> set (l # xs)) h h'"
proof (cases op)
  case (Add i)
  then show ?thesis
    using assms insert_after_at [of h l "[]" xs i l] by (simp add: list_add_def insert_commute)
next
  case (Add_tail i)
  then show ?thesis
    using assms insert_before_at [of h l xs "[]" i l] by (simp add: list_add_tail_def insert_commute)
next
  case (Insert_before n i)
  let ?xs = "takeWhile (\<lambda>x. x \<noteq> n) xs" and ?ys = "dropWhile (\<lambda>x. x \<noteq> n) xs"
  have "n = hd (?ys @ [l])"
    using assms(2) Insert_before by (cases "n \<in> set xs") (auto simp: hd_append dropWhile_hd)
  then show ?thesis
    using Insert_before assms insert_before_at [of h l ?xs ?ys i n] by (simp add: insert_commute set_append [symmetric] del: set_append)
next
  case (Insert_after p i)
  show ?thesis
  proof (cases "p = l")
    case True
    then show ?thesis
      using Insert_after assms insert_after_at [of h l "[]" xs i l] by (simp add: insert_commute)
  next
    case False
    let ?xs = "takeWhile (\<lambda>x. x \<noteq> p) xs @ [p]" and ?ys = "tl (dropWhile (\<lambda>x. x \<noteq> p) xs)"
    have "xs = ?xs @ ?ys"
      using takeWhile_split [of p xs] Insert_after assms(2) False by simp
    then show ?thesis
      using Insert_after False assms insert_after_at [of h l ?xs ?ys i p] by (simp add: insert_commute)
  qed
next
  case (Remove i)
  then obtain ys zs where "xs = ys @ i # zs" "i \<notin> set ys"
    using assms(2) split_list_first by fastforce
  moreover from this obtain h' where "list_remove i h = Inr h'" "list_at h' l (ys @ zs)" "framed (set (l # ys @ zs)) h h'"
    using assms(1) remove_item_at by blast
  moreover from this have "framed ({i} \<union> set (l # xs)) h h'"
    using calculation(1) by (elim framed_mono) auto
  ultimately show ?thesis
    using Remove by (simp add: remove1_append)
qed

lemma list_for_each_at:
  "links h (xs @ [l]) \<Longrightarrow> l \<notin> set xs \<Longrightarrow> length xs \<le> n \<Longrightarrow> list_for_each_entry n l (hd (xs @ [l])) h = Inr (Some xs)"
proof (induction xs arbitrary: n)
  case Nil
  then show ?case by (cases n) simp_all
next
  case (Cons a xs)
  then obtain m where "n = Suc m"
    by (cases n) simp_all
  moreover have "map_option li_next (h a) = Some (hd (xs @ [l]))" "links h (xs @ [l])"
    using Cons.prems(1) by (cases xs; auto)+
  ultimately show ?case
    using Cons by (auto simp: writes)
qed

lemma list_entries_at: "list_at h l xs \<Longrightarrow> length xs \<le> n \<Longrightarrow> list_entries n l h = Inr (Some xs)"
  using list_for_each_at [of h xs l n] list_at_split [of h l "[]" xs] by (auto simp: list_entries_def writes)

text \<open>Freeing every item in a loop that tolerates it: no item is used after it was freed.\<close>

lemma safe_loop_frees:
  assumes "\<And>a s h. body a (s, h) = Inr (f a s, h(a := None))"
  shows "links h (xs @ [l]) \<Longrightarrow> distinct (l # xs) \<Longrightarrow> h l \<noteq> None \<Longrightarrow> length xs \<le> n \<Longrightarrow> xs = [] \<or> tmp = hd (tl xs @ [l]) \<Longrightarrow>
    list_for_each_entry_safe n l (hd (xs @ [l])) tmp body (s, h) = Inr (Some (fold f xs s, h |` (- set xs)))"
proof (induction xs arbitrary: n tmp s h)
  case Nil
  then show ?case by (cases n) simp_all
next
  case (Cons a xs)
  let ?h = "h(a := None)"
  obtain m where n: "n = Suc m" "length xs \<le> m" and t: "tmp = hd (xs @ [l])"
    using Cons.prems by (cases n) simp_all
  have "links ?h (xs @ [l]) = links h (xs @ [l])"
    using Cons.prems(2) by (intro links_cong) (auto dest: list.set_sel(2) [rotated])
  then have l: "links ?h (xs @ [l])"
    using Cons.prems(1) by (cases xs) simp_all
  have "?h tmp \<noteq> None"
    using Cons.prems(2,3) t links_alloc [OF l, of tmp] by (cases xs) auto
  then obtain tmp' where r: "read_next tmp ?h = Inr tmp'" "map_option li_next (?h tmp) = Some tmp'"
    by (auto simp: read_next_def)
  then have "xs = [] \<or> tmp' = hd (tl xs @ [l])"
    using l t by (cases xs rule: remdups_adj.cases) auto
  then have "list_for_each_entry_safe m l (hd (xs @ [l])) tmp' body (f a s, ?h) = Inr (Some (fold f xs (f a s), ?h |` (- set xs)))"
    by (intro Cons.IH [OF l]) (use Cons.prems(2,3) n(2) in auto)
  moreover have "?h |` (- set xs) = h |` (- set (a # xs))"
    by (auto simp: restrict_map_def)
  ultimately show ?case
    using r(1) Cons.prems(2) n(1) t by (auto simp: assms simp del: fun_upd_apply)
qed

lemma list_loop_safe_frees:
  assumes "\<And>a s h. body a (s, h) = Inr (f a s, h(a := None))" "list_at h l xs" "length xs \<le> n"
  shows "list_loop_safe n l body (s, h) = Inr (Some (fold f xs s, h |` (- set xs)))"
proof -
  have s: "map_option li_next (h l) = Some (hd (xs @ [l]))" "links h (xs @ [l])" "distinct (l # xs)" "h l \<noteq> None"
    using assms(2) list_at_split [of h l "[]" xs] by auto
  obtain tmp where t: "map_option li_next (h (hd (xs @ [l]))) = Some tmp"
    using list_at_alloc [OF assms(2), of "hd (xs @ [l])"] by (cases xs) auto
  then have "xs = [] \<or> tmp = hd (tl xs @ [l])"
    using s(2) by (cases xs rule: remdups_adj.cases) auto
  then show ?thesis
    using safe_loop_frees [OF assms(1) s(2,3,4) assms(3)] s(1) t by (simp add: list_loop_safe_def writes)
qed

section \<open>Sequences of operations\<close>

primrec list_ops :: "nat \<Rightarrow> list_op list \<Rightarrow> item_heap \<Rightarrow> item_heap h_m" where
  "list_ops l [] h = Inr h"
| "list_ops l (op # ops) h = hbind (list_step l op h) (list_ops l ops)"

primrec ops_spec :: "nat \<Rightarrow> list_op list \<Rightarrow> nat list \<Rightarrow> nat list" where
  "ops_spec l [] xs = xs"
| "ops_spec l (op # ops) xs = ops_spec l ops (op_spec l op xs)"

primrec ops_ok :: "nat \<Rightarrow> item_heap \<Rightarrow> list_op list \<Rightarrow> nat list \<Rightarrow> bool" where
  "ops_ok l h [] xs \<longleftrightarrow> True"
| "ops_ok l h (op # ops) xs \<longleftrightarrow> op_ok l h op xs \<and> ops_ok l h ops (op_spec l op xs)"

lemma op_ok_dom:
  assumes "dom h' = dom h"
  shows "op_ok l h' op xs = op_ok l h op xs"
proof -
  have "h' i = None \<longleftrightarrow> h i = None" for i
    using assms by (metis domIff)
  then show ?thesis
    by (cases op) (simp_all del: not_None_eq)
qed

lemma ops_ok_dom: "dom h' = dom h \<Longrightarrow> ops_ok l h' ops xs = ops_ok l h ops xs"
proof (induction ops arbitrary: xs)
  case (Cons op ops)
  then show ?case using op_ok_dom [OF Cons.prems] by simp
qed simp

lemma op_spec_items:
  assumes "op_ok l h op xs"
  shows "set (op_spec l op xs) \<subseteq> op_items op \<union> set (l # xs)"
proof (cases op)
  case (Insert_after p i)
  have "set (tl (dropWhile P xs)) \<subseteq> set xs" for P
    by (induction xs) auto
  then show ?thesis
    using Insert_after assms by (auto dest: set_takeWhileD)
next
  case (Remove i)
  then show ?thesis
    using set_remove1_subset [of i xs] by auto
qed (auto dest: set_takeWhileD set_dropWhileD)

lemma framed_trans: "framed A h h1 \<Longrightarrow> framed B h1 h2 \<Longrightarrow> framed (A \<union> B) h h2"
  by (auto simp: framed_def)

lemma ops_refine:
  "list_at h l xs \<Longrightarrow> ops_ok l h ops xs \<Longrightarrow>
    \<exists>h'. list_ops l ops h = Inr h' \<and> list_at h' l (ops_spec l ops xs) \<and> framed ((\<Union>op \<in> set ops. op_items op) \<union> set (l # xs)) h h'"
proof (induction ops arbitrary: h xs)
  case Nil
  then show ?case by (simp add: framed_def)
next
  case (Cons op ops)
  then obtain h1 where h1: "list_step l op h = Inr h1" "list_at h1 l (op_spec l op xs)" "framed (op_items op \<union> set (l # xs)) h h1"
    using step_refines by fastforce
  then have "ops_ok l h1 ops (op_spec l op xs)"
    using Cons.prems(2) ops_ok_dom [of h1 h] by (simp add: framed_def)
  then obtain h2 where h2: "list_ops l ops h1 = Inr h2" "list_at h2 l (ops_spec l ops (op_spec l op xs))"
    "framed ((\<Union>op \<in> set ops. op_items op) \<union> set (l # op_spec l op xs)) h1 h2"
    using Cons.IH [OF h1(2)] by blast
  have "framed ((\<Union>op \<in> set (op # ops). op_items op) \<union> set (l # xs)) h h2"
    using framed_trans [OF h1(3) h2(3)] op_spec_items [of l h op xs] Cons.prems(2) by (elim framed_mono) auto
  then show ?case
    using h1(1) h2(1,2) by simp
qed

lemma list_init_at: "h l \<noteq> None \<Longrightarrow> \<exists>h'. list_init l h = Inr h' \<and> list_at h' l [] \<and> framed {l} h h'"
  by (auto simp: list_init_def heap_access list_at_def framed_def)

section \<open>Lists of objects that wait to be freed\<close>

text \<open>What the users of a list rely on: an item can be added, memory can be allocated, and everything on the list can be freed at once.\<close>

locale removal_list =
  fixes head :: nat
    and entries :: "'h \<Rightarrow> nat list \<Rightarrow> bool"
    and allocated :: "'h \<Rightarrow> nat \<Rightarrow> bool"
    and alloc :: "nat \<Rightarrow> 'h \<Rightarrow> 'h"
    and add :: "nat \<Rightarrow> 'h \<Rightarrow> 'h h_m"
    and drain :: "nat \<Rightarrow> (nat \<Rightarrow> 's \<Rightarrow> 's) \<Rightarrow> 's \<times> 'h \<Rightarrow> ('s \<times> 'h) option h_m"
  assumes entries_allocated: "entries h xs \<Longrightarrow> i \<in> set xs \<Longrightarrow> allocated h i"
    and alloc_fresh: "entries h xs \<Longrightarrow> \<not> allocated h i \<Longrightarrow> i \<noteq> head \<Longrightarrow> entries (alloc i h) xs \<and> (\<forall>j. allocated (alloc i h) j \<longleftrightarrow> j = i \<or> allocated h j)"
    and add_entry: "entries h xs \<Longrightarrow> allocated h i \<Longrightarrow> i \<notin> set xs \<Longrightarrow>
      \<exists>h'. add i h = Inr h' \<and> entries h' (i # xs) \<and> (\<forall>j. allocated h' j = allocated h j)"
    and drain_entries: "entries h xs \<Longrightarrow>
      \<exists>h'. (\<forall>n \<ge> length xs. drain n f (s, h) = Inr (Some (fold f xs s, h'))) \<and> entries h' [] \<and> (\<forall>j. allocated h' j \<longleftrightarrow> allocated h j \<and> j \<notin> set xs)"
begin

primrec add_all :: "nat list \<Rightarrow> 'h \<Rightarrow> 'h h_m" where
  "add_all [] h = Inr h"
| "add_all (i # is) h = hbind (add i h) (add_all is)"

lemma add_all_entries:
  "entries h xs \<Longrightarrow> distinct is \<Longrightarrow> set is \<inter> set xs = {} \<Longrightarrow> (\<forall>i \<in> set is. allocated h i) \<Longrightarrow>
    \<exists>h'. add_all is h = Inr h' \<and> entries h' (rev is @ xs) \<and> (\<forall>j. allocated h' j = allocated h j)"
proof (induction "is" arbitrary: h xs)
  case (Cons i "is")
  then obtain h1 where "add i h = Inr h1" "entries h1 (i # xs)" "\<forall>j. allocated h1 j = allocated h j"
    using add_entry [of h xs i] by auto
  then show ?case
    using Cons.IH [of h1 "i # xs"] Cons.prems by fastforce
qed simp

text \<open>What was added since the list was empty is freed, and nothing else.\<close>

lemma add_all_then_drain:
  assumes "entries h []" "distinct is" "\<forall>i \<in> set is. allocated h i" "length is \<le> n"
  shows "\<exists>h1 h2. add_all is h = Inr h1 \<and> drain n f (s, h1) = Inr (Some (fold f (rev is) s, h2)) \<and> entries h2 [] \<and>
    (\<forall>j. allocated h2 j \<longleftrightarrow> allocated h j \<and> j \<notin> set is)"
proof -
  obtain h1 where "add_all is h = Inr h1" "entries h1 (rev is)" "\<forall>j. allocated h1 j = allocated h j"
    using add_all_entries [OF assms(1,2)] assms(3) by auto
  then show ?thesis
    using drain_entries [of h1 "rev is" f s] assms(4) by auto
qed

end

text \<open>The list with its head at \<open>l\<close> keeps these promises.\<close>

abbreviation item_at :: "nat \<Rightarrow> item_heap \<Rightarrow> nat \<Rightarrow> bool" where
  "item_at l h i \<equiv> i \<noteq> l \<and> h i \<noteq> None"

abbreviation new_item :: "nat \<Rightarrow> item_heap \<Rightarrow> item_heap" where
  "new_item i h \<equiv> h(i \<mapsto> \<lparr>li_prev = 0, li_next = 0\<rparr>)"

lemma list_at_cong: "list_at h l xs \<Longrightarrow> (\<And>b. b \<in> set (l # xs) \<Longrightarrow> h' b = h b) \<Longrightarrow> list_at h' l xs"
  unfolding list_at_def by (subst links_cong [of _ h' h]) (auto dest: in_set_butlastD)

lemma free_entries_at:
  assumes "list_at h l xs"
  shows "\<exists>h'. (\<forall>n \<ge> length xs. free_entries n l f (s, h) = Inr (Some (fold f xs s, h'))) \<and> list_at h' l [] \<and> framed {l} (h |` (- set xs)) h'"
proof -
  have "(h |` (- set xs)) l \<noteq> None"
    using assms(1) list_at_alloc [of h l xs l] by (auto simp: list_at_def)
  then obtain h' where "list_init l (h |` (- set xs)) = Inr h'" "list_at h' l []" "framed {l} (h |` (- set xs)) h'"
    using list_init_at by blast
  moreover have "list_loop_safe n l (\<lambda>a (s, h). Inr (f a s, h(a := None))) (s, h) = Inr (Some (fold f xs s, h |` (- set xs)))" if "length xs \<le> n" for n
    by (rule list_loop_safe_frees [OF _ assms that]) simp
  ultimately show ?thesis
    by (auto simp: free_entries_def)
qed

lemma framed_allocated: "framed A h h' \<Longrightarrow> h' j = None \<longleftrightarrow> h j = None"
  by (metis domIff framed_def)

interpretation removals: removal_list l "\<lambda>h. list_at h l" "item_at l" new_item "list_add l" "\<lambda>n. free_entries n l" for l
proof
  fix h xs i assume h: "list_at h l xs"
  show "i \<in> set xs \<Longrightarrow> item_at l h i"
    using list_at_alloc [OF h, of i] h by (auto simp: list_at_def)
  show "\<not> item_at l h i \<Longrightarrow> i \<noteq> l \<Longrightarrow> list_at (new_item i h) l xs \<and> (\<forall>j. item_at l (new_item i h) j \<longleftrightarrow> j = i \<or> item_at l h j)"
    using list_at_alloc [OF h, of i] by (auto intro!: list_at_cong [OF h])
  show "item_at l h i \<Longrightarrow> i \<notin> set xs \<Longrightarrow> \<exists>h'. list_add l i h = Inr h' \<and> list_at h' l (i # xs) \<and> (\<forall>j. item_at l h' j = item_at l h j)"
    using step_refines [OF h, of "Add i"] by (auto simp del: not_None_eq simp: framed_allocated)
next
  fix h xs f and s :: 's assume a: "list_at h l xs"
  obtain h' where "\<forall>n \<ge> length xs. free_entries n l f (s, h) = Inr (Some (fold f xs s, h'))" "list_at h' l []" "framed {l} (h |` (- set xs)) h'"
    using free_entries_at [OF a, of f s] by (elim exE conjE)
  then show "\<exists>h'. (\<forall>n \<ge> length xs. free_entries n l f (s, h) = Inr (Some (fold f xs s, h'))) \<and> list_at h' l [] \<and> (\<forall>j. item_at l h' j \<longleftrightarrow> item_at l h j \<and> j \<notin> set xs)"
    by (intro exI [of _ h']) (auto simp del: not_None_eq simp: framed_allocated restrict_map_def)
qed

text \<open>C15: a list that is initialised and then changed by any sequence of \<^verbatim>\<open>list_add\<close>, \<^verbatim>\<open>list_add_tail\<close>, \<^verbatim>\<open>list_insert_before\<close>,
  \<^verbatim>\<open>list_insert_after\<close> and \<^verbatim>\<open>list_remove\<close> is the list of items that the sequence stands for: no pointer outside the store is followed, the loop of
  \<^verbatim>\<open>list_for_each_entry\<close> ends and visits the items in their order, and nothing but the head and the items named is written.\<close>

theorem linked_list_refines:
  assumes "h l \<noteq> None" "ops_ok l h ops []"
  shows "\<exists>h0 h'. list_init l h = Inr h0 \<and> list_ops l ops h0 = Inr h' \<and>
    (\<forall>n \<ge> length (ops_spec l ops []). list_entries n l h' = Inr (Some (ops_spec l ops []))) \<and>
    dom h' = dom h \<and> (\<forall>b. b \<noteq> l \<and> b \<notin> (\<Union>op \<in> set ops. op_items op) \<longrightarrow> h' b = h b)"
proof -
  obtain h0 where h0: "list_init l h = Inr h0" "list_at h0 l []" "framed {l} h h0"
    using list_init_at [of h l] assms(1) by blast
  moreover obtain h' where "list_ops l ops h0 = Inr h'" "list_at h' l (ops_spec l ops [])"
    "framed ((\<Union>op \<in> set ops. op_items op) \<union> set [l]) h0 h'"
    using ops_refine [OF h0(2), of ops] ops_ok_dom [of h0 h] h0(3) assms(2) by (auto simp: framed_def)
  ultimately show ?thesis
    using list_entries_at by (auto simp: framed_def)
qed

definition four_items :: item_heap where
  "four_items = (\<lambda>a. if a < 5 then Some \<lparr>li_prev = 0, li_next = 0\<rparr> else None)"

theorem linked_list_refines_witness:
  "\<exists>h0 h'. list_init 0 four_items = Inr h0 \<and>
    list_ops 0 [Add 1, Add_tail 2, Insert_before 2 3, Insert_after 0 4, Remove 1, Add_tail 1] h0 = Inr h' \<and>
    list_entries 9 0 h' = Inr (Some [4, 3, 2, 1])"
  using linked_list_refines [of four_items 0 "[Add 1, Add_tail 2, Insert_before 2 3, Insert_after 0 4, Remove 1, Add_tail 1]"]
  by (auto simp: four_items_def)

end
