(* ===== verification/Waiter.thy ===== *)
theory Waiter
  imports Linked_List "HOL-Library.Signed_Division"
begin

text \<open>
  The wait set of \<^verbatim>\<open>lib/waiter/waiter.c\<close>: waiters on files and timers, the copies that stay the same during a call of \<^verbatim>\<open>waiter_poll\<close>, the
  callbacks, and the list of the removed waiters that are freed at the end of the call.  A waiter that was freed is not in \<open>ws_heap\<close>; its list
  item has the same address, and the head of the list of removed waiters is at 0.  What a callback does is a parameter: the calls it makes to register and remove waiters, and its result.
  The clock and \<^verbatim>\<open>poll\<close> are parameters, too.
\<close>

section \<open>Times\<close>

record timeval =
  tv_sec :: int
  tv_usec :: int

definition timerclear :: timeval where
  "timerclear = \<lparr>tv_sec = 0, tv_usec = 0\<rparr>"

definition timerisset :: "timeval \<Rightarrow> bool" where
  "timerisset t \<longleftrightarrow> tv_sec t \<noteq> 0 \<or> tv_usec t \<noteq> 0"

definition timercmp_less :: "timeval \<Rightarrow> timeval \<Rightarrow> bool" where
  "timercmp_less a b \<longleftrightarrow> (if tv_sec a = tv_sec b then tv_usec a < tv_usec b else tv_sec a < tv_sec b)"

definition timeradd :: "timeval \<Rightarrow> timeval \<Rightarrow> timeval" where
  "timeradd a b =
     (let s = tv_sec a + tv_sec b; u = tv_usec a + tv_usec b
      in if u \<ge> 1000000 then \<lparr>tv_sec = s + 1, tv_usec = u - 1000000\<rparr> else \<lparr>tv_sec = s, tv_usec = u\<rparr>)"

definition timersub :: "timeval \<Rightarrow> timeval \<Rightarrow> timeval" where
  "timersub a b =
     (let s = tv_sec a - tv_sec b; u = tv_usec a - tv_usec b
      in if u < 0 then \<lparr>tv_sec = s - 1, tv_usec = u + 1000000\<rparr> else \<lparr>tv_sec = s, tv_usec = u\<rparr>)"

section \<open>The wait set\<close>

datatype waiter_type = WAITER_IO int int | WAITER_TIME timeval

record 'c waiter =
  wt_type :: waiter_type
  wt_callback :: 'c
  wt_active :: bool

text \<open>The calls a callback makes, and \<open>ws_called\<close>, the trace of the callbacks that were called with what they did.\<close>

datatype 'c wait_action = Register_io int int 'c | Register_timeout int 'c | Remove_waiter nat

record 'c waitset =
  ws_waiters :: "nat list"
  ws_changed :: bool
  ws_next_timeout :: timeval
  ws_pollfds :: "(int \<times> int) list"
  ws_io_waiters :: "nat list"
  ws_time_waiters :: "nat list"
  ws_heap :: "nat \<Rightarrow> 'c waiter option"
  ws_items :: item_heap
  ws_fresh :: nat
  ws_ticks :: nat
  ws_called :: "(nat \<times> 'c wait_action list) list"

datatype poll_result = Poll_failed bool | Poll_done "nat \<Rightarrow> int"

record 'c wait_env =
  we_clock :: "nat \<Rightarrow> timeval"
  we_poll :: "(int \<times> int) list \<Rightarrow> int \<Rightarrow> poll_result"
  we_callback :: "'c \<Rightarrow> 'c waitset \<Rightarrow> int \<times> 'c wait_action list"

definition gettimeofday :: "'c wait_env \<Rightarrow> 'c waitset \<Rightarrow> timeval \<times> 'c waitset" where
  "gettimeofday env s = (we_clock env (ws_ticks s), s\<lparr>ws_ticks := Suc (ws_ticks s)\<rparr>)"

definition get_waiter :: "nat \<Rightarrow> 'c waitset \<Rightarrow> 'c waiter h_m" where
  "get_waiter w s = (case ws_heap s w of Some wt \<Rightarrow> Inr wt | None \<Rightarrow> Inl Use_after_free)"

definition waitset_create :: "'c waitset" where
  "waitset_create = \<lparr>ws_waiters = [], ws_changed = False, ws_next_timeout = timerclear, ws_pollfds = [], ws_io_waiters = [], ws_time_waiters = [],
     ws_heap = (\<lambda>_. None), ws_items = [0 \<mapsto> \<lparr>li_prev = 0, li_next = 0\<rparr>], ws_fresh = 1, ws_ticks = 0, ws_called = []\<rparr>"

text \<open>\<^verbatim>\<open>waiter_new\<close> and the assignments of its callers.\<close>

definition waiter_new :: "waiter_type \<Rightarrow> 'c \<Rightarrow> 'c waitset \<Rightarrow> nat \<times> 'c waitset" where
  "waiter_new t c s =
     (let w = ws_fresh s
      in (w, s\<lparr>ws_changed := True, ws_waiters := ws_waiters s @ [w], ws_fresh := Suc w,
               ws_heap := (ws_heap s)(w \<mapsto> \<lparr>wt_type = t, wt_callback = c, wt_active = True\<rparr>),
               ws_items := new_item w (ws_items s)\<rparr>))"

definition waiter_register_io :: "int \<Rightarrow> int \<Rightarrow> 'c \<Rightarrow> 'c waitset \<Rightarrow> nat \<times> 'c waitset" where
  "waiter_register_io fd events c s = waiter_new (WAITER_IO fd events) c s"

definition register_timeout :: "'c wait_env \<Rightarrow> int \<Rightarrow> 'c \<Rightarrow> 'c waitset \<Rightarrow> nat \<times> 'c waitset" where
  "register_timeout env delay_ms c s =
     (let (now, s) = gettimeofday env s;
          delay = \<lparr>tv_sec = delay_ms sdiv 1000, tv_usec = 1000 * (delay_ms smod 1000)\<rparr>
      in waiter_new (WAITER_TIME (timeradd now delay)) c s)"

definition remove_waiter :: "nat \<Rightarrow> 'c waitset \<Rightarrow> 'c waitset h_m" where
  "remove_waiter w s =
     hbind (get_waiter w s) (\<lambda>wt.
     if w \<notin> set (ws_waiters s) then Inl Assertion
     else let s = s\<lparr>ws_waiters := remove1 w (ws_waiters s), ws_changed := True, ws_heap := (ws_heap s)(w \<mapsto> wt\<lparr>wt_active := False\<rparr>)\<rparr>
          in hbind (list_add 0 w (ws_items s)) (\<lambda>items. Inr (s\<lparr>ws_items := items\<rparr>)))"

section \<open>Polling\<close>

fun copy_waiters :: "nat list \<Rightarrow> 'c waitset \<Rightarrow> 'c waitset h_m" where
  "copy_waiters [] s = Inr s"
| "copy_waiters (w # ws) s =
     hbind (get_waiter w s) (\<lambda>wt.
     case wt_type wt of
       WAITER_IO fd events \<Rightarrow> copy_waiters ws (s\<lparr>ws_pollfds := ws_pollfds s @ [(fd, events)], ws_io_waiters := ws_io_waiters s @ [w]\<rparr>)
     | WAITER_TIME t \<Rightarrow>
         copy_waiters ws (s\<lparr>ws_next_timeout := (if \<not> timerisset (ws_next_timeout s) \<or> timercmp_less t (ws_next_timeout s) then t else ws_next_timeout s),
                            ws_time_waiters := ws_time_waiters s @ [w]\<rparr>))"

definition update_waiters :: "'c waitset \<Rightarrow> 'c waitset h_m" where
  "update_waiters s =
     (if \<not> ws_changed s then Inr s
      else copy_waiters (ws_waiters s) (s\<lparr>ws_pollfds := [], ws_io_waiters := [], ws_time_waiters := [], ws_next_timeout := timerclear\<rparr>))"

text \<open>The milliseconds are assigned to an \<^verbatim>\<open>int\<close>.\<close>

definition poll_timeout :: "'c wait_env \<Rightarrow> 'c waitset \<Rightarrow> int \<times> 'c waitset" where
  "poll_timeout env s =
     (if timerisset (ws_next_timeout s) then
        let (now, s) = gettimeofday env s;
            timeout = timersub (ws_next_timeout s) now;
            timeout_ms = signed_take_bit 31 (tv_sec timeout * 1000 + tv_usec timeout div 1000)
        in (if timeout_ms < 0 then 0 else timeout_ms, s)
      else (-1, s))"

fun do_action :: "'c wait_env \<Rightarrow> 'c wait_action \<Rightarrow> 'c waitset \<Rightarrow> 'c waitset h_m" where
  "do_action env (Register_io fd events c) s = Inr (snd (waiter_register_io fd events c s))"
| "do_action env (Register_timeout delay_ms c) s = Inr (snd (register_timeout env delay_ms c s))"
| "do_action env (Remove_waiter w) s = remove_waiter w s"

primrec do_actions :: "'c wait_env \<Rightarrow> 'c wait_action list \<Rightarrow> 'c waitset \<Rightarrow> 'c waitset h_m" where
  "do_actions env [] s = Inr s"
| "do_actions env (a # as) s = hbind (do_action env a s) (do_actions env as)"

definition call_waiter :: "'c wait_env \<Rightarrow> nat \<Rightarrow> 'c waiter \<Rightarrow> 'c waitset \<Rightarrow> (int \<times> 'c waitset) h_m" where
  "call_waiter env w wt s =
     (let (rc, acts) = we_callback env (wt_callback wt) s
      in hbind (do_actions env acts (s\<lparr>ws_called := ws_called s @ [(w, acts)]\<rparr>)) (\<lambda>s. Inr (rc, s)))"

fun io_callbacks :: "'c wait_env \<Rightarrow> (nat \<Rightarrow> int) \<Rightarrow> nat \<Rightarrow> nat list \<Rightarrow> 'c waitset \<Rightarrow> 'c waitset h_m" where
  "io_callbacks env revents i [] s = Inr s"
| "io_callbacks env revents i (w # ws) s =
     hbind (get_waiter w s) (\<lambda>wt.
     if \<not> wt_active wt \<or> revents i = 0 then io_callbacks env revents (Suc i) ws s
     else hbind (call_waiter env w wt s) (\<lambda>(rc, s).
          hbind (if rc \<noteq> 0 then remove_waiter w s else Inr s) (io_callbacks env revents (Suc i) ws)))"

definition timer_expired :: "timeval \<Rightarrow> 'c waiter \<Rightarrow> bool" where
  "timer_expired now wt = (case wt_type wt of WAITER_TIME t \<Rightarrow> \<not> timercmp_less now t | WAITER_IO _ _ \<Rightarrow> False)"

fun time_callbacks :: "'c wait_env \<Rightarrow> timeval \<Rightarrow> nat list \<Rightarrow> 'c waitset \<Rightarrow> 'c waitset h_m" where
  "time_callbacks env now [] s = Inr s"
| "time_callbacks env now (w # ws) s =
     hbind (get_waiter w s) (\<lambda>wt.
     if \<not> wt_active wt \<or> \<not> timer_expired now wt then time_callbacks env now ws s
     else hbind (call_waiter env w wt s) (\<lambda>(rc, s). hbind (remove_waiter w s) (time_callbacks env now ws)))"

definition dispatch :: "'c wait_env \<Rightarrow> (nat \<Rightarrow> int) \<Rightarrow> 'c waitset \<Rightarrow> 'c waitset h_m" where
  "dispatch env revents s =
     hbind (io_callbacks env revents 0 (ws_io_waiters s) s) (\<lambda>s.
     let (now, s) = (if ws_time_waiters s \<noteq> [] then gettimeofday env s else (timerclear, s))
     in time_callbacks env now (ws_time_waiters s) s)"

definition free_removed :: "nat \<Rightarrow> 'c waitset \<Rightarrow> 'c waitset option h_m" where
  "free_removed n s =
     hbind (free_entries n 0 (\<lambda>w hp. hp(w := None)) (ws_heap s, ws_items s)) (\<lambda>r.
     Inr (map_option (\<lambda>(hp, items). s\<lparr>ws_heap := hp, ws_items := items\<rparr>) r))"

text \<open>The whole of \<^verbatim>\<open>waiter_poll\<close>; \<open>n\<close> bounds the loop over the removed waiters, and \<open>None\<close> says that it was not enough.\<close>

definition waiter_poll :: "nat \<Rightarrow> 'c wait_env \<Rightarrow> 'c waitset \<Rightarrow> (int \<times> 'c waitset) option h_m" where
  "waiter_poll n env s =
     hbind (update_waiters s) (\<lambda>s.
     let (timeout_ms, s) = poll_timeout env s
     in hbind (case we_poll env (ws_pollfds s) timeout_ms of
                 Poll_failed eintr \<Rightarrow> Inr (if eintr then 0 else -1, s)
               | Poll_done revents \<Rightarrow> hbind (dispatch env revents s) (\<lambda>s. Inr (0, s))) (\<lambda>(rc, s).
        hbind (free_removed n s) (\<lambda>r. Inr (map_option (Pair rc) r))))"

end
