(* ===== verification/Waiter_Props.thy ===== *)
theory Waiter_Props
  imports Waiter Device_Props "HOL-Library.Sublist"
begin

text \<open>
  Correctness of the wait set: what every operation keeps, which callbacks are called, and how long a call waits.
\<close>

section \<open>Consistency\<close>

text \<open>\<open>fl\<close> are the removed waiters that have not been freed.\<close>

definition ws_ok :: "'c waitset \<Rightarrow> nat list \<Rightarrow> bool" where
  "ws_ok s fl \<longleftrightarrow>
     list_at (ws_items s) 0 fl \<and> distinct (ws_waiters s) \<and> set (ws_waiters s) \<inter> set fl = {} \<and>
     dom (ws_heap s) = set (ws_waiters s) \<union> set fl \<and>
     (\<forall>w wt. ws_heap s w = Some wt \<longrightarrow> (wt_active wt \<longleftrightarrow> w \<in> set (ws_waiters s))) \<and>
     Collect (item_at 0 (ws_items s)) = dom (ws_heap s) \<and>
     (\<forall>w \<in> dom (ws_heap s). w < ws_fresh s) \<and> 0 < ws_fresh s \<and>
     (ws_changed s \<or> ws_waiters s = [] \<and> ws_io_waiters s = [] \<and> ws_time_waiters s = [])"

lemma ws_okI:
  assumes "list_at (ws_items s) 0 fl" "distinct (ws_waiters s)" "set (ws_waiters s) \<inter> set fl = {}"
    "dom (ws_heap s) = set (ws_waiters s) \<union> set fl"
    "\<And>w wt. ws_heap s w = Some wt \<Longrightarrow> wt_active wt \<longleftrightarrow> w \<in> set (ws_waiters s)"
    "Collect (item_at 0 (ws_items s)) = dom (ws_heap s)" "\<And>w. w \<in> dom (ws_heap s) \<Longrightarrow> w < ws_fresh s" "0 < ws_fresh s"
    "ws_changed s \<or> ws_waiters s = [] \<and> ws_io_waiters s = [] \<and> ws_time_waiters s = []"
  shows "ws_ok s fl"
  unfolding ws_ok_def using assms by (intro conjI allI impI ballI) simp_all

lemma ws_okD:
  assumes "ws_ok s fl"
  shows "list_at (ws_items s) 0 fl" "distinct (ws_waiters s)" "set (ws_waiters s) \<inter> set fl = {}"
    "dom (ws_heap s) = set (ws_waiters s) \<union> set fl"
    "\<And>w wt. ws_heap s w = Some wt \<Longrightarrow> wt_active wt \<longleftrightarrow> w \<in> set (ws_waiters s)"
    "Collect (item_at 0 (ws_items s)) = dom (ws_heap s)" "\<And>w. w \<in> dom (ws_heap s) \<Longrightarrow> w < ws_fresh s" "0 < ws_fresh s"
    "ws_changed s \<or> ws_waiters s = [] \<and> ws_io_waiters s = [] \<and> ws_time_waiters s = []"
  using assms unfolding ws_ok_def by blast+

text \<open>The copies stay, and so do the waiters, but those that were removed.\<close>

definition later :: "'c waitset \<Rightarrow> 'c waitset \<Rightarrow> bool" where
  "later s s' \<longleftrightarrow>
     ws_io_waiters s' = ws_io_waiters s \<and> ws_time_waiters s' = ws_time_waiters s \<and> ws_fresh s \<le> ws_fresh s' \<and>
     (\<forall>w wt. ws_heap s w = Some wt \<longrightarrow>
        (\<exists>wt'. ws_heap s' w = Some wt' \<and> wt_type wt' = wt_type wt \<and> wt_callback wt' = wt_callback wt) \<and>
        (w \<in> set (ws_waiters s') \<longrightarrow> w \<in> set (ws_waiters s)))"

lemma later_refl [simp]: "later s s"
  by (simp add: later_def)

lemma later_trans: "later s s1 \<Longrightarrow> later s1 s2 \<Longrightarrow> later s s2"
  by (fastforce simp: later_def)

lemma ws_ok_create: "ws_ok waitset_create []"
  by (rule ws_okI) (auto simp: waitset_create_def list_at_def)

lemma ws_ok_frame:
  assumes "ws_ok s fl" "ws_waiters s' = ws_waiters s" "ws_heap s' = ws_heap s" "ws_items s' = ws_items s" "ws_fresh s' = ws_fresh s"
    "ws_changed s' = ws_changed s" "ws_changed s \<or> ws_io_waiters s' = ws_io_waiters s \<and> ws_time_waiters s' = ws_time_waiters s"
  shows "ws_ok s' fl"
  using assms by (auto simp: ws_ok_def)

lemma waiter_new_ok:
  assumes "ws_ok s fl"
  shows "ws_ok (snd (waiter_new t c s)) fl" "later s (snd (waiter_new t c s))"
    "ws_waiters (snd (waiter_new t c s)) = ws_waiters s @ [ws_fresh s]" "ws_fresh (snd (waiter_new t c s)) = Suc (ws_fresh s)"
proof -
  let ?w = "ws_fresh s" and ?items = "new_item (ws_fresh s) (ws_items s)"
  note ok = ws_okD [OF assms]
  have n: "?w \<notin> dom (ws_heap s)" "?w \<noteq> 0"
    using ok(7,8) by auto
  then have "\<not> item_at 0 (ws_items s) ?w"
    using ok(6) by blast
  note a = removals.alloc_fresh [OF ok(1) this n(2)]
  have i: "list_at ?items 0 fl" "Collect (item_at 0 ?items) = insert ?w (dom (ws_heap s))"
    using a n(2) unfolding ok(6) [symmetric] by (simp_all del: fun_upd_apply not_None_eq add: set_eq_iff)
  have w: "?w \<notin> set (ws_waiters s)" "?w \<notin> set fl"
    using n(1) ok(4) by blast+
  show "ws_ok (snd (waiter_new t c s)) fl"
  proof (rule ws_okI)
    fix w wt assume "ws_heap (snd (waiter_new t c s)) w = Some wt"
    then show "wt_active wt \<longleftrightarrow> w \<in> set (ws_waiters (snd (waiter_new t c s)))"
      using ok(5) by (auto simp: waiter_new_def Let_def split: if_splits)
  next
    fix w assume "w \<in> dom (ws_heap (snd (waiter_new t c s)))"
    then show "w < ws_fresh (snd (waiter_new t c s))"
      using ok(7) [of w] by (auto simp: waiter_new_def Let_def domIff split: if_splits)
  qed (use ok(1-4) i w in \<open>simp_all add: waiter_new_def Let_def del: fun_upd_apply\<close>)
  show "later s (snd (waiter_new t c s))"
    using n(1) by (auto simp: later_def waiter_new_def Let_def)
qed (simp_all add: waiter_new_def Let_def)

lemma remove_waiter_ok:
  assumes "ws_ok s fl" "w \<in> set (ws_waiters s)"
  shows "\<exists>s'. remove_waiter w s = Inr s' \<and> ws_ok s' (w # fl) \<and> later s s' \<and> ws_waiters s' = remove1 w (ws_waiters s) \<and>
    ws_fresh s' = ws_fresh s \<and> ws_called s' = ws_called s"
proof -
  note ok = ws_okD [OF assms(1)]
  obtain wt where wt: "ws_heap s w = Some wt"
    using assms(2) ok(4) by blast
  have "w \<notin> set fl" "item_at 0 (ws_items s) w"
    using assms(2) ok(3,4,6) by blast+
  then obtain items where items: "list_add 0 w (ws_items s) = Inr items" "list_at items 0 (w # fl)" "\<forall>j. item_at 0 items j = item_at 0 (ws_items s) j"
    using removals.add_entry [OF ok(1)] by blast
  define s' where "s' = s\<lparr>ws_waiters := remove1 w (ws_waiters s), ws_changed := True, ws_heap := (ws_heap s)(w \<mapsto> wt\<lparr>wt_active := False\<rparr>), ws_items := items\<rparr>"
  have r: "set (remove1 w (ws_waiters s)) = set (ws_waiters s) - {w}"
    using ok(2) by simp
  have "remove_waiter w s = Inr s'"
    using assms(2) wt items(1) by (simp add: remove_waiter_def get_waiter_def s'_def)
  moreover have "ws_ok s' (w # fl)"
  proof (rule ws_okI)
    show "dom (ws_heap s') = set (ws_waiters s') \<union> set (w # fl)"
      using ok(4) assms(2) r by (auto simp: s'_def)
    show "Collect (item_at 0 (ws_items s')) = dom (ws_heap s')"
      using items(3) ok(6) wt by (auto simp: s'_def simp del: not_None_eq)
    show "wt_active wt' \<longleftrightarrow> w' \<in> set (ws_waiters s')" if "ws_heap s' w' = Some wt'" for w' wt'
      using that ok(5) r by (auto simp: s'_def split: if_splits)
    show "w' < ws_fresh s'" if "w' \<in> dom (ws_heap s')" for w'
      using that ok(7) [of w'] ok(7) [of w] wt by (auto simp: s'_def domIff split: if_splits)
  qed (use ok(2,3,8) items(2) r in \<open>auto simp: s'_def\<close>)
  moreover have "later s s'"
    using wt assms(2) by (auto simp: later_def s'_def dest: notin_set_remove1 split: if_splits)
  ultimately show ?thesis
    by (auto simp: s'_def)
qed

lemma remove_waiter_faults:
  assumes "ws_ok s fl" "w \<notin> set (ws_waiters s)"
  shows "remove_waiter w s = Inl (if w \<in> set fl then Assertion else Use_after_free)"
proof -
  note ok = ws_okD [OF assms(1)]
  show ?thesis
  proof (cases "w \<in> set fl")
    case True
    then obtain wt where "ws_heap s w = Some wt"
      using ok(4) by blast
    then show ?thesis
      using True assms(2) by (simp add: remove_waiter_def get_waiter_def)
  next
    case False
    then have "ws_heap s w = None"
      using assms(2) ok(4) by blast
    then show ?thesis
      using False by (simp add: remove_waiter_def get_waiter_def)
  qed
qed

section \<open>Callbacks\<close>

text \<open>The registered waiters after the calls of a callback, with \<open>n\<close> the next address; \<open>None\<close>: it removes a waiter that is not registered.\<close>

fun acts_after :: "nat list \<Rightarrow> nat \<Rightarrow> 'c wait_action list \<Rightarrow> nat list option" where
  "acts_after ws n [] = Some ws"
| "acts_after ws n (Remove_waiter w # as) = (if w \<in> set ws then acts_after (remove1 w ws) n as else None)"
| "acts_after ws n (_ # as) = acts_after (ws @ [n]) (Suc n) as"

lemma acts_after_keeps: "acts_after ws n as = Some ws' \<Longrightarrow> v \<in> set ws \<Longrightarrow> v \<in> set ws' \<or> Remove_waiter v \<in> set as"
proof (induction ws n as rule: acts_after.induct)
  case (2 ws n w as)
  then show ?case by (cases "v = w") (auto simp: in_set_remove1 split: if_splits)
qed auto

definition is_timer :: "'c waiter \<Rightarrow> bool" where
  "is_timer wt = (case wt_type wt of WAITER_TIME _ \<Rightarrow> True | WAITER_IO _ _ \<Rightarrow> False)"

text \<open>A callback removes only registered waiters, and its own neither if it belongs to a timer nor if its result has it removed.\<close>

definition polite_call :: "'c waitset \<Rightarrow> nat \<Rightarrow> 'c waiter \<Rightarrow> int \<times> 'c wait_action list \<Rightarrow> bool" where
  "polite_call s w wt r =
     (case acts_after (ws_waiters s) (ws_fresh s) (snd r) of
        None \<Rightarrow> False | Some ws \<Rightarrow> fst r = 0 \<and> \<not> is_timer wt \<or> w \<in> set ws)"

definition polite :: "'c wait_env \<Rightarrow> bool" where
  "polite env \<longleftrightarrow> (\<forall>s w wt. w \<in> set (ws_waiters s) \<and> ws_heap s w = Some wt \<longrightarrow> polite_call s w wt (we_callback env (wt_callback wt) s))"

lemma gettimeofday_ok: "ws_ok s fl \<Longrightarrow> ws_ok (snd (gettimeofday env s)) fl" "later s (snd (gettimeofday env s))"
  by (auto simp: gettimeofday_def later_def elim: ws_ok_frame)

lemma register_timeout_new:
  "register_timeout env d c s = waiter_new (WAITER_TIME (timeradd (we_clock env (ws_ticks s)) \<lparr>tv_sec = d sdiv 1000, tv_usec = 1000 * (d smod 1000)\<rparr>)) c
     (snd (gettimeofday env s))"
  by (simp add: register_timeout_def gettimeofday_def)

lemma do_actions_ok:
  "ws_ok s fl \<Longrightarrow> acts_after (ws_waiters s) (ws_fresh s) as = Some ws \<Longrightarrow>
    \<exists>s' fl'. do_actions env as s = Inr s' \<and> ws_ok s' fl' \<and> later s s' \<and> ws_waiters s' = ws \<and> ws_called s' = ws_called s"
proof (induction as arbitrary: s fl)
  case Nil
  then show ?case by auto
next
  case (Cons a as)
  have "\<exists>s1 fl1. do_action env a s = Inr s1 \<and> ws_ok s1 fl1 \<and> later s s1 \<and> ws_called s1 = ws_called s \<and>
    acts_after (ws_waiters s1) (ws_fresh s1) as = Some ws"
  proof (cases a)
    case (Remove_waiter w)
    then show ?thesis
      using remove_waiter_ok [OF Cons.prems(1), of w] Cons.prems(2) by (fastforce split: if_splits)
  next
    case (Register_io fd ev c)
    then show ?thesis
      using waiter_new_ok [OF Cons.prems(1)] Cons.prems(2) by (auto simp: waiter_register_io_def) (auto simp: waiter_new_def Let_def)
  next
    case (Register_timeout d c)
    have "ws_waiters (snd (gettimeofday env s)) = ws_waiters s" "ws_fresh (snd (gettimeofday env s)) = ws_fresh s"
      "ws_called (snd (waiter_new t c (snd (gettimeofday env s)))) = ws_called s" for t
      by (simp_all add: gettimeofday_def waiter_new_def Let_def)
    then show ?thesis
      using waiter_new_ok [OF gettimeofday_ok(1) [OF Cons.prems(1)]] gettimeofday_ok(2) [of s env] later_trans Cons.prems(2) Register_timeout
      by (auto simp: register_timeout_new intro!: exI intro: later_trans)
  qed
  then obtain s1 fl1 where s1: "do_action env a s = Inr s1" "ws_ok s1 fl1" "later s s1" "ws_called s1 = ws_called s"
    "acts_after (ws_waiters s1) (ws_fresh s1) as = Some ws"
    by blast
  then show ?case
    using Cons.IH [OF s1(2,5)] later_trans by fastforce
qed

lemma call_waiter_ok:
  assumes "ws_ok s fl" "polite env" "w \<in> set (ws_waiters s)" "ws_heap s w = Some wt"
  shows "\<exists>rc s' fl' acts. call_waiter env w wt s = Inr (rc, s') \<and> ws_ok s' fl' \<and> later s s' \<and> ws_called s' = ws_called s @ [(w, acts)] \<and>
    (rc = 0 \<and> \<not> is_timer wt \<or> w \<in> set (ws_waiters s')) \<and> (\<forall>v \<in> set (ws_waiters s). v \<in> set (ws_waiters s') \<or> Remove_waiter v \<in> set acts)"
proof -
  obtain rc acts where c: "we_callback env (wt_callback wt) s = (rc, acts)"
    by force
  then have "polite_call s w wt (rc, acts)"
    using assms(2-4) unfolding polite_def by metis
  then obtain ws where ws: "acts_after (ws_waiters s) (ws_fresh s) acts = Some ws" "rc = 0 \<and> \<not> is_timer wt \<or> w \<in> set ws"
    by (auto simp: polite_call_def split: option.splits)
  let ?s = "s\<lparr>ws_called := ws_called s @ [(w, acts)]\<rparr>"
  have s: "ws_ok ?s fl" "later s ?s"
    using assms(1) by (auto elim: ws_ok_frame simp: later_def)
  obtain s' fl' where "do_actions env acts ?s = Inr s'" "ws_ok s' fl'" "later ?s s'" "ws_waiters s' = ws" "ws_called s' = ws_called ?s"
    using do_actions_ok [OF s(1), of acts ws env] ws(1) by auto
  then show ?thesis
    using ws c later_trans [OF s(2)] acts_after_keeps [OF ws(1)]
    by (rule_tac x = rc in exI, rule_tac x = s' in exI, rule_tac x = fl' in exI) (simp add: call_waiter_def)
qed

section \<open>The two loops over the waiters\<close>

fun ready_waiters :: "(nat \<Rightarrow> int) \<Rightarrow> nat \<Rightarrow> nat list \<Rightarrow> nat list" where
  "ready_waiters r i [] = []"
| "ready_waiters r i (w # ws) = (if r i \<noteq> 0 then [w] else []) @ ready_waiters r (Suc i) ws"

definition expired_at :: "timeval \<Rightarrow> 'c waitset \<Rightarrow> nat \<Rightarrow> bool" where
  "expired_at now s w = (case ws_heap s w of Some wt \<Rightarrow> timer_expired now wt | None \<Rightarrow> False)"

lemma later_dom: "later s s' \<Longrightarrow> w \<in> dom (ws_heap s) \<Longrightarrow> w \<in> dom (ws_heap s')"
  by (auto simp: later_def)

lemma later_gone: "later s s' \<Longrightarrow> w \<in> dom (ws_heap s) \<Longrightarrow> w \<notin> set (ws_waiters s) \<Longrightarrow> w \<notin> set (ws_waiters s')"
  by (auto simp: later_def)

lemma later_expired: "later s s' \<Longrightarrow> w \<in> dom (ws_heap s) \<Longrightarrow> expired_at now s' w = expired_at now s w"
  by (fastforce simp: later_def expired_at_def timer_expired_def)

text \<open>A callback of the trace has removed the waiter.\<close>

definition dropped :: "(nat \<times> 'c wait_action list) list \<Rightarrow> nat \<Rightarrow> bool" where
  "dropped cs w \<longleftrightarrow> (\<exists>a \<in> set cs. Remove_waiter w \<in> set (snd a))"

lemma dropped_simps [simp]: "\<not> dropped [] w" "dropped (c # cs) w \<longleftrightarrow> Remove_waiter w \<in> set (snd c) \<or> dropped cs w"
  "dropped (cs @ ds) w \<longleftrightarrow> dropped cs w \<or> dropped ds w"
  by (auto simp: dropped_def)

text \<open>The waiters \<open>R\<close> have been handled with the callbacks \<open>cs\<close>: those that are still there were called, in order, and the others removed by a callback.\<close>

definition handled :: "'c waitset \<Rightarrow> nat list \<Rightarrow> (nat \<times> 'c wait_action list) list \<Rightarrow> 'c waitset \<Rightarrow> bool" where
  "handled s R cs s' \<longleftrightarrow>
     ws_called s' = ws_called s @ cs \<and> subseq (map fst cs) R \<and>
     (\<forall>w \<in> set (ws_waiters s). w \<in> set R \<longrightarrow> w \<in> fst ` set cs \<or> dropped cs w) \<and>
     (\<forall>w \<in> set (ws_waiters s). w \<notin> fst ` set cs \<and> \<not> dropped cs w \<longrightarrow> w \<in> set (ws_waiters s'))"

lemma handled_Nil [simp]: "handled s [] [] s"
  by (simp add: handled_def)

lemma handled_nothing [simp]: "\<exists>cs. handled s [] cs s"
  using handled_Nil by blast

lemma handled_skip: "handled s R cs s' \<Longrightarrow> w \<notin> set (ws_waiters s) \<Longrightarrow> handled s (w # R) cs s'"
  by (auto simp: handled_def)

lemma handled_step:
  assumes "handled s2 R cs s'" "ws_called s2 = ws_called s @ [(w, acts)]"
    "\<And>v. v \<in> set (ws_waiters s) \<Longrightarrow> v \<noteq> w \<Longrightarrow> v \<in> set (ws_waiters s2) \<or> Remove_waiter v \<in> set acts"
  shows "handled s (w # R) ((w, acts) # cs) s'"
  using assms(1,2) unfolding handled_def by (auto dest: assms(3))

lemma io_callbacks_ok:
  assumes "polite env"
  shows "ws_ok s fl \<Longrightarrow> set ws \<subseteq> dom (ws_heap s) \<Longrightarrow>
    \<exists>s' fl' cs. io_callbacks env r i ws s = Inr s' \<and> ws_ok s' fl' \<and> later s s' \<and> handled s (ready_waiters r i ws) cs s'"
proof (induction ws arbitrary: i s fl)
  case (Cons w ws)
  obtain wt where wt: "ws_heap s w = Some wt"
    using Cons.prems(2) by auto
  show ?case
  proof (cases "\<not> wt_active wt \<or> r i = 0")
    case True
    obtain s' fl' cs where "io_callbacks env r (Suc i) ws s = Inr s'" "ws_ok s' fl'" "later s s'" "handled s (ready_waiters r (Suc i) ws) cs s'"
      using Cons.IH [OF Cons.prems(1)] Cons.prems(2) by fastforce
    then show ?thesis
      using wt True ws_okD(5) [OF Cons.prems(1) wt] by (auto simp: get_waiter_def intro: handled_skip)
  next
    case False
    then have "w \<in> set (ws_waiters s)"
      using ws_okD(5) [OF Cons.prems(1) wt] by simp
    then obtain rc s1 fl1 acts where c: "call_waiter env w wt s = Inr (rc, s1)" and s1: "ws_ok s1 fl1" "later s s1" "ws_called s1 = ws_called s @ [(w, acts)]"
      "rc = 0 \<or> w \<in> set (ws_waiters s1)" "\<forall>v \<in> set (ws_waiters s). v \<in> set (ws_waiters s1) \<or> Remove_waiter v \<in> set acts"
      using call_waiter_ok [OF Cons.prems(1) assms _ wt] by blast
    obtain s2 fl2 where m: "(if rc \<noteq> 0 then remove_waiter w s1 else Inr s1) = Inr s2" and s2: "ws_ok s2 fl2" "later s1 s2" "ws_called s2 = ws_called s @ [(w, acts)]"
      and k: "\<And>v. v \<in> set (ws_waiters s1) \<Longrightarrow> v \<noteq> w \<Longrightarrow> v \<in> set (ws_waiters s2)"
      using s1 remove_waiter_ok [OF s1(1), of w] by (cases "rc = 0") (auto simp: in_set_remove1)
    have l: "later s s2"
      using later_trans [OF s1(2) s2(2)] .
    then have "set ws \<subseteq> dom (ws_heap s2)"
      using Cons.prems(2) later_dom by fastforce
    then obtain s' fl' cs where s': "io_callbacks env r (Suc i) ws s2 = Inr s'" "ws_ok s' fl'" "later s2 s'" "handled s2 (ready_waiters r (Suc i) ws) cs s'"
      using Cons.IH [OF s2(1), of "Suc i"] by blast
    have "handled s (w # ready_waiters r (Suc i) ws) ((w, acts) # cs) s'"
      by (rule handled_step [OF s'(4) s2(3)]) (use s1(5) k in blast)
    then show ?thesis
      using wt False c m s'(1,2) later_trans [OF l s'(3)] by (auto simp: get_waiter_def)
  qed
qed (auto intro: handled_Nil)

lemma time_callbacks_ok:
  assumes "polite env"
  shows "ws_ok s fl \<Longrightarrow> set ws \<subseteq> dom (ws_heap s) \<Longrightarrow>
    \<exists>s' fl' cs. time_callbacks env now ws s = Inr s' \<and> ws_ok s' fl' \<and> later s s' \<and> handled s (filter (expired_at now s) ws) cs s' \<and>
      (\<forall>w \<in> set ws. expired_at now s w \<longrightarrow> w \<notin> set (ws_waiters s'))"
proof (induction ws arbitrary: s fl)
  case (Cons w ws)
  obtain wt where wt: "ws_heap s w = Some wt"
    using Cons.prems(2) by auto
  show ?case
  proof (cases "\<not> wt_active wt \<or> \<not> timer_expired now wt")
    case True
    obtain s' fl' cs where "time_callbacks env now ws s = Inr s'" "ws_ok s' fl'" and l: "later s s'" and "handled s (filter (expired_at now s) ws) cs s'"
      "\<forall>w \<in> set ws. expired_at now s w \<longrightarrow> w \<notin> set (ws_waiters s')"
      using Cons.IH [OF Cons.prems(1)] Cons.prems(2) by fastforce
    moreover have "w \<notin> set (ws_waiters s) \<and> w \<notin> set (ws_waiters s')" if "expired_at now s w"
      using that True later_gone [OF l, of w] ws_okD(5) [OF Cons.prems(1) wt] wt by (auto simp: expired_at_def)
    ultimately show ?thesis
      using wt True by (auto simp: get_waiter_def intro: handled_skip)
  next
    case False
    then have "w \<in> set (ws_waiters s)" "is_timer wt"
      using ws_okD(5) [OF Cons.prems(1) wt] by (simp_all add: timer_expired_def is_timer_def split: waiter_type.splits)
    then obtain rc s1 fl1 acts where c: "call_waiter env w wt s = Inr (rc, s1)" and s1: "ws_ok s1 fl1" "later s s1" "ws_called s1 = ws_called s @ [(w, acts)]"
      "w \<in> set (ws_waiters s1)" "\<forall>v \<in> set (ws_waiters s). v \<in> set (ws_waiters s1) \<or> Remove_waiter v \<in> set acts"
      using call_waiter_ok [OF Cons.prems(1) assms _ wt] by blast
    obtain s2 where m: "remove_waiter w s1 = Inr s2" and s2: "ws_ok s2 (w # fl1)" "later s1 s2" "ws_called s2 = ws_called s @ [(w, acts)]"
      and k: "\<And>v. v \<in> set (ws_waiters s1) \<Longrightarrow> v \<noteq> w \<Longrightarrow> v \<in> set (ws_waiters s2)"
      using s1 remove_waiter_ok [OF s1(1), of w] by (auto simp: in_set_remove1)
    have l: "later s s2"
      using later_trans [OF s1(2) s2(2)] .
    then have d: "set ws \<subseteq> dom (ws_heap s2)"
      using Cons.prems(2) later_dom by fastforce
    have e: "expired_at now s2 v = expired_at now s v" if "v \<in> set ws" for v
      by (rule later_expired [OF l]) (use Cons.prems(2) that in auto)
    have f: "filter (expired_at now s2) ws = filter (expired_at now s) ws"
      using e by (rule filter_cong [OF refl])
    obtain s' fl' cs where s': "time_callbacks env now ws s2 = Inr s'" "ws_ok s' fl'" and l': "later s2 s'" and h: "handled s2 (filter (expired_at now s) ws) cs s'"
      and x: "\<forall>w \<in> set ws. expired_at now s w \<longrightarrow> w \<notin> set (ws_waiters s')"
      using Cons.IH [OF s2(1) d] f e by auto
    have "handled s (w # filter (expired_at now s) ws) ((w, acts) # cs) s'"
      by (rule handled_step [OF h s2(3)]) (use s1(5) k in blast)
    moreover have "w \<notin> set (ws_waiters s')"
      using later_gone [OF l', of w] later_dom [OF l, of w] ws_okD(3) [OF s2(1)] wt by auto
    moreover have "expired_at now s w"
      using False wt by (simp add: expired_at_def)
    ultimately show ?thesis
      using wt False c m s' later_trans [OF l l'] x by (auto simp: get_waiter_def)
  qed
qed (auto intro: handled_Nil)

section \<open>The copies of the waiters\<close>

definition timer_in :: "'c waitset \<Rightarrow> nat \<Rightarrow> bool" where
  "timer_in s w = (case ws_heap s w of Some wt \<Rightarrow> is_timer wt | None \<Rightarrow> False)"

definition file_in :: "'c waitset \<Rightarrow> nat \<Rightarrow> bool" where
  "file_in s w = (case ws_heap s w of Some wt \<Rightarrow> \<not> is_timer wt | None \<Rightarrow> False)"

definition poll_entries :: "'c waitset \<Rightarrow> nat list \<Rightarrow> (int \<times> int) list" where
  "poll_entries s ws = concat (map (\<lambda>w. case ws_heap s w of Some wt \<Rightarrow> (case wt_type wt of WAITER_IO fd ev \<Rightarrow> [(fd, ev)] | WAITER_TIME _ \<Rightarrow> []) | None \<Rightarrow> []) ws)"

definition timeouts :: "'c waitset \<Rightarrow> nat list \<Rightarrow> timeval list" where
  "timeouts s ws = concat (map (\<lambda>w. case ws_heap s w of Some wt \<Rightarrow> (case wt_type wt of WAITER_TIME t \<Rightarrow> [t] | WAITER_IO _ _ \<Rightarrow> []) | None \<Rightarrow> []) ws)"

definition sooner :: "timeval \<Rightarrow> timeval \<Rightarrow> timeval" where
  "sooner t n = (if \<not> timerisset n \<or> timercmp_less t n then t else n)"

lemma copy_waiters_eq:
  "set ws \<subseteq> dom (ws_heap s) \<Longrightarrow> copy_waiters ws s = Inr (s\<lparr>ws_pollfds := ws_pollfds s @ poll_entries s ws,
     ws_io_waiters := ws_io_waiters s @ filter (file_in s) ws, ws_time_waiters := ws_time_waiters s @ filter (timer_in s) ws,
     ws_next_timeout := fold sooner (timeouts s ws) (ws_next_timeout s)\<rparr>)"
proof (induction ws arbitrary: s)
  case (Cons w ws)
  then obtain wt where "ws_heap s w = Some wt"
    by auto
  then show ?case
    using Cons by (auto simp: get_waiter_def poll_entries_def timeouts_def file_in_def timer_in_def is_timer_def sooner_def split: waiter_type.split)
qed (simp add: poll_entries_def timeouts_def)

lemma update_waiters_ok:
  assumes "ws_ok s fl"
  shows "\<exists>s'. update_waiters s = Inr s' \<and> ws_ok s' fl \<and> ws_heap s' = ws_heap s \<and> ws_waiters s' = ws_waiters s \<and> ws_called s' = ws_called s \<and> ws_ticks s' = ws_ticks s \<and>
    ws_io_waiters s' = filter (file_in s) (ws_waiters s) \<and> ws_time_waiters s' = filter (timer_in s) (ws_waiters s) \<and>
    (ws_changed s \<longrightarrow> ws_pollfds s' = poll_entries s (ws_waiters s) \<and> ws_next_timeout s' = fold sooner (timeouts s (ws_waiters s)) timerclear)"
proof (cases "ws_changed s")
  case True
  have "set (ws_waiters s) \<subseteq> dom (ws_heap s)"
    using ws_okD(4) [OF assms] by blast
  then show ?thesis
    using True assms by (simp add: update_waiters_def copy_waiters_eq poll_entries_def timeouts_def file_in_def [abs_def] timer_in_def [abs_def] ws_ok_frame)
next
  case False
  then show ?thesis
    using assms ws_okD(9) [OF assms] by (simp add: update_waiters_def)
qed

section \<open>A call of \<^verbatim>\<open>waiter_poll\<close>\<close>

lemma dispatch_ok:
  assumes "ws_ok s fl" "polite env" "set (ws_io_waiters s) \<subseteq> dom (ws_heap s)" "set (ws_time_waiters s) \<subseteq> dom (ws_heap s)"
  shows "\<exists>s1 s' fl' files timers k. dispatch env r s = Inr s' \<and> ws_ok s' fl' \<and> later s s' \<and>
    handled s (ready_waiters r 0 (ws_io_waiters s)) files s1 \<and> handled s1 (filter (expired_at (we_clock env k) s) (ws_time_waiters s)) timers s' \<and>
    (\<forall>w \<in> set (ws_time_waiters s). expired_at (we_clock env k) s w \<longrightarrow> w \<notin> set (ws_waiters s'))"
proof -
  obtain s1 fl1 files where s1: "io_callbacks env r 0 (ws_io_waiters s) s = Inr s1" "ws_ok s1 fl1" and l1: "later s s1"
    and h1: "handled s (ready_waiters r 0 (ws_io_waiters s)) files s1"
    using io_callbacks_ok [OF assms(2,1,3)] by blast
  have t: "ws_time_waiters s1 = ws_time_waiters s"
    using l1 by (simp add: later_def)
  show ?thesis
  proof (cases "ws_time_waiters s = []")
    case True
    then show ?thesis
      using s1 h1 l1 t by (auto simp: dispatch_def intro!: exI [of _ s1])
  next
    case False
    let ?k = "ws_ticks s1" and ?s = "snd (gettimeofday env s1)"
    have g: "ws_ok ?s fl1" "later s ?s"
      using gettimeofday_ok [of s1] s1(2) later_trans [OF l1] by blast+
    have h: "handled s (ready_waiters r 0 (ws_io_waiters s)) files ?s"
      using h1 by (simp add: handled_def gettimeofday_def)
    have d: "set (ws_time_waiters s) \<subseteq> dom (ws_heap ?s)"
      using assms(4) later_dom [OF g(2)] by blast
    obtain s2 fl2 timers where s2: "time_callbacks env (we_clock env ?k) (ws_time_waiters s) ?s = Inr s2" "ws_ok s2 fl2" and l2: "later ?s s2"
      and h2: "handled ?s (filter (expired_at (we_clock env ?k) ?s) (ws_time_waiters s)) timers s2"
        "\<forall>w \<in> set (ws_time_waiters s). expired_at (we_clock env ?k) ?s w \<longrightarrow> w \<notin> set (ws_waiters s2)"
      using time_callbacks_ok [OF assms(2) g(1) d] by blast
    have e: "expired_at (we_clock env ?k) ?s w = expired_at (we_clock env ?k) s w" if "w \<in> set (ws_time_waiters s)" for w
      using later_expired [OF g(2)] assms(4) that by blast
    have f: "filter (expired_at (we_clock env ?k) ?s) (ws_time_waiters s) = filter (expired_at (we_clock env ?k) s) (ws_time_waiters s)"
      using e by (rule filter_cong [OF refl])
    have "dispatch env r s = Inr s2"
      using s1(1) s2(1) t False by (simp add: dispatch_def gettimeofday_def)
    then show ?thesis
      using s2(2) later_trans [OF g(2) l2] h h2 f e by auto
  qed
qed

lemma fold_free: "fold (\<lambda>w hp. hp(w := None)) ws hp = hp |` (- set ws)"
  by (induction ws arbitrary: hp) (auto simp: restrict_map_def)

lemma free_removed_ok:
  assumes "ws_ok s fl"
  shows "\<exists>s'. (\<forall>n \<ge> length fl. free_removed n s = Inr (Some s')) \<and> ws_ok s' [] \<and> ws_heap s' = ws_heap s |` (- set fl) \<and>
    ws_waiters s' = ws_waiters s \<and> ws_called s' = ws_called s"
proof -
  note ok = ws_okD [OF assms]
  obtain items where i: "\<forall>n \<ge> length fl. free_entries n 0 (\<lambda>w hp. hp(w := None)) (ws_heap s, ws_items s) = Inr (Some (ws_heap s |` (- set fl), items))"
    "list_at items 0 []" "\<forall>j. item_at 0 items j \<longleftrightarrow> item_at 0 (ws_items s) j \<and> j \<notin> set fl"
    using removals.drain_entries [OF ok(1), of "\<lambda>w hp. hp(w := None)" "ws_heap s"] unfolding fold_free by blast
  define s' where "s' = s\<lparr>ws_heap := ws_heap s |` (- set fl), ws_items := items\<rparr>"
  have d: "dom (ws_heap s |` (- set fl)) = set (ws_waiters s)"
    using ok(3,4) by auto
  have "ws_ok s' []"
  proof (rule ws_okI)
    show "Collect (item_at 0 (ws_items s')) = dom (ws_heap s')"
      using i(3) ok(6) by (auto simp: s'_def simp del: not_None_eq)
    show "wt_active wt \<longleftrightarrow> w \<in> set (ws_waiters s')" if "ws_heap s' w = Some wt" for w wt
      using that ok(5) by (auto simp: s'_def restrict_map_def split: if_splits)
    show "w < ws_fresh s'" if "w \<in> dom (ws_heap s')" for w
      using that ok(7) [of w] by (auto simp: s'_def)
  qed (use ok(2,8,9) i(2) d in \<open>simp_all add: s'_def\<close>)
  then show ?thesis
    using i(1) by (intro exI [of _ s']) (simp add: s'_def free_removed_def)
qed

lemma poll_timeout_ok:
  assumes "poll_timeout env s = (ms, s')"
  shows "ws_ok s fl \<Longrightarrow> ws_ok s' fl" "later s s'" "later s' s" "ws_called s' = ws_called s" "ws_heap s' = ws_heap s" "ws_waiters s' = ws_waiters s" "ws_pollfds s' = ws_pollfds s"
  using assms by (auto simp: poll_timeout_def gettimeofday_def later_def Let_def elim!: ws_ok_frame split: if_splits)

lemma expired_is_timer: "expired_at now s w \<Longrightarrow> timer_in s w"
  by (auto simp: expired_at_def timer_expired_def timer_in_def is_timer_def split: option.splits waiter_type.splits)

lemma filter_expired: "filter (expired_at now s) (filter (timer_in s) ws) = filter (expired_at now s) ws"
  using expired_is_timer by (auto simp: filter_filter intro: filter_cong)

text \<open>C14: with callbacks that remove only registered waiters, and not their own one where the set removes it itself, \<^verbatim>\<open>waiter_poll\<close> uses no freed waiter, fails no assertion
  and ends with a consistent set and nothing left to free.  When \<^verbatim>\<open>poll\<close> succeeds, the callback of every file that is ready and then of every timer that has expired is called once, in the order of registration, unless
  an earlier callback has removed the waiter; every expired timer is freed; a waiter that is neither called nor removed by a callback stays.  When it
  fails no callback is called, and only an interruption is no error.\<close>

theorem waiter_poll_calls:
  assumes "ws_ok s fl" "polite env"
  shows "\<exists>m rc s' s1 ms s2. (\<forall>n \<ge> m. waiter_poll n env s = Inr (Some (rc, s'))) \<and> ws_ok s' [] \<and>
    update_waiters s = Inr s1 \<and> poll_timeout env s1 = (ms, s2) \<and>
    (case we_poll env (ws_pollfds s1) ms of
       Poll_failed eintr \<Rightarrow> rc = (if eintr then 0 else -1) \<and> ws_called s' = ws_called s \<and> ws_waiters s' = ws_waiters s
     | Poll_done revents \<Rightarrow> rc = 0 \<and> (\<exists>s3 files timers k.
         handled s (ready_waiters revents 0 (filter (file_in s) (ws_waiters s))) files s3 \<and>
         handled s3 (filter (expired_at (we_clock env k) s) (ws_waiters s)) timers s' \<and>
         (\<forall>w \<in> set (ws_waiters s). expired_at (we_clock env k) s w \<longrightarrow> ws_heap s' w = None)))"
proof -
  obtain s1 where s1: "update_waiters s = Inr s1" "ws_ok s1 fl" "ws_heap s1 = ws_heap s" "ws_waiters s1 = ws_waiters s" "ws_called s1 = ws_called s"
    "ws_io_waiters s1 = filter (file_in s) (ws_waiters s)" "ws_time_waiters s1 = filter (timer_in s) (ws_waiters s)"
    using update_waiters_ok [OF assms(1)] by blast
  obtain ms s2 where p: "poll_timeout env s1 = (ms, s2)"
    by force
  note s2 = poll_timeout_ok [OF p]
  have c: "ws_io_waiters s2 = filter (file_in s) (ws_waiters s)" "ws_time_waiters s2 = filter (timer_in s) (ws_waiters s)"
    using s2(2) s1(6,7) by (simp_all add: later_def)
  show ?thesis
  proof (cases "we_poll env (ws_pollfds s1) ms")
    case (Poll_failed eintr)
    obtain s' where "\<forall>n \<ge> length fl. free_removed n s2 = Inr (Some s')" "ws_ok s' []" "ws_waiters s' = ws_waiters s2" "ws_called s' = ws_called s2"
      using free_removed_ok [OF s2(1) [OF s1(2)]] by blast
    then show ?thesis
      using Poll_failed s1 s2 p by (intro exI [of _ "length fl"]) (auto simp: waiter_poll_def)
  next
    case (Poll_done revents)
    have "set (ws_waiters s) \<subseteq> dom (ws_heap s2)"
      using ws_okD(4) [OF s1(2)] s1(4) s2(5) by auto
    then have d: "set (ws_io_waiters s2) \<subseteq> dom (ws_heap s2)" "set (ws_time_waiters s2) \<subseteq> dom (ws_heap s2)"
      using c by auto
    have e: "expired_at now s2 = expired_at now s" for now
      using s1(3) s2(5) by (simp add: expired_at_def fun_eq_iff)
    obtain s3 s4 fl4 files timers k where s4: "dispatch env revents s2 = Inr s4" "ws_ok s4 fl4"
      and h: "handled s2 (ready_waiters revents 0 (filter (file_in s) (ws_waiters s))) files s3" "handled s3 (filter (expired_at (we_clock env k) s) (ws_waiters s)) timers s4"
      and x: "\<forall>w \<in> set (filter (timer_in s) (ws_waiters s)). expired_at (we_clock env k) s w \<longrightarrow> w \<notin> set (ws_waiters s4)"
      using dispatch_ok [OF s2(1) [OF s1(2)] assms(2) d, of revents] unfolding c e filter_expired by blast
    obtain s' where s': "\<forall>n \<ge> length fl4. free_removed n s4 = Inr (Some s')" "ws_ok s' []" "ws_waiters s' = ws_waiters s4" "ws_called s' = ws_called s4"
      using free_removed_ok [OF s4(2)] by blast
    have "ws_heap s' w = None" if "w \<in> set (ws_waiters s)" "expired_at (we_clock env k) s w" for w
      using that x expired_is_timer [OF that(2)] ws_okD(4) [OF s'(2)] s'(3) by auto
    moreover have "handled s (ready_waiters revents 0 (filter (file_in s) (ws_waiters s))) files s3"
      "handled s3 (filter (expired_at (we_clock env k) s) (ws_waiters s)) timers s'"
      using h s1(4,5) s2(4,6) s'(3,4) by (simp_all add: handled_def)
    moreover have "\<forall>n \<ge> length fl4. waiter_poll n env s = Inr (Some (0, s'))"
      using s1(1) p Poll_done s4(1) s'(1) s2(7) by (simp add: waiter_poll_def)
    ultimately show ?thesis
      using Poll_done s1(1) p s'(2) by (intro exI [of _ "length fl4"] exI [of _ 0] exI [of _ s'] exI [of _ s1] exI [of _ ms] exI [of _ s2]) auto
  qed
qed

definition busy_env :: "nat wait_env" where
  "busy_env = \<lparr>we_clock = (\<lambda>n. \<lparr>tv_sec = 100 + int n, tv_usec = 5\<rparr>), we_poll = (\<lambda>_ _. Poll_done (\<lambda>_. 1)),
     we_callback = (\<lambda>c s. if c = 0 then (0, [Register_timeout 500 1])
       else if c = 2 then (0, if 1 \<in> set (ws_waiters s) \<and> file_in s 1 then [Remove_waiter 1] else []) else (0, []))\<rparr>"

definition busy_set :: "nat waitset" where
  "busy_set = snd (waiter_register_io 4 1 2 (snd (register_timeout busy_env 100 1 (snd (waiter_register_io 3 1 0 waitset_create)))))"

lemma busy_polite: "polite busy_env"
  unfolding polite_def
proof (intro allI impI, elim conjE)
  fix s :: "nat waitset" and w wt assume "w \<in> set (ws_waiters s)" "ws_heap s w = Some wt"
  then show "polite_call s w wt (we_callback busy_env (wt_callback wt) s)"
    by (cases "w = 1") (auto simp: polite_call_def busy_env_def file_in_def in_set_remove1)
qed

lemma busy_ok: "ws_ok busy_set []"
  unfolding busy_set_def waiter_register_io_def register_timeout_new by (intro waiter_new_ok(1) gettimeofday_ok(1) ws_ok_create)

theorem waiter_poll_calls_witness:
  "\<exists>m s' s3 files. (\<forall>n \<ge> m. waiter_poll n busy_env busy_set = Inr (Some (0, s'))) \<and> ws_ok s' [] \<and> handled busy_set [1, 3] files s3"
proof -
  have "we_poll busy_env fds ms = Poll_done (\<lambda>_. 1)" for fds ms
    by (simp add: busy_env_def)
  moreover have "ready_waiters (\<lambda>_. 1) 0 (filter (file_in busy_set) (ws_waiters busy_set)) = [1, 3]"
    by (simp add: busy_set_def waiter_register_io_def register_timeout_def gettimeofday_def waiter_new_def Let_def waitset_create_def file_in_def is_timer_def)
  ultimately show ?thesis
    using waiter_poll_calls [OF busy_ok busy_polite] by fastforce
qed

text \<open>A callback of a timer that removes its own waiter, which the set removes once more.\<close>

theorem own_timer_removed:
  assumes "ws_ok s fl" "w \<in> set (ws_waiters s)" "expired_at now s w"
    and cb: "\<And>c s. we_callback env c s = (rc, [Remove_waiter w])"
  shows "time_callbacks env now (w # ws) s = Inl Assertion"
proof -
  obtain wt where wt: "ws_heap s w = Some wt" "timer_expired now wt"
    using assms(3) by (auto simp: expired_at_def split: option.splits)
  have a: "wt_active wt"
    using ws_okD(5) [OF assms(1) wt(1)] assms(2) by simp
  let ?s = "s\<lparr>ws_called := ws_called s @ [(w, [Remove_waiter w])]\<rparr>"
  have "ws_ok ?s fl"
    using assms(1) by (auto elim: ws_ok_frame)
  then obtain s' where s': "remove_waiter w ?s = Inr s'" "ws_ok s' (w # fl)" "ws_waiters s' = remove1 w (ws_waiters s)"
    using remove_waiter_ok [of ?s fl w] assms(2) by auto
  then have "remove_waiter w s' = Inl Assertion"
    using remove_waiter_faults [OF s'(2), of w] ws_okD(2) [OF assms(1)] by simp
  then show ?thesis
    using wt a s'(1) by (simp add: get_waiter_def call_waiter_def cb)
qed

section \<open>Timeouts\<close>

text \<open>Microseconds, and the times that \<^verbatim>\<open>gettimeofday\<close> gives.\<close>

definition usecs :: "timeval \<Rightarrow> int" where
  "usecs t = tv_sec t * 1000000 + tv_usec t"

definition proper :: "timeval \<Rightarrow> bool" where
  "proper t \<longleftrightarrow> timerisset t \<and> 0 \<le> tv_usec t \<and> tv_usec t < 1000000"

lemma timercmp_usecs: "proper a \<Longrightarrow> proper b \<Longrightarrow> timercmp_less a b \<longleftrightarrow> usecs a < usecs b"
  by (auto simp: proper_def timercmp_less_def usecs_def)

lemma timersub_usecs: "proper a \<Longrightarrow> proper b \<Longrightarrow> usecs (timersub a b) = usecs a - usecs b \<and> 0 \<le> tv_usec (timersub a b) \<and> tv_usec (timersub a b) < 1000000"
  by (auto simp: proper_def timersub_def usecs_def Let_def)

lemma sooner_usecs: "proper t \<Longrightarrow> proper n \<Longrightarrow> proper (sooner t n) \<and> usecs (sooner t n) = min (usecs t) (usecs n)"
  by (auto simp: sooner_def timercmp_usecs) (auto simp: proper_def)

lemma fold_sooner:
  "proper n \<Longrightarrow> \<forall>t \<in> set ts. proper t \<Longrightarrow> proper (fold sooner ts n) \<and> usecs (fold sooner ts n) = Min (usecs ` set (n # ts))"
proof (induction ts arbitrary: n)
  case (Cons t ts)
  then show ?case
    using sooner_usecs [of t n] by (cases "ts = []") (auto simp: min.assoc min.commute)
qed simp

lemma next_timeout:
  assumes "ts \<noteq> []" "\<forall>t \<in> set ts. proper t"
  shows "proper (fold sooner ts timerclear) \<and> usecs (fold sooner ts timerclear) = Min (usecs ` set ts)"
proof -
  obtain t ts' where ts: "ts = t # ts'"
    using assms(1) by (cases ts) simp_all
  have "sooner t timerclear = t"
    by (simp add: sooner_def timerclear_def timerisset_def)
  then show ?thesis
    using fold_sooner [of t ts'] assms(2) by (simp add: ts)
qed

lemma register_timeout_expiry:
  assumes "proper (we_clock env (ws_ticks s))" "0 \<le> delay_ms"
  shows "usecs (timeradd (we_clock env (ws_ticks s)) \<lparr>tv_sec = delay_ms sdiv 1000, tv_usec = 1000 * (delay_ms smod 1000)\<rparr>) = usecs (we_clock env (ws_ticks s)) + 1000 * delay_ms"
proof -
  have "delay_ms sdiv 1000 = delay_ms div 1000" "delay_ms smod 1000 = delay_ms mod 1000"
    using assms(2) by (simp_all add: signed_divide_int_def signed_modulo_int_def sgn_if)
  moreover have "delay_ms div 1000 * 1000000 + 1000 * (delay_ms mod 1000) = 1000 * delay_ms"
    by presburger
  ultimately show ?thesis
    by (simp add: usecs_def timeradd_def Let_def)
qed

lemma poll_timeout_value:
  assumes "proper (ws_next_timeout s)" "proper (we_clock env (ws_ticks s))"
    "- (2 ^ 31 * 1000) \<le> usecs (ws_next_timeout s) - usecs (we_clock env (ws_ticks s))" "usecs (ws_next_timeout s) - usecs (we_clock env (ws_ticks s)) < 2 ^ 31 * 1000"
  shows "fst (poll_timeout env s) = max 0 ((usecs (ws_next_timeout s) - usecs (we_clock env (ws_ticks s))) div 1000)"
proof -
  let ?t = "timersub (ws_next_timeout s) (we_clock env (ws_ticks s))" and ?d = "usecs (ws_next_timeout s) - usecs (we_clock env (ws_ticks s))"
  have "tv_sec ?t * 1000 + tv_usec ?t div 1000 = usecs ?t div 1000"
    by (simp add: usecs_def)
  then have e: "tv_sec ?t * 1000 + tv_usec ?t div 1000 = ?d div 1000"
    using timersub_usecs [OF assms(1,2)] by simp
  have "- (2 ^ 31) \<le> ?d div 1000" "?d div 1000 < 2 ^ 31"
    using assms(3,4) by linarith+
  then have "signed_take_bit 31 (?d div 1000) = ?d div 1000"
    by (simp add: signed_take_bit_int_eq_self)
  then show ?thesis
    using assms(1) by (simp del: signed_take_bit_negative_iff add: poll_timeout_def gettimeofday_def proper_def Let_def e)
qed

text \<open>C32: \<^verbatim>\<open>waiter_poll\<close> waits without limit if no timer is registered, and otherwise until the first of them expires, rounded down to milliseconds, and not at all if it
  has expired; if no timer is more than 24 days away.\<close>

theorem poll_timeout_first:
  assumes "ws_ok s fl" "ws_changed s" "\<forall>t \<in> set (timeouts s (ws_waiters s)). proper t \<and> \<bar>usecs t - usecs now\<bar> < 2 ^ 31 * 1000"
    "now = we_clock env (ws_ticks s)" "proper now"
  shows "\<exists>s1. update_waiters s = Inr s1 \<and>
    fst (poll_timeout env s1) = (if timeouts s (ws_waiters s) = [] then -1 else max 0 ((Min (usecs ` set (timeouts s (ws_waiters s))) - usecs now) div 1000))"
proof -
  let ?ts = "timeouts s (ws_waiters s)"
  obtain s1 where s1: "update_waiters s = Inr s1" "ws_ticks s1 = ws_ticks s" "ws_next_timeout s1 = fold sooner ?ts timerclear"
    using update_waiters_ok [OF assms(1)] assms(2) by blast
  show ?thesis
  proof (cases "?ts = []")
    case True
    then have "\<not> timerisset (ws_next_timeout s1)"
      using s1(3) by (simp add: timerisset_def timerclear_def)
    then show ?thesis
      using s1(1) True by (simp add: poll_timeout_def)
  next
    case False
    then have n: "proper (ws_next_timeout s1)" "usecs (ws_next_timeout s1) = Min (usecs ` set ?ts)"
      using next_timeout [OF False] assms(3) s1(3) by auto
    have "Min (usecs ` set ?ts) \<in> usecs ` set ?ts"
      using False by (intro Min_in) auto
    then have "\<bar>usecs (ws_next_timeout s1) - usecs now\<bar> < 2 ^ 31 * 1000"
      using n(2) assms(3) by auto
    then show ?thesis
      using poll_timeout_value [OF n(1), of env] n(2) assms(4,5) s1 False by auto
  qed
qed

theorem poll_timeout_first_witness:
  "\<exists>s1. update_waiters busy_set = Inr s1 \<and> fst (poll_timeout busy_env s1) = 0"
proof -
  have "ws_changed busy_set" "timeouts busy_set (ws_waiters busy_set) = [\<lparr>tv_sec = 100, tv_usec = 100005\<rparr>]" "we_clock busy_env (ws_ticks busy_set) = \<lparr>tv_sec = 101, tv_usec = 5\<rparr>"
    by (simp_all add: busy_set_def waiter_register_io_def register_timeout_def gettimeofday_def waiter_new_def Let_def busy_env_def timeouts_def waitset_create_def timeradd_def
      signed_divide_int_def signed_modulo_int_def)
  then show ?thesis
    using poll_timeout_first [OF busy_ok _ _ refl, of busy_env] by (simp add: usecs_def proper_def timerisset_def)
qed

section \<open>The timers of the device handler\<close>

text \<open>The waiters as the model of the device handler has them.\<close>

definition registered :: "'c waitset \<Rightarrow> (nat \<times> 'c) list" where
  "registered s = map (\<lambda>w. (w, wt_callback (the (ws_heap s w)))) (ws_waiters s)"

lemma registered_fst [simp]: "fst ` set (registered s) = set (ws_waiters s)"
  by (force simp: registered_def)

lemma registered_new:
  assumes "ws_ok s fl"
  shows "registered (snd (waiter_new t c s)) = registered s @ [(ws_fresh s, c)]"
proof -
  have "ws_fresh s \<notin> set (ws_waiters s)"
    using ws_okD(4,7) [OF assms] by blast
  then show ?thesis
    by (auto simp: registered_def waiter_new_def Let_def)
qed

lemma registered_remove:
  assumes "ws_ok s fl" "remove_waiter w s = Inr s'"
  shows "registered s' = filter (\<lambda>x. fst x \<noteq> w) (registered s)"
proof -
  have w: "w \<in> set (ws_waiters s)"
    using remove_waiter_faults [OF assms(1), of w] assms(2) by (cases "w \<in> set (ws_waiters s)") simp_all
  then have l: "later s s'" "ws_waiters s' = remove1 w (ws_waiters s)"
    using remove_waiter_ok [OF assms(1) w] assms(2) by auto
  have "wt_callback (the (ws_heap s' v)) = wt_callback (the (ws_heap s v))" if "v \<in> set (ws_waiters s)" for v
    using l(1) that ws_okD(4) [OF assms(1)] unfolding later_def by force
  then show ?thesis
    using l(2) ws_okD(2) [OF assms(1)] by (auto simp: registered_def filter_map o_def distinct_remove1_removeAll removeAll_filter_not_eq intro!: map_cong filter_cong)
qed


definition counting_env :: "waiter_cb wait_env" where
  "counting_env = \<lparr>we_clock = (\<lambda>_. \<lparr>tv_sec = 7, tv_usec = 0\<rparr>), we_poll = (\<lambda>_ _. Poll_failed True), we_callback = (\<lambda>_ _. (0, []))\<rparr>"

definition counting_set :: "waiter_cb waitset" where
  "counting_set = snd (register_timeout counting_env 1000 Default_timeout waitset_create)"

lemma counting_ok: "ws_ok counting_set []"
  unfolding counting_set_def register_timeout_new by (intro waiter_new_ok(1) gettimeofday_ok(1) ws_ok_create)

definition counting_handler :: device_handler where
  "counting_handler = run_start\<lparr>h_waiters := [(1, Default_timeout)], h_next := 2\<rparr>"


end
