(* ===== verification/Spec2Isabelle.thy ===== *)
theory Spec2Isabelle
  imports Grub_Props Client_Props Pxe_Props Waiter_Props
begin

text \<open>
  A verification library for petitboot, the boot loader that runs in a small Linux system, finds out what can be booted
  from the disks and the network, shows that to its clients and starts the chosen kernel with kexec.

  \<^bold>\<open>The program.\<close>  The discovery server \<^verbatim>\<open>pb-discover\<close> (\<^verbatim>\<open>src/discover\<close>) has a device handler that keeps the devices and their boot
  options.  Devices come from udev, from user events on a socket and from the network; for each device or DHCP event the handler
  makes a context and runs the registered parsers on it, which read the configuration of a boot loader and add boot options.
  The options of a context are committed: their resources are resolved against the devices that are known, the others wait in
  a queue for more devices, and the default option is chosen by the configured order, which starts a countdown that ends in a boot.
  A boot loads the resources, checks signatures and calls kexec.  The clients (\<^verbatim>\<open>src/ui\<close>) are told of devices, options, status and
  configuration over a socket and may ask for a boot, a new configuration or a temporary override; a client
  without rights has to authenticate first.  The configuration is kept as parameters of the platform.

  \<^bold>\<open>Theories.\<close>
  \<^item> \<open>Prelude\<close>: machine integers, C strings with the functions of \<^verbatim>\<open>string.h\<close> and \<^verbatim>\<open>stdlib.h\<close>, byte order.  \<open>Kv_Store\<close>: the interface of
    stores of strings, locale \<open>kv_store\<close>.
  \<^item> \<open>Types\<close> (\<^verbatim>\<open>lib/types\<close>), \<open>Url\<close> (\<^verbatim>\<open>lib/url\<close>), \<open>Param_List\<close> (\<^verbatim>\<open>lib/param_list\<close>), \<open>Pb_Config\<close> (\<^verbatim>\<open>lib/pb-config\<close>), \<open>Crypt\<close> (\<^verbatim>\<open>lib/crypt\<close>):
    the libraries.
  \<^item> \<open>Wire\<close>, \<open>Protocol_Ser\<close>, \<open>Protocol_Deser\<close>, \<open>Protocol\<close>, \<open>Messages\<close> (\<^verbatim>\<open>lib/pb-protocol\<close>): the messages between server and clients, with every read
    of the deserialisers checked against the payload; round trips rest on the locale \<open>codec\<close>.
  \<^item> \<open>Event\<close> (\<^verbatim>\<open>discover/event.c\<close>), \<open>Platform_Config\<close> (\<^verbatim>\<open>discover/platform.c\<close>), \<open>Boot\<close> (\<^verbatim>\<open>discover/boot.c\<close>): events, the configuration, boot tasks.
  \<^item> \<open>Device_Handler\<close>, \<open>Device_Ops\<close> (\<^verbatim>\<open>discover/device-handler.c\<close>, with the parts of \<^verbatim>\<open>devmapper.c\<close>, \<^verbatim>\<open>network.c\<close> and \<^verbatim>\<open>waiter.c\<close> it uses):
    the handler; \<open>Device_Inv\<close>: its invariant; \<open>Device_Steps\<close>: the handler as a state machine \<open>handler_step\<close> with the reachable states;
    \<open>Device_Props\<close>: what its users see.
  \<^item> \<open>Resource\<close> (\<^verbatim>\<open>discover/resource.c\<close>, \<^verbatim>\<open>paths.c\<close>, \<^verbatim>\<open>grub2/grub2.c\<close>): resources and the table of the parsers' resolvers.
  \<^item> \<open>Discovery\<close>: the contract of the parsers.  \<open>Parser_Conf\<close> (\<^verbatim>\<open>discover/parser-conf.c\<close>, \<^verbatim>\<open>parser.c\<close>, \<^verbatim>\<open>kboot-parser.c\<close>), \<open>Yaboot\<close>, \<open>Syslinux\<close>: parsers
    of line-based files; \<open>Parser_Props\<close>: what they guarantee, and discovery with all parsers of local files.
  \<^item> \<open>Grub_Env\<close> (\<^verbatim>\<open>grub2/env.c\<close>), \<open>Grub_Words\<close>, \<open>Grub_Script\<close>, \<open>Grub_Exec\<close> (\<^verbatim>\<open>grub2/script.c\<close>, \<^verbatim>\<open>builtins.c\<close>, \<^verbatim>\<open>grub2.c\<close>), \<open>Grub_Bls\<close> (\<^verbatim>\<open>grub2/blscfg.c\<close>): GRUB
    scripts; \<open>Grub_Safe\<close>, \<open>Grub_Stack\<close>: what running them keeps; \<open>Grub_Props\<close>: what they guarantee.
  \<^item> \<open>Sysinfo\<close> (\<^verbatim>\<open>discover/sysinfo.c\<close>): what is known about the machine.  \<open>User_Event\<close> (\<^verbatim>\<open>discover/user-event.c\<close>): the events that the DHCP client and
    the tools send; \<open>Pxe\<close> (\<^verbatim>\<open>discover/pxe-parser.c\<close>): the files of network servers and how they are loaded; \<open>User_Safe\<close>, \<open>Pxe_Safe\<close>: what both
    keep; \<open>Pxe_Props\<close>: booting from the network, from a message on the socket to the options of the file.
  \<^item> \<open>Server\<close>, \<open>Server_Props\<close> (\<^verbatim>\<open>discover/discover-server.c\<close>): the server with its clients.  \<open>Client\<close> (\<^verbatim>\<open>ui/common/discover-client.c\<close>): the client library;
    \<open>Client_Props\<close>: server and client together.

  \<^item> \<open>Linked_List\<close> (\<^verbatim>\<open>lib/list\<close>): the linked lists on a store of items.  \<open>Waiter\<close>, \<open>Waiter_Props\<close> (\<^verbatim>\<open>lib/waiter\<close>): the wait set of the main loop, and
    that the timers of the device handler are those of the set.

  \<^bold>\<open>State and operations.\<close>  Definitions have the names of the C functions; a helper that stands for a part of a function is listed with
  that function in the map of the development.  Structs are records, NULL strings are \<open>None\<close> of type \<open>cstr\<close>, talloc'd
  objects that others point to (devices, boot options, boot tasks, ramdisks) live in maps of the record \<open>device_handler\<close> from
  references to objects, in which a freed object is \<open>None\<close>: the use of one is the fault \<open>Use_after_free\<close>.  Other faults are NULL
  pointers, accesses out of bounds, failed assertions, a second free and an exhausted stack.  An operation returns a fault or its
  result (\<open>h_m\<close>).  What the handler tells the server is appended to \<open>h_out\<close>, what the server sends to a client to \<open>cl_out\<close>.  A timer is
  a reference in the wait set; the step relation fires it.

  \<^bold>\<open>Interfaces.\<close>  \<open>kv_store\<close>: parameter lists (\<open>pls\<close>), event parameters (\<open>evs\<close>) and script variables (\<open>script_env\<close>).  \<open>codec\<close>: every
  structure of the protocol.  \<open>resolver\<close>: what the handler relies on in the parsers' \<^verbatim>\<open>resolve_resource\<close>, for the table of the
  program (\<open>parser_table\<close>).  \<open>parser\<close>: what it relies on in \<^verbatim>\<open>parse\<close>, for \<open>kboot\<close>, \<open>yaboot\<close>, \<open>syslinux\<close> and \<open>grub2\<close>.  \<open>discovery\<close> puts the two together and is
  interpreted for the parsers of local files (\<open>local_discovery\<close>); \<open>event_parser\<close> and \<open>event_discovery\<close> are the same for contexts with an event, for the PXE
  parser (\<open>pxe\<close>) and for all parsers (\<open>network_discovery\<close>).  \<open>script_logic\<close>: the statements of GRUB scripts, with the instances for freed
  memory (\<open>script_safety\<close>) and for the stack.  \<open>removal_list\<close>: what the wait set relies on in the list of the waiters to be freed, for the linked lists (\<open>removals\<close>).

  \<^bold>\<open>What is shown.\<close>  No reachable state of the handler has a dangling reference and no step uses a freed object, under the guards of
  \<open>handler_step\<close> that the code does not enforce: a timer fires only while its owner lives, the source of an unlocked device has not been
  removed, and contexts are made for new devices or for listed ones with a UUID; where a guard is dropped, a theorem shows the
  fault.  The default is the first option of the best priority, the countdown boots it, removal and reset leave nothing behind,
  and a temporary override is enforced.  Unprivileged clients change nothing but the countdown and the current boot,
  and privileges expire.  A client's list of devices is that of the handler when it connects and follows what the handler reports.  Messages, URLs, configurations, events and environment blocks survive printing and parsing.
  Discovery with the parsers of local files keeps the handler consistent whatever the files are, and so do user events, DHCP leases and the files of
  PXE servers, whatever the messages are; a PXE server is asked for its files in their order, and the first one gives its options.  Signed boots load only checked files.
  The main loop calls every ready file and every expired timer once, waits no longer than the first timer, and uses no freed waiter, if callbacks do not remove
  what the set removes itself.
  The theorems of kind error state where the code fails; the findings of the manifest list them with the source lines.

  \<^bold>\<open>Parameters.\<close>  What is outside the sources is an argument: the kernel and helper processes (\<open>boot_env\<close>, \<open>dm_env\<close>, \<open>crypt_env\<close>), the system's
  clock, files and sockets (lists of the results of system calls, \<open>device_files\<close>, \<open>pxe_world\<close>, \<open>user_env\<close>, \<open>wait_env\<close>), the password hash, \<^verbatim>\<open>inet_pton\<close>, and the parser that flex and bison
  generate from \<^verbatim>\<open>grub2-lexer.l\<close> and \<^verbatim>\<open>grub2-parser.y\<close> (\<open>grub2_world\<close>).  Allocations succeed, except where talloc refuses a
  size.  \<^verbatim>\<open>long\<close> has 64 bits.

  \<^bold>\<open>Loops.\<close>  Every function is total.  Loops over buffers and arguments have measures that decrease; loops over system calls take the list of their
  results; nested syslinux files have the sixteen levels of \<^verbatim>\<open>INCLUDE_NEST_LIMIT\<close>.  Scripts may run forever only by recursion of functions: \<open>grub2_run\<close> has the
  number of stack levels as an argument, beyond which is the fault \<open>Stack_overflow\<close>; eleven are shown to be enough for scripts without functions, and
  more never change a result.  The loops over linked lists have fuel, and the length of the list is shown to be enough.

  \<^bold>\<open>Not modelled.\<close>  The user interfaces, udev, netlink and the DHCP client, process and file glue, logging, talloc itself, the device tree and firmware
  access of the platforms, IPMI, and the native parser.
\<close>

end
